(* ===== verification/Prelude.thy ===== *)
theory Prelude
  imports Main "HOL-Library.Word" "HOL-Library.Monad_Syntax"
begin

text \<open>
  Shared vocabulary of the development: the machine types of the Go program, byte-string
  readings, the checked arithmetic of \<^verbatim>\<open>common/math/integer.go\<close>, the padding helpers of
  \<^verbatim>\<open>common/bytes.go\<close>, and the generic facts on maps and lists the components share.

  Conventions: a Go \<^verbatim>\<open>panic\<close> (nil dereference, index out of range, explicit panic) is the
  value \<^term>\<open>None\<close> of an option result; a returned Go \<^verbatim>\<open>error\<close> is an ordinary value.
  \<^verbatim>\<open>common.Address\<close> and \<^verbatim>\<open>common.Hash\<close> are 20 and 32 bytes read big endian; \<^verbatim>\<open>uint256.Int\<close>
  is its 256-bit value; \<^verbatim>\<open>*big.Int\<close> is an integer.
\<close>

unbundle bit_operations_syntax

type_synonym byte = "8 word"
type_synonym bytes = "byte list"
type_synonym u64 = "64 word"
type_synonym u256 = "256 word"
type_synonym address = "160 word"
type_synonym hash = "256 word"

named_theorems unfold_op \<comment> \<open>defining equations of the operations of a component\<close>
named_theorems frame \<comment> \<open>fields an operation leaves alone\<close>

section \<open>Panics\<close>

text \<open>A guard that panics when its condition fails.\<close>

definition require :: "bool \<Rightarrow> unit option" where
  "require b = (if b then Some () else None)"

lemma require_simps [simp]:
  "require True = Some ()" "require False = None"
  "(require b = Some u) = b" "(require b = None) = (\<not> b)"
  by (simp_all add: require_def)

lemma bind_eq_Some_iff [simp]:
  "(Option.bind x f = Some z) = (\<exists>y. x = Some y \<and> f y = Some z)"
  by (cases x) auto

section \<open>Byte strings\<close>

text \<open>
  \<open>SetBytes\<close> of \<^verbatim>\<open>Hash\<close>, \<^verbatim>\<open>Address\<close> and \<^verbatim>\<open>uint256.Int\<close>: the big-endian reading of
  a byte string; bytes beyond the width are cropped from the left, which the wrap-around of the
  word does.
\<close>

definition be_word :: "bytes \<Rightarrow> 'a::len word" where
  "be_word bs = foldl (\<lambda>acc b. acc * 256 + ucast b) 0 bs"

text \<open>\<open>Bytes32\<close>, \<open>Bytes20\<close>: the \<open>n\<close> big-endian bytes of a word.\<close>

definition to_be :: "nat \<Rightarrow> 'a::len word \<Rightarrow> bytes" where
  "to_be n w = map (\<lambda>i. ucast (drop_bit (8 * (n - Suc i)) w)) [0..<n]"

lemma length_to_be [simp]: "length (to_be n w) = n"
  by (simp add: to_be_def)

lemma be_word_Nil [simp]: "be_word [] = 0"
  by (simp add: be_word_def)

lemma be_word_snoc: "be_word (bs @ [b]) = be_word bs * 256 + ucast b"
  by (simp add: be_word_def)

lemma to_be_0 [simp]: "to_be 0 w = []" by (simp add: to_be_def)
lemma to_be_Suc: "to_be (Suc n) w = to_be n (drop_bit 8 w) @ [ucast w]"
  by (auto simp: to_be_def drop_bit_drop_bit Suc_diff_Suc intro!: arg_cong[where f=ucast] arg_cong2[where f=drop_bit])
lemma byte_split: "(w :: 'a::len word) = push_bit 8 (drop_bit 8 w) OR take_bit 8 w"
  by (rule bit_eqI) (auto simp: bit_simps)
lemma be_word_to_be: "be_word (to_be n w) = (take_bit (8 * n) w :: 'a::len word)"
proof (induction n arbitrary: w)
  case (Suc n)
  have "be_word (to_be (Suc n) w) = take_bit (8 * n) (drop_bit 8 w) * 256 + ucast (ucast w :: byte)"
    by (simp add: to_be_Suc be_word_snoc Suc.IH)
  also have "take_bit (8 * n) (drop_bit 8 w) * 256 = push_bit 8 (take_bit (8 * n) (drop_bit 8 w))"
    by (simp add: push_bit_eq_mult)
  also have "(ucast (ucast w :: byte) :: 'a word) = take_bit 8 w"
    by (rule bit_eqI) (auto simp: bit_simps)
  also have "push_bit 8 (take_bit (8 * n) (drop_bit 8 w)) + take_bit 8 w =
      push_bit 8 (take_bit (8 * n) (drop_bit 8 w)) OR take_bit 8 w"
    by (rule disjunctive_add) (auto simp: bit_simps)
  also have "\<dots> = take_bit (8 * Suc n) w"
    by (rule bit_eqI) (auto simp: bit_simps)
  finally show ?case .
qed simp

text \<open>\<open>RightPadBytes\<close> (common/bytes.go).\<close>

definition RightPadBytes :: "bytes \<Rightarrow> nat \<Rightarrow> bytes" where
  "RightPadBytes s l = (if l \<le> length s then s else s @ replicate (l - length s) 0)"

lemma length_RightPadBytes [simp]: "length (RightPadBytes s l) = max l (length s)"
  by (simp add: RightPadBytes_def)

text \<open>Go's \<open>copy(dst[off:], src)\<close>: as many bytes as both slices hold.\<close>

definition copy_at :: "bytes \<Rightarrow> nat \<Rightarrow> bytes \<Rightarrow> bytes" where
  "copy_at dst off src =
     (let n = min (length dst - off) (length src)
      in take off dst @ take n src @ drop (off + n) dst)"

lemma length_copy_at [simp]: "off \<le> length dst \<Longrightarrow> length (copy_at dst off src) = length dst"
  by (auto simp: copy_at_def Let_def min_def)

text \<open>Go's slice expression \<open>s[lo:hi]\<close>; out of range it panics.\<close>

definition go_slice :: "'a list \<Rightarrow> nat \<Rightarrow> nat \<Rightarrow> 'a list option" where
  "go_slice s lo hi = (if lo \<le> hi \<and> hi \<le> length s then Some (take (hi - lo) (drop lo s)) else None)"

lemma length_go_slice: "go_slice s lo hi = Some t \<Longrightarrow> length t = hi - lo"
  by (auto simp: go_slice_def split: if_splits)

text \<open>Go's index expression.\<close>

definition idx :: "'a list \<Rightarrow> nat \<Rightarrow> 'a option" where
  "idx s i = (if i < length s then Some (s ! i) else None)"

lemma idx_Some [simp]: "(idx s i = Some x) = (i < length s \<and> x = s ! i)"
  by (auto simp: idx_def)

section \<open>Checked 64-bit arithmetic (common/math/integer.go)\<close>

definition MaxUint64 :: u64 where "MaxUint64 = 18446744073709551615"

definition SafeAdd :: "u64 \<Rightarrow> u64 \<Rightarrow> u64 \<times> bool" where
  "SafeAdd x y = (x + y, unat x + unat y \<ge> 2 ^ 64)"

definition SafeSub :: "u64 \<Rightarrow> u64 \<Rightarrow> u64 \<times> bool" where
  "SafeSub x y = (x - y, unat x < unat y)"

definition SafeMul :: "u64 \<Rightarrow> u64 \<Rightarrow> u64 \<times> bool" where
  "SafeMul x y = (x * y, unat x * unat y \<ge> 2 ^ 64)"

lemma unat_lt_64 [simp]: "unat (x :: u64) < 18446744073709551616"
  by (rule order.strict_trans2 [OF unsigned_less]) simp

lemma SafeAdd_ok: "SafeAdd x y = (z, False) \<Longrightarrow> unat z = unat x + unat y"
  by (auto simp: SafeAdd_def unat_word_ariths)

lemma SafeMul_ok: "SafeMul x y = (z, False) \<Longrightarrow> unat z = unat x * unat y"
  by (auto simp: SafeMul_def unat_word_ariths)

lemma SafeSub_ok: "SafeSub x y = (z, False) \<Longrightarrow> unat z = unat x - unat y"
  by (auto simp: SafeSub_def unat_sub_if')

section \<open>Maps\<close>

text \<open>Deleting a key, and the map of a Go \<open>map\<close> updated pointwise by a \<open>range\<close> loop.\<close>

definition map_delete :: "'k \<Rightarrow> ('k \<rightharpoonup> 'v) \<Rightarrow> ('k \<rightharpoonup> 'v)" where
  "map_delete k m = m(k := None)"

lemma map_delete_apply [simp]: "map_delete k m x = (if x = k then None else m x)"
  by (simp add: map_delete_def)

lemma map_delete_upd [simp]: "m k = None \<Longrightarrow> map_delete k (m(k \<mapsto> v)) = m"
  by (auto simp: map_delete_def)

text \<open>Reading a missing key of a Go map gives the zero value.\<close>

definition get0 :: "('k \<rightharpoonup> 'v::zero) \<Rightarrow> 'k \<Rightarrow> 'v" where
  "get0 m k = (case m k of None \<Rightarrow> 0 | Some v \<Rightarrow> v)"

lemma get0_simps [simp]: "m k = None \<Longrightarrow> get0 m k = 0" "m k = Some v \<Longrightarrow> get0 m k = v"
  by (simp_all add: get0_def)

end
