(* ===== verification/AccountState.thy ===== *)
theory AccountState
  imports Prelude
begin

text \<open>
  \<^verbatim>\<open>hunter/trace/account_state.go\<close>: the tracer's own picture of the accounts, slots, codes,
  nonces and balances a run touched, its committed copy, its snapshots and its reverts.  Go's
  \<open>range\<close> over a map visits the keys in an unspecified order; a loop whose effect could depend on
  the order takes the order as an argument, a list that enumerates the keys.
\<close>

section \<open>Data\<close>

record touched_state =
  touchedStorageMap :: "address \<rightharpoonup> (hash \<rightharpoonup> hash)"
  touchedCodeMap :: "address \<rightharpoonup> bytes option" \<comment> \<open>\<open>Some None\<close>: an entry holding the nil slice\<close>
  touchedNonceMap :: "address \<rightharpoonup> u64"
  touchedBalanceMap :: "address \<rightharpoonup> int"

text \<open>
  \<open>CommitedAccountState\<close> is built by \<open>deepCopy\<close>, which leaves the RPC fields and the
  committed pointer of the copy unset, so the copy is just the four maps; a snapshot
  (\<open>AccountStateSnapshot\<close>) has the same four maps.
\<close>

record account_state = touched_state +
  rpcURL :: string
  requireRPC :: bool
  CommitedAccountState :: touched_state

type_synonym AccountStateSnapshot = touched_state

definition empty_touched :: touched_state where
  "empty_touched = \<lparr>touchedStorageMap = Map.empty, touchedCodeMap = Map.empty,
     touchedNonceMap = Map.empty, touchedBalanceMap = Map.empty\<rparr>"

section \<open>Copies\<close>

definition deepCopy :: "('a) touched_state_scheme \<Rightarrow> touched_state" where
  "deepCopy st =
     \<lparr>touchedStorageMap = (\<lambda>a. map_option (\<lambda>m k. m k) (touchedStorageMap st a)),
      touchedCodeMap = touchedCodeMap st,
      touchedNonceMap = touchedNonceMap st,
      touchedBalanceMap = touchedBalanceMap st\<rparr>"

definition CommitAccountState :: "account_state \<Rightarrow> account_state" where
  "CommitAccountState st = st\<lparr>CommitedAccountState := deepCopy st\<rparr>"

definition ExportSnapshot :: "('a) touched_state_scheme \<Rightarrow> AccountStateSnapshot" where
  "ExportSnapshot st =
     \<lparr>touchedStorageMap = (\<lambda>a. map_option (\<lambda>m k. m k) (touchedStorageMap st a)),
      touchedCodeMap = touchedCodeMap st,
      touchedNonceMap = touchedNonceMap st,
      touchedBalanceMap = touchedBalanceMap st\<rparr>"

definition InitAccountState :: account_state where
  "InitAccountState = CommitAccountState
     (touched_state.extend empty_touched
        \<lparr>rpcURL = [], requireRPC = False, CommitedAccountState = empty_touched\<rparr>)"

definition SetRequireRPC :: "account_state \<Rightarrow> bool \<Rightarrow> account_state" where
  "SetRequireRPC st flag = st\<lparr>requireRPC := flag\<rparr>"

definition IsRequirePRC :: "account_state \<Rightarrow> bool" where
  "IsRequirePRC st = requireRPC st"

section \<open>Storage\<close>

definition IsTouchedStorage :: "('a) touched_state_scheme \<Rightarrow> address \<Rightarrow> hash \<Rightarrow> bool" where
  "IsTouchedStorage st a k = (case touchedStorageMap st a of None \<Rightarrow> False | Some m \<Rightarrow> m k \<noteq> None)"

definition UpdateTouchedStorage ::
  "('a) touched_state_scheme \<Rightarrow> address \<Rightarrow> hash \<Rightarrow> hash \<Rightarrow> ('a) touched_state_scheme" where
  "UpdateTouchedStorage st a k v =
     (let m = (case touchedStorageMap st a of None \<Rightarrow> Map.empty | Some m \<Rightarrow> m)
      in st\<lparr>touchedStorageMap := (touchedStorageMap st)(a \<mapsto> m(k \<mapsto> v))\<rparr>)"

definition GetStorage :: "('a) touched_state_scheme \<Rightarrow> address \<Rightarrow> hash \<Rightarrow> hash" where
  "GetStorage st a k = (case touchedStorageMap st a of None \<Rightarrow> 0 | Some m \<Rightarrow> get0 m k)"

section \<open>Code\<close>

definition IsTouchedCode :: "('a) touched_state_scheme \<Rightarrow> address \<Rightarrow> bool" where
  "IsTouchedCode st a = (touchedCodeMap st a \<noteq> None)"

text \<open>The code is appended byte by byte to what the map already holds; a nil slice appends like an empty one.\<close>

fun UpdateTouchedCode :: "('a) touched_state_scheme \<Rightarrow> address \<Rightarrow> bytes \<Rightarrow> ('a) touched_state_scheme" where
  "UpdateTouchedCode st a [] = st"
| "UpdateTouchedCode st a (b # code) =
     (let old = (case touchedCodeMap st a of Some (Some c) \<Rightarrow> c | _ \<Rightarrow> [])
      in UpdateTouchedCode (st\<lparr>touchedCodeMap := (touchedCodeMap st)(a \<mapsto> Some (old @ [b]))\<rparr>) a code)"

definition as_GetCode :: "('a) touched_state_scheme \<Rightarrow> address \<Rightarrow> bytes option" where
  "as_GetCode st a = Option.bind (touchedCodeMap st a) id"

section \<open>Nonce and balance\<close>

definition IsTouchedNonce :: "('a) touched_state_scheme \<Rightarrow> address \<Rightarrow> bool" where
  "IsTouchedNonce st a = (touchedNonceMap st a \<noteq> None)"

definition UpdateTouchedNonce :: "('a) touched_state_scheme \<Rightarrow> address \<Rightarrow> u64 \<Rightarrow> ('a) touched_state_scheme" where
  "UpdateTouchedNonce st a n = st\<lparr>touchedNonceMap := (touchedNonceMap st)(a \<mapsto> n)\<rparr>"

definition as_GetNonce :: "('a) touched_state_scheme \<Rightarrow> address \<Rightarrow> u64" where
  "as_GetNonce st a = get0 (touchedNonceMap st) a"

definition IsTouchedBalance :: "('a) touched_state_scheme \<Rightarrow> address \<Rightarrow> bool" where
  "IsTouchedBalance st a = (touchedBalanceMap st a \<noteq> None)"

definition UpdateTouchedBalance :: "('a) touched_state_scheme \<Rightarrow> address \<Rightarrow> int \<Rightarrow> ('a) touched_state_scheme" where
  "UpdateTouchedBalance st a n = st\<lparr>touchedBalanceMap := (touchedBalanceMap st)(a \<mapsto> n)\<rparr>"

text \<open>\<open>new(big.Int).Set\<close> of a missing (nil) balance dereferences nil.\<close>

definition as_GetBalance :: "('a) touched_state_scheme \<Rightarrow> address \<Rightarrow> int option" where
  "as_GetBalance st a = touchedBalanceMap st a"

definition UpdateTouchedMap ::
  "('a) touched_state_scheme \<Rightarrow> address \<Rightarrow> int \<Rightarrow> u64 \<Rightarrow> bytes \<Rightarrow> ('a) touched_state_scheme" where
  "UpdateTouchedMap st a balance nonce code =
     UpdateTouchedNonce (UpdateTouchedBalance (UpdateTouchedCode st a code) a balance) a nonce"

section \<open>The committed copy\<close>

definition GetCommittedStorage :: "account_state \<Rightarrow> address \<Rightarrow> hash \<Rightarrow> hash" where
  "GetCommittedStorage st a k = GetStorage (CommitedAccountState st) a k"

definition GetCommittedBalance :: "account_state \<Rightarrow> address \<Rightarrow> int option" where
  "GetCommittedBalance st a = as_GetBalance (CommitedAccountState st) a"

definition GetCommitedNonce :: "account_state \<Rightarrow> address \<Rightarrow> u64" where
  "GetCommitedNonce st a = as_GetNonce (CommitedAccountState st) a"

section \<open>Reverting to a snapshot\<close>

text \<open>
  The interface \<^verbatim>\<open>trace.StateDB\<close> the revert writes through, as a record of its setters and
  getters over a state \<open>'s\<close>; a getter may fill the state's caches.
\<close>

record 's trace_statedb =
  td_SetBalance :: "'s \<Rightarrow> address \<Rightarrow> int \<Rightarrow> 's"
  td_SetNonce :: "'s \<Rightarrow> address \<Rightarrow> u64 \<Rightarrow> 's"
  td_SetState :: "'s \<Rightarrow> address \<Rightarrow> hash \<Rightarrow> hash \<Rightarrow> 's"
  td_GetBalance :: "'s \<Rightarrow> address \<Rightarrow> int \<times> 's"
  td_GetNonce :: "'s \<Rightarrow> address \<Rightarrow> u64 \<times> 's"
  td_GetCode :: "'s \<Rightarrow> address \<Rightarrow> bytes option \<times> 's"
  td_GetState :: "'s \<Rightarrow> address \<Rightarrow> hash \<Rightarrow> hash \<times> 's"

definition snap_storage_value :: "account_state \<Rightarrow> AccountStateSnapshot \<Rightarrow> address \<Rightarrow> hash \<Rightarrow> hash" where
  "snap_storage_value st snap a k =
     (case touchedStorageMap snap a of
        None \<Rightarrow> GetCommittedStorage st a k
      | Some m \<Rightarrow> (case m k of None \<Rightarrow> GetCommittedStorage st a k | Some v \<Rightarrow> v))"

definition snap_nonce_value :: "account_state \<Rightarrow> AccountStateSnapshot \<Rightarrow> address \<Rightarrow> u64" where
  "snap_nonce_value st snap a =
     (case touchedNonceMap snap a of None \<Rightarrow> GetCommitedNonce st a | Some n \<Rightarrow> n)"

definition snap_balance_value :: "account_state \<Rightarrow> AccountStateSnapshot \<Rightarrow> address \<Rightarrow> int option" where
  "snap_balance_value st snap a =
     (case touchedBalanceMap snap a of None \<Rightarrow> GetCommittedBalance st a | Some n \<Rightarrow> Some n)"

fun revert_storage ::
  "'s trace_statedb \<Rightarrow> AccountStateSnapshot \<Rightarrow> bool \<Rightarrow> (address \<times> hash) list \<Rightarrow>
   account_state \<times> 's \<Rightarrow> account_state \<times> 's" where
  "revert_storage D snap reset [] (st, db) = (st, db)"
| "revert_storage D snap reset ((a, k) # order) (st, db) =
     (let st' = UpdateTouchedStorage st a k (snap_storage_value st snap a k);
          db' = (if reset then td_SetState D db a k (GetStorage st' a k) else db)
      in revert_storage D snap reset order (st', db'))"

fun revert_balances ::
  "'s trace_statedb \<Rightarrow> AccountStateSnapshot \<Rightarrow> bool \<Rightarrow> address list \<Rightarrow>
   account_state \<times> 's \<Rightarrow> (account_state \<times> 's) option" where
  "revert_balances D snap reset [] (st, db) = Some (st, db)"
| "revert_balances D snap reset (a # order) (st, db) = do {
     b \<leftarrow> snap_balance_value st snap a;
     let st' = UpdateTouchedBalance st a b;
     let db' = (if reset then td_SetBalance D db a b else db);
     revert_balances D snap reset order (st', db') }"

fun revert_nonces ::
  "'s trace_statedb \<Rightarrow> AccountStateSnapshot \<Rightarrow> bool \<Rightarrow> address list \<Rightarrow>
   account_state \<times> 's \<Rightarrow> account_state \<times> 's" where
  "revert_nonces D snap reset [] (st, db) = (st, db)"
| "revert_nonces D snap reset (a # order) (st, db) =
     (let st' = UpdateTouchedNonce st a (snap_nonce_value st snap a);
          db' = (if reset then td_SetNonce D db a (as_GetNonce st' a) else db)
      in revert_nonces D snap reset order (st', db'))"

text \<open>The orders in which the three maps are visited.\<close>

record visit_order =
  vo_storage :: "(address \<times> hash) list"
  vo_balance :: "address list"
  vo_nonce :: "address list"
  vo_code :: "address list"

definition visits :: "visit_order \<Rightarrow> ('a) touched_state_scheme \<Rightarrow> bool" where
  "visits vo st \<longleftrightarrow>
     set (vo_storage vo) = {(a, k). IsTouchedStorage st a k} \<and> distinct (vo_storage vo) \<and>
     set (vo_balance vo) = dom (touchedBalanceMap st) \<and> distinct (vo_balance vo) \<and>
     set (vo_nonce vo) = dom (touchedNonceMap st) \<and> distinct (vo_nonce vo) \<and>
     set (vo_code vo) = dom (touchedCodeMap st) \<and> distinct (vo_code vo)"

definition RevertAccountState ::
  "'s trace_statedb \<Rightarrow> visit_order \<Rightarrow> account_state \<Rightarrow> AccountStateSnapshot \<Rightarrow> 's \<Rightarrow> bool \<Rightarrow>
   (account_state \<times> 's) option" where
  "RevertAccountState D vo st snap db reset = do {
     let p = revert_storage D snap reset (vo_storage vo) (st, db);
     p \<leftarrow> revert_balances D snap reset (vo_balance vo) p;
     Some (revert_nonces D snap reset (vo_nonce vo) p) }"

section \<open>Synchronising with the state database\<close>

fun sync_storage :: "'s trace_statedb \<Rightarrow> (address \<times> hash) list \<Rightarrow> account_state \<times> 's \<Rightarrow> account_state \<times> 's" where
  "sync_storage D [] p = p"
| "sync_storage D ((a, k) # order) (st, db) =
     (let (v, db') = td_GetState D db a k in sync_storage D order (UpdateTouchedStorage st a k v, db'))"

fun sync_code :: "'s trace_statedb \<Rightarrow> address list \<Rightarrow> account_state \<times> 's \<Rightarrow> account_state \<times> 's" where
  "sync_code D [] p = p"
| "sync_code D (a # order) (st, db) =
     (let (c, db') = td_GetCode D db a
      in sync_code D order (st\<lparr>touchedCodeMap := (touchedCodeMap st)(a \<mapsto> c)\<rparr>, db'))"

fun sync_balance :: "'s trace_statedb \<Rightarrow> address list \<Rightarrow> account_state \<times> 's \<Rightarrow> account_state \<times> 's" where
  "sync_balance D [] p = p"
| "sync_balance D (a # order) (st, db) =
     (let (b, db') = td_GetBalance D db a in sync_balance D order (UpdateTouchedBalance st a b, db'))"

fun sync_nonce :: "'s trace_statedb \<Rightarrow> address list \<Rightarrow> account_state \<times> 's \<Rightarrow> account_state \<times> 's" where
  "sync_nonce D [] p = p"
| "sync_nonce D (a # order) (st, db) =
     (let (n, db') = td_GetNonce D db a in sync_nonce D order (UpdateTouchedNonce st a n, db'))"

definition SyncStateDB :: "'s trace_statedb \<Rightarrow> visit_order \<Rightarrow> account_state \<Rightarrow> 's \<Rightarrow> account_state \<times> 's" where
  "SyncStateDB D vo st db =
     sync_nonce D (vo_nonce vo) (sync_balance D (vo_balance vo)
       (sync_code D (vo_code vo) (sync_storage D (vo_storage vo) (st, db))))"

section \<open>What the operations do\<close>

text \<open>Updating storage, nonces and balances is pointwise; the other maps stay.\<close>

lemma IsTouchedStorage_Update [simp]:
  "IsTouchedStorage (UpdateTouchedStorage st a k v) b j \<longleftrightarrow> (b = a \<and> j = k) \<or> IsTouchedStorage st b j"
  by (auto simp: IsTouchedStorage_def UpdateTouchedStorage_def split: option.splits)

lemma GetStorage_Update [simp]:
  "GetStorage (UpdateTouchedStorage st a k v) b j = (if b = a \<and> j = k then v else GetStorage st b j)"
  by (auto simp: GetStorage_def UpdateTouchedStorage_def get0_def split: option.splits)

lemma UpdateTouchedCode_appends:
  "code \<noteq> [] \<Longrightarrow> touchedCodeMap (UpdateTouchedCode st a code) =
     (touchedCodeMap st)(a \<mapsto> (case touchedCodeMap st a of Some (Some c) \<Rightarrow> Some (c @ code) | _ \<Rightarrow> Some code))"
proof (induction code arbitrary: st)
  case (Cons b code)
  show ?case
  proof (cases "code = []")
    case False
    from Cons.IH [OF this] show ?thesis by (simp add: Let_def fun_eq_iff split: option.split)
  qed (simp add: Let_def fun_eq_iff split: option.split)
qed simp

text \<open>
  The state after a revert: exactly the touched slots, nonces and balances are overwritten with
  their value in the snapshot or, when the snapshot does not have them, with the committed value.
\<close>

definition reverted :: "account_state \<Rightarrow> AccountStateSnapshot \<Rightarrow> account_state" where
  "reverted st snap = st\<lparr>
     touchedStorageMap := (\<lambda>a. map_option (\<lambda>m k. map_option (\<lambda>_. snap_storage_value st snap a k) (m k))
       (touchedStorageMap st a)),
     touchedBalanceMap := (\<lambda>a. if touchedBalanceMap st a = None then None else snap_balance_value st snap a),
     touchedNonceMap := (\<lambda>a. map_option (\<lambda>_. snap_nonce_value st snap a) (touchedNonceMap st a))\<rparr>"

lemma committed_frame [simp]:
  "CommitedAccountState (UpdateTouchedStorage st a k v) = CommitedAccountState st"
  "CommitedAccountState (UpdateTouchedBalance st a n) = CommitedAccountState st"
  "CommitedAccountState (UpdateTouchedNonce st a m) = CommitedAccountState st"
  by (cases st; simp add: UpdateTouchedStorage_def UpdateTouchedBalance_def UpdateTouchedNonce_def)+

lemma snap_value_frame:
  "CommitedAccountState st' = CommitedAccountState st \<Longrightarrow> snap_storage_value st' = snap_storage_value st"
  "CommitedAccountState st' = CommitedAccountState st \<Longrightarrow> snap_nonce_value st' = snap_nonce_value st"
  "CommitedAccountState st' = CommitedAccountState st \<Longrightarrow> snap_balance_value st' = snap_balance_value st"
  by (auto simp: fun_eq_iff snap_storage_value_def snap_nonce_value_def snap_balance_value_def
      GetCommittedStorage_def GetCommitedNonce_def GetCommittedBalance_def split: option.split)

lemma revert_storage_effect:
  assumes "\<forall>(a, k) \<in> set order. IsTouchedStorage st a k" "snap_storage_value st snap = F"
  shows "fst (revert_storage D snap reset order (st, db)) =
    st\<lparr>touchedStorageMap := (\<lambda>a. map_option (\<lambda>m k. if (a, k) \<in> set order then Some (F a k) else m k)
       (touchedStorageMap st a))\<rparr>"
  using assms
proof (induction order arbitrary: st db)
  case (Cons p order)
  obtain a k where p: "p = (a, k)" by fastforce
  let ?st = "UpdateTouchedStorage st a k (F a k)"
  let ?G = "\<lambda>M a. map_option (\<lambda>m k. if (a, k) \<in> set order then Some (F a k) else m k) (M a)"
  from Cons.prems p obtain m where m: "touchedStorageMap st a = Some m"
    by (auto simp: IsTouchedStorage_def split: option.splits)
  have "snap_storage_value ?st snap = F" using Cons.prems(2) snap_value_frame(1) [of ?st st] by simp
  moreover have "\<forall>(a, k) \<in> set order. IsTouchedStorage ?st a k" using Cons.prems(1) by auto
  ultimately have "fst (revert_storage D snap reset (p # order) (st, db)) =
      ?st\<lparr>touchedStorageMap := ?G (touchedStorageMap ?st)\<rparr>"
    using Cons.IH Cons.prems(2) p by (simp add: Let_def)
  also have "\<dots> = st\<lparr>touchedStorageMap := ?G ((touchedStorageMap st)(a \<mapsto> m(k \<mapsto> F a k)))\<rparr>"
    by (simp add: UpdateTouchedStorage_def m)
  also have "?G ((touchedStorageMap st)(a \<mapsto> m(k \<mapsto> F a k))) =
      (\<lambda>b. map_option (\<lambda>m j. if (b, j) \<in> set (p # order) then Some (F b j) else m j) (touchedStorageMap st b))"
    using m p by (auto simp: fun_eq_iff map_option_case split: option.split)
  finally show ?case .
qed (simp add: option.map_ident)

lemma touched_update_simps [simp]:
  "touchedNonceMap (UpdateTouchedNonce st a n) = (touchedNonceMap st)(a \<mapsto> n)"
  "(UpdateTouchedNonce st a n)\<lparr>touchedNonceMap := N\<rparr> = st\<lparr>touchedNonceMap := N\<rparr>"
  "touchedBalanceMap (UpdateTouchedBalance st a b) = (touchedBalanceMap st)(a \<mapsto> b)"
  "(UpdateTouchedBalance st a b)\<lparr>touchedBalanceMap := B\<rparr> = st\<lparr>touchedBalanceMap := B\<rparr>"
  by (simp_all add: UpdateTouchedNonce_def UpdateTouchedBalance_def)

lemma revert_nonces_effect:
  assumes "set order \<subseteq> dom (touchedNonceMap st)" "snap_nonce_value st snap = F"
  shows "fst (revert_nonces D snap reset order (st, db)) =
    st\<lparr>touchedNonceMap := (\<lambda>a. if a \<in> set order then Some (F a) else touchedNonceMap st a)\<rparr>"
  using assms
proof (induction order arbitrary: st db)
  case (Cons a order)
  let ?st = "UpdateTouchedNonce st a (F a)"
  have "snap_nonce_value ?st snap = F" using Cons.prems(2) snap_value_frame(2) [of ?st st] by simp
  moreover have "set order \<subseteq> dom (touchedNonceMap ?st)" using Cons.prems(1) by (auto simp: UpdateTouchedNonce_def)
  ultimately have "fst (revert_nonces D snap reset (a # order) (st, db)) =
      ?st\<lparr>touchedNonceMap := (\<lambda>b. if b \<in> set order then Some (F b) else touchedNonceMap ?st b)\<rparr>"
    using Cons.IH [of ?st] Cons.prems(2) by (simp add: Let_def del: touched_update_simps)
  also have "\<dots> = st\<lparr>touchedNonceMap := (\<lambda>b. if b \<in> set order then Some (F b) else
      ((touchedNonceMap st)(a \<mapsto> F a)) b)\<rparr>"
    by (simp cong: if_cong)
  also have "(\<lambda>b. if b \<in> set order then Some (F b) else ((touchedNonceMap st)(a \<mapsto> F a)) b) =
      (\<lambda>b. if b \<in> set (a # order) then Some (F b) else touchedNonceMap st b)"
    by (auto simp: fun_eq_iff)
  finally show ?case .
qed simp

lemma revert_balances_effect:
  assumes "snap_balance_value st snap = F"
  shows "map_option fst (revert_balances D snap reset order (st, db)) =
    (if \<forall>a \<in> set order. F a \<noteq> None
     then Some (st\<lparr>touchedBalanceMap := (\<lambda>a. if a \<in> set order then F a else touchedBalanceMap st a)\<rparr>)
     else None)"
  using assms
proof (induction order arbitrary: st db)
  case (Cons a order)
  show ?case
  proof (cases "F a")
    case (Some b)
    let ?st = "UpdateTouchedBalance st a b"
    have F: "snap_balance_value ?st snap = F" using Cons.prems snap_value_frame(3) [of ?st st] by simp
    have "(\<lambda>c. if c \<in> set order then F c else ((touchedBalanceMap st)(a \<mapsto> b)) c) =
        (\<lambda>c. if c \<in> set (a # order) then F c else touchedBalanceMap st c)"
      using Some by (auto simp: fun_eq_iff)
    then have "?st\<lparr>touchedBalanceMap := (\<lambda>c. if c \<in> set order then F c else touchedBalanceMap ?st c)\<rparr> =
        st\<lparr>touchedBalanceMap := (\<lambda>c. if c \<in> set (a # order) then F c else touchedBalanceMap st c)\<rparr>"
      by (simp cong: if_cong)
    with Cons.IH [OF F] Cons.prems Some show ?thesis by (simp add: Let_def)
  qed (use Cons.prems in simp)
qed simp

text \<open>The writes the revert makes to the state database, when it is asked to.\<close>

definition write_reverted ::
  "'s trace_statedb \<Rightarrow> visit_order \<Rightarrow> account_state \<Rightarrow> AccountStateSnapshot \<Rightarrow> 's \<Rightarrow> 's" where
  "write_reverted D vo st snap db =
     foldl (\<lambda>db a. td_SetNonce D db a (snap_nonce_value st snap a))
       (foldl (\<lambda>db a. td_SetBalance D db a (the (snap_balance_value st snap a)))
         (foldl (\<lambda>db (a, k). td_SetState D db a k (snap_storage_value st snap a k)) db (vo_storage vo))
         (vo_balance vo))
       (vo_nonce vo)"

lemma revert_storage_db:
  assumes "snap_storage_value st snap = F"
  shows "snd (revert_storage D snap reset order (st, db)) =
    (if reset then foldl (\<lambda>db (a, k). td_SetState D db a k (F a k)) db order else db)"
  using assms
proof (induction order arbitrary: st db)
  case (Cons p order)
  obtain a k where p: "p = (a, k)" by fastforce
  have "snap_storage_value (UpdateTouchedStorage st a k (F a k)) snap = F"
    using Cons.prems snap_value_frame(1) [of "UpdateTouchedStorage st a k (F a k)" st] by simp
  from Cons.IH [OF this] Cons.prems p show ?case by (simp add: Let_def)
qed simp

lemma revert_balances_db:
  assumes "snap_balance_value st snap = F" "revert_balances D snap reset order (st, db) = Some q"
  shows "snd q = (if reset then foldl (\<lambda>db a. td_SetBalance D db a (the (F a))) db order else db)"
  using assms
proof (induction order arbitrary: st db)
  case (Cons a order)
  then obtain b where b: "F a = Some b" by auto
  have F: "snap_balance_value (UpdateTouchedBalance st a b) snap = F"
    using Cons.prems(1) snap_value_frame(3) [of "UpdateTouchedBalance st a b" st] by simp
  from Cons.IH [OF F] Cons.prems b show ?case by (auto simp: Let_def split: if_splits)
qed auto

lemma revert_nonces_db:
  assumes "snap_nonce_value st snap = F"
  shows "snd (revert_nonces D snap reset order (st, db)) =
    (if reset then foldl (\<lambda>db a. td_SetNonce D db a (F a)) db order else db)"
  using assms
proof (induction order arbitrary: st db)
  case (Cons a order)
  have "snap_nonce_value (UpdateTouchedNonce st a (F a)) snap = F"
    using Cons.prems snap_value_frame(2) [of "UpdateTouchedNonce st a (F a)" st] by simp
  from Cons.IH [OF this] Cons.prems show ?case by (simp add: Let_def as_GetNonce_def)
qed simp

text \<open>
  C21: \<open>RevertAccountState\<close> does the same whatever order Go visits the maps in: it panics exactly when
  a touched balance is in neither the snapshot nor the committed state, and otherwise overwrites exactly
  the touched slots, balances and nonces with their snapshot value (or, failing that, the committed one),
  keeps the codes, and writes just these values to the state database when asked to.
\<close>

theorem RevertAccountState_spec:
  assumes "visits vo st"
  shows "RevertAccountState D vo st snap db reset =
    (if \<forall>a \<in> dom (touchedBalanceMap st). snap_balance_value st snap a \<noteq> None
     then Some (reverted st snap, if reset then write_reverted D vo st snap db else db)
     else None)"
proof -
  let ?S = "snap_storage_value st snap" and ?B = "snap_balance_value st snap" and ?N = "snap_nonce_value st snap"
  have vs: "set (vo_storage vo) = {(a, k). IsTouchedStorage st a k}" "set (vo_balance vo) = dom (touchedBalanceMap st)"
    "set (vo_nonce vo) = dom (touchedNonceMap st)"
    using assms by (auto simp: visits_def)
  let ?st1 = "st\<lparr>touchedStorageMap := (\<lambda>a. map_option (\<lambda>m k. if (a, k) \<in> set (vo_storage vo) then Some (?S a k) else m k)
       (touchedStorageMap st a))\<rparr>"
  let ?db1 = "if reset then foldl (\<lambda>db (a, k). td_SetState D db a k (?S a k)) db (vo_storage vo) else db"
  have 1: "revert_storage D snap reset (vo_storage vo) (st, db) = (?st1, ?db1)"
    using revert_storage_effect [OF _ refl, where order = "vo_storage vo" and st = st and snap = snap and D = D and reset = reset and db = db]
      revert_storage_db [OF refl, where order = "vo_storage vo" and st = st and snap = snap and D = D and reset = reset and db = db]
    by (intro prod_eqI) (auto simp: vs(1))
  have c: "CommitedAccountState ?st1 = CommitedAccountState st" by (cases st) simp
  note f1 = snap_value_frame [OF c]
  let ?st2 = "?st1\<lparr>touchedBalanceMap := (\<lambda>a. if a \<in> set (vo_balance vo) then ?B a else touchedBalanceMap ?st1 a)\<rparr>"
  let ?db2 = "if reset then foldl (\<lambda>db a. td_SetBalance D db a (the (?B a))) ?db1 (vo_balance vo) else ?db1"
  have B1: "snap_balance_value ?st1 snap = ?B" using f1(3) by simp
  show ?thesis
  proof (cases "\<forall>a \<in> dom (touchedBalanceMap st). ?B a \<noteq> None")
    case False
    with revert_balances_effect [OF B1, where D = D and reset = reset and order = "vo_balance vo" and db = ?db1] vs(2)
    have "map_option fst (revert_balances D snap reset (vo_balance vo) (?st1, ?db1)) = None" by (simp only: if_False)
    then have 2: "revert_balances D snap reset (vo_balance vo) (?st1, ?db1) = None" by (simp only: option.map_disc_iff)
    have "RevertAccountState D vo st snap db reset = None"
      unfolding RevertAccountState_def Let_def 1 2 by simp
    with False show ?thesis by (simp only: if_False)
  next
    case True
    from revert_balances_effect [OF B1, where D = D and reset = reset and order = "vo_balance vo" and db = ?db1] True vs(2)
    obtain db2 where 2: "revert_balances D snap reset (vo_balance vo) (?st1, ?db1) = Some (?st2, db2)"
      by (auto simp: map_option_eq_Some)
    have db2: "db2 = ?db2" using revert_balances_db [OF B1 2] by simp
    have c2: "CommitedAccountState ?st2 = CommitedAccountState st" by (cases st) simp
    have N2: "snap_nonce_value ?st2 snap = ?N" using snap_value_frame(2) [OF c2] by simp
    have E1: "(\<lambda>a. map_option (\<lambda>m k. if (a, k) \<in> set (vo_storage vo) then Some (?S a k) else m k) (touchedStorageMap st a)) =
        (\<lambda>a. map_option (\<lambda>m k. map_option (\<lambda>_. ?S a k) (m k)) (touchedStorageMap st a))"
      by (auto simp: fun_eq_iff map_option_case IsTouchedStorage_def vs(1) split: option.splits)
    have E2: "(\<lambda>a. if a \<in> set (vo_balance vo) then ?B a else touchedBalanceMap ?st1 a) =
        (\<lambda>a. if touchedBalanceMap st a = None then None else ?B a)"
      by (auto simp: fun_eq_iff vs(2) domIff)
    have E3: "(\<lambda>a. if a \<in> set (vo_nonce vo) then Some (?N a) else touchedNonceMap ?st2 a) =
        (\<lambda>a. map_option (\<lambda>_. ?N a) (touchedNonceMap st a))"
      by (auto simp: fun_eq_iff vs(3) domIff map_option_case split: option.splits)
    have "fst (revert_nonces D snap reset (vo_nonce vo) (?st2, db2)) =
        ?st2\<lparr>touchedNonceMap := (\<lambda>a. if a \<in> set (vo_nonce vo) then Some (?N a) else touchedNonceMap ?st2 a)\<rparr>"
      by (rule revert_nonces_effect [OF _ N2]) (simp add: vs(3))
    also have "\<dots> = reverted st snap"
      unfolding E3 unfolding E2 unfolding E1 reverted_def ..
    finally have "revert_nonces D snap reset (vo_nonce vo) (?st2, db2) =
        (reverted st snap, if reset then foldl (\<lambda>db a. td_SetNonce D db a (?N a)) db2 (vo_nonce vo) else db2)"
      using revert_nonces_db [OF N2, where D = D and reset = reset and order = "vo_nonce vo" and db = db2] by (intro prod_eqI) simp_all
    then have "RevertAccountState D vo st snap db reset =
        Some (reverted st snap, if reset then foldl (\<lambda>db a. td_SetNonce D db a (?N a)) db2 (vo_nonce vo) else db2)"
      unfolding RevertAccountState_def Let_def 1 2 by simp
    with True db2 show ?thesis by (simp add: write_reverted_def)
  qed
qed

definition demo_before :: account_state where
  "demo_before = UpdateTouchedBalance InitAccountState 1 9"

definition demo_after :: account_state where
  "demo_after = UpdateTouchedNonce (UpdateTouchedStorage (UpdateTouchedBalance demo_before 1 5) 1 2 3) 4 6"

definition demo_order :: visit_order where
  "demo_order = \<lparr>vo_storage = [(1, 2)], vo_balance = [1], vo_nonce = [4], vo_code = []\<rparr>"

theorem RevertAccountState_spec_witness:
  "\<forall>(D :: nat trace_statedb) db. RevertAccountState D demo_order demo_after (ExportSnapshot demo_before) db False =
     Some (reverted demo_after (ExportSnapshot demo_before), db)"
proof (intro allI)
  fix D :: "nat trace_statedb" and db :: nat
  have "visits demo_order demo_after"
    by (auto simp: visits_def demo_order_def demo_after_def demo_before_def InitAccountState_def
        CommitAccountState_def empty_touched_def touched_state.defs UpdateTouchedBalance_def
        UpdateTouchedStorage_def UpdateTouchedNonce_def IsTouchedStorage_def split: option.splits if_splits)
  moreover have "\<forall>a \<in> dom (touchedBalanceMap demo_after).
      snap_balance_value demo_after (ExportSnapshot demo_before) a \<noteq> None"
    by (auto simp: demo_after_def demo_before_def InitAccountState_def CommitAccountState_def
        empty_touched_def touched_state.defs UpdateTouchedBalance_def UpdateTouchedStorage_def
        UpdateTouchedNonce_def snap_balance_value_def ExportSnapshot_def split: if_splits)
  ultimately show "RevertAccountState D demo_order demo_after (ExportSnapshot demo_before) db False =
     Some (reverted demo_after (ExportSnapshot demo_before), db)"
    using RevertAccountState_spec [of demo_order demo_after D "ExportSnapshot demo_before" db False] by simp
qed

end
