(* ===== verification/AccessList.thy ===== *)
theory AccessList
  imports Prelude
begin

text \<open>
  \<^verbatim>\<open>core/state/access_list.go\<close> (the per-transaction access list of EIP-2929/2930) and
  \<^verbatim>\<open>core/state/transient_storage.go\<close> (EIP-1153).  The access list keeps, per address, an index
  into a slice of slot sets, or -1; the undo operations \<open>DeleteSlot\<close> and
  \<open>DeleteAddress\<close> are correct only in reverse order of the additions, which the lemmas below
  make precise: undoing the last addition gives back the very same representation.
\<close>

section \<open>The access list\<close>

record access_list =
  al_addresses :: "address \<rightharpoonup> int"
  al_slots :: "hash set list"

definition newAccessList :: access_list where
  "newAccessList = \<lparr>al_addresses = Map.empty, al_slots = []\<rparr>"

definition ContainsAddress :: "access_list \<Rightarrow> address \<Rightarrow> bool" where
  "ContainsAddress al a = (al_addresses al a \<noteq> None)"

definition Contains :: "access_list \<Rightarrow> address \<Rightarrow> hash \<Rightarrow> (bool \<times> bool) option" where
  "Contains al a slot =
     (case al_addresses al a of
        None \<Rightarrow> Some (False, False)
      | Some i \<Rightarrow>
          if i = -1 then Some (True, False)
          else do { require (0 \<le> i); s \<leftarrow> idx (al_slots al) (nat i); Some (True, slot \<in> s) })"

definition AddAddress :: "access_list \<Rightarrow> address \<Rightarrow> access_list \<times> bool" where
  "AddAddress al a =
     (if al_addresses al a \<noteq> None then (al, False)
      else (al\<lparr>al_addresses := (al_addresses al)(a \<mapsto> -1)\<rparr>, True))"

definition AddSlot :: "access_list \<Rightarrow> address \<Rightarrow> hash \<Rightarrow> (access_list \<times> bool \<times> bool) option" where
  "AddSlot al a slot =
     (let present = al_addresses al a \<noteq> None;
          i = get0 (al_addresses al) a
      in if \<not> present \<or> i = -1
         then Some (al\<lparr>al_addresses := (al_addresses al)(a \<mapsto> int (length (al_slots al))),
                       al_slots := al_slots al @ [{slot}]\<rparr>, \<not> present, True)
         else do {
           require (0 \<le> i);
           s \<leftarrow> idx (al_slots al) (nat i);
           if slot \<notin> s
           then Some (al\<lparr>al_slots := (al_slots al)[nat i := insert slot s]\<rparr>, False, True)
           else Some (al, False, False) })"

text \<open>\<open>DeleteSlot\<close> panics when the address is absent; the index -1 would panic too.\<close>

definition DeleteSlot :: "access_list \<Rightarrow> address \<Rightarrow> hash \<Rightarrow> access_list option" where
  "DeleteSlot al a slot =
     (case al_addresses al a of
        None \<Rightarrow> None
      | Some i \<Rightarrow> do {
          require (0 \<le> i);
          s \<leftarrow> idx (al_slots al) (nat i);
          let s' = s - {slot};
          if s' = {}
          then Some (al\<lparr>al_addresses := (al_addresses al)(a \<mapsto> -1), al_slots := take (nat i) (al_slots al)\<rparr>)
          else Some (al\<lparr>al_slots := (al_slots al)[nat i := s']\<rparr>) })"

definition DeleteAddress :: "access_list \<Rightarrow> address \<Rightarrow> access_list" where
  "DeleteAddress al a = al\<lparr>al_addresses := map_delete a (al_addresses al)\<rparr>"

definition al_Copy :: "access_list \<Rightarrow> access_list" where
  "al_Copy al = \<lparr>al_addresses = al_addresses al, al_slots = map (\<lambda>s. {k \<in> s. True}) (al_slots al)\<rparr>"

lemmas access_list_ops [unfold_op] =
  ContainsAddress_def Contains_def AddAddress_def AddSlot_def DeleteSlot_def DeleteAddress_def

section \<open>Well-formedness\<close>

text \<open>
  Every index is -1 or in range, two addresses never share a slot set, and no slot set is empty.
\<close>

definition al_wf :: "access_list \<Rightarrow> bool" where
  "al_wf al \<longleftrightarrow>
     (\<forall>a i. al_addresses al a = Some i \<longrightarrow> i = -1 \<or> (0 \<le> i \<and> i < int (length (al_slots al)))) \<and>
     (\<forall>a b i. al_addresses al a = Some i \<longrightarrow> al_addresses al b = Some i \<longrightarrow> i \<noteq> -1 \<longrightarrow> a = b) \<and>
     (\<forall>s \<in> set (al_slots al). s \<noteq> {})"

lemma al_wf_new [simp]: "al_wf newAccessList"
  by (simp add: al_wf_def newAccessList_def)

lemma al_wf_range:
  "al_wf al \<Longrightarrow> al_addresses al a = Some i \<Longrightarrow> i \<noteq> -1 \<Longrightarrow> 0 \<le> i \<and> i < int (length (al_slots al))"
  unfolding al_wf_def by blast

lemma al_wf_index:
  "al_wf al \<Longrightarrow> al_addresses al a = Some i \<Longrightarrow> i \<noteq> -1 \<Longrightarrow> 0 \<le> i \<and> nat i < length (al_slots al)"
  using al_wf_range by fastforce

lemma al_wf_inj:
  "al_wf al \<Longrightarrow> al_addresses al a = Some i \<Longrightarrow> al_addresses al b = Some i \<Longrightarrow> i \<noteq> -1 \<Longrightarrow> a = b"
  unfolding al_wf_def by blast

lemma al_wf_nonempty: "al_wf al \<Longrightarrow> i < length (al_slots al) \<Longrightarrow> al_slots al ! i \<noteq> {}"
  by (auto simp: al_wf_def)

lemma al_wfI:
  assumes "\<And>a i. al_addresses al a = Some i \<Longrightarrow> i \<noteq> -1 \<Longrightarrow> 0 \<le> i \<and> i < int (length (al_slots al))"
    and "\<And>a b i. al_addresses al a = Some i \<Longrightarrow> al_addresses al b = Some i \<Longrightarrow> i \<noteq> -1 \<Longrightarrow> a = b"
    and "\<And>s. s \<in> set (al_slots al) \<Longrightarrow> s \<noteq> {}"
  shows "al_wf al"
  using assms unfolding al_wf_def by blast

lemma AddAddress_wf:
  assumes wf: "al_wf al"
  shows "al_wf (fst (AddAddress al a))"
proof (rule al_wfI, goal_cases)
  case (1 b i)
  with wf show ?case by (auto simp: AddAddress_def al_wf_def split: if_splits)
next
  case (2 b c i)
  with al_wf_inj [OF wf, of b i c] show ?case by (auto simp: AddAddress_def split: if_splits)
next
  case (3 s)
  with wf show ?case by (auto simp: AddAddress_def al_wf_def split: if_splits)
qed

lemma AddSlot_total: "al_wf al \<Longrightarrow> \<exists>r. AddSlot al a slot = Some r"
  by (cases "al_addresses al a") (auto simp: AddSlot_def Let_def dest: al_wf_index)

lemma AddSlot_wf:
  assumes wf: "al_wf al" and add: "AddSlot al a slot = Some (al', c)"
  shows "al_wf al'"
proof (cases "al_addresses al a = None \<or> al_addresses al a = Some (-1)")
  case True
  with add have al': "al' = al\<lparr>al_addresses := (al_addresses al)(a \<mapsto> int (length (al_slots al))),
      al_slots := al_slots al @ [{slot}]\<rparr>"
    by (auto simp: AddSlot_def Let_def)
  have r: "0 \<le> i \<and> i < int (length (al_slots al))" if "al_addresses al b = Some i" "i \<noteq> -1" for b i
    using al_wf_index [OF wf that] by auto
  show ?thesis
  proof (rule al_wfI, goal_cases)
    case (1 b i)
    with r [of b i] show ?case by (auto simp: al' split: if_splits)
  next
    case (2 b c i)
    with r [of b i] r [of c i] al_wf_inj [OF wf, of b i c] show ?case
      by (auto simp: al' split: if_splits)
  next
    case (3 s)
    with wf show ?case by (auto simp: al' al_wf_def)
  qed
next
  case False
  then obtain i where i: "al_addresses al a = Some i" "i \<noteq> -1" by auto
  note r = al_wf_index [OF wf i]
  from add i r have al': "al' = al \<or>
      al' = al\<lparr>al_slots := (al_slots al)[nat i := insert slot (al_slots al ! nat i)]\<rparr>"
    by (auto simp: AddSlot_def Let_def split: if_splits)
  have "s \<noteq> {}" if "s \<in> set ((al_slots al)[nat i := insert slot (al_slots al ! nat i)])" for s
    using set_update_subset_insert [THEN subsetD, OF that] wf by (auto simp: al_wf_def)
  with al' show ?thesis
  proof (elim disjE, goal_cases)
    case 2
    then show ?case
      using al_wf_range [OF wf] al_wf_inj [OF wf] by (intro al_wfI) auto
  qed (simp add: wf)
qed

section \<open>The undo operations restore the representation exactly\<close>

lemma DeleteAddress_undo:
  "al_addresses al a = None \<Longrightarrow> DeleteAddress (fst (AddAddress al a)) a = al"
  by (simp add: DeleteAddress_def AddAddress_def)

text \<open>
  Undoing an \<open>AddSlot\<close>: first the slot, then (when the address was new) the address, in the
  reverse order of the two journal entries.
\<close>

definition undo_AddSlot :: "access_list \<Rightarrow> address \<Rightarrow> hash \<Rightarrow> bool \<times> bool \<Rightarrow> access_list option" where
  "undo_AddSlot al a slot c = do {
     al1 \<leftarrow> (if snd c then DeleteSlot al a slot else Some al);
     Some (if fst c then DeleteAddress al1 a else al1) }"

lemma AddSlot_undo:
  assumes wf: "al_wf al" and add: "AddSlot al a slot = Some (al', c)"
  shows "undo_AddSlot al' a slot c = Some al"
proof (cases "al_addresses al a = None \<or> al_addresses al a = Some (-1)")
  case True
  with add show ?thesis
    by (auto simp: AddSlot_def undo_AddSlot_def DeleteSlot_def DeleteAddress_def Let_def idx_def
        fun_upd_idem)
next
  case False
  then obtain i where i: "al_addresses al a = Some i" "i \<noteq> -1" by auto
  with al_wf_index [OF wf] have r: "0 \<le> i" "nat i < length (al_slots al)" by auto
  with al_wf_nonempty [OF wf] have "al_slots al ! nat i \<noteq> {}" by blast
  with add i r show ?thesis
    by (auto simp: AddSlot_def undo_AddSlot_def DeleteSlot_def Let_def idx_def split: if_splits)
qed

section \<open>Abstraction: the sets of warm addresses and warm slots\<close>

definition warm_addresses :: "access_list \<Rightarrow> address set" where
  "warm_addresses al = dom (al_addresses al)"

definition warm_slots :: "access_list \<Rightarrow> (address \<times> hash) set" where
  "warm_slots al = {(a, k). \<exists>i. al_addresses al a = Some i \<and> i \<noteq> -1 \<and> k \<in> al_slots al ! nat i}"

lemma Contains_refines:
  "al_wf al \<Longrightarrow> Contains al a k = Some (a \<in> warm_addresses al, (a, k) \<in> warm_slots al)"
  using al_wf_index [of al a]
  by (cases "al_addresses al a") (auto simp: Contains_def warm_addresses_def warm_slots_def idx_def)

lemma AddAddress_refines:
  "warm_addresses (fst (AddAddress al a)) = insert a (warm_addresses al) \<and>
   warm_slots (fst (AddAddress al a)) = warm_slots al"
  by (cases "al_addresses al a")
    (auto simp: AddAddress_def warm_addresses_def warm_slots_def set_eq_iff split: if_splits)

lemma AddSlot_refines:
  assumes wf: "al_wf al" and add: "AddSlot al a k = Some (al', c)"
  shows "warm_addresses al' = insert a (warm_addresses al) \<and>
         warm_slots al' = insert (a, k) (warm_slots al)"
proof (cases "al_addresses al a = None \<or> al_addresses al a = Some (-1)")
  case True
  have r: "0 \<le> i \<and> nat i < length (al_slots al)" if "al_addresses al b = Some i" "i \<noteq> -1" for b i
    using al_wf_index [OF wf that] .
  from True add have al': "al' = al\<lparr>al_addresses := (al_addresses al)(a \<mapsto> int (length (al_slots al))),
      al_slots := al_slots al @ [{k}]\<rparr>"
    by (auto simp: AddSlot_def Let_def)
  from r True show ?thesis
    unfolding al' warm_addresses_def warm_slots_def
    by (auto simp: nth_append split: if_splits)
next
  case False
  then obtain i where i: "al_addresses al a = Some i" "i \<noteq> -1" by auto
  note r = al_wf_index [OF wf i]
  have inj: "b = a" if "al_addresses al b = Some j" "nat j = nat i" "j \<noteq> -1" for b j
  proof -
    have "0 \<le> j" using al_wf_range [OF wf that(1,3)] by blast
    with r that(2) have "j = i" by (metis eq_nat_nat_iff)
    with that i show ?thesis by (auto intro: al_wf_inj [OF wf])
  qed
  from add i r consider "k \<in> al_slots al ! nat i" "al' = al"
    | "al' = al\<lparr>al_slots := (al_slots al)[nat i := insert k (al_slots al ! nat i)]\<rparr>"
    by (auto simp: AddSlot_def Let_def split: if_splits)
  then show ?thesis
  proof cases
    case 1
    with i show ?thesis by (auto simp: warm_addresses_def warm_slots_def)
  next
    case 2
    have "(b, x) \<in> warm_slots al' \<longleftrightarrow> (b, x) \<in> insert (a, k) (warm_slots al)" for b x
      using i r inj [of b] unfolding 2 warm_slots_def by (fastforce simp: nth_list_update)
    then have "warm_slots al' = insert (a, k) (warm_slots al)" by auto
    with 2 i show ?thesis by (auto simp: warm_addresses_def)
  qed
qed

section \<open>Transient storage\<close>

type_synonym transient_storage = "address \<rightharpoonup> (hash \<rightharpoonup> hash)"

definition newTransientStorage :: transient_storage where
  "newTransientStorage = Map.empty"

definition ts_Set :: "transient_storage \<Rightarrow> address \<Rightarrow> hash \<Rightarrow> hash \<Rightarrow> transient_storage" where
  "ts_Set t a k v =
     (let t1 = (if t a = None then t(a \<mapsto> Map.empty) else t)
      in t1(a \<mapsto> (the (t1 a))(k \<mapsto> v)))"

definition ts_Get :: "transient_storage \<Rightarrow> address \<Rightarrow> hash \<Rightarrow> hash" where
  "ts_Get t a k = (case t a of None \<Rightarrow> 0 | Some m \<Rightarrow> get0 m k)"

definition ts_Copy :: "transient_storage \<Rightarrow> transient_storage" where
  "ts_Copy t = (\<lambda>a. map_option (\<lambda>m k. m k) (t a))"

lemma ts_Get_Set [simp]:
  "ts_Get (ts_Set t a k v) b j = (if b = a \<and> j = k then v else ts_Get t b j)"
  by (auto simp: ts_Get_def ts_Set_def Let_def get0_def split: option.splits)

lemma ts_Get_new [simp]: "ts_Get newTransientStorage a k = 0"
  by (simp add: ts_Get_def newTransientStorage_def)

end
