(* ===== verification/Params.thy ===== *)
theory Params
  imports Prelude
begin

text \<open>
  \<^verbatim>\<open>params/protocol_params.go\<close> (the gas constants the EVM and the state transition use) and the
  fork schedule of \<^verbatim>\<open>params/config.go\<close>: the activation tests, \<open>Rules\<close>, the fork-order
  check and the compatibility check with its rewind loop.  A nil \<^verbatim>\<open>*big.Int\<close> or
  \<^verbatim>\<open>*uint64\<close> is \<^term>\<open>None\<close>.
\<close>

section \<open>Constants\<close>

abbreviation (input) CallValueTransferGas :: u64 where "CallValueTransferGas \<equiv> 9000"
abbreviation (input) CallNewAccountGas :: u64 where "CallNewAccountGas \<equiv> 25000"
abbreviation (input) TxGas :: u64 where "TxGas \<equiv> 21000"
abbreviation (input) TxGasContractCreation :: u64 where "TxGasContractCreation \<equiv> 53000"
abbreviation (input) TxDataZeroGas :: u64 where "TxDataZeroGas \<equiv> 4"
abbreviation (input) QuadCoeffDiv :: u64 where "QuadCoeffDiv \<equiv> 512"
abbreviation (input) LogDataGas :: u64 where "LogDataGas \<equiv> 8"
abbreviation (input) CallStipend :: u64 where "CallStipend \<equiv> 2300"
abbreviation (input) Keccak256Gas :: u64 where "Keccak256Gas \<equiv> 30"
abbreviation (input) Keccak256WordGas :: u64 where "Keccak256WordGas \<equiv> 6"
abbreviation (input) InitCodeWordGas :: u64 where "InitCodeWordGas \<equiv> 2"
abbreviation (input) SstoreSetGas :: u64 where "SstoreSetGas \<equiv> 20000"
abbreviation (input) SstoreResetGas :: u64 where "SstoreResetGas \<equiv> 5000"
abbreviation (input) SstoreClearGas :: u64 where "SstoreClearGas \<equiv> 5000"
abbreviation (input) SstoreRefundGas :: u64 where "SstoreRefundGas \<equiv> 15000"
abbreviation (input) NetSstoreNoopGas :: u64 where "NetSstoreNoopGas \<equiv> 200"
abbreviation (input) NetSstoreInitGas :: u64 where "NetSstoreInitGas \<equiv> 20000"
abbreviation (input) NetSstoreCleanGas :: u64 where "NetSstoreCleanGas \<equiv> 5000"
abbreviation (input) NetSstoreDirtyGas :: u64 where "NetSstoreDirtyGas \<equiv> 200"
abbreviation (input) NetSstoreClearRefund :: u64 where "NetSstoreClearRefund \<equiv> 15000"
abbreviation (input) NetSstoreResetRefund :: u64 where "NetSstoreResetRefund \<equiv> 4800"
abbreviation (input) NetSstoreResetClearRefund :: u64 where "NetSstoreResetClearRefund \<equiv> 19800"
abbreviation (input) SstoreSentryGasEIP2200 :: u64 where "SstoreSentryGasEIP2200 \<equiv> 2300"
abbreviation (input) SstoreSetGasEIP2200 :: u64 where "SstoreSetGasEIP2200 \<equiv> 20000"
abbreviation (input) SstoreResetGasEIP2200 :: u64 where "SstoreResetGasEIP2200 \<equiv> 5000"
abbreviation (input) SstoreClearsScheduleRefundEIP2200 :: u64 where "SstoreClearsScheduleRefundEIP2200 \<equiv> 15000"
abbreviation (input) ColdAccountAccessCostEIP2929 :: u64 where "ColdAccountAccessCostEIP2929 \<equiv> 2600"
abbreviation (input) ColdSloadCostEIP2929 :: u64 where "ColdSloadCostEIP2929 \<equiv> 2100"
abbreviation (input) WarmStorageReadCostEIP2929 :: u64 where "WarmStorageReadCostEIP2929 \<equiv> 100"
abbreviation (input) TxAccessListAddressGas :: u64 where "TxAccessListAddressGas \<equiv> 2400"
abbreviation (input) TxAccessListStorageKeyGas :: u64 where "TxAccessListStorageKeyGas \<equiv> 1900"
abbreviation (input) SstoreClearsScheduleRefundEIP3529 :: u64 where
  "SstoreClearsScheduleRefundEIP3529 \<equiv>
     SstoreResetGasEIP2200 - ColdSloadCostEIP2929 + TxAccessListStorageKeyGas"
abbreviation (input) JumpdestGas :: u64 where "JumpdestGas \<equiv> 1"
abbreviation (input) CreateDataGas :: u64 where "CreateDataGas \<equiv> 200"
abbreviation (input) CallCreateDepth :: nat where "CallCreateDepth \<equiv> 1024"
abbreviation (input) ExpGas :: u64 where "ExpGas \<equiv> 10"
abbreviation (input) LogGas :: u64 where "LogGas \<equiv> 375"
abbreviation (input) CopyGas :: u64 where "CopyGas \<equiv> 3"
abbreviation (input) StackLimit :: int where "StackLimit \<equiv> 1024"
abbreviation (input) LogTopicGas :: u64 where "LogTopicGas \<equiv> 375"
abbreviation (input) CreateGas :: u64 where "CreateGas \<equiv> 32000"
abbreviation (input) Create2Gas :: u64 where "Create2Gas \<equiv> 32000"
abbreviation (input) SelfdestructRefundGas :: u64 where "SelfdestructRefundGas \<equiv> 24000"
abbreviation (input) MemoryGas :: u64 where "MemoryGas \<equiv> 3"
abbreviation (input) TxDataNonZeroGasFrontier :: u64 where "TxDataNonZeroGasFrontier \<equiv> 68"
abbreviation (input) TxDataNonZeroGasEIP2028 :: u64 where "TxDataNonZeroGasEIP2028 \<equiv> 16"
abbreviation (input) CallGasFrontier :: u64 where "CallGasFrontier \<equiv> 40"
abbreviation (input) CallGasEIP150 :: u64 where "CallGasEIP150 \<equiv> 700"
abbreviation (input) BalanceGasFrontier :: u64 where "BalanceGasFrontier \<equiv> 20"
abbreviation (input) BalanceGasEIP150 :: u64 where "BalanceGasEIP150 \<equiv> 400"
abbreviation (input) BalanceGasEIP1884 :: u64 where "BalanceGasEIP1884 \<equiv> 700"
abbreviation (input) ExtcodeSizeGasFrontier :: u64 where "ExtcodeSizeGasFrontier \<equiv> 20"
abbreviation (input) ExtcodeSizeGasEIP150 :: u64 where "ExtcodeSizeGasEIP150 \<equiv> 700"
abbreviation (input) SloadGasFrontier :: u64 where "SloadGasFrontier \<equiv> 50"
abbreviation (input) SloadGasEIP150 :: u64 where "SloadGasEIP150 \<equiv> 200"
abbreviation (input) SloadGasEIP1884 :: u64 where "SloadGasEIP1884 \<equiv> 800"
abbreviation (input) SloadGasEIP2200 :: u64 where "SloadGasEIP2200 \<equiv> 800"
abbreviation (input) ExtcodeHashGasConstantinople :: u64 where "ExtcodeHashGasConstantinople \<equiv> 400"
abbreviation (input) ExtcodeHashGasEIP1884 :: u64 where "ExtcodeHashGasEIP1884 \<equiv> 700"
abbreviation (input) SelfdestructGasEIP150 :: u64 where "SelfdestructGasEIP150 \<equiv> 5000"
abbreviation (input) ExpByteFrontier :: u64 where "ExpByteFrontier \<equiv> 10"
abbreviation (input) ExpByteEIP158 :: u64 where "ExpByteEIP158 \<equiv> 50"
abbreviation (input) ExtcodeCopyBaseFrontier :: u64 where "ExtcodeCopyBaseFrontier \<equiv> 20"
abbreviation (input) ExtcodeCopyBaseEIP150 :: u64 where "ExtcodeCopyBaseEIP150 \<equiv> 700"
abbreviation (input) CreateBySelfdestructGas :: u64 where "CreateBySelfdestructGas \<equiv> 25000"
abbreviation (input) MaxCodeSize :: nat where "MaxCodeSize \<equiv> 24576"
abbreviation (input) MaxInitCodeSize :: nat where "MaxInitCodeSize \<equiv> 2 * MaxCodeSize"
abbreviation (input) RefundQuotient :: u64 where "RefundQuotient \<equiv> 2"
abbreviation (input) RefundQuotientEIP3529 :: u64 where "RefundQuotientEIP3529 \<equiv> 5"
abbreviation (input) BlobTxBlobGasPerBlob :: u64 where "BlobTxBlobGasPerBlob \<equiv> 131072"

section \<open>The chain configuration\<close>

record chain_config =
  ChainID :: "int option"
  HomesteadBlock :: "int option"
  DAOForkBlock :: "int option"
  DAOForkSupport :: bool
  EIP150Block :: "int option"
  EIP155Block :: "int option"
  EIP158Block :: "int option"
  ByzantiumBlock :: "int option"
  ConstantinopleBlock :: "int option"
  PetersburgBlock :: "int option"
  IstanbulBlock :: "int option"
  MuirGlacierBlock :: "int option"
  BerlinBlock :: "int option"
  LondonBlock :: "int option"
  ArrowGlacierBlock :: "int option"
  GrayGlacierBlock :: "int option"
  MergeNetsplitBlock :: "int option"
  ShanghaiTime :: "u64 option"
  CancunTime :: "u64 option"
  PragueTime :: "u64 option"
  VerkleTime :: "u64 option"
  TerminalTotalDifficulty :: "int option"

definition isBlockForked :: "int option \<Rightarrow> int option \<Rightarrow> bool" where
  "isBlockForked s head =
     (case (s, head) of (Some b, Some h) \<Rightarrow> b \<le> h | _ \<Rightarrow> False)"

definition isTimestampForked :: "u64 option \<Rightarrow> u64 \<Rightarrow> bool" where
  "isTimestampForked s head = (case s of None \<Rightarrow> False | Some t \<Rightarrow> t \<le> head)"

definition IsHomestead :: "chain_config \<Rightarrow> int option \<Rightarrow> bool" where
  "IsHomestead c num = isBlockForked (HomesteadBlock c) num"

definition IsDAOFork :: "chain_config \<Rightarrow> int option \<Rightarrow> bool" where
  "IsDAOFork c num = isBlockForked (DAOForkBlock c) num"

definition IsEIP150 :: "chain_config \<Rightarrow> int option \<Rightarrow> bool" where
  "IsEIP150 c num = isBlockForked (EIP150Block c) num"

definition IsEIP155 :: "chain_config \<Rightarrow> int option \<Rightarrow> bool" where
  "IsEIP155 c num = isBlockForked (EIP155Block c) num"

definition IsEIP158 :: "chain_config \<Rightarrow> int option \<Rightarrow> bool" where
  "IsEIP158 c num = isBlockForked (EIP158Block c) num"

definition IsByzantium :: "chain_config \<Rightarrow> int option \<Rightarrow> bool" where
  "IsByzantium c num = isBlockForked (ByzantiumBlock c) num"

definition IsConstantinople :: "chain_config \<Rightarrow> int option \<Rightarrow> bool" where
  "IsConstantinople c num = isBlockForked (ConstantinopleBlock c) num"

definition IsMuirGlacier :: "chain_config \<Rightarrow> int option \<Rightarrow> bool" where
  "IsMuirGlacier c num = isBlockForked (MuirGlacierBlock c) num"

definition IsPetersburg :: "chain_config \<Rightarrow> int option \<Rightarrow> bool" where
  "IsPetersburg c num =
     (isBlockForked (PetersburgBlock c) num \<or>
      PetersburgBlock c = None \<and> isBlockForked (ConstantinopleBlock c) num)"

definition IsIstanbul :: "chain_config \<Rightarrow> int option \<Rightarrow> bool" where
  "IsIstanbul c num = isBlockForked (IstanbulBlock c) num"

definition IsBerlin :: "chain_config \<Rightarrow> int option \<Rightarrow> bool" where
  "IsBerlin c num = isBlockForked (BerlinBlock c) num"

definition IsLondon :: "chain_config \<Rightarrow> int option \<Rightarrow> bool" where
  "IsLondon c num = isBlockForked (LondonBlock c) num"

definition IsArrowGlacier :: "chain_config \<Rightarrow> int option \<Rightarrow> bool" where
  "IsArrowGlacier c num = isBlockForked (ArrowGlacierBlock c) num"

definition IsGrayGlacier :: "chain_config \<Rightarrow> int option \<Rightarrow> bool" where
  "IsGrayGlacier c num = isBlockForked (GrayGlacierBlock c) num"

definition IsTerminalPoWBlock :: "chain_config \<Rightarrow> int \<Rightarrow> int \<Rightarrow> bool" where
  "IsTerminalPoWBlock c parentTotalDiff totalDiff =
     (case TerminalTotalDifficulty c of None \<Rightarrow> False
      | Some d \<Rightarrow> parentTotalDiff < d \<and> totalDiff \<ge> d)"

definition IsShanghai :: "chain_config \<Rightarrow> int option \<Rightarrow> u64 \<Rightarrow> bool" where
  "IsShanghai c num time \<longleftrightarrow> IsLondon c num \<and> isTimestampForked (ShanghaiTime c) time"

definition IsCancun :: "chain_config \<Rightarrow> int option \<Rightarrow> u64 \<Rightarrow> bool" where
  "IsCancun c num time \<longleftrightarrow> IsLondon c num \<and> isTimestampForked (CancunTime c) time"

definition IsPrague :: "chain_config \<Rightarrow> int option \<Rightarrow> u64 \<Rightarrow> bool" where
  "IsPrague c num time \<longleftrightarrow> IsLondon c num \<and> isTimestampForked (PragueTime c) time"

definition IsVerkle :: "chain_config \<Rightarrow> int option \<Rightarrow> u64 \<Rightarrow> bool" where
  "IsVerkle c num time \<longleftrightarrow> IsLondon c num \<and> isTimestampForked (VerkleTime c) time"

record rules =
  ruleChainID :: int
  ruleHomestead :: bool
  ruleEIP150 :: bool
  ruleEIP155 :: bool
  ruleEIP158 :: bool
  ruleByzantium :: bool
  ruleConstantinople :: bool
  rulePetersburg :: bool
  ruleIstanbul :: bool
  ruleBerlin :: bool
  ruleLondon :: bool
  ruleMerge :: bool
  ruleShanghai :: bool
  ruleCancun :: bool
  rulePrague :: bool
  ruleVerkle :: bool

definition Rules :: "chain_config \<Rightarrow> int option \<Rightarrow> bool \<Rightarrow> u64 \<Rightarrow> rules" where
  "Rules c num isMerge timestamp =
     \<lparr>ruleChainID = (case ChainID c of None \<Rightarrow> 0 | Some i \<Rightarrow> i),
      ruleHomestead = IsHomestead c num,
      ruleEIP150 = IsEIP150 c num,
      ruleEIP155 = IsEIP155 c num,
      ruleEIP158 = IsEIP158 c num,
      ruleByzantium = IsByzantium c num,
      ruleConstantinople = IsConstantinople c num,
      rulePetersburg = IsPetersburg c num,
      ruleIstanbul = IsIstanbul c num,
      ruleBerlin = IsBerlin c num,
      ruleLondon = IsLondon c num,
      ruleMerge = isMerge,
      ruleShanghai = IsShanghai c num timestamp,
      ruleCancun = IsCancun c num timestamp,
      rulePrague = IsPrague c num timestamp,
      ruleVerkle = IsVerkle c num timestamp\<rparr>"

section \<open>The fork order\<close>

record fork =
  fork_name :: string
  fork_block :: "int option"
  fork_time :: "u64 option"
  fork_optional :: bool

definition fork_list :: "chain_config \<Rightarrow> fork list" where
  "fork_list c =
    (let blk = (\<lambda>n b opt. \<lparr>fork_name = n, fork_block = b, fork_time = None, fork_optional = opt\<rparr>);
         tm = (\<lambda>n t opt. \<lparr>fork_name = n, fork_block = None, fork_time = t, fork_optional = opt\<rparr>)
     in [blk ''homesteadBlock'' (HomesteadBlock c) False,
         blk ''daoForkBlock'' (DAOForkBlock c) True,
         blk ''eip150Block'' (EIP150Block c) False,
         blk ''eip155Block'' (EIP155Block c) False,
         blk ''eip158Block'' (EIP158Block c) False,
         blk ''byzantiumBlock'' (ByzantiumBlock c) False,
         blk ''constantinopleBlock'' (ConstantinopleBlock c) False,
         blk ''petersburgBlock'' (PetersburgBlock c) False,
         blk ''istanbulBlock'' (IstanbulBlock c) False,
         blk ''muirGlacierBlock'' (MuirGlacierBlock c) True,
         blk ''berlinBlock'' (BerlinBlock c) False,
         blk ''londonBlock'' (LondonBlock c) False,
         blk ''arrowGlacierBlock'' (ArrowGlacierBlock c) True,
         blk ''grayGlacierBlock'' (GrayGlacierBlock c) True,
         blk ''mergeNetsplitBlock'' (MergeNetsplitBlock c) True,
         tm ''shanghaiTime'' (ShanghaiTime c) False,
         tm ''cancunTime'' (CancunTime c) True,
         tm ''pragueTime'' (PragueTime c) True,
         tm ''verkleTime'' (VerkleTime c) True])"

datatype fork_order_error =
    NotEnabled string string
  | BlockOrder string "int option" string "int option"
  | TimeOrder string "u64 option" string "u64 option"
  | RevertedToBlock string string

text \<open>
  The \<open>switch\<close> of the loop body, first case that applies.  A fork is scheduled either by
  block or by time, so the second case compares two values of the same kind.
\<close>

definition opt_gt :: "('a::linorder) option \<Rightarrow> 'a option \<Rightarrow> bool" where
  "opt_gt x y = (case (x, y) of (Some a, Some b) \<Rightarrow> a > b | _ \<Rightarrow> False)"

definition check_fork_pair :: "fork \<Rightarrow> fork \<Rightarrow> fork_order_error option" where
  "check_fork_pair lastFork cur =
     (if fork_block lastFork = None \<and> fork_time lastFork = None \<and>
         (fork_block cur \<noteq> None \<or> fork_time cur \<noteq> None)
      then Some (NotEnabled (fork_name lastFork) (fork_name cur))
      else if (fork_block lastFork \<noteq> None \<and> fork_block cur \<noteq> None) \<or>
              (fork_time lastFork \<noteq> None \<and> fork_time cur \<noteq> None)
      then
        (if opt_gt (fork_block lastFork) (fork_block cur)
         then Some (BlockOrder (fork_name lastFork) (fork_block lastFork) (fork_name cur) (fork_block cur))
         else if opt_gt (fork_time lastFork) (fork_time cur)
         then Some (TimeOrder (fork_name lastFork) (fork_time lastFork) (fork_name cur) (fork_time cur))
         else if fork_time lastFork \<noteq> None \<and> fork_block cur \<noteq> None
         then Some (RevertedToBlock (fork_name lastFork) (fork_name cur))
         else None)
      else None)"

fun check_fork_loop :: "fork option \<Rightarrow> fork list \<Rightarrow> fork_order_error option" where
  "check_fork_loop lastFork [] = None"
| "check_fork_loop lastFork (cur # forks) =
     (let keep = (if \<not> fork_optional cur \<or> fork_block cur \<noteq> None \<or> fork_time cur \<noteq> None
                  then Some cur else lastFork)
      in case lastFork of
           None \<Rightarrow> check_fork_loop keep forks
         | Some l \<Rightarrow> (case check_fork_pair l cur of
                        Some e \<Rightarrow> Some e
                      | None \<Rightarrow> check_fork_loop keep forks))"

definition CheckConfigForkOrder :: "chain_config \<Rightarrow> fork_order_error option" where
  "CheckConfigForkOrder c = check_fork_loop None (fork_list c)"

section \<open>Compatibility of two configurations\<close>

definition configBlockEqual :: "int option \<Rightarrow> int option \<Rightarrow> bool" where
  "configBlockEqual x y =
     (case x of None \<Rightarrow> y = None | Some a \<Rightarrow> (case y of None \<Rightarrow> False | Some b \<Rightarrow> a = b))"

definition isForkBlockIncompatible :: "int option \<Rightarrow> int option \<Rightarrow> int option \<Rightarrow> bool" where
  "isForkBlockIncompatible s1 s2 head \<longleftrightarrow>
     (isBlockForked s1 head \<or> isBlockForked s2 head) \<and> \<not> configBlockEqual s1 s2"

definition configTimestampEqual :: "u64 option \<Rightarrow> u64 option \<Rightarrow> bool" where
  "configTimestampEqual x y =
     (case x of None \<Rightarrow> y = None | Some a \<Rightarrow> (case y of None \<Rightarrow> False | Some b \<Rightarrow> a = b))"

definition isForkTimestampIncompatible :: "u64 option \<Rightarrow> u64 option \<Rightarrow> u64 \<Rightarrow> bool" where
  "isForkTimestampIncompatible s1 s2 head \<longleftrightarrow>
     (isTimestampForked s1 head \<or> isTimestampForked s2 head) \<and> \<not> configTimestampEqual s1 s2"

record compat_error =
  ce_What :: string
  StoredBlock :: "int option"
  NewBlock :: "int option"
  StoredTime :: "u64 option"
  NewTime :: "u64 option"
  RewindToBlock :: u64
  RewindToTime :: u64

text \<open>\<open>rew.Uint64() - 1\<close>: the low 64 bits, wrapping.\<close>

definition newBlockCompatError :: "string \<Rightarrow> int option \<Rightarrow> int option \<Rightarrow> compat_error" where
  "newBlockCompatError what stored new =
     (let rew = (case stored of
           None \<Rightarrow> new
         | Some s \<Rightarrow> (case new of None \<Rightarrow> stored | Some n \<Rightarrow> if s < n then stored else new))
      in \<lparr>ce_What = what, StoredBlock = stored, NewBlock = new, StoredTime = None, NewTime = None,
          RewindToBlock = (case rew of None \<Rightarrow> 0 | Some r \<Rightarrow> if r > 0 then word_of_int r - 1 else 0),
          RewindToTime = 0\<rparr>)"

definition newTimestampCompatError :: "string \<Rightarrow> u64 option \<Rightarrow> u64 option \<Rightarrow> compat_error" where
  "newTimestampCompatError what stored new =
     (let rew = (case stored of
           None \<Rightarrow> new
         | Some s \<Rightarrow> (case new of None \<Rightarrow> stored | Some n \<Rightarrow> if s < n then stored else new))
      in \<lparr>ce_What = what, StoredBlock = None, NewBlock = None, StoredTime = stored, NewTime = new,
          RewindToBlock = 0,
          RewindToTime = (case rew of None \<Rightarrow> 0 | Some r \<Rightarrow> r - 1)\<rparr>)"

text \<open>The checks of \<open>checkCompatible\<close> in their order, the first that fails is the error.\<close>

definition checkCompatible :: "chain_config \<Rightarrow> chain_config \<Rightarrow> int \<Rightarrow> u64 \<Rightarrow> compat_error option" where
  "checkCompatible c n headNumber headTime =
    (let h = Some headNumber;
         blk = (\<lambda>what f. if isForkBlockIncompatible (f c) (f n) h
                          then Some (newBlockCompatError what (f c) (f n)) else None);
         tm = (\<lambda>what f. if isForkTimestampIncompatible (f c) (f n) headTime
                         then Some (newTimestampCompatError what (f c) (f n)) else None);
         checks =
          [blk ''Homestead fork block'' HomesteadBlock,
           blk ''DAO fork block'' DAOForkBlock,
           (if IsDAOFork c h \<and> DAOForkSupport c \<noteq> DAOForkSupport n
            then Some (newBlockCompatError ''DAO fork support flag'' (DAOForkBlock c) (DAOForkBlock n)) else None),
           blk ''EIP150 fork block'' EIP150Block,
           blk ''EIP155 fork block'' EIP155Block,
           blk ''EIP158 fork block'' EIP158Block,
           (if IsEIP158 c h \<and> \<not> configBlockEqual (ChainID c) (ChainID n)
            then Some (newBlockCompatError ''EIP158 chain ID'' (EIP158Block c) (EIP158Block n)) else None),
           blk ''Byzantium fork block'' ByzantiumBlock,
           blk ''Constantinople fork block'' ConstantinopleBlock,
           (if isForkBlockIncompatible (PetersburgBlock c) (PetersburgBlock n) h \<and>
               isForkBlockIncompatible (ConstantinopleBlock c) (PetersburgBlock n) h
            then Some (newBlockCompatError ''Petersburg fork block'' (PetersburgBlock c) (PetersburgBlock n)) else None),
           blk ''Istanbul fork block'' IstanbulBlock,
           blk ''Muir Glacier fork block'' MuirGlacierBlock,
           blk ''Berlin fork block'' BerlinBlock,
           blk ''London fork block'' LondonBlock,
           blk ''Arrow Glacier fork block'' ArrowGlacierBlock,
           blk ''Gray Glacier fork block'' GrayGlacierBlock,
           blk ''Merge netsplit fork block'' MergeNetsplitBlock,
           tm ''Shanghai fork timestamp'' ShanghaiTime,
           tm ''Cancun fork timestamp'' CancunTime,
           tm ''Prague fork timestamp'' PragueTime,
           tm ''Verkle fork timestamp'' VerkleTime]
     in case List.find (\<lambda>x. x \<noteq> None) checks of None \<Rightarrow> None | Some r \<Rightarrow> r)"

text \<open>
  The loop of \<open>CheckCompatible\<close>, with fuel: it stops when no error is found or when an error
  repeats the rewind point of the last one.  \<^term>\<open>None\<close> means that the fuel ran out.
\<close>

fun compat_loop ::
  "nat \<Rightarrow> chain_config \<Rightarrow> chain_config \<Rightarrow> int \<Rightarrow> u64 \<Rightarrow> compat_error option \<Rightarrow> compat_error option option" where
  "compat_loop 0 c n bhead btime lasterr = None"
| "compat_loop (Suc fuel) c n bhead btime lasterr =
     (case checkCompatible c n bhead btime of
        None \<Rightarrow> Some lasterr
      | Some err \<Rightarrow>
         if (case lasterr of None \<Rightarrow> False
             | Some l \<Rightarrow> RewindToBlock err = RewindToBlock l \<and> RewindToTime err = RewindToTime l)
         then Some lasterr
         else if RewindToTime err > 0 then compat_loop fuel c n bhead (RewindToTime err) (Some err)
         else compat_loop fuel c n (uint (RewindToBlock err)) btime (Some err))"

definition CheckCompatible :: "nat \<Rightarrow> chain_config \<Rightarrow> chain_config \<Rightarrow> u64 \<Rightarrow> u64 \<Rightarrow> compat_error option option" where
  "CheckCompatible fuel c n height time = compat_loop fuel c n (uint height) time None"

end
