(* ===== verification/StateDB.thy ===== *)
theory StateDB
  imports AccountState AccessList Params
begin

text \<open>
  The state database of \<^verbatim>\<open>core/state\<close>: \<^verbatim>\<open>state_object.go\<close> (accounts with their storage caches),
  \<^verbatim>\<open>journal.go\<close> (undo entries) and \<^verbatim>\<open>statedb.go\<close> (the operations the EVM uses, snapshots,
  \<open>Finalise\<close>, \<open>Prepare\<close>).

  A \<^verbatim>\<open>*stateObject\<close> is named by its address: at every use the Go pointer has just been read out of
  \<open>stateObjects\<close>, so an operation on the object is an update of that map.  Reads fill the caches
  (\<open>stateObjects\<close>, \<open>originStorage\<close>, \<open>code\<close>) and may record a database error, so they
  return the new state too.  The tries, the snapshot layer and the code store below the StateDB are
  the read functions of the record \<open>database\<close>; the trie prefetcher and the metrics, which do not
  change what is computed, are left out.
\<close>

section \<open>Accounts and logs\<close>

record state_account =
  sa_Nonce :: u64
  sa_Balance :: int
  sa_Root :: hash
  sa_CodeHash :: hash

record slim_account =
  slim_Nonce :: u64
  slim_Balance :: int
  slim_Root :: bytes
  slim_CodeHash :: bytes

record log =
  log_Address :: address
  log_Topics :: "hash list"
  log_Data :: bytes
  log_BlockNumber :: u64
  log_TxHash :: hash
  log_TxIndex :: u64
  log_Index :: u64

text \<open>The read interface below the StateDB; \<open>Inl\<close> is a database error.\<close>

record snapshot_reader =
  snap_Account :: "hash \<Rightarrow> string + slim_account option"
  snap_Storage :: "hash \<Rightarrow> hash \<Rightarrow> string + bytes"

record database =
  db_GetAccount :: "address \<Rightarrow> string + state_account option"
  db_OpenStorageTrie :: "address \<Rightarrow> hash \<Rightarrow> string + (hash \<Rightarrow> string + bytes)"
  db_ContractCode :: "address \<Rightarrow> hash \<Rightarrow> string + bytes"
  db_rlpSplit :: "bytes \<Rightarrow> string option \<times> bytes"
  db_Keccak256 :: "bytes \<Rightarrow> hash"

type_synonym storage = "hash \<rightharpoonup> hash"

record state_object =
  so_address :: address
  so_addrHash :: hash
  so_origin :: "state_account option"
  so_data :: state_account
  so_code :: "bytes option"
  originStorage :: storage
  pendingStorage :: storage
  dirtyStorage :: storage
  dirtyCode :: bool
  selfDestructed :: bool
  deleted :: bool
  created :: bool

section \<open>Journal entries\<close>

datatype journal_entry =
    CreateObjectChange address
  | ResetObjectChange address state_object bool "bytes option" "(hash \<rightharpoonup> bytes) option"
      bool "bytes option" "(hash \<rightharpoonup> bytes) option"
  | SelfDestructChange address bool int
  | BalanceChange address int
  | NonceChange address u64
  | StorageChange address hash hash
  | CodeChange address "bytes option" hash
  | RefundChange u64
  | AddLogChange hash
  | AddPreimageChange hash
  | TouchChange address
  | AccessListAddAccountChange address
  | AccessListAddSlotChange address hash
  | TransientStorageChange address hash hash

text \<open>\<open>dirtied\<close>: the address the entry modifies, if any.\<close>

fun dirtied :: "journal_entry \<Rightarrow> address option" where
  "dirtied (CreateObjectChange a) = Some a"
| "dirtied (ResetObjectChange a _ _ _ _ _ _ _) = Some a"
| "dirtied (SelfDestructChange a _ _) = Some a"
| "dirtied (BalanceChange a _) = Some a"
| "dirtied (NonceChange a _) = Some a"
| "dirtied (StorageChange a _ _) = Some a"
| "dirtied (CodeChange a _ _) = Some a"
| "dirtied (TouchChange a) = Some a"
| "dirtied (RefundChange _) = None"
| "dirtied (AddLogChange _) = None"
| "dirtied (AddPreimageChange _) = None"
| "dirtied (AccessListAddAccountChange _) = None"
| "dirtied (AccessListAddSlotChange _ _) = None"
| "dirtied (TransientStorageChange _ _ _) = None"

record journal =
  entries :: "journal_entry list"
  dirties :: "address \<rightharpoonup> int"

definition newJournal :: journal where
  "newJournal = \<lparr>entries = [], dirties = Map.empty\<rparr>"

text \<open>\<open>journal.append\<close> and \<open>journal.dirty\<close>.\<close>

definition journal_dirty :: "journal \<Rightarrow> address \<Rightarrow> journal" where
  "journal_dirty j a = j\<lparr>dirties := (dirties j)(a \<mapsto> get0 (dirties j) a + 1)\<rparr>"

definition journal_append :: "journal \<Rightarrow> journal_entry \<Rightarrow> journal" where
  "journal_append j e =
     (let j1 = j\<lparr>entries := entries j @ [e]\<rparr>
      in case dirtied e of None \<Rightarrow> j1 | Some a \<Rightarrow> journal_dirty j1 a)"

definition journal_length :: "journal \<Rightarrow> nat" where
  "journal_length j = length (entries j)"

section \<open>The state database\<close>

record revision =
  rev_id :: int
  journalIndex :: nat

record statedb =
  db :: database
  snap :: "snapshot_reader option"
  sdb_accounts :: "hash \<rightharpoonup> bytes"
  sdb_storages :: "hash \<rightharpoonup> (hash \<rightharpoonup> bytes)"
  accountsOrigin :: "address \<rightharpoonup> bytes option"
  storagesOrigin :: "address \<rightharpoonup> (hash \<rightharpoonup> bytes)"
  stateObjects :: "address \<rightharpoonup> state_object"
  stateObjectsPending :: "address set"
  stateObjectsDirty :: "address set"
  stateObjectsDestruct :: "address \<rightharpoonup> state_account option"
  dbErr :: "string option"
  refund :: u64
  thash :: hash
  txIndex :: int
  logs :: "hash \<rightharpoonup> log list"
  logSize :: u64
  preimages :: "hash \<rightharpoonup> bytes"
  accessList :: access_list
  transientStorage :: transient_storage
  sdb_journal :: journal
  validRevisions :: "revision list"
  nextRevisionId :: int
  accountState :: "account_state option"

definition keccak :: "database \<Rightarrow> bytes \<Rightarrow> hash" where
  "keccak d = db_Keccak256 d"

definition EmptyCodeHash :: "database \<Rightarrow> hash" where
  "EmptyCodeHash d = keccak d []"

definition EmptyRootHash :: hash where
  "EmptyRootHash = 0x56e81f171bcc55a6ff8345e692c0f86e5b48e01b996cadc001622fb5e363b421"

definition NewEmptyStateAccount :: "database \<Rightarrow> state_account" where
  "NewEmptyStateAccount d =
     \<lparr>sa_Nonce = 0, sa_Balance = 0, sa_Root = EmptyRootHash, sa_CodeHash = EmptyCodeHash d\<rparr>"

text \<open>\<open>New\<close> for a database whose trie at the root could be opened; no snapshot, no journal.\<close>

definition New :: "database \<Rightarrow> snapshot_reader option \<Rightarrow> statedb" where
  "New d sn =
     \<lparr>db = d, snap = sn, sdb_accounts = Map.empty, sdb_storages = Map.empty,
      accountsOrigin = Map.empty, storagesOrigin = Map.empty, stateObjects = Map.empty,
      stateObjectsPending = {}, stateObjectsDirty = {}, stateObjectsDestruct = Map.empty,
      dbErr = None, refund = 0, thash = 0, txIndex = 0, logs = Map.empty, logSize = 0,
      preimages = Map.empty, accessList = newAccessList, transientStorage = newTransientStorage,
      sdb_journal = newJournal, validRevisions = [], nextRevisionId = 0, accountState = None\<rparr>"

definition setError :: "statedb \<Rightarrow> string \<Rightarrow> statedb" where
  "setError s e = (if dbErr s = None then s\<lparr>dbErr := Some e\<rparr> else s)"

definition SetAccountState :: "statedb \<Rightarrow> account_state \<Rightarrow> statedb" where
  "SetAccountState s a = s\<lparr>accountState := Some a\<rparr>"

definition SetTxContext :: "statedb \<Rightarrow> hash \<Rightarrow> int \<Rightarrow> statedb" where
  "SetTxContext s h i = s\<lparr>thash := h, txIndex := i\<rparr>"

definition sdb_append :: "statedb \<Rightarrow> journal_entry \<Rightarrow> statedb" where
  "sdb_append s e = s\<lparr>sdb_journal := journal_append (sdb_journal s) e\<rparr>"

definition upd_obj :: "statedb \<Rightarrow> address \<Rightarrow> (state_object \<Rightarrow> state_object) \<Rightarrow> statedb" where
  "upd_obj s a f = s\<lparr>stateObjects := (stateObjects s)(a := map_option f (stateObjects s a))\<rparr>"

section \<open>State objects\<close>

definition empty_object :: "database \<Rightarrow> state_object \<Rightarrow> bool" where
  "empty_object d ob =
     (sa_Nonce (so_data ob) = 0 \<and> sa_Balance (so_data ob) = 0 \<and>
      sa_CodeHash (so_data ob) = EmptyCodeHash d)"

definition newObject :: "database \<Rightarrow> address \<Rightarrow> state_account option \<Rightarrow> state_object" where
  "newObject d a acct =
     \<lparr>so_address = a, so_addrHash = keccak d (to_be 20 a), so_origin = acct,
      so_data = (case acct of None \<Rightarrow> NewEmptyStateAccount d | Some x \<Rightarrow> x),
      so_code = None, originStorage = Map.empty, pendingStorage = Map.empty,
      dirtyStorage = Map.empty, dirtyCode = False, selfDestructed = False, deleted = False,
      created = (acct = None)\<rparr>"

definition setStateObject :: "statedb \<Rightarrow> state_object \<Rightarrow> statedb" where
  "setStateObject s ob = s\<lparr>stateObjects := (stateObjects s)(so_address ob \<mapsto> ob)\<rparr>"

text \<open>The account data of a snapshot record.\<close>

definition snap_state_account :: "database \<Rightarrow> slim_account \<Rightarrow> state_account" where
  "snap_state_account d acc =
     (let ch = (if slim_CodeHash acc = [] then EmptyCodeHash d else be_word (slim_CodeHash acc));
          root = be_word (slim_Root acc)
      in \<lparr>sa_Nonce = slim_Nonce acc, sa_Balance = slim_Balance acc,
          sa_Root = (if root = 0 then EmptyRootHash else root), sa_CodeHash = ch\<rparr>)"

definition getDeletedStateObject :: "statedb \<Rightarrow> address \<Rightarrow> state_object option \<times> statedb" where
  "getDeletedStateObject s a =
     (case stateObjects s a of
        Some ob \<Rightarrow> (Some ob, s)
      | None \<Rightarrow>
         (let from_snap = (case snap s of
              None \<Rightarrow> Inl []
            | Some sn \<Rightarrow> snap_Account sn (keccak (db s) (to_be 20 a)));
              insert_live = (\<lambda>d. let ob = newObject (db s) a (Some d) in (Some ob, setStateObject s ob))
          in case from_snap of
               Inr None \<Rightarrow> (None, s)
             | Inr (Some acc) \<Rightarrow> insert_live (snap_state_account (db s) acc)
             | Inl _ \<Rightarrow>
                 (case db_GetAccount (db s) a of
                    Inl e \<Rightarrow> (None, setError s e)
                  | Inr None \<Rightarrow> (None, s)
                  | Inr (Some d) \<Rightarrow> insert_live d)))"

definition getStateObject :: "statedb \<Rightarrow> address \<Rightarrow> state_object option \<times> statedb" where
  "getStateObject s a =
     (case getDeletedStateObject s a of
        (Some ob, s') \<Rightarrow> (if deleted ob then (None, s') else (Some ob, s'))
      | (None, s') \<Rightarrow> (None, s'))"

definition createObject :: "statedb \<Rightarrow> address \<Rightarrow> state_object \<times> state_object option \<times> statedb" where
  "createObject s a =
     (case getDeletedStateObject s a of (prev, s1) \<Rightarrow>
      let newobj = newObject (db s1) a None;
          s2 = (case prev of
            None \<Rightarrow> sdb_append s1 (CreateObjectChange a)
          | Some p \<Rightarrow>
             (let pa = so_address p;
                  ph = so_addrHash p;
                  prevdestruct = stateObjectsDestruct s1 pa \<noteq> None;
                  sd = (if prevdestruct then s1
                        else s1\<lparr>stateObjectsDestruct := (stateObjectsDestruct s1)(pa \<mapsto> so_origin p)\<rparr>);
                  sj = sdb_append sd (ResetObjectChange a p prevdestruct (sdb_accounts sd ph)
                         (sdb_storages sd ph) (accountsOrigin sd pa \<noteq> None)
                         (Option.bind (accountsOrigin sd pa) id) (storagesOrigin sd pa))
              in sj\<lparr>sdb_accounts := map_delete ph (sdb_accounts sj),
                    sdb_storages := map_delete ph (sdb_storages sj),
                    accountsOrigin := map_delete pa (accountsOrigin sj),
                    storagesOrigin := map_delete pa (storagesOrigin sj)\<rparr>));
          s3 = setStateObject s2 newobj
      in (newobj, (case prev of Some p \<Rightarrow> if deleted p then None else Some p | None \<Rightarrow> None), s3))"

definition GetOrNewStateObject :: "statedb \<Rightarrow> address \<Rightarrow> state_object \<times> statedb" where
  "GetOrNewStateObject s a =
     (case getStateObject s a of
        (Some ob, s') \<Rightarrow> (ob, s')
      | (None, s') \<Rightarrow> (case createObject s' a of (ob, _, s'') \<Rightarrow> (ob, s'')))"

subsection \<open>Storage of an object\<close>

text \<open>Reading the storage trie: an error is recorded and reads as zero.\<close>

definition trie_storage :: "statedb \<Rightarrow> state_object \<Rightarrow> hash \<Rightarrow> string + bytes" where
  "trie_storage s ob k =
     (case db_OpenStorageTrie (db s) (so_address ob) (sa_Root (so_data ob)) of
        Inl e \<Rightarrow> Inl e
      | Inr tr \<Rightarrow> tr k)"

definition cache_origin :: "statedb \<Rightarrow> state_object \<Rightarrow> hash \<Rightarrow> hash \<Rightarrow> statedb" where
  "cache_origin s ob k v =
     upd_obj s (so_address ob) (\<lambda>x. x\<lparr>originStorage := (originStorage x)(k \<mapsto> v)\<rparr>)"

definition obj_GetCommittedState :: "statedb \<Rightarrow> state_object \<Rightarrow> hash \<Rightarrow> hash \<times> statedb" where
  "obj_GetCommittedState s ob k =
     (case pendingStorage ob k of
        Some v \<Rightarrow> (v, s)
      | None \<Rightarrow>
       (case originStorage ob k of
          Some v \<Rightarrow> (v, s)
        | None \<Rightarrow>
           if stateObjectsDestruct s (so_address ob) \<noteq> None then (0, s)
           else
            (let (v0, s0, again) = (case snap s of
                  None \<Rightarrow> (0, s, True)
                | Some sn \<Rightarrow>
                   (case snap_Storage sn (so_addrHash ob) (keccak (db s) (to_be 32 k)) of
                      Inl _ \<Rightarrow> (0, s, True)
                    | Inr enc \<Rightarrow>
                       if enc = [] then (0, s, False)
                       else (case db_rlpSplit (db s) enc of
                               (None, c) \<Rightarrow> (be_word c, s, False)
                             | (Some e, c) \<Rightarrow> (be_word c, setError s e, False))))
             in if \<not> again then (v0, cache_origin s0 ob k v0)
                else (case trie_storage s0 ob k of
                        Inl e \<Rightarrow> (0, setError s0 e)
                      | Inr val \<Rightarrow> (be_word val, cache_origin s0 ob k (be_word val))))))"

definition obj_GetState :: "statedb \<Rightarrow> state_object \<Rightarrow> hash \<Rightarrow> hash \<times> statedb" where
  "obj_GetState s ob k =
     (case dirtyStorage ob k of Some v \<Rightarrow> (v, s) | None \<Rightarrow> obj_GetCommittedState s ob k)"

definition obj_setState :: "statedb \<Rightarrow> address \<Rightarrow> hash \<Rightarrow> hash \<Rightarrow> statedb" where
  "obj_setState s a k v = upd_obj s a (\<lambda>x. x\<lparr>dirtyStorage := (dirtyStorage x)(k \<mapsto> v)\<rparr>)"

definition obj_SetState :: "statedb \<Rightarrow> state_object \<Rightarrow> hash \<Rightarrow> hash \<Rightarrow> statedb" where
  "obj_SetState s ob k v =
     (case obj_GetState s ob k of (prev, s1) \<Rightarrow>
      if prev = v then s1
      else obj_setState (sdb_append s1 (StorageChange (so_address ob) k prev)) (so_address ob) k v)"

subsection \<open>Balance, nonce and code of an object\<close>

definition ripemd :: address where "ripemd = 3"

definition obj_touch :: "statedb \<Rightarrow> address \<Rightarrow> statedb" where
  "obj_touch s a =
     (let s1 = sdb_append s (TouchChange a)
      in if a = ripemd then s1\<lparr>sdb_journal := journal_dirty (sdb_journal s1) a\<rparr> else s1)"

definition obj_setBalance :: "statedb \<Rightarrow> address \<Rightarrow> int \<Rightarrow> statedb" where
  "obj_setBalance s a n = upd_obj s a (\<lambda>x. x\<lparr>so_data := (so_data x)\<lparr>sa_Balance := n\<rparr>\<rparr>)"

definition obj_SetBalance :: "statedb \<Rightarrow> state_object \<Rightarrow> int \<Rightarrow> statedb" where
  "obj_SetBalance s ob n =
     obj_setBalance (sdb_append s (BalanceChange (so_address ob) (sa_Balance (so_data ob)))) (so_address ob) n"

definition obj_AddBalance :: "statedb \<Rightarrow> state_object \<Rightarrow> int \<Rightarrow> statedb" where
  "obj_AddBalance s ob n =
     (if n = 0 then (if empty_object (db s) ob then obj_touch s (so_address ob) else s)
      else obj_SetBalance s ob (sa_Balance (so_data ob) + n))"

definition obj_SubBalance :: "statedb \<Rightarrow> state_object \<Rightarrow> int \<Rightarrow> statedb" where
  "obj_SubBalance s ob n =
     (if n = 0 then s else obj_SetBalance s ob (sa_Balance (so_data ob) - n))"

definition obj_setNonce :: "statedb \<Rightarrow> address \<Rightarrow> u64 \<Rightarrow> statedb" where
  "obj_setNonce s a n = upd_obj s a (\<lambda>x. x\<lparr>so_data := (so_data x)\<lparr>sa_Nonce := n\<rparr>\<rparr>)"

definition obj_SetNonce :: "statedb \<Rightarrow> state_object \<Rightarrow> u64 \<Rightarrow> statedb" where
  "obj_SetNonce s ob n =
     obj_setNonce (sdb_append s (NonceChange (so_address ob) (sa_Nonce (so_data ob)))) (so_address ob) n"

definition obj_Code :: "statedb \<Rightarrow> state_object \<Rightarrow> bytes option \<times> statedb" where
  "obj_Code s ob =
     (case so_code ob of
        Some c \<Rightarrow> (Some c, s)
      | None \<Rightarrow>
         if sa_CodeHash (so_data ob) = EmptyCodeHash (db s) then (None, s)
         else (case db_ContractCode (db s) (so_address ob) (sa_CodeHash (so_data ob)) of
                 Inl e \<Rightarrow> (None, setError s e)
               | Inr c \<Rightarrow> (Some c, upd_obj s (so_address ob) (\<lambda>x. x\<lparr>so_code := Some c\<rparr>))))"

definition obj_CodeSize :: "statedb \<Rightarrow> state_object \<Rightarrow> nat \<times> statedb" where
  "obj_CodeSize s ob =
     (case so_code ob of
        Some c \<Rightarrow> (length c, s)
      | None \<Rightarrow>
         if sa_CodeHash (so_data ob) = EmptyCodeHash (db s) then (0, s)
         else (case db_ContractCode (db s) (so_address ob) (sa_CodeHash (so_data ob)) of
                 Inl e \<Rightarrow> (0, setError s e)
               | Inr c \<Rightarrow> (length c, s)))"

definition obj_setCode :: "statedb \<Rightarrow> address \<Rightarrow> hash \<Rightarrow> bytes option \<Rightarrow> statedb" where
  "obj_setCode s a h code =
     upd_obj s a (\<lambda>x. x\<lparr>so_code := code, so_data := (so_data x)\<lparr>sa_CodeHash := h\<rparr>, dirtyCode := True\<rparr>)"

definition obj_SetCode :: "statedb \<Rightarrow> state_object \<Rightarrow> hash \<Rightarrow> bytes option \<Rightarrow> statedb" where
  "obj_SetCode s ob h code =
     (case obj_Code s ob of (prevcode, s1) \<Rightarrow>
      obj_setCode (sdb_append s1 (CodeChange (so_address ob) prevcode (sa_CodeHash (so_data ob))))
        (so_address ob) h code)"

section \<open>Undoing the journal (journal.go)\<close>

text \<open>
  \<open>revert\<close> of each entry.  The entries of an account dereference the object they find, so a
  missing object panics; \<open>selfDestructChange\<close> tests for it.
\<close>

definition with_object :: "statedb \<Rightarrow> address \<Rightarrow> (statedb \<Rightarrow> address \<Rightarrow> statedb) \<Rightarrow> statedb option" where
  "with_object s a f =
     (case getStateObject s a of
        (None, _) \<Rightarrow> None
      | (Some ob, s') \<Rightarrow> Some (f s' (so_address ob)))"

fun revert_entry :: "journal_entry \<Rightarrow> statedb \<Rightarrow> statedb option" where
  "revert_entry (CreateObjectChange a) s =
     Some (s\<lparr>stateObjects := map_delete a (stateObjects s), stateObjectsDirty := stateObjectsDirty s - {a}\<rparr>)"
| "revert_entry (ResetObjectChange a prev prevdestruct prevAccount prevStorage
      prevAccountOriginExist prevAccountOrigin prevStorageOrigin) s =
     (let s1 = setStateObject s prev;
          pa = so_address prev;
          ph = so_addrHash prev;
          s2 = (if \<not> prevdestruct then s1\<lparr>stateObjectsDestruct := map_delete pa (stateObjectsDestruct s1)\<rparr> else s1);
          s3 = (case prevAccount of None \<Rightarrow> s2 | Some v \<Rightarrow> s2\<lparr>sdb_accounts := (sdb_accounts s2)(ph \<mapsto> v)\<rparr>);
          s4 = (case prevStorage of None \<Rightarrow> s3 | Some v \<Rightarrow> s3\<lparr>sdb_storages := (sdb_storages s3)(ph \<mapsto> v)\<rparr>);
          s5 = (if prevAccountOriginExist
                then s4\<lparr>accountsOrigin := (accountsOrigin s4)(pa \<mapsto> prevAccountOrigin)\<rparr> else s4)
      in Some (case prevStorageOrigin of
                 None \<Rightarrow> s5 | Some v \<Rightarrow> s5\<lparr>storagesOrigin := (storagesOrigin s5)(pa \<mapsto> v)\<rparr>))"
| "revert_entry (SelfDestructChange a prev prevbalance) s =
     (case getStateObject s a of
        (None, s') \<Rightarrow> Some s'
      | (Some ob, s') \<Rightarrow>
          Some (obj_setBalance (upd_obj s' (so_address ob) (\<lambda>x. x\<lparr>selfDestructed := prev\<rparr>))
                  (so_address ob) prevbalance))"
| "revert_entry (BalanceChange a prev) s = with_object s a (\<lambda>s a. obj_setBalance s a prev)"
| "revert_entry (NonceChange a prev) s = with_object s a (\<lambda>s a. obj_setNonce s a prev)"
| "revert_entry (StorageChange a k prev) s = with_object s a (\<lambda>s a. obj_setState s a k prev)"
| "revert_entry (CodeChange a prevcode prevhash) s =
     with_object s a (\<lambda>s a. obj_setCode s a prevhash prevcode)"
| "revert_entry (RefundChange prev) s = Some (s\<lparr>refund := prev\<rparr>)"
| "revert_entry (AddLogChange h) s =
     (let ls = (case logs s h of None \<Rightarrow> [] | Some l \<Rightarrow> l)
      in if length ls = 1 then Some (s\<lparr>logs := map_delete h (logs s), logSize := logSize s - 1\<rparr>)
         else do { require (ls \<noteq> []);
                   Some (s\<lparr>logs := (logs s)(h \<mapsto> butlast ls), logSize := logSize s - 1\<rparr>) })"
| "revert_entry (AddPreimageChange h) s = Some (s\<lparr>preimages := map_delete h (preimages s)\<rparr>)"
| "revert_entry (TouchChange a) s = Some s"
| "revert_entry (AccessListAddAccountChange a) s =
     Some (s\<lparr>accessList := DeleteAddress (accessList s) a\<rparr>)"
| "revert_entry (AccessListAddSlotChange a k) s = do {
     al \<leftarrow> DeleteSlot (accessList s) a k;
     Some (s\<lparr>accessList := al\<rparr>) }"
| "revert_entry (TransientStorageChange a k prev) s =
     Some (s\<lparr>transientStorage := ts_Set (transientStorage s) a k prev\<rparr>)"

definition undirty :: "journal \<Rightarrow> journal_entry \<Rightarrow> journal" where
  "undirty j e =
     (case dirtied e of
        None \<Rightarrow> j
      | Some a \<Rightarrow>
         (let d = get0 (dirties j) a - 1
          in j\<lparr>dirties := (if d = 0 then map_delete a (dirties j) else (dirties j)(a \<mapsto> d))\<rparr>))"

fun revert_loop :: "journal_entry list \<Rightarrow> statedb \<Rightarrow> statedb option" where
  "revert_loop [] s = Some s"
| "revert_loop (e # es) s = do {
     s1 \<leftarrow> revert_entry e s;
     revert_loop es (s1\<lparr>sdb_journal := undirty (sdb_journal s1) e\<rparr>) }"

definition journal_revert :: "statedb \<Rightarrow> nat \<Rightarrow> statedb option" where
  "journal_revert s n = do {
     require (n \<le> journal_length (sdb_journal s));
     s1 \<leftarrow> revert_loop (rev (drop n (entries (sdb_journal s)))) s;
     Some (s1\<lparr>sdb_journal := (sdb_journal s1)\<lparr>entries := take n (entries (sdb_journal s1))\<rparr>\<rparr>) }"

section \<open>Snapshots\<close>

definition Snapshot :: "statedb \<Rightarrow> int \<times> statedb" where
  "Snapshot s =
     (nextRevisionId s,
      s\<lparr>nextRevisionId := nextRevisionId s + 1,
        validRevisions := validRevisions s @ [\<lparr>rev_id = nextRevisionId s,
                                               journalIndex = journal_length (sdb_journal s)\<rparr>]\<rparr>)"

text \<open>The binary search of \<^verbatim>\<open>sort.Search\<close>: the least index in \<open>[i, j)\<close> at which a monotone test holds, else \<open>j\<close>.\<close>

function sort_search :: "(nat \<Rightarrow> bool) \<Rightarrow> nat \<Rightarrow> nat \<Rightarrow> nat" where
  "sort_search f i j =
     (if i < j
      then let h = (i + j) div 2 in if \<not> f h then sort_search f (h + 1) j else sort_search f i h
      else i)"
  by auto
termination
  by (relation "measure (\<lambda>(f, i, j). j - i)") auto

declare sort_search.simps [simp del]

definition RevertToSnapshot :: "statedb \<Rightarrow> int \<Rightarrow> statedb option" where
  "RevertToSnapshot s revid =
     (let vr = validRevisions s;
          i = sort_search (\<lambda>i. rev_id (vr ! i) \<ge> revid) 0 (length vr)
      in do {
        require (i \<noteq> length vr \<and> rev_id (vr ! i) = revid);
        s1 \<leftarrow> journal_revert s (journalIndex (vr ! i));
        Some (s1\<lparr>validRevisions := take i (validRevisions s1)\<rparr>) })"

section \<open>Operations of the StateDB\<close>

subsection \<open>Logs, preimages, refund\<close>

definition AddLog :: "statedb \<Rightarrow> log \<Rightarrow> statedb" where
  "AddLog s l =
     (let s1 = sdb_append s (AddLogChange (thash s));
          l1 = l\<lparr>log_TxHash := thash s1, log_TxIndex := word_of_int (txIndex s1), log_Index := logSize s1\<rparr>;
          old = (case logs s1 (thash s1) of None \<Rightarrow> [] | Some ls \<Rightarrow> ls)
      in s1\<lparr>logs := (logs s1)(thash s1 \<mapsto> old @ [l1]), logSize := logSize s1 + 1\<rparr>)"

definition AddLogSu :: "statedb \<Rightarrow> log \<Rightarrow> nat \<times> statedb" where
  "AddLogSu s l =
     (let s1 = sdb_append s (AddLogChange (thash s));
          old = (case logs s1 (thash s1) of None \<Rightarrow> [] | Some ls \<Rightarrow> ls);
          l1 = l\<lparr>log_TxHash := thash s1, log_TxIndex := word_of_int (txIndex s1), log_Index := logSize s1\<rparr>
      in (length old, s1\<lparr>logs := (logs s1)(thash s1 \<mapsto> old @ [l1]), logSize := logSize s1 + 1\<rparr>))"

definition AddPreimage :: "statedb \<Rightarrow> hash \<Rightarrow> bytes \<Rightarrow> statedb" where
  "AddPreimage s h pre =
     (if preimages s h = None
      then let s1 = sdb_append s (AddPreimageChange h) in s1\<lparr>preimages := (preimages s1)(h \<mapsto> pre)\<rparr>
      else s)"

definition AddRefund :: "statedb \<Rightarrow> u64 \<Rightarrow> statedb" where
  "AddRefund s gas = (let s1 = sdb_append s (RefundChange (refund s)) in s1\<lparr>refund := refund s1 + gas\<rparr>)"

definition SubRefund :: "statedb \<Rightarrow> u64 \<Rightarrow> statedb option" where
  "SubRefund s gas =
     (let s1 = sdb_append s (RefundChange (refund s))
      in do { require (\<not> gas > refund s1); Some (s1\<lparr>refund := refund s1 - gas\<rparr>) })"

definition GetRefund :: "statedb \<Rightarrow> u64" where
  "GetRefund s = refund s"

subsection \<open>Reads\<close>

definition Exist :: "statedb \<Rightarrow> address \<Rightarrow> bool \<times> statedb" where
  "Exist s a = (case getStateObject s a of (ob, s') \<Rightarrow> (ob \<noteq> None, s'))"

definition Empty :: "statedb \<Rightarrow> address \<Rightarrow> bool \<times> statedb" where
  "Empty s a =
     (case getStateObject s a of
        (None, s') \<Rightarrow> (True, s')
      | (Some ob, s') \<Rightarrow> (empty_object (db s') ob, s'))"

definition GetBalance :: "statedb \<Rightarrow> address \<Rightarrow> int \<times> statedb" where
  "GetBalance s a =
     (case getStateObject s a of (None, s') \<Rightarrow> (0, s') | (Some ob, s') \<Rightarrow> (sa_Balance (so_data ob), s'))"

definition GetNonce :: "statedb \<Rightarrow> address \<Rightarrow> u64 \<times> statedb" where
  "GetNonce s a =
     (case getStateObject s a of (None, s') \<Rightarrow> (0, s') | (Some ob, s') \<Rightarrow> (sa_Nonce (so_data ob), s'))"

definition GetStorageRoot :: "statedb \<Rightarrow> address \<Rightarrow> hash \<times> statedb" where
  "GetStorageRoot s a =
     (case getStateObject s a of (None, s') \<Rightarrow> (0, s') | (Some ob, s') \<Rightarrow> (sa_Root (so_data ob), s'))"

definition GetCode :: "statedb \<Rightarrow> address \<Rightarrow> bytes option \<times> statedb" where
  "GetCode s a =
     (case getStateObject s a of (None, s') \<Rightarrow> (None, s') | (Some ob, s') \<Rightarrow> obj_Code s' ob)"

definition GetCodeSize :: "statedb \<Rightarrow> address \<Rightarrow> nat \<times> statedb" where
  "GetCodeSize s a =
     (case getStateObject s a of (None, s') \<Rightarrow> (0, s') | (Some ob, s') \<Rightarrow> obj_CodeSize s' ob)"

definition GetCodeHash :: "statedb \<Rightarrow> address \<Rightarrow> hash \<times> statedb" where
  "GetCodeHash s a =
     (case getStateObject s a of (None, s') \<Rightarrow> (0, s') | (Some ob, s') \<Rightarrow> (sa_CodeHash (so_data ob), s'))"

definition GetState :: "statedb \<Rightarrow> address \<Rightarrow> hash \<Rightarrow> hash \<times> statedb" where
  "GetState s a k =
     (case getStateObject s a of (None, s') \<Rightarrow> (0, s') | (Some ob, s') \<Rightarrow> obj_GetState s' ob k)"

definition GetCommittedState :: "statedb \<Rightarrow> address \<Rightarrow> hash \<Rightarrow> hash \<times> statedb" where
  "GetCommittedState s a k =
     (case getStateObject s a of (None, s') \<Rightarrow> (0, s') | (Some ob, s') \<Rightarrow> obj_GetCommittedState s' ob k)"

definition HasSelfDestructed :: "statedb \<Rightarrow> address \<Rightarrow> bool \<times> statedb" where
  "HasSelfDestructed s a =
     (case getStateObject s a of (None, s') \<Rightarrow> (False, s') | (Some ob, s') \<Rightarrow> (selfDestructed ob, s'))"

subsection \<open>Writes\<close>

definition AddBalance :: "statedb \<Rightarrow> address \<Rightarrow> int \<Rightarrow> statedb" where
  "AddBalance s a n = (case GetOrNewStateObject s a of (ob, s') \<Rightarrow> obj_AddBalance s' ob n)"

definition SubBalance :: "statedb \<Rightarrow> address \<Rightarrow> int \<Rightarrow> statedb" where
  "SubBalance s a n = (case GetOrNewStateObject s a of (ob, s') \<Rightarrow> obj_SubBalance s' ob n)"

definition SetBalance :: "statedb \<Rightarrow> address \<Rightarrow> int \<Rightarrow> statedb" where
  "SetBalance s a n = (case GetOrNewStateObject s a of (ob, s') \<Rightarrow> obj_SetBalance s' ob n)"

definition SetNonce :: "statedb \<Rightarrow> address \<Rightarrow> u64 \<Rightarrow> statedb" where
  "SetNonce s a n = (case GetOrNewStateObject s a of (ob, s') \<Rightarrow> obj_SetNonce s' ob n)"

definition SetCode :: "statedb \<Rightarrow> address \<Rightarrow> bytes option \<Rightarrow> statedb" where
  "SetCode s a code =
     (case GetOrNewStateObject s a of (ob, s') \<Rightarrow>
      obj_SetCode s' ob (keccak (db s') (case code of None \<Rightarrow> [] | Some c \<Rightarrow> c)) code)"

definition SetState :: "statedb \<Rightarrow> address \<Rightarrow> hash \<Rightarrow> hash \<Rightarrow> statedb" where
  "SetState s a k v = (case GetOrNewStateObject s a of (ob, s') \<Rightarrow> obj_SetState s' ob k v)"

text \<open>\<open>SetStorage\<close> visits the new storage in some order; the pointer it holds is re-read.\<close>

fun set_all_storage :: "statedb \<Rightarrow> address \<Rightarrow> (hash \<times> hash) list \<Rightarrow> statedb option" where
  "set_all_storage s a [] = Some s"
| "set_all_storage s a ((k, v) # kvs) = do {
     ob \<leftarrow> stateObjects s a;
     set_all_storage (obj_SetState s ob k v) a kvs }"

definition SetStorage :: "statedb \<Rightarrow> address \<Rightarrow> (hash \<times> hash) list \<Rightarrow> statedb option" where
  "SetStorage s a kvs =
     (let s1 = (if stateObjectsDestruct s a = None
                then s\<lparr>stateObjectsDestruct := (stateObjectsDestruct s)(a \<mapsto> None)\<rparr> else s)
      in case GetOrNewStateObject s1 a of (ob, s2) \<Rightarrow> set_all_storage s2 a kvs)"

definition SelfDestruct :: "statedb \<Rightarrow> address \<Rightarrow> statedb" where
  "SelfDestruct s a =
     (case getStateObject s a of
        (None, s') \<Rightarrow> s'
      | (Some ob, s') \<Rightarrow>
         (let s1 = sdb_append s' (SelfDestructChange a (selfDestructed ob) (sa_Balance (so_data ob)))
          in upd_obj s1 (so_address ob)
               (\<lambda>x. x\<lparr>selfDestructed := True, so_data := (so_data x)\<lparr>sa_Balance := 0\<rparr>\<rparr>)))"

definition Selfdestruct6780 :: "statedb \<Rightarrow> address \<Rightarrow> statedb" where
  "Selfdestruct6780 s a =
     (case getStateObject s a of
        (None, s') \<Rightarrow> s'
      | (Some ob, s') \<Rightarrow> if created ob then SelfDestruct s' a else s')"

definition CreateAccount :: "statedb \<Rightarrow> address \<Rightarrow> statedb" where
  "CreateAccount s a =
     (case createObject s a of
        (newObj, prev, s') \<Rightarrow>
          (case prev of
             None \<Rightarrow> s'
           | Some p \<Rightarrow> obj_setBalance s' (so_address newObj) (sa_Balance (so_data p))))"

definition GetTransientState :: "statedb \<Rightarrow> address \<Rightarrow> hash \<Rightarrow> hash" where
  "GetTransientState s a k = ts_Get (transientStorage s) a k"

definition SetTransientState :: "statedb \<Rightarrow> address \<Rightarrow> hash \<Rightarrow> hash \<Rightarrow> statedb" where
  "SetTransientState s a k v =
     (let prev = GetTransientState s a k
      in if prev = v then s
         else let s1 = sdb_append s (TransientStorageChange a k prev)
              in s1\<lparr>transientStorage := ts_Set (transientStorage s1) a k v\<rparr>)"

subsection \<open>The access list\<close>

definition AddAddressToAccessList :: "statedb \<Rightarrow> address \<Rightarrow> statedb" where
  "AddAddressToAccessList s a =
     (case AddAddress (accessList s) a of
        (al, added) \<Rightarrow>
          let s1 = s\<lparr>accessList := al\<rparr>
          in if added then sdb_append s1 (AccessListAddAccountChange a) else s1)"

definition AddSlotToAccessList :: "statedb \<Rightarrow> address \<Rightarrow> hash \<Rightarrow> statedb option" where
  "AddSlotToAccessList s a k =
     (case AddSlot (accessList s) a k of
        None \<Rightarrow> None
      | Some (al, addrMod, slotMod) \<Rightarrow>
          let s1 = s\<lparr>accessList := al\<rparr>;
              s2 = (if addrMod then sdb_append s1 (AccessListAddAccountChange a) else s1)
          in Some (if slotMod then sdb_append s2 (AccessListAddSlotChange a k) else s2))"

definition AddressInAccessList :: "statedb \<Rightarrow> address \<Rightarrow> bool" where
  "AddressInAccessList s a = ContainsAddress (accessList s) a"

definition SlotInAccessList :: "statedb \<Rightarrow> address \<Rightarrow> hash \<Rightarrow> (bool \<times> bool) option" where
  "SlotInAccessList s a k = Contains (accessList s) a k"

type_synonym tx_access_list = "(address \<times> hash list) list"

fun prepare_slots :: "access_list \<Rightarrow> address \<Rightarrow> hash list \<Rightarrow> access_list option" where
  "prepare_slots al a [] = Some al"
| "prepare_slots al a (k # ks) = do { (al', _) \<leftarrow> AddSlot al a k; prepare_slots al' a ks }"

fun prepare_list :: "access_list \<Rightarrow> tx_access_list \<Rightarrow> access_list option" where
  "prepare_list al [] = Some al"
| "prepare_list al ((a, ks) # els) = do {
     al' \<leftarrow> prepare_slots (fst (AddAddress al a)) a ks;
     prepare_list al' els }"

definition Prepare ::
  "statedb \<Rightarrow> rules \<Rightarrow> address \<Rightarrow> address \<Rightarrow> address option \<Rightarrow> address list \<Rightarrow> tx_access_list \<Rightarrow> statedb option" where
  "Prepare s r sender coinbase dst precompiles tal = do {
     s1 \<leftarrow> (if ruleBerlin r
            then do {
              let al = fst (AddAddress newAccessList sender);
              let al = (case dst of None \<Rightarrow> al | Some d \<Rightarrow> fst (AddAddress al d));
              let al = foldl (\<lambda>al a. fst (AddAddress al a)) al precompiles;
              al \<leftarrow> prepare_list al tal;
              let al = (if ruleShanghai r then fst (AddAddress al coinbase) else al);
              Some (s\<lparr>accessList := al\<rparr>) }
            else Some s);
     Some (s1\<lparr>transientStorage := newTransientStorage\<rparr>) }"

section \<open>The end of a transaction\<close>

definition clearJournalAndRefund :: "statedb \<Rightarrow> statedb" where
  "clearJournalAndRefund s =
     (let s1 = (if length (entries (sdb_journal s)) > 0
                then s\<lparr>sdb_journal := newJournal, refund := 0\<rparr> else s)
      in s1\<lparr>validRevisions := []\<rparr>)"

text \<open>\<open>stateObject.finalise\<close>: the dirty storage moves to the pending storage.\<close>

definition obj_finalise :: "state_object \<Rightarrow> state_object" where
  "obj_finalise x = x\<lparr>pendingStorage := pendingStorage x ++ dirtyStorage x, dirtyStorage := Map.empty\<rparr>"

definition finalise_address :: "bool \<Rightarrow> statedb \<Rightarrow> address \<Rightarrow> statedb" where
  "finalise_address deleteEmptyObjects s a =
     (case stateObjects s a of
        None \<Rightarrow> s
      | Some ob \<Rightarrow>
         (let s1 =
            (if selfDestructed ob \<or> (deleteEmptyObjects \<and> empty_object (db s) ob)
             then
              (let oa = so_address ob;
                   oh = so_addrHash ob;
                   sd = upd_obj s a (\<lambda>x. x\<lparr>deleted := True\<rparr>);
                   sd = (if stateObjectsDestruct sd oa = None
                         then sd\<lparr>stateObjectsDestruct := (stateObjectsDestruct sd)(oa \<mapsto> so_origin ob)\<rparr>
                         else sd)
               in sd\<lparr>sdb_accounts := map_delete oh (sdb_accounts sd),
                     sdb_storages := map_delete oh (sdb_storages sd),
                     accountsOrigin := map_delete oa (accountsOrigin sd),
                     storagesOrigin := map_delete oa (storagesOrigin sd)\<rparr>)
             else upd_obj s a obj_finalise);
              s2 = upd_obj s1 a (\<lambda>x. x\<lparr>created := False\<rparr>)
          in s2\<lparr>stateObjectsPending := insert a (stateObjectsPending s2),
                stateObjectsDirty := insert a (stateObjectsDirty s2)\<rparr>))"

text \<open>\<open>order\<close> enumerates the keys of \<open>journal.dirties\<close>.\<close>

definition Finalise :: "address list \<Rightarrow> bool \<Rightarrow> statedb \<Rightarrow> statedb" where
  "Finalise order deleteEmptyObjects s =
     clearJournalAndRefund (foldl (finalise_address deleteEmptyObjects) s order)"

section \<open>A small concrete database\<close>

text \<open>An account with a balance, one slot and no code; every other address is empty.\<close>

definition demo_db :: database where
  "demo_db =
     \<lparr>db_GetAccount = (\<lambda>a. Inr (if a = 7 then Some \<lparr>sa_Nonce = 1, sa_Balance = 100, sa_Root = 5, sa_CodeHash = 9\<rparr>
                               else None)),
      db_OpenStorageTrie = (\<lambda>a r. Inr (\<lambda>k. Inr (if a = 7 \<and> r = 5 \<and> k = 1 then [42] else []))),
      db_ContractCode = (\<lambda>a h. Inl ''not found''),
      db_rlpSplit = (\<lambda>b. (None, b)),
      db_Keccak256 = (\<lambda>b. if b = [] then 9 else be_word b + 1)\<rparr>"

end
