(* ===== verification/StateDB_World.thy ===== *)
theory StateDB_World
  imports StateDB
begin

text \<open>
  What a client of the StateDB can observe, as a \<open>world\<close>: for every address the account its
  reads would find (whether cached or still in the database), and the other fields that a transaction
  can change.  The caches (\<open>stateObjects\<close>, \<open>originStorage\<close>, \<open>code\<close>), the memorised
  database error, the journal and the revision stack are not part of it.  The theory gives the
  operations of the StateDB as operations on worlds and shows that \<^verbatim>\<open>statedb.go\<close> implements
  them, with the journal entries that undo each one.
\<close>

section \<open>Worlds\<close>

record account_view =
  av_data :: state_account
  av_origin :: "state_account option"
  av_address :: address
  av_addrHash :: hash
  av_code :: "bytes option"
  av_storage :: "hash \<Rightarrow> hash"
  av_committed :: "hash \<Rightarrow> hash"
  av_selfDestructed :: bool
  av_deleted :: bool
  av_created :: bool

record world =
  w_db :: database
  w_snap :: "snapshot_reader option"
  w_account :: "address \<Rightarrow> account_view option"
  w_destruct :: "address \<rightharpoonup> state_account option"
  w_accounts :: "hash \<rightharpoonup> bytes"
  w_storages :: "hash \<rightharpoonup> (hash \<rightharpoonup> bytes)"
  w_accountsOrigin :: "address \<rightharpoonup> bytes option"
  w_storagesOrigin :: "address \<rightharpoonup> (hash \<rightharpoonup> bytes)"
  w_refund :: u64
  w_thash :: hash
  w_txIndex :: int
  w_logs :: "hash \<Rightarrow> log list"
  w_logSize :: u64
  w_preimages :: "hash \<rightharpoonup> bytes"
  w_accessList :: access_list
  w_transient :: "address \<Rightarrow> hash \<Rightarrow> hash"

text \<open>What the database below the caches holds.\<close>

definition base_storage :: "database \<Rightarrow> snapshot_reader option \<Rightarrow> state_object \<Rightarrow> hash \<Rightarrow> hash" where
  "base_storage d sn ob k =
     (let from_trie =
        (case db_OpenStorageTrie d (so_address ob) (sa_Root (so_data ob)) of
           Inl e \<Rightarrow> 0
         | Inr tr \<Rightarrow> (case tr k of Inl e \<Rightarrow> 0 | Inr v \<Rightarrow> be_word v))
      in case sn of
           None \<Rightarrow> from_trie
         | Some r \<Rightarrow>
            (case snap_Storage r (so_addrHash ob) (keccak d (to_be 32 k)) of
               Inl _ \<Rightarrow> from_trie
             | Inr enc \<Rightarrow> if enc = [] then 0 else be_word (snd (db_rlpSplit d enc))))"

lemma base_storage_cong:
  "so_address ob' = so_address ob \<Longrightarrow> so_addrHash ob' = so_addrHash ob \<Longrightarrow>
   sa_Root (so_data ob') = sa_Root (so_data ob) \<Longrightarrow> base_storage d sn ob' = base_storage d sn ob"
  by (rule ext) (simp add: base_storage_def cong: option.case_cong)

lemma base_storage_upd [simp]:
  "base_storage d sn (ob\<lparr>originStorage := os\<rparr>) = base_storage d sn ob"
  "base_storage d sn (ob\<lparr>dirtyStorage := os\<rparr>) = base_storage d sn ob"
  "base_storage d sn (ob\<lparr>so_code := c\<rparr>) = base_storage d sn ob"
  "base_storage d sn (ob\<lparr>so_code := c, so_data := (so_data ob)\<lparr>sa_CodeHash := h\<rparr>, dirtyCode := b\<rparr>) =
     base_storage d sn ob"
  "base_storage d sn (ob\<lparr>so_data := (so_data ob)\<lparr>sa_Balance := n\<rparr>\<rparr>) = base_storage d sn ob"
  "base_storage d sn (ob\<lparr>so_data := (so_data ob)\<lparr>sa_Nonce := m\<rparr>\<rparr>) = base_storage d sn ob"
  "base_storage d sn (ob\<lparr>selfDestructed := b\<rparr>) = base_storage d sn ob"
  "base_storage d sn (ob\<lparr>so_data := (so_data ob)\<lparr>sa_Balance := n\<rparr>, selfDestructed := b\<rparr>) = base_storage d sn ob"
  by (rule base_storage_cong; simp)+

definition base_object :: "database \<Rightarrow> snapshot_reader option \<Rightarrow> address \<Rightarrow> state_object option" where
  "base_object d sn a =
     (let from_trie =
        (case db_GetAccount d a of Inl e \<Rightarrow> None | Inr x \<Rightarrow> map_option (\<lambda>x. newObject d a (Some x)) x)
      in case sn of
           None \<Rightarrow> from_trie
         | Some r \<Rightarrow>
            (case snap_Account r (keccak d (to_be 20 a)) of
               Inl _ \<Rightarrow> from_trie
             | Inr x \<Rightarrow> map_option (\<lambda>x. newObject d a (Some (snap_state_account d x))) x))"

definition base_code :: "database \<Rightarrow> address \<Rightarrow> hash \<Rightarrow> bytes option" where
  "base_code d a h =
     (if h = EmptyCodeHash d then None
      else case db_ContractCode d a h of Inl e \<Rightarrow> None | Inr c \<Rightarrow> Some c)"

definition committed_value ::
  "database \<Rightarrow> snapshot_reader option \<Rightarrow> bool \<Rightarrow> state_object \<Rightarrow> hash \<Rightarrow> hash" where
  "committed_value d sn destructed ob k =
     (case pendingStorage ob k of Some v \<Rightarrow> v
      | None \<Rightarrow> (case originStorage ob k of Some v \<Rightarrow> v
                 | None \<Rightarrow> if destructed then 0 else base_storage d sn ob k))"

definition view_object ::
  "database \<Rightarrow> snapshot_reader option \<Rightarrow> bool \<Rightarrow> state_object \<Rightarrow> account_view" where
  "view_object d sn destructed ob =
     \<lparr>av_data = so_data ob, av_origin = so_origin ob, av_address = so_address ob,
      av_addrHash = so_addrHash ob,
      av_code = (case so_code ob of Some c \<Rightarrow> Some c
                 | None \<Rightarrow> base_code d (so_address ob) (sa_CodeHash (so_data ob))),
      av_storage = (\<lambda>k. case dirtyStorage ob k of Some v \<Rightarrow> v
                         | None \<Rightarrow> committed_value d sn destructed ob k),
      av_committed = committed_value d sn destructed ob,
      av_selfDestructed = selfDestructed ob, av_deleted = deleted ob, av_created = created ob\<rparr>"

definition lookup :: "statedb \<Rightarrow> address \<Rightarrow> state_object option" where
  "lookup s a = (case stateObjects s a of Some ob \<Rightarrow> Some ob | None \<Rightarrow> base_object (db s) (snap s) a)"

definition account_of :: "statedb \<Rightarrow> address \<Rightarrow> account_view option" where
  "account_of s a =
     map_option (view_object (db s) (snap s) (stateObjectsDestruct s a \<noteq> None)) (lookup s a)"

definition world_of :: "statedb \<Rightarrow> world" where
  "world_of s =
     \<lparr>w_db = db s, w_snap = snap s, w_account = account_of s,
      w_destruct = stateObjectsDestruct s, w_accounts = sdb_accounts s, w_storages = sdb_storages s,
      w_accountsOrigin = accountsOrigin s, w_storagesOrigin = storagesOrigin s,
      w_refund = refund s, w_thash = thash s, w_txIndex = txIndex s,
      w_logs = (\<lambda>h. case logs s h of None \<Rightarrow> [] | Some l \<Rightarrow> l), w_logSize = logSize s,
      w_preimages = preimages s, w_accessList = accessList s,
      w_transient = ts_Get (transientStorage s)\<rparr>"

section \<open>Well-formed states\<close>

definition object_ok :: "database \<Rightarrow> address \<Rightarrow> state_object \<Rightarrow> bool" where
  "object_ok d a ob \<longleftrightarrow> so_address ob = a \<and> so_addrHash ob = keccak d (to_be 20 a)"

fun entry_ok :: "database \<Rightarrow> journal_entry \<Rightarrow> bool" where
  "entry_ok d (ResetObjectChange a p pd pa ps pae pao pso) = object_ok d a p"
| "entry_ok d _ = True"

definition sdb_ok :: "statedb \<Rightarrow> bool" where
  "sdb_ok s \<longleftrightarrow>
     (\<forall>a ob. stateObjects s a = Some ob \<longrightarrow> object_ok (db s) a ob) \<and>
     list_all (entry_ok (db s)) (entries (sdb_journal s))"

lemma object_ok_base: "base_object d sn a = Some ob \<Longrightarrow> object_ok d a ob"
  by (auto simp: base_object_def object_ok_def newObject_def Let_def split: option.splits sum.splits)

lemma sdb_ok_lookup: "sdb_ok s \<Longrightarrow> lookup s a = Some ob \<Longrightarrow> object_ok (db s) a ob"
  by (auto simp: sdb_ok_def lookup_def dest: object_ok_base split: option.splits)

lemma sdb_ok_New [simp]: "sdb_ok (New d sn)"
  by (simp add: sdb_ok_def New_def newJournal_def)

section \<open>Reads change nothing that can be observed\<close>

definition same_world :: "statedb \<Rightarrow> statedb \<Rightarrow> bool" where
  "same_world s s' \<longleftrightarrow>
     world_of s' = world_of s \<and> sdb_journal s' = sdb_journal s \<and>
     validRevisions s' = validRevisions s \<and> nextRevisionId s' = nextRevisionId s \<and>
     accountState s' = accountState s"

lemma same_world_refl [simp]: "same_world s s"
  by (simp add: same_world_def)

lemma same_world_trans [trans]: "same_world s t \<Longrightarrow> same_world t u \<Longrightarrow> same_world s u"
  by (simp add: same_world_def)

lemma world_of_eqI:
  "account_of s' = account_of s \<Longrightarrow> db s' = db s \<Longrightarrow> snap s' = snap s \<Longrightarrow>
   stateObjectsDestruct s' = stateObjectsDestruct s \<Longrightarrow> sdb_accounts s' = sdb_accounts s \<Longrightarrow>
   sdb_storages s' = sdb_storages s \<Longrightarrow> accountsOrigin s' = accountsOrigin s \<Longrightarrow>
   storagesOrigin s' = storagesOrigin s \<Longrightarrow> refund s' = refund s \<Longrightarrow> thash s' = thash s \<Longrightarrow>
   txIndex s' = txIndex s \<Longrightarrow> logs s' = logs s \<Longrightarrow> logSize s' = logSize s \<Longrightarrow>
   preimages s' = preimages s \<Longrightarrow> accessList s' = accessList s \<Longrightarrow>
   transientStorage s' = transientStorage s \<Longrightarrow> world_of s' = world_of s"
  by (simp add: world_of_def)

lemma account_of_cong:
  "stateObjects s' = stateObjects s \<Longrightarrow> db s' = db s \<Longrightarrow> snap s' = snap s \<Longrightarrow>
   stateObjectsDestruct s' = stateObjectsDestruct s \<Longrightarrow> account_of s' = account_of s"
  by (rule ext) (simp add: account_of_def lookup_def split: option.split)

lemma account_of_frame [simp]:
  "account_of (s\<lparr>refund := f1\<rparr>) = account_of s"
  "account_of (s\<lparr>logs := f2\<rparr>) = account_of s"
  "account_of (s\<lparr>logSize := f3\<rparr>) = account_of s"
  "account_of (s\<lparr>preimages := f4\<rparr>) = account_of s"
  "account_of (s\<lparr>accessList := f5\<rparr>) = account_of s"
  "account_of (s\<lparr>transientStorage := f6\<rparr>) = account_of s"
  "account_of (s\<lparr>sdb_journal := f7\<rparr>) = account_of s"
  "account_of (s\<lparr>validRevisions := f8\<rparr>) = account_of s"
  "account_of (s\<lparr>nextRevisionId := f9\<rparr>) = account_of s"
  "account_of (s\<lparr>sdb_accounts := f10\<rparr>) = account_of s"
  "account_of (s\<lparr>sdb_storages := f11\<rparr>) = account_of s"
  "account_of (s\<lparr>accountsOrigin := f12\<rparr>) = account_of s"
  "account_of (s\<lparr>storagesOrigin := f13\<rparr>) = account_of s"
  "account_of (s\<lparr>accountState := f14\<rparr>) = account_of s"
  "account_of (s\<lparr>stateObjectsPending := f15\<rparr>) = account_of s"
  "account_of (s\<lparr>stateObjectsDirty := f15\<rparr>) = account_of s"
  by (rule account_of_cong; simp)+

lemma setError_frame [simp]:
  "account_of (setError s e) = account_of s" "sdb_ok (setError s e) = sdb_ok s"
  "stateObjects (setError s e) = stateObjects s" "db (setError s e) = db s" "snap (setError s e) = snap s"
  "stateObjectsDestruct (setError s e) = stateObjectsDestruct s"
  by (auto simp: setError_def sdb_ok_def intro!: account_of_cong)

lemma same_world_setError [simp]: "same_world s (setError s e)"
  unfolding same_world_def by (intro conjI world_of_eqI) (auto simp: setError_def intro!: account_of_cong)

lemma same_world_object:
  assumes "stateObjects s a = Some ob"
    and "view_object (db s) (snap s) (stateObjectsDestruct s a \<noteq> None) ob' =
         view_object (db s) (snap s) (stateObjectsDestruct s a \<noteq> None) ob"
  shows "same_world s (s\<lparr>stateObjects := (stateObjects s)(a \<mapsto> ob')\<rparr>)"
  unfolding same_world_def
  by (intro conjI world_of_eqI) (use assms in \<open>auto simp: account_of_def lookup_def fun_eq_iff split: option.splits\<close>)

lemma same_world_load:
  "stateObjects s a = None \<Longrightarrow> base_object (db s) (snap s) a = Some ob \<Longrightarrow>
   same_world s (s\<lparr>stateObjects := (stateObjects s)(a \<mapsto> ob)\<rparr>)"
  unfolding same_world_def
  by (intro conjI world_of_eqI) (auto simp: account_of_def lookup_def fun_eq_iff split: option.splits)

lemma upd_obj_Some: "stateObjects s a = Some ob \<Longrightarrow>
  upd_obj s a f = s\<lparr>stateObjects := (stateObjects s)(a \<mapsto> f ob)\<rparr>"
  by (simp add: upd_obj_def)

lemma sdb_ok_object:
  "sdb_ok s \<Longrightarrow> object_ok (db s) a ob \<Longrightarrow> sdb_ok (s\<lparr>stateObjects := (stateObjects s)(a \<mapsto> ob)\<rparr>)"
  by (auto simp: sdb_ok_def)

lemma getDeletedStateObject_world:
  assumes ok: "sdb_ok s" and get: "getDeletedStateObject s a = (r, s')"
  shows "r = lookup s a" "same_world s s'" "sdb_ok s'" "db s' = db s" "snap s' = snap s"
    "stateObjectsDestruct s' = stateObjectsDestruct s"
    "stateObjects s' a = r"
proof -
  have "r = lookup s a \<and> same_world s s' \<and> sdb_ok s' \<and> db s' = db s \<and> snap s' = snap s \<and>
      stateObjectsDestruct s' = stateObjectsDestruct s \<and> stateObjects s' a = r"
  proof (cases "stateObjects s a")
    case (Some ob)
    with ok get show ?thesis by (auto simp: getDeletedStateObject_def lookup_def split: option.splits)
  next
    case None
    show ?thesis
    proof (cases "base_object (db s) (snap s) a")
      case (Some ob)
      have "s' = s\<lparr>stateObjects := (stateObjects s)(a \<mapsto> ob)\<rparr> \<and> r = Some ob"
        using get None Some
        by (auto simp: getDeletedStateObject_def base_object_def setStateObject_def newObject_def Let_def
            split: option.splits sum.splits)
      with None Some ok show ?thesis
        by (auto simp: lookup_def intro!: same_world_load sdb_ok_object object_ok_base)
    next
      case no: None
      have "r = None \<and> (s' = s \<or> (\<exists>e. s' = setError s e))"
        using get None no
        by (auto simp: getDeletedStateObject_def base_object_def Let_def split: option.splits sum.splits)
      with None no ok show ?thesis by (auto simp: lookup_def)
    qed
  qed
  then show "r = lookup s a" "same_world s s'" "sdb_ok s'" "db s' = db s" "snap s' = snap s"
    "stateObjectsDestruct s' = stateObjectsDestruct s" "stateObjects s' a = r"
    by auto
qed

definition live :: "statedb \<Rightarrow> address \<Rightarrow> state_object option" where
  "live s a = (case lookup s a of None \<Rightarrow> None | Some ob \<Rightarrow> if deleted ob then None else Some ob)"

lemma getStateObject_world:
  assumes ok: "sdb_ok s" and get: "getStateObject s a = (r, s')"
  shows "r = live s a" "same_world s s'" "sdb_ok s'" "db s' = db s" "snap s' = snap s"
    "stateObjectsDestruct s' = stateObjectsDestruct s" "stateObjects s' a = lookup s a"
    "r = Some ob \<Longrightarrow> stateObjects s' a = Some ob \<and> object_ok (db s') a ob"
proof -
  obtain r0 where g: "getDeletedStateObject s a = (r0, s')"
    and r: "r = (case r0 of None \<Rightarrow> None | Some ob \<Rightarrow> if deleted ob then None else Some ob)"
    using get by (auto simp: getStateObject_def split: prod.splits option.splits if_splits)
  note w = getDeletedStateObject_world [OF ok g]
  show "r = live s a" "same_world s s'" "sdb_ok s'" "db s' = db s" "snap s' = snap s"
    "stateObjectsDestruct s' = stateObjectsDestruct s" "stateObjects s' a = lookup s a"
    using w r by (auto simp: live_def)
  show "r = Some ob \<Longrightarrow> stateObjects s' a = Some ob \<and> object_ok (db s') a ob"
    using w r by (auto simp: sdb_ok_def split: option.splits if_splits)
qed

lemma obj_GetCommittedState_world:
  assumes ok: "sdb_ok s" and ob: "stateObjects s a = Some ob"
    and get: "obj_GetCommittedState s ob k = (v, s')"
  shows "v = committed_value (db s) (snap s) (stateObjectsDestruct s a \<noteq> None) ob k"
    "same_world s s'" "sdb_ok s'" "db s' = db s" "snap s' = snap s"
    "stateObjectsDestruct s' = stateObjectsDestruct s"
    "\<exists>ob'. stateObjects s' a = Some ob' \<and> ob' = ob\<lparr>originStorage := originStorage ob'\<rparr>"
proof -
  let ?d = "stateObjectsDestruct s a \<noteq> None"
  have a: "so_address ob = a" using ok ob by (auto simp: sdb_ok_def object_ok_def)
  have cache: "same_world t (cache_origin t ob k v0) \<and> sdb_ok (cache_origin t ob k v0) \<and>
      db (cache_origin t ob k v0) = db s \<and> snap (cache_origin t ob k v0) = snap s \<and>
      stateObjectsDestruct (cache_origin t ob k v0) = stateObjectsDestruct s \<and>
      stateObjects (cache_origin t ob k v0) a = Some (ob\<lparr>originStorage := (originStorage ob)(k \<mapsto> v0)\<rparr>)"
    if t: "t = s \<or> (\<exists>e. t = setError s e)" and v0: "v0 = base_storage (db s) (snap s) ob k"
      and none: "pendingStorage ob k = None" "originStorage ob k = None" "\<not> ?d" for t v0
  proof -
    have "view_object (db s) (snap s) ?d (ob\<lparr>originStorage := (originStorage ob)(k \<mapsto> v0)\<rparr>) =
        view_object (db s) (snap s) ?d ob"
      using none by (auto simp: view_object_def committed_value_def v0 fun_eq_iff split: option.split)
    moreover have "object_ok (db s) a (ob\<lparr>originStorage := (originStorage ob)(k \<mapsto> v0)\<rparr>)"
      using ob ok by (auto simp: sdb_ok_def object_ok_def)
    moreover have "db t = db s" "snap t = snap s" "stateObjectsDestruct t = stateObjectsDestruct s"
      "stateObjects t a = Some ob" "sdb_ok t"
      using t ob ok by auto
    ultimately show ?thesis
      using same_world_object [of t a ob "ob\<lparr>originStorage := (originStorage ob)(k \<mapsto> v0)\<rparr>"]
        sdb_ok_object [of t a "ob\<lparr>originStorage := (originStorage ob)(k \<mapsto> v0)\<rparr>"]
      by (simp add: cache_origin_def upd_obj_Some a)
  qed
  have sw: "same_world s u" if "same_world (setError s e) u" for e u
    using that same_world_trans same_world_setError by blast
  have "v = committed_value (db s) (snap s) ?d ob k \<and> same_world s s' \<and> sdb_ok s' \<and>
      db s' = db s \<and> snap s' = snap s \<and> stateObjectsDestruct s' = stateObjectsDestruct s \<and>
      (\<exists>ob'. stateObjects s' a = Some ob' \<and> ob' = ob\<lparr>originStorage := originStorage ob'\<rparr>)"
  proof (cases "pendingStorage ob k = None \<and> originStorage ob k = None \<and> \<not> ?d")
    case True
    have "v = base_storage (db s) (snap s) ob k" and "(\<exists>e. s' = setError s e) \<or>
       (\<exists>t. (t = s \<or> (\<exists>e. t = setError s e)) \<and> s' = cache_origin t ob k v)"
      using get True a
      by (auto simp: obj_GetCommittedState_def base_storage_def trie_storage_def Let_def
          split: option.splits sum.splits if_splits prod.splits)
    then consider e where "s' = setError s e"
      | t where "t = s \<or> (\<exists>e. t = setError s e)" "s' = cache_origin t ob k v"
      by blast
    moreover have v: "v = base_storage (db s) (snap s) ob k" by fact
    moreover have "v = committed_value (db s) (snap s) ?d ob k"
      using True v by (simp add: committed_value_def)
    ultimately show ?thesis
    proof cases
      case 1
      with ok ob \<open>v = committed_value _ _ _ _ _\<close> show ?thesis by simp
    next
      case 2
      from True have none: "pendingStorage ob k = None" "originStorage ob k = None" "\<not> ?d" by auto
      from cache [OF 2(1) v none] 2 sw \<open>v = committed_value _ _ _ _ _\<close> show ?thesis
        by (elim disjE exE) auto
    qed
  next
    case False
    with get ob ok a show ?thesis
      by (auto simp: obj_GetCommittedState_def committed_value_def split: option.splits if_splits)
  qed
  then show "v = committed_value (db s) (snap s) ?d ob k" "same_world s s'" "sdb_ok s'" "db s' = db s"
    "snap s' = snap s" "stateObjectsDestruct s' = stateObjectsDestruct s"
    "\<exists>ob'. stateObjects s' a = Some ob' \<and> ob' = ob\<lparr>originStorage := originStorage ob'\<rparr>"
    by blast+
qed

lemma obj_GetState_world:
  assumes ok: "sdb_ok s" and ob: "stateObjects s a = Some ob" and get: "obj_GetState s ob k = (v, s')"
  shows "v = av_storage (view_object (db s) (snap s) (stateObjectsDestruct s a \<noteq> None) ob) k"
    "same_world s s'" "sdb_ok s'" "db s' = db s" "snap s' = snap s"
    "stateObjectsDestruct s' = stateObjectsDestruct s"
    "\<exists>ob'. stateObjects s' a = Some ob' \<and> ob' = ob\<lparr>originStorage := originStorage ob'\<rparr>"
proof -
  have "v = av_storage (view_object (db s) (snap s) (stateObjectsDestruct s a \<noteq> None) ob) k \<and>
    same_world s s' \<and> sdb_ok s' \<and> db s' = db s \<and> snap s' = snap s \<and>
    stateObjectsDestruct s' = stateObjectsDestruct s \<and>
    (\<exists>ob'. stateObjects s' a = Some ob' \<and> ob' = ob\<lparr>originStorage := originStorage ob'\<rparr>)"
  proof (cases "dirtyStorage ob k")
    case None
    then have "obj_GetCommittedState s ob k = (v, s')" using get by (simp add: obj_GetState_def)
    from obj_GetCommittedState_world [OF ok ob this] None show ?thesis by (simp add: view_object_def)
  next
    case (Some x)
    with get ok ob show ?thesis by (simp add: obj_GetState_def view_object_def)
  qed
  then show "v = av_storage (view_object (db s) (snap s) (stateObjectsDestruct s a \<noteq> None) ob) k"
    "same_world s s'" "sdb_ok s'" "db s' = db s" "snap s' = snap s"
    "stateObjectsDestruct s' = stateObjectsDestruct s"
    "\<exists>ob'. stateObjects s' a = Some ob' \<and> ob' = ob\<lparr>originStorage := originStorage ob'\<rparr>"
    by blast+
qed

lemma obj_Code_world:
  assumes ok: "sdb_ok s" and ob: "stateObjects s a = Some ob" and get: "obj_Code s ob = (v, s')"
  shows "v = av_code (view_object (db s) (snap s) (stateObjectsDestruct s a \<noteq> None) ob)"
    "same_world s s'" "sdb_ok s'" "db s' = db s" "snap s' = snap s"
    "stateObjectsDestruct s' = stateObjectsDestruct s"
    "\<exists>ob'. stateObjects s' a = Some ob' \<and> ob' = ob\<lparr>so_code := so_code ob'\<rparr>"
proof -
  have a: "so_address ob = a" using ok ob by (auto simp: sdb_ok_def object_ok_def)
  have cache: "same_world s (upd_obj s a (\<lambda>x. x\<lparr>so_code := Some c\<rparr>)) \<and>
      sdb_ok (upd_obj s a (\<lambda>x. x\<lparr>so_code := Some c\<rparr>))"
    if "so_code ob = None" "base_code (db s) a (sa_CodeHash (so_data ob)) = Some c" for c
  proof -
    have "object_ok (db s) a (ob\<lparr>so_code := Some c\<rparr>)"
      using ok ob by (auto simp: sdb_ok_def object_ok_def)
    moreover have "view_object (db s) (snap s) (stateObjectsDestruct s a \<noteq> None) (ob\<lparr>so_code := Some c\<rparr>) =
        view_object (db s) (snap s) (stateObjectsDestruct s a \<noteq> None) ob"
      using that a by (auto simp: view_object_def committed_value_def fun_eq_iff split: option.split)
    ultimately show ?thesis
      using same_world_object [OF ob] sdb_ok_object [OF ok] by (simp add: upd_obj_Some [OF ob])
  qed
  have "v = av_code (view_object (db s) (snap s) (stateObjectsDestruct s a \<noteq> None) ob) \<and>
    same_world s s' \<and> sdb_ok s' \<and> db s' = db s \<and> snap s' = snap s \<and>
    stateObjectsDestruct s' = stateObjectsDestruct s \<and>
    (\<exists>ob'. stateObjects s' a = Some ob' \<and> ob' = ob\<lparr>so_code := so_code ob'\<rparr>)"
  proof (cases "so_code ob")
    case None
    with get cache a ob ok show ?thesis
      by (auto simp: obj_Code_def view_object_def base_code_def upd_obj_Some split: if_splits sum.splits)
  next
    case (Some c)
    with get have "v = Some c" "s' = s" by (auto simp: obj_Code_def)
    with Some ob ok show ?thesis by (simp add: view_object_def)
  qed
  then show "v = av_code (view_object (db s) (snap s) (stateObjectsDestruct s a \<noteq> None) ob)"
    "same_world s s'" "sdb_ok s'" "db s' = db s" "snap s' = snap s"
    "stateObjectsDestruct s' = stateObjectsDestruct s"
    "\<exists>ob'. stateObjects s' a = Some ob' \<and> ob' = ob\<lparr>so_code := so_code ob'\<rparr>"
    by blast+
qed

section \<open>Undoing an entry, on worlds\<close>

definition w_live :: "world \<Rightarrow> address \<Rightarrow> bool" where
  "w_live w a = (case w_account w a of None \<Rightarrow> False | Some v \<Rightarrow> \<not> av_deleted v)"

definition w_upd :: "world \<Rightarrow> address \<Rightarrow> (account_view \<Rightarrow> account_view) \<Rightarrow> world" where
  "w_upd w a f = w\<lparr>w_account := (w_account w)(a := map_option f (w_account w a))\<rparr>"

definition v_setBalance :: "int \<Rightarrow> account_view \<Rightarrow> account_view" where
  "v_setBalance n v = v\<lparr>av_data := (av_data v)\<lparr>sa_Balance := n\<rparr>\<rparr>"

definition v_setNonce :: "u64 \<Rightarrow> account_view \<Rightarrow> account_view" where
  "v_setNonce n v = v\<lparr>av_data := (av_data v)\<lparr>sa_Nonce := n\<rparr>\<rparr>"

definition v_setState :: "hash \<Rightarrow> hash \<Rightarrow> account_view \<Rightarrow> account_view" where
  "v_setState k x v = v\<lparr>av_storage := (av_storage v)(k := x)\<rparr>"

definition v_setCode :: "database \<Rightarrow> hash \<Rightarrow> bytes option \<Rightarrow> account_view \<Rightarrow> account_view" where
  "v_setCode d h c v =
     v\<lparr>av_code := (case c of Some x \<Rightarrow> Some x | None \<Rightarrow> base_code d (av_address v) h),
       av_data := (av_data v)\<lparr>sa_CodeHash := h\<rparr>\<rparr>"

definition v_setSelfDestructed :: "bool \<Rightarrow> account_view \<Rightarrow> account_view" where
  "v_setSelfDestructed b v = v\<lparr>av_selfDestructed := b\<rparr>"

lemmas v_defs = v_setBalance_def v_setNonce_def v_setState_def v_setCode_def v_setSelfDestructed_def

definition w_view :: "world \<Rightarrow> address \<Rightarrow> state_object \<Rightarrow> account_view" where
  "w_view w a = view_object (w_db w) (w_snap w) (w_destruct w a \<noteq> None)"

fun wundo :: "journal_entry \<Rightarrow> world \<Rightarrow> world option" where
  "wundo (CreateObjectChange a) w =
     Some (w\<lparr>w_account := (w_account w)(a := map_option (w_view w a) (base_object (w_db w) (w_snap w) a))\<rparr>)"
| "wundo (ResetObjectChange a p prevdestruct prevAccount prevStorage prevAccountOriginExist
      prevAccountOrigin prevStorageOrigin) w =
     (let pa = so_address p;
          ph = so_addrHash p;
          w2 = (if \<not> prevdestruct then w\<lparr>w_destruct := map_delete pa (w_destruct w)\<rparr> else w)
      in Some (w2\<lparr>w_account := (w_account w2)(pa \<mapsto> w_view w2 pa p),
                  w_accounts := (case prevAccount of None \<Rightarrow> w_accounts w | Some v \<Rightarrow> (w_accounts w)(ph \<mapsto> v)),
                  w_storages := (case prevStorage of None \<Rightarrow> w_storages w | Some v \<Rightarrow> (w_storages w)(ph \<mapsto> v)),
                  w_accountsOrigin := (if prevAccountOriginExist
                     then (w_accountsOrigin w)(pa \<mapsto> prevAccountOrigin) else w_accountsOrigin w),
                  w_storagesOrigin := (case prevStorageOrigin of None \<Rightarrow> w_storagesOrigin w
                     | Some v \<Rightarrow> (w_storagesOrigin w)(pa \<mapsto> v))\<rparr>))"
| "wundo (SelfDestructChange a prev prevbalance) w =
     Some (if w_live w a then w_upd w a (v_setBalance prevbalance \<circ> v_setSelfDestructed prev) else w)"
| "wundo (BalanceChange a prev) w = (if w_live w a then Some (w_upd w a (v_setBalance prev)) else None)"
| "wundo (NonceChange a prev) w = (if w_live w a then Some (w_upd w a (v_setNonce prev)) else None)"
| "wundo (StorageChange a k prev) w = (if w_live w a then Some (w_upd w a (v_setState k prev)) else None)"
| "wundo (CodeChange a prevcode prevhash) w =
     (if w_live w a then Some (w_upd w a (v_setCode (w_db w) prevhash prevcode)) else None)"
| "wundo (RefundChange prev) w = Some (w\<lparr>w_refund := prev\<rparr>)"
| "wundo (AddLogChange h) w =
     (if w_logs w h = [] then None
      else Some (w\<lparr>w_logs := (w_logs w)(h := butlast (w_logs w h)), w_logSize := w_logSize w - 1\<rparr>))"
| "wundo (AddPreimageChange h) w = Some (w\<lparr>w_preimages := map_delete h (w_preimages w)\<rparr>)"
| "wundo (TouchChange a) w = Some w"
| "wundo (AccessListAddAccountChange a) w = Some (w\<lparr>w_accessList := DeleteAddress (w_accessList w) a\<rparr>)"
| "wundo (AccessListAddSlotChange a k) w =
     map_option (\<lambda>al. w\<lparr>w_accessList := al\<rparr>) (DeleteSlot (w_accessList w) a k)"
| "wundo (TransientStorageChange a k prev) w =
     Some (w\<lparr>w_transient := (w_transient w)(a := (w_transient w a)(k := prev))\<rparr>)"

text \<open>Updating a cached object is an update of its view.\<close>

lemma world_of_simps [simp]:
  "w_db (world_of s) = db s" "w_snap (world_of s) = snap s" "w_account (world_of s) = account_of s"
  "w_destruct (world_of s) = stateObjectsDestruct s" "w_accounts (world_of s) = sdb_accounts s"
  "w_storages (world_of s) = sdb_storages s" "w_accountsOrigin (world_of s) = accountsOrigin s"
  "w_storagesOrigin (world_of s) = storagesOrigin s" "w_refund (world_of s) = refund s"
  "w_thash (world_of s) = thash s" "w_txIndex (world_of s) = txIndex s"
  "w_logs (world_of s) = (\<lambda>h. case logs s h of None \<Rightarrow> [] | Some l \<Rightarrow> l)"
  "w_logSize (world_of s) = logSize s" "w_preimages (world_of s) = preimages s"
  "w_accessList (world_of s) = accessList s" "w_transient (world_of s) = ts_Get (transientStorage s)"
  by (simp_all add: world_of_def)

lemma w_live_world: "w_live (world_of s) a = (live s a \<noteq> None)"
  by (auto simp: w_live_def live_def account_of_def view_object_def split: option.splits)

lemma account_of_upd:
  "account_of (s\<lparr>stateObjects := (stateObjects s)(a \<mapsto> ob)\<rparr>) =
     (account_of s)(a \<mapsto> view_object (db s) (snap s) (stateObjectsDestruct s a \<noteq> None) ob)"
  by (rule ext) (simp add: account_of_def lookup_def split: option.split)

lemma world_of_set_object:
  "world_of (s\<lparr>stateObjects := (stateObjects s)(a \<mapsto> ob)\<rparr>) =
     (world_of s)\<lparr>w_account := (account_of s)(a \<mapsto> view_object (db s) (snap s) (stateObjectsDestruct s a \<noteq> None) ob)\<rparr>"
  by (simp add: world_of_def account_of_upd)

lemma account_of_cached:
  "stateObjects s a = Some ob \<Longrightarrow>
   account_of s a = Some (view_object (db s) (snap s) (stateObjectsDestruct s a \<noteq> None) ob)"
  by (simp add: account_of_def lookup_def)

lemma world_of_upd_obj:
  assumes "stateObjects s a = Some ob"
    and "view_object (db s) (snap s) (stateObjectsDestruct s a \<noteq> None) (f ob) =
         g (view_object (db s) (snap s) (stateObjectsDestruct s a \<noteq> None) ob)"
  shows "world_of (upd_obj s a f) = w_upd (world_of s) a g"
  using assms by (simp add: upd_obj_Some world_of_set_object w_upd_def account_of_cached)

lemma view_setBalance [simp]:
  "view_object d sn b (ob\<lparr>so_data := (so_data ob)\<lparr>sa_Balance := n\<rparr>\<rparr>) = v_setBalance n (view_object d sn b ob)"
  by (auto simp: view_object_def v_defs committed_value_def fun_eq_iff split: option.split)

lemma view_setNonce [simp]:
  "view_object d sn b (ob\<lparr>so_data := (so_data ob)\<lparr>sa_Nonce := m\<rparr>\<rparr>) = v_setNonce m (view_object d sn b ob)"
  by (auto simp: view_object_def v_defs committed_value_def fun_eq_iff split: option.split)

lemma view_setState [simp]:
  "view_object d sn b (ob\<lparr>dirtyStorage := (dirtyStorage ob)(k \<mapsto> x)\<rparr>) = v_setState k x (view_object d sn b ob)"
  by (auto simp: view_object_def v_defs committed_value_def fun_eq_iff split: option.split)

lemma view_setCode [simp]:
  "view_object d sn b (ob\<lparr>so_code := c, so_data := (so_data ob)\<lparr>sa_CodeHash := h\<rparr>, dirtyCode := t\<rparr>) =
     v_setCode d h c (view_object d sn b ob)"
  by (auto simp: view_object_def v_defs committed_value_def fun_eq_iff split: option.split)

lemma view_setSelfDestructed [simp]:
  "view_object d sn b (ob\<lparr>selfDestructed := t\<rparr>) = v_setSelfDestructed t (view_object d sn b ob)"
  by (auto simp: view_object_def v_defs committed_value_def fun_eq_iff split: option.split)

end
