(* ===== verification/StateDB_Revert.thy ===== *)
theory StateDB_Revert
  imports StateDB_World
begin

text \<open>
  The journal of the StateDB undoes what was done: every entry's \<open>revert\<close> implements its undo
  on worlds, every operation appends entries whose undo gives back the world before it, and so
  \<open>RevertToSnapshot\<close> is the return to the world the snapshot was taken in, whatever was done and
  reverted in between.
\<close>

section \<open>Each \<open>revert\<close> implements the undo on worlds\<close>

definition bookkeeping :: "statedb \<Rightarrow> journal \<times> revision list \<times> int \<times> account_state option \<times> database" where
  "bookkeeping s = (sdb_journal s, validRevisions s, nextRevisionId s, accountState s, db s)"

lemma bookkeeping_simps [simp]:
  "bookkeeping (upd_obj s a f) = bookkeeping s" "bookkeeping (setStateObject s ob) = bookkeeping s"
  by (simp_all add: bookkeeping_def upd_obj_def setStateObject_def)

lemma same_world_bookkeeping: "same_world s s' \<Longrightarrow> bookkeeping s' = bookkeeping s"
  by (auto simp: same_world_def bookkeeping_def dest: arg_cong [where f = w_db])

lemma same_world_of: "same_world s s' \<Longrightarrow> world_of s' = world_of s"
  by (simp add: same_world_def)

lemma sdb_ok_upd_obj:
  "sdb_ok s \<Longrightarrow> (\<And>ob. object_ok (db s) a ob \<Longrightarrow> object_ok (db s) a (f ob)) \<Longrightarrow> sdb_ok (upd_obj s a f)"
  by (auto simp: sdb_ok_def upd_obj_def)

lemma with_object_world:
  assumes ok: "sdb_ok s"
    and f: "\<And>s a. f s a = upd_obj s a h"
    and view: "\<And>sn b ob. so_address ob = a \<Longrightarrow> view_object (db s) sn b (h ob) = g (view_object (db s) sn b ob)"
    and keep: "\<And>d ob. object_ok d a ob \<Longrightarrow> object_ok d a (h ob)"
  shows "case with_object s a f of
      None \<Rightarrow> \<not> w_live (world_of s) a
    | Some s' \<Rightarrow> w_live (world_of s) a \<and> world_of s' = w_upd (world_of s) a g \<and> sdb_ok s' \<and>
        bookkeeping s' = bookkeeping s"
proof -
  obtain r s1 where g1: "getStateObject s a = (r, s1)" by fastforce
  note w = getStateObject_world [OF ok g1]
  show ?thesis
  proof (cases r)
    case None
    with g1 w(1) show ?thesis by (simp add: with_object_def w_live_world)
  next
    case (Some ob)
    with w(8) have ob: "stateObjects s1 a = Some ob" "object_ok (db s1) a ob" "so_address ob = a"
      by (auto simp: object_ok_def)
    have "world_of (upd_obj s1 a h) = w_upd (world_of s1) a g"
      by (rule world_of_upd_obj [OF ob(1)]) (simp add: view ob w(4))
    have eq: "with_object s a f = Some (upd_obj s1 a h)"
      using g1 Some ob by (simp add: with_object_def f)
    moreover have "sdb_ok (upd_obj s1 a h)" by (rule sdb_ok_upd_obj [OF w(3)]) (rule keep)
    moreover have "bookkeeping s1 = bookkeeping s" by (rule same_world_bookkeeping [OF w(2)])
    moreover have "w_live (world_of s) a" using Some by (simp add: w_live_world flip: w(1))
    moreover have "world_of s1 = world_of s" by (rule same_world_of [OF w(2)])
    ultimately show ?thesis
      using \<open>world_of (upd_obj s1 a h) = _\<close> by simp
  qed
qed

lemma object_ok_updates [simp]:
  "object_ok d a (ob\<lparr>so_data := x\<rparr>) = object_ok d a ob"
  "object_ok d a (ob\<lparr>dirtyStorage := y\<rparr>) = object_ok d a ob"
  "object_ok d a (ob\<lparr>so_code := c, so_data := x, dirtyCode := t\<rparr>) = object_ok d a ob"
  "object_ok d a (ob\<lparr>selfDestructed := b\<rparr>) = object_ok d a ob"
  "object_ok d a (ob\<lparr>selfDestructed := b, so_data := x\<rparr>) = object_ok d a ob"
  by (simp_all add: object_ok_def)

lemma revert_reset_eq:
  "revert_entry (ResetObjectChange a p pd pa ps pae pao pso) s =
     Some (s\<lparr>stateObjects := (stateObjects s)(so_address p \<mapsto> p),
       stateObjectsDestruct :=
         (if \<not> pd then map_delete (so_address p) (stateObjectsDestruct s) else stateObjectsDestruct s),
       sdb_accounts := (case pa of None \<Rightarrow> sdb_accounts s | Some v \<Rightarrow> (sdb_accounts s)(so_addrHash p \<mapsto> v)),
       sdb_storages := (case ps of None \<Rightarrow> sdb_storages s | Some v \<Rightarrow> (sdb_storages s)(so_addrHash p \<mapsto> v)),
       accountsOrigin := (if pae then (accountsOrigin s)(so_address p \<mapsto> pao) else accountsOrigin s),
       storagesOrigin := (case pso of None \<Rightarrow> storagesOrigin s | Some v \<Rightarrow> (storagesOrigin s)(so_address p \<mapsto> v))\<rparr>)"
  by (cases pa; cases ps; cases pso) (simp_all add: setStateObject_def Let_def)

lemma undo_reset_world:
  assumes ok: "sdb_ok s" and p: "object_ok (db s) a p"
    and r: "revert_entry (ResetObjectChange a p pd pa ps pae pao pso) s = Some s'"
  shows "wundo (ResetObjectChange a p pd pa ps pae pao pso) (world_of s) = Some (world_of s')"
    "sdb_ok s'" "bookkeeping s' = bookkeeping s"
proof -
  have a: "so_address p = a" using p by (simp add: object_ok_def)
  note s' = r [unfolded revert_reset_eq option.inject, symmetric]
  show "sdb_ok s'" using ok p by (auto simp: s' sdb_ok_def a)
  show "bookkeeping s' = bookkeeping s" by (simp add: s' bookkeeping_def)
  have acc: "account_of s' = (account_of s)(a \<mapsto>
      view_object (db s) (snap s) ((if \<not> pd then map_delete a (stateObjectsDestruct s)
        else stateObjectsDestruct s) a \<noteq> None) p)"
    by (rule ext) (auto simp: s' a account_of_def lookup_def split: option.split)
  show "wundo (ResetObjectChange a p pd pa ps pae pao pso) (world_of s) = Some (world_of s')"
    unfolding wundo.simps Let_def option.inject a
    by (rule world.equality) (simp_all add: acc w_view_def, simp_all add: s' a cong: option.case_cong)
qed

lemma revert_entry_world:
  assumes ok: "sdb_ok s" and e: "entry_ok (db s) e"
  shows "case revert_entry e s of
      None \<Rightarrow> wundo e (world_of s) = None
    | Some s' \<Rightarrow> wundo e (world_of s) = Some (world_of s') \<and> sdb_ok s' \<and> bookkeeping s' = bookkeeping s"
proof (cases e)
  case (CreateObjectChange a)
  let ?s = "s\<lparr>stateObjects := map_delete a (stateObjects s), stateObjectsDirty := stateObjectsDirty s - {a}\<rparr>"
  have "account_of ?s = (account_of s)(a := map_option (w_view (world_of s) a) (base_object (db s) (snap s) a))"
    by (rule ext) (auto simp: account_of_def lookup_def w_view_def split: option.split)
  then have "wundo e (world_of s) = Some (world_of ?s)"
    unfolding CreateObjectChange wundo.simps option.inject by (intro world.equality) simp_all
  with ok show ?thesis by (simp add: CreateObjectChange sdb_ok_def bookkeeping_def)
next
  case (ResetObjectChange a p pd pa ps pae pao pso)
  obtain s' where s': "revert_entry e s = Some s'"
    unfolding ResetObjectChange revert_reset_eq by blast
  have "object_ok (db s) a p" using e ResetObjectChange by simp
  from undo_reset_world [OF ok this s' [unfolded ResetObjectChange]] s' ResetObjectChange show ?thesis
    by simp
next
  case (SelfDestructChange a prev bal)
  obtain r s1 where g1: "getStateObject s a = (r, s1)" by fastforce
  note w = getStateObject_world [OF ok g1]
  show ?thesis
  proof (cases r)
    case None
    then have "\<not> w_live (world_of s) a" by (simp add: w_live_world flip: w(1))
    with None g1 w(3) same_world_of [OF w(2)] same_world_bookkeeping [OF w(2)] show ?thesis
      by (simp add: SelfDestructChange)
  next
    case (Some ob)
    then have ob: "stateObjects s1 a = Some ob" "so_address ob = a"
      using w(8) by (auto simp: object_ok_def)
    have live: "w_live (world_of s) a" using Some by (simp add: w_live_world flip: w(1))
    let ?f = "\<lambda>x. x\<lparr>selfDestructed := prev, so_data := (so_data x)\<lparr>sa_Balance := bal\<rparr>\<rparr>"
    have eq: "obj_setBalance (upd_obj s1 a (\<lambda>x. x\<lparr>selfDestructed := prev\<rparr>)) a bal = upd_obj s1 a ?f"
      by (simp add: obj_setBalance_def upd_obj_def option.map_comp o_def)
    have "world_of (upd_obj s1 a ?f) = w_upd (world_of s1) a (v_setBalance bal \<circ> v_setSelfDestructed prev)"
      by (rule world_of_upd_obj [OF ob(1)])
        (auto simp: view_object_def v_defs committed_value_def fun_eq_iff base_storage_def
          split: option.split cong: option.case_cong)
    moreover have "sdb_ok (upd_obj s1 a ?f)" by (rule sdb_ok_upd_obj [OF w(3)]) simp
    ultimately show ?thesis
      using same_world_of [OF w(2)] same_world_bookkeeping [OF w(2)] g1 Some ob live eq
      by (simp add: SelfDestructChange)
  qed
next
  case (BalanceChange a prev)
  have "case with_object s a (\<lambda>s a. obj_setBalance s a prev) of
      None \<Rightarrow> \<not> w_live (world_of s) a
    | Some s' \<Rightarrow> w_live (world_of s) a \<and> world_of s' = w_upd (world_of s) a (v_setBalance prev) \<and>
        sdb_ok s' \<and> bookkeeping s' = bookkeeping s"
    by (rule with_object_world [OF ok obj_setBalance_def]) simp_all
  then show ?thesis by (simp add: BalanceChange split: option.splits)
next
  case (NonceChange a prev)
  have "case with_object s a (\<lambda>s a. obj_setNonce s a prev) of
      None \<Rightarrow> \<not> w_live (world_of s) a
    | Some s' \<Rightarrow> w_live (world_of s) a \<and> world_of s' = w_upd (world_of s) a (v_setNonce prev) \<and>
        sdb_ok s' \<and> bookkeeping s' = bookkeeping s"
    by (rule with_object_world [OF ok obj_setNonce_def]) simp_all
  then show ?thesis by (simp add: NonceChange split: option.splits)
next
  case (StorageChange a k prev)
  have "case with_object s a (\<lambda>s a. obj_setState s a k prev) of
      None \<Rightarrow> \<not> w_live (world_of s) a
    | Some s' \<Rightarrow> w_live (world_of s) a \<and> world_of s' = w_upd (world_of s) a (v_setState k prev) \<and>
        sdb_ok s' \<and> bookkeeping s' = bookkeeping s"
    by (rule with_object_world [OF ok obj_setState_def]) simp_all
  then show ?thesis by (simp add: StorageChange split: option.splits)
next
  case (CodeChange a c h)
  have "case with_object s a (\<lambda>s a. obj_setCode s a h c) of
      None \<Rightarrow> \<not> w_live (world_of s) a
    | Some s' \<Rightarrow> w_live (world_of s) a \<and> world_of s' = w_upd (world_of s) a (v_setCode (db s) h c) \<and>
        sdb_ok s' \<and> bookkeeping s' = bookkeeping s"
    by (rule with_object_world [OF ok obj_setCode_def]) simp_all
  then show ?thesis by (simp add: CodeChange split: option.splits)
next
  case (AddLogChange h)
  show ?thesis
  proof (cases "w_logs (world_of s) h = []")
    case True
    then show ?thesis by (auto simp: AddLogChange Let_def split: option.splits)
  next
    case False
    then obtain ls where ls: "logs s h = Some ls" "ls \<noteq> []" by (auto split: option.splits)
    define s' where "s' = s\<lparr>logs := (if length ls = 1 then map_delete h (logs s) else (logs s)(h \<mapsto> butlast ls)),
        logSize := logSize s - 1\<rparr>"
    have 1: "revert_entry e s = Some s'" using ls by (simp add: AddLogChange s'_def Let_def)
    have "butlast ls = []" if "length ls = 1" using that by (cases ls) auto
    moreover have "account_of s' = account_of s" by (rule account_of_cong) (simp_all add: s'_def)
    ultimately have "wundo e (world_of s) = Some (world_of s')"
      using ls unfolding AddLogChange wundo.simps
      by (auto intro!: world.equality) (auto simp: s'_def fun_eq_iff)
    with 1 ok show ?thesis by (simp add: s'_def sdb_ok_def bookkeeping_def)
  qed
next
  case (AccessListAddSlotChange a k)
  show ?thesis
  proof (cases "DeleteSlot (accessList s) a k")
    case (Some al)
    have "world_of s\<lparr>w_accessList := al\<rparr> = world_of (s\<lparr>accessList := al\<rparr>)"
      by (intro world.equality) (auto intro!: account_of_cong)
    with Some ok show ?thesis by (simp add: AccessListAddSlotChange sdb_ok_def bookkeeping_def)
  qed (simp add: AccessListAddSlotChange)
qed (use ok in \<open>auto simp: sdb_ok_def bookkeeping_def fun_eq_iff intro!: world.equality\<close>)

section \<open>Undo logs\<close>

text \<open>
  The contract between a store with an undo log and a client that takes snapshots of it.  Every
  operation appends entries to the log whose undo, last first, leads from the abstract value after
  the operation to the one before it; rolling the log back to a length realises that undo.
\<close>

fun undo_all :: "('e \<Rightarrow> 'w \<Rightarrow> 'w option) \<Rightarrow> 'e list \<Rightarrow> 'w \<Rightarrow> 'w option" where
  "undo_all undo [] w = Some w"
| "undo_all undo (e # es) w = Option.bind (undo e w) (undo_all undo es)"

lemma undo_all_append: "undo_all u (es @ fs) w = Option.bind (undo_all u es w) (undo_all u fs)"
  by (induction es arbitrary: w) (auto split: Option.bind_splits)

locale undo_log =
  fixes inv :: "'s \<Rightarrow> bool"
    and abs :: "'s \<Rightarrow> 'w"
    and elog :: "'s \<Rightarrow> 'e list"
    and undo :: "'e \<Rightarrow> 'w \<Rightarrow> 'w option"
    and rollback :: "'s \<Rightarrow> nat \<Rightarrow> 's option"
    and winv :: "'w \<Rightarrow> bool"
  assumes inv_winv: "inv s \<Longrightarrow> winv (abs s)"
    and rollback: "inv s \<Longrightarrow> n \<le> length (elog s) \<Longrightarrow>
      undo_all undo (rev (drop n (elog s))) (abs s) = Some w \<Longrightarrow> winv w \<Longrightarrow>
      \<exists>s'. rollback s n = Some s' \<and> abs s' = w \<and> elog s' = take n (elog s) \<and> inv s'"
begin

definition ext :: "'s \<Rightarrow> 's \<Rightarrow> bool" where
  "ext s s' \<longleftrightarrow> inv s' \<and>
     (\<exists>es. elog s' = elog s @ es \<and> undo_all undo (rev es) (abs s') = Some (abs s))"

lemma ext_refl: "inv s \<Longrightarrow> ext s s"
  by (simp add: ext_def)

lemma ext_inv: "ext s s' \<Longrightarrow> inv s'"
  by (simp add: ext_def)

lemma ext_trans: "ext s t \<Longrightarrow> ext t u \<Longrightarrow> ext s u"
  by (auto simp: ext_def undo_all_append)

lemma ext_same: "inv s' \<Longrightarrow> abs s' = abs s \<Longrightarrow> elog s' = elog s \<Longrightarrow> ext s s'"
  by (simp add: ext_def)

lemma ext_append:
  "inv s' \<Longrightarrow> elog s' = elog s @ [e] \<Longrightarrow> undo e (abs s') = Some (abs s) \<Longrightarrow> ext s s'"
  by (auto simp: ext_def)

lemma ext_rollback:
  assumes s: "inv s" and e: "ext s s'"
  shows "\<exists>s''. rollback s' (length (elog s)) = Some s'' \<and> abs s'' = abs s \<and> elog s'' = elog s \<and> inv s''"
proof -
  from e obtain es where es: "elog s' = elog s @ es" "undo_all undo (rev es) (abs s') = Some (abs s)"
    and "inv s'" by (auto simp: ext_def)
  from rollback [OF this(3), of "length (elog s)" "abs s"] es inv_winv [OF s] show ?thesis by simp
qed

text \<open>
  Marks into the log with the values they lead back to, oldest first; taking a snapshot adds one,
  going back to one keeps those before it.
\<close>

definition marks_ok :: "'s \<Rightarrow> (nat \<times> 'w) list \<Rightarrow> bool" where
  "marks_ok s ms \<longleftrightarrow> sorted (map fst ms) \<and>
     (\<forall>(n, w) \<in> set ms. n \<le> length (elog s) \<and> winv w \<and>
        undo_all undo (rev (drop n (elog s))) (abs s) = Some w)"

lemma marks_ext:
  assumes "ext s s'" "marks_ok s ms"
  shows "marks_ok s' ms"
proof -
  from assms(1) obtain es where es: "elog s' = elog s @ es" "undo_all undo (rev es) (abs s') = Some (abs s)"
    by (auto simp: ext_def)
  with assms(2) show ?thesis by (fastforce simp: marks_ok_def undo_all_append)
qed

lemma marks_snapshot:
  "inv s \<Longrightarrow> marks_ok s ms \<Longrightarrow> marks_ok s (ms @ [(length (elog s), abs s)])"
  by (auto simp: marks_ok_def sorted_append inv_winv)

lemma marks_rollback:
  assumes inv: "inv s" and ms: "marks_ok s (ms @ (n, w) # ms')"
    and s': "abs s' = w" "elog s' = take n (elog s)"
  shows "marks_ok s' ms"
proof -
  have n: "n \<le> length (elog s)" "undo_all undo (rev (drop n (elog s))) (abs s) = Some w"
    using ms by (auto simp: marks_ok_def)
  have "m \<le> length (elog s') \<and> winv v \<and> undo_all undo (rev (drop m (elog s'))) (abs s') = Some v"
    if "(m, v) \<in> set ms" for m v
  proof -
    have m: "m \<le> n" "winv v" "undo_all undo (rev (drop m (elog s))) (abs s) = Some v"
      using ms that by (auto simp: marks_ok_def sorted_append)
    have "drop m (elog s) = drop m (take n (elog s)) @ drop n (elog s)"
      using m(1) n(1) by (metis append_take_drop_id drop_append drop_take length_take min.absorb2
          diff_is_0_eq drop_0)
    with m n s' show ?thesis by (simp add: undo_all_append)
  qed
  with ms show ?thesis by (auto simp: marks_ok_def sorted_append)
qed

end

section \<open>The undo log of the StateDB\<close>

definition sdb_inv :: "statedb \<Rightarrow> bool" where
  "sdb_inv s \<longleftrightarrow> sdb_ok s \<and> al_wf (accessList s)"

definition journal_log :: "statedb \<Rightarrow> journal_entry list" where
  "journal_log s = entries (sdb_journal s)"

definition same_control :: "statedb \<Rightarrow> statedb \<Rightarrow> bool" where
  "same_control s s' \<longleftrightarrow> validRevisions s' = validRevisions s \<and> nextRevisionId s' = nextRevisionId s \<and>
     accountState s' = accountState s \<and> db s' = db s"

lemma same_control_refl [simp]: "same_control s s"
  by (simp add: same_control_def)

lemma same_control_trans: "same_control s t \<Longrightarrow> same_control t u \<Longrightarrow> same_control s u"
  by (simp add: same_control_def)

lemma undirty_entries [simp]: "entries (undirty j e) = entries j"
  by (simp add: undirty_def Let_def split: option.split)

lemma world_of_journal [simp]: "world_of (s\<lparr>sdb_journal := j\<rparr>) = world_of s"
  by (rule world_of_eqI) simp_all

lemma revert_loop_world:
  assumes "sdb_ok s" "list_all (entry_ok (db s)) es" "undo_all wundo es (world_of s) = Some w"
  shows "\<exists>s'. revert_loop es s = Some s' \<and> world_of s' = w \<and> sdb_ok s' \<and>
    journal_log s' = journal_log s \<and> same_control s s'"
  using assms
proof (induction es arbitrary: s)
  case (Cons e es)
  then obtain w1 where w1: "wundo e (world_of s) = Some w1" "undo_all wundo es w1 = Some w" by auto
  from revert_entry_world [OF Cons.prems(1), of e] Cons.prems(2) w1(1)
  obtain s1 where s1: "revert_entry e s = Some s1" "world_of s1 = w1" "sdb_ok s1" "bookkeeping s1 = bookkeeping s"
    by (auto split: option.splits)
  let ?s = "s1\<lparr>sdb_journal := undirty (sdb_journal s1) e\<rparr>"
  have "sdb_ok ?s" "list_all (entry_ok (db ?s)) es" "undo_all wundo es (world_of ?s) = Some w"
    using s1 w1 Cons.prems(2) by (auto simp: sdb_ok_def bookkeeping_def)
  from Cons.IH [OF this] s1 show ?case
    by (auto simp: journal_log_def same_control_def bookkeeping_def)
qed (simp add: journal_log_def)

lemma journal_revert_world:
  assumes inv: "sdb_inv s" and n: "n \<le> length (journal_log s)"
    and u: "undo_all wundo (rev (drop n (journal_log s))) (world_of s) = Some w"
    and w: "al_wf (w_accessList w)"
  shows "\<exists>s'. journal_revert s n = Some s' \<and> world_of s' = w \<and> journal_log s' = take n (journal_log s) \<and>
    sdb_inv s' \<and> same_control s s'"
proof -
  let ?es = "rev (drop n (journal_log s))"
  from inv have ok: "sdb_ok s" by (simp add: sdb_inv_def)
  have "list_all (entry_ok (db s)) ?es"
    using ok by (auto simp: sdb_ok_def journal_log_def list_all_iff dest: in_set_dropD)
  from revert_loop_world [OF ok this u] obtain s1 where s1: "revert_loop ?es s = Some s1"
    "world_of s1 = w" "sdb_ok s1" "journal_log s1 = journal_log s" "same_control s s1" by auto
  let ?s = "s1\<lparr>sdb_journal := (sdb_journal s1)\<lparr>entries := take n (entries (sdb_journal s1))\<rparr>\<rparr>"
  have "sdb_ok ?s" using s1(3) by (auto simp: sdb_ok_def list_all_iff dest: in_set_takeD)
  moreover have "al_wf (accessList ?s)" using w s1(2) by (auto simp: world_of_def)
  moreover have "journal_revert s n = Some ?s"
    using s1 n by (simp add: journal_revert_def journal_log_def journal_length_def)
  ultimately show ?thesis using s1 by (auto simp: sdb_inv_def journal_log_def same_control_def)
qed

interpretation sdb: undo_log sdb_inv world_of journal_log wundo journal_revert "\<lambda>w. al_wf (w_accessList w)"
proof (unfold_locales, goal_cases)
  case (1 s)
  then show ?case by (simp add: sdb_inv_def)
next
  case (2 s n w)
  from journal_revert_world [OF this] show ?case by blast
qed

end
