(* ===== verification/StateDB_Ops.thy ===== *)
theory StateDB_Ops
  imports StateDB_Revert
begin

text \<open>
  The operations of \<^verbatim>\<open>statedb.go\<close> against their specification on worlds: each one changes
  the world as a plain account table would be changed, whatever the caches hold, and each one
  extends the undo log.
\<close>

section \<open>The operations on worlds\<close>

definition w_destroyed :: "world \<Rightarrow> address \<Rightarrow> (address \<rightharpoonup> state_account option)" where
  "w_destroyed w a =
     (case w_account w a of
        None \<Rightarrow> w_destruct w
      | Some p \<Rightarrow> if w_destruct w a = None then (w_destruct w)(a \<mapsto> av_origin p) else w_destruct w)"

text \<open>A new empty account replaces whatever is at the address; an account found there is marked destructed.\<close>

definition w_create :: "world \<Rightarrow> address \<Rightarrow> world" where
  "w_create w a =
     (let w1 = (case w_account w a of
           None \<Rightarrow> w
         | Some p \<Rightarrow> w\<lparr>w_destruct := w_destroyed w a,
                      w_accounts := map_delete (av_addrHash p) (w_accounts w),
                      w_storages := map_delete (av_addrHash p) (w_storages w),
                      w_accountsOrigin := map_delete a (w_accountsOrigin w),
                      w_storagesOrigin := map_delete a (w_storagesOrigin w)\<rparr>)
      in w1\<lparr>w_account := (w_account w1)(a \<mapsto> w_view w1 a (newObject (w_db w1) a None))\<rparr>)"

definition w_ensure :: "world \<Rightarrow> address \<Rightarrow> world" where
  "w_ensure w a = (if w_live w a then w else w_create w a)"

section \<open>One step of the log\<close>

definition step :: "statedb \<Rightarrow> statedb \<Rightarrow> bool" where
  "step s s' \<longleftrightarrow> sdb.ext s s' \<and> same_control s s'"

lemma step_refl: "sdb_inv s \<Longrightarrow> step s s"
  by (simp add: step_def sdb.ext_refl)

lemma step_trans: "step s t \<Longrightarrow> step t u \<Longrightarrow> step s u"
  unfolding step_def using sdb.ext_trans same_control_trans by blast

lemma step_inv: "step s s' \<Longrightarrow> sdb_inv s'"
  unfolding step_def using sdb.ext_inv by blast

lemma same_world_control: "same_world s s' \<Longrightarrow> same_control s s'"
  by (auto simp: same_world_def same_control_def dest: arg_cong [where f = w_db])

lemma step_same: "same_world s s' \<Longrightarrow> sdb_inv s \<Longrightarrow> sdb_ok s' \<Longrightarrow> step s s'"
  unfolding step_def
  by (auto intro!: sdb.ext_same same_world_control simp: same_world_def journal_log_def sdb_inv_def
      dest: arg_cong [where f = w_accessList])

lemma entries_append [simp]: "entries (journal_append j e) = entries j @ [e]"
  by (simp add: journal_append_def journal_dirty_def Let_def split: option.split)

lemma journal_log_append [simp]: "journal_log (sdb_append s e) = journal_log s @ [e]"
  by (simp add: journal_log_def sdb_append_def)

lemma journal_log_dirty [simp]:
  "journal_log (s\<lparr>sdb_journal := journal_dirty (sdb_journal s) a\<rparr>) = journal_log s"
  by (simp add: journal_log_def journal_dirty_def)

lemma sdb_append_simps [simp]:
  "world_of (sdb_append s e) = world_of s" "stateObjects (sdb_append s e) = stateObjects s"
  "db (sdb_append s e) = db s" "snap (sdb_append s e) = snap s" "accessList (sdb_append s e) = accessList s"
  "stateObjectsDestruct (sdb_append s e) = stateObjectsDestruct s"
  "same_control s (sdb_append s e) = True"
  by (simp_all add: sdb_append_def same_control_def)

lemma upd_obj_simps [simp]:
  "db (upd_obj s a f) = db s" "accessList (upd_obj s a f) = accessList s"
  "journal_log (upd_obj s a f) = journal_log s" "same_control s (upd_obj s a f)"
  "same_control t (upd_obj s a f) = same_control t s"
  by (simp_all add: upd_obj_def journal_log_def same_control_def)

lemma sdb_ok_append: "sdb_ok s \<Longrightarrow> entry_ok (db s) e \<Longrightarrow> sdb_ok (sdb_append s e)"
  by (simp add: sdb_ok_def sdb_append_def)

lemma step_append:
  "journal_log s' = journal_log s @ [e] \<Longrightarrow> wundo e (world_of s') = Some (world_of s) \<Longrightarrow>
   sdb_inv s' \<Longrightarrow> same_control s s' \<Longrightarrow> step s s'"
  unfolding step_def by (blast intro: sdb.ext_append)

lemma w_upd_undo:
  "w_account w a = Some v \<Longrightarrow> g (f v) = v \<Longrightarrow> w_upd (w_upd w a f) a g = w"
  by (rule world.equality) (auto simp: w_upd_def fun_eq_iff)

lemma w_live_upd:
  "w_account w a = Some v \<Longrightarrow> av_deleted (f v) = av_deleted v \<Longrightarrow> w_live (w_upd w a f) a = w_live w a"
  by (simp add: w_live_def w_upd_def)

lemma v_deleted [simp]:
  "av_deleted (v_setBalance n v) = av_deleted v" "av_deleted (v_setNonce m v) = av_deleted v"
  "av_deleted (v_setState k x v) = av_deleted v" "av_deleted (v_setCode d h c v) = av_deleted v"
  "av_deleted (v_setSelfDestructed b v) = av_deleted v"
  by (simp_all add: v_defs)

lemma view_fields [simp]:
  "av_deleted (view_object d sn b ob) = deleted ob" "av_addrHash (view_object d sn b ob) = so_addrHash ob"
  "av_origin (view_object d sn b ob) = so_origin ob" "av_address (view_object d sn b ob) = so_address ob"
  "av_data (view_object d sn b ob) = so_data ob" "av_created (view_object d sn b ob) = created ob"
  "av_selfDestructed (view_object d sn b ob) = selfDestructed ob"
  by (simp_all add: view_object_def)

lemma w_db_upd [simp]: "w_db (w_upd w a f) = w_db w"
  by (simp add: w_upd_def)

text \<open>A journalled update of a cached, live object.\<close>

lemma step_object:
  assumes inv: "sdb_inv s" and ob: "stateObjects s a = Some ob" "\<not> deleted ob"
    and view: "\<And>d sn b x. so_address x = a \<Longrightarrow> view_object (db s) sn b (f x) = g (view_object (db s) sn b x)"
    and keep: "\<And>d x. object_ok d a x \<Longrightarrow> object_ok d a (f x)"
    and undo: "\<And>w. w_live w a \<Longrightarrow> w_db w = db s \<Longrightarrow> wundo e w = Some (w_upd w a h)"
    and hback: "h (g (view_object (db s) (snap s) (stateObjectsDestruct s a \<noteq> None) ob)) =
      view_object (db s) (snap s) (stateObjectsDestruct s a \<noteq> None) ob"
    and del: "\<And>v. av_deleted (g v) = av_deleted v"
    and e: "entry_ok (db s) e"
  shows "step s (upd_obj (sdb_append s e) a f)"
    "world_of (upd_obj (sdb_append s e) a f) = w_upd (world_of s) a g"
    "stateObjects (upd_obj (sdb_append s e) a f) a = Some (f ob)"
proof -
  from inv have ok: "sdb_ok s" by (simp add: sdb_inv_def)
  with ob have addr: "so_address ob = a" by (auto simp: sdb_ok_def object_ok_def)
  have acc: "w_account (world_of s) a = Some (view_object (db s) (snap s) (stateObjectsDestruct s a \<noteq> None) ob)"
    using ob by (simp add: account_of_cached)
  show w: "world_of (upd_obj (sdb_append s e) a f) = w_upd (world_of s) a g"
    using world_of_upd_obj [of "sdb_append s e" a ob f g] ob by (simp add: view addr)
  have "w_live (world_of s) a" using acc ob by (simp add: w_live_def)
  then have "w_live (w_upd (world_of s) a g) a" using w_live_upd [OF acc] del by simp
  then have "wundo e (w_upd (world_of s) a g) = Some (w_upd (w_upd (world_of s) a g) a h)"
    by (intro undo) simp_all
  also have "w_upd (w_upd (world_of s) a g) a h = world_of s"
    by (rule w_upd_undo [where g = h and f = g, OF acc hback])
  finally have u: "wundo e (world_of (upd_obj (sdb_append s e) a f)) = Some (world_of s)"
    by (simp add: w)
  have "sdb_inv (upd_obj (sdb_append s e) a f)"
    using inv sdb_ok_append [OF ok e] by (auto simp: sdb_inv_def keep intro!: sdb_ok_upd_obj)
  from step_append [OF _ u this] show "step s (upd_obj (sdb_append s e) a f)" by simp
  show "stateObjects (upd_obj (sdb_append s e) a f) a = Some (f ob)"
    using ob by (simp add: upd_obj_def)
qed

section \<open>Creating accounts\<close>

lemma getStateObject_step:
  assumes inv: "sdb_inv s" and get: "getStateObject s a = (r, s')"
  shows "step s s'" "world_of s' = world_of s" "r = live s a"
    "r = None \<longleftrightarrow> \<not> w_live (world_of s) a"
    "r = Some ob \<Longrightarrow> stateObjects s' a = Some ob \<and> \<not> deleted ob \<and> so_address ob = a \<and>
       w_account (world_of s') a = Some (view_object (db s') (snap s') (stateObjectsDestruct s' a \<noteq> None) ob)"
proof -
  from inv have ok: "sdb_ok s" by (simp add: sdb_inv_def)
  note w = getStateObject_world [OF ok get]
  show "step s s'" by (rule step_same [OF w(2) inv w(3)])
  show "world_of s' = world_of s" by (rule same_world_of [OF w(2)])
  show "r = live s a" by (rule w(1))
  then show "r = None \<longleftrightarrow> \<not> w_live (world_of s) a" by (simp add: w_live_world)
  show "stateObjects s' a = Some ob \<and> \<not> deleted ob \<and> so_address ob = a \<and>
       w_account (world_of s') a = Some (view_object (db s') (snap s') (stateObjectsDestruct s' a \<noteq> None) ob)"
    if "r = Some ob"
    using w(8) [OF that] w(1) that
    by (auto simp: live_def object_ok_def account_of_cached split: option.splits if_splits)
qed

definition created_entry :: "statedb \<Rightarrow> address \<Rightarrow> journal_entry" where
  "created_entry s a =
     (case lookup s a of
        None \<Rightarrow> CreateObjectChange a
      | Some p \<Rightarrow> ResetObjectChange a p (stateObjectsDestruct s a \<noteq> None) (sdb_accounts s (so_addrHash p))
          (sdb_storages s (so_addrHash p)) (accountsOrigin s a \<noteq> None)
          (Option.bind (accountsOrigin s a) id) (storagesOrigin s a))"

text \<open>The two shapes of \<open>createObject\<close>, on a state that has loaded whatever is at the address.\<close>

lemma createObject_eq:
  assumes ok: "sdb_ok s" and c: "createObject s a = (nob, prev, s')"
  obtains s1 where "same_world s s1" "sdb_ok s1" "db s1 = db s" "snap s1 = snap s" "stateObjects s1 a = lookup s a"
    "nob = newObject (db s) a None" "prev = live s a"
    "s' = (case lookup s a of
        None \<Rightarrow> (sdb_append s1 (created_entry s a))\<lparr>stateObjects := (stateObjects s1)(a \<mapsto> nob)\<rparr>
      | Some p \<Rightarrow> (sdb_append s1 (created_entry s a))\<lparr>stateObjects := (stateObjects s1)(a \<mapsto> nob),
          stateObjectsDestruct := w_destroyed (world_of s) a,
          sdb_accounts := map_delete (so_addrHash p) (sdb_accounts s),
          sdb_storages := map_delete (so_addrHash p) (sdb_storages s),
          accountsOrigin := map_delete a (accountsOrigin s),
          storagesOrigin := map_delete a (storagesOrigin s)\<rparr>)"
proof -
  obtain r s1 where g: "getDeletedStateObject s a = (r, s1)" by fastforce
  note w = getDeletedStateObject_world [OF ok g]
  have f: "sdb_accounts s1 = sdb_accounts s" "sdb_storages s1 = sdb_storages s"
    "accountsOrigin s1 = accountsOrigin s" "storagesOrigin s1 = storagesOrigin s"
    using same_world_of [OF w(2)] by (simp_all add: world_of_def)
  have addr: "so_address p = a" if "lookup s a = Some p" for p
    using sdb_ok_lookup [OF ok that] by (simp add: object_ok_def)
  have "nob = newObject (db s) a None" "prev = live s a"
    using c g w(1,4) by (auto simp: createObject_def Let_def live_def split: option.splits)
  moreover have "s' = (case lookup s a of
        None \<Rightarrow> (sdb_append s1 (created_entry s a))\<lparr>stateObjects := (stateObjects s1)(a \<mapsto> nob)\<rparr>
      | Some p \<Rightarrow> (sdb_append s1 (created_entry s a))\<lparr>stateObjects := (stateObjects s1)(a \<mapsto> nob),
          stateObjectsDestruct := w_destroyed (world_of s) a,
          sdb_accounts := map_delete (so_addrHash p) (sdb_accounts s),
          sdb_storages := map_delete (so_addrHash p) (sdb_storages s),
          accountsOrigin := map_delete a (accountsOrigin s),
          storagesOrigin := map_delete a (storagesOrigin s)\<rparr>)"
  proof (cases "lookup s a")
    case None
    with c g w show ?thesis
      by (auto simp: createObject_def created_entry_def setStateObject_def newObject_def sdb_append_def Let_def)
  next
    case (Some p)
    then have "w_account (world_of s) a = Some (view_object (db s) (snap s) (stateObjectsDestruct s a \<noteq> None) p)"
      by (simp add: account_of_def)
    then have d: "w_destroyed (world_of s) a =
        (if stateObjectsDestruct s a \<noteq> None then stateObjectsDestruct s
         else (stateObjectsDestruct s)(a \<mapsto> so_origin p))"
      by (simp add: w_destroyed_def view_object_def)
    from c g w Some addr [OF Some] show ?thesis
      by (auto simp: createObject_def created_entry_def setStateObject_def newObject_def sdb_append_def
          Let_def d f)
  qed
  ultimately show thesis
    using that [OF w(2,3,4,5)] w(1,7) by simp
qed

lemma w_create_fields [simp]:
  "w_db (w_create w a) = w_db w" "w_snap (w_create w a) = w_snap w"
  "w_account (w_create w a) =
     (w_account w)(a \<mapsto> view_object (w_db w) (w_snap w) (w_destroyed w a a \<noteq> None) (newObject (w_db w) a None))"
  "w_destruct (w_create w a) = w_destroyed w a"
  "w_accounts (w_create w a) =
     (case w_account w a of None \<Rightarrow> w_accounts w | Some p \<Rightarrow> map_delete (av_addrHash p) (w_accounts w))"
  "w_storages (w_create w a) =
     (case w_account w a of None \<Rightarrow> w_storages w | Some p \<Rightarrow> map_delete (av_addrHash p) (w_storages w))"
  "w_accountsOrigin (w_create w a) =
     (case w_account w a of None \<Rightarrow> w_accountsOrigin w | Some p \<Rightarrow> map_delete a (w_accountsOrigin w))"
  "w_storagesOrigin (w_create w a) =
     (case w_account w a of None \<Rightarrow> w_storagesOrigin w | Some p \<Rightarrow> map_delete a (w_storagesOrigin w))"
  "w_refund (w_create w a) = w_refund w" "w_thash (w_create w a) = w_thash w"
  "w_txIndex (w_create w a) = w_txIndex w" "w_logs (w_create w a) = w_logs w"
  "w_logSize (w_create w a) = w_logSize w" "w_preimages (w_create w a) = w_preimages w"
  "w_accessList (w_create w a) = w_accessList w" "w_transient (w_create w a) = w_transient w"
  by (auto simp: w_create_def w_destroyed_def w_view_def Let_def split: option.split)

lemma map_delete_undo:
  "(case m k of None \<Rightarrow> map_delete k m | Some v \<Rightarrow> (map_delete k m)(k \<mapsto> v)) = m"
  "(if m k \<noteq> None then (map_delete k m)(k \<mapsto> x) else map_delete k m) = (if m k \<noteq> None then m(k \<mapsto> x) else m)"
  by (auto simp: map_delete_def fun_eq_iff split: option.split)

lemma wundo_created:
  assumes ok: "sdb_ok s" and acc: "\<And>b. b \<noteq> a \<Longrightarrow> acc b = account_of s b"
  shows "wundo (created_entry s a) ((w_create (world_of s) a)\<lparr>w_account := acc\<rparr>) = Some (world_of s)"
proof (cases "lookup s a")
  case None
  then have "base_object (db s) (snap s) a = None" "account_of s a = None"
    by (auto simp: lookup_def account_of_def split: option.splits)
  with None acc show ?thesis
    by (auto simp: created_entry_def w_destroyed_def fun_eq_iff intro!: world.equality)
next
  case (Some p)
  let ?v = "view_object (db s) (snap s) (stateObjectsDestruct s a \<noteq> None) p"
  from sdb_ok_lookup [OF ok Some] have p: "so_address p = a" by (simp add: object_ok_def)
  from Some have v: "account_of s a = Some ?v" by (simp add: account_of_def)
  have d: "map_delete a (w_destroyed (world_of s) a) = stateObjectsDestruct s" if "stateObjectsDestruct s a = None"
    using that by (auto simp: w_destroyed_def v map_delete_def fun_eq_iff)
  have d': "w_destroyed (world_of s) a = stateObjectsDestruct s" if "stateObjectsDestruct s a = Some x" for x
    using that by (simp add: w_destroyed_def v)
  have o: "Option.bind (accountsOrigin s a) id = x" if "accountsOrigin s a = Some x" for x
    using that by simp
  let ?W = "(w_create (world_of s) a)\<lparr>w_account := acc\<rparr>"
  have dd: "w_destruct (if \<not> (stateObjectsDestruct s a \<noteq> None)
      then ?W\<lparr>w_destruct := map_delete a (w_destruct ?W)\<rparr> else ?W) = stateObjectsDestruct s"
    using d d' by (cases "stateObjectsDestruct s a") auto
  show ?thesis
    unfolding created_entry_def Some option.case wundo.simps option.inject Let_def p
    by (intro world.equality)
      (use dd in \<open>auto simp: acc v w_view_def map_delete_undo o split: option.split\<close>)
qed

lemma createObject_step:
  assumes inv: "sdb_inv s" and c: "createObject s a = (nob, prev, s')"
  shows "step s s'" "world_of s' = w_create (world_of s) a" "prev = live s a"
    "stateObjects s' a = Some nob" "nob = newObject (db s) a None"
    "journal_log s' = journal_log s @ [created_entry s a]"
proof -
  from inv have ok: "sdb_ok s" by (simp add: sdb_inv_def)
  from createObject_eq [OF ok c] obtain s1 where s1: "same_world s s1" "sdb_ok s1" "db s1 = db s"
    "snap s1 = snap s" "stateObjects s1 a = lookup s a" "nob = newObject (db s) a None" "prev = live s a"
    and s': "s' = (case lookup s a of
        None \<Rightarrow> (sdb_append s1 (created_entry s a))\<lparr>stateObjects := (stateObjects s1)(a \<mapsto> nob)\<rparr>
      | Some p \<Rightarrow> (sdb_append s1 (created_entry s a))\<lparr>stateObjects := (stateObjects s1)(a \<mapsto> nob),
          stateObjectsDestruct := w_destroyed (world_of s) a,
          sdb_accounts := map_delete (so_addrHash p) (sdb_accounts s),
          sdb_storages := map_delete (so_addrHash p) (sdb_storages s),
          accountsOrigin := map_delete a (accountsOrigin s),
          storagesOrigin := map_delete a (storagesOrigin s)\<rparr>)" .
  show "prev = live s a" by fact
  show "nob = newObject (db s) a None" by fact
  show obj: "stateObjects s' a = Some nob" by (simp add: s' split: option.split)
  have jl: "journal_log s1 = journal_log s" using s1(1) by (simp add: same_world_def journal_log_def)
  show jl': "journal_log s' = journal_log s @ [created_entry s a]"
    by (simp add: s' journal_log_def split: option.split) (simp add: jl [unfolded journal_log_def] sdb_append_def)
  have w1: "world_of s1 = world_of s" by (rule same_world_of [OF s1(1)])
  then have f1: "account_of s1 = account_of s" "stateObjectsDestruct s1 = stateObjectsDestruct s"
    by (simp_all add: world_of_def)
  have fields: "sdb_accounts s1 = sdb_accounts s" "sdb_storages s1 = sdb_storages s"
    "accountsOrigin s1 = accountsOrigin s" "storagesOrigin s1 = storagesOrigin s"
    "refund s1 = refund s" "thash s1 = thash s" "txIndex s1 = txIndex s" "logSize s1 = logSize s"
    "(\<lambda>h. case logs s1 h of None \<Rightarrow> [] | Some l \<Rightarrow> l) = (\<lambda>h. case logs s h of None \<Rightarrow> [] | Some l \<Rightarrow> l)"
    "preimages s1 = preimages s" "accessList s1 = accessList s"
    "ts_Get (transientStorage s1) = ts_Get (transientStorage s)"
    using w1 by (simp_all add: world_of_def)
  have look: "lookup s a = None \<longleftrightarrow> account_of s a = None" by (simp add: account_of_def)
  have s1b: "map_option (view_object (db s) (snap s) (stateObjectsDestruct s b \<noteq> None)) (lookup s1 b) = account_of s b"
    for b
    using f1 s1 by (metis account_of_def)
  have acc': "account_of s' = w_account (w_create (world_of s) a)"
  proof (rule ext)
    fix b
    show "account_of s' b = w_account (w_create (world_of s) a) b"
    proof (cases "b = a")
      case True
      with s1(3,4,6) f1 look show ?thesis
        by (auto simp: s' account_of_def [of _ a] lookup_def [of _ a] w_destroyed_def sdb_append_def split: option.split)
    next
      case False
      have "account_of s' b =
          map_option (view_object (db s) (snap s) (stateObjectsDestruct s b \<noteq> None)) (lookup s1 b)"
        using False s1(3,4) f1
        by (auto simp: s' account_of_def lookup_def w_destroyed_def sdb_append_def split: option.splits)
      with s1b False show ?thesis by simp
    qed
  qed
  show w': "world_of s' = w_create (world_of s) a"
  proof (cases "lookup s a")
    case None
    then have "account_of s a = None" by (simp add: account_of_def)
    then show ?thesis
      by (intro world.equality)
        (simp_all only: world_of_simps acc', simp_all add: s' None sdb_append_def w_destroyed_def fields f1 s1(3,4))
  next
    case (Some p)
    then have v: "account_of s a = Some (view_object (db s) (snap s) (stateObjectsDestruct s a \<noteq> None) p)"
      by (simp add: account_of_def)
    have "db s' = db s" "snap s' = snap s" "stateObjectsDestruct s' = w_destroyed (world_of s) a"
      "sdb_accounts s' = map_delete (so_addrHash p) (sdb_accounts s)"
      "sdb_storages s' = map_delete (so_addrHash p) (sdb_storages s)"
      "accountsOrigin s' = map_delete a (accountsOrigin s)"
      "storagesOrigin s' = map_delete a (storagesOrigin s)"
      "refund s' = refund s" "thash s' = thash s" "txIndex s' = txIndex s" "logSize s' = logSize s"
      "logs s' = logs s1" "preimages s' = preimages s" "accessList s' = accessList s"
      "transientStorage s' = transientStorage s1"
      unfolding s' Some option.case by (simp_all add: sdb_append_def fields s1(3,4))
    note f' = this
    show ?thesis
      by (intro world.equality)
        (simp_all only: world_of_simps acc' w_create_fields f' fields v option.case view_fields, simp)
  qed
  have "world_of s' = (w_create (world_of s) a)\<lparr>w_account := account_of s'\<rparr>"
    unfolding w' acc' by (rule world.equality) simp_all
  then have u: "wundo (created_entry s a) (world_of s') = Some (world_of s)"
    using wundo_created [OF ok, of a "account_of s'"] by (simp add: acc')
  have "entry_ok (db s) (created_entry s a)"
    by (auto simp: created_entry_def dest: sdb_ok_lookup [OF ok] split: option.split)
  moreover have "object_ok (db s) a nob" by (simp add: s1(6) newObject_def object_ok_def)
  ultimately have "sdb_ok s'"
    using s1(2,3) by (auto simp: s' sdb_ok_def sdb_append_def split: option.splits)
  then have "sdb_inv s'" using inv fields by (auto simp: sdb_inv_def s' split: option.splits)
  moreover have "same_control s s'"
    using same_world_control [OF s1(1)] by (simp add: s' same_control_def sdb_append_def split: option.splits)
  ultimately show "step s s'" using step_append [OF jl' u] by blast
qed

lemma GetOrNewStateObject_step:
  assumes inv: "sdb_inv s" and get: "GetOrNewStateObject s a = (ob, s')"
  shows "step s s'" "world_of s' = w_ensure (world_of s) a" "stateObjects s' a = Some ob" "\<not> deleted ob"
    "so_address ob = a"
proof -
  obtain r s1 where g: "getStateObject s a = (r, s1)" by fastforce
  note w = getStateObject_step [OF inv g]
  have "step s s' \<and> world_of s' = w_ensure (world_of s) a \<and> stateObjects s' a = Some ob \<and>
      \<not> deleted ob \<and> so_address ob = a"
  proof (cases r)
    case None
    obtain p where c: "createObject s1 a = (ob, p, s')"
      using get g None by (auto simp: GetOrNewStateObject_def split: prod.splits)
    note cs = createObject_step [OF step_inv [OF w(1)] c]
    show ?thesis
      using step_trans [OF w(1) cs(1)] cs None w(2,4) by (simp add: w_ensure_def newObject_def)
  next
    case (Some x)
    with get g have "ob = x" "s' = s1" by (auto simp: GetOrNewStateObject_def)
    with w(1,2,4) w(5) [of x] Some show ?thesis by (auto simp: w_ensure_def)
  qed
  then show "step s s'" "world_of s' = w_ensure (world_of s) a" "stateObjects s' a = Some ob" "\<not> deleted ob"
    "so_address ob = a" by auto
qed

section \<open>Balances, nonces, code and storage\<close>

lemma sdb_inv_addr: "sdb_inv s \<Longrightarrow> stateObjects s a = Some ob \<Longrightarrow> so_address ob = a"
  by (auto simp: sdb_inv_def sdb_ok_def object_ok_def)

lemma obj_SetBalance_step:
  assumes "sdb_inv s" "stateObjects s a = Some ob" "\<not> deleted ob"
  shows "step s (obj_SetBalance s ob n)" "world_of (obj_SetBalance s ob n) = w_upd (world_of s) a (v_setBalance n)"
proof -
  note * = step_object [OF assms, where f = "\<lambda>x. x\<lparr>so_data := (so_data x)\<lparr>sa_Balance := n\<rparr>\<rparr>" and g = "v_setBalance n"
      and h = "v_setBalance (sa_Balance (so_data ob))" and e = "BalanceChange a (sa_Balance (so_data ob))"]
  have eq: "obj_SetBalance s ob n =
      upd_obj (sdb_append s (BalanceChange a (sa_Balance (so_data ob)))) a (\<lambda>x. x\<lparr>so_data := (so_data x)\<lparr>sa_Balance := n\<rparr>\<rparr>)"
    using sdb_inv_addr [OF assms(1,2)] by (simp add: obj_SetBalance_def obj_setBalance_def)
  show "step s (obj_SetBalance s ob n)" unfolding eq
    by (rule *(1)) (simp_all, simp add: v_setBalance_def)
  show "world_of (obj_SetBalance s ob n) = w_upd (world_of s) a (v_setBalance n)" unfolding eq
    by (rule *(2)) (simp_all, simp add: v_setBalance_def)
qed

lemma obj_SetNonce_step:
  assumes "sdb_inv s" "stateObjects s a = Some ob" "\<not> deleted ob"
  shows "step s (obj_SetNonce s ob n)" "world_of (obj_SetNonce s ob n) = w_upd (world_of s) a (v_setNonce n)"
proof -
  note * = step_object [OF assms, where f = "\<lambda>x. x\<lparr>so_data := (so_data x)\<lparr>sa_Nonce := n\<rparr>\<rparr>" and g = "v_setNonce n"
      and h = "v_setNonce (sa_Nonce (so_data ob))" and e = "NonceChange a (sa_Nonce (so_data ob))"]
  have eq: "obj_SetNonce s ob n =
      upd_obj (sdb_append s (NonceChange a (sa_Nonce (so_data ob)))) a (\<lambda>x. x\<lparr>so_data := (so_data x)\<lparr>sa_Nonce := n\<rparr>\<rparr>)"
    using sdb_inv_addr [OF assms(1,2)] by (simp add: obj_SetNonce_def obj_setNonce_def)
  show "step s (obj_SetNonce s ob n)" unfolding eq
    by (rule *(1)) (simp_all, simp add: v_setNonce_def)
  show "world_of (obj_SetNonce s ob n) = w_upd (world_of s) a (v_setNonce n)" unfolding eq
    by (rule *(2)) (simp_all, simp add: v_setNonce_def)
qed

lemma obj_touch_step:
  assumes "sdb_inv s"
  shows "step s (obj_touch s a)" "world_of (obj_touch s a) = world_of s"
proof -
  have ok: "sdb_ok (sdb_append s (TouchChange a))" using assms by (simp add: sdb_inv_def sdb_ok_append)
  show w: "world_of (obj_touch s a) = world_of s" by (simp add: obj_touch_def Let_def)
  have "sdb_inv (obj_touch s a)"
    using ok assms by (auto simp: obj_touch_def Let_def sdb_inv_def sdb_ok_def journal_dirty_def sdb_append_def)
  moreover have "journal_log (obj_touch s a) = journal_log s @ [TouchChange a]"
    by (simp add: obj_touch_def Let_def)
  moreover have "same_control s (obj_touch s a)"
    by (simp add: obj_touch_def Let_def same_control_def sdb_append_def)
  ultimately show "step s (obj_touch s a)" using step_append w by fastforce
qed

definition w_addBalance :: "address \<Rightarrow> int \<Rightarrow> world \<Rightarrow> world" where
  "w_addBalance a n w = w_upd w a (\<lambda>v. v_setBalance (sa_Balance (av_data v) + n) v)"

lemma w_upd_cong: "w_account w a = Some v \<Longrightarrow> f v = g v \<Longrightarrow> w_upd w a f = w_upd w a g"
  by (simp add: w_upd_def)

lemma w_upd_id: "w_account w a = Some v \<Longrightarrow> f v = v \<Longrightarrow> w_upd w a f = w"
  by (rule world.equality) (auto simp: w_upd_def)

lemma obj_addBalance_world:
  assumes "sdb_inv s" "stateObjects s a = Some ob"
  shows "w_upd (world_of s) a (v_setBalance (sa_Balance (so_data ob) + n)) = w_addBalance a n (world_of s)"
  unfolding w_addBalance_def using assms
  by (intro w_upd_cong [where v = "view_object (db s) (snap s) (stateObjectsDestruct s a \<noteq> None) ob"])
    (simp_all add: account_of_cached)

lemma w_addBalance_0: "w_account w a = Some v \<Longrightarrow> w_addBalance a 0 w = w"
  unfolding w_addBalance_def by (rule w_upd_id) (auto simp: v_setBalance_def)

lemma obj_AddBalance_step:
  assumes "sdb_inv s" "stateObjects s a = Some ob" "\<not> deleted ob"
  shows "step s (obj_AddBalance s ob n) \<and> world_of (obj_AddBalance s ob n) = w_addBalance a n (world_of s)"
proof (cases "n = 0")
  case True
  with assms account_of_cached [OF assms(2)] obj_touch_step [OF assms(1), of a] sdb_inv_addr [OF assms(1,2)]
  show ?thesis by (simp add: obj_AddBalance_def w_addBalance_0 step_refl)
next
  case False
  with obj_SetBalance_step [OF assms, of "sa_Balance (so_data ob) + n"] obj_addBalance_world [OF assms(1,2), of n]
  show ?thesis by (simp add: obj_AddBalance_def)
qed

lemma obj_SubBalance_step:
  assumes "sdb_inv s" "stateObjects s a = Some ob" "\<not> deleted ob"
  shows "step s (obj_SubBalance s ob n) \<and> world_of (obj_SubBalance s ob n) = w_addBalance a (- n) (world_of s)"
proof (cases "n = 0")
  case True
  with assms account_of_cached [OF assms(2)] show ?thesis
    by (simp add: obj_SubBalance_def w_addBalance_0 step_refl)
next
  case False
  with obj_SetBalance_step [OF assms, of "sa_Balance (so_data ob) - n"] obj_addBalance_world [OF assms(1,2), of "- n"]
  show ?thesis by (simp add: obj_SubBalance_def)
qed

lemma obj_SetState_step:
  assumes inv: "sdb_inv s" and ob: "stateObjects s a = Some ob" "\<not> deleted ob"
  shows "step s (obj_SetState s ob k x) \<and> world_of (obj_SetState s ob k x) = w_upd (world_of s) a (v_setState k x)"
proof -
  let ?v = "view_object (db s) (snap s) (stateObjectsDestruct s a \<noteq> None) ob"
  obtain prev s1 where g: "obj_GetState s ob k = (prev, s1)" by fastforce
  from inv have ok: "sdb_ok s" by (simp add: sdb_inv_def)
  note w = obj_GetState_world [OF ok ob(1) g]
  have st: "step s s1" by (rule step_same [OF w(2) inv w(3)])
  have w1: "world_of s1 = world_of s" by (rule same_world_of [OF w(2)])
  have v: "w_account (world_of s) a = Some ?v" using ob by (simp add: account_of_cached)
  show ?thesis
  proof (cases "prev = x")
    case True
    then have "v_setState k x ?v = ?v" using w(1) by (auto simp: v_setState_def)
    from w_upd_id [OF v, of "v_setState k x", OF this] True g st w1 show ?thesis
      by (simp add: obj_SetState_def)
  next
    case False
    from w(7) obtain ob1 where ob1: "stateObjects s1 a = Some ob1" "ob1 = ob\<lparr>originStorage := originStorage ob1\<rparr>"
      by blast
    have d1: "\<not> deleted ob1" "so_address ob = a"
      using arg_cong [where f = deleted, OF ob1(2)] ob sdb_inv_addr [OF inv ob(1)] by simp_all
    have v1: "view_object (db s1) (snap s1) (stateObjectsDestruct s1 a \<noteq> None) ob1 = ?v"
      using v w1 ob1(1) by (metis account_of_cached option.inject world_of_simps(3))
    note * = step_object [OF step_inv [OF st] ob1(1) d1(1),
        where f = "\<lambda>y. y\<lparr>dirtyStorage := (dirtyStorage y)(k \<mapsto> x)\<rparr>" and g = "v_setState k x"
          and h = "v_setState k prev" and e = "StorageChange a k prev"]
    have eq: "obj_SetState s ob k x =
        upd_obj (sdb_append s1 (StorageChange a k prev)) a (\<lambda>y. y\<lparr>dirtyStorage := (dirtyStorage y)(k \<mapsto> x)\<rparr>)"
      using False g d1 by (simp add: obj_SetState_def obj_setState_def)
    have undo: "v_setState k prev (v_setState k x ?v) = ?v" using w(1) by (simp add: v_setState_def)
    have "step s1 (obj_SetState s ob k x)" unfolding eq
      by (rule *(1)) (use undo v1 in \<open>simp_all del: view_setState\<close>, simp)
    moreover have "world_of (obj_SetState s ob k x) = w_upd (world_of s1) a (v_setState k x)" unfolding eq
      by (rule *(2)) (use undo v1 in \<open>simp_all del: view_setState\<close>, simp)
    ultimately show ?thesis using step_trans [OF st] w1 by simp
  qed
qed

lemma obj_SetCode_step:
  assumes inv: "sdb_inv s" and ob: "stateObjects s a = Some ob" "\<not> deleted ob"
  shows "step s (obj_SetCode s ob h c) \<and> world_of (obj_SetCode s ob h c) = w_upd (world_of s) a (v_setCode (db s) h c)"
proof -
  let ?v = "view_object (db s) (snap s) (stateObjectsDestruct s a \<noteq> None) ob"
  obtain prev s1 where g: "obj_Code s ob = (prev, s1)" by fastforce
  from inv have ok: "sdb_ok s" by (simp add: sdb_inv_def)
  note w = obj_Code_world [OF ok ob(1) g]
  have st: "step s s1" by (rule step_same [OF w(2) inv w(3)])
  have w1: "world_of s1 = world_of s" by (rule same_world_of [OF w(2)])
  have v: "w_account (world_of s) a = Some ?v" using ob by (simp add: account_of_cached)
  from w(7) obtain ob1 where ob1: "stateObjects s1 a = Some ob1" "ob1 = ob\<lparr>so_code := so_code ob1\<rparr>"
    by blast
  have d1: "\<not> deleted ob1" "so_address ob = a"
    using arg_cong [where f = deleted, OF ob1(2)] ob sdb_inv_addr [OF inv ob(1)] by simp_all
  have v1: "view_object (db s1) (snap s1) (stateObjectsDestruct s1 a \<noteq> None) ob1 = ?v"
    using v w1 ob1(1) by (metis account_of_cached option.inject world_of_simps(3))
  let ?h = "sa_CodeHash (so_data ob)"
  note * = step_object [OF step_inv [OF st] ob1(1) d1(1),
      where f = "\<lambda>y. y\<lparr>so_code := c, so_data := (so_data y)\<lparr>sa_CodeHash := h\<rparr>, dirtyCode := True\<rparr>"
        and g = "v_setCode (db s) h c" and h = "v_setCode (db s) ?h prev" and e = "CodeChange a prev ?h"]
  have eq: "obj_SetCode s ob h c =
      upd_obj (sdb_append s1 (CodeChange a prev ?h)) a
        (\<lambda>y. y\<lparr>so_code := c, so_data := (so_data y)\<lparr>sa_CodeHash := h\<rparr>, dirtyCode := True\<rparr>)"
    using g d1 by (simp add: obj_SetCode_def obj_setCode_def)
  have undo: "v_setCode (db s) ?h prev (v_setCode (db s) h c ?v) = ?v"
    using w(1) d1 by (auto simp: v_setCode_def view_object_def split: option.splits)
  have "step s1 (obj_SetCode s ob h c)" unfolding eq
    by (rule *(1)) (use undo v1 w(4) in \<open>simp_all del: view_setCode\<close>, simp)
  moreover have "world_of (obj_SetCode s ob h c) = w_upd (world_of s1) a (v_setCode (db s) h c)" unfolding eq
    by (rule *(2)) (use undo v1 w(4) in \<open>simp_all del: view_setCode\<close>, simp)
  ultimately show ?thesis using step_trans [OF st] w1 by simp
qed

section \<open>The public operations\<close>

text \<open>What an operation promises: its effect on the world, and that it extends the log.\<close>

definition implements :: "statedb \<Rightarrow> statedb \<Rightarrow> world \<Rightarrow> bool" where
  "implements s s' w \<longleftrightarrow> step s s' \<and> world_of s' = w"

lemma via_object:
  assumes inv: "sdb_inv s"
    and f: "\<And>s1 ob. sdb_inv s1 \<Longrightarrow> stateObjects s1 a = Some ob \<Longrightarrow> \<not> deleted ob \<Longrightarrow> db s1 = db s \<Longrightarrow>
      step s1 (f s1 ob) \<and> world_of (f s1 ob) = g (world_of s1)"
  shows "implements s (case GetOrNewStateObject s a of (ob, s1) \<Rightarrow> f s1 ob) (g (w_ensure (world_of s) a))"
proof -
  obtain ob s1 where g: "GetOrNewStateObject s a = (ob, s1)" by fastforce
  note w = GetOrNewStateObject_step [OF inv g]
  have "db s1 = db s" using w(1) by (simp add: step_def same_control_def)
  from f [OF step_inv [OF w(1)] w(3,4) this] w(1,2) show ?thesis
    by (auto simp: implements_def g intro: step_trans)
qed

lemma AddBalance_implements:
  "sdb_inv s \<Longrightarrow> implements s (AddBalance s a n) (w_addBalance a n (w_ensure (world_of s) a))"
  unfolding AddBalance_def
  by (rule via_object [where f = "\<lambda>s ob. obj_AddBalance s ob n"]) (assumption, rule obj_AddBalance_step)

lemma SubBalance_implements:
  "sdb_inv s \<Longrightarrow> implements s (SubBalance s a n) (w_addBalance a (- n) (w_ensure (world_of s) a))"
  unfolding SubBalance_def
  by (rule via_object [where f = "\<lambda>s ob. obj_SubBalance s ob n"]) (assumption, rule obj_SubBalance_step)

lemma SetBalance_implements:
  "sdb_inv s \<Longrightarrow> implements s (SetBalance s a n) (w_upd (w_ensure (world_of s) a) a (v_setBalance n))"
  unfolding SetBalance_def
  by (rule via_object [where f = "\<lambda>s ob. obj_SetBalance s ob n" and g = "\<lambda>w. w_upd w a (v_setBalance n)"])
    (auto simp: obj_SetBalance_step)

lemma SetNonce_implements:
  "sdb_inv s \<Longrightarrow> implements s (SetNonce s a n) (w_upd (w_ensure (world_of s) a) a (v_setNonce n))"
  unfolding SetNonce_def
  by (rule via_object [where f = "\<lambda>s ob. obj_SetNonce s ob n" and g = "\<lambda>w. w_upd w a (v_setNonce n)"])
    (auto simp: obj_SetNonce_step)

lemma SetState_implements:
  "sdb_inv s \<Longrightarrow> implements s (SetState s a k x) (w_upd (w_ensure (world_of s) a) a (v_setState k x))"
  unfolding SetState_def
  by (rule via_object [where f = "\<lambda>s ob. obj_SetState s ob k x" and g = "\<lambda>w. w_upd w a (v_setState k x)"])
    (assumption, rule obj_SetState_step)


definition code_bytes :: "bytes option \<Rightarrow> bytes" where
  "code_bytes c = (case c of None \<Rightarrow> [] | Some b \<Rightarrow> b)"

lemma SetCode_implements:
  assumes "sdb_inv s"
  shows "implements s (SetCode s a c)
    (w_upd (w_ensure (world_of s) a) a (v_setCode (db s) (keccak (db s) (code_bytes c)) c))"
proof -
  have "step s1 (obj_SetCode s1 ob (keccak (db s1) (code_bytes c)) c) \<and>
      world_of (obj_SetCode s1 ob (keccak (db s1) (code_bytes c)) c) =
        w_upd (world_of s1) a (v_setCode (db s) (keccak (db s) (code_bytes c)) c)"
    if "sdb_inv s1" "stateObjects s1 a = Some ob" "\<not> deleted ob" "db s1 = db s" for s1 ob
    using obj_SetCode_step [OF that(1-3)] that(4) by simp
  from via_object [where f = "\<lambda>s1 ob. obj_SetCode s1 ob (keccak (db s1) (code_bytes c)) c"
      and g = "\<lambda>w. w_upd w a (v_setCode (db s) (keccak (db s) (code_bytes c)) c)", OF assms this]
  show ?thesis unfolding SetCode_def code_bytes_def .
qed

definition w_selfDestruct :: "address \<Rightarrow> world \<Rightarrow> world" where
  "w_selfDestruct a w = (if w_live w a then w_upd w a (v_setBalance 0 \<circ> v_setSelfDestructed True) else w)"

lemma SelfDestruct_implements:
  assumes inv: "sdb_inv s"
  shows "implements s (SelfDestruct s a) (w_selfDestruct a (world_of s))"
proof -
  obtain r s1 where g: "getStateObject s a = (r, s1)" by fastforce
  note w = getStateObject_step [OF inv g]
  show ?thesis
  proof (cases r)
    case None
    with g w(1,2,4) show ?thesis by (simp add: SelfDestruct_def implements_def w_selfDestruct_def)
  next
    case (Some ob)
    from w(5) [OF Some] have ob: "stateObjects s1 a = Some ob" "\<not> deleted ob" "so_address ob = a" by auto
    let ?e = "SelfDestructChange a (selfDestructed ob) (sa_Balance (so_data ob))"
    let ?f = "\<lambda>x. x\<lparr>selfDestructed := True, so_data := (so_data x)\<lparr>sa_Balance := 0\<rparr>\<rparr>"
    let ?g = "v_setBalance 0 \<circ> v_setSelfDestructed True"
    have view: "view_object d sn b (?f x) = ?g (view_object d sn b x)" for d sn b x
      by (auto simp: view_object_def v_defs committed_value_def fun_eq_iff base_storage_def
          split: option.split cong: option.case_cong)
    note * = step_object [OF step_inv [OF w(1)] ob(1,2), where f = ?f and g = ?g and e = ?e
        and h = "v_setBalance (sa_Balance (so_data ob)) \<circ> v_setSelfDestructed (selfDestructed ob)"]
    have "step s1 (upd_obj (sdb_append s1 ?e) a ?f)"
      by (rule *(1) [OF view]) (simp_all, simp add: v_defs view_object_def)
    moreover have "world_of (upd_obj (sdb_append s1 ?e) a ?f) = w_upd (world_of s1) a ?g"
      by (rule *(2) [OF view]) (simp_all, simp add: v_defs view_object_def)
    moreover have "SelfDestruct s a = upd_obj (sdb_append s1 ?e) a ?f"
      using g Some ob by (simp add: SelfDestruct_def)
    ultimately show ?thesis
      using w(1,2,4) Some step_trans by (auto simp: implements_def w_selfDestruct_def)
  qed
qed

definition w_selfdestruct6780 :: "address \<Rightarrow> world \<Rightarrow> world" where
  "w_selfdestruct6780 a w =
     (case w_account w a of
        None \<Rightarrow> w
      | Some v \<Rightarrow> if \<not> av_deleted v \<and> av_created v then w_selfDestruct a w else w)"

lemma Selfdestruct6780_implements:
  assumes inv: "sdb_inv s"
  shows "implements s (Selfdestruct6780 s a) (w_selfdestruct6780 a (world_of s))"
proof -
  obtain r s1 where g: "getStateObject s a = (r, s1)" by fastforce
  note w = getStateObject_step [OF inv g]
  show ?thesis
  proof (cases r)
    case None
    then have "w_selfdestruct6780 a (world_of s) = world_of s"
      using w(4) by (auto simp: w_selfdestruct6780_def w_live_def split: option.splits)
    with g None w(1,2) show ?thesis by (simp add: Selfdestruct6780_def implements_def)
  next
    case (Some ob)
    from w(5) [OF this] have "w_selfdestruct6780 a (world_of s1) =
        (if created ob then w_selfDestruct a (world_of s1) else world_of s1)"
      by (simp add: w_selfdestruct6780_def)
    with g Some w(1,2) SelfDestruct_implements [OF step_inv [OF w(1)], of a] step_trans show ?thesis
      by (auto simp: Selfdestruct6780_def implements_def)
  qed
qed

definition w_createAccount :: "address \<Rightarrow> world \<Rightarrow> world" where
  "w_createAccount a w =
     (case w_account w a of
        Some p \<Rightarrow> if av_deleted p then w_create w a
                  else w_upd (w_create w a) a (v_setBalance (sa_Balance (av_data p)))
      | None \<Rightarrow> w_create w a)"

lemma CreateAccount_implements:
  assumes inv: "sdb_inv s"
  shows "implements s (CreateAccount s a) (w_createAccount a (world_of s))"
proof -
  obtain nob prev s1 where c: "createObject s a = (nob, prev, s1)" by (metis prod_cases3)
  note cs = createObject_step [OF inv c]
  show ?thesis
  proof (cases prev)
    case None
    then have "w_createAccount a (world_of s) = w_create (world_of s) a"
      using cs(3) by (auto simp: w_createAccount_def live_def account_of_def split: option.splits if_splits)
    with None c cs(1,2) show ?thesis by (simp add: CreateAccount_def implements_def)
  next
    case (Some p)
    then have p: "account_of s a = Some (view_object (db s) (snap s) (stateObjectsDestruct s a \<noteq> None) p)" "\<not> deleted p"
      using cs(3) by (auto simp: live_def account_of_def split: option.splits if_splits)
    let ?b = "sa_Balance (so_data p)"
    have eq: "CreateAccount s a = obj_setBalance s1 a ?b"
      using c Some cs(5) by (simp add: CreateAccount_def newObject_def)
    have wd: "world_of (obj_setBalance s1 a ?b) = w_upd (world_of s1) a (v_setBalance ?b)"
      unfolding obj_setBalance_def by (rule world_of_upd_obj [OF cs(4)]) simp
    have i1: "sdb_inv s1" by (rule step_inv [OF cs(1)])
    have "world_of (obj_setBalance s1 a ?b) =
        (w_create (world_of s) a)\<lparr>w_account := w_account (world_of (obj_setBalance s1 a ?b))\<rparr>"
      unfolding wd cs(2) by (rule world.equality) (simp_all add: w_upd_def)
    moreover have "w_account (world_of (obj_setBalance s1 a ?b)) b = account_of s b" if "b \<noteq> a" for b
      using that by (simp only: wd cs(2)) (simp add: w_upd_def)
    ultimately have "wundo (created_entry s a) (world_of (obj_setBalance s1 a ?b)) = Some (world_of s)"
      using wundo_created [of s a] inv by (metis sdb_inv_def)
    moreover have "journal_log (obj_setBalance s1 a ?b) = journal_log s @ [created_entry s a]"
      using cs(6) by (simp add: obj_setBalance_def)
    moreover have "sdb_inv (obj_setBalance s1 a ?b)"
      using i1 by (auto simp: sdb_inv_def obj_setBalance_def intro!: sdb_ok_upd_obj)
    moreover have "same_control s (obj_setBalance s1 a ?b)"
      using cs(1) by (simp add: obj_setBalance_def step_def)
    ultimately have "step s (obj_setBalance s1 a ?b)" by (blast intro: step_append)
    with eq wd cs(2) p show ?thesis by (simp add: implements_def w_createAccount_def)
  qed
qed

subsection \<open>Operations on a single field\<close>

lemma implements_refl: "sdb_inv s \<Longrightarrow> implements s s (world_of s)"
  by (simp add: implements_def step_refl)

lemma implements_append:
  "journal_log s' = journal_log s @ [e] \<Longrightarrow> world_of s' = w \<Longrightarrow> wundo e w = Some (world_of s) \<Longrightarrow>
   sdb_inv s' \<Longrightarrow> same_control s s' \<Longrightarrow> implements s s' w"
  unfolding implements_def using step_append by blast

lemma sdb_append_fields [simp]:
  "refund (sdb_append s e) = refund s" "thash (sdb_append s e) = thash s" "txIndex (sdb_append s e) = txIndex s"
  "logs (sdb_append s e) = logs s" "logSize (sdb_append s e) = logSize s"
  "preimages (sdb_append s e) = preimages s" "transientStorage (sdb_append s e) = transientStorage s"
  "account_of (sdb_append s e) = account_of s" "validRevisions (sdb_append s e) = validRevisions s"
  "nextRevisionId (sdb_append s e) = nextRevisionId s" "accountState (sdb_append s e) = accountState s"
  "sdb_accounts (sdb_append s e) = sdb_accounts s" "sdb_storages (sdb_append s e) = sdb_storages s"
  "accountsOrigin (sdb_append s e) = accountsOrigin s" "storagesOrigin (sdb_append s e) = storagesOrigin s"
  by (simp_all add: sdb_append_def)

lemma sdb_inv_append [simp]: "sdb_inv s \<Longrightarrow> entry_ok (db s) e \<Longrightarrow> sdb_inv (sdb_append s e)"
  by (simp add: sdb_inv_def sdb_ok_append)

lemma sdb_inv_fields [simp]:
  "sdb_inv (s\<lparr>refund := x1\<rparr>) = sdb_inv s" "sdb_inv (s\<lparr>logs := x2, logSize := x3\<rparr>) = sdb_inv s"
  "sdb_inv (s\<lparr>preimages := x4\<rparr>) = sdb_inv s" "sdb_inv (s\<lparr>transientStorage := x5\<rparr>) = sdb_inv s"
  by (simp_all add: sdb_inv_def sdb_ok_def)

lemma AddRefund_implements:
  "sdb_inv s \<Longrightarrow> implements s (AddRefund s gas) ((world_of s)\<lparr>w_refund := refund s + gas\<rparr>)"
  by (rule implements_append [where e = "RefundChange (refund s)"])
    (auto simp: AddRefund_def same_control_def journal_log_def sdb_append_def Let_def intro!: world.equality,
     simp_all add: sdb_inv_def sdb_ok_def)

lemma SubRefund_implements:
  "sdb_inv s \<Longrightarrow> case SubRefund s gas of
      None \<Rightarrow> gas > refund s
    | Some s' \<Rightarrow> gas \<le> refund s \<and> implements s s' ((world_of s)\<lparr>w_refund := refund s - gas\<rparr>)"
  by (auto simp: SubRefund_def Let_def not_less require_def
      intro!: implements_append [where e = "RefundChange (refund s)"] world.equality)
    (simp_all add: same_control_def journal_log_def sdb_append_def sdb_inv_def sdb_ok_def)

definition w_addLog :: "log \<Rightarrow> world \<Rightarrow> world" where
  "w_addLog l w =
     w\<lparr>w_logs := (w_logs w)(w_thash w := w_logs w (w_thash w) @
         [l\<lparr>log_TxHash := w_thash w, log_TxIndex := word_of_int (w_txIndex w), log_Index := w_logSize w\<rparr>]),
       w_logSize := w_logSize w + 1\<rparr>"

lemma AddLogSu_implements:
  assumes "sdb_inv s"
  shows "implements s (snd (AddLogSu s l)) (w_addLog l (world_of s))"
    "fst (AddLogSu s l) = length (w_logs (world_of s) (thash s))"
proof -
  show "fst (AddLogSu s l) = length (w_logs (world_of s) (thash s))"
    by (simp add: AddLogSu_def Let_def)
  have "world_of (snd (AddLogSu s l)) = w_addLog l (world_of s)"
    by (rule world.equality) (auto simp: AddLogSu_def Let_def w_addLog_def)
  moreover have "wundo (AddLogChange (thash s)) (w_addLog l (world_of s)) = Some (world_of s)"
    by (auto simp: w_addLog_def intro!: world.equality)
  moreover have "journal_log (snd (AddLogSu s l)) = journal_log s @ [AddLogChange (thash s)]"
    by (simp add: AddLogSu_def Let_def journal_log_def sdb_append_def)
  moreover have "sdb_inv (snd (AddLogSu s l))"
    using assms by (simp add: AddLogSu_def Let_def sdb_inv_def sdb_ok_def sdb_append_def)
  moreover have "same_control s (snd (AddLogSu s l))"
    by (simp add: AddLogSu_def Let_def same_control_def)
  ultimately show "implements s (snd (AddLogSu s l)) (w_addLog l (world_of s))"
    using implements_append by blast
qed

lemma AddLog_eq: "AddLog s l = snd (AddLogSu s l)"
  by (simp add: AddLog_def AddLogSu_def Let_def)

definition w_addPreimage :: "hash \<Rightarrow> bytes \<Rightarrow> world \<Rightarrow> world" where
  "w_addPreimage h b w = (if w_preimages w h = None then w\<lparr>w_preimages := (w_preimages w)(h \<mapsto> b)\<rparr> else w)"

lemma AddPreimage_implements:
  "sdb_inv s \<Longrightarrow> implements s (AddPreimage s h b) (w_addPreimage h b (world_of s))"
proof (cases "preimages s h")
  case None
  assume "sdb_inv s"
  with None show ?thesis
    by (intro implements_append [where e = "AddPreimageChange h"])
      (auto simp: AddPreimage_def w_addPreimage_def Let_def same_control_def journal_log_def intro!: world.equality,
       auto simp: sdb_append_def sdb_inv_def sdb_ok_def)
qed (simp add: AddPreimage_def w_addPreimage_def implements_refl)

lemma SetTransientState_implements:
  assumes "sdb_inv s"
  shows "implements s (SetTransientState s a k x)
    ((world_of s)\<lparr>w_transient := (w_transient (world_of s))(a := (w_transient (world_of s) a)(k := x))\<rparr>)"
proof (cases "ts_Get (transientStorage s) a k = x")
  case True
  then have "(world_of s)\<lparr>w_transient := (w_transient (world_of s))(a := (w_transient (world_of s) a)(k := x))\<rparr> = world_of s"
    by (auto intro!: world.equality)
  with True assms show ?thesis by (simp add: SetTransientState_def GetTransientState_def implements_refl)
next
  case False
  have "SetTransientState s a k x =
      (sdb_append s (TransientStorageChange a k (ts_Get (transientStorage s) a k)))
        \<lparr>transientStorage := ts_Set (transientStorage s) a k x\<rparr>"
    using False by (simp add: SetTransientState_def GetTransientState_def Let_def)
  with assms show ?thesis
    by (intro implements_append [where e = "TransientStorageChange a k (ts_Get (transientStorage s) a k)"])
      (auto simp: same_control_def journal_log_def fun_eq_iff intro!: world.equality,
       auto simp: sdb_append_def sdb_inv_def sdb_ok_def)
qed

subsection \<open>The access list\<close>

lemma world_of_accessList:
  "world_of (s\<lparr>accessList := al\<rparr>) = (world_of s)\<lparr>w_accessList := al\<rparr>"
  by (rule world.equality) simp_all

lemma sdb_append_accessList:
  "sdb_append (s\<lparr>accessList := al\<rparr>) e = (sdb_append s e)\<lparr>accessList := al\<rparr>"
  by (simp add: sdb_append_def)

lemma AddAddressToAccessList_implements:
  assumes inv: "sdb_inv s"
  shows "implements s (AddAddressToAccessList s a)
    ((world_of s)\<lparr>w_accessList := fst (AddAddress (accessList s) a)\<rparr>)"
proof (cases "al_addresses (accessList s) a")
  case None
  let ?al = "fst (AddAddress (accessList s) a)"
  have eq: "AddAddressToAccessList s a = (sdb_append s (AccessListAddAccountChange a))\<lparr>accessList := ?al\<rparr>"
    using None by (simp add: AddAddressToAccessList_def AddAddress_def sdb_append_accessList)
  have "al_wf ?al" using inv AddAddress_wf by (auto simp: sdb_inv_def)
  with inv show ?thesis unfolding eq
    by (intro implements_append [where e = "AccessListAddAccountChange a"])
      (auto simp: journal_log_def same_control_def world_of_accessList DeleteAddress_undo [OF None] intro!: world.equality,
       auto simp: sdb_append_def sdb_inv_def sdb_ok_def)
next
  case (Some i)
  then have "(world_of s)\<lparr>w_accessList := fst (AddAddress (accessList s) a)\<rparr> = world_of s"
    by (auto simp: AddAddress_def intro!: world.equality)
  moreover have "AddAddressToAccessList s a = s"
    using Some by (simp add: AddAddressToAccessList_def AddAddress_def)
  ultimately show ?thesis using implements_refl [OF inv] by (simp only:)
qed

lemma AddSlotToAccessList_implements:
  assumes inv: "sdb_inv s"
  shows "\<exists>s' al c. AddSlotToAccessList s a k = Some s' \<and> AddSlot (accessList s) a k = Some (al, c) \<and>
    implements s s' ((world_of s)\<lparr>w_accessList := al\<rparr>)"
proof -
  from inv have wf: "al_wf (accessList s)" by (simp add: sdb_inv_def)
  from AddSlot_total [OF wf] obtain al m t where add: "AddSlot (accessList s) a k = Some (al, m, t)"
    by (metis prod_cases3)
  from AddSlot_undo [OF wf add] have undo: "undo_AddSlot al a k (m, t) = Some (accessList s)" .
  have mt: "m \<longrightarrow> t" "\<not> m \<longrightarrow> \<not> t \<longrightarrow> al = accessList s"
    using add by (auto simp: AddSlot_def Let_def split: if_splits)
  define es where "es = (if m then [AccessListAddAccountChange a] else []) @ (if t then [AccessListAddSlotChange a k] else [])"
  define s' where "s' = (foldl sdb_append s es)\<lparr>accessList := al\<rparr>"
  have eq: "AddSlotToAccessList s a k = Some s'"
    by (cases m; cases t) (simp_all add: AddSlotToAccessList_def add s'_def es_def sdb_append_accessList)
  have w: "world_of s' = (world_of s)\<lparr>w_accessList := al\<rparr>"
    by (simp add: s'_def world_of_accessList es_def)
  have "undo_all wundo (rev es) (world_of s') = Some (world_of s)"
    using undo mt unfolding w undo_AddSlot_def es_def
    by (cases m; cases t) (auto intro!: world.equality)
  moreover have "journal_log s' = journal_log s @ es"
    by (auto simp: s'_def es_def journal_log_def sdb_append_def)
  moreover have "sdb_inv s'" "same_control s s'"
    using inv AddSlot_wf [OF wf add]
    by (auto simp: s'_def es_def sdb_inv_def sdb_ok_def same_control_def) (auto simp: sdb_append_def)
  ultimately have "implements s s' ((world_of s)\<lparr>w_accessList := al\<rparr>)"
    using w by (auto simp: implements_def step_def sdb.ext_def)
  with eq add show ?thesis by blast
qed

end
