(* ===== verification/StateDB_Spec.thy ===== *)
theory StateDB_Spec
  imports StateDB_Ops
begin

text \<open>
  The StateDB as a state machine and its specification.  A client issues commands: reads, writes,
  \<open>Snapshot\<close> and \<open>RevertToSnapshot\<close>.  The specification keeps a world and a stack of
  saved worlds, and reverting copies a saved world back; the theorem at the end is that
  \<^verbatim>\<open>statedb.go\<close>, with its caches and its journal, answers every command the same way.
\<close>

section \<open>Commands\<close>

datatype sdb_op =
    OpCreateAccount address
  | OpAddBalance address int
  | OpSubBalance address int
  | OpSetBalance address int
  | OpSetNonce address u64
  | OpSetCode address "bytes option"
  | OpSetState address hash hash
  | OpSelfDestruct address
  | OpSelfdestruct6780 address
  | OpAddRefund u64
  | OpSubRefund u64
  | OpAddLog log
  | OpAddPreimage hash bytes
  | OpSetTransientState address hash hash
  | OpAddAddress address
  | OpAddSlot address hash
  | OpExist address
  | OpEmpty address
  | OpGetBalance address
  | OpGetNonce address
  | OpGetCodeHash address
  | OpGetCode address
  | OpGetState address hash
  | OpGetCommittedState address hash
  | OpHasSelfDestructed address
  | OpGetRefund
  | OpGetTransientState address hash
  | OpAddressInAccessList address
  | OpSlotInAccessList address hash

datatype sdb_val =
  VUnit | VBool bool | VInt int | VNonce u64 | VHash hash | VCode "bytes option" | VNat nat | VBools bool bool

definition ret :: "('a \<Rightarrow> sdb_val) \<Rightarrow> 'a \<times> 's \<Rightarrow> (sdb_val \<times> 's) option" where
  "ret f p = Some (f (fst p), snd p)"

fun exec_op :: "sdb_op \<Rightarrow> statedb \<Rightarrow> (sdb_val \<times> statedb) option" where
  "exec_op (OpCreateAccount a) s = Some (VUnit, CreateAccount s a)"
| "exec_op (OpAddBalance a n) s = Some (VUnit, AddBalance s a n)"
| "exec_op (OpSubBalance a n) s = Some (VUnit, SubBalance s a n)"
| "exec_op (OpSetBalance a n) s = Some (VUnit, SetBalance s a n)"
| "exec_op (OpSetNonce a n) s = Some (VUnit, SetNonce s a n)"
| "exec_op (OpSetCode a c) s = Some (VUnit, SetCode s a c)"
| "exec_op (OpSetState a k v) s = Some (VUnit, SetState s a k v)"
| "exec_op (OpSelfDestruct a) s = Some (VUnit, SelfDestruct s a)"
| "exec_op (OpSelfdestruct6780 a) s = Some (VUnit, Selfdestruct6780 s a)"
| "exec_op (OpAddRefund g) s = Some (VUnit, AddRefund s g)"
| "exec_op (OpSubRefund g) s = map_option (Pair VUnit) (SubRefund s g)"
| "exec_op (OpAddLog l) s = ret VNat (AddLogSu s l)"
| "exec_op (OpAddPreimage h b) s = Some (VUnit, AddPreimage s h b)"
| "exec_op (OpSetTransientState a k v) s = Some (VUnit, SetTransientState s a k v)"
| "exec_op (OpAddAddress a) s = Some (VUnit, AddAddressToAccessList s a)"
| "exec_op (OpAddSlot a k) s = map_option (Pair VUnit) (AddSlotToAccessList s a k)"
| "exec_op (OpExist a) s = ret VBool (Exist s a)"
| "exec_op (OpEmpty a) s = ret VBool (Empty s a)"
| "exec_op (OpGetBalance a) s = ret VInt (GetBalance s a)"
| "exec_op (OpGetNonce a) s = ret VNonce (GetNonce s a)"
| "exec_op (OpGetCodeHash a) s = ret VHash (GetCodeHash s a)"
| "exec_op (OpGetCode a) s = ret VCode (GetCode s a)"
| "exec_op (OpGetState a k) s = ret VHash (GetState s a k)"
| "exec_op (OpGetCommittedState a k) s = ret VHash (GetCommittedState s a k)"
| "exec_op (OpHasSelfDestructed a) s = ret VBool (HasSelfDestructed s a)"
| "exec_op OpGetRefund s = Some (VNonce (GetRefund s), s)"
| "exec_op (OpGetTransientState a k) s = Some (VHash (GetTransientState s a k), s)"
| "exec_op (OpAddressInAccessList a) s = Some (VBool (AddressInAccessList s a), s)"
| "exec_op (OpSlotInAccessList a k) s =
     map_option (\<lambda>p. (VBools (fst p) (snd p), s)) (SlotInAccessList s a k)"

text \<open>What a read of an account returns in a world: a missing or deleted account reads as a default.\<close>

definition w_read :: "world \<Rightarrow> address \<Rightarrow> 'a \<Rightarrow> (account_view \<Rightarrow> 'a) \<Rightarrow> 'a" where
  "w_read w a d f =
     (case w_account w a of None \<Rightarrow> d | Some v \<Rightarrow> if av_deleted v then d else f v)"

fun spec_op :: "sdb_op \<Rightarrow> world \<Rightarrow> (sdb_val \<times> world) option" where
  "spec_op (OpCreateAccount a) w = Some (VUnit, w_createAccount a w)"
| "spec_op (OpAddBalance a n) w = Some (VUnit, w_addBalance a n (w_ensure w a))"
| "spec_op (OpSubBalance a n) w = Some (VUnit, w_addBalance a (- n) (w_ensure w a))"
| "spec_op (OpSetBalance a n) w = Some (VUnit, w_upd (w_ensure w a) a (v_setBalance n))"
| "spec_op (OpSetNonce a n) w = Some (VUnit, w_upd (w_ensure w a) a (v_setNonce n))"
| "spec_op (OpSetCode a c) w =
     Some (VUnit, w_upd (w_ensure w a) a (v_setCode (w_db w) (keccak (w_db w) (code_bytes c)) c))"
| "spec_op (OpSetState a k v) w = Some (VUnit, w_upd (w_ensure w a) a (v_setState k v))"
| "spec_op (OpSelfDestruct a) w = Some (VUnit, w_selfDestruct a w)"
| "spec_op (OpSelfdestruct6780 a) w = Some (VUnit, w_selfdestruct6780 a w)"
| "spec_op (OpAddRefund g) w = Some (VUnit, w\<lparr>w_refund := w_refund w + g\<rparr>)"
| "spec_op (OpSubRefund g) w =
     (if g > w_refund w then None else Some (VUnit, w\<lparr>w_refund := w_refund w - g\<rparr>))"
| "spec_op (OpAddLog l) w = Some (VNat (length (w_logs w (w_thash w))), w_addLog l w)"
| "spec_op (OpAddPreimage h b) w = Some (VUnit, w_addPreimage h b w)"
| "spec_op (OpSetTransientState a k v) w =
     Some (VUnit, w\<lparr>w_transient := (w_transient w)(a := (w_transient w a)(k := v))\<rparr>)"
| "spec_op (OpAddAddress a) w = Some (VUnit, w\<lparr>w_accessList := fst (AddAddress (w_accessList w) a)\<rparr>)"
| "spec_op (OpAddSlot a k) w =
     map_option (\<lambda>p. (VUnit, w\<lparr>w_accessList := fst p\<rparr>)) (AddSlot (w_accessList w) a k)"
| "spec_op (OpExist a) w = Some (VBool (w_live w a), w)"
| "spec_op (OpEmpty a) w =
     Some (VBool (w_read w a True (\<lambda>v. sa_Nonce (av_data v) = 0 \<and> sa_Balance (av_data v) = 0 \<and>
       sa_CodeHash (av_data v) = EmptyCodeHash (w_db w))), w)"
| "spec_op (OpGetBalance a) w = Some (VInt (w_read w a 0 (\<lambda>v. sa_Balance (av_data v))), w)"
| "spec_op (OpGetNonce a) w = Some (VNonce (w_read w a 0 (\<lambda>v. sa_Nonce (av_data v))), w)"
| "spec_op (OpGetCodeHash a) w = Some (VHash (w_read w a 0 (\<lambda>v. sa_CodeHash (av_data v))), w)"
| "spec_op (OpGetCode a) w = Some (VCode (w_read w a None av_code), w)"
| "spec_op (OpGetState a k) w = Some (VHash (w_read w a 0 (\<lambda>v. av_storage v k)), w)"
| "spec_op (OpGetCommittedState a k) w = Some (VHash (w_read w a 0 (\<lambda>v. av_committed v k)), w)"
| "spec_op (OpHasSelfDestructed a) w = Some (VBool (w_read w a False av_selfDestructed), w)"
| "spec_op OpGetRefund w = Some (VNonce (w_refund w), w)"
| "spec_op (OpGetTransientState a k) w = Some (VHash (w_transient w a k), w)"
| "spec_op (OpAddressInAccessList a) w = Some (VBool (ContainsAddress (w_accessList w) a), w)"
| "spec_op (OpSlotInAccessList a k) w =
     map_option (\<lambda>p. (VBools (fst p) (snd p), w)) (Contains (w_accessList w) a k)"

section \<open>Every operation implements its specification\<close>

definition agrees :: "statedb \<Rightarrow> (sdb_val \<times> statedb) option \<Rightarrow> (sdb_val \<times> world) option \<Rightarrow> bool" where
  "agrees s r q =
     (case r of
        None \<Rightarrow> q = None
      | Some (v, s') \<Rightarrow> q = Some (v, world_of s') \<and> step s s')"

lemma agrees_implements: "implements s s' w \<Longrightarrow> agrees s (Some (v, s')) (Some (v, w))"
  by (simp add: agrees_def implements_def)

lemma agrees_read:
  assumes inv: "sdb_inv s"
    and f: "\<And>ob s1. stateObjects s1 a = Some ob \<Longrightarrow> sdb_inv s1 \<Longrightarrow> db s1 = db s \<Longrightarrow>
      fst (f s1 ob) = g (view_object (db s1) (snap s1) (stateObjectsDestruct s1 a \<noteq> None) ob) \<and>
      same_world s1 (snd (f s1 ob)) \<and> sdb_ok (snd (f s1 ob))"
  shows "agrees s (ret V (case getStateObject s a of (None, s') \<Rightarrow> (d, s') | (Some ob, s') \<Rightarrow> f s' ob))
    (Some (V (w_read (world_of s) a d g), world_of s))"
proof -
  obtain r s1 where get: "getStateObject s a = (r, s1)" by fastforce
  note w = getStateObject_step [OF inv get]
  show ?thesis
  proof (cases r)
    case None
    then have "w_read (world_of s) a d g = d"
      using w(4) by (auto simp: w_read_def w_live_def split: option.splits)
    with None get w(1,2) show ?thesis by (simp add: ret_def agrees_def)
  next
    case (Some ob)
    note w5 = w(5) [OF Some]
    have "db s1 = db s" using w(1) by (simp add: step_def same_control_def)
    from f [OF _ _ this, of ob] w5 step_inv [OF w(1)]
    have r: "fst (f s1 ob) = g (view_object (db s1) (snap s1) (stateObjectsDestruct s1 a \<noteq> None) ob)"
      "same_world s1 (snd (f s1 ob))" "sdb_ok (snd (f s1 ob))" by auto
    have "step s (snd (f s1 ob))"
      using step_trans [OF w(1) step_same [OF r(2) step_inv [OF w(1)] r(3)]] .
    moreover have "w_read (world_of s) a d g = fst (f s1 ob)"
      using w5 r(1) unfolding w(2) [symmetric] by (simp add: w_read_def)
    ultimately show ?thesis
      using Some get w(2) same_world_of [OF r(2)] by (simp add: ret_def agrees_def)
  qed
qed

lemma agrees_field:
  assumes inv: "sdb_inv s" and f: "\<And>e ob sn b. f e ob = g (view_object e sn b ob)"
  shows "agrees s (ret V (case getStateObject s a of (None, s') \<Rightarrow> (d, s') | (Some ob, s') \<Rightarrow> (f (db s') ob, s')))
    (Some (V (w_read (world_of s) a d g), world_of s))"
  by (rule agrees_read [where f = "\<lambda>s ob. (f (db s) ob, s)", OF inv]) (simp add: f [symmetric] sdb_inv_def)

theorem exec_op_agrees:
  assumes inv: "sdb_inv s"
  shows "agrees s (exec_op c s) (spec_op c (world_of s))"
proof (cases c)
  case (OpSubRefund g)
  with SubRefund_implements [OF inv, of g] show ?thesis
    by (auto simp: agrees_def implements_def split: option.splits)
next
  case (OpSetCode a co)
  with SetCode_implements [OF inv, of a co] show ?thesis by (simp add: agrees_implements)
next
  case (OpSetTransientState a k v)
  with agrees_implements [OF SetTransientState_implements [OF inv, of a k v]] show ?thesis by simp
next
  case (OpAddLog l)
  with AddLogSu_implements [OF inv, of l] show ?thesis
    by (simp add: ret_def agrees_def implements_def)
next
  case (OpAddSlot a k)
  from AddSlotToAccessList_implements [OF inv, of a k] show ?thesis
    by (auto simp: OpAddSlot agrees_def implements_def)
next
  case (OpExist a)
  obtain r s1 where get: "getStateObject s a = (r, s1)" by fastforce
  from getStateObject_step [OF inv get] show ?thesis
    by (auto simp: OpExist Exist_def get ret_def agrees_def)
next
  case (OpEmpty a)
  show ?thesis unfolding OpEmpty exec_op.simps Empty_def spec_op.simps
    by (rule agrees_read [where f = "\<lambda>s ob. (empty_object (db s) ob, s)", OF inv])
      (simp add: empty_object_def sdb_inv_def)
next
  case (OpGetBalance a)
  show ?thesis unfolding OpGetBalance exec_op.simps GetBalance_def spec_op.simps
    by (rule agrees_field [OF inv]) simp
next
  case (OpGetNonce a)
  show ?thesis unfolding OpGetNonce exec_op.simps GetNonce_def spec_op.simps
    by (rule agrees_field [OF inv]) simp
next
  case (OpGetCodeHash a)
  show ?thesis unfolding OpGetCodeHash exec_op.simps GetCodeHash_def spec_op.simps
    by (rule agrees_field [OF inv]) simp
next
  case (OpHasSelfDestructed a)
  show ?thesis unfolding OpHasSelfDestructed exec_op.simps HasSelfDestructed_def spec_op.simps
    by (rule agrees_field [OF inv]) simp
next
  case (OpGetCode a)
  show ?thesis unfolding OpGetCode exec_op.simps GetCode_def spec_op.simps
    by (rule agrees_read [OF inv]) (metis obj_Code_world(1,2,3) prod.collapse sdb_inv_def)
next
  case (OpGetState a k)
  show ?thesis unfolding OpGetState exec_op.simps GetState_def spec_op.simps
    by (rule agrees_read [OF inv]) (metis obj_GetState_world(1,2,3) prod.collapse sdb_inv_def)
next
  case (OpGetCommittedState a k)
  have "fst (obj_GetCommittedState s1 ob k) =
      av_committed (view_object (db s1) (snap s1) (stateObjectsDestruct s1 a \<noteq> None) ob) k \<and>
      same_world s1 (snd (obj_GetCommittedState s1 ob k)) \<and> sdb_ok (snd (obj_GetCommittedState s1 ob k))"
    if "stateObjects s1 a = Some ob" "sdb_inv s1" "db s1 = db s" for s1 ob
  proof -
    from that(2) have ok: "sdb_ok s1" by (simp add: sdb_inv_def)
    obtain v s2 where g: "obj_GetCommittedState s1 ob k = (v, s2)" by fastforce
    from obj_GetCommittedState_world [OF ok that(1) g] g show ?thesis by (simp add: view_object_def)
  qed
  then show ?thesis unfolding OpGetCommittedState exec_op.simps GetCommittedState_def spec_op.simps
    by (rule agrees_read [OF inv])
next
  case (OpSlotInAccessList a k)
  with inv show ?thesis
    by (auto simp: SlotInAccessList_def agrees_def step_refl split: option.splits)
qed (use inv in \<open>simp_all add: agrees_implements implements_refl GetRefund_def GetTransientState_def
       AddressInAccessList_def CreateAccount_implements AddBalance_implements SubBalance_implements
       SetBalance_implements SetNonce_implements SetState_implements SelfDestruct_implements
       Selfdestruct6780_implements AddRefund_implements AddPreimage_implements
       SetTransientState_implements AddAddressToAccessList_implements\<close>)

section \<open>Snapshots\<close>

lemma sort_search_stop: "\<not> i < j \<Longrightarrow> sort_search f i j = i"
  by (subst sort_search.simps) simp

lemma sort_search_bounds: "i \<le> j \<Longrightarrow> i \<le> sort_search f i j \<and> sort_search f i j \<le> j"
proof (induction f i j rule: sort_search.induct)
  case (1 f i j)
  show ?case
  proof (cases "i < j")
    case True
    let ?h = "(i + j) div 2"
    from True have "i \<le> ?h" "?h < j" by auto
    with 1 True show ?thesis
      by (subst (1 2) sort_search.simps) (fastforce simp: Let_def)
  qed (use "1.prems" in \<open>simp add: sort_search_stop\<close>)
qed

text \<open>On a monotone test \<open>sort.Search\<close> finds the boundary.\<close>

lemma sort_search_finds:
  assumes "\<And>x y. x \<le> y \<Longrightarrow> y < j \<Longrightarrow> f x \<Longrightarrow> f y" "i \<le> j"
  shows "(\<forall>k. i \<le> k \<and> k < sort_search f i j \<longrightarrow> \<not> f k) \<and> (sort_search f i j < j \<longrightarrow> f (sort_search f i j))"
  using assms
proof (induction f i j rule: sort_search.induct)
  case (1 f i j)
  show ?case
  proof (cases "i < j")
    case True
    let ?h = "(i + j) div 2"
    have h: "i \<le> ?h" "?h < j" using True by auto
    show ?thesis
    proof (cases "f ?h")
      case yes: True
      have eq: "sort_search f i j = sort_search f i ?h"
        using True yes by (subst sort_search.simps) (simp add: Let_def)
      have IH: "(\<forall>k. i \<le> k \<and> k < sort_search f i ?h \<longrightarrow> \<not> f k) \<and>
          (sort_search f i ?h < ?h \<longrightarrow> f (sort_search f i ?h))"
        using "1.IH"(2) [OF True refl] yes "1.prems" h by auto
      moreover have "sort_search f i ?h \<le> ?h" using sort_search_bounds [OF h(1)] by simp
      ultimately show ?thesis using eq yes by (metis le_neq_implies_less)
    next
      case no: False
      have eq: "sort_search f i j = sort_search f (?h + 1) j"
        using True no by (subst sort_search.simps) (simp add: Let_def)
      have IH: "(\<forall>k. ?h + 1 \<le> k \<and> k < sort_search f (?h + 1) j \<longrightarrow> \<not> f k) \<and>
          (sort_search f (?h + 1) j < j \<longrightarrow> f (sort_search f (?h + 1) j))"
        using "1.IH"(1) [OF True refl] no "1.prems" h by auto
      moreover have "\<not> f k" if "k \<le> ?h" for k using no "1.prems"(1) that h(2) by blast
      ultimately show ?thesis unfolding eq by (metis Suc_eq_plus1 not_less_eq_eq)
    qed
  qed (use "1.prems" in \<open>auto simp: sort_search_stop\<close>)
qed

text \<open>The revision list: ids strictly increasing, below the next id.\<close>

definition revs_ok :: "statedb \<Rightarrow> bool" where
  "revs_ok s \<longleftrightarrow> sorted_wrt (<) (map rev_id (validRevisions s)) \<and>
     (\<forall>r \<in> set (validRevisions s). rev_id r < nextRevisionId s)"

lemma search_revision:
  fixes vr :: "revision list" and revid :: int
  assumes sorted: "sorted_wrt (<) (map rev_id vr)"
  defines "i \<equiv> sort_search (\<lambda>i. rev_id (vr ! i) \<ge> revid) 0 (length vr)"
  shows "i \<le> length vr"
    "k < length vr \<Longrightarrow> rev_id (vr ! k) = revid \<Longrightarrow> i = k"
proof -
  let ?f = "\<lambda>i. rev_id (vr ! i) \<ge> revid"
  have less: "rev_id (vr ! x) < rev_id (vr ! y)" if "x < y" "y < length vr" for x y
    using sorted that by (auto simp: sorted_wrt_iff_nth_less)
  have mono: "?f y" if "x \<le> y" "y < length vr" "?f x" for x y
    using less [of x y] that by (cases "x = y") auto
  have "(\<forall>k. 0 \<le> k \<and> k < i \<longrightarrow> \<not> ?f k) \<and> (i < length vr \<longrightarrow> ?f i)"
    unfolding i_def by (rule sort_search_finds) (use mono in blast)+
  moreover show b: "i \<le> length vr"
    unfolding i_def by (rule sort_search_bounds [THEN conjunct2]) simp
  ultimately show "i = k" if "k < length vr" "rev_id (vr ! k) = revid"
    using that less [of i k] by (metis le0 linorder_cases not_le order_refl order_less_trans)
qed

section \<open>Commands with snapshots\<close>

datatype sdb_cmd = Do sdb_op | TakeSnapshot | RevertTo int

fun exec_cmd :: "sdb_cmd \<Rightarrow> statedb \<Rightarrow> (sdb_val \<times> statedb) option" where
  "exec_cmd (Do c) s = exec_op c s"
| "exec_cmd TakeSnapshot s = ret VInt (Snapshot s)"
| "exec_cmd (RevertTo i) s = map_option (Pair VUnit) (RevertToSnapshot s i)"

record spec_state =
  ss_world :: world
  ss_saved :: "(int \<times> world) list"
  ss_next :: int

fun spec_cmd :: "sdb_cmd \<Rightarrow> spec_state \<Rightarrow> (sdb_val \<times> spec_state) option" where
  "spec_cmd (Do c) t = map_option (\<lambda>(v, w). (v, t\<lparr>ss_world := w\<rparr>)) (spec_op c (ss_world t))"
| "spec_cmd TakeSnapshot t =
     Some (VInt (ss_next t), t\<lparr>ss_saved := ss_saved t @ [(ss_next t, ss_world t)], ss_next := ss_next t + 1\<rparr>)"
| "spec_cmd (RevertTo i) t =
     map_option (\<lambda>w. (VUnit, t\<lparr>ss_world := w, ss_saved := takeWhile (\<lambda>p. fst p \<noteq> i) (ss_saved t)\<rparr>))
       (map_of (ss_saved t) i)"

fun run_cmds :: "('c \<Rightarrow> 's \<Rightarrow> ('v \<times> 's) option) \<Rightarrow> 'c list \<Rightarrow> 's \<Rightarrow> ('v list \<times> 's) option" where
  "run_cmds f [] s = Some ([], s)"
| "run_cmds f (c # cs) s = do {
     (v, s1) \<leftarrow> f c s;
     (vs, s2) \<leftarrow> run_cmds f cs s1;
     Some (v # vs, s2) }"

definition sdb_sim :: "statedb \<Rightarrow> spec_state \<Rightarrow> bool" where
  "sdb_sim s t \<longleftrightarrow> sdb_inv s \<and> revs_ok s \<and> world_of s = ss_world t \<and> nextRevisionId s = ss_next t \<and>
     map rev_id (validRevisions s) = map fst (ss_saved t) \<and>
     sdb.marks_ok s (zip (map journalIndex (validRevisions s)) (map snd (ss_saved t)))"

lemma world_of_control [simp]:
  "world_of (s\<lparr>validRevisions := vr\<rparr>) = world_of s"
  "world_of (s\<lparr>nextRevisionId := n\<rparr>) = world_of s"
  by (rule world_of_eqI; simp)+

lemma sim_op:
  assumes sim: "sdb_sim s t"
  shows "case exec_op c s of
      None \<Rightarrow> spec_cmd (Do c) t = None
    | Some (v, s') \<Rightarrow> \<exists>t'. spec_cmd (Do c) t = Some (v, t') \<and> sdb_sim s' t'"
proof -
  from sim have inv: "sdb_inv s" and w: "ss_world t = world_of s" by (auto simp: sdb_sim_def)
  have keep: "sdb_sim s' (t\<lparr>ss_world := world_of s'\<rparr>)" if st: "step s s'" for s'
  proof -
    have ctl: "validRevisions s' = validRevisions s" "nextRevisionId s' = nextRevisionId s"
      using st by (auto simp: step_def same_control_def)
    have "sdb.ext s s'" using st by (simp add: step_def)
    from sdb.marks_ext [OF this] sim step_inv [OF st] ctl show ?thesis
      by (auto simp: sdb_sim_def revs_ok_def)
  qed
  from exec_op_agrees [OF inv, of c] keep show ?thesis
    by (auto simp: agrees_def w split: option.splits)
qed

lemma sim_snapshot:
  assumes sim: "sdb_sim s t"
  shows "\<exists>t'. spec_cmd TakeSnapshot t = Some (VInt (fst (Snapshot s)), t') \<and> sdb_sim (snd (Snapshot s)) t'"
proof -
  let ?s = "snd (Snapshot s)"
  let ?t = "t\<lparr>ss_saved := ss_saved t @ [(ss_next t, ss_world t)], ss_next := ss_next t + 1\<rparr>"
  have w: "world_of ?s = world_of s" by (rule world_of_eqI) (simp_all add: Snapshot_def)
  have inv: "sdb_inv ?s" using sim by (simp add: sdb_sim_def sdb_inv_def sdb_ok_def Snapshot_def)
  have len: "length (validRevisions s) = length (ss_saved t)"
    using sim by (auto simp: sdb_sim_def dest: map_eq_imp_length_eq)
  have same: "sdb.ext s ?s"
    by (rule sdb.ext_same [OF inv w]) (simp add: Snapshot_def journal_log_def)
  have "sdb.marks_ok s (zip (map journalIndex (validRevisions s)) (map snd (ss_saved t)) @
      [(length (journal_log s), world_of s)])"
    using sim by (intro sdb.marks_snapshot) (simp_all add: sdb_sim_def)
  have "\<forall>r \<in> set (validRevisions s). rev_id r < ss_next t"
    using sim unfolding sdb_sim_def revs_ok_def by metis
  then have "\<forall>x \<in> set (map rev_id (validRevisions s)). x < ss_next t" by simp
  then have lt: "\<forall>x \<in> set (map fst (ss_saved t)). x < ss_next t"
    using sim unfolding sdb_sim_def by metis
  from sdb.marks_ext [OF same \<open>sdb.marks_ok s _\<close>] inv w sim len lt
  have "sdb_sim ?s ?t"
    by (auto simp: sdb_sim_def revs_ok_def Snapshot_def journal_log_def journal_length_def sorted_wrt_append)
  moreover have "fst (Snapshot s) = ss_next t" using sim by (simp add: Snapshot_def sdb_sim_def)
  ultimately show ?thesis by simp
qed

lemma map_of_split:
  "map_of xs k = Some v \<Longrightarrow> \<exists>ys zs. xs = ys @ (k, v) # zs \<and> takeWhile (\<lambda>p. fst p \<noteq> k) xs = ys"
proof (induction xs)
  case (Cons x xs)
  show ?case
  proof (cases "fst x = k")
    case True
    with Cons.prems show ?thesis by (intro exI [of _ "[]"] exI [of _ xs]) (cases x, auto)
  next
    case False
    with Cons obtain ys zs where "xs = ys @ (k, v) # zs" "takeWhile (\<lambda>p. fst p \<noteq> k) xs = ys"
      by (cases x) auto
    with False show ?thesis by (intro exI [of _ "x # ys"] exI [of _ zs]) simp
  qed
qed simp

lemma sim_revert:
  assumes sim: "sdb_sim s t"
  shows "case RevertToSnapshot s i of
      None \<Rightarrow> spec_cmd (RevertTo i) t = None
    | Some s' \<Rightarrow> \<exists>t'. spec_cmd (RevertTo i) t = Some (VUnit, t') \<and> sdb_sim s' t'"
proof -
  let ?vr = "validRevisions s"
  let ?k = "sort_search (\<lambda>k. rev_id (?vr ! k) \<ge> i) 0 (length ?vr)"
  from sim have ids: "map rev_id ?vr = map fst (ss_saved t)" and so: "sorted_wrt (<) (map rev_id ?vr)"
    and marks: "sdb.marks_ok s (zip (map journalIndex ?vr) (map snd (ss_saved t)))" and inv: "sdb_inv s"
    by (auto simp: sdb_sim_def revs_ok_def)
  have len: "length ?vr = length (ss_saved t)" using ids by (auto dest: map_eq_imp_length_eq)
  note search = search_revision [OF so, where revid = i]
  show ?thesis
  proof (cases "map_of (ss_saved t) i")
    case None
    then have "i \<notin> set (map fst (ss_saved t))" by (simp add: map_of_eq_None_iff)
    then have "i \<notin> rev_id ` set ?vr" using arg_cong [where f = set, OF ids] by simp
    then have "\<not> (?k \<noteq> length ?vr \<and> rev_id (?vr ! ?k) = i)" using search(1)
      by (metis imageI le_neq_implies_less nth_mem)
    then have "RevertToSnapshot s i = None" by (auto simp: RevertToSnapshot_def Let_def require_def)
    with None show ?thesis by simp
  next
    case (Some w)
    from map_of_split [OF this] obtain ys zs where st: "ss_saved t = ys @ (i, w) # zs"
      and tw: "takeWhile (\<lambda>p. fst p \<noteq> i) (ss_saved t) = ys" by blast
    let ?n = "length ys"
    have n: "?n < length ?vr" "rev_id (?vr ! ?n) = i"
      using len st ids by (simp, metis add.right_neutral fst_conv length_map nth_append_length nth_map
          length_append list.size(4) less_add_Suc1 add_Suc_right)
    then have k: "?k = ?n" using search(2) by blast
    have split: "?vr = take ?n ?vr @ ?vr ! ?n # drop (Suc ?n) ?vr" using n(1) by (simp add: id_take_nth_drop)
    have "zip (map journalIndex ?vr) (map snd (ss_saved t)) =
        zip (map journalIndex (take ?n ?vr)) (map snd ys) @ (journalIndex (?vr ! ?n), w) #
        zip (map journalIndex (drop (Suc ?n) ?vr)) (map snd zs)"
      using n(1) by (subst split) (simp add: st zip_append)
    note marks' = marks [unfolded this]
    then have "journalIndex (?vr ! ?n) \<le> length (journal_log s)"
      "undo_all wundo (rev (drop (journalIndex (?vr ! ?n)) (journal_log s))) (world_of s) = Some w"
      "al_wf (w_accessList w)"
      by (auto simp: sdb.marks_ok_def)
    from journal_revert_world [OF inv this] obtain s1 where s1: "journal_revert s (journalIndex (?vr ! ?n)) = Some s1"
      "world_of s1 = w" "journal_log s1 = take (journalIndex (?vr ! ?n)) (journal_log s)" "sdb_inv s1" "same_control s s1"
      by blast
    let ?s = "s1\<lparr>validRevisions := take ?n ?vr\<rparr>"
    have ctl: "validRevisions s1 = ?vr" "nextRevisionId s1 = nextRevisionId s"
      using s1(5) by (auto simp: same_control_def)
    have "RevertToSnapshot s i = Some ?s"
      using k n s1 ctl by (simp add: RevertToSnapshot_def Let_def)
    moreover have "sdb_sim ?s (t\<lparr>ss_world := w, ss_saved := ys\<rparr>)"
    proof -
      have inv': "sdb_inv ?s" using s1(4) by (simp add: sdb_inv_def sdb_ok_def)
      have len': "length (take ?n ?vr) = length ys" using n(1) by simp
      have "sdb.marks_ok ?s (zip (map journalIndex (take ?n ?vr)) (map snd ys))"
        by (rule sdb.marks_rollback [OF inv marks']) (use s1 in \<open>simp_all add: journal_log_def\<close>)
      moreover have "map rev_id (take ?n ?vr) = map fst ys"
        using arg_cong [where f = "take ?n", OF ids] by (simp add: take_map st)
      moreover have "sorted_wrt (<) (map rev_id (take ?n ?vr))"
        using so by (simp add: take_map [symmetric] sorted_wrt_take)
      ultimately show ?thesis
        using inv' s1(2) ctl sim by (auto simp: sdb_sim_def revs_ok_def dest: in_set_takeD)
    qed
    ultimately show ?thesis using Some tw by auto
  qed
qed

theorem sdb_simulates:
  assumes sim: "sdb_sim s t"
  shows "case exec_cmd c s of
      None \<Rightarrow> spec_cmd c t = None
    | Some (v, s') \<Rightarrow> \<exists>t'. spec_cmd c t = Some (v, t') \<and> sdb_sim s' t'"
proof (cases c)
  case (Do x)
  show ?thesis unfolding Do exec_cmd.simps by (rule sim_op [OF sim])
next
  case TakeSnapshot
  from sim_snapshot [OF sim] show ?thesis unfolding TakeSnapshot exec_cmd.simps ret_def option.case prod.case .
next
  case (RevertTo i)
  with sim_revert [OF sim, of i] show ?thesis by (simp split: option.splits)
qed

lemma sim_run:
  "sdb_sim s t \<Longrightarrow>
   (case run_cmds exec_cmd cs s of
      None \<Rightarrow> run_cmds spec_cmd cs t = None
    | Some (vs, s') \<Rightarrow> \<exists>t'. run_cmds spec_cmd cs t = Some (vs, t') \<and> sdb_sim s' t')"
proof (induction cs arbitrary: s t)
  case (Cons c cs)
  show ?case
  proof (cases "exec_cmd c s")
    case None
    with sdb_simulates [OF Cons.prems, of c] show ?thesis by simp
  next
    case (Some p)
    obtain v s1 where p: "p = (v, s1)" by fastforce
    with sdb_simulates [OF Cons.prems, of c] Some
    obtain t1 where t1: "spec_cmd c t = Some (v, t1)" "sdb_sim s1 t1" by auto
    from Cons.IH [OF t1(2)] Some t1 p show ?thesis by (auto split: option.splits)
  qed
qed simp

definition spec_init :: "statedb \<Rightarrow> spec_state" where
  "spec_init s = \<lparr>ss_world = world_of s, ss_saved = [], ss_next = nextRevisionId s\<rparr>"

lemma sim_init: "sdb_inv s \<Longrightarrow> validRevisions s = [] \<Longrightarrow> sdb_sim s (spec_init s)"
  by (simp add: sdb_sim_def spec_init_def revs_ok_def sdb.marks_ok_def)

end
