(* ===== verification/StateDB_Nested.thy ===== *)
theory StateDB_Nested
  imports StateDB_Spec
begin

text \<open>
  The state database under nested snapshots, as the calls of the EVM use it: a callee may take
  snapshots that are never discarded and go back to some of them, and its caller can still go back to
  its own.  \<open>grows\<close> is what any such use leaves, and it is closed under every operation.
\<close>

section \<open>The relation\<close>

definition sound_db :: "statedb \<Rightarrow> bool" where
  "sound_db s \<longleftrightarrow> sdb_inv s \<and> revs_ok s"

definition grows :: "statedb \<Rightarrow> statedb \<Rightarrow> bool" where
  "grows s s' \<longleftrightarrow> sound_db s' \<and> sdb.ext s s' \<and> db s' = db s \<and> nextRevisionId s \<le> nextRevisionId s' \<and>
     (\<exists>rs. validRevisions s' = validRevisions s @ rs \<and> (\<forall>r \<in> set rs. nextRevisionId s \<le> rev_id r))"

text \<open>A use that only reads: the world is the same, and nothing is journalled.\<close>

definition peeks :: "statedb \<Rightarrow> statedb \<Rightarrow> bool" where
  "peeks s s' \<longleftrightarrow> step s s' \<and> world_of s' = world_of s"

lemma grows_sound: "grows s s' \<Longrightarrow> sound_db s'"
  by (simp add: grows_def)

lemma grows_inv: "grows s s' \<Longrightarrow> sdb_inv s'"
  by (simp add: grows_def sound_db_def)

lemma grows_db: "grows s s' \<Longrightarrow> db s' = db s"
  by (simp add: grows_def)

lemma grows_refl: "sound_db s \<Longrightarrow> grows s s"
  by (simp add: grows_def sound_db_def sdb.ext_refl)

lemma grows_trans: "grows s t \<Longrightarrow> grows t u \<Longrightarrow> grows s u"
  unfolding grows_def using sdb.ext_trans by fastforce

lemma step_grows: "sound_db s \<Longrightarrow> step s s' \<Longrightarrow> grows s s'"
  by (auto simp: grows_def sound_db_def step_def same_control_def revs_ok_def intro: sdb.ext_inv)

lemma grows_step: "grows s t \<Longrightarrow> step t u \<Longrightarrow> grows s u"
  using grows_trans step_grows grows_sound by blast

lemma peeks_grows: "sound_db s \<Longrightarrow> peeks s s' \<Longrightarrow> grows s s'"
  by (simp add: peeks_def step_grows)

lemma peeks_refl: "sdb_inv s \<Longrightarrow> peeks s s"
  by (simp add: peeks_def step_refl)

lemma peeks_trans: "peeks s t \<Longrightarrow> peeks t u \<Longrightarrow> peeks s u"
  unfolding peeks_def using step_trans by auto

section \<open>Operations\<close>

named_theorems db_ops "operations of the StateDB keep \<open>grows\<close>"

lemma grows_implements: "grows s t \<Longrightarrow> implements t u w \<Longrightarrow> grows s u"
  unfolding implements_def using grows_step by blast

lemma grows_exec:
  assumes "grows s t" "exec_op c t = Some (v, u)"
  shows "grows s u"
  using exec_op_agrees [OF grows_inv [OF assms(1)], of c] assms by (auto simp: agrees_def intro: grows_step)

lemma grows_writes [db_ops]:
  "grows s t \<Longrightarrow> grows s (CreateAccount t a)"
  "grows s t \<Longrightarrow> grows s (AddBalance t a n)"
  "grows s t \<Longrightarrow> grows s (SubBalance t a n)"
  "grows s t \<Longrightarrow> grows s (SetBalance t a n)"
  "grows s t \<Longrightarrow> grows s (SetNonce t a m)"
  "grows s t \<Longrightarrow> grows s (SetCode t a c)"
  "grows s t \<Longrightarrow> grows s (SetState t a k v)"
  "grows s t \<Longrightarrow> grows s (SelfDestruct t a)"
  "grows s t \<Longrightarrow> grows s (Selfdestruct6780 t a)"
  "grows s t \<Longrightarrow> grows s (AddRefund t g)"
  "grows s t \<Longrightarrow> grows s (AddPreimage t h b)"
  "grows s t \<Longrightarrow> grows s (SetTransientState t a k v)"
  "grows s t \<Longrightarrow> grows s (AddAddressToAccessList t a)"
  subgoal by (rule grows_exec [of s t "OpCreateAccount a"]) simp_all
  subgoal by (rule grows_exec [of s t "OpAddBalance a n"]) simp_all
  subgoal by (rule grows_exec [of s t "OpSubBalance a n"]) simp_all
  subgoal by (rule grows_exec [of s t "OpSetBalance a n"]) simp_all
  subgoal by (rule grows_exec [of s t "OpSetNonce a m"]) simp_all
  subgoal by (rule grows_exec [of s t "OpSetCode a c"]) simp_all
  subgoal by (rule grows_exec [of s t "OpSetState a k v"]) simp_all
  subgoal by (rule grows_exec [of s t "OpSelfDestruct a"]) simp_all
  subgoal by (rule grows_exec [of s t "OpSelfdestruct6780 a"]) simp_all
  subgoal by (rule grows_exec [of s t "OpAddRefund g"]) simp_all
  subgoal by (rule grows_exec [of s t "OpAddPreimage h b"]) simp_all
  subgoal by (rule grows_exec [of s t "OpSetTransientState a k v"]) simp_all
  subgoal by (rule grows_exec [of s t "OpAddAddress a"]) simp_all
  done

lemma grows_AddLog [db_ops]: "grows s t \<Longrightarrow> grows s (AddLog t l)"
  by (rule grows_exec [of s t "OpAddLog l"]) (simp_all add: ret_def AddLog_eq)

lemma grows_checked [db_ops]:
  "SubRefund t g = Some u \<Longrightarrow> grows s t \<Longrightarrow> grows s u"
  "AddSlotToAccessList t a k = Some u \<Longrightarrow> grows s t \<Longrightarrow> grows s u"
  subgoal by (rule grows_exec [of s t "OpSubRefund g"]) simp_all
  subgoal by (rule grows_exec [of s t "OpAddSlot a k"]) simp_all
  done

text \<open>Reads.\<close>

lemma exec_peeks:
  assumes "sdb_inv t" "exec_op c t = Some (v, u)" "\<And>v' w'. spec_op c (world_of t) = Some (v', w') \<Longrightarrow> w' = world_of t"
  shows "peeks t u"
  using exec_op_agrees [OF assms(1), of c] assms by (auto simp: agrees_def peeks_def)

lemma GetCodeSize_peeks:
  assumes inv: "sdb_inv t"
  shows "peeks t (snd (GetCodeSize t a))"
proof -
  obtain r s1 where get: "getStateObject t a = (r, s1)" by fastforce
  note w = getStateObject_step [OF inv get]
  have p: "peeks t s1" using w(1,2) by (simp add: peeks_def)
  have inv1: "sdb_inv s1" by (rule step_inv [OF w(1)])
  then have "sdb_ok (setError s1 x)" for x by (simp add: sdb_inv_def sdb_ok_def setError_def)
  then have "peeks s1 (setError s1 x)" for x
    unfolding peeks_def using step_same [OF same_world_setError inv1] same_world_of [OF same_world_setError] by blast
  with peeks_refl [OF inv1] have "peeks s1 (snd (obj_CodeSize s1 ob))" for ob
    by (simp add: obj_CodeSize_def split: option.split sum.split)
  with p show ?thesis
    using peeks_trans by (auto simp: GetCodeSize_def get split: option.split)
qed

lemma reads_peek [db_ops]:
  "sdb_inv t \<Longrightarrow> Exist t a = (b, u) \<Longrightarrow> peeks t u"
  "sdb_inv t \<Longrightarrow> Empty t a = (b, u) \<Longrightarrow> peeks t u"
  "sdb_inv t \<Longrightarrow> GetBalance t a = (n, u) \<Longrightarrow> peeks t u"
  "sdb_inv t \<Longrightarrow> GetNonce t a = (m, u) \<Longrightarrow> peeks t u"
  "sdb_inv t \<Longrightarrow> GetCodeHash t a = (h, u) \<Longrightarrow> peeks t u"
  "sdb_inv t \<Longrightarrow> GetCode t a = (c, u) \<Longrightarrow> peeks t u"
  "sdb_inv t \<Longrightarrow> GetState t a k = (h, u) \<Longrightarrow> peeks t u"
  "sdb_inv t \<Longrightarrow> GetCommittedState t a k = (h, u) \<Longrightarrow> peeks t u"
  "sdb_inv t \<Longrightarrow> HasSelfDestructed t a = (b, u) \<Longrightarrow> peeks t u"
  subgoal by (rule exec_peeks [of t "OpExist a"]) (simp_all add: ret_def)
  subgoal by (rule exec_peeks [of t "OpEmpty a"]) (simp_all add: ret_def)
  subgoal by (rule exec_peeks [of t "OpGetBalance a"]) (simp_all add: ret_def)
  subgoal by (rule exec_peeks [of t "OpGetNonce a"]) (simp_all add: ret_def)
  subgoal by (rule exec_peeks [of t "OpGetCodeHash a"]) (simp_all add: ret_def)
  subgoal by (rule exec_peeks [of t "OpGetCode a"]) (simp_all add: ret_def)
  subgoal by (rule exec_peeks [of t "OpGetState a k"]) (simp_all add: ret_def)
  subgoal by (rule exec_peeks [of t "OpGetCommittedState a k"]) (simp_all add: ret_def)
  subgoal by (rule exec_peeks [of t "OpHasSelfDestructed a"]) (simp_all add: ret_def)
  done

lemma GetCodeSize_peek [db_ops]: "sdb_inv t \<Longrightarrow> GetCodeSize t a = (n, u) \<Longrightarrow> peeks t u"
  using GetCodeSize_peeks [of t a] by simp

lemma grows_peeks: "grows s t \<Longrightarrow> (sdb_inv t \<Longrightarrow> peeks t u) \<Longrightarrow> grows s u"
  using grows_inv grows_step by (auto simp: peeks_def)

lemma grows_snd [db_ops]:
  "grows s t \<Longrightarrow> grows s (snd (Exist t a))"
  "grows s t \<Longrightarrow> grows s (snd (Empty t a))"
  "grows s t \<Longrightarrow> grows s (snd (GetBalance t a))"
  "grows s t \<Longrightarrow> grows s (snd (GetNonce t a))"
  "grows s t \<Longrightarrow> grows s (snd (GetCodeHash t a))"
  "grows s t \<Longrightarrow> grows s (snd (GetCode t a))"
  "grows s t \<Longrightarrow> grows s (snd (GetState t a k))"
  "grows s t \<Longrightarrow> grows s (snd (GetCommittedState t a k))"
  "grows s t \<Longrightarrow> grows s (snd (HasSelfDestructed t a))"
  "grows s t \<Longrightarrow> grows s (snd (GetCodeSize t a))"
  subgoal by (erule grows_peeks) (rule reads_peek(1) [OF _ prod.collapse [symmetric]])
  subgoal by (erule grows_peeks) (rule reads_peek(2) [OF _ prod.collapse [symmetric]])
  subgoal by (erule grows_peeks) (rule reads_peek(3) [OF _ prod.collapse [symmetric]])
  subgoal by (erule grows_peeks) (rule reads_peek(4) [OF _ prod.collapse [symmetric]])
  subgoal by (erule grows_peeks) (rule reads_peek(5) [OF _ prod.collapse [symmetric]])
  subgoal by (erule grows_peeks) (rule reads_peek(6) [OF _ prod.collapse [symmetric]])
  subgoal by (erule grows_peeks) (rule reads_peek(7) [OF _ prod.collapse [symmetric]])
  subgoal by (erule grows_peeks) (rule reads_peek(8) [OF _ prod.collapse [symmetric]])
  subgoal by (erule grows_peeks) (rule reads_peek(9) [OF _ prod.collapse [symmetric]])
  subgoal by (erule grows_peeks) (rule GetCodeSize_peek [OF _ prod.collapse [symmetric]])
  done

lemma grows_reads [db_ops]:
  "Exist t a = (x0, u) \<Longrightarrow> grows s t \<Longrightarrow> grows s u"
  "Empty t a = (x1, u) \<Longrightarrow> grows s t \<Longrightarrow> grows s u"
  "GetBalance t a = (x2, u) \<Longrightarrow> grows s t \<Longrightarrow> grows s u"
  "GetNonce t a = (x3, u) \<Longrightarrow> grows s t \<Longrightarrow> grows s u"
  "GetCodeHash t a = (x4, u) \<Longrightarrow> grows s t \<Longrightarrow> grows s u"
  "GetCode t a = (x5, u) \<Longrightarrow> grows s t \<Longrightarrow> grows s u"
  "GetState t a k = (x6, u) \<Longrightarrow> grows s t \<Longrightarrow> grows s u"
  "GetCommittedState t a k = (x7, u) \<Longrightarrow> grows s t \<Longrightarrow> grows s u"
  "HasSelfDestructed t a = (x8, u) \<Longrightarrow> grows s t \<Longrightarrow> grows s u"
  "GetCodeSize t a = (x9, u) \<Longrightarrow> grows s t \<Longrightarrow> grows s u"
  subgoal using grows_snd(1) [of s t a] by simp
  subgoal using grows_snd(2) [of s t a] by simp
  subgoal using grows_snd(3) [of s t a] by simp
  subgoal using grows_snd(4) [of s t a] by simp
  subgoal using grows_snd(5) [of s t a] by simp
  subgoal using grows_snd(6) [of s t a] by simp
  subgoal using grows_snd(7) [of s t a k] by simp
  subgoal using grows_snd(8) [of s t a k] by simp
  subgoal using grows_snd(9) [of s t a] by simp
  subgoal using grows_snd(10) [of s t a] by simp
  done

text \<open>The tracer's account state is not part of the world.\<close>

lemma world_of_more [simp]:
  "world_of (s\<lparr>accountState := st\<rparr>) = world_of s"
  "world_of (s\<lparr>nextRevisionId := n, validRevisions := vr\<rparr>) = world_of s"
  by (rule world_of_eqI; simp)+

lemma grows_SetAccountState [db_ops]:
  assumes "grows s t"
  shows "grows s (SetAccountState t st)"
proof -
  have "sdb_inv (SetAccountState t st)"
    using grows_inv [OF assms] by (simp add: SetAccountState_def sdb_inv_def sdb_ok_def)
  then show ?thesis
    using assms by (auto simp: grows_def sdb.ext_def sound_db_def revs_ok_def SetAccountState_def journal_log_def)
qed

section \<open>Snapshots\<close>

lemma Snapshot_grows [db_ops]:
  assumes "Snapshot t = (i, u)" "grows s t"
  shows "grows s u"
proof -
  from assms(1) have u: "i = nextRevisionId t" "u = t\<lparr>nextRevisionId := i + 1, validRevisions := validRevisions t @
      [\<lparr>rev_id = i, journalIndex = journal_length (sdb_journal t)\<rparr>]\<rparr>"
    by (auto simp: Snapshot_def)
  have "world_of u = world_of t" unfolding u(2) by (rule world_of_eqI) simp_all
  moreover have "sdb_inv u" using grows_inv [OF assms(2)] by (simp add: u sdb_inv_def sdb_ok_def)
  moreover have "revs_ok u"
    using grows_sound [OF assms(2)] by (auto simp: sound_db_def revs_ok_def u sorted_wrt_append)
  ultimately show ?thesis
    using assms(2) by (auto simp: grows_def sdb.ext_def sound_db_def u journal_log_def)
qed

text \<open>Going back to a snapshot after any use of the database succeeds and gives back its world.\<close>

theorem RevertToSnapshot_grows:
  assumes s: "sound_db s" and snap: "Snapshot s = (i, s1)" and g: "grows s1 s2"
  shows "\<exists>s3. RevertToSnapshot s2 i = Some s3 \<and> grows s s3 \<and> world_of s3 = world_of s \<and>
    journal_log s3 = journal_log s \<and> validRevisions s3 = validRevisions s \<and>
    nextRevisionId s3 = nextRevisionId s2 \<and> accountState s3 = accountState s2"
proof -
  from snap have s1: "i = nextRevisionId s" "s1 = s\<lparr>nextRevisionId := i + 1, validRevisions := validRevisions s @
      [\<lparr>rev_id = i, journalIndex = length (journal_log s)\<rparr>]\<rparr>"
    by (auto simp: Snapshot_def journal_log_def journal_length_def)
  have w1: "world_of s1 = world_of s" unfolding s1(2) by (rule world_of_eqI) simp_all
  have j1: "journal_log s1 = journal_log s" by (simp add: s1 journal_log_def)
  from g obtain es rs where es: "journal_log s2 = journal_log s @ es" "undo_all wundo (rev es) (world_of s2) = Some (world_of s)"
    and rs: "validRevisions s2 = validRevisions s1 @ rs" and inv2: "sdb_inv s2" and revs: "revs_ok s2"
    and fields: "db s2 = db s" "nextRevisionId s < nextRevisionId s2"
    by (auto simp: grows_def sdb.ext_def sound_db_def w1 j1) (simp_all add: s1)
  have wf: "al_wf (w_accessList (world_of s))" using s by (simp add: sound_db_def sdb_inv_def)
  from journal_revert_world [OF inv2, of "length (journal_log s)" "world_of s"] es wf
  obtain s3 where s3: "journal_revert s2 (length (journal_log s)) = Some s3" "world_of s3 = world_of s"
    "journal_log s3 = journal_log s" "sdb_inv s3" "same_control s2 s3" by auto
  have so: "sorted_wrt (<) (map rev_id (validRevisions s2))" using revs by (simp add: revs_ok_def)
  have "sort_search (\<lambda>k. rev_id (validRevisions s2 ! k) \<ge> i) 0 (length (validRevisions s2)) = length (validRevisions s)"
    by (rule search_revision(2) [OF so]) (simp_all add: rs s1)
  then have r: "RevertToSnapshot s2 i = Some (s3\<lparr>validRevisions := validRevisions s\<rparr>)"
    using s3 by (simp add: RevertToSnapshot_def Let_def rs s1 same_control_def)
  let ?s = "s3\<lparr>validRevisions := validRevisions s\<rparr>"
  have w: "world_of ?s = world_of s" using s3(2) world_of_eqI [of ?s s3] by simp
  have "sdb_inv ?s" using s3(4) by (simp add: sdb_inv_def sdb_ok_def)
  moreover have "revs_ok ?s" using s fields s3(5) by (fastforce simp: sound_db_def revs_ok_def same_control_def)
  ultimately have "grows s ?s"
    using s3 fields w by (simp add: grows_def sound_db_def sdb.ext_def same_control_def journal_log_def)
  with r s3 w show ?thesis by (auto simp: journal_log_def same_control_def)
qed

end
