(* ===== verification/StateDB_Journal.thy ===== *)
theory StateDB_Journal
  imports StateDB_Nested
begin

text \<open>
  The dirty counts of the journal, and the state database under any journalled use.
  \<open>journal.append\<close> counts the entries of an address in \<open>dirties\<close> and \<open>journal.revert\<close>
  takes the counts off again, so a revert brings them back, except that \<open>touch\<close> counts the
  RIPEMD precompile once more than it journals.  \<open>sdb_use\<close> lists every way the EVM uses the
  database between two snapshots, nested snapshots and reverts included.
\<close>

section \<open>Dirty counts\<close>

definition changes_of :: "journal_entry list \<Rightarrow> address \<Rightarrow> int" where
  "changes_of es a = int (length (filter (\<lambda>e. dirtied e = Some a) es))"

text \<open>How often the account is counted dirty beyond the entries of the journal that change it.\<close>

definition excess :: "journal \<Rightarrow> address \<Rightarrow> int" where
  "excess j a = get0 (dirties j) a - changes_of (entries j) a"

definition dirties_ok :: "journal \<Rightarrow> bool" where
  "dirties_ok j \<longleftrightarrow> (\<forall>a. dirties j a \<noteq> Some 0 \<and> 0 \<le> excess j a)"

definition journal_moves :: "journal \<Rightarrow> journal \<Rightarrow> bool" where
  "journal_moves j j' \<longleftrightarrow> (dirties_ok j \<longrightarrow> dirties_ok j') \<and>
     (\<forall>a. a \<noteq> ripemd \<longrightarrow> excess j' a = excess j a) \<and> excess j ripemd \<le> excess j' ripemd"

lemma changes_of_simps [simp]:
  "changes_of [] a = 0"
  "changes_of (es @ fs) a = changes_of es a + changes_of fs a"
  "changes_of (e # es) a = (if dirtied e = Some a then 1 else 0) + changes_of es a"
  "changes_of (rev es) a = changes_of es a"
  by (simp_all add: changes_of_def rev_filter [symmetric])

lemma changes_of_nonneg: "0 \<le> changes_of es a"
  by (simp add: changes_of_def)

lemma dirties_ok_newJournal [simp]: "dirties_ok newJournal"
  by (simp add: dirties_ok_def newJournal_def excess_def get0_def)

lemma journal_moves_refl [simp]: "journal_moves j j"
  by (simp add: journal_moves_def)

lemma journal_moves_trans: "journal_moves j k \<Longrightarrow> journal_moves k l \<Longrightarrow> journal_moves j l"
  by (auto simp: journal_moves_def)

lemma get0_upd [simp]: "get0 (m(a \<mapsto> n)) b = (if a = b then n else get0 m b)"
  by (simp add: get0_def)

lemma excess_append [simp]: "excess (journal_append j e) a = excess j a"
  by (simp add: excess_def journal_append_def journal_dirty_def Let_def split: option.split)

lemma journal_moves_append [simp]: "journal_moves j (journal_append j e)"
proof -
  have "dirties_ok (journal_append j e)" if ok: "dirties_ok j"
  proof -
    have "0 \<le> get0 (dirties j) a" for a
    proof -
      have "0 \<le> excess j a" using ok by (simp add: dirties_ok_def)
      with changes_of_nonneg [of "entries j" a] show ?thesis by (simp add: excess_def)
    qed
    then have pos: "get0 (dirties j) a + 1 \<noteq> 0" for a by (smt (verit))
    have "dirties j a \<noteq> Some 0" for a using ok by (simp add: dirties_ok_def)
    with pos have "dirties (journal_append j e) a \<noteq> Some 0" for a
      by (auto simp: journal_append_def journal_dirty_def Let_def split: option.split)
    with ok show ?thesis by (simp add: dirties_ok_def)
  qed
  then show ?thesis by (simp add: journal_moves_def)
qed

lemma journal_moves_touch: "journal_moves j (journal_dirty j ripemd)"
proof -
  have e: "excess (journal_dirty j ripemd) a = excess j a + (if a = ripemd then 1 else 0)" for a
    by (simp add: excess_def journal_dirty_def)
  moreover have "dirties (journal_dirty j ripemd) a \<noteq> Some 0" if ok: "dirties_ok j" for a
  proof (cases "a = ripemd")
    case True
    have "0 \<le> excess j ripemd" using ok by (simp add: dirties_ok_def)
    then have "0 \<le> get0 (dirties j) ripemd" using changes_of_nonneg [of "entries j" ripemd]
      by (simp add: excess_def)
    with True show ?thesis by (simp add: journal_dirty_def)
  qed (use ok in \<open>simp add: dirties_ok_def journal_dirty_def\<close>)
  ultimately show ?thesis by (simp add: journal_moves_def dirties_ok_def)
qed

text \<open>With the same entries, the same excess is the same count.\<close>

lemma journal_moves_dirties:
  assumes m: "journal_moves j j'" and ok: "dirties_ok j" and e: "entries j' = entries j"
  shows "a \<noteq> ripemd \<Longrightarrow> dirties j' a = dirties j a" "get0 (dirties j) ripemd \<le> get0 (dirties j') ripemd"
    "dirties_ok j'"
proof -
  show ok': "dirties_ok j'" using m ok by (simp add: journal_moves_def)
  show "get0 (dirties j) ripemd \<le> get0 (dirties j') ripemd"
    using m e by (simp add: journal_moves_def excess_def)
  assume "a \<noteq> ripemd"
  then have "get0 (dirties j') a = get0 (dirties j) a" using m e by (simp add: journal_moves_def excess_def)
  moreover have "dirties j a \<noteq> Some 0" "dirties j' a \<noteq> Some 0" using ok ok' by (simp_all add: dirties_ok_def)
  ultimately show "dirties j' a = dirties j a" by (auto simp: get0_def split: option.splits)
qed

subsection \<open>Reverting\<close>

lemma get0_undirty [simp]:
  "get0 (dirties (undirty j e)) a = get0 (dirties j) a - (if dirtied e = Some a then 1 else 0)"
  by (auto simp: undirty_def get0_def Let_def map_delete_def split: option.split)

lemma foldl_undirty:
  "entries (foldl undirty j es) = entries j"
  "get0 (dirties (foldl undirty j es)) a = get0 (dirties j) a - changes_of es a"
  "(\<forall>a. dirties j a \<noteq> Some 0) \<Longrightarrow> dirties (foldl undirty j es) a \<noteq> Some 0"
proof (induction es arbitrary: j)
  case (Cons e es)
  case 3
  then have "\<forall>a. dirties (undirty j e) a \<noteq> Some 0"
    by (auto simp: undirty_def Let_def map_delete_def split: option.split)
  from Cons.IH(3) [OF this] show ?case by simp
qed simp_all

lemma journal_moves_undirty:
  "journal_moves j (foldl undirty j (rev (drop n (entries j)))\<lparr>entries := take n (entries j)\<rparr>)"
proof -
  have "changes_of (entries j) a = changes_of (take n (entries j)) a + changes_of (drop n (entries j)) a" for a
    by (simp flip: changes_of_simps(2))
  then have "excess (foldl undirty j (rev (drop n (entries j)))\<lparr>entries := take n (entries j)\<rparr>) a = excess j a" for a
    by (simp add: excess_def foldl_undirty)
  then show ?thesis by (simp add: journal_moves_def dirties_ok_def foldl_undirty)
qed

lemma getDeletedStateObject_journal [simp]: "sdb_journal (snd (getDeletedStateObject s a)) = sdb_journal s"
  by (auto simp: getDeletedStateObject_def setStateObject_def setError_def Let_def split: option.split sum.split)

lemma getStateObject_journal [simp]: "sdb_journal (snd (getStateObject s a)) = sdb_journal s"
  using getDeletedStateObject_journal [of s a] by (cases "getDeletedStateObject s a") (auto simp: getStateObject_def split: option.split)

lemma getStateObject_keeps_journal: "getStateObject s a = (r, s') \<Longrightarrow> sdb_journal s' = sdb_journal s"
  using getStateObject_journal [of s a] by simp

lemma journal_frame [simp]:
  "sdb_journal (upd_obj s a f) = sdb_journal s" "sdb_journal (setStateObject s ob) = sdb_journal s"
  "sdb_journal (setError s x) = sdb_journal s" "sdb_journal (cache_origin s ob k v) = sdb_journal s"
  "sdb_journal (obj_setBalance s a n) = sdb_journal s" "sdb_journal (obj_setNonce s a m) = sdb_journal s"
  "sdb_journal (obj_setState s a k v) = sdb_journal s" "sdb_journal (obj_setCode s a h c) = sdb_journal s"
  "sdb_journal (sdb_append s e) = journal_append (sdb_journal s) e"
  by (simp_all add: upd_obj_def setStateObject_def setError_def cache_origin_def obj_setBalance_def
      obj_setNonce_def obj_setState_def obj_setCode_def sdb_append_def)

lemma with_object_journal:
  "with_object s a f = Some s' \<Longrightarrow> (\<And>s a. sdb_journal (f s a) = sdb_journal s) \<Longrightarrow> sdb_journal s' = sdb_journal s"
  by (auto simp: with_object_def dest: getStateObject_keeps_journal split: prod.splits option.splits)

lemma revert_entry_journal: "revert_entry e s = Some s' \<Longrightarrow> sdb_journal s' = sdb_journal s"
proof (cases e)
  case (ResetObjectChange a p pd pa ps pae pao pso)
  assume r: "revert_entry e s = Some s'"
  show ?thesis
    using r [unfolded ResetObjectChange revert_reset_eq option.inject, symmetric] by simp
next
  case (SelfDestructChange a prev bal)
  assume "revert_entry e s = Some s'"
  with SelfDestructChange show ?thesis
    by (auto dest!: getStateObject_keeps_journal split: prod.splits option.splits)
next
  case (AddLogChange h)
  assume "revert_entry e s = Some s'"
  with AddLogChange show ?thesis by (auto simp: Let_def require_def split: if_splits option.splits)
qed (auto dest: with_object_journal split: bind_splits)

lemma revert_loop_journal:
  "revert_loop es s = Some s' \<Longrightarrow> sdb_journal s' = foldl undirty (sdb_journal s) es"
  by (induction es arbitrary: s) (auto dest!: revert_entry_journal split: bind_splits)

lemma RevertToSnapshot_journal:
  "RevertToSnapshot s i = Some s' \<Longrightarrow> journal_moves (sdb_journal s) (sdb_journal s')"
  using journal_moves_undirty
  by (auto simp: RevertToSnapshot_def journal_revert_def Let_def require_def foldl_undirty
      dest!: revert_loop_journal split: bind_splits if_splits)
section \<open>Every operation\<close>

definition jmoves :: "statedb \<Rightarrow> statedb \<Rightarrow> bool" where
  "jmoves s s' \<longleftrightarrow> journal_moves (sdb_journal s) (sdb_journal s')"

lemma jmoves_refl [simp]: "jmoves s s"
  by (simp add: jmoves_def)

lemma jmoves_trans: "jmoves s t \<Longrightarrow> jmoves t u \<Longrightarrow> jmoves s u"
  unfolding jmoves_def by (rule journal_moves_trans)

lemma jmoves_same: "sdb_journal s' = sdb_journal s \<Longrightarrow> jmoves s s'"
  by (simp add: jmoves_def)

lemma jmoves_append: "jmoves s t \<Longrightarrow> sdb_journal u = journal_append (sdb_journal t) e \<Longrightarrow> jmoves s u"
  unfolding jmoves_def using journal_moves_trans by simp

lemma obj_reads_journal [simp]:
  "sdb_journal (snd (obj_GetCommittedState s ob k)) = sdb_journal s"
  "sdb_journal (snd (obj_GetState s ob k)) = sdb_journal s"
  "sdb_journal (snd (obj_Code s ob)) = sdb_journal s"
  "sdb_journal (snd (obj_CodeSize s ob)) = sdb_journal s"
proof -
  show c: "sdb_journal (snd (obj_GetCommittedState s ob k)) = sdb_journal s"
    by (auto simp: obj_GetCommittedState_def Let_def split: option.split sum.split prod.split)
  show "sdb_journal (snd (obj_GetState s ob k)) = sdb_journal s"
    using c by (simp add: obj_GetState_def split: option.split)
qed (simp_all add: obj_Code_def obj_CodeSize_def split: option.split sum.split)

lemma obj_GetState_keeps_journal: "obj_GetState s ob k = (v, s') \<Longrightarrow> sdb_journal s' = sdb_journal s"
  using obj_reads_journal(2) [of s ob k] by simp

lemma obj_Code_keeps_journal: "obj_Code s ob = (c, s') \<Longrightarrow> sdb_journal s' = sdb_journal s"
  using obj_reads_journal(3) [of s ob] by simp

lemma createObject_jmoves:
  assumes "createObject s a = (nob, prev, s')"
  shows "jmoves s s'"
proof -
  obtain r s1 where g: "getDeletedStateObject s a = (r, s1)" by fastforce
  then have "sdb_journal s1 = sdb_journal s" using getDeletedStateObject_journal [of s a] by simp
  with assms g show ?thesis
    by (auto simp: createObject_def jmoves_def Let_def split: option.splits if_splits)
qed

lemma GetOrNew_jmoves: "GetOrNewStateObject s a = (ob, s') \<Longrightarrow> jmoves s s'"
  by (auto simp: GetOrNewStateObject_def split: prod.splits option.splits
      dest!: getStateObject_keeps_journal createObject_jmoves intro: jmoves_trans jmoves_same)

lemma obj_writes_jmoves [simp]:
  "jmoves s (obj_SetBalance s ob n)" "jmoves s (obj_touch s a)" "jmoves s (obj_AddBalance s ob n)"
  "jmoves s (obj_SubBalance s ob n)" "jmoves s (obj_SetNonce s ob m)" "jmoves s (obj_SetState s ob k v)"
  "jmoves s (obj_SetCode s ob h c)"
proof -
  show b: "jmoves s (obj_SetBalance s ob n)" for n by (simp add: jmoves_def obj_SetBalance_def)
  have "journal_moves (sdb_journal s) (journal_dirty (journal_append (sdb_journal s) (TouchChange ripemd)) ripemd)"
    using journal_moves_trans [OF journal_moves_append journal_moves_touch] .
  then show t: "jmoves s (obj_touch s a)" for a by (auto simp: jmoves_def obj_touch_def Let_def)
  show "jmoves s (obj_AddBalance s ob n)" using b t by (simp add: obj_AddBalance_def)
  show "jmoves s (obj_SubBalance s ob n)" using b by (simp add: obj_SubBalance_def)
  show "jmoves s (obj_SetNonce s ob m)" by (simp add: jmoves_def obj_SetNonce_def)
  show "jmoves s (obj_SetState s ob k v)"
    by (auto simp: obj_SetState_def jmoves_def dest!: obj_GetState_keeps_journal split: prod.split)
  show "jmoves s (obj_SetCode s ob h c)"
    by (auto simp: obj_SetCode_def jmoves_def dest!: obj_Code_keeps_journal split: prod.split)
qed

lemma SelfDestruct_jmoves: "jmoves s (SelfDestruct s a)"
  by (auto simp: SelfDestruct_def jmoves_def Let_def dest!: getStateObject_keeps_journal split: prod.split option.split)

lemma writes_jmoves:
  "jmoves s (AddBalance s a n)" "jmoves s (SubBalance s a n)" "jmoves s (SetBalance s a n)"
  "jmoves s (SetNonce s a m)" "jmoves s (SetCode s a c)" "jmoves s (SetState s a k v)"
  "jmoves s (CreateAccount s a)" "jmoves s (Selfdestruct6780 s a)"
  subgoal by (auto simp: AddBalance_def split: prod.split dest!: GetOrNew_jmoves intro: jmoves_trans)
  subgoal by (auto simp: SubBalance_def split: prod.split dest!: GetOrNew_jmoves intro: jmoves_trans)
  subgoal by (auto simp: SetBalance_def split: prod.split dest!: GetOrNew_jmoves intro: jmoves_trans)
  subgoal by (auto simp: SetNonce_def split: prod.split dest!: GetOrNew_jmoves intro: jmoves_trans)
  subgoal by (auto simp: SetCode_def split: prod.split dest!: GetOrNew_jmoves intro: jmoves_trans)
  subgoal by (auto simp: SetState_def split: prod.split dest!: GetOrNew_jmoves intro: jmoves_trans)
  subgoal by (auto simp: CreateAccount_def split: prod.split option.split dest!: createObject_jmoves
        intro: jmoves_trans [OF _ jmoves_same])
  subgoal using SelfDestruct_jmoves
    by (auto simp: Selfdestruct6780_def split: prod.split option.split dest!: getStateObject_keeps_journal
        intro: jmoves_trans [OF jmoves_same] jmoves_same)
  done

lemma reads_journal:
  "sdb_journal (snd (Exist s a)) = sdb_journal s" "sdb_journal (snd (Empty s a)) = sdb_journal s"
  "sdb_journal (snd (GetBalance s a)) = sdb_journal s" "sdb_journal (snd (GetNonce s a)) = sdb_journal s"
  "sdb_journal (snd (GetStorageRoot s a)) = sdb_journal s" "sdb_journal (snd (GetCode s a)) = sdb_journal s"
  "sdb_journal (snd (GetCodeSize s a)) = sdb_journal s" "sdb_journal (snd (GetCodeHash s a)) = sdb_journal s"
  "sdb_journal (snd (GetState s a k)) = sdb_journal s" "sdb_journal (snd (GetCommittedState s a k)) = sdb_journal s"
  "sdb_journal (snd (HasSelfDestructed s a)) = sdb_journal s"
  using getStateObject_journal [of s a]
  by (cases "getStateObject s a",
      simp add: Exist_def Empty_def GetBalance_def GetNonce_def GetStorageRoot_def GetCode_def GetCodeSize_def
        GetCodeHash_def GetState_def GetCommittedState_def HasSelfDestructed_def split: option.split)+

lemma exec_op_jmoves: "exec_op c s = Some (v, s') \<Longrightarrow> jmoves s s'"
proof (cases c)
  case (OpAddSlot a k)
  assume "exec_op c s = Some (v, s')"
  with OpAddSlot show ?thesis
    by (auto simp: AddSlotToAccessList_def Let_def jmoves_def split: option.splits
        intro: journal_moves_trans [OF journal_moves_append journal_moves_append])
next
  case (OpAddAddress a)
  assume "exec_op c s = Some (v, s')"
  with OpAddAddress show ?thesis
    by (auto simp: AddAddressToAccessList_def Let_def jmoves_def split: prod.splits)
qed (auto simp: ret_def writes_jmoves [unfolded jmoves_def] SelfDestruct_jmoves [unfolded jmoves_def] jmoves_def reads_journal AddRefund_def SubRefund_def
    AddLogSu_def AddPreimage_def SetTransientState_def Let_def require_def split: if_splits bind_splits)

section \<open>Uses between a snapshot and its revert\<close>

text \<open>
  The operations of \<open>sdb_op\<close>, the reads and the two operations on logs and on the tracer's
  account state it leaves out, and snapshots and reverts.  \<open>SetStorage\<close>, \<open>SetTxContext\<close>,
  \<open>Prepare\<close> and \<open>Finalise\<close> change the state without journalling all of it and are not
  among them.
\<close>

datatype sdb_use =
    UseOp sdb_op
  | UseAddLog log
  | UseGetCodeSize address
  | UseGetStorageRoot address
  | UseSetAccountState account_state
  | UseSnapshot
  | UseRevert int

fun exec_use :: "sdb_use \<Rightarrow> statedb \<Rightarrow> (sdb_val \<times> statedb) option" where
  "exec_use (UseOp c) s = exec_op c s"
| "exec_use (UseAddLog l) s = Some (VUnit, AddLog s l)"
| "exec_use (UseGetCodeSize a) s = ret VNat (GetCodeSize s a)"
| "exec_use (UseGetStorageRoot a) s = ret VHash (GetStorageRoot s a)"
| "exec_use (UseSetAccountState st) s = Some (VUnit, SetAccountState s st)"
| "exec_use UseSnapshot s = ret VInt (Snapshot s)"
| "exec_use (UseRevert i) s = map_option (Pair VUnit) (RevertToSnapshot s i)"

lemma exec_use_jmoves: "exec_use u s = Some (v, s') \<Longrightarrow> jmoves s s'"
proof (cases u)
  case (UseOp c)
  assume "exec_use u s = Some (v, s')"
  with UseOp show ?thesis by (simp add: exec_op_jmoves)
next
  case (UseRevert i)
  assume "exec_use u s = Some (v, s')"
  with UseRevert show ?thesis by (auto simp: jmoves_def dest: RevertToSnapshot_journal)
qed (auto simp: ret_def jmoves_def reads_journal Snapshot_def SetAccountState_def AddLog_def Let_def)

text \<open>
  What a use leaves behind of the snapshot: \<open>since s1 s2\<close> says that the log of \<open>s2\<close>, and
  every snapshot taken after \<open>s1\<close>, lead back past \<open>s1\<close> to the world of \<open>s1\<close>.
\<close>

definition since :: "statedb \<Rightarrow> statedb \<Rightarrow> bool" where
  "since s1 s2 \<longleftrightarrow> grows s1 s2 \<and>
     (\<exists>rs ms. validRevisions s2 = validRevisions s1 @ rs \<and> map fst ms = map journalIndex rs \<and>
        sdb.marks_ok s2 ((length (journal_log s1), world_of s1) # ms))"

lemma since_grows: "since s1 s2 \<Longrightarrow> grows s1 s2"
  by (simp add: since_def)

lemma since_refl:
  assumes s: "sound_db s1"
  shows "since s1 s1"
proof -
  have "sdb.marks_ok s1 []" by (simp add: sdb.marks_ok_def)
  from sdb.marks_snapshot [OF _ this] s have "sdb.marks_ok s1 [(length (journal_log s1), world_of s1)]"
    by (simp add: sound_db_def)
  with grows_refl [OF s] show ?thesis
    unfolding since_def by (intro conjI exI [of _ "[]"]) simp_all
qed

lemma since_ext:
  assumes "since s1 s2" "grows s1 s3" "sdb.ext s2 s3" "validRevisions s3 = validRevisions s2"
  shows "since s1 s3"
  using assms sdb.marks_ext [OF assms(3)] unfolding since_def by metis

lemma since_step: "since s1 s2 \<Longrightarrow> step s2 s3 \<Longrightarrow> since s1 s3"
  using grows_step [OF since_grows] by (auto simp: step_def same_control_def intro: since_ext)

lemma since_Snapshot:
  assumes s: "since s1 s2" and snap: "Snapshot s2 = (i, s3)"
  shows "since s1 s3"
proof -
  from s obtain rs ms where m: "validRevisions s2 = validRevisions s1 @ rs" "map fst ms = map journalIndex rs"
    "sdb.marks_ok s2 ((length (journal_log s1), world_of s1) # ms)" by (auto simp: since_def)
  have g: "grows s1 s3" by (rule Snapshot_grows [OF snap since_grows [OF s]])
  have inv: "sdb_inv s2" using since_grows [OF s] by (rule grows_inv)
  have s3: "s3 = s2\<lparr>nextRevisionId := i + 1, validRevisions := validRevisions s2 @
      [\<lparr>rev_id = i, journalIndex = length (journal_log s2)\<rparr>]\<rparr>"
    using snap by (auto simp: Snapshot_def journal_log_def journal_length_def)
  have "sdb.ext s2 s3"
    by (rule sdb.ext_same [OF grows_inv [OF g]]) (simp_all add: s3 journal_log_def)
  from sdb.marks_ext [OF this sdb.marks_snapshot [OF inv m(3)]]
  have "sdb.marks_ok s3 ((length (journal_log s1), world_of s1) # ms @ [(length (journal_log s2), world_of s2)])"
    by simp
  with g m show ?thesis
    unfolding since_def
    by (intro conjI exI [of _ "rs @ [\<lparr>rev_id = i, journalIndex = length (journal_log s2)\<rparr>]"]
        exI [of _ "ms @ [(length (journal_log s2), world_of s2)]"]) (simp_all add: s3)
qed

lemma RevertToSnapshot_found:
  assumes "RevertToSnapshot s i = Some s'"
  obtains k t where "k < length (validRevisions s)" "rev_id (validRevisions s ! k) = i"
    "journal_revert s (journalIndex (validRevisions s ! k)) = Some t"
    "s' = t\<lparr>validRevisions := take k (validRevisions t)\<rparr>"
proof -
  let ?k = "sort_search (\<lambda>k. rev_id (validRevisions s ! k) \<ge> i) 0 (length (validRevisions s))"
  have "?k \<le> length (validRevisions s)" by (rule sort_search_bounds [THEN conjunct2]) simp
  with assms that [of ?k] show thesis
    by (auto simp: RevertToSnapshot_def Let_def require_def split: bind_splits if_splits)
qed

lemma since_Revert:
  assumes s: "since s1 s2" and r: "RevertToSnapshot s2 j = Some s3"
    and j: "\<forall>r \<in> set (validRevisions s1). rev_id r < j"
  shows "since s1 s3"
proof -
  from s obtain rs ms es where m: "validRevisions s2 = validRevisions s1 @ rs" "map fst ms = map journalIndex rs"
    "sdb.marks_ok s2 ((length (journal_log s1), world_of s1) # ms)" and es: "journal_log s2 = journal_log s1 @ es"
    and inv: "sdb_inv s2" "revs_ok s2" and fields: "db s2 = db s1" "nextRevisionId s1 \<le> nextRevisionId s2"
      "\<forall>r \<in> set rs. nextRevisionId s1 \<le> rev_id r"
    by (auto simp: since_def grows_def sdb.ext_def sound_db_def)
  obtain k t where k: "k < length (validRevisions s2)" "rev_id (validRevisions s2 ! k) = j"
    "journal_revert s2 (journalIndex (validRevisions s2 ! k)) = Some t"
    "s3 = t\<lparr>validRevisions := take k (validRevisions t)\<rparr>"
    by (rule RevertToSnapshot_found [OF r])
  have "\<not> k < length (validRevisions s1)" using j k(2) by (auto simp: m(1) nth_append)
  then obtain n where n: "k = length (validRevisions s1) + n" using le_Suc_ex not_less by blast
  then have nr: "n < length rs" "validRevisions s2 ! k = rs ! n" using k(1) by (simp_all add: m(1) nth_append)
  have len: "length ms = length rs" using m(2) by (metis length_map)
  let ?n = "journalIndex (rs ! n)"
  have "fst (ms ! n) = ?n" using m(2) nr len by (metis nth_map)
  then obtain w where w: "ms ! n = (?n, w)" by (metis prod.collapse)
  have "ms = take n ms @ (?n, w) # drop (Suc n) ms" using nr len w by (metis id_take_nth_drop)
  then have split: "(length (journal_log s1), world_of s1) # ms =
      ((length (journal_log s1), world_of s1) # take n ms) @ (?n, w) # drop (Suc n) ms" by simp
  note marks = m(3) [unfolded split]
  have mk: "?n \<le> length (journal_log s2)" "undo_all wundo (rev (drop ?n (journal_log s2))) (world_of s2) = Some w"
    "al_wf (w_accessList w)" "length (journal_log s1) \<le> ?n"
    using marks by (auto simp: sdb.marks_ok_def)
  from journal_revert_world [OF inv(1) mk(1-3)] k(3) nr(2)
  have t: "world_of t = w" "journal_log t = take ?n (journal_log s2)" "sdb_inv t" "same_control s2 t" by auto
  have log3: "journal_log s3 = take ?n (journal_log s2)" "world_of s3 = w" "sdb_inv s3"
    using t by (simp_all add: k(4) journal_log_def sdb_inv_def sdb_ok_def)
  have marks3: "sdb.marks_ok s3 ((length (journal_log s1), world_of s1) # take n ms)"
    by (rule sdb.marks_rollback [OF inv(1) marks log3(2,1)])
  have vr: "validRevisions s3 = validRevisions s1 @ take n rs"
    using t(4) n by (simp add: k(4) same_control_def m(1))
  have "journal_log s3 = journal_log s1 @ take (?n - length (journal_log s1)) es"
    using mk(4) by (simp add: log3 es)
  moreover from this marks3
  have "undo_all wundo (rev (take (?n - length (journal_log s1)) es)) (world_of s3) = Some (world_of s1)"
    by (auto simp: sdb.marks_ok_def)
  ultimately have "sdb.ext s1 s3" using log3 by (auto simp: sdb.ext_def)
  moreover have "revs_ok s3"
  proof -
    have "validRevisions s3 = take k (validRevisions s2)" "nextRevisionId s3 = nextRevisionId s2"
      using t(4) by (simp_all add: k(4) same_control_def)
    with inv(2) show ?thesis
      by (auto simp: revs_ok_def sorted_wrt_take simp flip: take_map dest: in_set_takeD)
  qed
  ultimately have "grows s1 s3"
    using log3 t(4) fields vr by (auto simp: grows_def sound_db_def k(4) same_control_def dest: in_set_takeD)
  moreover have "map fst (take n ms) = map journalIndex (take n rs)"
    using arg_cong [OF m(2), of "take n"] by (simp add: take_map)
  ultimately show ?thesis using vr marks3 unfolding since_def by blast
qed

lemma since_use:
  assumes s: "since s1 s2" and u: "exec_use u s2 = Some (v, s3)"
    and i: "\<And>j. u = UseRevert j \<Longrightarrow> \<forall>r \<in> set (validRevisions s1). rev_id r < j"
  shows "since s1 s3"
proof -
  have inv: "sdb_inv s2" by (rule grows_inv [OF since_grows [OF s]])
  have peek: "since s1 s3" if "peeks s2 s3" using since_step [OF s] that by (simp add: peeks_def)
  have op: "since s1 s3" if "exec_op c s2 = Some (x, s3)" for c x
    using exec_op_agrees [OF inv, of c] that since_step [OF s] by (auto simp: agrees_def)
  show ?thesis
  proof (cases u)
    case (UseOp c)
    with u op show ?thesis by simp
  next
    case (UseAddLog l)
    with u op [of "OpAddLog l"] show ?thesis by (auto simp: ret_def AddLog_eq)
  next
    case (UseGetCodeSize a)
    with u peek GetCodeSize_peeks [OF inv, of a] show ?thesis by (auto simp: ret_def)
  next
    case (UseGetStorageRoot a)
    obtain r t where g: "getStateObject s2 a = (r, t)" by fastforce
    from getStateObject_step(1) [OF inv g] since_step [OF s] g u UseGetStorageRoot show ?thesis
      by (auto simp: ret_def GetStorageRoot_def split: option.splits)
  next
    case (UseSetAccountState st)
    with u have s3: "s3 = SetAccountState s2 st" by simp
    have g: "grows s1 s3" unfolding s3 by (rule grows_SetAccountState [OF since_grows [OF s]])
    have "sdb.ext s2 s3"
      by (rule sdb.ext_same [OF grows_inv [OF g]]) (simp_all add: s3 SetAccountState_def journal_log_def)
    then show ?thesis by (rule since_ext [OF s g]) (simp add: s3 SetAccountState_def)
  next
    case UseSnapshot
    with u have "Snapshot s2 = (fst (Snapshot s2), s3)" by (auto simp: ret_def)
    then show ?thesis by (rule since_Snapshot [OF s])
  next
    case (UseRevert j)
    with u since_Revert [OF s _ i] show ?thesis by auto
  qed
qed

lemma since_run:
  "since s1 s2 \<Longrightarrow> run_cmds exec_use us s2 = Some (vs, s3) \<Longrightarrow>
   (\<And>j. UseRevert j \<in> set us \<Longrightarrow> \<forall>r \<in> set (validRevisions s1). rev_id r < j) \<Longrightarrow> since s1 s3"
proof (induction us arbitrary: s2 vs)
  case (Cons u us)
  from Cons.prems(2) obtain v s vs1 where u: "exec_use u s2 = Some (v, s)" "run_cmds exec_use us s = Some (vs1, s3)"
    by auto
  have "since s1 s" by (rule since_use [OF Cons.prems(1) u(1)]) (use Cons.prems(3) in simp)
  from Cons.IH [OF this u(2)] Cons.prems(3) show ?case by simp
qed simp

lemma jmoves_run: "run_cmds exec_use us s = Some (vs, s') \<Longrightarrow> jmoves s s'"
proof (induction us arbitrary: s vs)
  case (Cons u us)
  then obtain v t vs1 where u: "exec_use u s = Some (v, t)" "run_cmds exec_use us t = Some (vs1, s')" by auto
  from jmoves_trans [OF exec_use_jmoves [OF u(1)] Cons.IH [OF u(2)]] show ?case .
qed simp

end
