(* ===== verification/StateDB_Props.thy ===== *)
theory StateDB_Props
  imports StateDB_Journal
begin

text \<open>
  The properties of the state database: refinement of the copying specification, exact reverts,
  the access list after \<open>Prepare\<close>, and what \<open>Finalise\<close> leaves.
\<close>

section \<open>Refinement\<close>

text \<open>
  C2: A StateDB with well-formed caches and no open snapshot answers every sequence of operations,
  snapshots and reverts exactly as the specification that keeps one plain world and a stack of saved
  copies of it: the same values are returned, and one panics exactly when the other is undefined.
\<close>

theorem statedb_refines_copies:
  assumes "sdb_inv s" "validRevisions s = []"
  shows "map_option fst (run_cmds exec_cmd cs s) = map_option fst (run_cmds spec_cmd cs (spec_init s))"
  using sim_run [OF sim_init [OF assms], of cs] by (auto split: option.splits)

lemma sdb_inv_New [simp]: "sdb_inv (New d sn)"
  by (simp add: sdb_inv_def) (simp add: New_def)

theorem statedb_refines_copies_witness:
  "map_option fst (run_cmds exec_cmd [Do (OpAddBalance 7 5), TakeSnapshot, Do (OpSetState 7 1 0), RevertTo 0,
       Do (OpGetState 7 1)] (New demo_db None)) =
   map_option fst (run_cmds spec_cmd [Do (OpAddBalance 7 5), TakeSnapshot, Do (OpSetState 7 1 0), RevertTo 0,
       Do (OpGetState 7 1)] (spec_init (New demo_db None)))"
  by (rule statedb_refines_copies) (simp, simp add: New_def)

section \<open>Reverting\<close>

text \<open>
  C1: Take a snapshot and use the database in any journalled way: every operation of the EVM, reads,
  nested snapshots and reverts to them, in any order and number (\<open>Prepare\<close>, \<open>SetStorage\<close>,
  \<open>SetTxContext\<close> and \<open>Finalise\<close>, which the source does not journal, are not among
  them).  Reverting to the snapshot then succeeds and gives back the very world it was taken in
  (accounts, storage, code, self-destruct marks, logs, refund, access list, transient storage), the
  journal's entries and the dirty count of every address, and drops the snapshot and the later ones.
  The one exception is the RIPEMD precompile at address 3, which \<open>touch\<close> counts a second time: its
  dirty count never goes down by a revert.
\<close>

theorem revert_restores_world:
  assumes "sdb_inv s" "revs_ok s" "dirties_ok (sdb_journal s)"
    and "Snapshot s = (i, s1)" "run_cmds exec_use us s1 = Some (vs, s2)" "\<forall>j. UseRevert j \<in> set us \<longrightarrow> i < j"
  shows "\<exists>s3. RevertToSnapshot s2 i = Some s3 \<and> world_of s3 = world_of s \<and>
    entries (sdb_journal s3) = entries (sdb_journal s) \<and> validRevisions s3 = validRevisions s \<and>
    (\<forall>a. a \<noteq> ripemd \<longrightarrow> dirties (sdb_journal s3) a = dirties (sdb_journal s) a) \<and>
    get0 (dirties (sdb_journal s)) ripemd \<le> get0 (dirties (sdb_journal s3)) ripemd \<and>
    dirties_ok (sdb_journal s3)"
proof -
  have s: "sound_db s" using assms(1,2) by (simp add: sound_db_def)
  have s1: "sdb_journal s1 = sdb_journal s" "\<forall>r \<in> set (validRevisions s1). rev_id r \<le> i"
    using assms(2,4) by (fastforce simp: Snapshot_def revs_ok_def)+
  have "sound_db s1" by (rule grows_sound [OF Snapshot_grows [OF assms(4) grows_refl [OF s]]])
  from since_grows [OF since_run [OF since_refl [OF this] assms(5)]] s1(2) assms(6)
  have "grows s1 s2" by fastforce
  from RevertToSnapshot_grows [OF s assms(4) this] obtain s3 where s3: "RevertToSnapshot s2 i = Some s3"
    "world_of s3 = world_of s" "journal_log s3 = journal_log s" "validRevisions s3 = validRevisions s" by blast
  have "journal_moves (sdb_journal s) (sdb_journal s3)"
    using journal_moves_trans [OF jmoves_run [OF assms(5), unfolded jmoves_def] RevertToSnapshot_journal [OF s3(1)]]
    by (simp add: s1)
  with s3 assms(3) journal_moves_dirties show ?thesis by (simp add: journal_log_def)
qed
theorem revert_restores_world_witness:
  "\<exists>s3. Option.bind (run_cmds exec_use [UseOp (OpAddBalance 7 5), UseSnapshot, UseOp (OpSetState 7 1 0),
        UseOp (OpAddBalance 3 0), UseRevert 1, UseOp (OpCreateAccount 8), UseGetCodeSize 7]
        (snd (Snapshot (New demo_db None)))) (\<lambda>(vs, s2). RevertToSnapshot s2 0) = Some s3 \<and>
     world_of s3 = world_of (New demo_db None) \<and>
     (\<forall>a. a \<noteq> ripemd \<longrightarrow> dirties (sdb_journal s3) a = None)"
proof -
  let ?us = "[UseOp (OpAddBalance 7 5), UseSnapshot, UseOp (OpSetState 7 1 0),
        UseOp (OpAddBalance 3 0), UseRevert 1, UseOp (OpCreateAccount 8), UseGetCodeSize 7]"
  let ?s1 = "snd (Snapshot (New demo_db None))"
  have sn: "Snapshot (New demo_db None) = (0, ?s1)" by (simp add: Snapshot_def New_def)
  let ?A = "AddBalance ?s1 7 5"
  let ?A1 = "snd (Snapshot ?A)"
  let ?C = "AddBalance (SetState ?A1 7 1 0) 3 0"
  have inv: "sdb_inv ?s1" by (simp add: Snapshot_def sdb_inv_def sdb_ok_def New_def newJournal_def)
  have "revs_ok ?s1" by (simp add: Snapshot_def revs_ok_def New_def)
  with inv have A: "sound_db ?A" by (intro grows_sound [OF grows_writes(2) [OF grows_refl]]) (simp add: sound_db_def)
  have "nextRevisionId ?A = nextRevisionId ?s1"
    using AddBalance_implements [OF inv, of 7 5] by (simp add: implements_def step_def same_control_def)
  then have snA: "Snapshot ?A = (1, ?A1)" by (simp add: Snapshot_def New_def)
  have "grows ?A1 ?C"
    by (rule grows_writes(2) [OF grows_writes(7) [OF grows_refl
          [OF grows_sound [OF Snapshot_grows [OF snA grows_refl [OF A]]]]]])
  from RevertToSnapshot_grows [OF A snA this] obtain d where "RevertToSnapshot ?C 1 = Some d" by blast
  then have "run_cmds exec_use ?us ?s1 \<noteq> None" by (simp add: ret_def)
  then obtain vs s2 where r: "run_cmds exec_use ?us ?s1 = Some (vs, s2)" by fastforce
  have j: "revs_ok (New demo_db None)" "dirties_ok (sdb_journal (New demo_db None))"
    "dirties (sdb_journal (New demo_db None)) = Map.empty"
    by (simp add: revs_ok_def New_def, simp add: New_def, simp add: New_def newJournal_def)
  from revert_restores_world [OF sdb_inv_New j(1,2) sn r] obtain s3 where
    "RevertToSnapshot s2 0 = Some s3" "world_of s3 = world_of (New demo_db None)"
    "\<forall>a. a \<noteq> ripemd \<longrightarrow> dirties (sdb_journal s3) a = None" unfolding j(3) by auto
  then show ?thesis unfolding r by auto
qed

section \<open>Preparing the access list\<close>

lemma prepare_slots_warm:
  "al_wf al \<Longrightarrow> \<exists>al'. prepare_slots al a ks = Some al' \<and> al_wf al' \<and>
     warm_addresses al' = warm_addresses al \<union> (if ks = [] then {} else {a}) \<and>
     warm_slots al' = warm_slots al \<union> {(a, k) | k. k \<in> set ks}"
proof (induction ks arbitrary: al)
  case (Cons k ks)
  from AddSlot_total [OF Cons.prems] obtain al1 c where add: "AddSlot al a k = Some (al1, c)" by fastforce
  from Cons.IH [OF AddSlot_wf [OF Cons.prems add]] AddSlot_refines [OF Cons.prems add] add
  show ?case by (cases c) auto
qed simp

lemma prepare_list_warm:
  "al_wf al \<Longrightarrow> \<exists>al'. prepare_list al tal = Some al' \<and> al_wf al' \<and>
     warm_addresses al' = warm_addresses al \<union> fst ` set tal \<and>
     warm_slots al' = warm_slots al \<union> {(a, k). \<exists>ks. (a, ks) \<in> set tal \<and> k \<in> set ks}"
proof (induction tal arbitrary: al)
  case (Cons el tal)
  obtain a ks where el: "el = (a, ks)" by fastforce
  let ?al = "fst (AddAddress al a)"
  from prepare_slots_warm [OF AddAddress_wf [OF Cons.prems], of a a ks]
  obtain al1 where al1: "prepare_slots ?al a ks = Some al1" "al_wf al1"
    "warm_addresses al1 = warm_addresses ?al \<union> (if ks = [] then {} else {a})"
    "warm_slots al1 = warm_slots ?al \<union> {(a, k) | k. k \<in> set ks}" by auto
  from Cons.IH [OF al1(2)] al1 AddAddress_refines [of al a] el show ?case
    by auto
qed simp

lemma foldl_AddAddress_warm:
  "al_wf al \<Longrightarrow> al_wf (foldl (\<lambda>al a. fst (AddAddress al a)) al as) \<and>
     warm_addresses (foldl (\<lambda>al a. fst (AddAddress al a)) al as) = warm_addresses al \<union> set as \<and>
     warm_slots (foldl (\<lambda>al a. fst (AddAddress al a)) al as) = warm_slots al"
  by (induction "as" arbitrary: al) (auto simp: AddAddress_wf AddAddress_refines)

lemma warm_new [simp]: "warm_addresses newAccessList = {}" "warm_slots newAccessList = {}"
  by (auto simp: newAccessList_def warm_addresses_def warm_slots_def)

text \<open>
  C19: From Berlin on, \<open>Prepare\<close> succeeds on every transaction and leaves exactly the sender, the
  destination, the precompiles, the addresses of the transaction's access list and (from Shanghai)
  the coinbase warm, exactly the slots of the access list warm, and the transient storage empty.
\<close>

theorem Prepare_warms:
  "ruleBerlin r \<Longrightarrow>
   \<exists>s'. Prepare s r sender coinbase dst precompiles tal = Some s' \<and>
     (\<forall>a. AddressInAccessList s' a \<longleftrightarrow>
        a = sender \<or> dst = Some a \<or> a \<in> set precompiles \<or> a \<in> fst ` set tal \<or> (ruleShanghai r \<and> a = coinbase)) \<and>
     (\<forall>a k. SlotInAccessList s' a k =
        Some (AddressInAccessList s' a, \<exists>ks. (a, ks) \<in> set tal \<and> k \<in> set ks)) \<and>
     (\<forall>a k. GetTransientState s' a k = 0)"
proof -
  assume berlin: "ruleBerlin r"
  let ?add = "\<lambda>al a. fst (AddAddress al a)"
  let ?al1 = "?add newAccessList sender"
  let ?al2 = "case dst of None \<Rightarrow> ?al1 | Some d \<Rightarrow> ?add ?al1 d"
  let ?al3 = "foldl ?add ?al2 precompiles"
  have 2: "al_wf ?al2 \<and> warm_addresses ?al2 = insert sender (set_option dst) \<and> warm_slots ?al2 = {}"
    by (cases dst) (simp_all add: AddAddress_wf AddAddress_refines insert_commute)
  then have 3: "al_wf ?al3" "warm_addresses ?al3 = insert sender (set_option dst) \<union> set precompiles" "warm_slots ?al3 = {}"
    using foldl_AddAddress_warm [of ?al2 precompiles] by auto
  from prepare_list_warm [OF 3(1), of tal] 3 obtain al4 where al4: "prepare_list ?al3 tal = Some al4" "al_wf al4"
    "warm_addresses al4 = insert sender (set_option dst) \<union> set precompiles \<union> fst ` set tal"
    "warm_slots al4 = {(a, k). \<exists>ks. (a, ks) \<in> set tal \<and> k \<in> set ks}" by auto
  let ?al5 = "if ruleShanghai r then ?add al4 coinbase else al4"
  have 5: "al_wf ?al5" "warm_slots ?al5 = warm_slots al4"
    "warm_addresses ?al5 = warm_addresses al4 \<union> (if ruleShanghai r then {coinbase} else {})"
    using al4(2) by (auto simp: AddAddress_wf AddAddress_refines)
  let ?s = "s\<lparr>accessList := ?al5, transientStorage := newTransientStorage\<rparr>"
  have "Prepare s r sender coinbase dst precompiles tal = Some ?s"
    using berlin al4(1) by (simp add: Prepare_def)
  moreover have "AddressInAccessList ?s a \<longleftrightarrow> a \<in> warm_addresses ?al5" for a
    by (auto simp: AddressInAccessList_def ContainsAddress_def warm_addresses_def)
  moreover have "SlotInAccessList ?s a k = Some (a \<in> warm_addresses ?al5, (a, k) \<in> warm_slots ?al5)" for a k
    using Contains_refines [OF 5(1)] by (simp add: SlotInAccessList_def)
  moreover have "GetTransientState ?s a k = 0" for a k by (simp add: GetTransientState_def)
  moreover have "a \<in> set_option dst \<longleftrightarrow> dst = Some a" for a by (cases dst) auto
  ultimately show ?thesis using 5 al4 by (intro exI [of _ ?s]) auto
qed

theorem Prepare_warms_witness:
  "\<exists>s'. Prepare (New demo_db None)
      (Rules \<lparr>ChainID = Some 1, HomesteadBlock = Some 0, DAOForkBlock = None, DAOForkSupport = False,
         EIP150Block = Some 0, EIP155Block = Some 0, EIP158Block = Some 0, ByzantiumBlock = Some 0,
         ConstantinopleBlock = Some 0, PetersburgBlock = Some 0, IstanbulBlock = Some 0, MuirGlacierBlock = None,
         BerlinBlock = Some 0, LondonBlock = None, ArrowGlacierBlock = None, GrayGlacierBlock = None,
         MergeNetsplitBlock = None, ShanghaiTime = None, CancunTime = None, PragueTime = None,
         VerkleTime = None, TerminalTotalDifficulty = None\<rparr> (Some 3) False 0)
      1 2 (Some 3) [4] [(5, [6])] = Some s' \<and>
     AddressInAccessList s' 5 \<and> \<not> AddressInAccessList s' 2 \<and> SlotInAccessList s' 5 6 = Some (True, True)"
  using Prepare_warms [of "Rules \<lparr>ChainID = Some 1, HomesteadBlock = Some 0, DAOForkBlock = None, DAOForkSupport = False,
         EIP150Block = Some 0, EIP155Block = Some 0, EIP158Block = Some 0, ByzantiumBlock = Some 0,
         ConstantinopleBlock = Some 0, PetersburgBlock = Some 0, IstanbulBlock = Some 0, MuirGlacierBlock = None,
         BerlinBlock = Some 0, LondonBlock = None, ArrowGlacierBlock = None, GrayGlacierBlock = None,
         MergeNetsplitBlock = None, ShanghaiTime = None, CancunTime = None, PragueTime = None,
         VerkleTime = None, TerminalTotalDifficulty = None\<rparr> (Some 3) False 0"
      "New demo_db None" 1 2 "Some 3" "[4]" "[(5, [6])]"]
  by (auto simp: Rules_def IsBerlin_def IsShanghai_def IsLondon_def isBlockForked_def)

section \<open>Finalising a transaction\<close>

text \<open>The object a transaction leaves behind, and the account it shows.\<close>

definition finalised :: "bool \<Rightarrow> database \<Rightarrow> state_object \<Rightarrow> state_object" where
  "finalised del d ob =
     (if selfDestructed ob \<or> (del \<and> empty_object d ob) then ob\<lparr>deleted := True\<rparr> else obj_finalise ob)
       \<lparr>created := False\<rparr>"




lemma finalised_ok: "object_ok d a ob \<Longrightarrow> object_ok d a (finalised del e ob)"
  by (simp add: finalised_def obj_finalise_def object_ok_def)






lemma clear_frame [simp]:
  "stateObjects (clearJournalAndRefund s) = stateObjects s" "db (clearJournalAndRefund s) = db s"
  "snap (clearJournalAndRefund s) = snap s"
  "stateObjectsDestruct (clearJournalAndRefund s) = stateObjectsDestruct s"
  "validRevisions (clearJournalAndRefund s) = []"
  "entries (sdb_journal (clearJournalAndRefund s)) = []"
  by (simp_all add: clearJournalAndRefund_def newJournal_def Let_def)





end
