(* ===== verification/Machine.thy ===== *)
theory Machine
  imports Params
begin

text \<open>
  The data of the EVM interpreter: \<^verbatim>\<open>core/vm/stack.go\<close>, \<^verbatim>\<open>stack_table.go\<close>,
  \<^verbatim>\<open>memory.go\<close>, \<^verbatim>\<open>memory_table.go\<close>, \<^verbatim>\<open>common.go\<close>, \<^verbatim>\<open>gas.go\<close> and the
  errors of \<^verbatim>\<open>errors.go\<close>.  The stack is the Go slice read from its end, so the head of the
  list is the top.  Lengths of slices are natural numbers (they fit a signed 64-bit \<^verbatim>\<open>int\<close>);
  the sizes the gas functions compute with are \<open>u64\<close> and wrap.
\<close>

section \<open>Errors\<close>

datatype vm_error =
    ErrOutOfGas
  | ErrCodeStoreOutOfGas
  | ErrDepth
  | ErrInsufficientBalance
  | ErrContractAddressCollision
  | ErrExecutionReverted
  | ErrMaxInitCodeSizeExceeded
  | ErrMaxCodeSizeExceeded
  | ErrInvalidJump
  | ErrWriteProtection
  | ErrReturnDataOutOfBounds
  | ErrGasUintOverflow
  | ErrInvalidCode
  | ErrNonceUintOverflow
  | ErrStopToken
  | ErrStackUnderflow int int
  | ErrStackOverflow int int
  | ErrInvalidOpCode byte
  | ErrNotEnoughGas \<comment> \<open>\<open>errors.New("not enough gas for reentrancy sentry")\<close>\<close>
  | ErrPrecompile string \<comment> \<open>the error of a precompiled contract\<close>

section \<open>Stack\<close>

type_synonym stack = "u256 list"

definition st_push :: "stack \<Rightarrow> u256 \<Rightarrow> stack" where
  "st_push st d = d # st"

fun st_pop :: "stack \<Rightarrow> (u256 \<times> stack) option" where
  "st_pop [] = None"
| "st_pop (d # st) = Some (d, st)"

definition st_len :: "stack \<Rightarrow> nat" where
  "st_len st = length st"

definition st_Back :: "stack \<Rightarrow> nat \<Rightarrow> u256 option" where
  "st_Back st n = idx st n"

definition st_peek :: "stack \<Rightarrow> u256 option" where
  "st_peek st = idx st 0"

text \<open>Writing through the pointer \<open>peek\<close> returns.\<close>

fun st_set :: "stack \<Rightarrow> u256 \<Rightarrow> stack option" where
  "st_set [] v = None"
| "st_set (d # st) v = Some (v # st)"

text \<open>\<open>swap(n)\<close> exchanges the top with the \<open>n\<close>-th element counted from 1.\<close>

definition st_swap :: "stack \<Rightarrow> nat \<Rightarrow> stack option" where
  "st_swap st n = do {
     require (1 \<le> n \<and> n \<le> length st);
     Some (st[n - 1 := st ! 0, 0 := st ! (n - 1)]) }"

definition st_dup :: "stack \<Rightarrow> nat \<Rightarrow> stack option" where
  "st_dup st n = do {
     require (1 \<le> n);
     d \<leftarrow> idx st (n - 1);
     Some (st_push st d) }"

definition maxStack :: "int \<Rightarrow> int \<Rightarrow> int" where
  "maxStack pops push = StackLimit + pops - push"

definition minStack :: "int \<Rightarrow> int \<Rightarrow> int" where
  "minStack pops push = pops"

definition minSwapStack :: "int \<Rightarrow> int" where "minSwapStack n = minStack n n"
definition maxSwapStack :: "int \<Rightarrow> int" where "maxSwapStack n = maxStack n n"
definition minDupStack :: "int \<Rightarrow> int" where "minDupStack n = minStack n (n + 1)"
definition maxDupStack :: "int \<Rightarrow> int" where "maxDupStack n = maxStack n (n + 1)"

section \<open>Memory\<close>

record memory =
  mem_store :: bytes
  lastGasCost :: u64

definition NewMemory :: memory where
  "NewMemory = \<lparr>mem_store = [], lastGasCost = 0\<rparr>"

definition mem_Set :: "memory \<Rightarrow> u64 \<Rightarrow> u64 \<Rightarrow> bytes \<Rightarrow> memory option" where
  "mem_Set m off sz val =
     (if sz > 0
      then do {
        require (\<not> unat (off + sz) > length (mem_store m));
        require (off \<le> off + sz);
        Some (m\<lparr>mem_store := copy_at (mem_store m) (unat off) (take (unat sz) val)\<rparr>) }
      else Some m)"

definition mem_Set32 :: "memory \<Rightarrow> u64 \<Rightarrow> u256 \<Rightarrow> memory option" where
  "mem_Set32 m off val = do {
     require (\<not> unat (off + 32) > length (mem_store m));
     require (unat off \<le> length (mem_store m));
     Some (m\<lparr>mem_store := copy_at (mem_store m) (unat off) (to_be 32 val)\<rparr>) }"

definition mem_Resize :: "memory \<Rightarrow> u64 \<Rightarrow> memory" where
  "mem_Resize m sz =
     (if length (mem_store m) < unat sz
      then m\<lparr>mem_store := mem_store m @ replicate (unat sz - length (mem_store m)) 0\<rparr> else m)"

text \<open>
  \<open>GetCopy\<close> and \<open>GetPtr\<close> take \<^verbatim>\<open>int64\<close> arguments; their result is copied before the memory can
  change again, so both are the bytes read (nil reads as empty).  A slice beyond the length is a panic.
\<close>

definition mem_GetCopy :: "memory \<Rightarrow> int \<Rightarrow> int \<Rightarrow> bytes option" where
  "mem_GetCopy m off sz =
     (if sz = 0 then Some []
      else if int (length (mem_store m)) > off
      then do {
        require (0 \<le> sz \<and> 0 \<le> off);
        go_slice (mem_store m) (nat off) (nat (off + sz)) }
      else Some [])"

definition mem_GetPtr :: "memory \<Rightarrow> int \<Rightarrow> int \<Rightarrow> bytes option" where
  "mem_GetPtr m off sz =
     (if sz = 0 then Some []
      else if int (length (mem_store m)) > off
      then do {
        require (0 \<le> off \<and> off \<le> off + sz);
        go_slice (mem_store m) (nat off) (nat (off + sz)) }
      else Some [])"

definition mem_Len :: "memory \<Rightarrow> nat" where
  "mem_Len m = length (mem_store m)"

definition mem_Copy :: "memory \<Rightarrow> u64 \<Rightarrow> u64 \<Rightarrow> u64 \<Rightarrow> memory option" where
  "mem_Copy m dst src len =
     (if len = 0 then Some m
      else do {
        require (unat dst \<le> length (mem_store m));
        b \<leftarrow> go_slice (mem_store m) (unat src) (unat (src + len));
        Some (m\<lparr>mem_store := copy_at (mem_store m) (unat dst) b\<rparr>) })"

section \<open>Sizes (common.go)\<close>

definition IsUint64 :: "u256 \<Rightarrow> bool" where
  "IsUint64 w \<longleftrightarrow> unat w < 2 ^ 64"

definition Uint64 :: "u256 \<Rightarrow> u64" where
  "Uint64 w = ucast w"

definition calcMemSize64WithUint :: "u256 \<Rightarrow> u64 \<Rightarrow> u64 \<times> bool" where
  "calcMemSize64WithUint off length64 =
     (if length64 = 0 then (0, False)
      else if \<not> IsUint64 off then (0, True)
      else let val = Uint64 off + length64 in (val, val < Uint64 off))"

definition calcMemSize64 :: "u256 \<Rightarrow> u256 \<Rightarrow> u64 \<times> bool" where
  "calcMemSize64 off l =
     (if \<not> IsUint64 l then (0, True) else calcMemSize64WithUint off (Uint64 l))"

text \<open>\<open>start + size\<close> may wrap below \<open>start\<close>; then the slice expression panics.\<close>

definition getData :: "bytes \<Rightarrow> u64 \<Rightarrow> u64 \<Rightarrow> bytes option" where
  "getData data start sz =
     (let len = word_of_nat (length data) :: u64;
          start = (if start > len then len else start);
          en = start + sz;
          en = (if en > len then len else en)
      in do {
        d \<leftarrow> go_slice data (unat start) (unat en);
        Some (RightPadBytes d (unat sz)) })"

definition toWordSize :: "u64 \<Rightarrow> u64" where
  "toWordSize sz = (if sz > MaxUint64 - 31 then MaxUint64 div 32 + 1 else (sz + 31) div 32)"

definition allZero :: "bytes \<Rightarrow> bool" where
  "allZero b = list_all (\<lambda>x. x = 0) b"

section \<open>Memory sizes of the instructions (memory_table.go)\<close>

definition mem_args :: "stack \<Rightarrow> nat \<Rightarrow> nat \<Rightarrow> (u64 \<times> bool) option" where
  "mem_args st o1 o2 = do { off \<leftarrow> st_Back st o1; l \<leftarrow> st_Back st o2; Some (calcMemSize64 off l) }"

definition memoryKeccak256 :: "stack \<Rightarrow> (u64 \<times> bool) option" where
  "memoryKeccak256 st = mem_args st 0 1"

definition memoryCallDataCopy :: "stack \<Rightarrow> (u64 \<times> bool) option" where
  "memoryCallDataCopy st = mem_args st 0 2"

definition memoryReturnDataCopy :: "stack \<Rightarrow> (u64 \<times> bool) option" where
  "memoryReturnDataCopy st = mem_args st 0 2"

definition memoryCodeCopy :: "stack \<Rightarrow> (u64 \<times> bool) option" where
  "memoryCodeCopy st = mem_args st 0 2"

definition memoryExtCodeCopy :: "stack \<Rightarrow> (u64 \<times> bool) option" where
  "memoryExtCodeCopy st = mem_args st 1 3"

definition memoryMLoad :: "stack \<Rightarrow> (u64 \<times> bool) option" where
  "memoryMLoad st = do { off \<leftarrow> st_Back st 0; Some (calcMemSize64WithUint off 32) }"

definition memoryMStore8 :: "stack \<Rightarrow> (u64 \<times> bool) option" where
  "memoryMStore8 st = do { off \<leftarrow> st_Back st 0; Some (calcMemSize64WithUint off 1) }"

definition memoryMStore :: "stack \<Rightarrow> (u64 \<times> bool) option" where
  "memoryMStore st = do { off \<leftarrow> st_Back st 0; Some (calcMemSize64WithUint off 32) }"

definition memoryMcopy :: "stack \<Rightarrow> (u64 \<times> bool) option" where
  "memoryMcopy st = do {
     dst \<leftarrow> st_Back st 0;
     src \<leftarrow> st_Back st 1;
     l \<leftarrow> st_Back st 2;
     Some (calcMemSize64 (if src > dst then src else dst) l) }"

definition memoryCreate :: "stack \<Rightarrow> (u64 \<times> bool) option" where
  "memoryCreate st = mem_args st 1 2"

definition memoryCreate2 :: "stack \<Rightarrow> (u64 \<times> bool) option" where
  "memoryCreate2 st = mem_args st 1 2"

text \<open>The larger of the output and the input area.\<close>

definition mem_args2 :: "stack \<Rightarrow> nat \<Rightarrow> nat \<Rightarrow> nat \<Rightarrow> nat \<Rightarrow> (u64 \<times> bool) option" where
  "mem_args2 st o1 o2 i1 i2 = do {
     (x, ov) \<leftarrow> mem_args st o1 o2;
     if ov then Some (0, True)
     else do {
       (y, ov) \<leftarrow> mem_args st i1 i2;
       if ov then Some (0, True)
       else Some (if x > y then x else y, False) } }"

definition memoryCall :: "stack \<Rightarrow> (u64 \<times> bool) option" where
  "memoryCall st = mem_args2 st 5 6 3 4"

definition memoryDelegateCall :: "stack \<Rightarrow> (u64 \<times> bool) option" where
  "memoryDelegateCall st = mem_args2 st 4 5 2 3"

definition memoryStaticCall :: "stack \<Rightarrow> (u64 \<times> bool) option" where
  "memoryStaticCall st = mem_args2 st 4 5 2 3"

definition memoryReturn :: "stack \<Rightarrow> (u64 \<times> bool) option" where
  "memoryReturn st = mem_args st 0 1"

definition memoryRevert :: "stack \<Rightarrow> (u64 \<times> bool) option" where
  "memoryRevert st = mem_args st 0 1"

definition memoryLog :: "stack \<Rightarrow> (u64 \<times> bool) option" where
  "memoryLog st = mem_args st 0 1"

lemmas memory_sizes [unfold_op] =
  memoryKeccak256_def memoryCallDataCopy_def memoryReturnDataCopy_def memoryCodeCopy_def
  memoryExtCodeCopy_def memoryMLoad_def memoryMStore8_def memoryMStore_def memoryMcopy_def
  memoryCreate_def memoryCreate2_def memoryCall_def memoryDelegateCall_def memoryStaticCall_def
  memoryReturn_def memoryRevert_def memoryLog_def

section \<open>Gas of calls (gas.go)\<close>

abbreviation (input) GasQuickStep :: u64 where "GasQuickStep \<equiv> 2"
abbreviation (input) GasFastestStep :: u64 where "GasFastestStep \<equiv> 3"
abbreviation (input) GasFastStep :: u64 where "GasFastStep \<equiv> 5"
abbreviation (input) GasMidStep :: u64 where "GasMidStep \<equiv> 8"
abbreviation (input) GasSlowStep :: u64 where "GasSlowStep \<equiv> 10"
abbreviation (input) GasExtStep :: u64 where "GasExtStep \<equiv> 20"

definition callGas :: "bool \<Rightarrow> u64 \<Rightarrow> u64 \<Rightarrow> u256 \<Rightarrow> vm_error + u64" where
  "callGas isEip150 availableGas base callCost =
     (let rest = (if \<not> IsUint64 callCost then Inl ErrGasUintOverflow else Inr (Uint64 callCost))
      in if isEip150
         then let available = availableGas - base;
                  gas = available - available div 64
              in if \<not> IsUint64 callCost \<or> gas < Uint64 callCost then Inr gas else rest
         else rest)"

end
