(* ===== verification/Analysis.thy ===== *)
theory Analysis
  imports Machine
begin

text \<open>
  \<^verbatim>\<open>core/vm/analysis.go\<close>: the bitmap that marks the bytes of a contract that are data of a
  PUSH instruction.  The bit operations are the code's, eight and sixteen bits at a time; the theorem
  at the end compares the bitmap with the plain definition of an instruction boundary.
\<close>

section \<open>Bit vectors\<close>

type_synonym bitvec = bytes

definition or_byte :: "bitvec \<Rightarrow> nat \<Rightarrow> byte \<Rightarrow> bitvec option" where
  "or_byte bits i a = do { b \<leftarrow> idx bits i; Some (bits[i := b OR a]) }"

definition put_byte :: "bitvec \<Rightarrow> nat \<Rightarrow> byte \<Rightarrow> bitvec option" where
  "put_byte bits i a = do { require (i < length bits); Some (bits[i := a]) }"

definition set1 :: "bitvec \<Rightarrow> nat \<Rightarrow> bitvec option" where
  "set1 bits pos = or_byte bits (pos div 8) (push_bit (pos mod 8) 1)"

definition setN :: "bitvec \<Rightarrow> 16 word \<Rightarrow> nat \<Rightarrow> bitvec option" where
  "setN bits flag pos =
     (let a = push_bit (pos mod 8) flag;
          b = ucast (drop_bit 8 a) :: byte
      in do {
        bits \<leftarrow> or_byte bits (pos div 8) (ucast a);
        if b \<noteq> 0 then put_byte bits (pos div 8 + 1) b else Some bits })"

definition set8 :: "bitvec \<Rightarrow> nat \<Rightarrow> bitvec option" where
  "set8 bits pos =
     (let a = push_bit (pos mod 8) 0xFF
      in do {
        bits \<leftarrow> or_byte bits (pos div 8) a;
        put_byte bits (pos div 8 + 1) (NOT a) })"

definition set16 :: "bitvec \<Rightarrow> nat \<Rightarrow> bitvec option" where
  "set16 bits pos =
     (let a = push_bit (pos mod 8) 0xFF
      in do {
        bits \<leftarrow> or_byte bits (pos div 8) a;
        bits \<leftarrow> put_byte bits (pos div 8 + 1) 0xFF;
        put_byte bits (pos div 8 + 2) (NOT a) })"

definition codeSegment :: "bitvec \<Rightarrow> nat \<Rightarrow> bool option" where
  "codeSegment bits pos = do {
     b \<leftarrow> idx bits (pos div 8);
     Some ((drop_bit (pos mod 8) b) AND 1 = 0) }"

section \<open>The scan\<close>

abbreviation (input) PUSH1 :: byte where "PUSH1 \<equiv> 0x60"

text \<open>The two inner loops.\<close>

fun mark16 :: "bitvec \<Rightarrow> nat \<Rightarrow> nat \<Rightarrow> (bitvec \<times> nat \<times> nat) option" where
  "mark16 bits pc n =
     (if n \<ge> 16 then do { bits \<leftarrow> set16 bits pc; mark16 bits (pc + 16) (n - 16) } else Some (bits, pc, n))"

fun mark8 :: "bitvec \<Rightarrow> nat \<Rightarrow> nat \<Rightarrow> (bitvec \<times> nat \<times> nat) option" where
  "mark8 bits pc n =
     (if n \<ge> 8 then do { bits \<leftarrow> set8 bits pc; mark8 bits (pc + 8) (n - 8) } else Some (bits, pc, n))"

declare mark16.simps [simp del] mark8.simps [simp del]

definition mark_rest :: "bitvec \<Rightarrow> nat \<Rightarrow> nat \<Rightarrow> (bitvec \<times> nat) option" where
  "mark_rest bits pc n =
     (if n = 1 then do { bits \<leftarrow> set1 bits pc; Some (bits, pc + 1) }
      else if n = 2 then do { bits \<leftarrow> setN bits 0b11 pc; Some (bits, pc + 2) }
      else if n = 3 then do { bits \<leftarrow> setN bits 0b111 pc; Some (bits, pc + 3) }
      else if n = 4 then do { bits \<leftarrow> setN bits 0b1111 pc; Some (bits, pc + 4) }
      else if n = 5 then do { bits \<leftarrow> setN bits 0b11111 pc; Some (bits, pc + 5) }
      else if n = 6 then do { bits \<leftarrow> setN bits 0b111111 pc; Some (bits, pc + 6) }
      else if n = 7 then do { bits \<leftarrow> setN bits 0b1111111 pc; Some (bits, pc + 7) }
      else Some (bits, pc))"

definition mark_push :: "bitvec \<Rightarrow> nat \<Rightarrow> nat \<Rightarrow> (bitvec \<times> nat) option" where
  "mark_push bits pc numbits = do {
     (bits, pc, n) \<leftarrow> (if numbits \<ge> 8
       then do { (bits, pc, n) \<leftarrow> mark16 bits pc numbits; mark8 bits pc n }
       else Some (bits, pc, numbits));
     mark_rest bits pc n }"

text \<open>One turn of the loop of \<open>codeBitmapInternal\<close>; \<open>int8\<close> is the signed reading of a byte.\<close>

definition scan_op :: "bytes \<Rightarrow> bitvec \<Rightarrow> nat \<Rightarrow> (bitvec \<times> nat) option" where
  "scan_op code bits pc = do {
     opcode \<leftarrow> idx code pc;
     if sint opcode < sint PUSH1 then Some (bits, pc + 1)
     else mark_push bits (pc + 1) (unat (opcode - PUSH1 + 1)) }"

text \<open>Every turn moves the program counter on by at least one, so \<open>len(code)\<close> turns are enough.\<close>

fun codeBitmapInternal :: "nat \<Rightarrow> bytes \<Rightarrow> bitvec \<Rightarrow> nat \<Rightarrow> bitvec option" where
  "codeBitmapInternal 0 code bits pc = (if pc < length code then None else Some bits)"
| "codeBitmapInternal (Suc fuel) code bits pc =
     (if pc < length code
      then do { (bits, pc) \<leftarrow> scan_op code bits pc; codeBitmapInternal fuel code bits pc }
      else Some bits)"

definition codeBitmap :: "bytes \<Rightarrow> bitvec option" where
  "codeBitmap code = codeBitmapInternal (length code) code (replicate (length code div 8 + 1 + 4) 0) 0"

section \<open>Bits of the vector\<close>

definition bv :: "bitvec \<Rightarrow> nat \<Rightarrow> bool" where
  "bv bits p \<longleftrightarrow> p div 8 < length bits \<and> bit (bits ! (p div 8)) (p mod 8)"

lemma codeSegment_bv: "p div 8 < length bits \<Longrightarrow> codeSegment bits p = Some (\<not> bv bits p)"
  by (simp add: codeSegment_def bv_def idx_def and_one_eq bit_iff_odd_drop_bit even_iff_mod_2_eq_zero)

text \<open>\<open>n\<close> bits from \<open>pos\<close> on are set, on a vector that has none set from there on.\<close>

definition marks :: "bitvec \<Rightarrow> nat \<Rightarrow> nat \<Rightarrow> bitvec \<Rightarrow> bool" where
  "marks bits pos n bits' \<longleftrightarrow> length bits' = length bits \<and>
     (\<forall>p. bv bits' p \<longleftrightarrow> bv bits p \<or> (pos \<le> p \<and> p < pos + n))"

definition clean :: "bitvec \<Rightarrow> nat \<Rightarrow> bool" where
  "clean bits pos \<longleftrightarrow> (\<forall>p \<ge> pos. \<not> bv bits p)"

lemma marks_clean: "marks bits pos n bits' \<Longrightarrow> clean bits pos \<Longrightarrow> clean bits' (pos + n)"
  by (auto simp: marks_def clean_def)

lemma marks_trans: "marks a pos n b \<Longrightarrow> marks b (pos + n) m c \<Longrightarrow> marks a pos (n + m) c"
  unfolding marks_def by (metis (no_types, lifting) add.assoc le_add1 le_trans less_le_trans not_le)

text \<open>Where a position lies relative to the one the marking starts at, from its byte and bit.\<close>

lemma pos_split:
  fixes p pos :: nat
  shows "p div 8 = pos div 8 \<Longrightarrow> pos mod 8 \<le> p mod 8 \<longleftrightarrow> pos \<le> p"
    "p div 8 = pos div 8 \<Longrightarrow> p < pos + 8"
    "p div 8 = pos div 8 + 1 \<Longrightarrow> p mod 8 < pos mod 8 \<longleftrightarrow> p < pos + 8"
    "p div 8 = pos div 8 + 1 \<Longrightarrow> pos \<le> p \<and> p < pos + 16"
    "p div 8 = pos div 8 + 2 \<Longrightarrow> p mod 8 < pos mod 8 \<longleftrightarrow> p < pos + 16"
    "p div 8 = pos div 8 + 2 \<Longrightarrow> pos \<le> p"
    "p div 8 \<noteq> pos div 8 \<Longrightarrow> p div 8 \<noteq> pos div 8 + 1 \<Longrightarrow> \<not> (pos \<le> p \<and> p < pos + 8)"
    "p div 8 \<noteq> pos div 8 \<Longrightarrow> p div 8 \<noteq> pos div 8 + 1 \<Longrightarrow> p div 8 \<noteq> pos div 8 + 2 \<Longrightarrow> \<not> (pos \<le> p \<and> p < pos + 16)"
proof -
  have p: "p = 8 * (p div 8) + p mod 8" "p mod 8 < 8" and q: "pos = 8 * (pos div 8) + pos mod 8" "pos mod 8 < 8"
    by auto
  show "p div 8 = pos div 8 \<Longrightarrow> pos mod 8 \<le> p mod 8 \<longleftrightarrow> pos \<le> p" using p q by linarith
  show "p div 8 = pos div 8 \<Longrightarrow> p < pos + 8" using p q by linarith
  show "p div 8 = pos div 8 + 1 \<Longrightarrow> p mod 8 < pos mod 8 \<longleftrightarrow> p < pos + 8" using p q by linarith
  show "p div 8 = pos div 8 + 1 \<Longrightarrow> pos \<le> p \<and> p < pos + 16" using p q by linarith
  show "p div 8 = pos div 8 + 2 \<Longrightarrow> p mod 8 < pos mod 8 \<longleftrightarrow> p < pos + 16" using p q by linarith
  show "p div 8 = pos div 8 + 2 \<Longrightarrow> pos \<le> p" using p q by linarith
  show "p div 8 \<noteq> pos div 8 \<Longrightarrow> p div 8 \<noteq> pos div 8 + 1 \<Longrightarrow> \<not> (pos \<le> p \<and> p < pos + 8)" using p q by linarith
  show "p div 8 \<noteq> pos div 8 \<Longrightarrow> p div 8 \<noteq> pos div 8 + 1 \<Longrightarrow> p div 8 \<noteq> pos div 8 + 2 \<Longrightarrow> \<not> (pos \<le> p \<and> p < pos + 16)"
    using p q by linarith
qed

lemma bv_split: "bv bits (8 * q + i) \<longleftrightarrow> q < length bits \<and> bit (bits ! q) i" if "i < 8" for q i
  using that by (simp add: bv_def)

lemma bit_FF: "bit (push_bit r 0xFF :: byte) i \<longleftrightarrow> r \<le> i \<and> i < 8"
proof -
  have FF: "(0xFF :: byte) = mask 8" by (simp add: mask_eq_exp_minus_1)
  show ?thesis unfolding FF by (auto simp: bit_simps)
qed

lemma set8_marks:
  assumes c: "clean bits pos" and room: "pos div 8 + 1 < length bits"
  shows "\<exists>bits'. set8 bits pos = Some bits' \<and> marks bits pos 8 bits'"
proof -
  let ?q = "pos div 8" and ?r = "pos mod 8"
  let ?a = "push_bit ?r 0xFF :: byte"
  let ?b = "bits[?q := bits ! ?q OR ?a, ?q + 1 := NOT ?a]"
  have "set8 bits pos = Some ?b" using room by (simp add: set8_def or_byte_def put_byte_def Let_def idx_def)
  moreover have "bv ?b p \<longleftrightarrow> bv bits p \<or> (pos \<le> p \<and> p < pos + 8)" for p
  proof -
    have cl: "\<not> bv bits p" if "pos \<le> p" using c that by (simp add: clean_def)
    consider "p div 8 = ?q" | "p div 8 = ?q + 1" | "p div 8 \<noteq> ?q" "p div 8 \<noteq> ?q + 1" by blast
    then show ?thesis
    proof cases
      case 1
      then have "bv ?b p \<longleftrightarrow> bv bits p \<or> ?r \<le> p mod 8"
        using room by (simp add: bv_def bit_or_iff bit_FF)
      moreover have "?r \<le> p mod 8 \<longleftrightarrow> pos \<le> p \<and> p < pos + 8" using pos_split(1,2) [OF 1] by blast
      ultimately show ?thesis by blast
    next
      case 2
      then have "bv ?b p \<longleftrightarrow> p mod 8 < ?r"
        using room by (simp add: bv_def bit_not_iff bit_FF not_le)
      moreover have "p mod 8 < ?r \<longleftrightarrow> pos \<le> p \<and> p < pos + 8" "pos \<le> p" using pos_split(3,4) [OF 2] by blast+
      ultimately show ?thesis using cl by blast
    next
      case 3
      then have "bv ?b p = bv bits p" by (simp add: bv_def)
      moreover have "\<not> (pos \<le> p \<and> p < pos + 8)" by (rule pos_split(7) [OF 3])
      ultimately show ?thesis by blast
    qed
  qed
  ultimately show ?thesis by (auto simp: marks_def)
qed

lemma set16_marks:
  assumes c: "clean bits pos" and room: "pos div 8 + 2 < length bits"
  shows "\<exists>bits'. set16 bits pos = Some bits' \<and> marks bits pos 16 bits'"
proof -
  let ?q = "pos div 8" and ?r = "pos mod 8"
  let ?a = "push_bit ?r 0xFF :: byte"
  let ?b = "bits[?q := bits ! ?q OR ?a, ?q + 1 := 0xFF, ?q + 2 := NOT ?a]"
  have "set16 bits pos = Some ?b" using room by (simp add: set16_def or_byte_def put_byte_def Let_def idx_def)
  moreover have "bv ?b p \<longleftrightarrow> bv bits p \<or> (pos \<le> p \<and> p < pos + 16)" for p
  proof -
    have cl: "\<not> bv bits p" if "pos \<le> p" using c that by (simp add: clean_def)
    consider "p div 8 = ?q" | "p div 8 = ?q + 1" | "p div 8 = ?q + 2"
      | "p div 8 \<noteq> ?q" "p div 8 \<noteq> ?q + 1" "p div 8 \<noteq> ?q + 2" by blast
    then show ?thesis
    proof cases
      case 1
      then have "bv ?b p \<longleftrightarrow> bv bits p \<or> ?r \<le> p mod 8"
        using room by (simp add: bv_def bit_or_iff bit_FF)
      moreover have "?r \<le> p mod 8 \<longleftrightarrow> pos \<le> p \<and> p < pos + 16"
        using pos_split(1,2) [OF 1] by linarith
      ultimately show ?thesis by blast
    next
      case 2
      then have "bv ?b p" using room bit_FF [of 0 "p mod 8"] by (simp add: bv_def)
      moreover have "pos \<le> p \<and> p < pos + 16" by (rule pos_split(4) [OF 2])
      ultimately show ?thesis by blast
    next
      case 3
      then have "bv ?b p \<longleftrightarrow> p mod 8 < ?r"
        using room by (simp add: bv_def bit_not_iff bit_FF not_le)
      moreover have "p mod 8 < ?r \<longleftrightarrow> pos \<le> p \<and> p < pos + 16" "pos \<le> p" using pos_split(5,6) [OF 3] by blast+
      ultimately show ?thesis using cl by blast
    next
      case 4
      then have "bv ?b p = bv bits p" by (simp add: bv_def)
      moreover have "\<not> (pos \<le> p \<and> p < pos + 16)" by (rule pos_split(8) [OF 4])
      ultimately show ?thesis by blast
    qed
  qed
  ultimately show ?thesis by (auto simp: marks_def)
qed

lemma pos_split_n:
  fixes p pos :: nat
  assumes "n \<le> 8"
  shows "p div 8 = pos div 8 \<Longrightarrow> p < pos + n \<longleftrightarrow> p mod 8 < pos mod 8 + n"
    "p div 8 = pos div 8 + 1 \<Longrightarrow> p < pos + n \<longleftrightarrow> p mod 8 + 8 < pos mod 8 + n"
proof -
  have p: "p = 8 * (p div 8) + p mod 8" "p mod 8 < 8" and q: "pos = 8 * (pos div 8) + pos mod 8" "pos mod 8 < 8"
    by auto
  show "p div 8 = pos div 8 \<Longrightarrow> p < pos + n \<longleftrightarrow> p mod 8 < pos mod 8 + n" using p q by linarith
  show "p div 8 = pos div 8 + 1 \<Longrightarrow> p < pos + n \<longleftrightarrow> p mod 8 + 8 < pos mod 8 + n" using p q by linarith
qed

lemma setN_marks:
  assumes c: "clean bits pos" and room: "pos div 8 + 1 < length bits" and n: "n \<le> 7"
    and flag: "flag = mask n"
  shows "\<exists>bits'. setN bits flag pos = Some bits' \<and> marks bits pos n bits'"
proof -
  let ?q = "pos div 8" and ?r = "pos mod 8"
  let ?a = "push_bit ?r flag"
  let ?lo = "ucast ?a :: byte" and ?hi = "ucast (drop_bit 8 ?a) :: byte"
  have lo: "bit ?lo i \<longleftrightarrow> i < 8 \<and> ?r \<le> i \<and> i < ?r + n" for i
    unfolding flag by (auto simp: bit_simps)
  have hi: "bit ?hi i \<longleftrightarrow> i < 8 \<and> i + 8 < ?r + n" for i
  proof -
    have "?r < 8" by simp
    with n show ?thesis unfolding flag by (auto simp: bit_simps)
  qed
  let ?b = "if ?hi \<noteq> 0 then bits[?q := bits ! ?q OR ?lo, ?q + 1 := ?hi] else bits[?q := bits ! ?q OR ?lo]"
  have "setN bits flag pos = Some ?b"
    using room by (simp add: setN_def or_byte_def put_byte_def Let_def idx_def)
  moreover have "bv ?b p \<longleftrightarrow> bv bits p \<or> (pos \<le> p \<and> p < pos + n)" for p
  proof -
    have cl: "\<not> bv bits p" if "pos \<le> p" using c that by (simp add: clean_def)
    have m8: "p mod 8 < 8" by simp
    consider "p div 8 = ?q" | "p div 8 = ?q + 1" | "p div 8 \<noteq> ?q" "p div 8 \<noteq> ?q + 1" by blast
    then show ?thesis
    proof cases
      case 1
      then have "bv ?b p \<longleftrightarrow> bv bits p \<or> bit ?lo (p mod 8)"
        using room by (simp add: bv_def bit_or_iff)
      also have "bit ?lo (p mod 8) \<longleftrightarrow> pos \<le> p \<and> p < pos + n"
        unfolding lo using pos_split(1) [OF 1] pos_split_n(1) [OF _ 1, of n] n m8 by auto
      finally show ?thesis .
    next
      case 2
      have pp: "pos \<le> p" using pos_split(4) [OF 2] by blast
      have z: "\<not> bit (bits ! (?q + 1)) (p mod 8)" using cl [OF pp] 2 room by (simp add: bv_def)
      have "bv ?b p \<longleftrightarrow> bit ?hi (p mod 8)"
      proof (cases "?hi = 0")
        case True
        with 2 room z show ?thesis by (simp add: bv_def)
      next
        case False
        with 2 room show ?thesis by (simp add: bv_def)
      qed
      also have "bit ?hi (p mod 8) \<longleftrightarrow> p < pos + n"
        unfolding hi using pos_split_n(2) [OF _ 2, of n] n m8 by auto
      finally show ?thesis using pp cl by blast
    next
      case 3
      then have "bv ?b p = bv bits p" by (simp add: bv_def)
      moreover have "\<not> (pos \<le> p \<and> p < pos + n)" using pos_split(7) [OF 3] n by linarith
      ultimately show ?thesis by blast
    qed
  qed
  ultimately show ?thesis by (auto simp: marks_def)
qed

lemma set1_marks:
  assumes room: "pos div 8 < length bits"
  shows "\<exists>bits'. set1 bits pos = Some bits' \<and> marks bits pos 1 bits'"
proof -
  let ?b = "bits[pos div 8 := bits ! (pos div 8) OR push_bit (pos mod 8) 1]"
  have "bv ?b p \<longleftrightarrow> bv bits p \<or> (pos \<le> p \<and> p < pos + 1)" for p
  proof (cases "p div 8 = pos div 8")
    case True
    then have "bv ?b p \<longleftrightarrow> bv bits p \<or> p mod 8 = pos mod 8"
      using room by (auto simp: bv_def bit_or_iff bit_simps)
    also have "p mod 8 = pos mod 8 \<longleftrightarrow> p = pos" using True by (metis div_mult_mod_eq)
    finally show ?thesis by auto
  next
    case False
    then show ?thesis by (auto simp: bv_def)
  qed
  then show ?thesis using room by (auto simp: set1_def or_byte_def marks_def idx_def)
qed

lemma mark_rest_marks:
  assumes "clean bits pos" "n = 0 \<or> pos div 8 + 1 < length bits" "n \<le> 7"
  shows "\<exists>bits'. mark_rest bits pos n = Some (bits', pos + n) \<and> marks bits pos n bits'"
proof -
  have m: "mask (Suc 0) = (1 :: 16 word)" "mask 2 = (0b11 :: 16 word)" "mask 3 = (0b111 :: 16 word)"
    "mask 4 = (0b1111 :: 16 word)" "mask 5 = (0b11111 :: 16 word)" "mask 6 = (0b111111 :: 16 word)"
    "mask 7 = (0b1111111 :: 16 word)"
    by (simp_all add: mask_eq_exp_minus_1)
  consider "n = 0" | "n = 1" | "n \<in> {2, 3, 4, 5, 6, 7}" using assms(3) by force
  then show ?thesis
  proof cases
    case 1
    then show ?thesis by (auto simp: mark_rest_def marks_def)
  next
    case 2
    from set1_marks [of pos bits] assms 2 show ?thesis by (auto simp: mark_rest_def)
  next
    case 3
    from setN_marks [OF assms(1) _ assms(3) refl] assms(2) 3 show ?thesis by (auto simp: mark_rest_def m)
  qed
qed

lemma mark16_marks:
  "clean bits pos \<Longrightarrow> (pos + n) div 8 < length bits \<Longrightarrow>
   \<exists>bits' k. mark16 bits pos n = Some (bits', pos + k, n - k) \<and> k \<le> n \<and> n - k < 16 \<and> 8 dvd k \<and> marks bits pos k bits'"
proof (induction bits pos n rule: mark16.induct)
  case (1 bits pos n)
  show ?case
  proof (cases "n \<ge> 16")
    case True
    have "pos div 8 + 2 \<le> (pos + n) div 8" using True by linarith
    then have "pos div 8 + 2 < length bits" using "1.prems"(2) by linarith
    from set16_marks [OF "1.prems"(1) this] obtain b where b: "set16 bits pos = Some b" "marks bits pos 16 b" by blast
    have "clean b (pos + 16)" "(pos + 16 + (n - 16)) div 8 < length b"
      using marks_clean [OF b(2) "1.prems"(1)] b(2) "1.prems"(2) True by (simp_all add: marks_def)
    from "1.IH" [OF True b(1) this] obtain b' k where
      "mark16 b (pos + 16) (n - 16) = Some (b', pos + 16 + k, n - 16 - k)" "k \<le> n - 16" "n - 16 - k < 16" "8 dvd k"
      "marks b (pos + 16) k b'" by blast
    with b True marks_trans [OF b(2), of k b'] show ?thesis
      by (subst mark16.simps) (auto intro!: exI [of _ b'] exI [of _ "16 + k"])
  next
    case False
    then show ?thesis by (subst mark16.simps) (auto simp: marks_def intro!: exI [of _ 0])
  qed
qed

lemma mark8_marks:
  "clean bits pos \<Longrightarrow> (pos + n) div 8 < length bits \<Longrightarrow>
   \<exists>bits' k. mark8 bits pos n = Some (bits', pos + k, n - k) \<and> k \<le> n \<and> n - k < 8 \<and> 8 dvd k \<and> marks bits pos k bits'"
proof (induction bits pos n rule: mark8.induct)
  case (1 bits pos n)
  show ?case
  proof (cases "n \<ge> 8")
    case True
    have "pos div 8 + 1 \<le> (pos + n) div 8" using True by linarith
    then have "pos div 8 + 1 < length bits" using "1.prems"(2) by linarith
    from set8_marks [OF "1.prems"(1) this] obtain b where b: "set8 bits pos = Some b" "marks bits pos 8 b" by blast
    have "clean b (pos + 8)" "(pos + 8 + (n - 8)) div 8 < length b"
      using marks_clean [OF b(2) "1.prems"(1)] b(2) "1.prems"(2) True by (simp_all add: marks_def)
    from "1.IH" [OF True b(1) this] obtain b' k where
      "mark8 b (pos + 8) (n - 8) = Some (b', pos + 8 + k, n - 8 - k)" "k \<le> n - 8" "n - 8 - k < 8" "8 dvd k"
      "marks b (pos + 8) k b'" by blast
    with b True marks_trans [OF b(2), of k b'] show ?thesis
      by (subst mark8.simps) (auto intro!: exI [of _ b'] exI [of _ "8 + k"])
  next
    case False
    then show ?thesis by (subst mark8.simps) (auto simp: marks_def intro!: exI [of _ 0])
  qed
qed

lemma mark_push_marks:
  assumes c: "clean bits pos" and room: "(pos + n) div 8 < length bits"
    "n mod 8 = 0 \<or> pos div 8 + n div 8 + 1 < length bits"
  shows "\<exists>bits'. mark_push bits pos n = Some (bits', pos + n) \<and> marks bits pos n bits'"
proof (cases "n \<ge> 8")
  case True
  from mark16_marks [OF c room(1)] obtain b k where b: "mark16 bits pos n = Some (b, pos + k, n - k)"
    "k \<le> n" "n - k < 16" "8 dvd k" "marks bits pos k b" by auto
  have cb: "clean b (pos + k)" by (rule marks_clean [OF b(5) c])
  have l: "length b = length bits" using b(5) by (simp add: marks_def)
  from mark8_marks [OF cb, of "n - k"] b(2) l room obtain b2 j where b2:
    "mark8 b (pos + k) (n - k) = Some (b2, pos + k + j, n - k - j)" "j \<le> n - k" "n - k - j < 8" "8 dvd j"
    "marks b (pos + k) j b2"
    by auto
  have cb2: "clean b2 (pos + k + j)" by (rule marks_clean [OF b2(5) cb])
  have l2: "length b2 = length bits" using b2(5) l by (simp add: marks_def)
  have kj: "k + j = 8 * (n div 8)" "n - k - j = n mod 8"
  proof -
    obtain q where q: "k + j = 8 * q" using b(4) b2(4) by (meson dvd_add dvdE)
    have n: "n = 8 * q + (n - k - j)" using b(2) b2(2) q by linarith
    then have "n div 8 = q" "n mod 8 = n - k - j" using b2(3) by (metis div_mult_self4 div_less add.commute add_0
          zero_neq_numeral mult.commute, metis mod_mult_self4 mod_less mult.commute)
    with q show "k + j = 8 * (n div 8)" "n - k - j = n mod 8" by simp_all
  qed
  have "(pos + k + j) div 8 = pos div 8 + n div 8" using kj(1) by (simp add: add.assoc)
  with mark_rest_marks [OF cb2, of "n - k - j"] b2 l2 room kj obtain b3 where b3:
    "mark_rest b2 (pos + k + j) (n - k - j) = Some (b3, pos + k + j + (n - k - j))"
    "marks b2 (pos + k + j) (n - k - j) b3" by auto
  have "marks bits pos (k + j) b2"
    using marks_trans [OF b(5) b2(5)] .
  from marks_trans [OF this, of "n - k - j" b3] b3(2) b(2) b2(2) have "marks bits pos n b3"
    by (simp add: add.assoc)
  with True b b2 b3 show ?thesis by (simp add: mark_push_def)
next
  case False
  then have "n mod 8 = n" "n div 8 = 0" by auto
  with mark_rest_marks [OF c, of n] False room show ?thesis by (auto simp: mark_push_def)
qed

section \<open>Instruction boundaries\<close>

text \<open>The number of data bytes that follow an opcode.\<close>

definition push_len :: "byte \<Rightarrow> nat" where
  "push_len b = (if 0x60 \<le> b \<and> b \<le> 0x7f then unat b - 0x5f else 0)"

inductive boundary :: "bytes \<Rightarrow> nat \<Rightarrow> bool" for code where
  boundary_start: "boundary code 0"
| boundary_next: "boundary code pc \<Longrightarrow> pc < length code \<Longrightarrow> boundary code (pc + 1 + push_len (code ! pc))"

definition next_pc :: "bytes \<Rightarrow> nat \<Rightarrow> nat" where
  "next_pc code p = (if p < length code then p + 1 + push_len (code ! p) else p)"

lemma boundary_funpow: "boundary code p \<Longrightarrow> \<exists>k. (next_pc code ^^ k) 0 = p"
proof (induction rule: boundary.induct)
  case boundary_start
  show ?case by (rule exI [of _ 0]) simp
next
  case (boundary_next pc)
  then obtain k where "(next_pc code ^^ k) 0 = pc" by blast
  with boundary_next show ?case by (intro exI [of _ "Suc k"]) (simp add: next_pc_def [of _ pc])
qed

lemma next_pc_mono: "i \<le> j \<Longrightarrow> (next_pc code ^^ i) 0 \<le> (next_pc code ^^ j) 0"
proof (induction j)
  case (Suc j)
  have "(next_pc code ^^ j) 0 \<le> (next_pc code ^^ Suc j) 0" by (simp add: next_pc_def)
  with Suc show ?case by (cases "i = Suc j") auto
qed simp

text \<open>No boundary lies inside an instruction.\<close>

lemma boundary_gap:
  assumes "boundary code p" "boundary code q" "p < length code" "p < q"
  shows "p + 1 + push_len (code ! p) \<le> q"
proof -
  from assms obtain i j where ij: "(next_pc code ^^ i) 0 = p" "(next_pc code ^^ j) 0 = q"
    using boundary_funpow by blast
  have "\<not> j \<le> i" using next_pc_mono [of j i code] ij assms(4) by auto
  then have "(next_pc code ^^ Suc i) 0 \<le> q" using next_pc_mono [of "Suc i" j code] ij by simp
  then show ?thesis using ij(1) assms(3) by (simp add: next_pc_def)
qed

text \<open>The signed comparison and the subtraction of the code compute \<open>push_len\<close>.\<close>

lemma push_len_scan:
  "sint b < sint PUSH1 \<Longrightarrow> push_len b = 0"
  "\<not> sint b < sint PUSH1 \<Longrightarrow> unat (b - PUSH1 + 1) = push_len b \<and> push_len b \<le> 32"
proof -
  have s: "sint b = (if unat b < 128 then int (unat b) else int (unat b) - 256)"
  proof -
    have "sint b = (int (unat b) + 128) mod 256 - 128"
      by (simp add: sint_uint signed_take_bit_eq_take_bit_shift take_bit_eq_mod)
    moreover have key: "(k + 128) mod 256 - 128 = (if k < 128 then k else k - 256)" if "0 \<le> k" "k < 256" for k :: int
    proof (cases "k < 128")
      case True
      with that show ?thesis by (simp add: mod_pos_pos_trivial)
    next
      case False
      have "(k + 128) mod 256 = (k - 128 + 256) mod 256" by (rule arg_cong) simp
      also have "\<dots> = k - 128" using that False by (simp only: mod_add_self2) (simp add: mod_pos_pos_trivial)
      finally show ?thesis using False by simp
    qed
    have "int (unat b) < 256" using unsigned_less [of b] by simp
    from key [OF _ this] have "(int (unat b) + 128) mod 256 - 128 =
        (if unat b < 128 then int (unat b) else int (unat b) - 256)"
      by (simp only: of_nat_0_le_iff of_nat_less_numeral_iff)
    ultimately show ?thesis by (simp only:)
  qed
  have u: "unat b < 256" using unsigned_less [of b] by simp
  have P: "sint PUSH1 = 96" by simp
  show "sint b < sint PUSH1 \<Longrightarrow> push_len b = 0"
  proof -
    assume l: "sint b < sint PUSH1"
    have "\<not> (96 \<le> unat b \<and> unat b < 128)"
    proof
      assume "96 \<le> unat b \<and> unat b < 128"
      then have "sint b = int (unat b)" "96 \<le> int (unat b)" using s by (simp_all only: if_True, linarith)
      with l P show False by linarith
    qed
    then show ?thesis by (auto simp: push_len_def word_le_nat_alt)
  qed
  show "\<not> sint b < sint PUSH1 \<Longrightarrow> unat (b - PUSH1 + 1) = push_len b \<and> push_len b \<le> 32"
  proof -
    assume "\<not> sint b < sint PUSH1"
    then have "sint b \<ge> 96" using P by linarith
    moreover have "sint b = int (unat b) \<and> unat b < 128 \<or> sint b = int (unat b) - 256"
      using s by (simp only: if_split, blast)
    ultimately have "96 \<le> unat b \<and> unat b < 128" using u by linarith
    then have b: "96 \<le> unat b" "unat b < 128" by auto
    have le: "95 \<le> b" using b by (simp add: word_le_nat_alt)
    have "unat (b - PUSH1 + 1) = unat (b - 95)" by simp
    also have "\<dots> = unat b - 95" using unat_sub [OF le] by simp
    finally have "unat (b - PUSH1 + 1) = unat b - 95" .
    with b show ?thesis by (auto simp: push_len_def word_le_nat_alt)
  qed
qed

section \<open>The bitmap is right\<close>

text \<open>The bits below \<open>pc\<close> are the positions that are no boundary.\<close>

definition scanned :: "bytes \<Rightarrow> bitvec \<Rightarrow> nat \<Rightarrow> bool" where
  "scanned code bits pc \<longleftrightarrow> length bits = length code div 8 + 5 \<and> boundary code pc \<and> clean bits pc \<and>
     (\<forall>p < pc. bv bits p \<longleftrightarrow> \<not> boundary code p)"

lemma scan_op_scanned:
  assumes sc: "scanned code bits pc" and pc: "pc < length code"
  shows "\<exists>bits'. scan_op code bits pc = Some (bits', pc + 1 + push_len (code ! pc)) \<and>
    scanned code bits' (pc + 1 + push_len (code ! pc))"
proof -
  let ?b = "code ! pc" and ?n = "push_len (code ! pc)"
  have bd: "boundary code (pc + 1 + ?n)" using boundary_next [of code pc] sc pc by (simp add: scanned_def)
  have c1: "clean bits (pc + 1)" using sc by (auto simp: scanned_def clean_def)
  have inner: "\<not> boundary code p" if "pc < p" "p < pc + 1 + ?n" for p
    using boundary_gap [of code pc p] sc pc that by (auto simp: scanned_def)
  have old: "bv bits p \<longleftrightarrow> \<not> boundary code p" if "p \<le> pc" for p
    using sc that by (cases "p = pc") (auto simp: scanned_def clean_def)
  have n32: "?n \<le> 32" using push_len_scan [of ?b] by (cases "sint ?b < sint PUSH1") auto
  have fin: "\<exists>bits'. Some (b', pc + 1 + ?n) = Some (bits', pc + 1 + ?n) \<and> scanned code bits' (pc + 1 + ?n)"
    if m: "marks bits (pc + 1) ?n b'" for b'
  proof -
    have "bv b' p \<longleftrightarrow> \<not> boundary code p" if "p < pc + 1 + ?n" for p
      using m old [of p] inner [of p] that c1 by (cases "p \<le> pc") (auto simp: marks_def clean_def)
    with m bd marks_clean [OF m c1] sc show ?thesis by (auto simp: scanned_def marks_def)
  qed
  show ?thesis
  proof (cases "sint ?b < sint PUSH1")
    case True
    then have "?n = 0" by (rule push_len_scan)
    then have "marks bits (pc + 1) ?n bits" by (auto simp: marks_def)
    from fin [OF this] True pc \<open>?n = 0\<close> show ?thesis by (simp add: scan_op_def idx_def)
  next
    case False
    then have n: "unat (?b - PUSH1 + 1) = ?n" using push_len_scan by blast
    have "(pc + 1 + ?n) div 8 \<le> (length code + 32) div 8" using pc n32 by (intro div_le_mono) linarith
    then have r1: "(pc + 1 + ?n) div 8 < length bits" using sc by (simp add: scanned_def)
    have r2: "?n mod 8 = 0 \<or> (pc + 1) div 8 + ?n div 8 + 1 < length bits"
    proof (cases "?n = 32")
      case f: False
      have "(pc + 1) div 8 \<le> length code div 8" using pc by (intro div_le_mono) linarith
      moreover have "?n div 8 \<le> 3" using n32 f by linarith
      ultimately show ?thesis using sc by (simp add: scanned_def)
    qed simp
    from mark_push_marks [OF c1 r1 r2] obtain b' where b': "mark_push bits (pc + 1) ?n = Some (b', pc + 1 + ?n)"
      "marks bits (pc + 1) ?n b'" by blast
    from fin [OF b'(2)] b'(1) False pc n show ?thesis by (simp add: scan_op_def idx_def)
  qed
qed

lemma codeBitmapInternal_scanned:
  "scanned code bits pc \<Longrightarrow> length code \<le> pc + fuel \<Longrightarrow>
   \<exists>bits' pc'. codeBitmapInternal fuel code bits pc = Some bits' \<and> scanned code bits' pc' \<and> length code \<le> pc'"
proof (induction fuel arbitrary: bits pc)
  case (Suc fuel)
  show ?case
  proof (cases "pc < length code")
    case True
    from scan_op_scanned [OF Suc.prems(1) True] obtain b where
      b: "scan_op code bits pc = Some (b, pc + 1 + push_len (code ! pc))" "scanned code b (pc + 1 + push_len (code ! pc))"
      by blast
    from Suc.IH [OF b(2)] Suc.prems(2) True b(1) show ?thesis by auto
  qed (use Suc in auto)
qed auto

lemma codeBitmap_code:
  "\<exists>bits. codeBitmap code = Some bits \<and>
     (\<forall>p < length code. codeSegment bits p = Some (boundary code p))"
proof -
  have "scanned code (replicate (length code div 8 + 1 + 4) 0) 0"
    by (auto simp: scanned_def clean_def bv_def intro: boundary_start)
  from codeBitmapInternal_scanned [OF this, of "length code"] obtain bits pc where
    b: "codeBitmap code = Some bits" "scanned code bits pc" "length code \<le> pc"
    by (auto simp: codeBitmap_def)
  have "codeSegment bits p = Some (boundary code p)" if "p < length code" for p
  proof -
    have "p div 8 \<le> length code div 8" using that by (intro div_le_mono) linarith
    then have "p div 8 < length bits" using b(2) by (simp add: scanned_def)
    with b that show ?thesis by (simp add: codeSegment_bv scanned_def)
  qed
  with b(1) show ?thesis by blast
qed

text \<open>
  C22: The jump-destination analysis never indexes out of range, always finishes, and classifies every
  byte of every contract correctly: a position counts as code exactly when it is the start of an
  instruction, that is, reached from 0 by stepping over each opcode and the data of each PUSH.
\<close>

theorem codeBitmap_correct:
  "\<exists>bits. codeBitmap code = Some bits \<and>
     (\<forall>p < length code. codeSegment bits p = Some (boundary code p))"
  by (rule codeBitmap_code)

theorem codeBitmap_correct_witness:
  "\<exists>bits. codeBitmap [0x60, 0x5b, 0x5b] = Some bits \<and> codeSegment bits 1 = Some (boundary [0x60, 0x5b, 0x5b] 1) \<and>
     codeSegment bits 2 = Some (boundary [0x60, 0x5b, 0x5b] 2)"
  using codeBitmap_correct [of "[0x60, 0x5b, 0x5b]"] by auto

end
