(* ===== verification/Rlp.thy ===== *)
theory Rlp
  imports Prelude
begin

text \<open>
  The RLP codec the backend stores substates with and derives contract addresses from:
  the buffered encoder (\<^verbatim>\<open>rlp/encbuffer.go\<close>, the writers of \<^verbatim>\<open>rlp/encode.go\<close>) and the
  splitting decoder (\<^verbatim>\<open>rlp/raw.go\<close>).  A Go value reaches the encoder through reflection; here
  it is a value of \<open>rlp_val\<close>, whose constructors are the kinds the writers distinguish.
  Lengths are natural numbers (a slice is shorter than \<open>2 ^ 63\<close>).
\<close>

section \<open>Headers and integers\<close>

datatype rlp_error = ErrUnexpectedEOF | ErrCanonSize | ErrValueTooLarge | ErrExpectedString
  | ErrExpectedList | ErrCanonInt | ErrUintOverflow | ErrNegativeBigInt

definition putint :: "u64 \<Rightarrow> bytes" where
  "putint i =
     (if i < 2 ^ 8 then [ucast i]
      else if i < 2 ^ 16 then [ucast (drop_bit 8 i), ucast i]
      else if i < 2 ^ 24 then [ucast (drop_bit 16 i), ucast (drop_bit 8 i), ucast i]
      else if i < 2 ^ 32 then
        [ucast (drop_bit 24 i), ucast (drop_bit 16 i), ucast (drop_bit 8 i), ucast i]
      else if i < 2 ^ 40 then
        [ucast (drop_bit 32 i), ucast (drop_bit 24 i), ucast (drop_bit 16 i), ucast (drop_bit 8 i), ucast i]
      else if i < 2 ^ 48 then
        [ucast (drop_bit 40 i), ucast (drop_bit 32 i), ucast (drop_bit 24 i), ucast (drop_bit 16 i),
         ucast (drop_bit 8 i), ucast i]
      else if i < 2 ^ 56 then
        [ucast (drop_bit 48 i), ucast (drop_bit 40 i), ucast (drop_bit 32 i), ucast (drop_bit 24 i),
         ucast (drop_bit 16 i), ucast (drop_bit 8 i), ucast i]
      else
        [ucast (drop_bit 56 i), ucast (drop_bit 48 i), ucast (drop_bit 40 i), ucast (drop_bit 32 i),
         ucast (drop_bit 24 i), ucast (drop_bit 16 i), ucast (drop_bit 8 i), ucast i])"

function intsize :: "u64 \<Rightarrow> nat" where
  "intsize i = (if drop_bit 8 i = 0 then 1 else Suc (intsize (drop_bit 8 i)))"
  by pat_completeness auto

termination intsize
proof (relation "measure unat")
  fix i :: u64
  assume "drop_bit 8 i \<noteq> 0"
  then have "i \<noteq> 0" by auto
  then have "0 < unat i" by (simp add: unat_gt_0)
  then show "(drop_bit 8 i, i) \<in> measure unat"
    by (simp add: unat_drop_bit_eq drop_bit_nat_def)
qed simp

declare intsize.simps [simp del]

definition headsize :: "u64 \<Rightarrow> nat" where
  "headsize n = (if n < 56 then 1 else 1 + intsize n)"

definition puthead :: "byte \<Rightarrow> byte \<Rightarrow> u64 \<Rightarrow> bytes" where
  "puthead smalltag largetag n =
     (if n < 56 then [smalltag + ucast n]
      else let b = putint n in (largetag + of_nat (length b)) # b)"

section \<open>The encoder's buffer\<close>

record encBuffer =
  eb_str :: bytes
  eb_lheads :: "(nat \<times> nat) list" \<comment> \<open>offset in \<open>eb_str\<close>, size\<close>
  eb_lhsize :: nat

definition eb_reset :: encBuffer where
  "eb_reset = \<lparr>eb_str = [], eb_lheads = [], eb_lhsize = 0\<rparr>"

definition eb_size :: "encBuffer \<Rightarrow> nat" where
  "eb_size b = length (eb_str b) + eb_lhsize b"

definition eb_append :: "encBuffer \<Rightarrow> bytes \<Rightarrow> encBuffer" where
  "eb_append b s = b\<lparr>eb_str := eb_str b @ s\<rparr>"

definition head_encode :: "nat \<Rightarrow> bytes" where
  "head_encode n = puthead 0xC0 0xF7 (of_nat n)"

text \<open>
  \<open>copyTo\<close>: the string data with the list headers put in, written into a destination of fixed
  length.  A header that does not fit is an index panic.
\<close>

fun copyTo :: "bytes \<Rightarrow> bytes \<Rightarrow> nat \<Rightarrow> nat \<Rightarrow> (nat \<times> nat) list \<Rightarrow> bytes option" where
  "copyTo str dst pos strpos [] = do {
     s \<leftarrow> go_slice str strpos (length str);
     require (pos \<le> length dst);
     Some (copy_at dst pos s) }"
| "copyTo str dst pos strpos ((off, sz) # heads) = do {
     s \<leftarrow> go_slice str strpos off;
     require (pos \<le> length dst);
     let n = min (length dst - pos) (length s);
     let dst = copy_at dst pos s;
     let enc = head_encode sz;
     require (pos + n + length enc \<le> length dst);
     copyTo str (copy_at dst (pos + n) enc) (pos + n + length enc) (strpos + n) heads }"

definition makeBytes :: "encBuffer \<Rightarrow> bytes option" where
  "makeBytes b = copyTo (eb_str b) (replicate (eb_size b) 0) 0 0 (eb_lheads b)"

definition writeBool :: "encBuffer \<Rightarrow> bool \<Rightarrow> encBuffer" where
  "writeBool b v = eb_append b (if v then [0x01] else [0x80])"

definition writeUint64 :: "encBuffer \<Rightarrow> u64 \<Rightarrow> encBuffer" where
  "writeUint64 b i =
     (if i = 0 then eb_append b [0x80]
      else if i < 128 then eb_append b [ucast i]
      else let s = putint i in eb_append b ((0x80 + of_nat (length s)) # s))"

definition encodeStringHeader :: "encBuffer \<Rightarrow> nat \<Rightarrow> encBuffer" where
  "encodeStringHeader b n =
     (if n < 56 then eb_append b [0x80 + of_nat n]
      else let s = putint (of_nat n) in eb_append b ((0xB7 + of_nat (length s)) # s))"

definition writeBytes :: "encBuffer \<Rightarrow> bytes \<Rightarrow> encBuffer" where
  "writeBytes b s =
     (case s of
        [x] \<Rightarrow> if x \<le> 0x7F then eb_append b [x] else eb_append (encodeStringHeader b 1) s
      | _ \<Rightarrow> eb_append (encodeStringHeader b (length s)) s)"

text \<open>The bits of a natural number, and its \<open>n\<close> big-endian bytes.\<close>

fun BitLen :: "nat \<Rightarrow> nat" where
  "BitLen n = (if n = 0 then 0 else Suc (BitLen (n div 2)))"

declare BitLen.simps [simp del]

definition nat_be :: "nat \<Rightarrow> nat \<Rightarrow> bytes" where
  "nat_be len n = map (\<lambda>k. of_nat (n div 256 ^ (len - Suc k))) [0..<len]"

definition writeBigInt :: "encBuffer \<Rightarrow> nat \<Rightarrow> encBuffer" where
  "writeBigInt b i =
     (if BitLen i \<le> 64 then writeUint64 b (of_nat i)
      else let len = (BitLen i + 7) div 8 in eb_append (encodeStringHeader b len) (nat_be len i))"

definition eb_list :: "encBuffer \<Rightarrow> nat \<times> encBuffer" where
  "eb_list b = (length (eb_lheads b),
     b\<lparr>eb_lheads := eb_lheads b @ [(length (eb_str b), eb_lhsize b)]\<rparr>)"

definition eb_listEnd :: "encBuffer \<Rightarrow> nat \<Rightarrow> encBuffer" where
  "eb_listEnd b index =
     (let (off, sz) = eb_lheads b ! index;
          sz' = eb_size b - off - sz
      in b\<lparr>eb_lheads := (eb_lheads b)[index := (off, sz')],
           eb_lhsize := eb_lhsize b + (if sz' < 56 then 1 else 1 + intsize (of_nat sz'))\<rparr>)"

section \<open>Writers (encode.go)\<close>

datatype rlp_val =
    RUint u64
  | RBool bool
  | RBigPtr "int option" \<comment> \<open>a \<open>*big.Int\<close>, nil or not\<close>
  | RBytes bytes \<comment> \<open>a byte slice or a string\<close>
  | RArray bytes \<comment> \<open>a byte array\<close>
  | RNilPtr byte \<comment> \<open>a nil pointer, with its nil encoding \<open>0x80\<close> or \<open>0xC0\<close>\<close>
  | RSlice "rlp_val list"
  | RStruct "rlp_val list"

fun write_val :: "rlp_val \<Rightarrow> encBuffer \<Rightarrow> rlp_error + encBuffer"
  and write_vals :: "rlp_val list \<Rightarrow> encBuffer \<Rightarrow> rlp_error + encBuffer" where
  "write_val (RUint i) b = Inr (writeUint64 b i)"
| "write_val (RBool v) b = Inr (writeBool b v)"
| "write_val (RBigPtr p) b =
     (case p of None \<Rightarrow> Inr (eb_append b [0x80])
      | Some i \<Rightarrow> if i < 0 then Inl ErrNegativeBigInt else Inr (writeBigInt b (nat i)))"
| "write_val (RBytes s) b = Inr (writeBytes b s)"
| "write_val (RArray s) b =
     Inr (case s of [] \<Rightarrow> eb_append b [0x80]
          | [x] \<Rightarrow> if x \<le> 0x7f then eb_append b [x] else eb_append b [0x81, x]
          | _ \<Rightarrow> eb_append (encodeStringHeader b (length s)) s)"
| "write_val (RNilPtr e) b = Inr (eb_append b [e])"
| "write_val (RSlice vs) b =
     (if vs = [] then Inr (eb_append b [0xC0])
      else let (lh, b) = eb_list b in
        (case write_vals vs b of Inl e \<Rightarrow> Inl e | Inr b \<Rightarrow> Inr (eb_listEnd b lh)))"
| "write_val (RStruct vs) b =
     (let (lh, b) = eb_list b in
        (case write_vals vs b of Inl e \<Rightarrow> Inl e | Inr b \<Rightarrow> Inr (eb_listEnd b lh)))"
| "write_vals [] b = Inr b"
| "write_vals (v # vs) b = (case write_val v b of Inl e \<Rightarrow> Inl e | Inr b \<Rightarrow> write_vals vs b)"

definition EncodeToBytes :: "rlp_val \<Rightarrow> (rlp_error + bytes) option" where
  "EncodeToBytes v =
     (case write_val v eb_reset of Inl e \<Rightarrow> Some (Inl e) | Inr b \<Rightarrow> map_option Inr (makeBytes b))"

section \<open>Splitting (raw.go)\<close>

datatype kind = KByte | KString | KList

text \<open>The shifts and ors of the eight cases are the big-endian reading of the first \<open>slen\<close> bytes.\<close>

definition readSize :: "bytes \<Rightarrow> byte \<Rightarrow> rlp_error + u64" where
  "readSize b slen =
     (if unat slen > length b then Inl ErrUnexpectedEOF
      else let s = (if 1 \<le> slen \<and> slen \<le> 8 then be_word (take (unat slen) b) else 0) :: u64
           in if s < 56 \<or> b ! 0 = 0 then Inl ErrCanonSize else Inr s)"

definition readKind :: "bytes \<Rightarrow> rlp_error + (kind \<times> nat \<times> nat)" where
  "readKind buf =
     (case buf of [] \<Rightarrow> Inl ErrUnexpectedEOF
      | b # rst \<Rightarrow>
        let checked = (\<lambda>k tagsize contentsize.
              if contentsize > length buf - tagsize then Inl ErrValueTooLarge
              else Inr (k, tagsize, contentsize))
        in if b < 0x80 then checked KByte 0 1
           else if b < 0xB8 then
             (let contentsize = unat (b - 0x80)
              in if contentsize = 1 \<and> length buf > 1 \<and> buf ! 1 < 128 then Inl ErrCanonSize
                 else checked KString 1 contentsize)
           else if b < 0xC0 then
             (case readSize rst (b - 0xB7) of Inl e \<Rightarrow> Inl e
              | Inr s \<Rightarrow> checked KString (unat (b - 0xB7) + 1) (unat s))
           else if b < 0xF8 then checked KList 1 (unat (b - 0xC0))
           else (case readSize rst (b - 0xF7) of Inl e \<Rightarrow> Inl e
              | Inr s \<Rightarrow> checked KList (unat (b - 0xF7) + 1) (unat s)))"

definition Split :: "bytes \<Rightarrow> rlp_error + (kind \<times> bytes \<times> bytes)" where
  "Split b =
     (case readKind b of Inl e \<Rightarrow> Inl e
      | Inr (k, ts, cs) \<Rightarrow> Inr (k, take cs (drop ts b), drop (ts + cs) b))"

definition SplitString :: "bytes \<Rightarrow> rlp_error + (bytes \<times> bytes)" where
  "SplitString b =
     (case Split b of Inl e \<Rightarrow> Inl e
      | Inr (k, content, rest) \<Rightarrow> if k = KList then Inl ErrExpectedString else Inr (content, rest))"

definition SplitUint64 :: "bytes \<Rightarrow> rlp_error + (u64 \<times> bytes)" where
  "SplitUint64 b =
     (case SplitString b of Inl e \<Rightarrow> Inl e
      | Inr (content, rest) \<Rightarrow>
          if length content = 0 then Inr (0, rest)
          else if length content = 1 then
            (if content ! 0 = 0 then Inl ErrCanonInt else Inr (ucast (content ! 0), rest))
          else if length content > 8 then Inl ErrUintOverflow
          else (case readSize content (of_nat (length content)) of
                  Inl e \<Rightarrow> Inl ErrCanonInt | Inr x \<Rightarrow> Inr (x, rest)))"

definition SplitList :: "bytes \<Rightarrow> rlp_error + (bytes \<times> bytes)" where
  "SplitList b =
     (case Split b of Inl e \<Rightarrow> Inl e
      | Inr (k, content, rest) \<Rightarrow> if k \<noteq> KList then Inl ErrExpectedList else Inr (content, rest))"

text \<open>\<open>CountValues\<close>: each turn drops at least one byte, so \<open>len(b)\<close> turns are enough.\<close>

fun count_values :: "nat \<Rightarrow> bytes \<Rightarrow> nat \<Rightarrow> rlp_error + nat" where
  "count_values 0 b i = Inr i"
| "count_values (Suc fuel) b i =
     (if b = [] then Inr i
      else case readKind b of Inl e \<Rightarrow> Inl e
           | Inr (k, ts, cs) \<Rightarrow> count_values fuel (drop (ts + cs) b) (i + 1))"

definition CountValues :: "bytes \<Rightarrow> rlp_error + nat" where
  "CountValues b = count_values (length b) b 0"

definition AppendUint64 :: "bytes \<Rightarrow> u64 \<Rightarrow> bytes" where
  "AppendUint64 b i =
     (if i = 0 then b @ [0x80]
      else if i < 128 then b @ [ucast i]
      else if i < 2 ^ 8 then b @ [0x81, ucast i]
      else if i < 2 ^ 16 then b @ [0x82, ucast (drop_bit 8 i), ucast i]
      else if i < 2 ^ 24 then b @ [0x83, ucast (drop_bit 16 i), ucast (drop_bit 8 i), ucast i]
      else if i < 2 ^ 32 then
        b @ [0x84, ucast (drop_bit 24 i), ucast (drop_bit 16 i), ucast (drop_bit 8 i), ucast i]
      else if i < 2 ^ 40 then
        b @ [0x85, ucast (drop_bit 32 i), ucast (drop_bit 24 i), ucast (drop_bit 16 i),
             ucast (drop_bit 8 i), ucast i]
      else if i < 2 ^ 48 then
        b @ [0x86, ucast (drop_bit 40 i), ucast (drop_bit 32 i), ucast (drop_bit 24 i),
             ucast (drop_bit 16 i), ucast (drop_bit 8 i), ucast i]
      else if i < 2 ^ 56 then
        b @ [0x87, ucast (drop_bit 48 i), ucast (drop_bit 40 i), ucast (drop_bit 32 i),
             ucast (drop_bit 24 i), ucast (drop_bit 16 i), ucast (drop_bit 8 i), ucast i]
      else
        b @ [0x88, ucast (drop_bit 56 i), ucast (drop_bit 48 i), ucast (drop_bit 40 i),
             ucast (drop_bit 32 i), ucast (drop_bit 24 i), ucast (drop_bit 16 i), ucast (drop_bit 8 i), ucast i])"

end
