(* ===== verification/RlpDecode.thy ===== *)
theory RlpDecode
  imports Rlp
begin

text \<open>
  The streaming decoder of \<^verbatim>\<open>rlp/decode.go\<close>: the \<open>Stream\<close> with its read limits, the readers of
  single values, and the typed decoders that \<open>makeDecoder\<close> builds by reflection, read over a
  schema \<open>rlp_type\<close> of the Go types.  A decoder gives the value as the \<open>rlp_val\<close> the writers
  would be handed, so that encoding and decoding meet in one type.

  The reader behind the stream is the \<open>sliceReader\<close> of \<open>DecodeBytes\<close>.  An error keeps what the
  callers compare (sentinels, and the message of a \<open>decodeError\<close>); the Go types and field names
  added for display are left out.  The loop over the elements of a slice counts its turns down
  from the length of the input; \<open>NotDone\<close> stands for a loop that would go on, and never
  happens (\<open>DecodeBytes_iff_encoding\<close> rests on that).
\<close>

section \<open>Errors\<close>

datatype decode_msg = MCanonInt | MCanonSize | MExpectedList | MExpectedString | MTooLong
  | MTooMany | MTooFewList | MTooFew | MTooShort | MNilKind

datatype stream_error = EOL | IoEOF | IoUnexpectedEOF | SExpectedString | SExpectedList | SCanonInt
  | SCanonSize | SElemTooLarge | SValueTooLarge | SMoreThanOneValue | SNotInList | SNotAtEOL
  | SUintOverflow | SUint256Large | SInvalidBool u64 | DecodeError decode_msg | NotDone

definition wrapStreamError :: "stream_error \<Rightarrow> stream_error" where
  "wrapStreamError e =
     (case e of SCanonInt \<Rightarrow> DecodeError MCanonInt
      | SCanonSize \<Rightarrow> DecodeError MCanonSize
      | SExpectedList \<Rightarrow> DecodeError MExpectedList
      | SExpectedString \<Rightarrow> DecodeError MExpectedString
      | SUintOverflow \<Rightarrow> DecodeError MTooLong
      | SNotAtEOL \<Rightarrow> DecodeError MTooMany
      | _ \<Rightarrow> e)"

section \<open>The stream\<close>

record stream =
  st_in :: bytes \<comment> \<open>what the reader still holds\<close>
  st_remaining :: u64
  st_size :: u64
  st_kinderr :: "stream_error option"
  st_stack :: "u64 list" \<comment> \<open>sizes left of the open lists, innermost first\<close>
  st_kind :: "kind option" \<comment> \<open>\<open>None\<close> is the \<open>-1\<close> of a kind not read yet\<close>
  st_byteval :: byte
  st_limited :: bool

type_synonym 'a reading = "stream \<Rightarrow> (stream_error + 'a) \<times> stream"

definition fails :: "stream_error \<Rightarrow> 'a reading" where
  "fails e s = (Inl e, s)"

definition gives :: "'a \<Rightarrow> 'a reading" where
  "gives x s = (Inr x, s)"

definition and_read :: "'a reading \<Rightarrow> ('a \<Rightarrow> 'b reading) \<Rightarrow> 'b reading" where
  "and_read m f s = (case m s of (Inl e, s) \<Rightarrow> (Inl e, s) | (Inr x, s) \<Rightarrow> f x s)"

text \<open>The common \<open>if err != nil { return wrapStreamError(err, typ) }\<close>.\<close>

definition wrapped :: "'a reading \<Rightarrow> 'a reading" where
  "wrapped m s = (case m s of (Inl e, s) \<Rightarrow> (Inl (wrapStreamError e), s) | r \<Rightarrow> r)"

definition rearm :: "stream \<Rightarrow> stream" where
  "rearm s = s\<lparr>st_kind := None\<rparr>"

text \<open>\<open>s.kind = -1\<close>, then a result.\<close>

definition rearmed :: "'a \<Rightarrow> 'a reading" where
  "rearmed x s = (Inr x, rearm s)"

definition listLimit :: "stream \<Rightarrow> u64 option" where
  "listLimit s = (case st_stack s of [] \<Rightarrow> None | l # ls \<Rightarrow> Some l)"

definition limit_input :: "u64 \<Rightarrow> unit reading" where
  "limit_input n s =
     (if st_limited s then
        (if n > st_remaining s then (Inl SValueTooLarge, s)
         else (Inr (), s\<lparr>st_remaining := st_remaining s - n\<rparr>))
      else (Inr (), s))"

definition willRead :: "u64 \<Rightarrow> unit reading" where
  "willRead n s =
     (let s = rearm s in
      case st_stack s of
        [] \<Rightarrow> limit_input n s
      | limit # ls \<Rightarrow>
          if n > limit then (Inl SElemTooLarge, s)
          else limit_input n (s\<lparr>st_stack := (limit - n) # ls\<rparr>))"

definition readByte :: "byte reading" where
  "readByte =
     and_read (willRead 1) (\<lambda>_ s.
       case st_in s of [] \<Rightarrow> (Inl IoUnexpectedEOF, s) | b # bs \<Rightarrow> (Inr b, s\<lparr>st_in := bs\<rparr>))"

text \<open>\<open>readFull\<close> fills a buffer of the given length; here it returns what it has read.\<close>

definition readFull :: "u64 \<Rightarrow> bytes reading" where
  "readFull n =
     and_read (willRead n) (\<lambda>_ s.
       if length (st_in s) < unat n then (Inl IoUnexpectedEOF, s\<lparr>st_in := []\<rparr>)
       else (Inr (take (unat n) (st_in s)), s\<lparr>st_in := drop (unat n) (st_in s)\<rparr>))"

definition readUint :: "u64 \<Rightarrow> u64 reading" where
  "readUint sz =
     (if sz = 0 then rearmed 0
      else if sz = 1 then and_read readByte (\<lambda>b. gives (ucast b))
      else and_read (readFull sz) (\<lambda>buffer.
        if buffer ! 0 = 0 then fails SCanonSize else gives (be_word buffer)))"

text \<open>The long forms of a header: a size given by its own bytes, at least 56.\<close>

definition long_size :: "kind \<Rightarrow> byte \<Rightarrow> stream \<Rightarrow> (kind \<times> u64 \<times> stream_error option) \<times> stream" where
  "long_size k n s =
     (case readUint (ucast n) s of
        (Inl e, s) \<Rightarrow> ((k, 0, Some e), s)
      | (Inr sz, s) \<Rightarrow> ((k, sz, if sz < 56 then Some SCanonSize else None), s))"

definition st_readKind :: "stream \<Rightarrow> (kind \<times> u64 \<times> stream_error option) \<times> stream" where
  "st_readKind s =
     (case readByte s of
        (Inl e, s) \<Rightarrow>
          ((KByte, 0, Some (if st_stack s = [] \<and> (e = IoUnexpectedEOF \<or> e = SValueTooLarge)
                            then IoEOF else e)), s)
      | (Inr b, s) \<Rightarrow>
          let s = s\<lparr>st_byteval := 0\<rparr> in
          if b < 0x80 then ((KByte, 0, None), s\<lparr>st_byteval := b\<rparr>)
          else if b < 0xB8 then ((KString, ucast (b - 0x80), None), s)
          else if b < 0xC0 then long_size KString (b - 0xB7) s
          else if b < 0xF8 then ((KList, ucast (b - 0xC0), None), s)
          else long_size KList (b - 0xF7) s)"

text \<open>
  \<open>Kind\<close>: the limit of the innermost list is the one before the header is read.
\<close>

definition check_size :: "u64 option \<Rightarrow> stream \<Rightarrow> stream_error option" where
  "check_size limit s =
     (if (case limit of None \<Rightarrow> False | Some l \<Rightarrow> st_size s > l) then Some SElemTooLarge
      else if st_limited s \<and> st_size s > st_remaining s then Some SValueTooLarge
      else None)"

definition cached_kind :: "(kind \<times> u64) reading" where
  "cached_kind s =
     (case st_kinderr s of Some e \<Rightarrow> (Inl e, s) | None \<Rightarrow> (Inr (the (st_kind s), st_size s), s))"

definition st_Kind :: "(kind \<times> u64) reading" where
  "st_Kind s =
     (if st_kind s \<noteq> None then cached_kind s
      else let limit = listLimit s in
        if limit = Some 0 then (Inl EOL, s)
        else (case st_readKind s of ((k, sz, err), s) \<Rightarrow>
          let s = s\<lparr>st_kind := Some k, st_size := sz, st_kinderr := err\<rparr>;
              s = (if err = None then s\<lparr>st_kinderr := check_size limit s\<rparr> else s)
          in cached_kind s))"

section \<open>Single values\<close>

text \<open>A string's content; a single small byte must not have a header.\<close>

definition string_content :: "u64 \<Rightarrow> bytes reading" where
  "string_content sz =
     and_read (readFull sz) (\<lambda>b. if sz = 1 \<and> b ! 0 < 128 then fails SCanonSize else gives b)"

definition byte_content :: "byte reading" where
  "byte_content s = (Inr (st_byteval s), rearm s)"

definition st_Bytes :: "bytes reading" where
  "st_Bytes =
     and_read st_Kind (\<lambda>(k, sz).
       case k of
         KByte \<Rightarrow> and_read byte_content (\<lambda>b. gives [b])
       | KString \<Rightarrow> string_content sz
       | KList \<Rightarrow> fails SExpectedString)"

definition as_canon_int :: "'a reading \<Rightarrow> 'a reading" where
  "as_canon_int m s = (case m s of (Inl e, s) \<Rightarrow> (Inl (if e = SCanonSize then SCanonInt else e), s) | r \<Rightarrow> r)"

definition st_uint :: "nat \<Rightarrow> u64 reading" where
  "st_uint maxbits =
     and_read st_Kind (\<lambda>(k, sz).
       case k of
         KByte \<Rightarrow> (\<lambda>s. if st_byteval s = 0 then (Inl SCanonInt, s) else and_read byte_content (\<lambda>b. gives (ucast b)) s)
       | KString \<Rightarrow>
           if sz > of_nat (maxbits div 8) then fails SUintOverflow
           else and_read (as_canon_int (readUint sz)) (\<lambda>v.
             if sz > 0 \<and> v < 128 then fails SCanonSize else gives v)
       | KList \<Rightarrow> fails SExpectedString)"

definition st_Bool :: "bool reading" where
  "st_Bool =
     and_read (st_uint 8) (\<lambda>num.
       if num = 0 then gives False else if num = 1 then gives True else fails (SInvalidBool num))"

definition st_List :: "u64 reading" where
  "st_List =
     and_read st_Kind (\<lambda>(k, sz) s.
       if k \<noteq> KList then (Inl SExpectedList, s)
       else (Inr sz, s\<lparr>st_stack := sz # (case st_stack s of [] \<Rightarrow> [] | l # ls \<Rightarrow> (l - sz) # ls),
              st_kind := None, st_size := 0\<rparr>))"

definition st_ListEnd :: "unit reading" where
  "st_ListEnd s =
     (case st_stack s of
        [] \<Rightarrow> (Inl SNotInList, s)
      | l # ls \<Rightarrow> if l > 0 then (Inl SNotAtEOL, s)
          else (Inr (), s\<lparr>st_stack := ls, st_kind := None, st_size := 0\<rparr>))"

definition MoreDataInList :: "stream \<Rightarrow> bool" where
  "MoreDataInList s = (case listLimit s of None \<Rightarrow> False | Some l \<Rightarrow> l > 0)"

definition be_nat :: "bytes \<Rightarrow> nat" where
  "be_nat bs = foldl (\<lambda>acc b. acc * 256 + unat b) 0 bs"

text \<open>The bytes of an integer: no header for a small byte, and no leading zero.\<close>

definition int_content :: "(u64 \<Rightarrow> bytes reading) \<Rightarrow> nat reading" where
  "int_content large =
     and_read (and_read st_Kind (\<lambda>(k, sz).
       case k of
         KList \<Rightarrow> fails SExpectedString
       | KByte \<Rightarrow> and_read byte_content (\<lambda>b. gives [b])
       | KString \<Rightarrow>
           if sz = 0 then rearmed []
           else if sz \<le> 32 then string_content sz
           else large sz))
     (\<lambda>buffer. if buffer \<noteq> [] \<and> buffer ! 0 = 0 then fails SCanonInt else gives (be_nat buffer))"

definition st_decodeBigInt :: "nat reading" where
  "st_decodeBigInt = int_content readFull"

definition ReadUint256 :: "nat reading" where
  "ReadUint256 = int_content (\<lambda>_. fails SUint256Large)"

definition st_Raw :: "bytes reading" where
  "st_Raw =
     and_read st_Kind (\<lambda>(k, sz).
       case k of
         KByte \<Rightarrow> and_read byte_content (\<lambda>b. gives [b])
       | KString \<Rightarrow> and_read (readFull sz) (\<lambda>b. gives (puthead 0x80 0xB7 sz @ b))
       | KList \<Rightarrow> and_read (readFull sz) (\<lambda>b. gives (puthead 0xC0 0xF7 sz @ b)))"

section \<open>Typed decoders\<close>

text \<open>
  The Go types a decoder is built for.  The flag of a field is its \<open>optional\<close> tag; \<open>TNil\<close> is a
  pointer field with one of the \<open>nil\<close> tags, with the kind of its nil encoding.  Slices with the
  \<open>tail\<close> tag, raw values, interfaces and types with a decoder of their own are left out.
\<close>

datatype rlp_type =
    TUint nat \<comment> \<open>width in bits\<close>
  | TBool
  | TBig
  | TU256
  | TBytes \<comment> \<open>a byte slice or a string\<close>
  | TArray nat \<comment> \<open>a byte array\<close>
  | TSlice rlp_type
  | TListArray nat rlp_type
  | TStruct "rlp_field list"
  | TPtr rlp_type
  | TNil kind rlp_type
and rlp_field = Field bool rlp_type

text \<open>\<open>DefaultNilValue\<close>: the encoding of a nil pointer to a type.\<close>

fun nil_encoding :: "rlp_type \<Rightarrow> byte" where
  "nil_encoding (TUint n) = 0x80"
| "nil_encoding TBool = 0x80"
| "nil_encoding TBytes = 0x80"
| "nil_encoding (TArray n) = 0x80"
| "nil_encoding t = 0xC0"

fun kind_encoding :: "kind \<Rightarrow> byte" where
  "kind_encoding KList = 0xC0"
| "kind_encoding k = 0x80"

fun zero_val :: "rlp_type \<Rightarrow> rlp_val" and zero_field :: "rlp_field \<Rightarrow> rlp_val" where
  "zero_val (TUint n) = RUint 0"
| "zero_val TBool = RBool False"
| "zero_val TBig = RBigPtr None"
| "zero_val TU256 = RBigPtr None"
| "zero_val TBytes = RBytes []"
| "zero_val (TArray n) = RArray (replicate n 0)"
| "zero_val (TSlice t) = RSlice []"
| "zero_val (TListArray n t) = RSlice (replicate n (zero_val t))"
| "zero_val (TStruct fs) = RStruct (map zero_field fs)"
| "zero_val (TPtr t) = RNilPtr (nil_encoding t)"
| "zero_val (TNil k t) = RNilPtr (kind_encoding k)"
| "zero_field (Field b t) = zero_val t"

definition decodeUint :: "nat \<Rightarrow> rlp_val reading" where
  "decodeUint bits = and_read (wrapped (st_uint bits)) (\<lambda>n. gives (RUint n))"

definition decodeBool :: "rlp_val reading" where
  "decodeBool = and_read (wrapped st_Bool) (\<lambda>b. gives (RBool b))"

definition decodeBigInt :: "rlp_val reading" where
  "decodeBigInt = and_read (wrapped st_decodeBigInt) (\<lambda>n. gives (RBigPtr (Some (int n))))"

definition decodeU256 :: "rlp_val reading" where
  "decodeU256 = and_read (wrapped ReadUint256) (\<lambda>n. gives (RBigPtr (Some (int n))))"

definition decodeByteSlice :: "rlp_val reading" where
  "decodeByteSlice = and_read (wrapped st_Bytes) (\<lambda>b. gives (RBytes b))"

definition decodeByteArray :: "nat \<Rightarrow> rlp_val reading" where
  "decodeByteArray len =
     and_read st_Kind (\<lambda>(k, sz).
       case k of
         KByte \<Rightarrow>
           if len = 0 then fails (DecodeError MTooLong)
           else if len > 1 then fails (DecodeError MTooShort)
           else and_read byte_content (\<lambda>b. gives (RArray [b]))
       | KString \<Rightarrow>
           if of_nat len < sz then fails (DecodeError MTooLong)
           else if of_nat len > sz then fails (DecodeError MTooShort)
           else and_read (readFull (of_nat len)) (\<lambda>b.
             if sz = 1 \<and> b ! 0 < 128 then fails (wrapStreamError SCanonSize) else gives (RArray b))
       | KList \<Rightarrow> fails (wrapStreamError SExpectedString))"

fun decodeSliceElems :: "rlp_val reading \<Rightarrow> nat \<Rightarrow> rlp_val list reading" where
  "decodeSliceElems dec 0 s = (Inl NotDone, s)"
| "decodeSliceElems dec (Suc turns) s =
     (case dec s of
        (Inl e, s) \<Rightarrow> if e = EOL then (Inr [], s) else (Inl e, s)
      | (Inr v, s) \<Rightarrow>
          (case decodeSliceElems dec turns s of (Inl e, s) \<Rightarrow> (Inl e, s) | (Inr vs, s) \<Rightarrow> (Inr (v # vs), s)))"

definition decodeListSlice :: "rlp_val reading \<Rightarrow> rlp_val reading" where
  "decodeListSlice dec =
     and_read (wrapped st_List) (\<lambda>sz.
       if sz = 0 then and_read st_ListEnd (\<lambda>_. gives (RSlice []))
       else and_read (\<lambda>s. decodeSliceElems dec (Suc (length (st_in s))) s) (\<lambda>vs.
         and_read st_ListEnd (\<lambda>_. gives (RSlice vs))))"

fun decode_array :: "rlp_val reading \<Rightarrow> nat \<Rightarrow> rlp_val list reading" where
  "decode_array dec 0 s = (Inr [], s)"
| "decode_array dec (Suc n) s =
     (case dec s of
        (Inl e, s) \<Rightarrow> (Inl (if e = EOL then DecodeError MTooFewList else e), s)
      | (Inr v, s) \<Rightarrow>
          (case decode_array dec n s of (Inl e, s) \<Rightarrow> (Inl e, s) | (Inr vs, s) \<Rightarrow> (Inr (v # vs), s)))"

definition decodeListArray :: "rlp_val reading \<Rightarrow> nat \<Rightarrow> rlp_val reading" where
  "decodeListArray dec n =
     and_read (wrapped st_List) (\<lambda>_. and_read (decode_array dec n) (\<lambda>vs.
       and_read (wrapped st_ListEnd) (\<lambda>_. gives (RSlice vs))))"

definition decode_nil_ptr :: "kind \<Rightarrow> rlp_val reading \<Rightarrow> rlp_val reading" where
  "decode_nil_ptr nilKind dec =
     and_read (wrapped st_Kind) (\<lambda>(k, sz).
       if k \<noteq> KByte \<and> sz = 0 then
         (if k \<noteq> nilKind then fails (DecodeError MNilKind)
          else rearmed (RNilPtr (kind_encoding nilKind)))
       else dec)"

text \<open>
  One field of a struct: at the end of the list an optional field and all after it are zero,
  any other is missing.
\<close>

definition field_step :: "bool \<Rightarrow> rlp_val list \<Rightarrow> rlp_val reading \<Rightarrow> rlp_val list reading \<Rightarrow> rlp_val list reading" where
  "field_step opt zeros dec others s =
     (case dec s of
        (Inl e, s) \<Rightarrow>
          if e = EOL then (if opt then (Inr zeros, s) else (Inl (DecodeError MTooFew), s)) else (Inl e, s)
      | (Inr v, s) \<Rightarrow> (case others s of (Inl e, s) \<Rightarrow> (Inl e, s) | (Inr vs, s) \<Rightarrow> (Inr (v # vs), s)))"

definition decode_struct :: "rlp_val list reading \<Rightarrow> rlp_val reading" where
  "decode_struct dec =
     and_read (wrapped st_List) (\<lambda>_. and_read dec (\<lambda>vs.
       and_read (wrapped st_ListEnd) (\<lambda>_. gives (RStruct vs))))"

fun decode :: "rlp_type \<Rightarrow> rlp_val reading"
  and decode_fields :: "rlp_field list \<Rightarrow> rlp_val list reading" where
  "decode (TUint bits) = decodeUint bits"
| "decode TBool = decodeBool"
| "decode TBig = decodeBigInt"
| "decode TU256 = decodeU256"
| "decode TBytes = decodeByteSlice"
| "decode (TArray n) = decodeByteArray n"
| "decode (TSlice t) = decodeListSlice (decode t)"
| "decode (TListArray n t) = decodeListArray (decode t) n"
| "decode (TStruct fs) = decode_struct (decode_fields fs)"
| "decode (TPtr t) = decode t"
| "decode (TNil k t) = decode_nil_ptr k (decode t)"
| "decode_fields [] = gives []"
| "decode_fields (Field opt t # fs) =
     field_step opt (map zero_field (Field opt t # fs)) (decode t) (decode_fields fs)"

definition st_Reset :: "bytes \<Rightarrow> stream" where
  "st_Reset b = \<lparr>st_in = b, st_remaining = of_nat (length b), st_size = 0, st_kinderr = None, st_stack = [],
     st_kind = None, st_byteval = 0, st_limited = b \<noteq> []\<rparr>"

definition DecodeBytes :: "rlp_type \<Rightarrow> bytes \<Rightarrow> stream_error + rlp_val" where
  "DecodeBytes t b =
     (case decode t (st_Reset b) of
        (Inl e, s) \<Rightarrow> Inl e
      | (Inr v, s) \<Rightarrow> if st_in s \<noteq> [] then Inl SMoreThanOneValue else Inr v)"

end
