(* ===== verification/Rlp_Props.thy ===== *)
theory Rlp_Props
  imports Rlp
begin

text \<open>
  What the codec promises: the buffered encoder, which keeps list headers apart and patches their
  sizes in afterwards, produces exactly the recursive definition of the encoding; splitting is the
  inverse of framing, and accepts nothing but canonical frames.
\<close>

section \<open>Integers\<close>

lemma unat_p2: "k < LENGTH('a) \<Longrightarrow> unat (2 ^ k :: 'a::len word) = 2 ^ k"
proof -
  assume "k < LENGTH('a)"
  then have "unat (word_of_nat (2 ^ k) :: 'a word) = 2 ^ k"
    by (subst unsigned_of_nat) (simp add: take_bit_nat_eq_self)
  then show ?thesis by simp
qed

lemma less_pow2_iff: "k < LENGTH('a) \<Longrightarrow> (i < 2 ^ k) = (drop_bit k (i :: 'a::len word) = 0)"
  by (simp add: word_less_nat_alt unat_drop_bit_eq drop_bit_nat_def unat_eq_0[symmetric] div_eq_0_iff
      unat_p2 del: unat_eq_0)

lemma intsize_unfold8:
  "intsize i =
     (if drop_bit 8 i = 0 then 1 else if drop_bit 16 i = 0 then 2 else if drop_bit 24 i = 0 then 3
      else if drop_bit 32 i = 0 then 4 else if drop_bit 40 i = 0 then 5 else if drop_bit 48 i = 0 then 6
      else if drop_bit 56 i = 0 then 7 else 8)"
proof -
  have s: "intsize (drop_bit k i) =
      (if drop_bit (k + 8) i = 0 then 1 else Suc (intsize (drop_bit (k + 8) i)))" for k
    by (subst intsize.simps) (simp add: drop_bit_drop_bit add.commute)
  have z: "drop_bit 64 i = 0" by (rule bit_eqI) (auto simp: bit_simps dest: bit_imp_le_length)
  show ?thesis
    using s [of 0] s [of 8] s [of 16] s [of 24] s [of 32] s [of 40] s [of 48] s [of 56] z
    by simp
qed

lemma intsize_pos [simp]: "0 < intsize i" "Suc 0 \<le> intsize i"
  by (simp_all add: intsize_unfold8)

lemma intsize_le8 [simp]: "intsize i \<le> 8"
  by (simp add: intsize_unfold8)

lemma intsize_lt9 [simp]: "intsize i < 9"
  using intsize_le8 [of i] by linarith

lemma intsize_covers: "drop_bit (8 * intsize i) i = 0"
proof -
  have z: "drop_bit 64 i = 0" by (rule bit_eqI) (auto simp: bit_simps dest: bit_imp_le_length)
  then show ?thesis by (simp add: intsize_unfold8)
qed

lemma intsize_top: "i \<noteq> 0 \<Longrightarrow> drop_bit (8 * (intsize i - 1)) i \<noteq> 0"
  by (simp add: intsize_unfold8)

lemma to_be_numeral: "to_be (numeral k) w = to_be (pred_numeral k) (drop_bit 8 w) @ [ucast w]"
  by (simp add: numeral_eq_Suc to_be_Suc)

lemma putint_to_be: "putint i = to_be (intsize i) i"
proof -
  have "i < 256 \<longleftrightarrow> drop_bit 8 i = 0" "i < 65536 \<longleftrightarrow> drop_bit 16 i = 0"
    "i < 16777216 \<longleftrightarrow> drop_bit 24 i = 0" "i < 4294967296 \<longleftrightarrow> drop_bit 32 i = 0"
    "i < 1099511627776 \<longleftrightarrow> drop_bit 40 i = 0" "i < 281474976710656 \<longleftrightarrow> drop_bit 48 i = 0"
    "i < 72057594037927936 \<longleftrightarrow> drop_bit 56 i = 0"
    using less_pow2_iff [of 8 i] less_pow2_iff [of 16 i] less_pow2_iff [of 24 i] less_pow2_iff [of 32 i]
      less_pow2_iff [of 40 i] less_pow2_iff [of 48 i] less_pow2_iff [of 56 i]
    by simp_all
  then show ?thesis
    by (simp add: putint_def intsize_unfold8 to_be_numeral to_be_Suc drop_bit_drop_bit)
qed

lemma length_putint [simp]: "length (putint i) = intsize i"
  by (simp add: putint_to_be)

lemma be_word_putint [simp]: "be_word (putint i) = i"
proof -
  have "push_bit (8 * intsize i) (drop_bit (8 * intsize i) i) + take_bit (8 * intsize i) i = i"
    by (rule bits_ident)
  then have "take_bit (8 * intsize i) i = i" by (simp add: intsize_covers)
  then show ?thesis by (simp add: putint_to_be be_word_to_be)
qed

text \<open>Reading back: the minimal big-endian bytes of a number are the only ones with a nonzero first byte.\<close>

lemma be_word_snoc_or:
  "be_word (bs @ [b]) = (push_bit 8 (be_word bs) OR ucast b :: 'a::len word)"
proof -
  have "be_word (bs @ [b]) = (push_bit 8 (be_word bs) + ucast b :: 'a word)"
    by (simp add: be_word_snoc push_bit_eq_mult)
  also have "\<dots> = push_bit 8 (be_word bs) OR ucast b"
    by (rule disjunctive_add) (auto simp: bit_simps dest: bit_imp_le_length)
  finally show ?thesis .
qed

lemma bit_be_word:
  "bit (be_word bs :: 'a::len word) k \<Longrightarrow> k < 8 * length bs"
proof (induction bs arbitrary: k rule: rev_induct)
  case (snoc b bs)
  then show ?case
    by (fastforce simp: be_word_snoc_or bit_simps dest: bit_imp_le_length)
qed simp

lemma to_be_be_word:
  "8 * length bs \<le> LENGTH('a) \<Longrightarrow> to_be (length bs) (be_word bs :: 'a::len word) = bs"
proof (induction bs rule: rev_induct)
  case (snoc b bs)
  have "drop_bit 8 (push_bit 8 (be_word bs) OR ucast b :: 'a word) = be_word bs"
    using snoc.prems
    by (intro bit_eqI) (auto simp: bit_simps dest: bit_imp_le_length bit_be_word)
  moreover have "ucast (push_bit 8 (be_word bs) OR ucast b :: 'a word) = b"
    using snoc.prems
    by (intro bit_eqI) (auto simp: bit_simps dest: bit_imp_le_length bit_be_word)
  ultimately show ?case
    using snoc by (simp add: to_be_Suc be_word_snoc_or)
qed simp

lemma hd_to_be: "0 < n \<Longrightarrow> hd (to_be n w) = ucast (drop_bit (8 * (n - 1)) w)"
  by (cases n) (simp_all add: to_be_def hd_map upt_conv_Cons del: upt_Suc)

lemma intsize_unique:
  assumes "0 < n" "drop_bit (8 * n) i = 0" "drop_bit (8 * (n - 1)) i \<noteq> 0"
  shows "intsize i = n"
proof -
  have mono: "drop_bit a i = 0 \<Longrightarrow> a \<le> b \<Longrightarrow> drop_bit b i = 0" for a b
    by (metis drop_bit_drop_bit drop_bit_of_0 le_add_diff_inverse2)
  have "i \<noteq> 0" using assms(3) by auto
  then have "\<not> 8 * n \<le> 8 * (intsize i - 1)"
    using mono [OF assms(2), of "8 * (intsize i - 1)"] intsize_top [of i] by blast
  then have "\<not> n < intsize i" by linarith
  moreover have "\<not> intsize i < n"
    using mono [OF intsize_covers, of "8 * (n - 1)"] assms(3) by fastforce
  ultimately show ?thesis by simp
qed

lemma intsize_be_word:
  assumes "bs \<noteq> []" "length bs \<le> 8" "hd bs \<noteq> 0"
  shows "intsize (be_word bs) = length bs"
proof (rule intsize_unique)
  show "0 < length bs" using assms(1) by simp
  show "drop_bit (8 * length bs) (be_word bs :: u64) = 0"
    by (rule bit_eqI) (auto simp: bit_simps dest: bit_be_word)
  have "hd bs = ucast (drop_bit (8 * (length bs - 1)) (be_word bs :: u64))"
    using assms(1,2) by (subst hd_to_be [symmetric]) (simp_all add: to_be_be_word)
  then show "drop_bit (8 * (length bs - 1)) (be_word bs :: u64) \<noteq> 0"
    using assms(3) by auto
qed

lemma putint_be_word:
  "bs \<noteq> [] \<Longrightarrow> length bs \<le> 8 \<Longrightarrow> hd bs \<noteq> 0 \<Longrightarrow> putint (be_word bs) = bs"
  by (simp add: putint_to_be intsize_be_word to_be_be_word)

lemma low_byte_zero:
  assumes "drop_bit 8 (x :: u64) = 0" "ucast x = (0 :: byte)"
  shows "x = 0"
proof -
  have "take_bit 8 x = ucast (ucast x :: byte)"
    by (rule bit_eqI) (auto simp: bit_simps)
  then show ?thesis using assms bits_ident [of 8 x] by simp
qed

lemma hd_putint: "i \<noteq> 0 \<Longrightarrow> hd (putint i) \<noteq> 0"
proof
  assume i: "i \<noteq> 0" and "hd (putint i) = 0"
  then have "ucast (drop_bit (8 * (intsize i - 1)) i) = (0 :: byte)"
    by (simp add: putint_to_be hd_to_be)
  moreover have "8 + 8 * (intsize i - 1) = 8 * intsize i"
    using intsize_pos(1) [of i] by linarith
  then have "drop_bit 8 (drop_bit (8 * (intsize i - 1)) i) = 0"
    using intsize_covers [of i] by (simp add: drop_bit_drop_bit add.commute)
  ultimately show False using low_byte_zero intsize_top [OF i] by blast
qed

lemma putint_nonempty [simp]: "putint i \<noteq> []"
  using length_putint [of i] intsize_pos(1) [of i] by (metis less_irrefl list.size(3))

section \<open>Framing\<close>

text \<open>The canonical frame of a content of each kind, and the contents that have one.\<close>

fun frame_of :: "kind \<Rightarrow> bytes \<Rightarrow> bytes" where
  "frame_of KByte c = c"
| "frame_of KString c = puthead 0x80 0xB7 (of_nat (length c)) @ c"
| "frame_of KList c = puthead 0xC0 0xF7 (of_nat (length c)) @ c"

fun framable :: "kind \<Rightarrow> bytes \<Rightarrow> bool" where
  "framable KByte c = (length c = 1 \<and> c ! 0 < 0x80)"
| "framable KString c = (\<not> (length c = 1 \<and> c ! 0 < 0x80) \<and> length c < 2 ^ 64)"
| "framable KList c = (length c < 2 ^ 64)"

lemma unat_of_nat_byte: "n < 256 \<Longrightarrow> unat (of_nat n :: byte) = n"
  by (subst unsigned_of_nat) (simp add: take_bit_nat_eq_self)

lemma unat_of_nat_u64: "n < 18446744073709551616 \<Longrightarrow> unat (of_nat n :: u64) = n"
  by (subst unsigned_of_nat) (simp add: take_bit_nat_eq_self)

lemma tag_byte:
  assumes "unat t + n < 256"
  shows "unat (t + of_nat n :: byte) = unat t + n" "(t + of_nat n) - t = (of_nat n :: byte)"
  using assms by (simp_all add: unat_word_ariths unat_of_nat_byte)

lemma readSize_putint:
  assumes "56 \<le> i"
  shows "readSize (putint i @ r) (of_nat (intsize i)) = Inr i"
proof -
  have "intsize i < 256" using intsize_le8 [of i] by linarith
  then have n: "unat (of_nat (intsize i) :: byte) = intsize i" by (rule unat_of_nat_byte)
  have "i \<noteq> 0" using assms by auto
  then have h: "(putint i @ r) ! 0 \<noteq> 0"
    using hd_putint [of i] by (simp add: hd_conv_nth nth_append)
  have r: "(1 :: byte) \<le> of_nat (intsize i)" "of_nat (intsize i) \<le> (8 :: byte)"
    using n intsize_pos(1) [of i] intsize_le8 [of i] by (simp_all add: word_le_nat_alt)
  show ?thesis
    using assms n h r by (simp add: readSize_def Let_def not_less)
qed

lemma readSize_canonical:
  assumes "readSize b slen = Inr s"
  shows "1 \<le> unat slen" "unat slen \<le> 8" "56 \<le> s" "intsize s = unat slen" "b = putint s @ drop (unat slen) b"
proof -
  let ?p = "take (unat slen) b"
  from assms have len: "unat slen \<le> length b" and z: "b ! 0 \<noteq> 0" and s56: "56 \<le> s"
    and s: "s = (if 1 \<le> slen \<and> slen \<le> 8 then be_word ?p else 0)"
    by (auto simp: readSize_def Let_def not_less split: if_splits)
  from s s56 have r: "1 \<le> slen" "slen \<le> 8" and sp: "s = be_word ?p" by (auto split: if_splits)
  from r show r': "1 \<le> unat slen" "unat slen \<le> 8" by (simp_all add: word_le_nat_alt)
  have ne: "?p \<noteq> []" and l: "length ?p = unat slen" "length ?p \<le> 8"
    using len r' by (auto simp: min_def)
  have hd: "hd ?p \<noteq> 0" using z ne by (cases b) (auto simp: take_Cons' split: if_splits)
  show "56 \<le> s" by (rule s56)
  show "intsize s = unat slen" using sp l intsize_be_word [OF ne l(2) hd] by simp
  have "b = ?p @ drop (unat slen) b" by simp
  then show "b = putint s @ drop (unat slen) b" using sp putint_be_word [OF ne l(2) hd] by simp
qed

lemma puthead_small: "n < 56 \<Longrightarrow> puthead st lt (of_nat n) = [st + of_nat n]"
proof -
  assume n: "n < 56"
  then have "(of_nat n :: u64) < 56" by (simp add: word_less_nat_alt unat_of_nat_u64)
  moreover have "ucast (of_nat n :: u64) = (of_nat n :: byte)"
    using n by (simp add: unsigned_of_nat take_bit_nat_eq_self)
  ultimately show ?thesis by (simp add: puthead_def)
qed

lemma puthead_large:
  "56 \<le> n \<Longrightarrow> n < 2 ^ 64 \<Longrightarrow>
     puthead st lt (of_nat n) = (lt + of_nat (intsize (of_nat n))) # putint (of_nat n)"
  by (simp add: puthead_def word_less_nat_alt unat_of_nat_u64 Let_def)

lemma readKind_head:
  assumes "framable k c"
  shows "readKind (frame_of k c @ rest) = Inr (k, length (frame_of k c) - length c, length c)"
proof -
  have size: "56 \<le> length c \<Longrightarrow> length c < 2 ^ 64 \<Longrightarrow>
      readSize (putint (of_nat (length c)) @ c @ rest) (of_nat (intsize (of_nat (length c)))) =
      Inr (of_nat (length c))"
    by (rule readSize_putint) (simp add: word_le_nat_alt unat_of_nat_u64)
  let ?n = "intsize (of_nat (length c))"
  have n8: "1 \<le> ?n" "?n \<le> 8" "?n < 9" "?n < 73"
    using intsize_le8 [of "of_nat (length c)"] by (simp_all del: intsize_le8)
  show ?thesis
  proof (cases k)
    case KByte
    then obtain x where "c = [x]" "x < 0x80"
      using assms by (cases c) auto
    then show ?thesis by (simp add: KByte readKind_def)
  next
    case KString
    show ?thesis
    proof (cases "length c < 56")
      case True
      have t: "unat (0x80 + of_nat (length c) :: byte) = 128 + length c"
        "(0x80 + of_nat (length c)) - 0x80 = (of_nat (length c) :: byte)"
        using True tag_byte [of "0x80" "length c"] by simp_all
      have "length c = 1 \<Longrightarrow> \<not> (c @ rest) ! 0 < 128"
        using assms KString by (cases c) auto
      with True t show ?thesis
        by (auto simp: KString readKind_def puthead_small word_less_nat_alt unat_of_nat_byte Let_def)
    next
      case False
      have t: "unat (0xB7 + of_nat ?n :: byte) = 183 + ?n" "(0xB7 + of_nat ?n) - 0xB7 = (of_nat ?n :: byte)"
        using n8(3,4) tag_byte [of "0xB7" ?n] by simp_all
      have "length c < 2 ^ 64" using assms KString by simp
      with False t n8 size show ?thesis
        by (simp add: KString readKind_def puthead_large word_less_nat_alt unat_of_nat_byte unat_of_nat_u64)
    qed
  next
    case KList
    show ?thesis
    proof (cases "length c < 56")
      case True
      have t: "unat (0xC0 + of_nat (length c) :: byte) = 192 + length c"
        "(0xC0 + of_nat (length c)) - 0xC0 = (of_nat (length c) :: byte)"
        using True tag_byte [of "0xC0" "length c"] by simp_all
      with True show ?thesis
        by (simp add: KList readKind_def puthead_small word_less_nat_alt unat_of_nat_byte)
    next
      case False
      have t: "unat (0xF7 + of_nat ?n :: byte) = 247 + ?n" "(0xF7 + of_nat ?n) - 0xF7 = (of_nat ?n :: byte)"
        using n8(3,4) tag_byte [of "0xF7" ?n] by simp_all
      have "length c < 2 ^ 64" using assms KList by simp
      with False t n8 size show ?thesis
        by (simp add: KList readKind_def puthead_large word_less_nat_alt unat_of_nat_byte unat_of_nat_u64)
    qed
  qed
qed

lemma frame_of_suffix: "\<exists>h. frame_of k c = h @ c"
  by (cases k) auto

lemma Split_frame: "framable k c \<Longrightarrow> Split (frame_of k c @ rest) = Inr (k, c, rest)"
  using frame_of_suffix [of k c] by (auto simp: Split_def readKind_head)

lemma checked_head:
  assumes "readKind b = Inr (k, ts, cs)"
  shows "ts + cs \<le> length b \<and> length (take cs (drop ts b)) = cs \<and>
         framable k (take cs (drop ts b)) \<and> take ts b @ take cs (drop ts b) = frame_of k (take cs (drop ts b))"
proof (cases b)
  case (Cons x xs)
  let ?b = "x # xs"
  consider (B) "x < 0x80" | (S) "0x80 \<le> x" "x < 0xB8" | (LS) "0xB8 \<le> x" "x < 0xC0"
    | (L) "0xC0 \<le> x" "x < 0xF8" | (LL) "0xF8 \<le> x" by fastforce
  then show ?thesis
  proof cases
    case B
    with assms Cons show ?thesis by (auto simp: readKind_def split: if_splits)
  next
    case S
    have u: "unat (x - 0x80) = unat x - 128" and x: "x = 0x80 + of_nat (unat x - 128)"
      using S by (simp_all add: unat_sub word_le_nat_alt of_nat_diff)
    from S have n: "unat x - 128 < 56" by (simp add: word_less_nat_alt)
    from assms Cons S u have e: "k = KString" "ts = 1" "cs = unat x - 128" "cs \<le> length xs"
      "cs = 1 \<Longrightarrow> length xs > 0 \<Longrightarrow> \<not> xs ! 0 < 128"
      by (auto simp: readKind_def Let_def not_less word_less_nat_alt word_le_nat_alt split: if_splits)
    have l: "length (take cs xs) = cs" using e by simp
    have "frame_of KString (take cs xs) = x # take cs xs"
      using n x e(3) l by (simp add: puthead_small del: length_take)
    moreover have "framable KString (take cs xs)"
      using e l n by (cases xs) (auto simp del: length_take)
    ultimately show ?thesis using e l Cons by (simp del: length_take)
  next
    case LS
    then have le: "(0xB7 :: byte) \<le> x" by (simp add: word_le_nat_alt)
    from assms Cons LS obtain s where r: "readSize xs (x - 0xB7) = Inr s"
      and e: "k = KString" "ts = unat (x - 0xB7) + 1" "cs = unat s" "cs \<le> length ?b - ts"
      by (auto simp: readKind_def Let_def not_less word_less_nat_alt word_le_nat_alt
            split: if_splits sum.splits)
    note c = readSize_canonical [OF r]
    have ts: "take ts ?b = x # putint s" "ts \<le> length ?b"
      using c(4,5) e(2) by (metis append_eq_conv_conj length_putint take_Suc_Cons Suc_eq_plus1)
        (metis c(4,5) e(2) Suc_eq_plus1 Suc_le_mono length_Cons length_append length_putint le_add1)
    have l: "length (take cs (drop ts ?b)) = cs" using e ts by simp
    have s: "(of_nat cs :: u64) = s" "cs < 2 ^ 64" "56 \<le> cs"
      using e(3) c(3) by (simp_all add: word_le_nat_alt)
    have "x = 0xB7 + of_nat (intsize s)"
      using c(4) by simp
    then have "frame_of KString (take cs (drop ts ?b)) = (x # putint s) @ take cs (drop ts ?b)"
      using s l puthead_large [OF s(3,2)] by (simp del: length_take)
    with e ts l s show ?thesis by (auto simp: Cons simp del: length_take)
  next
    case L
    have u: "unat (x - 0xC0) = unat x - 192" and x: "x = 0xC0 + of_nat (unat x - 192)"
      using L by (simp_all add: unat_sub word_le_nat_alt of_nat_diff)
    from L have n: "unat x - 192 < 56" by (simp add: word_less_nat_alt)
    from assms Cons L u have e: "k = KList" "ts = 1" "cs = unat x - 192" "cs \<le> length xs"
      by (auto simp: readKind_def Let_def not_less word_less_nat_alt word_le_nat_alt split: if_splits)
    have l: "length (take cs xs) = cs" using e by simp
    have "frame_of KList (take cs xs) = x # take cs xs"
      using n x e(3) l by (simp add: puthead_small del: length_take)
    then show ?thesis using e l n Cons by (simp del: length_take)
  next
    case LL
    then have le: "(0xF7 :: byte) \<le> x" by (simp add: word_le_nat_alt)
    from assms Cons LL obtain s where r: "readSize xs (x - 0xF7) = Inr s"
      and e: "k = KList" "ts = unat (x - 0xF7) + 1" "cs = unat s" "cs \<le> length ?b - ts"
      by (auto simp: readKind_def Let_def not_less word_less_nat_alt word_le_nat_alt
            split: if_splits sum.splits)
    note c = readSize_canonical [OF r]
    have ts: "take ts ?b = x # putint s" "ts \<le> length ?b"
      using c(4,5) e(2) by (metis append_eq_conv_conj length_putint take_Suc_Cons Suc_eq_plus1)
        (metis c(4,5) e(2) Suc_eq_plus1 Suc_le_mono length_Cons length_append length_putint le_add1)
    have l: "length (take cs (drop ts ?b)) = cs" using e ts by simp
    have s: "(of_nat cs :: u64) = s" "cs < 2 ^ 64" "56 \<le> cs"
      using e(3) c(3) by (simp_all add: word_le_nat_alt)
    have "x = 0xF7 + of_nat (intsize s)"
      using c(4) by simp
    then have "frame_of KList (take cs (drop ts ?b)) = (x # putint s) @ take cs (drop ts ?b)"
      using s l puthead_large [OF s(3,2)] by (simp del: length_take)
    with e ts l s show ?thesis by (auto simp: Cons simp del: length_take)
  qed
qed (use assms in \<open>simp add: readKind_def\<close>)

lemma Split_canonical:
  assumes "Split b = Inr (k, c, rest)"
  shows "framable k c \<and> b = frame_of k c @ rest"
proof -
  from assms obtain ts cs where r: "readKind b = Inr (k, ts, cs)"
    and c: "c = take cs (drop ts b)" and rest: "rest = drop (ts + cs) b"
    by (auto simp: Split_def split: sum.splits)
  have "b = take ts b @ take cs (drop ts b) @ drop (ts + cs) b"
    by (metis append_take_drop_id drop_drop add.commute)
  then show ?thesis using checked_head [OF r] c rest by (metis append.assoc)
qed

section \<open>The encoding, recursively\<close>

definition str_enc :: "bytes \<Rightarrow> bytes" where
  "str_enc c = frame_of (if length c = 1 \<and> c ! 0 < 0x80 then KByte else KString) c"

definition be_min :: "nat \<Rightarrow> bytes" where
  "be_min n = nat_be ((BitLen n + 7) div 8) n"

fun rlp_enc :: "rlp_val \<Rightarrow> bytes" where
  "rlp_enc (RUint i) = str_enc (be_min (unat i))"
| "rlp_enc (RBool v) = str_enc (if v then [1] else [])"
| "rlp_enc (RBigPtr p) = str_enc (case p of None \<Rightarrow> [] | Some i \<Rightarrow> be_min (nat i))"
| "rlp_enc (RBytes s) = str_enc s"
| "rlp_enc (RArray s) = str_enc s"
| "rlp_enc (RNilPtr e) = [e]"
| "rlp_enc (RSlice vs) = frame_of KList (concat (map rlp_enc vs))"
| "rlp_enc (RStruct vs) = frame_of KList (concat (map rlp_enc vs))"

text \<open>Values without a negative big integer; a nil pointer is written as the empty string or list.\<close>

fun encodable :: "rlp_val \<Rightarrow> bool" where
  "encodable (RBigPtr (Some i)) = (0 \<le> i)"
| "encodable (RSlice vs) = list_all encodable vs"
| "encodable (RStruct vs) = list_all encodable vs"
| "encodable (RNilPtr e) = (e = 0x80 \<or> e = 0xC0)"
| "encodable _ = True"

lemma BitLen_0 [simp]: "BitLen 0 = 0"
  by (simp add: BitLen.simps)

lemma BitLen_bounds: "n \<noteq> 0 \<Longrightarrow> 2 ^ (BitLen n - 1) \<le> n \<and> n < 2 ^ BitLen n \<and> 0 < BitLen n"
proof (induction n rule: BitLen.induct)
  case (1 n)
  show ?case
  proof (cases "n div 2 = 0")
    case True
    with 1(2) have "n = 1" by simp
    then show ?thesis by (simp add: BitLen.simps)
  next
    case False
    with 1(1)[OF 1(2)] have ih: "2 ^ (BitLen (n div 2) - 1) \<le> n div 2" "n div 2 < 2 ^ BitLen (n div 2)"
      "0 < BitLen (n div 2)" by auto
    then obtain m where m: "BitLen (n div 2) = Suc m" using gr0_implies_Suc by blast
    have "BitLen n = Suc (Suc m)" using 1(2) m by (subst BitLen.simps) simp
    with ih m show ?thesis by auto
  qed
qed

lemma nat_be_to_be: "nat_be n (unat (i :: u64)) = to_be n i"
proof -
  have "of_nat (unat i div 256 ^ k) = (ucast (drop_bit (8 * k) i) :: byte)" for k
  proof -
    have "unat (drop_bit (8 * k) i) = unat i div 256 ^ k"
      by (simp add: unat_drop_bit_eq drop_bit_nat_def power_mult)
    then show ?thesis by (metis of_nat_unat)
  qed
  then show ?thesis by (simp add: nat_be_def to_be_def)
qed

lemma be_min_u64: "i \<noteq> 0 \<Longrightarrow> be_min (unat i) = putint (i :: u64)"
proof -
  assume i: "i \<noteq> 0"
  let ?l = "BitLen (unat i)"
  have b: "2 ^ (?l - 1) \<le> unat i" "unat i < 2 ^ ?l" "0 < ?l"
    using i BitLen_bounds [of "unat i"] by (auto simp: unat_eq_0)
  have lo: "?l \<le> 8 * intsize i"
  proof (rule ccontr)
    assume "\<not> ?thesis"
    then have "8 * intsize i \<le> ?l - 1" by linarith
    then have "(2::nat) ^ (8 * intsize i) \<le> unat i"
      using b(1) by (meson order.trans power_increasing one_le_numeral)
    moreover have "unat i div 2 ^ (8 * intsize i) = 0"
      using arg_cong [OF intsize_covers [of i], of unat] by (simp add: unat_drop_bit_eq drop_bit_nat_def)
    ultimately show False by (simp add: div_eq_0_iff)
  qed
  have hi: "8 * (intsize i - 1) < ?l"
  proof (rule ccontr)
    assume "\<not> ?thesis"
    then have "unat i < 2 ^ (8 * (intsize i - 1))"
      using b(2) by (meson not_less order.strict_trans2 power_increasing one_le_numeral)
    then have "unat (drop_bit (8 * (intsize i - 1)) i) = 0"
      by (simp add: unat_drop_bit_eq drop_bit_nat_def)
    then show False using intsize_top [OF i] by (simp add: unat_eq_0)
  qed
  have "(?l + 7) div 8 = intsize i" using lo hi intsize_pos(1) [of i] by linarith
  then show ?thesis by (simp add: be_min_def nat_be_to_be putint_to_be)
qed

lemma BitLen_le: "n < 2 ^ k \<Longrightarrow> BitLen n \<le> k"
proof (rule ccontr)
  assume n: "n < 2 ^ k" and "\<not> BitLen n \<le> k"
  then have "k \<le> BitLen n - 1" "n \<noteq> 0" by (auto intro: gr0I)
  then have "2 ^ k \<le> n"
    using BitLen_bounds [of n] by (meson order.trans power_increasing one_le_numeral)
  then show False using n by simp
qed

section \<open>The encoder builds it\<close>

text \<open>
  What an operation adds to the buffer: string data and list headers whose offsets lie in it.
  Putting the headers back in gives the bytes the operation encodes.
\<close>

definition eb_ext :: "encBuffer \<Rightarrow> bytes \<Rightarrow> (nat \<times> nat) list \<Rightarrow> encBuffer" where
  "eb_ext b s hs = b\<lparr>eb_str := eb_str b @ s, eb_lheads := eb_lheads b @ hs,
     eb_lhsize := eb_lhsize b + (\<Sum>h\<leftarrow>hs. length (head_encode (snd h)))\<rparr>"

fun heads_in :: "nat \<Rightarrow> nat \<Rightarrow> (nat \<times> nat) list \<Rightarrow> bool" where
  "heads_in lo hi [] = (lo \<le> hi)"
| "heads_in lo hi ((off, sz) # hs) = (lo \<le> off \<and> heads_in off hi hs)"

fun expand :: "nat \<Rightarrow> bytes \<Rightarrow> (nat \<times> nat) list \<Rightarrow> bytes" where
  "expand base s [] = s"
| "expand base s ((off, sz) # hs) =
     take (off - base) s @ head_encode sz @ expand off (drop (off - base) s) hs"

lemma heads_in_le: "heads_in lo hi hs \<Longrightarrow> lo \<le> hi"
  by (induction lo hi hs rule: heads_in.induct) auto

lemma heads_in_append:
  "heads_in lo mid hs1 \<Longrightarrow> heads_in mid hi hs2 \<Longrightarrow> heads_in lo hi (hs1 @ hs2)"
proof (induction lo mid hs1 rule: heads_in.induct)
  case (1 lo mid)
  then show ?case by (cases hs2) (auto dest: heads_in_le)
qed auto

lemma expand_plain_append:
  "heads_in (base + length s1) hi hs \<Longrightarrow> expand base (s1 @ s2) hs = s1 @ expand (base + length s1) s2 hs"
  by (cases hs) (auto simp: Suc_diff_le)

lemma expand_append:
  "heads_in base (base + length s1) hs1 \<Longrightarrow> heads_in (base + length s1) hi hs2 \<Longrightarrow>
   expand base (s1 @ s2) (hs1 @ hs2) = expand base s1 hs1 @ expand (base + length s1) s2 hs2"
proof (induction base s1 hs1 rule: expand.induct)
  case (2 base s off sz hs)
  then have "off \<le> base + length s" by (auto dest: heads_in_le)
  with 2 show ?case by (auto simp: add.commute)
qed (simp add: expand_plain_append)

lemma length_expand:
  "heads_in base (base + length s) hs \<Longrightarrow>
   length (expand base s hs) = length s + (\<Sum>h\<leftarrow>hs. length (head_encode (snd h)))"
proof (induction base s hs rule: expand.induct)
  case (2 base s off sz hs)
  then have "off \<le> base + length s" by (auto dest: heads_in_le)
  with 2 show ?case by (auto simp: add.commute)
qed simp

lemma eb_ext_ext: "eb_ext (eb_ext b s1 hs1) s2 hs2 = eb_ext b (s1 @ s2) (hs1 @ hs2)"
  by (simp add: eb_ext_def)

lemma eb_append_ext: "eb_append b s = eb_ext b s []"
  by (simp add: eb_append_def eb_ext_def)

lemma copy_at_fill:
  "length d = length s + n \<Longrightarrow> copy_at (p @ d) (length p) s = p @ s @ drop (length s) d"
  by (simp add: copy_at_def)

lemma copyTo_expand:
  assumes "heads_in strpos (strpos + length s) hs" "length str0 = strpos"
    "length d = length (expand strpos s hs)"
  shows "copyTo (str0 @ s) (p @ d) (length p) strpos hs = Some (p @ expand strpos s hs)"
  using assms
proof (induction strpos s hs arbitrary: str0 p d rule: expand.induct)
  case (1 base s)
  then show ?case using copy_at_fill [of d s 0 p] by (simp add: go_slice_def)
next
  case (2 base s off sz hs)
  from 2(2) have o: "base \<le> off" "off \<le> base + length s" by (auto dest: heads_in_le)
  obtain a r where s: "s = a @ r" and off: "off = base + length a"
    using o by (intro that [of "take (off - base) s" "drop (off - base) s"]) auto
  let ?e = "head_encode sz"
  have ld: "length d = length a + length ?e + length (expand off r hs)"
    using 2(4) by (simp add: s off)
  let ?d' = "drop (length a) d"
  have c1: "copy_at (p @ d) (length p) a = p @ a @ ?d'"
    using copy_at_fill [of d a _ p] ld by simp
  have c2: "copy_at (p @ a @ ?d') (length p + length a) ?e = p @ a @ ?e @ drop (length ?e) ?d'"
    using copy_at_fill [of ?d' ?e "length (expand off r hs)" "p @ a"] ld by simp
  have "copyTo ((str0 @ a) @ r) ((p @ a @ ?e) @ drop (length ?e) ?d') (length (p @ a @ ?e)) off hs =
      Some ((p @ a @ ?e) @ expand off r hs)"
    using 2(1) [of "str0 @ a" "drop (length ?e) ?d'" "p @ a @ ?e"] 2(2,3) ld
    by (simp add: s off add.assoc)
  then show ?case
    using c1 c2 ld 2(3) by (simp add: s off go_slice_def Let_def add.assoc)
qed

lemma makeBytes_expand:
  assumes "b = eb_ext eb_reset s hs" "heads_in 0 (length s) hs"
  shows "makeBytes b = Some (expand 0 s hs)"
  using copyTo_expand [of 0 s hs "[]" "replicate (eb_size b) 0" "[]"] assms length_expand [of 0 s hs]
  by (simp add: makeBytes_def eb_ext_def eb_reset_def eb_size_def)

definition adds :: "encBuffer \<Rightarrow> encBuffer \<Rightarrow> bytes \<Rightarrow> bool" where
  "adds b b' c \<longleftrightarrow> (\<exists>s hs. b' = eb_ext b s hs \<and>
     heads_in (length (eb_str b)) (length (eb_str b) + length s) hs \<and> expand (length (eb_str b)) s hs = c)"

lemma adds_append [simp, intro]: "adds b (eb_append b c) c"
  unfolding adds_def by (rule exI [of _ c], rule exI [of _ "[]"]) (simp add: eb_append_ext)

lemma adds_refl [simp, intro]: "adds b b []"
  using adds_append [of b "[]"] by (simp add: eb_append_def)

lemma eb_str_ext [simp]: "eb_str (eb_ext b s hs) = eb_str b @ s"
  by (simp add: eb_ext_def)

lemma adds_trans: "adds b b1 c1 \<Longrightarrow> adds b1 b2 c2 \<Longrightarrow> adds b b2 (c1 @ c2)"
  unfolding adds_def
  by (elim exE conjE) (fastforce simp: eb_ext_ext add.assoc intro: heads_in_append expand_append)

lemma adds_append2: "eb_append (eb_append b c1) c2 = eb_append b (c1 @ c2)"
  by (simp add: eb_append_def)

lemma length_head: "n < 2 ^ 64 \<Longrightarrow> length (head_encode n) = (if n < 56 then 1 else 1 + intsize (of_nat n))"
  by (simp add: head_encode_def puthead_small puthead_large)

lemma adds_list:
  assumes "adds (snd (eb_list b)) b' c" "length c < 2 ^ 64"
  shows "adds b (eb_listEnd b' (fst (eb_list b))) (frame_of KList c)"
proof -
  from assms(1) obtain s hs where b': "b' = eb_ext (snd (eb_list b)) s hs"
    and h: "heads_in (length (eb_str b)) (length (eb_str b) + length s) hs"
    and c: "expand (length (eb_str b)) s hs = c"
    by (auto simp: adds_def eb_list_def)
  have n: "eb_size b' - length (eb_str b) - eb_lhsize b = length c"
    using length_expand [OF h] c by (simp add: b' eb_size_def eb_ext_def eb_list_def)
  have "eb_listEnd b' (fst (eb_list b)) = eb_ext b s ((length (eb_str b), length c) # hs)"
    using n assms(2) length_head [of "length c"]
    by (simp add: eb_listEnd_def b' eb_ext_def eb_list_def nth_append Let_def)
  then show ?thesis
    unfolding adds_def using h c by (auto simp: head_encode_def intro!: exI [of _ s])
qed

lemma encodeStringHeader_eq:
  "n < 2 ^ 64 \<Longrightarrow> encodeStringHeader b n = eb_append b (puthead 0x80 0xB7 (of_nat n))"
  by (cases "n < 56") (simp_all add: encodeStringHeader_def puthead_small puthead_large Let_def)

lemma writeBytes_eq: "length s < 2 ^ 64 \<Longrightarrow> writeBytes b s = eb_append b (str_enc s)"
  by (cases s rule: remdups_adj.cases)
    (auto simp: writeBytes_def str_enc_def encodeStringHeader_eq adds_append2
      word_less_nat_alt word_le_nat_alt)

lemma writeUint64_eq: "writeUint64 b i = eb_append b (str_enc (be_min (unat i)))"
proof (cases "i = 0")
  case False
  have u: "i < 256 \<Longrightarrow> unat (ucast i :: byte) = unat i"
    by (simp add: unsigned_ucast_eq take_bit_nat_eq_self word_less_nat_alt)
  show ?thesis
  proof (cases "i < 128")
    case True
    then have "i < 256" by (rule order.strict_trans) simp
    then have "putint i = [ucast i]" "(ucast i :: byte) < 0x80"
      using u True by (simp_all add: putint_def word_less_nat_alt)
    with False True show ?thesis by (simp add: writeUint64_def be_min_u64 str_enc_def)
  next
    case big: False
    have "\<not> (length (putint i) = 1 \<and> putint i ! 0 < 0x80)"
    proof
      assume a: "length (putint i) = 1 \<and> putint i ! 0 < 0x80"
      then have "i < 256" by (simp add: putint_def split: if_splits)
      with a u big show False by (simp add: putint_def word_less_nat_alt)
    qed
    then have "str_enc (putint i) = frame_of KString (putint i)"
      by (simp only: str_enc_def if_False)
    then show ?thesis
      using False big by (simp add: writeUint64_def be_min_u64 puthead_small Let_def
          order.strict_trans [OF intsize_lt9])
  qed
qed (simp add: writeUint64_def be_min_def nat_be_def str_enc_def puthead_small [of 0, simplified])

lemma writeBigInt_eq:
  assumes "length (be_min i) < 2 ^ 64"
  shows "writeBigInt b i = eb_append b (str_enc (be_min i))"
proof (cases "BitLen i \<le> 64")
  case True
  then have "i < 2 ^ 64"
    using BitLen_bounds [of i] by (metis power_increasing one_le_numeral order.strict_trans2 zero_less_numeral zero_less_power)
  then have "unat (of_nat i :: u64) = i" by (simp add: unat_of_nat_u64)
  with True show ?thesis by (simp add: writeBigInt_def writeUint64_eq)
next
  case False
  let ?l = "(BitLen i + 7) div 8"
  have "length (nat_be ?l i) = ?l" "2 \<le> ?l" using False by (simp_all add: nat_be_def)
  with False assms show ?thesis
    by (simp add: writeBigInt_def be_min_def str_enc_def encodeStringHeader_eq adds_append2 Let_def)
qed

lemma length_str_enc: "length c \<le> length (str_enc c)"
  by (simp add: str_enc_def)

lemma length_frame: "length c \<le> length (frame_of k c)"
  using frame_of_suffix [of k c] by auto

lemma write_val_adds:
  "encodable v \<Longrightarrow> length (rlp_enc v) < 2 ^ 64 \<Longrightarrow>
     \<exists>b'. write_val v b = Inr b' \<and> adds b b' (rlp_enc v)"
  "list_all encodable vs \<Longrightarrow> length (concat (map rlp_enc vs)) < 2 ^ 64 \<Longrightarrow>
     \<exists>b'. write_vals vs b = Inr b' \<and> adds b b' (concat (map rlp_enc vs))"
proof (induction v b and vs b rule: write_val_write_vals.induct)
  case (3 p b)
  show ?case
  proof (cases p)
    case None
    then show ?thesis by (simp add: str_enc_def puthead_small [of 0, simplified])
  next
    case (Some i)
    with 3 have "length (be_min (nat i)) < 2 ^ 64"
      using length_str_enc [of "be_min (nat i)"] by (simp del: One_nat_def)
    with 3 Some show ?thesis by (simp add: writeBigInt_eq)
  qed
next
  case (4 s b)
  then show ?case using length_str_enc [of s] by (simp add: writeBytes_eq)
next
  case (5 s b)
  then have l: "length s < 2 ^ 64" using length_str_enc [of s] by simp
  show ?case
  proof (cases s rule: remdups_adj.cases)
    case 1
    then show ?thesis by (simp add: str_enc_def puthead_small [of 0, simplified])
  next
    case (2 x)
    then show ?thesis
      by (simp add: str_enc_def puthead_small [of 1, simplified] word_le_nat_alt word_less_nat_alt)
  next
    case (3 x y ys)
    with l show ?thesis by (simp add: encodeStringHeader_eq adds_append2 str_enc_def)
  qed
next
  case (7 vs b)
  show ?case
  proof (cases "vs = []")
    case True
    then show ?thesis by (simp add: puthead_small [of 0, simplified])
  next
    case False
    have l: "length (concat (map rlp_enc vs)) < 2 ^ 64"
      using 7(3) length_frame [of "concat (map rlp_enc vs)" KList] by simp
    obtain b' where "write_vals vs (snd (eb_list b)) = Inr b'"
      "adds (snd (eb_list b)) b' (concat (map rlp_enc vs))"
      using 7(1) [OF False refl, of "fst (eb_list b)" "snd (eb_list b)"] 7(2) l by auto
    then show ?thesis
      using adds_list [OF _ l] False by (simp add: case_prod_beta)
  qed
next
  case (8 vs b)
  have l: "length (concat (map rlp_enc vs)) < 2 ^ 64"
    using 8(3) length_frame [of "concat (map rlp_enc vs)" KList] by simp
  obtain b' where "write_vals vs (snd (eb_list b)) = Inr b'"
    "adds (snd (eb_list b)) b' (concat (map rlp_enc vs))"
    using 8(1) [OF refl, of "fst (eb_list b)" "snd (eb_list b)"] 8(2) l by auto
  then show ?case using adds_list [OF _ l] by (simp add: case_prod_beta)
next
  case (10 v vs b)
  then obtain b1 where 1: "write_val v b = Inr b1" "adds b b1 (rlp_enc v)" by auto
  then obtain b2 where "write_vals vs b1 = Inr b2" "adds b1 b2 (concat (map rlp_enc vs))"
    using 10 by auto
  with 1 show ?case by (auto intro: adds_trans)
qed (auto simp: writeUint64_eq writeBool_def str_enc_def puthead_small [of 0, simplified])

lemma encode_negative: "write_val v b = Inl e \<Longrightarrow> e = ErrNegativeBigInt"
  "write_vals vs b = Inl e \<Longrightarrow> e = ErrNegativeBigInt"
  by (induction v b and vs b rule: write_val_write_vals.induct)
    (auto split: option.splits if_splits sum.splits prod.splits simp: Let_def)

section \<open>Properties\<close>

lemma EncodeToBytes_enc:
  assumes "encodable v" "length (rlp_enc v) < 2 ^ 64"
  shows "EncodeToBytes v = Some (Inr (rlp_enc v))"
proof -
  from write_val_adds(1) [OF assms, of eb_reset] obtain s hs where
    "write_val v eb_reset = Inr (eb_ext eb_reset s hs)" "heads_in 0 (length s) hs" "expand 0 s hs = rlp_enc v"
    by (auto simp: adds_def eb_reset_def)
  then show ?thesis
    using makeBytes_expand [OF refl, of s hs] by (simp add: EncodeToBytes_def)
qed

text \<open>
  C13: The buffered encoder is correct: for every value without a negative integer, writing string
  data and list headers apart, patching the header sizes when a list ends and copying both into a
  buffer of the computed size never panics and gives exactly the recursive RLP encoding.
\<close>

theorem EncodeToBytes_exact:
  assumes "encodable v" "length (rlp_enc v) < 2 ^ 64"
  shows "EncodeToBytes v = Some (Inr (rlp_enc v))"
  using assms by (rule EncodeToBytes_enc)

theorem EncodeToBytes_exact_witness:
  "EncodeToBytes (RStruct [RUint 1024, RBytes [1, 2], RSlice [], RBigPtr (Some 0)]) =
     Some (Inr [0xC8, 0x82, 4, 0, 0x82, 1, 2, 0xC0, 0x80])"
proof -
  have b: "be_min 1024 = [4, 0]" "be_min 0 = []" by code_simp+
  have e: "rlp_enc (RStruct [RUint 1024, RBytes [1, 2], RSlice [], RBigPtr (Some 0)]) =
      [0xC8, 0x82, 4, 0, 0x82, 1, 2, 0xC0, 0x80]"
    by (simp add: b str_enc_def puthead_def)
  show ?thesis
    using EncodeToBytes_exact [of "RStruct [RUint 1024, RBytes [1, 2], RSlice [], RBigPtr (Some 0)]"] unfolding e
    by simp
qed

text \<open>
  C14: Splitting is exactly the inverse of framing: \<open>Split\<close> returns a kind, a content and a rest
  if and only if the input is the canonical frame of that content followed by that rest.  In
  particular no value has two accepted encodings.
\<close>

theorem Split_iff_frame:
  "Split b = Inr (k, c, rest) \<longleftrightarrow> framable k c \<and> b = frame_of k c @ rest"
  using Split_canonical Split_frame by blast

text \<open>Integers.\<close>

lemma AppendUint64_eq: "AppendUint64 b i = b @ str_enc (be_min (unat i))"
proof -
  have "eb_str (writeUint64 \<lparr>eb_str = b, eb_lheads = [], eb_lhsize = 0\<rparr> i) = AppendUint64 b i"
    by (simp add: AppendUint64_def writeUint64_def eb_append_def putint_def Let_def)
  then show ?thesis by (simp add: writeUint64_eq eb_append_def)
qed

lemma SplitString_iff:
  "SplitString b = Inr (c, rest) \<longleftrightarrow> length c < 2 ^ 64 \<and> b = str_enc c @ rest"
proof -
  have "SplitString b = Inr (c, rest) \<longleftrightarrow> (\<exists>k. k \<noteq> KList \<and> Split b = Inr (k, c, rest))"
    by (auto simp: SplitString_def split: sum.splits if_splits)
  also have "\<dots> \<longleftrightarrow> (\<exists>k. k \<noteq> KList \<and> framable k c \<and> b = frame_of k c @ rest)"
    using Split_canonical Split_frame by blast
  also have "\<dots> \<longleftrightarrow> length c < 2 ^ 64 \<and> b = str_enc c @ rest"
  proof -
    have ex_kind: "(\<exists>k. P k) \<longleftrightarrow> P KByte \<or> P KString \<or> P KList" for P
      by (metis kind.exhaust)
    show ?thesis
      unfolding ex_kind str_enc_def by (cases "length c = 1 \<and> c ! 0 < 0x80") auto
  qed
  finally show ?thesis .
qed

lemma readSize_content:
  assumes "2 \<le> length c" "length c \<le> 8"
  shows "readSize c (of_nat (length c)) = Inr x \<longleftrightarrow> c = putint x"
proof -
  have l: "unat (of_nat (length c) :: byte) = length c"
    using assms by (intro unat_of_nat_byte) linarith
  show ?thesis
  proof
    assume "readSize c (of_nat (length c)) = Inr x"
    from readSize_canonical(5) [OF this] l show "c = putint x"
      by (metis append_Nil2 drop_all order_refl)
  next
    assume c: "c = putint x"
    then have "256 \<le> x" using assms(1) by (auto simp: putint_def split: if_splits)
    then have "56 \<le> x" by (rule order.trans [rotated]) simp
    from readSize_putint [OF this, of "[]"] c show "readSize c (of_nat (length c)) = Inr x" by simp
  qed
qed

lemma unat_byte_lt [simp]: "unat (b :: byte) < 256"
  by (rule order.strict_trans2 [OF unsigned_less]) simp

lemma unat_ucast_byte: "unat (ucast (b :: byte) :: u64) = unat b"
  by (simp add: unsigned_ucast_eq take_bit_nat_eq_self order.strict_trans [OF unsigned_less [of b]])

lemma ucast_ucast_byte [simp]: "ucast (ucast (b :: byte) :: u64) = b"
  by (rule bit_eqI) (auto simp: bit_simps dest: bit_imp_le_length)

lemma be_min_content:
  "c = be_min (unat (x :: u64)) \<longleftrightarrow>
     (length c = 0 \<and> x = 0) \<or>
     (length c = 1 \<and> c ! 0 \<noteq> 0 \<and> x = ucast (c ! 0)) \<or>
     (2 \<le> length c \<and> length c \<le> 8 \<and> c = putint x)"
proof (cases "x = 0")
  case True
  have "ucast (c ! 0) = (0 :: u64) \<Longrightarrow> c ! 0 = 0"
    using unat_ucast_byte [of "c ! 0"] by (simp add: unat_eq_0 [symmetric] del: unat_eq_0)
  with True show ?thesis
    by (auto simp: be_min_def nat_be_def putint_def)
next
  case False
  have u: "x = ucast (ucast x :: byte)" if "x < 256"
    using that by (intro iffD2 [OF word_unat_eq_iff])
      (simp add: unat_ucast_byte, simp add: unsigned_ucast_eq take_bit_nat_eq_self word_less_nat_alt)
  have l: "putint x = [ucast x] \<and> x < 256" if "length (putint x) = 1"
    using that by (auto simp: putint_def split: if_splits)
  have s: "length c = 1 \<Longrightarrow> c = [c ! 0]" for c :: bytes by (cases c) auto
  have "length c = 1 \<Longrightarrow> c = putint x \<longleftrightarrow> c ! 0 \<noteq> 0 \<and> x = ucast (c ! 0)"
  proof
    assume "length c = 1" "c = putint x"
    with l u hd_putint [OF False] show "c ! 0 \<noteq> 0 \<and> x = ucast (c ! 0)" by auto
  next
    assume c: "length c = 1" "c ! 0 \<noteq> 0 \<and> x = ucast (c ! 0)"
    then have "x < 256" by (simp add: word_less_nat_alt unat_ucast_byte)
    then show "c = putint x" using s [OF c(1)] c(2) by (auto simp: putint_def)
  qed
  moreover have "length (putint x) = 1 \<or> 2 \<le> length (putint x)" "length (putint x) \<le> 8"
    using intsize_pos(1) [of x] by (simp_all del: intsize_pos) linarith
  ultimately show ?thesis using False by (auto simp: be_min_u64)
qed

text \<open>
  C27: Integers round-trip and are canonical: \<open>SplitUint64\<close> returns \<open>x\<close> exactly on what
  \<open>AppendUint64\<close> writes for \<open>x\<close>, for all 64-bit values, and consumes exactly those bytes.
\<close>

theorem SplitUint64_iff_AppendUint64:
  "SplitUint64 b = Inr (x, rest) \<longleftrightarrow> b = AppendUint64 [] x @ rest"
proof -
  have len: "length (be_min (unat x)) \<le> 8"
    using be_min_content [of "be_min (unat x)" x] by auto
  have "SplitUint64 b = Inr (x, rest) \<longleftrightarrow>
      (\<exists>c. SplitString b = Inr (c, rest) \<and> c = be_min (unat x))"
  proof (cases "SplitString b")
    case (Inr p)
    then obtain c r where p: "SplitString b = Inr (c, r)" by (cases p) auto
    consider "length c = 0" | "length c = 1" | "2 \<le> length c" "length c \<le> 8" | "8 < length c"
      by linarith
    then show ?thesis
    proof cases
      case 3
      then show ?thesis
        using be_min_content [of c x] readSize_content [of c x]
        by (auto simp: SplitUint64_def p split: sum.splits)
    qed (use be_min_content [of c x] in \<open>auto simp: SplitUint64_def p\<close>)
  qed (simp add: SplitUint64_def)
  also have "\<dots> \<longleftrightarrow> b = AppendUint64 [] x @ rest"
    using len by (auto simp: SplitString_iff AppendUint64_eq)
  finally show ?thesis .
qed

lemma length_frame_le: "length (frame_of k c) \<le> 9 + length c"
  using intsize_le8 [of "of_nat (length c)"] by (cases k) (auto simp: puthead_def Let_def)

lemma length_str_enc_le: "length (str_enc c) \<le> 9 + length c"
  unfolding str_enc_def by (rule length_frame_le)

lemma str_enc_frame: "length (str_enc c) < 2 ^ 64 \<Longrightarrow> \<exists>k. framable k c \<and> str_enc c = frame_of k c"
  using length_str_enc [of c] unfolding str_enc_def
  by (cases "length c = 1 \<and> c ! 0 < 0x80") (auto intro: exI [of _ KByte] exI [of _ KString])

lemma list_frame: "length (frame_of KList c) < 2 ^ 64 \<Longrightarrow> framable KList c"
  using length_frame [of c KList] by simp

lemma rlp_enc_frame:
  assumes "encodable v" "length (rlp_enc v) < 2 ^ 64"
  shows "\<exists>k c. framable k c \<and> rlp_enc v = frame_of k c"
proof (cases v)
  case (RNilPtr e)
  then consider "e = 0x80" | "e = 0xC0" using assms(1) by auto
  then show ?thesis
  proof cases
    case 1
    then have "framable KString [] \<and> rlp_enc v = frame_of KString []"
      by (simp add: RNilPtr puthead_small [of 0, simplified])
    then show ?thesis by blast
  next
    case 2
    then have "framable KList [] \<and> rlp_enc v = frame_of KList []"
      by (simp add: RNilPtr puthead_small [of 0, simplified])
    then show ?thesis by blast
  qed
qed (use assms(2) str_enc_frame list_frame in \<open>simp only: rlp_enc.simps; blast\<close>)+

lemma CountValues_concat:
  "list_all encodable vs \<Longrightarrow> length (concat (map rlp_enc vs)) < 2 ^ 64 \<Longrightarrow>
   length (concat (map rlp_enc vs)) \<le> fuel \<Longrightarrow>
   count_values fuel (concat (map rlp_enc vs)) i = Inr (i + length vs)"
proof (induction vs arbitrary: fuel i)
  case Nil
  then show ?case by (cases fuel) simp_all
next
  case (Cons v vs)
  then obtain k c where f: "framable k c" "rlp_enc v = frame_of k c"
    using rlp_enc_frame [of v] by auto
  have ne: "frame_of k c \<noteq> []" using f(1) by (cases k) (auto simp: puthead_def Let_def)
  then obtain n where n: "fuel = Suc n" using Cons.prems(3) f(2) by (cases fuel) auto
  have "length (concat (map rlp_enc vs)) \<le> n"
    using Cons.prems(3) f(2) n ne by (cases "frame_of k c") auto
  then have ih: "count_values n (concat (map rlp_enc vs)) (i + 1) = Inr (i + 1 + length vs)"
    using Cons by auto
  show ?case
    using readKind_head [OF f(1)] f(2) n ne ih length_frame [of c k] by simp
qed

text \<open>
  C28: A list round-trips: encoding a slice or a struct of any values gives one list value, whose
  content is the encodings of the values one after the other and counts exactly as many values as
  were written; splitting values off it gives them in turn, each with the kind and the content of its
  own encoding, and leaves those after it.
\<close>

theorem encoded_list_splits:
  assumes "list_all encodable vs" "length (rlp_enc (RStruct vs)) < 2 ^ 64"
  shows "EncodeToBytes (RStruct vs) = Some (Inr (rlp_enc (RStruct vs))) \<and>
     EncodeToBytes (RSlice vs) = EncodeToBytes (RStruct vs) \<and>
     SplitList (rlp_enc (RStruct vs) @ rest) = Inr (concat (map rlp_enc vs), rest) \<and>
     CountValues (concat (map rlp_enc vs)) = Inr (length vs) \<and>
     (\<forall>i < length vs. \<exists>k c. EncodeToBytes (vs ! i) = Some (Inr (frame_of k c)) \<and> framable k c \<and>
        Split (concat (map rlp_enc (drop i vs))) = Inr (k, c, concat (map rlp_enc (drop (Suc i) vs))))"
proof -
  let ?c = "concat (map rlp_enc vs)"
  have l: "framable KList ?c" using assms(2) list_frame [of ?c] by simp
  have 1: "SplitList (rlp_enc (RStruct vs) @ rest) = Inr (?c, rest)"
    using Split_frame [OF l, of rest] by (simp add: SplitList_def)
  have 2: "CountValues ?c = Inr (length vs)"
    using CountValues_concat [OF assms(1), of "length ?c" 0] l by (simp add: CountValues_def)
  have 3: "\<exists>k c. EncodeToBytes (vs ! i) = Some (Inr (frame_of k c)) \<and> framable k c \<and>
      Split (concat (map rlp_enc (drop i vs))) = Inr (k, c, concat (map rlp_enc (drop (Suc i) vs)))" if i: "i < length vs" for i
  proof -
    have "encodable (vs ! i)" using assms(1) i by (simp add: list_all_length)
    moreover have "length (rlp_enc (vs ! i)) \<le> length ?c"
      by (subst id_take_nth_drop [OF i]) simp
    then have "length (rlp_enc (vs ! i)) < 2 ^ 64" using l by simp
    ultimately obtain k c where "framable k c" "rlp_enc (vs ! i) = frame_of k c"
      "EncodeToBytes (vs ! i) = Some (Inr (rlp_enc (vs ! i)))"
      using rlp_enc_frame EncodeToBytes_enc by blast
    moreover have "drop i vs = vs ! i # drop (Suc i) vs" by (rule Cons_nth_drop_Suc [OF i, symmetric])
    ultimately show ?thesis using Split_frame [of k c "concat (map rlp_enc (drop (Suc i) vs))"] by auto
  qed
  have 4: "EncodeToBytes (RStruct vs) = Some (Inr (rlp_enc (RStruct vs)))" "EncodeToBytes (RSlice vs) = EncodeToBytes (RStruct vs)"
    using EncodeToBytes_enc [of "RStruct vs"] EncodeToBytes_enc [of "RSlice vs"] assms by simp_all
  from 1 2 3 4 show ?thesis by blast
qed
theorem encoded_list_splits_witness:
  "EncodeToBytes (RStruct [RUint 5, RSlice []]) = Some (Inr [0xC2, 5, 0xC0]) \<and>
     SplitList [0xC2, 5, 0xC0, 7] = Inr ([5, 0xC0], [7]) \<and> CountValues [5, 0xC0] = Inr 2"
proof -
  have b: "be_min 5 = [5]" by code_simp
  have e: "rlp_enc (RStruct [RUint 5, RSlice []]) = [0xC2, 5, 0xC0]" "concat (map rlp_enc [RUint 5, RSlice []]) = [5, 0xC0]"
    by (simp_all add: b str_enc_def puthead_def)
  have "list_all encodable [RUint 5, RSlice []]" "length (rlp_enc (RStruct [RUint 5, RSlice []])) < 2 ^ 64"
    unfolding e by simp_all
  from encoded_list_splits [OF this, of "[7]"] show ?thesis unfolding e by simp
qed

end
