(* ===== verification/RlpDecode_Props.thy ===== *)
theory RlpDecode_Props
  imports RlpDecode Rlp_Props
begin

text \<open>
  The typed decoder against the encoder: a decoder is \<open>exact\<close> when, on a stream whose limits
  agree with its input, it returns a value precisely where the input starts with the canonical
  encoding of that value and the open lists leave room for it, and consumes just those bytes.
  The readers of single values are exact, and the decoders of slices, arrays, structs and pointers
  keep exactness; so \<open>DecodeBytes\<close> and \<open>EncodeToBytes\<close> are inverse to each other.
\<close>

section \<open>Streams and what a reader takes from them\<close>

definition live :: "stream \<Rightarrow> bool" where
  "live s \<longleftrightarrow> st_limited s \<and> unat (st_remaining s) = length (st_in s)"

definition ready :: "stream \<Rightarrow> bool" where
  "ready s \<longleftrightarrow> live s \<and> st_kind s = None"

definition shrink :: "nat \<Rightarrow> u64 list \<Rightarrow> u64 list" where
  "shrink n ls = (case ls of [] \<Rightarrow> [] | l # ls \<Rightarrow> (l - of_nat n) # ls)"

definition fits :: "nat \<Rightarrow> stream \<Rightarrow> bool" where
  "fits n s = (case st_stack s of [] \<Rightarrow> True | l # ls \<Rightarrow> n \<le> unat l)"

definition took :: "stream \<Rightarrow> bytes \<Rightarrow> stream \<Rightarrow> bool" where
  "took s c s' \<longleftrightarrow> live s' \<and> st_in s = c @ st_in s' \<and> st_stack s' = shrink (length c) (st_stack s)"

definition at_end :: "stream \<Rightarrow> bool" where
  "at_end s \<longleftrightarrow> (\<exists>ls. st_stack s = 0 # ls)"

definition consumed :: "stream \<Rightarrow> bytes \<Rightarrow> stream \<Rightarrow> bool" where
  "consumed s c s' \<longleftrightarrow> took s c s' \<and> st_kind s' = None"

lemma shrink_simps [simp]: "shrink n [] = []" "shrink n (l # ls) = (l - of_nat n) # ls" "shrink 0 ks = ks"
  by (auto simp: shrink_def split: list.splits)

lemma shrink_shrink [simp]: "shrink n (shrink m ls) = shrink (m + n) ls"
  by (cases ls) simp_all

lemma live_length: "live s \<Longrightarrow> length (st_in s) < 2 ^ 64"
  using unat_lt_64 [of "st_remaining s"] by (simp add: live_def)

lemma ready_live: "ready s \<Longrightarrow> live s" "ready s \<Longrightarrow> st_kind s = None"
  by (simp_all add: ready_def)

lemma took_trans: "took s c s1 \<Longrightarrow> took s1 d s2 \<Longrightarrow> took s (c @ d) s2"
  by (simp add: took_def)

lemma took_live: "took s c s' \<Longrightarrow> live s'"
  by (simp add: took_def)

lemma consumed_ready: "consumed s c s' \<Longrightarrow> ready s'"
  by (simp add: consumed_def ready_def took_def)

lemma consumed_trans: "took s c s1 \<Longrightarrow> consumed s1 d s2 \<Longrightarrow> consumed s (c @ d) s2"
  by (auto simp: consumed_def intro: took_trans)

lemma consumed_took: "consumed s c s' \<Longrightarrow> took s c s'"
  by (simp add: consumed_def)

lemma consumed_nil: "ready s \<Longrightarrow> consumed s [] s"
  by (simp add: consumed_def took_def ready_def)

lemma took_cong:
  "took s c s' \<Longrightarrow> st_in s'' = st_in s' \<Longrightarrow> st_stack s'' = st_stack s' \<Longrightarrow> st_remaining s'' = st_remaining s' \<Longrightarrow>
   st_limited s'' = st_limited s' \<Longrightarrow> took s c s''"
  by (simp add: took_def live_def)

lemma took_fits:
  assumes "took s c s'" "fits (length c + n) s"
  shows "fits n s'"
proof (cases "st_stack s")
  case (Cons l ls)
  with assms have l: "length c + n \<le> unat l" by (simp add: fits_def)
  then have "unat (of_nat (length c) :: u64) = length c"
    using unat_lt_64 [of l] by (intro unat_of_nat_u64) linarith
  then have "unat (l - of_nat (length c)) = unat l - length c"
    using l by (simp add: unat_sub word_le_nat_alt)
  with l Cons assms(1) show ?thesis by (simp add: took_def fits_def)
qed (use assms in \<open>simp add: took_def fits_def\<close>)

section \<open>Reading bytes\<close>

definition after :: "nat \<Rightarrow> stream \<Rightarrow> stream" where
  "after n s = s\<lparr>st_kind := None, st_stack := shrink n (st_stack s),
     st_remaining := st_remaining s - of_nat n, st_in := drop n (st_in s)\<rparr>"

definition calm_errors :: "stream_error set" where
  "calm_errors = UNIV - {EOL, NotDone}"

definition refuses :: "'a reading \<Rightarrow> stream \<Rightarrow> bool" where
  "refuses m s \<longleftrightarrow> (\<exists>e s'. m s = (Inl e, s') \<and> e \<in> calm_errors)"

lemma calm_simps [simp]:
  "e \<in> calm_errors \<longleftrightarrow> e \<noteq> EOL \<and> e \<noteq> NotDone"
  by (auto simp: calm_errors_def)

lemma and_read_gives [simp]: "m s = (Inr x, s') \<Longrightarrow> and_read m f s = f x s'"
  by (simp add: and_read_def)

lemma and_read_fails [simp]: "m s = (Inl e, s') \<Longrightarrow> and_read m f s = (Inl e, s')"
  by (simp add: and_read_def)

lemma refuses_and [intro]: "refuses m s \<Longrightarrow> refuses (and_read m f) s"
  by (auto simp: refuses_def)

lemma took_after: "live s \<Longrightarrow> n \<le> length (st_in s) \<Longrightarrow> consumed s (take n (st_in s)) (after n s)"
proof -
  assume s: "live s" and n: "n \<le> length (st_in s)"
  then have m: "unat (of_nat n :: u64) = n"
    using live_length [of s] by (intro unat_of_nat_u64) simp
  then have "unat (st_remaining s - of_nat n) = length (st_in s) - n"
    using s n by (simp add: live_def unat_sub word_le_nat_alt)
  with s n show ?thesis by (simp add: consumed_def took_def after_def live_def)
qed

lemma willRead_eq:
  assumes s: "live s" and n: "n < 2 ^ 64"
  shows "if fits n s \<and> n \<le> length (st_in s) then
      willRead (of_nat n) s = (Inr (), after n s\<lparr>st_in := st_in s\<rparr>)
    else refuses (willRead (of_nat n)) s"
proof -
  have u: "unat (of_nat n :: u64) = n" using n by (intro unat_of_nat_u64) simp
  show ?thesis
  proof (cases "st_stack s")
    case Nil
    with s u show ?thesis
      by (auto simp: willRead_def rearm_def limit_input_def live_def fits_def refuses_def after_def word_less_nat_alt Let_def)
  next
    case (Cons l ls)
    with s u show ?thesis
      by (auto simp: willRead_def rearm_def limit_input_def live_def fits_def refuses_def after_def word_less_nat_alt
          Let_def)
  qed
qed

lemma readFull_eq:
  assumes s: "live s" and n: "n < 2 ^ 64"
  shows "if fits n s \<and> n \<le> length (st_in s) then
      readFull (of_nat n) s = (Inr (take n (st_in s)), after n s)
    else refuses (readFull (of_nat n)) s"
  using willRead_eq [OF s n] n
  by (auto simp: readFull_def refuses_def after_def unat_of_nat_u64 split: if_splits)

lemma readByte_eq:
  assumes s: "live s"
  shows "if fits 1 s \<and> st_in s \<noteq> [] then readByte s = (Inr (hd (st_in s)), after 1 s) else refuses readByte s"
  using willRead_eq [OF s, of 1]
  by (auto simp: readByte_def refuses_def after_def neq_Nil_conv Suc_le_eq split: if_splits list.splits)

text \<open>The bytes of a size or an integer.\<close>

lemma readUint_eq:
  assumes s: "live s" and n: "0 < n" "n \<le> 8"
  shows "if fits n s \<and> n \<le> length (st_in s) \<and> (n = 1 \<or> hd (st_in s) \<noteq> 0) then
      readUint (of_nat n) s = (Inr (be_word (take n (st_in s))), after n s)
    else if fits n s \<and> n \<le> length (st_in s) then readUint (of_nat n) s = (Inl SCanonSize, after n s)
    else refuses (readUint (of_nat n)) s"
proof (cases "n = 1")
  case True
  with readByte_eq [OF s] show ?thesis
    by (cases "st_in s") (auto simp: readUint_def gives_def refuses_def be_word_def Suc_le_eq split: if_splits)
next
  case False
  with n have u: "(of_nat n :: u64) \<noteq> 0" "(of_nat n :: u64) \<noteq> 1"
    using unat_of_nat_u64 [of n] by (auto simp flip: word_unat_eq_iff dest!: arg_cong [where f = unat])
  have h: "n \<le> length b \<Longrightarrow> take n b ! 0 = hd b" for b :: bytes
    using n by (cases b) auto
  show ?thesis
    using readFull_eq [OF s, of n] n False u h [of "st_in s"]
    by (auto simp: readUint_def gives_def fails_def refuses_def split: if_splits)
qed

section \<open>Headers\<close>

fun header :: "kind \<Rightarrow> u64 \<Rightarrow> byte \<Rightarrow> bytes" where
  "header KByte n b = [b]"
| "header KString n b = puthead 0x80 0xB7 n"
| "header KList n b = puthead 0xC0 0xF7 n"

lemma long_size_sound:
  assumes s: "live s" and n: "0 < unat n" "unat n \<le> 8"
    and r: "long_size k n s = ((k', sz, None), s1)"
  shows "k' = k \<and> 56 \<le> sz \<and> unat n = intsize sz \<and> took s (putint sz) s1"
proof -
  let ?c = "take (unat n) (st_in s)"
  from r readUint_eq [OF s n, unfolded of_nat_unat] have *: "k' = k" "56 \<le> sz" "sz = be_word ?c" "s1 = after (unat n) s"
    "unat n \<le> length (st_in s)" "unat n = 1 \<or> hd (st_in s) \<noteq> 0"
    by (auto simp: long_size_def refuses_def split: sum.splits prod.splits if_splits)
  from *(5) n have ne: "?c \<noteq> []" "length ?c = unat n" "length ?c \<le> 8" "hd ?c = hd (st_in s)"
    by (auto simp: hd_take)
  have hd: "hd ?c \<noteq> 0"
  proof (cases "unat n = 1")
    case True
    then have "?c = [hd (st_in s)]" using *(5) by (cases "st_in s") auto
    with *(2,3) show ?thesis by (auto simp: be_word_def)
  qed (use *(6) ne(4) in simp)
  show ?thesis
    using * took_after [OF s *(5)] putint_be_word [OF ne(1,3) hd] intsize_be_word [OF ne(1,3) hd] ne(2)
    by (simp add: consumed_def)
qed

lemma long_size_complete:
  assumes s: "live s" and i: "st_in s = putint sz @ r" and z: "56 \<le> sz" and f: "fits (intsize sz) s"
  shows "long_size k (of_nat (intsize sz)) s = ((k, sz, None), after (intsize sz) s)"
proof -
  have n: "0 < intsize sz" "intsize sz \<le> 8" by simp_all
  have u: "ucast (of_nat (intsize sz) :: byte) = (of_nat (intsize sz) :: u64)"
  proof -
    have "intsize sz < 256" using intsize_le8 [of sz] by linarith
    then have "unat (of_nat (intsize sz) :: byte) = intsize sz" by (rule unat_of_nat_byte)
    moreover have "ucast (of_nat (intsize sz) :: byte) = (of_nat (unat (of_nat (intsize sz) :: byte)) :: u64)"
      by (rule of_nat_unat [symmetric])
    ultimately show ?thesis by (simp only:)
  qed
  have "sz \<noteq> 0" using z by auto
  then have "hd (st_in s) \<noteq> 0" using i hd_putint [of sz] by simp
  with readUint_eq [OF s n] i f z show ?thesis
    by (simp add: long_size_def u not_less [symmetric])
qed

lemma short_byte:
  assumes "\<not> b < t" "b < t + 56" "unat t + 56 < 256"
  shows "(ucast (b - t) :: u64) < 56" "t + ucast (ucast (b - t) :: u64) = (b :: byte)"
proof -
  have "unat (b - t) < 56"
    using assms by (simp add: word_less_nat_alt unat_word_ariths unat_sub_if' not_less)
  then show "(ucast (b - t) :: u64) < 56" by (simp add: word_less_nat_alt unat_ucast_byte)
qed simp

lemma long_byte:
  assumes "\<not> b < t + 1" "b < t + 9 \<or> unat t = 247" "unat t \<le> 247"
  shows "0 < unat (b - t)" "unat (b - t) \<le> 8" "t + of_nat (unat (b - t)) = (b :: byte)"
proof -
  have "unat (t + 1) = unat t + 1" using assms(3) by (simp add: unat_word_ariths)
  with assms have "unat t < unat b" "unat b \<le> unat t + 8 \<or> unat t = 247"
    by (auto simp: word_less_nat_alt unat_word_ariths not_less)
  moreover from this(2) have "unat b \<le> unat t + 8"
    using unat_byte_lt [of b] by linarith
  ultimately have "unat t < unat b" "unat b \<le> unat t + 8" by simp_all
  then show "0 < unat (b - t)" "unat (b - t) \<le> 8" by (simp_all add: unat_sub_if')
qed simp

lemma ucast_small_byte: "t < 56 \<Longrightarrow> unat (ucast (of_nat t :: byte) :: u64) = t"
  by (simp add: unat_ucast_byte unat_of_nat_byte)

lemma puthead_long: "56 \<le> sz \<Longrightarrow> puthead t l sz = (l + of_nat (intsize sz)) # putint sz"
  by (simp add: puthead_def Let_def not_less [symmetric])

lemma puthead_short: "sz < 56 \<Longrightarrow> puthead t l sz = [t + ucast sz]"
  by (simp add: puthead_def)

lemma readKind_sound:
  assumes s: "live s" and r: "st_readKind s = ((k, sz, None), s1)"
  shows "took s (header k sz (st_byteval s1)) s1 \<and> (k = KByte \<longrightarrow> sz = 0 \<and> st_byteval s1 < 128)"
proof -
  define b where "b = hd (st_in s)"
  from r readByte_eq [OF s] have rb: "readByte s = (Inr b, after 1 s)" and ne: "st_in s \<noteq> []"
    by (auto simp: st_readKind_def b_def refuses_def split: if_splits)
  have t1: "consumed s [b] (after 1 s)"
    using took_after [OF s, of 1] ne by (cases "st_in s") (auto simp: b_def)
  define s2 where "s2 = after 1 s\<lparr>st_byteval := 0\<rparr>"
  have t2: "took s [b] s2" and l2: "live s2"
    using t1 by (auto simp: s2_def consumed_def intro: took_cong) (simp add: took_def live_def)
  have b2: "took s2 c s3 \<Longrightarrow> took s (b # c) s3" for c s3
    using took_trans [OF t2] by fastforce
  consider (byte) "b < 0x80" | (str) "\<not> b < 0x80" "b < 0xB8" | (lstr) "\<not> b < 0xB8" "b < 0xC0"
    | (list) "\<not> b < 0xC0" "b < 0xF8" | (llist) "\<not> b < 0xF8" by blast
  then show ?thesis
  proof cases
    case byte
    with r rb have *: "k = KByte" "sz = 0" "s1 = s2\<lparr>st_byteval := b\<rparr>"
      by (auto simp: st_readKind_def Let_def s2_def)
    with byte t2 show ?thesis by (auto intro: took_cong)
  next
    case str
    with r rb have *: "k = KString" "sz = ucast (b - 0x80)" "s1 = s2"
      by (auto simp: st_readKind_def Let_def s2_def)
    with short_byte [of b "0x80"] str t2 show ?thesis by (simp add: puthead_short)
  next
    case list
    then have "\<not> b < 0x80" "\<not> b < 0xB8" by (auto simp: word_less_nat_alt)
    with list r rb have *: "k = KList" "sz = ucast (b - 0xC0)" "s1 = s2"
      by (auto simp: st_readKind_def Let_def s2_def)
    with short_byte [of b "0xC0"] list t2 show ?thesis by (simp add: puthead_short)
  next
    case lstr
    then have "\<not> b < 0x80" by (auto simp: word_less_nat_alt)
    with lstr r rb have *: "long_size KString (b - 0xB7) s2 = ((k, sz, None), s1)"
      by (auto simp: st_readKind_def Let_def s2_def)
    note n = long_byte [of b "0xB7"]
    from long_size_sound [OF l2 n(1,2) *] lstr have h: "k = KString" "56 \<le> sz" "took s (b # putint sz) s1"
      "unat (b - 0xB7) = intsize sz"
      by (auto intro: b2)
    with n(3) lstr have "0xB7 + of_nat (intsize sz) = b" by auto
    with h show ?thesis by (simp add: puthead_long)
  next
    case llist
    then have "\<not> b < 0x80" "\<not> b < 0xB8" "\<not> b < 0xC0" by (auto simp: word_less_nat_alt)
    with llist r rb have *: "long_size KList (b - 0xF7) s2 = ((k, sz, None), s1)"
      by (auto simp: st_readKind_def Let_def s2_def)
    note n = long_byte [of b "0xF7"]
    from long_size_sound [OF l2 n(1,2) *] llist have h: "k = KList" "56 \<le> sz" "took s (b # putint sz) s1"
      "unat (b - 0xF7) = intsize sz"
      by (auto intro: b2)
    with n(3) llist have "0xF7 + of_nat (intsize sz) = b" by auto
    with h show ?thesis by (simp add: puthead_long)
  qed
qed

lemma byte_sum:
  assumes "m < n" "unat t + n \<le> 256"
  shows "unat (t + of_nat m :: byte) = unat t + m" "t + of_nat m - t = (of_nat m :: byte)"
  using tag_byte [of t m] assms by simp_all

lemma header_short:
  "sz < 56 \<Longrightarrow> unat (t + ucast (sz :: u64) :: byte) = unat t + unat sz \<and>
     (ucast (t + ucast sz - t :: byte) :: u64) = sz" if "unat t + 56 \<le> 256"
proof -
  assume z: "sz < 56"
  then have u: "unat sz < 56" by (simp add: word_less_nat_alt)
  have c: "ucast sz = (of_nat (unat sz) :: byte)" by (rule of_nat_unat [symmetric])
  have "unat (ucast sz :: byte) = unat sz" unfolding c using u by (intro unat_of_nat_byte) simp
  then have "(ucast (ucast sz :: byte) :: u64) = sz" by (simp add: word_unat_eq_iff unat_ucast_byte)
  with byte_sum(1) [OF u that] show ?thesis by (simp flip: c)
qed

lemma readKind_complete:
  assumes s: "live s" and i: "st_in s = header k sz b @ r" and k: "k = KByte \<longrightarrow> sz = 0 \<and> b < 128"
    and f: "fits (length (header k sz b)) s"
  shows "\<exists>s1. st_readKind s = ((k, sz, None), s1)"
proof -
  have ne: "st_in s \<noteq> []" using i by (cases k) (auto simp: puthead_def Let_def)
  have "1 \<le> length (header k sz b)" by (cases k) (auto simp: puthead_def Let_def)
  with f have f1: "fits 1 s" by (auto simp: fits_def split: list.splits)
  define c where "c = hd (st_in s)"
  define s2 where "s2 = after 1 s\<lparr>st_byteval := 0\<rparr>"
  have rb: "readByte s = (Inr c, after 1 s)" using readByte_eq [OF s] f1 ne by (simp add: c_def)
  have t1: "consumed s [c] (after 1 s)"
    using took_after [OF s, of 1] ne by (cases "st_in s") (auto simp: c_def)
  have t2: "took s [c] s2" and l2: "live s2"
    using t1 by (auto simp: s2_def consumed_def intro: took_cong) (simp add: took_def live_def)
  have long: "st_in s2 = putint sz @ r \<and> fits (intsize sz) s2"
    if "header k sz b = c # putint sz"
  proof
    show "st_in s2 = putint sz @ r" using i that by (simp add: s2_def after_def)
    have "fits (length [c] + intsize sz) s" using f that by simp
    from took_fits [OF t2 this] show "fits (intsize sz) s2" .
  qed
  have n: "intsize sz < 9" "unat (of_nat (intsize sz) :: byte) = intsize sz"
    using unat_of_nat_byte [of "intsize sz"] intsize_le8 [of sz] by (simp_all del: intsize_le8)
  show ?thesis
  proof (cases k)
    case KByte
    with i k rb show ?thesis by (auto simp: st_readKind_def c_def)
  next
    case KString
    show ?thesis
    proof (cases "sz < 56")
      case True
      then have "c = 0x80 + ucast sz" using i KString by (simp add: c_def puthead_short)
      with header_short [of "0x80" sz] True have "\<not> c < 0x80" "c < 0xB8" "ucast (c - 0x80) = sz"
        by (auto simp: word_less_nat_alt)
      with rb KString show ?thesis by (simp add: st_readKind_def)
    next
      case False
      then have h: "header k sz b = (0xB7 + of_nat (intsize sz)) # putint sz"
        using KString by (simp add: puthead_long not_less)
      with i have c: "c = 0xB7 + of_nat (intsize sz)" by (simp add: c_def)
      with byte_sum [OF n(1), of "0xB7"] have tag: "c - 0xB7 = of_nat (intsize sz)"
        and "\<not> c < 0x80" "\<not> c < 0xB8" "c < 0xC0"
        using intsize_pos(1) [of sz] n(1) by (auto simp: word_less_nat_alt)
      then have "st_readKind s = long_size KString (c - 0xB7) s2"
        by (simp add: st_readKind_def rb Let_def s2_def)
      moreover have "long_size KString (c - 0xB7) s2 = ((KString, sz, None), after (intsize sz) s2)"
        using long_size_complete [OF l2, of sz r KString] long h c False tag by (simp add: not_less)
      ultimately show ?thesis using KString by simp
    qed
  next
    case KList
    show ?thesis
    proof (cases "sz < 56")
      case True
      then have "c = 0xC0 + ucast sz" using i KList by (simp add: c_def puthead_short)
      with header_short [of "0xC0" sz] True have "\<not> c < 0xC0" "c < 0xF8" "ucast (c - 0xC0) = sz"
        by (auto simp: word_less_nat_alt)
      moreover have "\<not> c < 0x80" "\<not> c < 0xB8" using \<open>\<not> c < 0xC0\<close> by (auto simp: word_less_nat_alt)
      ultimately show ?thesis using rb KList by (simp add: st_readKind_def)
    next
      case False
      then have h: "header k sz b = (0xF7 + of_nat (intsize sz)) # putint sz"
        using KList by (simp add: puthead_long not_less)
      with i have c: "c = 0xF7 + of_nat (intsize sz)" by (simp add: c_def)
      with byte_sum [OF n(1), of "0xF7"] have tag: "c - 0xF7 = of_nat (intsize sz)"
        and "\<not> c < 0x80" "\<not> c < 0xB8" "\<not> c < 0xC0" "\<not> c < 0xF8"
        using intsize_pos(1) [of sz] n(1) by (auto simp: word_less_nat_alt)
      then have "st_readKind s = long_size KList (c - 0xF7) s2"
        by (simp add: st_readKind_def rb Let_def s2_def)
      moreover have "long_size KList (c - 0xF7) s2 = ((KList, sz, None), after (intsize sz) s2)"
        using long_size_complete [OF l2, of sz r KList] long h c False tag by (simp add: not_less)
      ultimately show ?thesis using KList by simp
    qed
  qed
qed

lemma readUint_calm: "live s \<Longrightarrow> 0 < n \<Longrightarrow> n \<le> 8 \<Longrightarrow> readUint (of_nat n) s = (Inl e, s1) \<Longrightarrow> e \<in> calm_errors"
  using readUint_eq [of s n] by (auto simp: refuses_def split: if_splits)

lemma readKind_calm:
  assumes s: "live s" and r: "st_readKind s = ((k, sz, Some e), s1)"
  shows "e \<in> calm_errors"
proof (cases "fits 1 s \<and> st_in s \<noteq> []")
  case True
  with readByte_eq [OF s] have rb: "readByte s = (Inr (hd (st_in s)), after 1 s)" by simp
  let ?b = "hd (st_in s)" and ?s2 = "after 1 s\<lparr>st_byteval := 0\<rparr>"
  have l2: "live ?s2" using took_after [OF s, of 1] True
    by (cases "st_in s") (auto simp: consumed_def took_def live_def)
  have "e \<in> calm_errors" if "long_size k' (b - t) ?s2 = ((k, sz, Some e), s1)" "0 < unat (b - t)" "unat (b - t) \<le> 8"
    for k' b t
    using that readUint_calm [OF l2 that(2,3), unfolded of_nat_unat]
    by (auto simp: long_size_def split: sum.splits prod.splits if_splits)
  moreover have "\<not> ?b < 0xB8 \<Longrightarrow> ?b < 0xC0 \<Longrightarrow> 0 < unat (?b - 0xB7) \<and> unat (?b - 0xB7) \<le> 8"
    "\<not> ?b < 0xF8 \<Longrightarrow> 0 < unat (?b - 0xF7) \<and> unat (?b - 0xF7) \<le> 8"
    using long_byte [of ?b "0xB7"] long_byte [of ?b "0xF7"] by auto
  ultimately show ?thesis
    using r rb by (auto simp: st_readKind_def Let_def split: if_splits)
next
  case False
  with readByte_eq [OF s] have "refuses readByte s" by (simp split: if_splits)
  with r show ?thesis by (auto simp: refuses_def st_readKind_def split: if_splits)
qed

section \<open>The kind of the next value\<close>

definition announced :: "stream \<Rightarrow> kind \<Rightarrow> u64 \<Rightarrow> stream \<Rightarrow> bool" where
  "announced s k sz s1 \<longleftrightarrow> took s (header k sz (st_byteval s1)) s1 \<and> st_kind s1 = Some k \<and> st_size s1 = sz \<and>
     st_kinderr s1 = None \<and> unat sz \<le> length (st_in s1) \<and> (k = KByte \<longrightarrow> sz = 0 \<and> st_byteval s1 < 128)"

lemma header_nonempty: "0 < length (header k sz b)"
  by (cases k) (auto simp: puthead_def Let_def)

lemma Kind_ready:
  "ready s \<Longrightarrow> \<not> at_end s \<Longrightarrow> st_Kind s = (case st_readKind s of ((k, sz, err), s1) \<Rightarrow>
     let s1 = s1\<lparr>st_kind := Some k, st_size := sz, st_kinderr := err\<rparr>;
         s1 = (if err = None then s1\<lparr>st_kinderr := check_size (listLimit s) s1\<rparr> else s1)
     in cached_kind s1)"
proof -
  assume "ready s" "\<not> at_end s"
  then have "st_kind s = None" "listLimit s \<noteq> Some 0"
    by (auto simp: ready_def at_end_def listLimit_def split: list.splits)
  then show ?thesis by (simp add: st_Kind_def Let_def)
qed

lemma Kind_end: "ready s \<Longrightarrow> at_end s \<Longrightarrow> st_Kind s = (Inl EOL, s)"
  by (auto simp: st_Kind_def ready_def at_end_def listLimit_def)

lemma Kind_again: "announced s k sz s1 \<Longrightarrow> st_Kind s1 = (Inr (k, sz), s1)"
  by (simp add: announced_def st_Kind_def cached_kind_def)

lemma Kind_sound:
  assumes s: "ready s" and r: "st_Kind s = (Inr (k, sz), s1)"
  shows "announced s k sz s1"
proof -
  have "\<not> at_end s" using Kind_end [OF s] r by auto
  from r Kind_ready [OF s this] obtain s2 where s2: "st_readKind s = ((k, sz, None), s2)"
    and s1: "s1 = s2\<lparr>st_kind := Some k, st_size := sz, st_kinderr := None\<rparr>"
    and c: "check_size (listLimit s) (s2\<lparr>st_kind := Some k, st_size := sz, st_kinderr := None\<rparr>) = None"
    by (auto simp: cached_kind_def Let_def split: prod.splits if_splits option.splits)
  from readKind_sound [OF ready_live(1) [OF s] s2]
  have t: "took s (header k sz (st_byteval s2)) s2" "k = KByte \<longrightarrow> sz = 0 \<and> st_byteval s2 < 128" by simp_all
  then have "sz \<le> st_remaining s2" using c by (auto simp: check_size_def took_def live_def not_less split: if_splits)
  then have "unat sz \<le> length (st_in s2)" using t(1) by (simp add: took_def live_def word_le_nat_alt)
  with t s1 show ?thesis by (auto simp: announced_def intro: took_cong)
qed

lemma Kind_error:
  assumes s: "ready s" and r: "st_Kind s = (Inl e, s1)"
  shows "e \<noteq> NotDone \<and> (e = EOL \<longrightarrow> at_end s \<and> s1 = s)"
proof (cases "at_end s")
  case True
  with Kind_end [OF s] r show ?thesis by simp
next
  case False
  from r Kind_ready [OF s False] have "e \<in> calm_errors"
    using readKind_calm [OF ready_live(1) [OF s]]
    by (auto simp: cached_kind_def check_size_def Let_def split: prod.splits if_splits option.splits)
  then show ?thesis by simp
qed

lemma Kind_complete:
  assumes s: "ready s" and i: "st_in s = header k sz b @ r" and k: "k = KByte \<longrightarrow> sz = 0 \<and> b < 128"
    and n: "unat sz \<le> length r" and f: "fits (length (header k sz b) + unat sz) s"
  shows "\<exists>s1. st_Kind s = (Inr (k, sz), s1) \<and> announced s k sz s1 \<and> st_in s1 = r \<and> fits (unat sz) s1 \<and>
    (k = KByte \<longrightarrow> st_byteval s1 = b)"
proof -
  have f1: "fits (length (header k sz b)) s" using f by (auto simp: fits_def split: list.splits)
  have ne: "\<not> at_end s" using f header_nonempty [of k sz b] by (auto simp: fits_def at_end_def)
  note l = ready_live(1) [OF s]
  obtain s2 where s2: "st_readKind s = ((k, sz, None), s2)" using readKind_complete [OF l i k f1] by blast
  from readKind_sound [OF l s2] have t: "took s (header k sz (st_byteval s2)) s2" by simp
  have h: "header k sz (st_byteval s2) = header k sz b \<and> st_in s2 = r \<and> (k = KByte \<longrightarrow> st_byteval s2 = b)"
    using t i by (cases k) (auto simp: took_def)
  then have "unat sz \<le> unat (st_remaining s2)" using t n by (simp add: took_def live_def)
  moreover have "case listLimit s of None \<Rightarrow> True | Some m \<Rightarrow> sz \<le> m"
    using f by (auto simp: fits_def listLimit_def word_le_nat_alt split: list.splits)
  ultimately have "st_Kind s = (Inr (k, sz), s2\<lparr>st_kind := Some k, st_size := sz, st_kinderr := None\<rparr>)"
    using s2 by (auto simp: Kind_ready [OF s ne] cached_kind_def check_size_def word_less_nat_alt not_less
        word_le_nat_alt Let_def split: option.splits)
  moreover have "fits (unat sz) s2" using took_fits [OF t] f h by simp
  ultimately show ?thesis using Kind_sound [OF s] h by (fastforce simp: fits_def)
qed

section \<open>Exact readers\<close>

text \<open>
  On a stream whose kind is not read yet, an exact reader returns \<open>x\<close> precisely on the encoding
  of \<open>x\<close>; it tells the end of a list, and nothing else, by \<open>EOL\<close>; and it may be entered with
  the kind already read.
\<close>

definition sound_at :: "'a reading \<Rightarrow> ('a \<Rightarrow> bool) \<Rightarrow> ('a \<Rightarrow> bytes) \<Rightarrow> stream \<Rightarrow> bool" where
  "sound_at m V enc s \<longleftrightarrow> (\<forall>x s'. m s = (Inr x, s') \<longrightarrow> V x \<and> consumed s (enc x) s')"

definition complete_at :: "'a reading \<Rightarrow> ('a \<Rightarrow> bool) \<Rightarrow> ('a \<Rightarrow> bytes) \<Rightarrow> stream \<Rightarrow> bool" where
  "complete_at m V enc s \<longleftrightarrow> (\<forall>x r. V x \<longrightarrow> st_in s = enc x @ r \<longrightarrow> fits (length (enc x)) s \<longrightarrow>
     (\<exists>s'. m s = (Inr x, s')))"

definition ends_at :: "'a reading \<Rightarrow> stream \<Rightarrow> bool" where
  "ends_at m s \<longleftrightarrow> (at_end s \<longrightarrow> m s = (Inl EOL, s)) \<and>
     (\<forall>e s'. m s = (Inl e, s') \<longrightarrow> e \<noteq> NotDone \<and> (e = EOL \<longrightarrow> at_end s \<and> s' = s)) \<and>
     (\<forall>k sz s1. st_Kind s = (Inr (k, sz), s1) \<longrightarrow> m s1 = m s) \<and>
     (\<forall>x s'. m s = (Inr x, s') \<longrightarrow> (\<exists>k sz s1. st_Kind s = (Inr (k, sz), s1)))"

definition exact :: "'a reading \<Rightarrow> ('a \<Rightarrow> bool) \<Rightarrow> ('a \<Rightarrow> bytes) \<Rightarrow> bool" where
  "exact m V enc \<longleftrightarrow> (\<forall>s. ready s \<longrightarrow> sound_at m V enc s \<and> complete_at m V enc s \<and> ends_at m s) \<and>
     (\<forall>x. V x \<longrightarrow> enc x \<noteq> [])"

lemma exactD:
  assumes "exact m V enc" "ready s"
  shows "m s = (Inr x, s') \<Longrightarrow> V x" "m s = (Inr x, s') \<Longrightarrow> consumed s (enc x) s'"
    "V x \<Longrightarrow> st_in s = enc x @ r \<Longrightarrow> fits (length (enc x)) s \<Longrightarrow> \<exists>s'. m s = (Inr x, s')"
    "at_end s \<Longrightarrow> m s = (Inl EOL, s)" "m s = (Inl e, s') \<Longrightarrow> e \<noteq> NotDone"
    "m s = (Inl EOL, s') \<Longrightarrow> at_end s" "m s = (Inl EOL, s') \<Longrightarrow> s' = s"
    "st_Kind s = (Inr (k, sz), s1) \<Longrightarrow> m s1 = m s" "V x \<Longrightarrow> enc x \<noteq> []"
    "m s = (Inr x, s') \<Longrightarrow> \<exists>k sz s1. st_Kind s = (Inr (k, sz), s1)"
  using assms unfolding exact_def sound_at_def complete_at_def ends_at_def by blast+

text \<open>A value opened: its header, then its content.\<close>

definition opens :: "bytes \<Rightarrow> kind \<Rightarrow> u64 \<Rightarrow> byte \<Rightarrow> bytes \<Rightarrow> bool" where
  "opens e k sz b c \<longleftrightarrow> e = header k sz b @ c \<and> length c = unat sz \<and> (k = KByte \<longrightarrow> sz = 0 \<and> b < 128)"

definition opened :: "kind \<Rightarrow> u64 \<Rightarrow> byte \<Rightarrow> bytes \<Rightarrow> stream \<Rightarrow> bool" where
  "opened k sz b c s1 \<longleftrightarrow> live s1 \<and> st_kind s1 = Some k \<and> st_size s1 = sz \<and> (\<exists>r. st_in s1 = c @ r) \<and>
     fits (length c) s1 \<and> (k = KByte \<longrightarrow> st_byteval s1 = b)"

lemma exact_kind:
  assumes m: "m = and_read st_Kind (\<lambda>(k, sz). f k sz)"
    and snd: "\<And>s k sz s1 x s'. ready s \<Longrightarrow> announced s k sz s1 \<Longrightarrow> f k sz s1 = (Inr x, s') \<Longrightarrow>
      V x \<and> consumed s (enc x) s'"
    and err: "\<And>s k sz s1 e s'. ready s \<Longrightarrow> announced s k sz s1 \<Longrightarrow> f k sz s1 = (Inl e, s') \<Longrightarrow> e \<in> calm_errors"
    and cmp: "\<And>x. V x \<Longrightarrow> length (enc x) < 2 ^ 64 \<Longrightarrow> \<exists>k sz b c. opens (enc x) k sz b c \<and>
      (\<forall>s1. opened k sz b c s1 \<longrightarrow> (\<exists>s'. f k sz s1 = (Inr x, s')))"
    and ne: "\<And>x. V x \<Longrightarrow> enc x \<noteq> []"
  shows "exact m V enc"
  unfolding exact_def
proof (intro conjI allI impI)
  fix s :: stream
  assume s: "ready s"
  show "sound_at m V enc s"
    unfolding sound_at_def m and_read_def
    using snd [OF s Kind_sound [OF s]] by (auto split: prod.splits sum.splits)
  show "complete_at m V enc s"
    unfolding complete_at_def
  proof (intro allI impI)
    fix x r
    assume x: "V x" "st_in s = enc x @ r" "fits (length (enc x)) s"
    have "length (enc x) < 2 ^ 64" using live_length [OF ready_live(1) [OF s]] x(2) by simp
    from cmp [OF x(1) this] obtain k sz b c where o: "opens (enc x) k sz b c"
      and c: "\<And>s1. opened k sz b c s1 \<Longrightarrow> \<exists>s'. f k sz s1 = (Inr x, s')" by blast
    from o x have "st_in s = header k sz b @ c @ r" "fits (length (header k sz b) + unat sz) s"
      "unat sz \<le> length (c @ r)" "k = KByte \<longrightarrow> sz = 0 \<and> b < 128" by (auto simp: opens_def)
    from Kind_complete [OF s this(1,4,3,2)] obtain s1 where s1: "st_Kind s = (Inr (k, sz), s1)"
      "announced s k sz s1" "st_in s1 = c @ r" "fits (unat sz) s1" "k = KByte \<longrightarrow> st_byteval s1 = b" by auto
    with o have "opened k sz b c s1" by (auto simp: opened_def announced_def took_def opens_def)
    from c [OF this] s1(1) m show "\<exists>s'. m s = (Inr x, s')" by auto
  qed
  have "m s1 = m s" if "st_Kind s = (Inr (k, sz), s1)" for k sz s1
    using that Kind_again [OF Kind_sound [OF s that]] m by simp
  moreover have "e \<noteq> NotDone \<and> (e = EOL \<longrightarrow> at_end s \<and> s' = s)" if "m s = (Inl e, s')" for e s'
  proof (cases "st_Kind s")
    case (Pair y s1)
    show ?thesis
    proof (cases y)
      case (Inl d)
      with Pair that m have "st_Kind s = (Inl e, s')" by simp
      from Kind_error [OF s this] show ?thesis by simp
    next
      case (Inr p)
      obtain k sz where p: "p = (k, sz)" by (cases p)
      with Pair Inr that m have "f k sz s1 = (Inl e, s')" by simp
      from err [OF s Kind_sound [OF s] this] Pair Inr p show ?thesis by simp
    qed
  qed
  moreover have "m s = (Inl EOL, s)" if "at_end s"
    using Kind_end [OF s that] by (simp add: m)
  moreover have "\<exists>k sz s1. st_Kind s = (Inr (k, sz), s1)" if "m s = (Inr x, s')" for x s'
    using that by (auto simp: m and_read_def split: prod.splits sum.splits)
  ultimately show "ends_at m s" unfolding ends_at_def by blast
qed (use ne in blast)

section \<open>Single values\<close>

lemma announced_live: "announced s k sz s1 \<Longrightarrow> live s1"
  by (simp add: announced_def took_def)

lemma readFull_calm: "live s1 \<Longrightarrow> readFull sz s1 = (Inl e, s') \<Longrightarrow> e \<in> calm_errors"
  using readFull_eq [of s1 "unat sz", unfolded of_nat_unat] unat_lt_64 [of sz]
  by (auto simp: refuses_def split: if_splits)

lemma readFull_announced:
  assumes "announced s k sz s1" "readFull sz s1 = (Inr c, s')"
  shows "length c = unat sz \<and> consumed s (header k sz (st_byteval s1) @ c) s'"
proof -
  note l = announced_live [OF assms(1)]
  from assms(2) readFull_eq [OF l, of "unat sz", unfolded of_nat_unat] unat_lt_64 [of sz]
  have "unat sz \<le> length (st_in s1)" "c = take (unat sz) (st_in s1)" "s' = after (unat sz) s1"
    by (auto simp: refuses_def split: if_splits)
  with took_after [OF l, of "unat sz"] have "length c = unat sz" "consumed s1 c s'" by simp_all
  with consumed_trans [of s _ s1 c s'] assms(1) show ?thesis unfolding announced_def by blast
qed

lemma readFull_opened:
  assumes "opened k sz b c s1" "length c = unat sz"
  shows "\<exists>s'. readFull sz s1 = (Inr c, s')"
  using readFull_eq [of s1 "unat sz", unfolded of_nat_unat] unat_lt_64 [of sz] assms
  by (auto simp: opened_def)

lemma rearm_announced: "announced s k sz s1 \<Longrightarrow> consumed s (header k sz (st_byteval s1)) (rearm s1)"
  by (auto simp: announced_def consumed_def rearm_def intro: took_cong)

lemma byte_announced: "announced s KByte sz s1 \<Longrightarrow> consumed s [st_byteval s1] (rearm s1) \<and> st_byteval s1 < 128"
  using rearm_announced [of s KByte sz s1] by (auto simp: announced_def)

lemma header_frame:
  "unat sz = length c \<Longrightarrow> header KString sz b @ c = frame_of KString c"
  "unat sz = length c \<Longrightarrow> header KList sz b @ c = frame_of KList c"
  by (metis header.simps(2) frame_of.simps(2) of_nat_unat ucast_id)
    (metis header.simps(3) frame_of.simps(3) of_nat_unat ucast_id)

lemma opens_frame:
  assumes "length c < 2 ^ 64"
  shows "opens (frame_of KString c) KString (of_nat (length c)) b c" "opens (frame_of KList c) KList (of_nat (length c)) b c"
  using assms by (simp_all add: opens_def unat_of_nat_u64)

lemma str_enc_cases:
  assumes "length (str_enc c) < 2 ^ 64"
  obtains x where "c = [x]" "x < 128" "str_enc c = [x]" "opens (str_enc c) KByte 0 x []"
  | "\<not> (length c = 1 \<and> c ! 0 < 128)" "opens (str_enc c) KString (of_nat (length c)) 0 c"
    "unat (of_nat (length c) :: u64) = length c"
proof (cases "length c = 1 \<and> c ! 0 < 128")
  case True
  then obtain x where "c = [x]" "x < 128" by (cases c) auto
  then show ?thesis by (intro that(1) [of x]) (simp_all add: str_enc_def opens_def)
next
  case False
  have "length c < 2 ^ 64" using assms length_str_enc [of c] by simp
  moreover have "str_enc c = frame_of KString c" unfolding str_enc_def using False by (simp only: if_False)
  ultimately show ?thesis
    using opens_frame(1) [of c 0] False by (intro that(2)) (simp_all add: unat_of_nat_u64)
qed

lemma str_enc_nonempty: "str_enc c \<noteq> []"
  by (auto simp: str_enc_def puthead_def Let_def)

lemma str_enc_string: "\<not> (length c = 1 \<and> c ! 0 < 128) \<Longrightarrow> unat sz = length c \<Longrightarrow> header KString sz b @ c = str_enc c"
  by (subst header_frame(1)) (auto simp: str_enc_def)

lemma str_enc_byte: "x < 128 \<Longrightarrow> str_enc [x] = [x]"
  by (simp add: str_enc_def)

lemma one_byte: "sz = 1 \<longleftrightarrow> length c = 1" if "length c = unat (sz :: u64)" for c :: bytes
  using that by (auto simp: word_unat_eq_iff)

lemma string_content_sound:
  assumes a: "announced s KString sz s1" and r: "string_content sz s1 = (Inr c, s')"
  shows "consumed s (str_enc c) s'"
proof -
  from r have f: "readFull sz s1 = (Inr c, s')" and n: "\<not> (sz = 1 \<and> c ! 0 < 128)"
    by (auto simp: string_content_def and_read_def gives_def fails_def split: prod.splits sum.splits if_splits)
  from readFull_announced [OF a f] have l: "length c = unat sz" "consumed s (header KString sz (st_byteval s1) @ c) s'"
    by simp_all
  from n one_byte [OF l(1)] have "\<not> (length c = 1 \<and> c ! 0 < 128)" by blast
  from str_enc_string [OF this l(1) [symmetric]] l(2) show ?thesis by simp
qed

lemma string_content_calm: "live s1 \<Longrightarrow> string_content sz s1 = (Inl e, s') \<Longrightarrow> e \<in> calm_errors"
  using readFull_calm [of s1 sz]
  by (auto simp: string_content_def and_read_def gives_def fails_def split: prod.splits sum.splits if_splits)

lemma string_content_opened:
  assumes o: "opened k sz b c s1" and l: "length c = unat sz" and n: "\<not> (length c = 1 \<and> c ! 0 < 128)"
  shows "\<exists>s'. string_content sz s1 = (Inr c, s')"
proof -
  from readFull_opened [OF o l] obtain s' where "readFull sz s1 = (Inr c, s')" by blast
  moreover have "\<not> (sz = 1 \<and> c ! 0 < 128)" using n one_byte [OF l] by blast
  ultimately show ?thesis by (auto simp: string_content_def gives_def)
qed

lemma exact_Bytes: "exact st_Bytes (\<lambda>_. True) str_enc"
proof (rule exact_kind [where f = "\<lambda>k sz. case k of KByte \<Rightarrow> and_read byte_content (\<lambda>b. gives [b])
       | KString \<Rightarrow> string_content sz | KList \<Rightarrow> fails SExpectedString"])
  show "st_Bytes = and_read st_Kind (\<lambda>(k, sz). case k of KByte \<Rightarrow> and_read byte_content (\<lambda>b. gives [b])
       | KString \<Rightarrow> string_content sz | KList \<Rightarrow> fails SExpectedString)"
    by (simp add: st_Bytes_def)
next
  fix s k sz s1 x s'
  assume "ready s" and a: "announced s k sz s1"
    and r: "(case k of KByte \<Rightarrow> and_read byte_content (\<lambda>b. gives [b])
       | KString \<Rightarrow> string_content sz | KList \<Rightarrow> fails SExpectedString) s1 = (Inr x, s')"
  show "True \<and> consumed s (str_enc x) s'"
  proof (cases k)
    case KByte
    with r have "x = [st_byteval s1]" "s' = rearm s1" by (simp_all add: byte_content_def gives_def and_read_def)
    with byte_announced a KByte show ?thesis by (simp add: str_enc_byte)
  qed (use r a string_content_sound in \<open>auto simp: fails_def\<close>)
next
  fix s k sz s1 e s'
  assume "ready s" and a: "announced s k sz s1"
    and r: "(case k of KByte \<Rightarrow> and_read byte_content (\<lambda>b. gives [b])
       | KString \<Rightarrow> string_content sz | KList \<Rightarrow> fails SExpectedString) s1 = (Inl e, s')"
  show "e \<in> calm_errors"
    using r string_content_calm [OF announced_live [OF a]]
    by (cases k) (auto simp: fails_def byte_content_def gives_def and_read_def)
next
  fix x :: bytes
  assume l: "length (str_enc x) < 2 ^ 64"
  show "\<exists>k sz b c. opens (str_enc x) k sz b c \<and> (\<forall>s1. opened k sz b c s1 \<longrightarrow>
      (\<exists>s'. (case k of KByte \<Rightarrow> and_read byte_content (\<lambda>b. gives [b])
       | KString \<Rightarrow> string_content sz | KList \<Rightarrow> fails SExpectedString) s1 = (Inr x, s')))"
  proof (cases rule: str_enc_cases [OF l])
    case (1 y)
    then show ?thesis
      by (intro exI [of _ KByte] exI [of _ 0] exI [of _ y] exI [of _ "[]"])
        (auto simp: byte_content_def gives_def and_read_def opened_def)
  next
    case 2
    then show ?thesis
      by (intro exI [of _ KString] exI [of _ "of_nat (length x)"] exI [of _ 0] exI [of _ x])
        (auto intro: string_content_opened)
  qed
qed (rule str_enc_nonempty)

lemma wrap_simps [simp]:
  "wrapStreamError e = EOL \<longleftrightarrow> e = EOL" "wrapStreamError e = NotDone \<longleftrightarrow> e = NotDone" "wrapStreamError EOL = EOL"
  by (cases e; simp add: wrapStreamError_def)+

lemma wrapped_iff [simp]:
  "wrapped m s = (Inr x, s') \<longleftrightarrow> m s = (Inr x, s')"
  "wrapped m s = (Inl e, s') \<longleftrightarrow> (\<exists>d. m s = (Inl d, s') \<and> e = wrapStreamError d)"
  by (auto simp: wrapped_def split: sum.splits prod.splits)

lemma and_read_iff:
  "and_read m f s = (Inr y, s') \<longleftrightarrow> (\<exists>x s1. m s = (Inr x, s1) \<and> f x s1 = (Inr y, s'))"
  "and_read m f s = (Inl e, s') \<longleftrightarrow> m s = (Inl e, s') \<or> (\<exists>x s1. m s = (Inr x, s1) \<and> f x s1 = (Inl e, s'))"
  by (auto simp: and_read_def split: sum.splits prod.splits)

lemma gives_iff [simp]: "gives x s = (Inr y, s') \<longleftrightarrow> y = x \<and> s' = s" "gives x s = (Inl e, s') \<longleftrightarrow> False"
  "fails e s = (Inl d, s') \<longleftrightarrow> d = e \<and> s' = s" "fails e s = (Inr y, s') \<longleftrightarrow> False"
  by (auto simp: gives_def fails_def)

lemma exact_nonempty: "exact m V enc \<Longrightarrow> V x \<Longrightarrow> enc x \<noteq> []"
  by (simp add: exact_def)

lemma exact_wrapped:
  assumes m: "exact m V enc"
  shows "exact (wrapped m) V enc"
  unfolding exact_def
proof (intro conjI allI impI)
  fix s :: stream
  assume s: "ready s"
  note d = exactD [OF m s]
  show "sound_at (wrapped m) V enc s" using d(1,2) by (simp add: sound_at_def)
  show "complete_at (wrapped m) V enc s" using d(3) by (simp add: complete_at_def)
  have "wrapped m s1 = wrapped m s" if "st_Kind s = (Inr (k, sz), s1)" for k sz s1
    using d(8) [OF that] by (simp add: wrapped_def)
  moreover have "wrapped m s = (Inl EOL, s)" if "at_end s" using d(4) [OF that] by simp
  moreover have "e \<noteq> NotDone \<and> (e = EOL \<longrightarrow> at_end s \<and> s' = s)" if "wrapped m s = (Inl e, s')" for e s'
  proof -
    from that obtain c where "m s = (Inl c, s')" "e = wrapStreamError c" by auto
    with d(5-7) show ?thesis by auto
  qed
  moreover have "\<exists>k sz s1. st_Kind s = (Inr (k, sz), s1)" if "wrapped m s = (Inr x, s')" for x s'
    using that d(10) by simp
  ultimately show "ends_at (wrapped m) s" unfolding ends_at_def by blast
qed (rule exact_nonempty [OF m])

lemma exact_then:
  assumes m: "exact m V enc"
    and g: "\<And>x y. V x \<Longrightarrow> g x = Inr y \<Longrightarrow> W y \<and> enc' y = enc x"
    and h: "\<And>y. W y \<Longrightarrow> \<exists>x. V x \<and> g x = Inr y"
    and e: "\<And>x e. g x = Inl e \<Longrightarrow> e \<in> calm_errors"
  shows "exact (and_read m (\<lambda>x. case g x of Inl e \<Rightarrow> fails e | Inr y \<Rightarrow> gives y)) W enc'" (is "exact ?m W enc'")
  unfolding exact_def
proof (intro conjI allI impI)
  fix s :: stream
  assume s: "ready s"
  note d = exactD [OF m s]
  show "sound_at ?m W enc' s"
    unfolding sound_at_def
  proof (intro allI impI)
    fix y s'
    assume "?m s = (Inr y, s')"
    then obtain x s1 where x: "m s = (Inr x, s1)" "(case g x of Inl e \<Rightarrow> fails e | Inr y \<Rightarrow> gives y) s1 = (Inr y, s')"
      by (auto simp: and_read_iff)
    then have "m s = (Inr x, s')" "g x = Inr y" by (cases "g x"; simp)+
    with d(1,2) g show "W y \<and> consumed s (enc' y) s'" by fastforce
  qed
  show "complete_at ?m W enc' s"
    unfolding complete_at_def
  proof (intro allI impI)
    fix y r
    assume w: "W y" "st_in s = enc' y @ r" "fits (length (enc' y)) s"
    from h [OF w(1)] obtain x where x: "V x" "g x = Inr y" by blast
    with d(3) [of x r] g [OF x] w obtain s' where "m s = (Inr x, s')" by auto
    with x show "\<exists>s'. ?m s = (Inr y, s')" by simp
  qed
  have "?m s1 = ?m s" if "st_Kind s = (Inr (k, sz), s1)" for k sz s1
    using d(8) [OF that] by (simp add: and_read_def)
  moreover have "?m s = (Inl EOL, s)" if "at_end s" using d(4) [OF that] by simp
  moreover have "c \<noteq> NotDone \<and> (c = EOL \<longrightarrow> at_end s \<and> s' = s)" if "?m s = (Inl c, s')" for c s'
  proof -
    show ?thesis
    proof (cases "m s = (Inl c, s')")
      case True
      with d(5-7) show ?thesis by auto
    next
      case False
      with that obtain x s1 where "(case g x of Inl e \<Rightarrow> fails e | Inr y \<Rightarrow> gives y) s1 = (Inl c, s')"
        by (auto simp: and_read_iff)
      then have "g x = Inl c" by (cases "g x") simp_all
      from e [OF this] show ?thesis by simp
    qed
  qed
  moreover have "\<exists>k sz s1. st_Kind s = (Inr (k, sz), s1)" if "?m s = (Inr x, s')" for x s'
    using that d(10) by (auto simp: and_read_iff)
  ultimately show "ends_at ?m s" unfolding ends_at_def by blast
next
  fix y
  assume "W y"
  with h g exact_nonempty [OF m] show "enc' y \<noteq> []" by metis
qed

lemma exact_map:
  assumes m: "exact m V enc" and c: "\<And>x. V x \<Longrightarrow> rlp_enc (C x) = enc x"
  shows "exact (and_read (wrapped m) (\<lambda>x. gives (C x))) (\<lambda>v. \<exists>x. v = C x \<and> V x) rlp_enc"
  using exact_then [OF exact_wrapped [OF m], where g = "\<lambda>x. Inr (C x)" and W = "\<lambda>v. \<exists>x. v = C x \<and> V x" and enc' = rlp_enc] c
  by auto

lemma exact_ByteSlice: "exact decodeByteSlice (\<lambda>v. \<exists>b. v = RBytes b \<and> True) rlp_enc"
  unfolding decodeByteSlice_def by (rule exact_map [OF exact_Bytes]) simp

text \<open>Integers of a fixed width.\<close>

definition uint_content :: "nat \<Rightarrow> kind \<Rightarrow> u64 \<Rightarrow> u64 reading" where
  "uint_content maxbits k sz =
     (case k of
         KByte \<Rightarrow> (\<lambda>s. if st_byteval s = 0 then (Inl SCanonInt, s) else and_read byte_content (\<lambda>b. gives (ucast b)) s)
       | KString \<Rightarrow>
           if sz > of_nat (maxbits div 8) then fails SUintOverflow
           else and_read (as_canon_int (readUint sz)) (\<lambda>v.
             if sz > 0 \<and> v < 128 then fails SCanonSize else gives v)
       | KList \<Rightarrow> fails SExpectedString)"

lemma as_canon_iff:
  "as_canon_int m s = (Inr x, s') \<longleftrightarrow> m s = (Inr x, s')"
  "as_canon_int m s = (Inl e, s') \<longleftrightarrow> (\<exists>d. m s = (Inl d, s') \<and> e = (if d = SCanonSize then SCanonInt else d))"
  by (auto simp: as_canon_int_def split: sum.splits prod.splits)

lemma size_bound:
  fixes sz :: u64
  assumes "bits \<le> 64"
  shows "\<not> sz > of_nat (bits div 8) \<longleftrightarrow> unat sz \<le> bits div 8" "unat sz \<le> bits div 8 \<Longrightarrow> unat sz \<le> 8"
proof -
  have "unat (of_nat (bits div 8) :: u64) = bits div 8" using assms by (intro unat_of_nat_u64) linarith
  then show "\<not> sz > of_nat (bits div 8) \<longleftrightarrow> unat sz \<le> bits div 8" by (simp add: not_less word_le_nat_alt)
qed (use assms in linarith)

lemma small_content:
  assumes "length c = 1 \<or> 2 \<le> length c \<and> length c \<le> 8 \<and> hd c \<noteq> 0" "\<not> (be_word c :: u64) < 128"
  shows "c = be_min (unat (be_word c :: u64)) \<and> \<not> (length c = 1 \<and> c ! 0 < 128)"
proof (cases "length c = 1")
  case True
  then obtain x where c: "c = [x]" by (cases c) auto
  then have "128 \<le> unat x" using assms(2) by (simp add: be_word_def word_less_nat_alt unat_ucast_byte)
  then have "x \<noteq> 0" "\<not> x < 128" by (auto simp: word_less_nat_alt)
  with c show ?thesis by (subst be_min_content) (simp add: be_word_def)
next
  case False
  with assms(1) have "2 \<le> length c" "length c \<le> 8" "hd c \<noteq> 0" by auto
  moreover from this have "putint (be_word c) = c" by (intro putint_be_word) auto
  ultimately show ?thesis by (subst be_min_content) simp
qed

lemma uint_content_sound:
  assumes b: "bits \<le> 64" and a: "announced s k sz s1" and r: "uint_content bits k sz s1 = (Inr v, s')"
  shows "length (be_min (unat v)) \<le> bits div 8 \<or> k = KByte" "consumed s (str_enc (be_min (unat v))) s'"
proof -
  have "(length (be_min (unat v)) \<le> bits div 8 \<or> k = KByte) \<and> consumed s (str_enc (be_min (unat v))) s'"
  proof (cases k)
    case KByte
    with r have *: "st_byteval s1 \<noteq> 0" "v = ucast (st_byteval s1)" "s' = rearm s1"
      by (auto simp: uint_content_def byte_content_def and_read_iff split: if_splits)
    then have "be_min (unat v) = [st_byteval s1]" by (subst eq_commute, subst be_min_content) simp
    with byte_announced [of s sz s1] a KByte * show ?thesis by (simp add: str_enc_byte)
  next
    case KString
    with r have n: "unat sz \<le> bits div 8" and ru: "readUint sz s1 = (Inr v, s')" and v: "\<not> (sz > 0 \<and> v < 128)"
      using size_bound(1) [OF b, of sz]
      by (auto simp: uint_content_def and_read_iff as_canon_iff split: if_splits)
    show ?thesis
    proof (cases "sz = 0")
      case True
      with ru have "v = 0" "s' = rearm s1" by (simp_all add: readUint_def rearmed_def)
      moreover have "be_min 0 = []" by (simp add: be_min_def nat_be_def)
      ultimately show ?thesis
        using rearm_announced [OF a] str_enc_string [of "[]" sz "st_byteval s1"] KString True by simp
    next
      case False
      let ?c = "take (unat sz) (st_in s1)"
      have z: "0 < unat sz" "unat sz \<le> 8" using False size_bound(2) [OF b n] by (auto simp: unat_gt_0)
      note l = announced_live [OF a]
      from ru readUint_eq [OF l z, unfolded of_nat_unat] have *: "v = be_word ?c" "s' = after (unat sz) s1"
        "unat sz \<le> length (st_in s1)" "unat sz = 1 \<or> hd (st_in s1) \<noteq> 0"
        by (auto simp: refuses_def split: if_splits)
      have lc: "length ?c = unat sz" "hd ?c = hd (st_in s1)" using *(3) z by (auto simp: hd_take)
      with *(4) z have c: "length ?c = 1 \<or> 2 \<le> length ?c \<and> length ?c \<le> 8 \<and> hd ?c \<noteq> 0" by auto
      have "\<not> (be_word ?c :: u64) < 128" using v False *(1) by (auto simp: word_neq_0_conv)
      note m = small_content [OF c this]
      have "consumed s (header KString sz (st_byteval s1) @ ?c) s'"
        using consumed_trans [of s _ s1 ?c s'] took_after [OF l *(3)] *(2) a KString by (simp add: announced_def)
      with str_enc_string [of ?c sz "st_byteval s1"] m lc(1) *(1) n show ?thesis by auto
    qed
  qed (use r in \<open>simp add: uint_content_def\<close>)
  then show "length (be_min (unat v)) \<le> bits div 8 \<or> k = KByte" "consumed s (str_enc (be_min (unat v))) s'"
    by simp_all
qed

lemma be_word_single: "be_word [x] = ucast x"
  by (simp add: be_word_def)

lemma uint_content_opened:
  assumes b: "bits \<le> 64" and o: "opened KString sz b c s1" and l: "length c = unat sz"
    and c: "c = be_min (unat i)" "length c \<le> bits div 8" "\<not> (length c = 1 \<and> c ! 0 < 128)"
  shows "\<exists>s'. uint_content bits KString sz s1 = (Inr i, s')"
proof -
  have n: "\<not> sz > of_nat (bits div 8)" "length c \<le> 8"
    using size_bound [OF b, of sz] c(2) l by simp_all
  show ?thesis
  proof (cases "c = []")
    case True
    then have "sz = 0" using l by (simp add: unat_eq_0)
    moreover have "i = 0" using True c(1) be_min_content [of c i] by simp
    ultimately show ?thesis using n(1) by (simp add: uint_content_def and_read_iff as_canon_iff readUint_def rearmed_def)
  next
    case False
    have z: "0 < unat sz" "unat sz \<le> 8" using l n(2) False by (metis length_greater_0_conv, simp)
    have live: "live s1" and i: "\<exists>r. st_in s1 = c @ r" and f: "fits (unat sz) s1"
      using o l by (auto simp: opened_def)
    from c(1) False have cs: "length c = 1 \<and> c ! 0 \<noteq> 0 \<and> i = ucast (c ! 0) \<or> 2 \<le> length c \<and> c = putint i"
      using be_min_content [of c i] by auto
    have h: "unat sz = 1 \<or> hd (st_in s1) \<noteq> 0"
    proof (cases "length c = 1")
      case False
      with cs have "c = putint i" "i \<noteq> 0" by (auto simp: putint_def)
      with hd_putint [of i] i \<open>c \<noteq> []\<close> show ?thesis by auto
    qed (use l in simp)
    have v: "be_word c = i \<and> \<not> i < 128"
    proof (cases "length c = 1")
      case True
      then obtain x where x: "c = [x]" by (cases c) auto
      with c(3) have "\<not> x < 128" by simp
      then have "\<not> (ucast x :: u64) < 128" by (simp add: word_less_nat_alt unat_ucast_byte)
      with x cs show ?thesis by (simp add: be_word_single)
    next
      case False
      with cs have *: "c = putint i" "2 \<le> length (putint i)" by auto
      then have "\<not> i < 256" by (auto simp: putint_def split: if_splits)
      then have "\<not> i < 128" by (auto simp: word_less_nat_alt)
      with * show ?thesis by simp
    qed
    have "readUint sz s1 = (Inr (be_word c), after (unat sz) s1)"
      using readUint_eq [OF live z, unfolded of_nat_unat] i f h l by auto
    with v n(1) show ?thesis by (auto simp: uint_content_def and_read_iff as_canon_iff)
  qed
qed

lemma uint_content_calm:
  assumes b: "bits \<le> 64" and l: "live s1" and r: "uint_content bits k sz s1 = (Inl e, s')"
  shows "e \<in> calm_errors"
proof -
  have "d \<in> calm_errors" if "readUint sz s1 = (Inl d, s')" "unat sz \<le> bits div 8" for d
  proof (cases "sz = 0")
    case False
    with size_bound(2) [OF b that(2)] have "0 < unat sz" "unat sz \<le> 8" by (simp_all add: unat_gt_0)
    from readUint_calm [OF l this, unfolded of_nat_unat] that(1) show ?thesis by simp
  qed (use that(1) in \<open>simp add: readUint_def rearmed_def\<close>)
  with r size_bound(1) [OF b, of sz] show ?thesis
    by (cases k) (auto simp: uint_content_def and_read_iff as_canon_iff byte_content_def split: if_splits)
qed

lemma exact_uint:
  assumes b: "8 \<le> bits" "bits \<le> 64"
  shows "exact (st_uint bits) (\<lambda>i. length (be_min (unat i)) \<le> bits div 8) (\<lambda>i. str_enc (be_min (unat i)))"
proof (rule exact_kind [where f = "uint_content bits"])
  show "st_uint bits = and_read st_Kind (\<lambda>(k, sz). uint_content bits k sz)"
    by (simp add: st_uint_def uint_content_def)
next
  fix s k sz s1 v s'
  assume "ready s" and a: "announced s k sz s1" and r: "uint_content bits k sz s1 = (Inr v, s')"
  have "length (be_min (unat v)) \<le> bits div 8" if "k = KByte"
  proof -
    from r that have "st_byteval s1 \<noteq> 0" "v = ucast (st_byteval s1)"
      by (auto simp: uint_content_def byte_content_def and_read_iff split: if_splits)
    then have "be_min (unat v) = [st_byteval s1]" by (subst eq_commute, subst be_min_content) simp
    then show ?thesis using b by simp
  qed
  with uint_content_sound [OF b(2) a r]
  show "length (be_min (unat v)) \<le> bits div 8 \<and> consumed s (str_enc (be_min (unat v))) s'" by blast
next
  fix s k sz s1 e s'
  assume "announced s k sz s1" "uint_content bits k sz s1 = (Inl e, s')"
  then show "e \<in> calm_errors" using uint_content_calm [OF b(2) announced_live] by blast
next
  fix i :: u64
  assume n: "length (be_min (unat i)) \<le> bits div 8" and l: "length (str_enc (be_min (unat i))) < 2 ^ 64"
  show "\<exists>k sz b c. opens (str_enc (be_min (unat i))) k sz b c \<and> (\<forall>s1. opened k sz b c s1 \<longrightarrow>
      (\<exists>s'. uint_content bits k sz s1 = (Inr i, s')))"
  proof (cases rule: str_enc_cases [OF l])
    case (1 y)
    then have "y \<noteq> 0" "i = ucast y" using be_min_content [of "[y]" i] by auto
    with 1(4) show ?thesis
      by (intro exI [of _ KByte] exI [of _ 0] exI [of _ y] exI [of _ "[]"])
        (auto simp: uint_content_def and_read_iff byte_content_def opened_def)
  next
    case 2
    with uint_content_opened [OF b(2) _ _ refl n 2(1)] show ?thesis
      by (intro exI [of _ KString] exI [of _ "of_nat (length (be_min (unat i)))"] exI [of _ 0]
          exI [of _ "be_min (unat i)"]) auto
  qed
qed (rule str_enc_nonempty)

lemma exact_Uint:
  assumes "8 \<le> bits" "bits \<le> 64"
  shows "exact (decodeUint bits) (\<lambda>v. \<exists>i. v = RUint i \<and> length (be_min (unat i)) \<le> bits div 8) rlp_enc"
  unfolding decodeUint_def by (rule exact_map [OF exact_uint [OF assms]]) simp

lemma exact_Bool: "exact decodeBool (\<lambda>v. \<exists>b. v = RBool b \<and> True) rlp_enc"
proof -
  let ?g = "\<lambda>num :: u64. if num = 0 then Inr False else if num = 1 then Inr True else Inl (SInvalidBool num)"
  have "be_min 0 = []" "be_min 1 = [1]" by (simp_all add: be_min_def nat_be_def BitLen.simps)
  note b = this
  have "exact (and_read (st_uint 8) (\<lambda>x. case ?g x of Inl e \<Rightarrow> fails e | Inr y \<Rightarrow> gives y)) (\<lambda>_. True)
      (\<lambda>b. str_enc (if b then [1] else []))"
  proof (rule exact_then [OF exact_uint])
    fix y :: bool
    show "\<exists>x :: u64. length (be_min (unat x)) \<le> 8 div 8 \<and> ?g x = Inr y"
      using b by (cases y) (auto intro: exI [of _ 1] exI [of _ 0])
  qed (use b in \<open>auto split: if_splits\<close>)
  moreover have "(\<lambda>x. case ?g x of Inl e \<Rightarrow> fails e | Inr y \<Rightarrow> gives y) =
      (\<lambda>num. if num = 0 then gives False else if num = 1 then gives True else fails (SInvalidBool num))"
    by auto
  ultimately have "exact st_Bool (\<lambda>_. True) (\<lambda>b. str_enc (if b then [1] else []))" by (simp add: st_Bool_def)
  from exact_map [OF this] show ?thesis unfolding decodeBool_def by simp
qed

text \<open>Byte arrays.\<close>

definition array_content :: "nat \<Rightarrow> kind \<Rightarrow> u64 \<Rightarrow> rlp_val reading" where
  "array_content len k sz =
     (case k of
         KByte \<Rightarrow>
           if len = 0 then fails (DecodeError MTooLong)
           else if len > 1 then fails (DecodeError MTooShort)
           else and_read byte_content (\<lambda>b. gives (RArray [b]))
       | KString \<Rightarrow>
           if of_nat len < sz then fails (DecodeError MTooLong)
           else if of_nat len > sz then fails (DecodeError MTooShort)
           else and_read (readFull (of_nat len)) (\<lambda>b.
             if sz = 1 \<and> b ! 0 < 128 then fails (wrapStreamError SCanonSize) else gives (RArray b))
       | KList \<Rightarrow> fails (wrapStreamError SExpectedString))"

lemma array_string:
  assumes "n < 2 ^ 64"
  shows "array_content n KString sz s1 = (Inr v, s') \<longleftrightarrow>
    (unat sz = n \<and> (\<exists>b. v = RArray b \<and> string_content sz s1 = (Inr b, s')))"
proof -
  have "of_nat n = sz \<longleftrightarrow> unat sz = n" using assms by (auto simp: unat_of_nat_u64)
  then have *: "\<not> of_nat n < sz \<and> \<not> of_nat n > sz \<longleftrightarrow> unat sz = n" by (metis less_irrefl linorder_neqE)
  show ?thesis
  proof (cases "unat sz = n")
    case True
    then have "of_nat n = sz" by auto
    with * True show ?thesis
      by (auto simp: array_content_def string_content_def and_read_iff split: if_splits) (blast+)?
  qed (use * in \<open>auto simp: array_content_def\<close>)
qed

lemma array_calm:
  assumes "live s1" "array_content n k sz s1 = (Inl e, s')"
  shows "e \<in> calm_errors"
  using assms readFull_calm [OF assms(1)]
  by (cases k) (auto simp: array_content_def and_read_iff byte_content_def wrapStreamError_def split: if_splits)

lemma exact_ByteArray:
  assumes n: "n < 2 ^ 64"
  shows "exact (decodeByteArray n) (\<lambda>v. \<exists>b. v = RArray b \<and> length b = n) rlp_enc"
proof (rule exact_kind [where f = "array_content n"])
  show "decodeByteArray n = and_read st_Kind (\<lambda>(k, sz). array_content n k sz)"
    by (simp add: decodeByteArray_def array_content_def)
next
  fix s k sz s1 v s'
  assume "ready s" and a: "announced s k sz s1" and r: "array_content n k sz s1 = (Inr v, s')"
  show "(\<exists>b. v = RArray b \<and> length b = n) \<and> consumed s (rlp_enc v) s'"
  proof (cases k)
    case KByte
    with r have "n = 1" "v = RArray [st_byteval s1]" "s' = rearm s1"
      by (auto simp: array_content_def byte_content_def and_read_iff split: if_splits)
    with byte_announced [of s sz s1] a KByte show ?thesis by (simp add: str_enc_byte)
  next
    case KString
    with r obtain b where b: "unat sz = n" "v = RArray b" "string_content sz s1 = (Inr b, s')"
      by (auto simp: array_string [OF n])
    from b(3) have "readFull sz s1 = (Inr b, s')"
      by (auto simp: string_content_def and_read_iff split: if_splits)
    from readFull_announced [OF a this] string_content_sound [OF a [unfolded KString] b(3)] b show ?thesis by simp
  qed (use r in \<open>simp add: array_content_def\<close>)
next
  fix s k sz s1 e s'
  assume "announced s k sz s1" "array_content n k sz s1 = (Inl e, s')"
  then show "e \<in> calm_errors" using array_calm announced_live by blast
next
  fix v
  assume "\<exists>b. v = RArray b \<and> length b = n" and l: "length (rlp_enc v) < 2 ^ 64"
  then obtain b where v: "v = RArray b" "length b = n" by blast
  with l have l: "length (str_enc b) < 2 ^ 64" by simp
  show "\<exists>k sz x c. opens (rlp_enc v) k sz x c \<and> (\<forall>s1. opened k sz x c s1 \<longrightarrow>
      (\<exists>s'. array_content n k sz s1 = (Inr v, s')))"
  proof (cases rule: str_enc_cases [OF l])
    case (1 y)
    with v show ?thesis
      by (intro exI [of _ KByte] exI [of _ 0] exI [of _ y] exI [of _ "[]"])
        (auto simp: array_content_def and_read_iff byte_content_def opened_def)
  next
    case 2
    have "\<exists>s'. array_content n KString (of_nat (length b)) s1 = (Inr v, s')"
      if o: "opened KString (of_nat (length b)) 0 b s1" for s1
      using string_content_opened [OF o 2(3) [symmetric] 2(1)] v 2(3) by (auto simp: array_string [OF n])
    with 2(2) v show ?thesis
      by (intro exI [of _ KString] exI [of _ "of_nat (length b)"] exI [of _ 0] exI [of _ b]) auto
  qed
qed (auto simp: str_enc_nonempty)

text \<open>Big integers.\<close>

definition int_bytes :: "bool \<Rightarrow> kind \<Rightarrow> u64 \<Rightarrow> bytes reading" where
  "int_bytes big k sz =
     (case k of
         KList \<Rightarrow> fails SExpectedString
       | KByte \<Rightarrow> and_read byte_content (\<lambda>b. gives [b])
       | KString \<Rightarrow>
           if sz = 0 then rearmed []
           else if sz \<le> 32 then string_content sz
           else (if big then readFull else (\<lambda>_. fails SUint256Large)) sz)"

lemma rearmed_iff [simp]: "rearmed x s = (Inr y, s') \<longleftrightarrow> y = x \<and> s' = rearm s" "rearmed x s = (Inl e, s') \<longleftrightarrow> False"
  by (auto simp: rearmed_def)

lemma exact_int_bytes:
  "exact (and_read st_Kind (\<lambda>(k, sz). int_bytes big k sz)) (\<lambda>c. big \<or> length c \<le> 32) str_enc"
proof (rule exact_kind [where f = "int_bytes big"])
  fix s k sz s1 c s'
  assume "ready s" and a: "announced s k sz s1" and r: "int_bytes big k sz s1 = (Inr c, s')"
  show "(big \<or> length c \<le> 32) \<and> consumed s (str_enc c) s'"
  proof (cases k)
    case KByte
    with r have "c = [st_byteval s1]" "s' = rearm s1" by (auto simp: int_bytes_def byte_content_def and_read_iff)
    with byte_announced [of s sz s1] a KByte show ?thesis by (simp add: str_enc_byte)
  next
    case KString
    consider "sz = 0" | "sz \<noteq> 0" "sz \<le> 32" | "\<not> sz \<le> 32" by blast
    then show ?thesis
    proof cases
      case 1
      with r KString have "c = []" "s' = rearm s1" by (auto simp: int_bytes_def)
      with rearm_announced [OF a] str_enc_string [of "[]" sz "st_byteval s1"] KString 1 show ?thesis by simp
    next
      case 2
      with r KString have c: "string_content sz s1 = (Inr c, s')" by (simp add: int_bytes_def)
      then have "readFull sz s1 = (Inr c, s')" by (auto simp: string_content_def and_read_iff split: if_splits)
      from readFull_announced [OF a this] string_content_sound [OF a [unfolded KString] c] 2 show ?thesis
        by (simp add: word_le_nat_alt)
    next
      case 3
      then have "sz \<noteq> 0" by auto
      with r KString 3 have big and c: "readFull sz s1 = (Inr c, s')" by (auto simp: int_bytes_def split: if_splits)
      have l: "length c = unat sz" "consumed s (header KString sz (st_byteval s1) @ c) s'"
        using readFull_announced [OF a c] KString by simp_all
      have "\<not> (length c = 1 \<and> c ! 0 < 128)" using l(1) 3 by (simp add: word_le_nat_alt)
      from str_enc_string [OF this l(1) [symmetric]] l(2) \<open>big\<close> show ?thesis by simp
    qed
  qed (use r in \<open>simp add: int_bytes_def\<close>)
next
  fix s k sz s1 e s'
  assume a: "announced s k sz s1" and r: "int_bytes big k sz s1 = (Inl e, s')"
  note l = announced_live [OF a]
  show "e \<in> calm_errors"
  proof (cases k)
    case KString
    with r have "string_content sz s1 = (Inl e, s') \<or> readFull sz s1 = (Inl e, s') \<or> e = SUint256Large"
      by (auto simp: int_bytes_def split: if_splits)
    then show ?thesis using readFull_calm [OF l, of sz e s'] string_content_calm [OF l, of sz e s'] by auto
  qed (use r in \<open>auto simp: int_bytes_def and_read_iff byte_content_def\<close>)
next
  fix c :: bytes
  assume v: "big \<or> length c \<le> 32" and l: "length (str_enc c) < 2 ^ 64"
  show "\<exists>k sz x d. opens (str_enc c) k sz x d \<and> (\<forall>s1. opened k sz x d s1 \<longrightarrow>
      (\<exists>s'. int_bytes big k sz s1 = (Inr c, s')))"
  proof (cases rule: str_enc_cases [OF l])
    case (1 y)
    then show ?thesis
      by (intro exI [of _ KByte] exI [of _ 0] exI [of _ y] exI [of _ "[]"])
        (auto simp: int_bytes_def and_read_iff byte_content_def opened_def)
  next
    case 2
    define sz :: u64 where "sz = of_nat (length c)"
    have z: "length c = unat sz" and o: "opens (str_enc c) KString sz 0 c" using 2 by (simp_all add: sz_def)
    have "\<exists>s'. int_bytes big KString sz s1 = (Inr c, s')" if o: "opened KString sz 0 c s1" for s1
    proof -
      have "sz = 0 \<longleftrightarrow> c = []" using z by (metis length_0_conv unat_eq_zero)
      then consider "sz = 0" "c = []" | "sz \<noteq> 0" "sz \<le> 32" | "sz \<noteq> 0" "\<not> sz \<le> 32" big
        using v z by (auto simp: word_le_nat_alt)
      then show ?thesis
        using string_content_opened [OF o z 2(1)] readFull_opened [OF o z] by cases (simp_all add: int_bytes_def)
    qed
    with o show ?thesis by blast
  qed
qed (simp_all add: str_enc_nonempty)

lemma be_nat_snoc: "be_nat (c @ [b]) = be_nat c * 256 + unat b"
  by (simp add: be_nat_def)

lemma be_nat_less: "be_nat c < 256 ^ length c"
proof (induction c rule: rev_induct)
  case (snoc b c)
  have "be_nat c * 256 + unat b < (be_nat c + 1) * 256" by (simp add: algebra_simps)
  also have "\<dots> \<le> 256 ^ length c * 256" using snoc by simp
  finally show ?case by (simp add: be_nat_snoc)
qed (simp add: be_nat_def)

lemma be_nat_le: "c \<noteq> [] \<Longrightarrow> hd c \<noteq> 0 \<Longrightarrow> 256 ^ (length c - 1) \<le> be_nat c"
proof (induction c rule: rev_induct)
  case (snoc b c)
  show ?case
  proof (cases "c = []")
    case True
    with snoc.prems have "0 < unat b" by (simp add: unat_gt_0)
    with True show ?thesis by (simp add: be_nat_def)
  next
    case False
    with snoc have "256 ^ (length c - 1) \<le> be_nat c" by simp
    then have "256 ^ (length c - 1) * 256 \<le> be_nat c * 256" by simp
    moreover have "256 ^ (length c - 1) * 256 = (256 :: nat) ^ length c"
      using False by (cases "length c") simp_all
    ultimately show ?thesis by (simp add: be_nat_snoc)
  qed
qed simp

lemma nat_be_Suc: "nat_be (Suc n) m = nat_be n (m div 256) @ [of_nat m]"
  by (auto simp: nat_be_def div_mult2_eq [symmetric] Suc_diff_Suc simp flip: power_Suc intro!: arg_cong [where f = of_nat])

lemma be_nat_nat_be: "be_nat (nat_be n m) = m mod 256 ^ n"
proof (induction n arbitrary: m)
  case (Suc n)
  have "unat (of_nat m :: byte) = m mod 256" by (simp add: unsigned_of_nat take_bit_nat_def)
  with Suc show ?case by (simp add: nat_be_Suc be_nat_snoc mod_mult2_eq ac_simps)
qed (simp add: nat_be_def be_nat_def)

lemma nat_be_be_nat: "nat_be (length c) (be_nat c) = c"
proof (induction c rule: rev_induct)
  case (snoc b c)
  have "(of_nat (be_nat c * 256 + unat b) :: byte) = b"
  proof -
    have "(256 :: byte) = 0" by simp
    then have "(of_nat (be_nat c * 256 + unat b) :: byte) = of_nat (unat b)"
      unfolding of_nat_add of_nat_mult of_nat_numeral by (simp only: mult_zero_right add_0)
    then show ?thesis by simp
  qed
  with snoc show ?case using unat_byte_lt [of b] by (simp add: nat_be_Suc be_nat_snoc)
qed (simp add: nat_be_def)

lemma length_be_min: "length (be_min n) \<le> k \<longleftrightarrow> n < 256 ^ k"
proof -
  have p: "(256 :: nat) ^ k = 2 ^ (8 * k)" by (simp add: power_mult)
  have "(BitLen n + 7) div 8 \<le> k \<longleftrightarrow> BitLen n \<le> 8 * k" by linarith
  also have "\<dots> \<longleftrightarrow> n < 2 ^ (8 * k)"
  proof
    assume l: "BitLen n \<le> 8 * k"
    show "n < 2 ^ (8 * k)"
    proof (cases "n = 0")
      case False
      then have "n < 2 ^ BitLen n" using BitLen_bounds [of n] by simp
      also have "\<dots> \<le> 2 ^ (8 * k)" using l by (intro power_increasing) simp_all
      finally show ?thesis .
    qed simp
  qed (rule BitLen_le)
  finally show ?thesis using p by (simp add: be_min_def nat_be_def)
qed

lemma be_nat_be_min [simp]: "be_nat (be_min n) = n"
proof -
  have "n < 256 ^ length (be_min n)" by (simp flip: length_be_min)
  then show ?thesis unfolding be_min_def by (simp add: be_nat_nat_be) (simp add: nat_be_def)
qed

lemma be_min_be_nat:
  assumes "c = [] \<or> hd c \<noteq> 0"
  shows "be_min (be_nat c) = c"
proof (cases "c = []")
  case True
  then show ?thesis by (simp add: be_nat_def be_min_def nat_be_def)
next
  case False
  with assms have l: "256 ^ (length c - 1) \<le> be_nat c" by (intro be_nat_le) simp_all
  have "length (be_min (be_nat c)) \<le> length c" using be_nat_less by (simp add: length_be_min)
  moreover have "\<not> length (be_min (be_nat c)) \<le> length c - 1" using l by (simp add: length_be_min)
  ultimately have "length (be_min (be_nat c)) = length c" using False by (cases c) simp_all
  then have "(BitLen (be_nat c) + 7) div 8 = length c" by (simp add: be_min_def nat_be_def)
  then show ?thesis by (simp add: be_min_def nat_be_be_nat)
qed

lemma hd_be_min: "be_min n = [] \<or> hd (be_min n) \<noteq> 0"
proof (rule ccontr)
  assume "\<not> ?thesis"
  then obtain c where c: "be_min n = 0 # c" by (cases "be_min n") auto
  then have "be_nat c = n" using be_nat_be_min [of n] by (simp add: be_nat_def)
  then have "length (be_min n) \<le> length c" using be_nat_less [of c] by (simp add: length_be_min)
  with c show False by simp
qed

lemma exact_int:
  "exact (and_read (and_read st_Kind (\<lambda>(k, sz). int_bytes big k sz))
       (\<lambda>buffer. if buffer \<noteq> [] \<and> buffer ! 0 = 0 then fails SCanonInt else gives (be_nat buffer)))
     (\<lambda>n. big \<or> n < 2 ^ 256) (\<lambda>n. str_enc (be_min n))"
proof -
  let ?g = "\<lambda>c :: bytes. if c \<noteq> [] \<and> c ! 0 = 0 then Inl SCanonInt else Inr (be_nat c)"
  have p: "(256 :: nat) ^ 32 = 2 ^ 256" by simp
  have z: "?g c = Inr n \<longleftrightarrow> c = be_min n" for c n
  proof
    assume "?g c = Inr n"
    then have "c = [] \<or> hd c \<noteq> 0" "n = be_nat c" by (auto simp: hd_conv_nth split: if_splits)
    then show "c = be_min n" using be_min_be_nat [of c] by simp
  next
    assume c: "c = be_min n"
    with hd_be_min [of n] have "\<not> (c \<noteq> [] \<and> c ! 0 = 0)" by (auto simp: hd_conv_nth)
    with c show "?g c = Inr n" by simp
  qed
  have "exact (and_read (and_read st_Kind (\<lambda>(k, sz). int_bytes big k sz))
      (\<lambda>c. case ?g c of Inl e \<Rightarrow> fails e | Inr n \<Rightarrow> gives n)) (\<lambda>n. big \<or> n < 2 ^ 256) (\<lambda>n. str_enc (be_min n))"
  proof (rule exact_then [OF exact_int_bytes])
    fix c n
    assume "big \<or> length c \<le> 32" "?g c = Inr n"
    then show "(big \<or> n < 2 ^ 256) \<and> str_enc (be_min n) = str_enc c"
      unfolding z using length_be_min [of n 32] p by auto
  next
    fix n :: nat
    assume "big \<or> n < 2 ^ 256"
    then show "\<exists>c. (big \<or> length c \<le> 32) \<and> ?g c = Inr n"
      unfolding z using length_be_min [of n 32] p by (intro exI [of _ "be_min n"]) auto
  qed (auto split: if_splits)
  moreover have "(\<lambda>c. case ?g c of Inl e \<Rightarrow> fails e | Inr n \<Rightarrow> gives n) =
      (\<lambda>buffer. if buffer \<noteq> [] \<and> buffer ! 0 = 0 then fails SCanonInt else gives (be_nat buffer))"
    by auto
  ultimately show ?thesis by simp
qed

lemma exact_BigInt: "exact decodeBigInt (\<lambda>v. \<exists>n. v = RBigPtr (Some (int n)) \<and> True) rlp_enc"
proof -
  have "st_decodeBigInt = and_read (and_read st_Kind (\<lambda>(k, sz). int_bytes True k sz))
       (\<lambda>buffer. if buffer \<noteq> [] \<and> buffer ! 0 = 0 then fails SCanonInt else gives (be_nat buffer))"
    by (simp add: st_decodeBigInt_def int_content_def int_bytes_def)
  with exact_map [OF exact_int [of True], of "\<lambda>n. RBigPtr (Some (int n))"] show ?thesis
    unfolding decodeBigInt_def by simp
qed

lemma exact_U256: "exact decodeU256 (\<lambda>v. \<exists>n. v = RBigPtr (Some (int n)) \<and> n < 2 ^ 256) rlp_enc"
proof -
  have "ReadUint256 = and_read (and_read st_Kind (\<lambda>(k, sz). int_bytes False k sz))
       (\<lambda>buffer. if buffer \<noteq> [] \<and> buffer ! 0 = 0 then fails SCanonInt else gives (be_nat buffer))"
    by (simp add: ReadUint256_def int_content_def int_bytes_def)
  with exact_map [OF exact_int [of False], of "\<lambda>n. RBigPtr (Some (int n))"] show ?thesis
    unfolding decodeU256_def by simp
qed

section \<open>Lists\<close>

abbreviation encs :: "rlp_val list \<Rightarrow> bytes" where
  "encs vs \<equiv> concat (map rlp_enc vs)"

text \<open>A reader of the elements of an open list: all of them, when the list is as long as they are.\<close>

definition fills :: "rlp_val list reading \<Rightarrow> (rlp_val list \<Rightarrow> bool) \<Rightarrow> bool" where
  "fills m V \<longleftrightarrow> (\<forall>s. ready s \<longrightarrow>
     (\<forall>vs s'. m s = (Inr vs, s') \<longrightarrow> V vs \<and> consumed s (encs vs) s') \<and>
     (\<forall>vs r ls. V vs \<longrightarrow> st_in s = encs vs @ r \<longrightarrow> st_stack s = of_nat (length (encs vs)) # ls \<longrightarrow>
       (\<exists>s'. m s = (Inr vs, s'))) \<and>
     (\<forall>e s'. m s = (Inl e, s') \<longrightarrow> e \<in> calm_errors))"

lemma fillsD:
  assumes "fills m V" "ready s"
  shows "m s = (Inr vs, s') \<Longrightarrow> V vs" "m s = (Inr vs, s') \<Longrightarrow> consumed s (encs vs) s'"
    "V vs \<Longrightarrow> st_in s = encs vs @ r \<Longrightarrow> st_stack s = of_nat (length (encs vs)) # ls \<Longrightarrow> \<exists>s'. m s = (Inr vs, s')"
    "m s = (Inl e, s') \<Longrightarrow> e \<in> calm_errors"
  using assms unfolding fills_def by blast+

definition enter_list :: "u64 \<Rightarrow> stream \<Rightarrow> stream" where
  "enter_list sz s = s\<lparr>st_stack := sz # (case st_stack s of [] \<Rightarrow> [] | l # ls \<Rightarrow> (l - sz) # ls),
     st_kind := None, st_size := 0\<rparr>"

definition list_content :: "rlp_val list reading \<Rightarrow> unit reading \<Rightarrow> (rlp_val list \<Rightarrow> rlp_val) \<Rightarrow>
    kind \<Rightarrow> u64 \<Rightarrow> rlp_val reading" where
  "list_content m e C k sz s =
     (if k \<noteq> KList then (Inl SExpectedList, s)
      else and_read m (\<lambda>vs. and_read e (\<lambda>_. gives (C vs))) (enter_list sz s))"

lemma st_List_eq:
  "and_read st_List (\<lambda>_. and_read m (\<lambda>vs. and_read e (\<lambda>_. gives (C vs)))) =
     and_read st_Kind (\<lambda>(k, sz). list_content m e C k sz)"
  by (rule ext) (auto simp: st_List_def and_read_def list_content_def enter_list_def split: prod.splits sum.splits)

lemma ListEnd_iff [simp]:
  "st_ListEnd s = (Inr u, s') \<longleftrightarrow> (\<exists>ls. st_stack s = 0 # ls \<and> s' = s\<lparr>st_stack := ls, st_kind := None, st_size := 0\<rparr>)"
  by (auto simp: st_ListEnd_def word_gt_0 split: list.splits)

lemma ListEnd_calm: "st_ListEnd s = (Inl e, s') \<Longrightarrow> e \<in> calm_errors"
  by (auto simp: st_ListEnd_def split: list.splits if_splits)

lemma enter_ready: "live s \<Longrightarrow> ready (enter_list sz s)"
  by (simp add: ready_def live_def enter_list_def)

lemma enter_fields [simp]: "st_in (enter_list sz s) = st_in s"
  "st_stack (enter_list sz s) = sz # shrink (unat sz) (st_stack s)"
  by (simp_all add: enter_list_def shrink_def split: list.splits)

lemma frame_nonempty: "frame_of KList c \<noteq> []"
  by (simp add: puthead_def Let_def)

lemma exact_list:
  assumes m: "fills m V" and e: "e = st_ListEnd \<or> e = wrapped st_ListEnd"
    and C: "C = RSlice \<or> C = RStruct"
  shows "exact (and_read st_Kind (\<lambda>(k, sz). list_content m e C k sz)) (\<lambda>v. \<exists>vs. v = C vs \<and> V vs) rlp_enc"
proof (rule exact_kind [where f = "list_content m e C"])
  have e_ok: "e s = (Inr u, s') \<longleftrightarrow> st_ListEnd s = (Inr u, s')" for s u s'
    using e by auto
  have enc: "rlp_enc (C vs) = frame_of KList (encs vs)" for vs using C by auto
  {
    fix s k sz s1 v s'
    assume "ready s" and a: "announced s k sz s1" and r: "list_content m e C k sz s1 = (Inr v, s')"
    from r have k: "k = KList" by (auto simp: list_content_def split: if_splits)
    with r obtain vs s2 ls where ms: "m (enter_list sz s1) = (Inr vs, s2)" and v: "v = C vs"
      and st: "st_stack s2 = 0 # ls" and s': "s' = s2\<lparr>st_stack := ls, st_kind := None, st_size := 0\<rparr>"
      by (auto simp: list_content_def and_read_iff e_ok)
    note l = announced_live [OF a] and d = fillsD [OF m enter_ready [OF announced_live [OF a]] ]
    note c = d(2) [OF ms]
    let ?n = "length (encs vs)"
    have i: "st_in s1 = encs vs @ st_in s2" and sz: "sz = of_nat ?n" and ls: "ls = shrink (unat sz) (st_stack s1)"
      using c st by (simp_all add: consumed_def took_def)
    have "?n < 2 ^ 64" using live_length [OF l] i by simp
    with sz have u: "unat sz = ?n" by (simp add: unat_of_nat_u64)
    have "took s (header KList sz (st_byteval s1) @ encs vs) s'"
      using a c i u ls k by (simp add: announced_def consumed_def took_def s' live_def)
    with u have "consumed s (frame_of KList (encs vs)) s'"
      using header_frame(2) [of sz "encs vs"] by (simp add: consumed_def s' del: header.simps frame_of.simps)
    with d(1) [OF ms] v enc show "(\<exists>vs. v = C vs \<and> V vs) \<and> consumed s (rlp_enc v) s'" by auto
  }
  {
    fix s k sz s1 d s'
    assume a: "announced s k sz s1" and r: "list_content m e C k sz s1 = (Inl d, s')"
    show "d \<in> calm_errors"
    proof (cases "k = KList")
      case True
      with r consider "m (enter_list sz s1) = (Inl d, s')" | s2 where "e s2 = (Inl d, s')"
        by (auto simp: list_content_def and_read_iff)
      then show ?thesis
      proof cases
        case 1
        then show ?thesis using fillsD(4) [OF m enter_ready [OF announced_live [OF a]]] by blast
      next
        case 2
        then show ?thesis using e ListEnd_calm by (auto simp del: calm_simps) (auto simp: calm_errors_def)
      qed
    qed (use r in \<open>auto simp: list_content_def\<close>)
  }
  {
    fix v
    assume "\<exists>vs. v = C vs \<and> V vs" and l: "length (rlp_enc v) < 2 ^ 64"
    then obtain vs where v: "v = C vs" "V vs" by blast
    let ?n = "length (encs vs)"
    have n: "?n < 2 ^ 64" using l v enc length_frame [of "encs vs" KList] by simp
    then have u: "unat (of_nat ?n :: u64) = ?n" by (simp add: unat_of_nat_u64)
    have "\<exists>s'. list_content m e C KList (of_nat ?n) s1 = (Inr v, s')" if o: "opened KList (of_nat ?n) 0 (encs vs) s1" for s1
    proof -
      have r: "ready (enter_list (of_nat ?n) s1)" using o enter_ready by (simp add: opened_def)
      obtain q where "st_in s1 = encs vs @ q" using o by (auto simp: opened_def)
      with fillsD(3) [OF m r v(2), of q] obtain s2 where s2: "m (enter_list (of_nat ?n) s1) = (Inr vs, s2)" by auto
      from fillsD(2) [OF m r this] u obtain ls where "st_stack s2 = 0 # ls" by (simp add: consumed_def took_def)
      then obtain s3 where "e s2 = (Inr (), s3)" by (auto simp: e_ok)
      with s2 v(1) show ?thesis by (simp add: list_content_def and_read_iff)
    qed
    with opens_frame(2) [OF n, of 0] v enc show "\<exists>k sz b c. opens (rlp_enc v) k sz b c \<and>
        (\<forall>s1. opened k sz b c s1 \<longrightarrow> (\<exists>s'. list_content m e C k sz s1 = (Inr v, s')))"
      by metis
  }
  show "rlp_enc v \<noteq> []" if "\<exists>vs. v = C vs \<and> V vs" for v
    using that enc frame_nonempty by (auto simp del: frame_of.simps)
qed simp

lemma Kind_first:
  "ready s \<Longrightarrow> st_Kind s = (Inr (k, sz), s1) \<Longrightarrow> and_read st_Kind f s1 = and_read st_Kind f s"
proof -
  assume a: "ready s" "st_Kind s = (Inr (k, sz), s1)"
  from Kind_again [OF Kind_sound [OF a]] a(2) show ?thesis by (simp add: and_read_def)
qed

lemma List_first:
  assumes "ready s" "st_Kind s = (Inr (k, sz), s1)"
  shows "and_read (wrapped st_List) f s1 = and_read (wrapped st_List) f s"
proof -
  have "st_List s1 = st_List s" unfolding st_List_def by (rule Kind_first [OF assms])
  then show ?thesis by (simp add: and_read_def wrapped_def)
qed

lemma exact_wrapped_list:
  assumes "fills m V" "e = st_ListEnd \<or> e = wrapped st_ListEnd" "C = RSlice \<or> C = RStruct"
  shows "exact (and_read (wrapped st_List) (\<lambda>_. and_read m (\<lambda>vs. and_read e (\<lambda>_. gives (C vs)))))
    (\<lambda>v. \<exists>vs. v = C vs \<and> V vs) rlp_enc" (is "exact (and_read _ ?K) ?V _")
proof -
  have x: "exact (and_read st_List ?K) ?V rlp_enc"
    unfolding st_List_eq by (rule exact_list [OF assms])
  have i: "and_read (wrapped st_List) ?K s = (Inr v, s') \<longleftrightarrow> and_read st_List ?K s = (Inr v, s')" for s v s'
    by (simp add: and_read_iff)
  show ?thesis
    unfolding exact_def
  proof (intro conjI allI impI)
    fix s :: stream
    assume s: "ready s"
    note d = exactD [OF x s]
    show "sound_at (and_read (wrapped st_List) ?K) ?V rlp_enc s" using d(1,2) unfolding sound_at_def i by blast
    show "complete_at (and_read (wrapped st_List) ?K) ?V rlp_enc s" using d(3) unfolding complete_at_def i by blast
    have "and_read (wrapped st_List) ?K s = (Inl EOL, s)" if "at_end s"
      using Kind_end [OF s that] by (simp add: st_List_def and_read_iff)
    moreover have "e' \<noteq> NotDone \<and> (e' = EOL \<longrightarrow> at_end s \<and> s' = s)"
      if w: "and_read (wrapped st_List) ?K s = (Inl e', s')" for e' s'
    proof (cases "\<exists>c. st_List s = (Inl c, s') \<and> e' = wrapStreamError c")
      case True
      then obtain c where "and_read st_List ?K s = (Inl c, s')" "e' = wrapStreamError c" by auto
      with d(5-7) show ?thesis by auto
    next
      case False
      with w have "and_read st_List ?K s = (Inl e', s')" by (auto simp: and_read_iff)
      with d(5-7) show ?thesis by auto
    qed
    ultimately show "ends_at (and_read (wrapped st_List) ?K) s"
      unfolding ends_at_def using List_first [OF s] d(10) i by blast
  qed (use exact_nonempty [OF x] in blast)
qed

lemma exact_cong:
  assumes l: "exact l V enc" and eq: "\<And>s. ready s \<Longrightarrow> m s = l s"
    and first: "\<And>s k sz s1. ready s \<Longrightarrow> st_Kind s = (Inr (k, sz), s1) \<Longrightarrow> m s1 = m s"
  shows "exact m V enc"
  unfolding exact_def
proof (intro conjI allI impI)
  fix s :: stream
  assume s: "ready s"
  note d = exactD [OF l s] and e = eq [OF s]
  show "sound_at m V enc s" unfolding sound_at_def e using d(1,2) by blast
  show "complete_at m V enc s" unfolding complete_at_def e using d(3) by blast
  show "ends_at m s" unfolding ends_at_def using d(4-7,10) e first [OF s] by metis
qed (rule exact_nonempty [OF l])

text \<open>The elements of a slice.\<close>

lemma slice_elems:
  assumes dec: "exact dec V rlp_enc"
  shows "ready s \<Longrightarrow> length (st_in s) < turns \<Longrightarrow>
    (\<forall>vs s'. decodeSliceElems dec turns s = (Inr vs, s') \<longrightarrow> list_all V vs \<and> consumed s (encs vs) s') \<and>
    (\<forall>vs r ls. list_all V vs \<longrightarrow> st_in s = encs vs @ r \<longrightarrow> st_stack s = of_nat (length (encs vs)) # ls \<longrightarrow>
       (\<exists>s'. decodeSliceElems dec turns s = (Inr vs, s'))) \<and>
    (\<forall>e s'. decodeSliceElems dec turns s = (Inl e, s') \<longrightarrow> e \<in> calm_errors)"
proof (induction turns arbitrary: s)
  case (Suc turns)
  note s = Suc.prems(1) and d = exactD [OF dec Suc.prems(1)]
  have less: "ready s1 \<and> length (st_in s1) < turns" if "dec s = (Inr v, s1)" for v s1
  proof -
    note c = d(2) [OF that] and ne = d(9) [OF d(1) [OF that]]
    from c have "st_in s = rlp_enc v @ st_in s1" by (simp add: consumed_def took_def)
    with ne have "length (st_in s1) < length (st_in s)" by simp
    with Suc.prems(2) consumed_ready [OF c] show ?thesis by simp
  qed
  note ih = Suc.IH [OF conjunct1 [OF less] conjunct2 [OF less]]
  have "list_all V vs \<and> consumed s (encs vs) s'" if r: "decodeSliceElems dec (Suc turns) s = (Inr vs, s')" for vs s'
  proof (cases "dec s")
    case (Pair y s1)
    show ?thesis
    proof (cases y)
      case (Inl e)
      with Pair r have "dec s = (Inl EOL, s1)" "vs = []" "s' = s1" by (auto split: if_splits)
      with d(7) consumed_nil [OF s] show ?thesis by simp
    next
      case (Inr v)
      with Pair have ds: "dec s = (Inr v, s1)" by simp
      with r obtain vs' where "decodeSliceElems dec turns s1 = (Inr vs', s')" "vs = v # vs'"
        by (auto split: sum.splits prod.splits)
      with ih [OF ds ds] d(1,2) [OF ds] consumed_trans [OF consumed_took [OF d(2) [OF ds]]] show ?thesis by auto
    qed
  qed
  moreover have "\<exists>s'. decodeSliceElems dec (Suc turns) s = (Inr vs, s')"
    if v: "list_all V vs" "st_in s = encs vs @ r" "st_stack s = of_nat (length (encs vs)) # ls" for vs r ls
  proof (cases vs)
    case Nil
    with v(3) have "at_end s" by (simp add: at_end_def)
    from d(4) [OF this] Nil show ?thesis by simp
  next
    case (Cons v vs')
    have "length (encs vs) < 2 ^ 64" using live_length [OF ready_live(1) [OF s]] v(2) by simp
    then have u: "unat (of_nat (length (encs vs)) :: u64) = length (encs vs)" by (intro unat_of_nat_u64) simp
    have "length (rlp_enc v) \<le> length (encs vs)" by (simp add: Cons)
    then have "fits (length (rlp_enc v)) s" by (simp only: fits_def v(3) list.case u)
    with d(3) [of v "encs vs' @ r"] v Cons obtain s1 where ds: "dec s = (Inr v, s1)" by auto
    from d(2) [OF this] v Cons have "st_in s1 = encs vs' @ r" "st_stack s1 = of_nat (length (encs vs')) # ls"
      by (simp_all add: consumed_def took_def)
    with ih [OF ds ds] v(1) Cons obtain s2 where "decodeSliceElems dec turns s1 = (Inr vs', s2)" by fastforce
    with ds Cons show ?thesis by simp
  qed
  moreover have "e \<in> calm_errors" if r: "decodeSliceElems dec (Suc turns) s = (Inl e, s')" for e s'
  proof (cases "dec s")
    case (Pair y s1)
    show ?thesis
    proof (cases y)
      case (Inl c)
      with Pair r have "dec s = (Inl e, s1)" "e \<noteq> EOL" by (auto split: if_splits)
      with d(5) show ?thesis by simp
    next
      case (Inr v)
      with Pair have ds: "dec s = (Inr v, s1)" by simp
      with r have "decodeSliceElems dec turns s1 = (Inl e, s')" by (auto split: sum.splits prod.splits)
      with ih [OF ds ds] show ?thesis by blast
    qed
  qed
  ultimately show ?case by blast
qed simp

lemma exact_ListSlice:
  assumes dec: "exact dec V rlp_enc"
  shows "exact (decodeListSlice dec) (\<lambda>v. \<exists>vs. v = RSlice vs \<and> list_all V vs) rlp_enc"
proof -
  let ?m = "\<lambda>s. decodeSliceElems dec (Suc (length (st_in s))) s"
  let ?l = "and_read (wrapped st_List) (\<lambda>_. and_read ?m (\<lambda>vs. and_read st_ListEnd (\<lambda>_. gives (RSlice vs))))"
  have "fills ?m (list_all V)"
    unfolding fills_def using slice_elems [OF dec, where turns = "Suc (length (st_in _))"] by blast
  then have x: "exact ?l (\<lambda>v. \<exists>vs. v = RSlice vs \<and> list_all V vs) rlp_enc"
    by (intro exact_wrapped_list) simp_all
  have eq: "decodeListSlice dec s = ?l s" if s: "ready s" for s
  proof (cases "\<exists>s1. st_List s = (Inr 0, s1)")
    case True
    then obtain s1 where s1: "st_List s = (Inr 0, s1)" by blast
    then obtain s2 where k: "st_Kind s = (Inr (KList, 0), s2)" and e: "s1 = enter_list 0 s2"
      by (auto simp: st_List_def and_read_iff enter_list_def split: if_splits)
    have "ready s1" "at_end s1"
      using enter_ready [OF announced_live [OF Kind_sound [OF s k]]] e by (simp_all add: at_end_def)
    from exactD(4) [OF dec this] have "?m s1 = (Inr [], s1)" by simp
    moreover have "wrapped st_List s = (Inr 0, s1)" using s1 by simp
    ultimately show ?thesis
      by (simp add: decodeListSlice_def and_read_def del: wrapped_iff decodeSliceElems.simps)
  next
    case False
    then show ?thesis
      by (auto simp: decodeListSlice_def and_read_def wrapped_def split: sum.splits prod.splits)
  qed
  have first: "decodeListSlice dec s1 = decodeListSlice dec s" if "ready s" "st_Kind s = (Inr (k, sz), s1)" for s k sz s1
    unfolding decodeListSlice_def by (rule List_first [OF that])
  from exact_cong [OF x eq first] show ?thesis .
qed

text \<open>The elements of an array, the fields of a struct, and pointers.\<close>

definition cons_read :: "stream_error \<Rightarrow> rlp_val reading \<Rightarrow> rlp_val list reading \<Rightarrow> rlp_val list reading" where
  "cons_read missing dec others s =
     (case dec s of
        (Inl e, s) \<Rightarrow> (Inl (if e = EOL then missing else e), s)
      | (Inr v, s) \<Rightarrow> (case others s of (Inl e, s) \<Rightarrow> (Inl e, s) | (Inr vs, s) \<Rightarrow> (Inr (v # vs), s)))"

lemma cons_read_iff:
  "cons_read missing dec others s = (Inr vs, s') \<longleftrightarrow>
     (\<exists>v s1 ws. dec s = (Inr v, s1) \<and> others s1 = (Inr ws, s') \<and> vs = v # ws)"
  "cons_read missing dec others s = (Inl e, s') \<longleftrightarrow>
     (\<exists>c. dec s = (Inl c, s') \<and> e = (if c = EOL then missing else c)) \<or>
     (\<exists>v s1. dec s = (Inr v, s1) \<and> others s1 = (Inl e, s'))"
  by (auto simp: cons_read_def split: sum.splits prod.splits)

lemma fills_cons:
  assumes dec: "exact dec V rlp_enc" and m: "fills m W" and missing: "missing \<in> calm_errors"
  shows "fills (cons_read missing dec m) (\<lambda>vs. \<exists>v ws. vs = v # ws \<and> V v \<and> W ws)"
  unfolding fills_def
proof (intro allI impI)
  fix s :: stream
  assume s: "ready s"
  note d = exactD [OF dec s]
  note ih = fillsD [OF m consumed_ready [OF d(2)]]
  let ?m = "cons_read missing dec m"
  have "(\<exists>v ws. vs = v # ws \<and> V v \<and> W ws) \<and> consumed s (encs vs) s'" if r: "?m s = (Inr vs, s')" for vs s'
  proof -
    from r obtain v s1 ws where ds: "dec s = (Inr v, s1)" and ws: "m s1 = (Inr ws, s')" and vs: "vs = v # ws"
      by (auto simp: cons_read_iff)
    have "consumed s (rlp_enc v @ encs ws) s'"
      by (rule consumed_trans [OF consumed_took [OF d(2) [OF ds]] ih(2) [OF ds ws]])
    with vs ih(1) [OF ds ws] d(1) [OF ds] show ?thesis by auto
  qed
  moreover have "\<exists>s'. ?m s = (Inr vs, s')"
    if v: "\<exists>v ws. vs = v # ws \<and> V v \<and> W ws" "st_in s = encs vs @ r" "st_stack s = of_nat (length (encs vs)) # ls"
    for vs r ls
  proof -
    from v(1) obtain w ws where Cons: "vs = w # ws" and vw: "V w" "W ws" by blast
    have "length (encs vs) < 2 ^ 64" using live_length [OF ready_live(1) [OF s]] v(2) by simp
    then have u: "unat (of_nat (length (encs vs)) :: u64) = length (encs vs)" by (intro unat_of_nat_u64) simp
    have "length (rlp_enc w) \<le> length (encs vs)" by (simp add: Cons)
    then have "fits (length (rlp_enc w)) s" by (simp only: fits_def v(3) list.case u)
    with d(3) [OF vw(1), of "encs ws @ r"] v(2) Cons obtain s1 where ds: "dec s = (Inr w, s1)" by auto
    from d(2) [OF this] v Cons have "st_in s1 = encs ws @ r" "st_stack s1 = of_nat (length (encs ws)) # ls"
      by (simp_all add: consumed_def took_def)
    with ih(3) [OF ds vw(2) this] ds Cons show ?thesis by (auto simp: cons_read_iff)
  qed
  moreover have "e \<in> calm_errors" if r: "?m s = (Inl e, s')" for e s'
  proof -
    from r consider c where "dec s = (Inl c, s')" "e = (if c = EOL then missing else c)"
      | v s1 where "dec s = (Inr v, s1)" "m s1 = (Inl e, s')" by (auto simp: cons_read_iff)
    then show ?thesis
    proof cases
      case 1
      then show ?thesis using d(5) [OF 1(1)] missing by (simp split: if_splits)
    next
      case 2
      show ?thesis by (rule ih(4) [OF 2])
    qed
  qed
  ultimately show "(\<forall>vs s'. ?m s = (Inr vs, s') \<longrightarrow>
        (\<exists>v ws. vs = v # ws \<and> V v \<and> W ws) \<and> consumed s (encs vs) s') \<and>
      (\<forall>vs r ls. (\<exists>v ws. vs = v # ws \<and> V v \<and> W ws) \<longrightarrow> st_in s = encs vs @ r \<longrightarrow>
        st_stack s = of_nat (length (encs vs)) # ls \<longrightarrow> (\<exists>s'. ?m s = (Inr vs, s'))) \<and>
      (\<forall>e s'. ?m s = (Inl e, s') \<longrightarrow> e \<in> calm_errors)" by blast
qed

lemma fills_nil: "fills (gives []) (\<lambda>vs. vs = [])"
  by (auto simp: fills_def consumed_nil)

lemma array_fills:
  assumes dec: "exact dec V rlp_enc"
  shows "fills (decode_array dec n) (\<lambda>vs. length vs = n \<and> list_all V vs)"
proof (induction n)
  case 0
  have "decode_array dec 0 = gives []" "(\<lambda>vs. length vs = 0 \<and> list_all V vs) = (\<lambda>vs. vs = [])"
    by (auto simp: gives_def fun_eq_iff)
  with fills_nil show ?case by simp
next
  case (Suc n)
  have "decode_array dec (Suc n) = cons_read (DecodeError MTooFewList) dec (decode_array dec n)"
    by (rule ext) (simp add: cons_read_def)
  moreover have "(\<lambda>vs. length vs = Suc n \<and> list_all V vs) =
      (\<lambda>vs. \<exists>v ws. vs = v # ws \<and> V v \<and> (length ws = n \<and> list_all V ws))"
    by (auto simp: fun_eq_iff length_Suc_conv)
  ultimately show ?case using fills_cons [OF dec Suc.IH] by simp
qed

lemma exact_ListArray:
  "exact dec V rlp_enc \<Longrightarrow>
     exact (decodeListArray dec n) (\<lambda>v. \<exists>vs. v = RSlice vs \<and> length vs = n \<and> list_all V vs) rlp_enc"
  unfolding decodeListArray_def by (rule exact_wrapped_list [OF array_fills]) simp_all

lemma exact_struct: "fills m V \<Longrightarrow> exact (decode_struct m) (\<lambda>v. \<exists>vs. v = RStruct vs \<and> V vs) rlp_enc"
  unfolding decode_struct_def by (rule exact_wrapped_list) simp_all

lemma empty_header: "kind_encoding k # r = header k 0 b @ r" if "k \<noteq> KByte"
  using that by (cases k) (simp_all add: puthead_def)

lemma empty_frame: "[kind_encoding k] = frame_of k []" if "k \<noteq> KByte"
  using that by (cases k) (simp_all add: puthead_def)

lemma not_end_fits: "\<not> at_end s \<Longrightarrow> fits 1 s"
  by (auto simp: at_end_def fits_def word_le_nat_alt Suc_le_eq unat_gt_0 split: list.splits)

lemma exact_nil_ptr:
  assumes dec: "exact dec V rlp_enc" and enc: "\<And>v. V v \<Longrightarrow> encodable v" and k: "k \<noteq> KByte"
  shows "exact (decode_nil_ptr k dec)
    (\<lambda>v. v = RNilPtr (kind_encoding k) \<or> V v \<and> rlp_enc v \<noteq> [0x80] \<and> rlp_enc v \<noteq> [0xC0]) rlp_enc"
  (is "exact ?m ?V _")
  unfolding exact_def
proof (intro conjI allI impI)
  fix s :: stream
  assume s: "ready s"
  note d = exactD [OF dec s]
  have "encodable v \<Longrightarrow> st_in s = rlp_enc v @ r \<Longrightarrow> st_in s = [kind_encoding j] @ q \<Longrightarrow> j \<noteq> KByte \<Longrightarrow>
      rlp_enc v = [kind_encoding j]" for v r q j
  proof -
    assume v: "encodable v" "st_in s = rlp_enc v @ r" "st_in s = [kind_encoding j] @ q" "j \<noteq> KByte"
    have "length (rlp_enc v) < 2 ^ 64" using live_length [OF ready_live(1) [OF s]] v(2) by simp
    from rlp_enc_frame [OF v(1) this] obtain i c where f: "framable i c" "rlp_enc v = frame_of i c" by blast
    have "framable j []" using v(4) by (cases j) simp_all
    then have "Split (st_in s) = Inr (j, [], q)" unfolding v(3) empty_frame [OF v(4)] by (rule Split_frame)
    moreover have "Split (st_in s) = Inr (i, c, r)" unfolding v(2) f(2) by (rule Split_frame [OF f(1)])
    ultimately have "i = j" "c = []" by simp_all
    then show "rlp_enc v = [kind_encoding j]" using f(2) empty_frame [OF v(4)] by simp
  qed
  note unique = this
  have kind: "rlp_enc v \<noteq> [kind_encoding j]"
    if "st_Kind s = (Inr (k', sz), s1)" "\<not> (k' \<noteq> KByte \<and> sz = 0)" "dec s = (Inr v, s')" "j \<noteq> KByte" for k' sz s1 v s' j
  proof
    assume e: "rlp_enc v = [kind_encoding j]"
    have "st_in s = header j 0 0 @ st_in s'"
      using d(2) [OF that(3)] e empty_header [OF that(4), of "st_in s'" 0] by (simp add: consumed_def took_def)
    moreover have "fits (length (header j 0 0) + unat 0) s"
      using not_end_fits [of s] Kind_end [OF s] that(1) empty_header [OF that(4), of "[]" 0, symmetric]
      by (cases "at_end s") auto
    ultimately show False using Kind_complete [OF s, of j 0 0 "st_in s'"] that by auto
  qed
  have m: "?m s = (case st_Kind s of (Inl e, s1) \<Rightarrow> (Inl (wrapStreamError e), s1)
      | (Inr (k', sz), s1) \<Rightarrow> if k' \<noteq> KByte \<and> sz = 0 then
          (if k' \<noteq> k then (Inl (DecodeError MNilKind), s1) else (Inr (RNilPtr (kind_encoding k)), rearm s1))
        else dec s)"
    using d(8) by (auto simp: decode_nil_ptr_def and_read_def wrapped_def fails_def rearmed_def
        split: sum.splits prod.splits)
  show "sound_at ?m ?V rlp_enc s"
    unfolding sound_at_def
  proof (intro allI impI)
    fix v s'
    assume r: "?m s = (Inr v, s')"
    then obtain k' sz s1 where K: "st_Kind s = (Inr (k', sz), s1)" by (auto simp: m split: sum.splits prod.splits)
    show "?V v \<and> consumed s (rlp_enc v) s'"
    proof (cases "k' \<noteq> KByte \<and> sz = 0")
      case True
      with r K have "k' = k" "v = RNilPtr (kind_encoding k)" "s' = rearm s1" by (auto simp: m split: if_splits)
      with rearm_announced [OF Kind_sound [OF s K]] True empty_header [OF k, of "[]"] show ?thesis by simp
    next
      case False
      with r K have ds: "dec s = (Inr v, s')" by (auto simp: m)
      with d(1,2) kind [OF K False ds, of KString] kind [OF K False ds, of KList] show ?thesis by simp
    qed
  qed
  show "complete_at ?m ?V rlp_enc s"
    unfolding complete_at_def
  proof (intro allI impI)
    fix v r
    assume v: "?V v" "st_in s = rlp_enc v @ r" "fits (length (rlp_enc v)) s"
    show "\<exists>s'. ?m s = (Inr v, s')"
    proof (cases "v = RNilPtr (kind_encoding k)")
      case True
      with v(2,3) empty_header [OF k, of r 0] empty_header [OF k, of "[]" 0]
      have "st_in s = header k 0 0 @ r" "fits (length (header k 0 0) + unat (0 :: u64)) s" by auto
      from Kind_complete [OF s this(1) _ _ this(2)] k True show ?thesis by (auto simp: m)
    next
      case False
      with v have V: "V v" "rlp_enc v \<noteq> [0x80]" "rlp_enc v \<noteq> [0xC0]" by auto
      from d(3) [OF this(1) v(2,3)] obtain s' where ds: "dec s = (Inr v, s')" by blast
      from d(10) [OF this] obtain k' sz s1 where K: "st_Kind s = (Inr (k', sz), s1)" by blast
      have "\<not> (k' \<noteq> KByte \<and> sz = 0)"
      proof
        assume z: "k' \<noteq> KByte \<and> sz = 0"
        with Kind_sound [OF s K] have "st_in s = header k' 0 (st_byteval s1) @ st_in s1"
          by (simp add: announced_def took_def)
        with z empty_header [of k' "st_in s1"] have "st_in s = [kind_encoding k'] @ st_in s1" by simp
        from unique [OF enc [OF V(1)] v(2) this] z V(2,3) show False by (cases k') auto
      qed
      with ds K show ?thesis by (auto simp: m)
    qed
  qed
  have "?m s1 = ?m s" if K: "st_Kind s = (Inr (k', sz), s1)" for k' sz s1
    using Kind_again [OF Kind_sound [OF s K]] K by (simp add: decode_nil_ptr_def and_read_def wrapped_def)
  moreover have "?m s = (Inl EOL, s)" if "at_end s" using Kind_end [OF s that] by (simp add: m)
  moreover have "e \<noteq> NotDone \<and> (e = EOL \<longrightarrow> at_end s \<and> s' = s)" if "?m s = (Inl e, s')" for e s'
    using that Kind_error [OF s] d(5-7) by (auto simp: m split: sum.splits prod.splits if_splits)
  moreover have "\<exists>k sz s1. st_Kind s = (Inr (k, sz), s1)" if "?m s = (Inr x, s')" for x s'
    using that by (auto simp: m split: sum.splits prod.splits)
  ultimately show "ends_at ?m s" unfolding ends_at_def by blast
qed (use exact_nonempty [OF dec] in auto)

section \<open>Typed values\<close>

text \<open>
  The types without optional fields, and the values a decoder of such a type can return: a pointer
  with a \<open>nil\<close> tag is nil or points to a value whose own encoding is not empty.
\<close>

fun strict_type :: "rlp_type \<Rightarrow> bool" and strict_field :: "rlp_field \<Rightarrow> bool" where
  "strict_type (TUint n) = (8 \<le> n \<and> n \<le> 64)"
| "strict_type (TArray n) = (n < 2 ^ 64)"
| "strict_type (TSlice t) = strict_type t"
| "strict_type (TListArray n t) = strict_type t"
| "strict_type (TStruct fs) = list_all strict_field fs"
| "strict_type (TPtr t) = strict_type t"
| "strict_type (TNil k t) = (k \<noteq> KByte \<and> strict_type t)"
| "strict_type t = True"
| "strict_field (Field opt t) = (\<not> opt \<and> strict_type t)"

fun typed :: "rlp_type \<Rightarrow> rlp_val \<Rightarrow> bool" and typed_fields :: "rlp_field list \<Rightarrow> rlp_val list \<Rightarrow> bool" where
  "typed (TUint n) v = (\<exists>i. v = RUint i \<and> unat i < 256 ^ (n div 8))"
| "typed TBool v = (\<exists>b. v = RBool b)"
| "typed TBig v = (\<exists>i. v = RBigPtr (Some i) \<and> 0 \<le> i)"
| "typed TU256 v = (\<exists>i. v = RBigPtr (Some i) \<and> 0 \<le> i \<and> i < 2 ^ 256)"
| "typed TBytes v = (\<exists>b. v = RBytes b)"
| "typed (TArray n) v = (\<exists>b. v = RArray b \<and> length b = n)"
| "typed (TSlice t) v = (\<exists>vs. v = RSlice vs \<and> list_all (typed t) vs)"
| "typed (TListArray n t) v = (\<exists>vs. v = RSlice vs \<and> length vs = n \<and> list_all (typed t) vs)"
| "typed (TStruct fs) v = (\<exists>vs. v = RStruct vs \<and> typed_fields fs vs)"
| "typed (TPtr t) v = typed t v"
| "typed (TNil k t) v =
     (v = RNilPtr (kind_encoding k) \<or> typed t v \<and> rlp_enc v \<noteq> [0x80] \<and> rlp_enc v \<noteq> [0xC0])"
| "typed_fields [] vs = (vs = [])"
| "typed_fields (Field opt t # fs) vs = (\<exists>w ws. vs = w # ws \<and> typed t w \<and> typed_fields fs ws)"

lemma typed_encodable:
  "strict_type t \<Longrightarrow> typed t v \<Longrightarrow> encodable v"
  "list_all strict_field fs \<Longrightarrow> typed_fields fs vs \<Longrightarrow> list_all encodable vs"
proof (induction t v and fs vs rule: typed_typed_fields.induct)
  case (11 k t v)
  then show ?case by (cases k) auto
qed (auto simp: list_all_iff)

lemma exact_same: "exact m V enc \<Longrightarrow> (\<And>x. V x = W x) \<Longrightarrow> exact m W enc"
  by (subgoal_tac "V = W") auto

lemma fills_same: "fills m V \<Longrightarrow> (\<And>x. V x = W x) \<Longrightarrow> fills m W"
  by (subgoal_tac "V = W") auto

lemma nat_of_int: "(\<exists>n. v = RBigPtr (Some (int n)) \<and> P (int n)) = (\<exists>i. v = RBigPtr (Some i) \<and> 0 \<le> i \<and> P i)"
  by (metis nat_0_le of_nat_0_le_iff)

lemma decode_exact:
  "strict_type t \<Longrightarrow> exact (decode t) (typed t) rlp_enc"
  "list_all strict_field fs \<Longrightarrow> fills (decode_fields fs) (typed_fields fs)"
proof (induction t and fs rule: decode_decode_fields.induct)
  case (1 n)
  then show ?case unfolding decode.simps
    by (intro exact_same [OF exact_Uint [of n]]) (auto simp: length_be_min)
next
  case 2
  show ?case unfolding decode.simps by (rule exact_same [OF exact_Bool]) simp
next
  case 3
  show ?case unfolding decode.simps
    by (rule exact_same [OF exact_BigInt]) (use nat_of_int [where P = "\<lambda>_. True"] in simp)
next
  case 4
  have "exact decodeU256 (\<lambda>v. \<exists>n. v = RBigPtr (Some (int n)) \<and> int n < 2 ^ 256) rlp_enc"
    using exact_U256 by (rule exact_same) simp
  then show ?case unfolding decode.simps
    by (rule exact_same) (simp only: typed.simps nat_of_int [where P = "\<lambda>i. i < 2 ^ 256"])
next
  case 5
  show ?case unfolding decode.simps by (rule exact_same [OF exact_ByteSlice]) simp
next
  case (6 n)
  then show ?case unfolding decode.simps by (intro exact_same [OF exact_ByteArray]) simp_all
next
  case (7 t)
  then show ?case unfolding decode.simps by (intro exact_same [OF exact_ListSlice [of "decode t" "typed t"]]) simp_all
next
  case (8 n t)
  then show ?case unfolding decode.simps by (intro exact_same [OF exact_ListArray [of "decode t" "typed t"]]) simp_all
next
  case (9 fs)
  then show ?case unfolding decode.simps by (intro exact_same [OF exact_struct]) simp_all
next
  case (10 t)
  then have "exact (decode t) (typed t) rlp_enc" by simp
  then show ?case unfolding decode.simps by (rule exact_same) simp
next
  case (11 k t)
  then show ?case unfolding decode.simps
    by (intro exact_same [OF exact_nil_ptr [of "decode t" "typed t" k]]) (auto dest: typed_encodable(1))
next
  case 12
  show ?case unfolding decode_fields.simps by (rule fills_same [OF fills_nil]) simp
next
  case (13 opt t fs)
  have "decode_fields (Field opt t # fs) = cons_read (DecodeError MTooFew) (decode t) (decode_fields fs)"
    using 13(3) by (auto simp: fun_eq_iff cons_read_def field_step_def split: sum.splits prod.splits)
  moreover have "fills (cons_read (DecodeError MTooFew) (decode t) (decode_fields fs)) (typed_fields (Field opt t # fs))"
    using 13 by (intro fills_same [OF fills_cons [of "decode t" "typed t" "decode_fields fs" "typed_fields fs"]]) simp_all
  ultimately show ?case by (simp only:)
qed

lemma decode_no_kind:
  "st_Kind s = (Inl e, s1) \<Longrightarrow> e \<noteq> NotDone \<Longrightarrow> \<exists>c s'. decode t s = (Inl c, s') \<and> c \<noteq> NotDone"
proof (induction t)
  case (TNil k t)
  then show ?case by (auto simp: decode_nil_ptr_def and_read_def wrapped_def)
qed (auto simp: decodeUint_def decodeBool_def decodeBigInt_def decodeU256_def decodeByteSlice_def decodeByteArray_def
    decodeListSlice_def decodeListArray_def decode_struct_def st_uint_def st_Bool_def st_decodeBigInt_def
    ReadUint256_def int_content_def st_Bytes_def st_List_def and_read_def wrapped_def)

lemma Kind_empty: "\<exists>s1. st_Kind (st_Reset []) = (Inl IoEOF, s1)"
  by (simp add: st_Kind_def st_Reset_def listLimit_def st_readKind_def readByte_def and_read_def willRead_def
      rearm_def limit_input_def cached_kind_def Let_def)

lemma Reset_ready: "b \<noteq> [] \<Longrightarrow> length b < 2 ^ 64 \<Longrightarrow> ready (st_Reset b)"
  by (simp add: ready_def live_def st_Reset_def unat_of_nat_u64)

lemma DecodeBytes_enc:
  assumes t: "strict_type t" and l: "length b < 2 ^ 64"
  shows "DecodeBytes t b = Inr v \<longleftrightarrow> typed t v \<and> b = rlp_enc v" "DecodeBytes t b \<noteq> Inl NotDone"
proof -
  note x = decode_exact(1) [OF t]
  have "(DecodeBytes t b = Inr v \<longleftrightarrow> typed t v \<and> b = rlp_enc v) \<and> DecodeBytes t b \<noteq> Inl NotDone"
  proof (cases "b = []")
    case True
    from Kind_empty obtain s1 where "st_Kind (st_Reset []) = (Inl IoEOF, s1)" by blast
    from decode_no_kind [OF this, of t] obtain c s' where "decode t (st_Reset []) = (Inl c, s')" "c \<noteq> NotDone" by auto
    with True show ?thesis using exact_nonempty [OF x, of v] by (auto simp: DecodeBytes_def)
  next
    case False
    note s = Reset_ready [OF False l] and d = exactD [OF x Reset_ready [OF False l]]
    have i: "st_in (st_Reset b) = b" "\<And>n. fits n (st_Reset b)" by (simp_all add: st_Reset_def fits_def)
    show ?thesis
    proof (cases "decode t (st_Reset b)")
      case (Pair y s')
      show ?thesis
      proof (cases y)
        case (Inl e)
        have "\<not> (typed t v \<and> b = rlp_enc v)" using d(3) [of v "[]"] i Pair Inl by auto
        with d(5) Pair Inl show ?thesis by (auto simp: DecodeBytes_def)
      next
        case (Inr w)
        with Pair have r: "decode t (st_Reset b) = (Inr w, s')" by simp
        from d(2) [OF this] i have b: "b = rlp_enc w @ st_in s'" by (simp add: consumed_def took_def)
        have "v = w \<and> st_in s' = []" if "typed t v" "b = rlp_enc v"
        proof -
          from d(3) [OF that(1), of "[]"] i that(2) r have "v = w" by auto
          with b that(2) show ?thesis by simp
        qed
        with d(1) [OF r] b r show ?thesis by (auto simp: DecodeBytes_def)
      qed
    qed
  qed
  then show "DecodeBytes t b = Inr v \<longleftrightarrow> typed t v \<and> b = rlp_enc v" "DecodeBytes t b \<noteq> Inl NotDone" by blast+
qed

section \<open>Properties\<close>

text \<open>
  C12: Decoding is the inverse of encoding: for every type without optional fields, \<open>DecodeBytes\<close>
  returns \<open>v\<close> exactly on the bytes \<open>EncodeToBytes\<close> writes for \<open>v\<close>, provided \<open>v\<close> is a value of
  the type (integers within their width, arrays of their length, no pointer with a \<open>nil\<close> tag to a
  value with an empty encoding).  So values round-trip, no value has two accepted encodings, and
  the unsigned underflow of an enclosing list's limit never lets an input through.
\<close>

theorem DecodeBytes_iff_EncodeToBytes:
  assumes "strict_type t" "length b < 2 ^ 64" "length (rlp_enc v) < 2 ^ 64"
  shows "DecodeBytes t b = Inr v \<longleftrightarrow> typed t v \<and> EncodeToBytes v = Some (Inr b)"
  using DecodeBytes_enc(1) [OF assms(1,2)] typed_encodable(1) [OF assms(1)] EncodeToBytes_enc [OF _ assms(3)]
  by auto

abbreviation demo_type :: rlp_type where
  "demo_type \<equiv> TStruct [Field False (TUint 64), Field False TBig, Field False (TNil KString (TArray 2)),
     Field False (TSlice TBytes)]"

abbreviation demo_val :: rlp_val where
  "demo_val \<equiv> RStruct [RUint 1024, RBigPtr (Some 7), RNilPtr 0x80, RSlice [RBytes [1], RBytes []]]"

lemma demo_enc: "rlp_enc demo_val = [0xC8, 0x82, 4, 0, 7, 0x80, 0xC2, 1, 0x80]"
proof -
  have "be_min 1024 = [4, 0]" "be_min 7 = [7]" by code_simp+
  then show ?thesis by (simp add: str_enc_def puthead_def)
qed

theorem DecodeBytes_iff_EncodeToBytes_witness:
  "DecodeBytes demo_type [0xC8, 0x82, 4, 0, 7, 0x80, 0xC2, 1, 0x80] = Inr demo_val"
proof -
  have l: "length (rlp_enc demo_val) < 2 ^ 64" unfolding demo_enc by simp
  have "encodable demo_val" by simp
  from EncodeToBytes_enc [OF this l]
  have "EncodeToBytes demo_val = Some (Inr [0xC8, 0x82, 4, 0, 7, 0x80, 0xC2, 1, 0x80])" unfolding demo_enc .
  with DecodeBytes_iff_EncodeToBytes [OF _ _ l, of demo_type "[0xC8, 0x82, 4, 0, 7, 0x80, 0xC2, 1, 0x80]"]
  show ?thesis by simp
qed

text \<open>
  C29: Decoding ends on every input: the loop over the elements of a slice needs at most one turn
  per byte of input and one for the end of the list.
\<close>

theorem DecodeBytes_returns:
  assumes "strict_type t" "length b < 2 ^ 64"
  shows "DecodeBytes t b \<noteq> Inl NotDone"
  by (rule DecodeBytes_enc(2) [OF assms])

theorem DecodeBytes_returns_witness: "DecodeBytes (TSlice (TUint 8)) [0xC3, 1, 2, 3] \<noteq> Inl NotDone"
  by (rule DecodeBytes_returns) simp_all

text \<open>
  A list that is longer than the list around it by no more than its own header passes the check
  against the limit, which was read before the header; the limit of the outer list then wraps, and
  the input is refused only later, as a list with too many elements.
\<close>

lemma stale_limit:
  "DecodeBytes (TStruct [Field False (TStruct [Field False TBytes])]) [0xC1, 0xC1, 0] =
     Inl (DecodeError MTooMany)"
  by code_simp

end
