(* ===== verification/Evm.thy ===== *)
theory Evm
  imports StateDB Analysis Rlp
begin

text \<open>
  The data the interpreter runs on: contracts and their jump-destination cache
  (\<^verbatim>\<open>core/vm/contract.go\<close>), the contexts and the EVM object (\<^verbatim>\<open>core/vm/evm.go\<close>,
  \<^verbatim>\<open>interpreter.go\<close>), the tracer interface (\<^verbatim>\<open>logger.go\<close>), the table of precompiled
  contracts (\<^verbatim>\<open>contracts.go\<close>) and the contract addresses (\<^verbatim>\<open>crypto/crypto.go\<close>).
  What the code takes from outside the repository is a field of \<open>externals\<close>: the arithmetic of
  \<^verbatim>\<open>holiman/uint256\<close>, the precompiled contracts' bodies and the RPC node.
\<close>

section \<open>Outside functions\<close>

datatype u_binop = UAdd | USub | UMul | UDiv | USDiv | UMod | USMod | UExp | UExtendSign | UAnd | UOr | UXor | UByte
datatype u_cmpop = ULt | UGt | USlt | USgt
datatype u_terop = UAddMod | UMulMod
datatype u_shift = ULsh | URsh | USRsh

record uint256_ops =
  u_bin :: "u_binop \<Rightarrow> u256 \<Rightarrow> u256 \<Rightarrow> u256"
  u_cmp :: "u_cmpop \<Rightarrow> u256 \<Rightarrow> u256 \<Rightarrow> bool"
  u_ter :: "u_terop \<Rightarrow> u256 \<Rightarrow> u256 \<Rightarrow> u256 \<Rightarrow> u256"
  u_shf :: "u_shift \<Rightarrow> u256 \<Rightarrow> nat \<Rightarrow> u256"
  u_Not :: "u256 \<Rightarrow> u256"

datatype precompiled =
    ecrecover | sha256hash | ripemd160hash | dataCopy | bigModExp bool
  | bn256AddByzantium | bn256ScalarMulByzantium | bn256PairingByzantium
  | bn256AddIstanbul | bn256ScalarMulIstanbul | bn256PairingIstanbul
  | blake2F | kzgPointEvaluation

text \<open>The RPC node; the code ignores the error it may return.\<close>

record rpc_provider =
  rpc_GetStorageAt :: "address \<Rightarrow> hash \<Rightarrow> int \<Rightarrow> hash"
  rpc_GetCodeAt :: "address \<Rightarrow> int \<Rightarrow> bytes option"
  rpc_GetBalanceAt :: "address \<Rightarrow> int \<Rightarrow> int"
  rpc_GetNonceAt :: "address \<Rightarrow> int \<Rightarrow> u64"

record externals =
  ext_ops :: uint256_ops
  pc_RequiredGas :: "precompiled \<Rightarrow> bytes \<Rightarrow> u64"
  pc_Run :: "precompiled \<Rightarrow> bytes \<Rightarrow> bytes \<times> vm_error option"
  ext_rpc :: rpc_provider
  ext_visits :: "account_state \<Rightarrow> visit_order" \<comment> \<open>the order in which \<open>range\<close> visits the touched maps\<close>

section \<open>Contracts\<close>

text \<open>
  \<open>caller\<close> is only used to build the contract; \<open>jumpdests\<close>, the map a contract shares by
  reference with the contracts it calls, is a field of the running interpreter (below).
  A nil bit vector is \<^term>\<open>None\<close>.
\<close>

record contract =
  CallerAddress :: address
  ct_self :: address
  analysis :: "bitvec option"
  Code :: bytes
  CodeHash :: hash
  CodeAddr :: "address option"
  Input :: bytes
  Gas :: u64
  ct_value :: "int option"

type_synonym jumpdest_map = "hash \<rightharpoonup> bitvec"

text \<open>A \<open>ContractRef\<close>: an account or a running contract.\<close>

datatype contract_ref = AccountRef address | ContractRef contract

fun ref_Address :: "contract_ref \<Rightarrow> address" where
  "ref_Address (AccountRef a) = a"
| "ref_Address (ContractRef c) = ct_self c"

definition NewContract :: "contract_ref \<Rightarrow> address \<Rightarrow> int option \<Rightarrow> u64 \<Rightarrow> jumpdest_map \<Rightarrow> contract \<times> jumpdest_map" where
  "NewContract caller object value gas parent_dests =
     (\<lparr>CallerAddress = ref_Address caller, ct_self = object, analysis = None, Code = [], CodeHash = 0,
       CodeAddr = None, Input = [], Gas = gas, ct_value = value\<rparr>,
      case caller of AccountRef a \<Rightarrow> Map.empty | ContractRef p \<Rightarrow> parent_dests)"

text \<open>\<open>AsDelegate\<close> panics when the caller is not a contract.\<close>

definition AsDelegate :: "contract \<Rightarrow> contract_ref \<Rightarrow> contract option" where
  "AsDelegate c caller =
     (case caller of AccountRef a \<Rightarrow> None
      | ContractRef parent \<Rightarrow> Some (c\<lparr>CallerAddress := CallerAddress parent, ct_value := ct_value parent\<rparr>))"

definition GetOp :: "contract \<Rightarrow> u64 \<Rightarrow> byte" where
  "GetOp c n = (if unat n < length (Code c) then Code c ! unat n else 0)"

definition UseGas :: "contract \<Rightarrow> u64 \<Rightarrow> contract \<times> bool" where
  "UseGas c gas = (if Gas c < gas then (c, False) else (c\<lparr>Gas := Gas c - gas\<rparr>, True))"

definition SetCallCode :: "contract \<Rightarrow> address option \<Rightarrow> hash \<Rightarrow> bytes \<Rightarrow> contract" where
  "SetCallCode c addr h code = c\<lparr>Code := code, CodeHash := h, CodeAddr := addr\<rparr>"

definition SetCodeOptionalHash :: "contract \<Rightarrow> address option \<Rightarrow> bytes \<Rightarrow> hash \<Rightarrow> contract" where
  "SetCodeOptionalHash c addr code h = c\<lparr>Code := code, CodeHash := h, CodeAddr := addr\<rparr>"

abbreviation (input) JUMPDEST :: byte where "JUMPDEST \<equiv> 0x5b"

definition isCode :: "contract \<Rightarrow> jumpdest_map \<Rightarrow> nat \<Rightarrow> (bool \<times> contract \<times> jumpdest_map) option" where
  "isCode c dests udest =
     (case analysis c of
        Some a \<Rightarrow> do { b \<leftarrow> codeSegment a udest; Some (b, c, dests) }
      | None \<Rightarrow>
          if CodeHash c \<noteq> 0 then do {
            (a, dests) \<leftarrow> (case dests (CodeHash c) of
                 Some a \<Rightarrow> Some (a, dests)
               | None \<Rightarrow> do { a \<leftarrow> codeBitmap (Code c); Some (a, dests(CodeHash c \<mapsto> a)) });
            b \<leftarrow> codeSegment a udest;
            Some (b, c\<lparr>analysis := Some a\<rparr>, dests) }
          else do {
            a \<leftarrow> codeBitmap (Code c);
            b \<leftarrow> codeSegment a udest;
            Some (b, c\<lparr>analysis := Some a\<rparr>, dests) })"

definition validJumpdest :: "contract \<Rightarrow> jumpdest_map \<Rightarrow> u256 \<Rightarrow> (bool \<times> contract \<times> jumpdest_map) option" where
  "validJumpdest c dests dest =
     (if \<not> IsUint64 dest \<or> unat (Uint64 dest) \<ge> length (Code c) then Some (False, c, dests)
      else if Code c ! unat (Uint64 dest) \<noteq> JUMPDEST then Some (False, c, dests)
      else isCode c dests (unat (Uint64 dest)))"

section \<open>Contexts\<close>

record block_context =
  bc_CanTransfer :: "statedb \<Rightarrow> address \<Rightarrow> int \<Rightarrow> bool \<times> statedb"
  bc_Transfer :: "statedb \<Rightarrow> address \<Rightarrow> address \<Rightarrow> int \<Rightarrow> statedb"
  bc_GetHash :: "u64 \<Rightarrow> hash"
  bc_Coinbase :: address
  bc_GasLimit :: u64
  bc_BlockNumber :: int
  bc_Time :: u64
  bc_Difficulty :: int
  bc_BaseFee :: "int option"
  bc_BlobBaseFee :: "int option"
  bc_Random :: "hash option"

record tx_context =
  tc_Origin :: address
  tc_GasPrice :: int
  tc_BlobHashes :: "hash list"
  tc_BlobFeeCap :: "int option"

record vm_config =
  cfg_NoBaseFee :: bool
  cfg_EnablePreimageRecording :: bool
  cfg_ExtraEips :: "int list"

record scope =
  sc_pc :: u64
  Stack :: stack
  Memory :: memory
  Contract :: contract

text \<open>
  The tracer interface \<^verbatim>\<open>EVMLogger\<close>.  A tracer keeps a state \<open>'t\<close> and reads the state
  database through its getters, which may fill the database's caches, so its methods return both;
  \<^term>\<open>None\<close> is a panic.
\<close>

record 't logger =
  CaptureTxStart :: "'t \<Rightarrow> u64 \<Rightarrow> 't option"
  CaptureTxEnd :: "'t \<Rightarrow> u64 \<Rightarrow> 't option"
  CaptureStart :: "'t \<Rightarrow> statedb \<Rightarrow> address \<Rightarrow> address \<Rightarrow> bool \<Rightarrow> bytes \<Rightarrow> u64 \<Rightarrow> int \<Rightarrow> ('t \<times> statedb) option"
  CaptureEnd :: "'t \<Rightarrow> statedb \<Rightarrow> bytes \<Rightarrow> u64 \<Rightarrow> vm_error option \<Rightarrow> ('t \<times> statedb) option"
  CaptureEnter :: "'t \<Rightarrow> statedb \<Rightarrow> byte \<Rightarrow> address \<Rightarrow> address \<Rightarrow> bytes \<Rightarrow> u64 \<Rightarrow> int option \<Rightarrow> ('t \<times> statedb) option"
  CaptureExit :: "'t \<Rightarrow> statedb \<Rightarrow> bytes \<Rightarrow> u64 \<Rightarrow> vm_error option \<Rightarrow> ('t \<times> statedb) option"
  CaptureState :: "'t \<Rightarrow> statedb \<Rightarrow> u64 \<Rightarrow> byte \<Rightarrow> u64 \<Rightarrow> u64 \<Rightarrow> scope \<Rightarrow> bytes \<Rightarrow> int \<Rightarrow> vm_error option \<Rightarrow> ('t \<times> statedb) option"
  CaptureFault :: "'t \<Rightarrow> statedb \<Rightarrow> u64 \<Rightarrow> byte \<Rightarrow> u64 \<Rightarrow> u64 \<Rightarrow> scope \<Rightarrow> int \<Rightarrow> vm_error option \<Rightarrow> ('t \<times> statedb) option"

text \<open>What does not change while the EVM runs.\<close>

record 't env =
  Context :: block_context
  TxContext :: tx_context
  chainConfig :: chain_config
  chainRules :: rules
  Config :: vm_config
  TraceStateFlag :: bool
  Logger :: "'t logger"
  ext :: externals

text \<open>
  What changes: the state database, the depth, the flags and buffers of the interpreter, the shared
  jump-destination map and the tracer (nil without one).  \<open>aborted\<close> is set by \<open>Cancel\<close>
  before or between calls; a concurrent \<open>Cancel\<close> during a run is not modelled.
\<close>

record 't evm =
  StateDB_of :: statedb
  depth :: int
  callGasTemp :: u64
  aborted :: bool
  readOnly :: bool
  returnData :: bytes
  jumpdests :: jumpdest_map
  Tracer :: "'t option"

definition Cancel :: "'t evm \<Rightarrow> 't evm" where
  "Cancel e = e\<lparr>aborted := True\<rparr>"

definition Cancelled :: "'t evm \<Rightarrow> bool" where
  "Cancelled e = aborted e"

definition NewEVM :: "block_context \<Rightarrow> tx_context \<Rightarrow> statedb \<Rightarrow> chain_config \<Rightarrow> vm_config \<Rightarrow>
    't logger \<Rightarrow> 't option \<Rightarrow> externals \<Rightarrow> 't env \<times> 't evm" where
  "NewEVM blockCtx txCtx sdb config cfg lg tr ex =
     (let blockCtx = (if cfg_NoBaseFee cfg
            then let b = (if tc_GasPrice txCtx = 0 then blockCtx\<lparr>bc_BaseFee := Some 0\<rparr> else blockCtx)
                 in if tc_BlobFeeCap txCtx = Some 0 then b\<lparr>bc_BlobBaseFee := Some 0\<rparr> else b
            else blockCtx)
      in (\<lparr>Context = blockCtx, TxContext = txCtx, chainConfig = config,
            chainRules = Rules config (Some (bc_BlockNumber blockCtx)) (bc_Random blockCtx \<noteq> None) (bc_Time blockCtx),
            Config = cfg, TraceStateFlag = False, Logger = lg, ext = ex\<rparr>,
          \<lparr>StateDB_of = sdb, depth = 0, callGasTemp = 0, aborted = False, readOnly = False,
           returnData = [], jumpdests = Map.empty, Tracer = tr\<rparr>))"

section \<open>Precompiled contracts\<close>

definition PrecompiledContractsHomestead :: "address \<rightharpoonup> precompiled" where
  "PrecompiledContractsHomestead =
     [1 \<mapsto> ecrecover, 2 \<mapsto> sha256hash, 3 \<mapsto> ripemd160hash, 4 \<mapsto> dataCopy]"

definition PrecompiledContractsByzantium :: "address \<rightharpoonup> precompiled" where
  "PrecompiledContractsByzantium =
     [1 \<mapsto> ecrecover, 2 \<mapsto> sha256hash, 3 \<mapsto> ripemd160hash, 4 \<mapsto> dataCopy,
      5 \<mapsto> bigModExp False, 6 \<mapsto> bn256AddByzantium, 7 \<mapsto> bn256ScalarMulByzantium,
      8 \<mapsto> bn256PairingByzantium]"

definition PrecompiledContractsIstanbul :: "address \<rightharpoonup> precompiled" where
  "PrecompiledContractsIstanbul =
     [1 \<mapsto> ecrecover, 2 \<mapsto> sha256hash, 3 \<mapsto> ripemd160hash, 4 \<mapsto> dataCopy,
      5 \<mapsto> bigModExp False, 6 \<mapsto> bn256AddIstanbul, 7 \<mapsto> bn256ScalarMulIstanbul,
      8 \<mapsto> bn256PairingIstanbul, 9 \<mapsto> blake2F]"

definition PrecompiledContractsBerlin :: "address \<rightharpoonup> precompiled" where
  "PrecompiledContractsBerlin =
     [1 \<mapsto> ecrecover, 2 \<mapsto> sha256hash, 3 \<mapsto> ripemd160hash, 4 \<mapsto> dataCopy,
      5 \<mapsto> bigModExp True, 6 \<mapsto> bn256AddIstanbul, 7 \<mapsto> bn256ScalarMulIstanbul,
      8 \<mapsto> bn256PairingIstanbul, 9 \<mapsto> blake2F]"

definition PrecompiledContractsCancun :: "address \<rightharpoonup> precompiled" where
  "PrecompiledContractsCancun =
     [1 \<mapsto> ecrecover, 2 \<mapsto> sha256hash, 3 \<mapsto> ripemd160hash, 4 \<mapsto> dataCopy,
      5 \<mapsto> bigModExp True, 6 \<mapsto> bn256AddIstanbul, 7 \<mapsto> bn256ScalarMulIstanbul,
      8 \<mapsto> bn256PairingIstanbul, 9 \<mapsto> blake2F, 0x0a \<mapsto> kzgPointEvaluation]"

definition precompiles_of :: "rules \<Rightarrow> address \<rightharpoonup> precompiled" where
  "precompiles_of r =
     (if ruleCancun r then PrecompiledContractsCancun
      else if ruleBerlin r then PrecompiledContractsBerlin
      else if ruleIstanbul r then PrecompiledContractsIstanbul
      else if ruleByzantium r then PrecompiledContractsByzantium
      else PrecompiledContractsHomestead)"

definition precompile :: "'t env \<Rightarrow> address \<Rightarrow> precompiled option" where
  "precompile E a = precompiles_of (chainRules E) a"

text \<open>\<open>init\<close> collects the keys of each table; the order of the addresses is that of a Go map.\<close>

definition is_ActivePrecompiles :: "rules \<Rightarrow> address list \<Rightarrow> bool" where
  "is_ActivePrecompiles r addrs \<longleftrightarrow> set addrs = dom (precompiles_of r) \<and> distinct addrs"

definition RunPrecompiledContract ::
  "externals \<Rightarrow> precompiled \<Rightarrow> bytes \<Rightarrow> u64 \<Rightarrow> bytes \<times> u64 \<times> vm_error option" where
  "RunPrecompiledContract x p input suppliedGas =
     (let gasCost = pc_RequiredGas x p input
      in if suppliedGas < gasCost then ([], 0, Some ErrOutOfGas)
         else let (output, err) = pc_Run x p input in (output, suppliedGas - gasCost, err))"

section \<open>Addresses of new contracts (crypto.go)\<close>

text \<open>\<open>rlp.EncodeToBytes\<close> of an address and a nonce never fails.\<close>

definition CreateAddress :: "database \<Rightarrow> address \<Rightarrow> u64 \<Rightarrow> address option" where
  "CreateAddress d b nonce = do {
     r \<leftarrow> EncodeToBytes (RSlice [RArray (to_be 20 b), RUint nonce]);
     case r of Inl e \<Rightarrow> Some (ucast (keccak d [])) | Inr data \<Rightarrow> Some (ucast (keccak d data)) }"

definition CreateAddress2 :: "database \<Rightarrow> address \<Rightarrow> u256 \<Rightarrow> hash \<Rightarrow> address" where
  "CreateAddress2 d b salt inithash =
     ucast (keccak d ([0xff] @ to_be 20 b @ to_be 32 salt @ to_be 32 inithash))"

section \<open>The jump-destination cache\<close>

text \<open>
  The caches agree with the codes: \<open>codes\<close> says which code a hash stands for, as long as no two
  codes of the run share a hash.
\<close>

definition dests_ok :: "(hash \<Rightarrow> bytes) \<Rightarrow> jumpdest_map \<Rightarrow> bool" where
  "dests_ok codes dests \<longleftrightarrow> (\<forall>h a. dests h = Some a \<longrightarrow> codeBitmap (codes h) = Some a)"

definition contract_ok :: "(hash \<Rightarrow> bytes) \<Rightarrow> contract \<Rightarrow> bool" where
  "contract_ok codes c \<longleftrightarrow>
     (CodeHash c \<noteq> 0 \<longrightarrow> codes (CodeHash c) = Code c) \<and>
     (\<forall>a. analysis c = Some a \<longrightarrow> codeBitmap (Code c) = Some a)"

lemma isCode_correct:
  assumes "contract_ok codes c" "dests_ok codes dests" "p < length (Code c)"
  shows "\<exists>a dests'. isCode c dests p = Some (boundary (Code c) p, c\<lparr>analysis := a\<rparr>, dests') \<and>
     contract_ok codes (c\<lparr>analysis := a\<rparr>) \<and> dests_ok codes dests'"
proof -
  obtain bits where bits: "codeBitmap (Code c) = Some bits" "codeSegment bits p = Some (boundary (Code c) p)"
    using codeBitmap_code [of "Code c"] assms(3) by blast
  have same: "c\<lparr>analysis := analysis c\<rparr> = c" by simp
  show ?thesis
  proof (cases "analysis c")
    case (Some a)
    then have "a = bits" using assms(1) bits by (auto simp: contract_ok_def)
    with Some bits assms same show ?thesis
      by (intro exI [of _ "analysis c"] exI [of _ dests]) (simp add: isCode_def contract_ok_def)
  next
    case None
    have "dests (CodeHash c) = Some a \<Longrightarrow> CodeHash c \<noteq> 0 \<Longrightarrow> a = bits" for a
      using assms(1,2) bits(1) unfolding contract_ok_def dests_ok_def by (metis option.inject)
    with None bits assms(1,2) show ?thesis
      by (intro exI [of _ "Some bits"]
          exI [of _ "if CodeHash c = 0 \<or> dests (CodeHash c) \<noteq> None then dests else dests(CodeHash c \<mapsto> bits)"])
        (auto simp: isCode_def contract_ok_def dests_ok_def split: option.split)
  qed
qed

text \<open>
  C11: Whatever the caches hold, a jump is accepted exactly when its destination is inside the
  code, holds a JUMPDEST and starts an instruction; the check never panics, and it leaves both
  caches consistent and the rest of the contract alone.
\<close>

theorem validJumpdest_correct:
  assumes "contract_ok codes c" "dests_ok codes dests" "length (Code c) < 2 ^ 64"
  shows "\<exists>a dests'. validJumpdest c dests dest =
      Some (unat dest < length (Code c) \<and> Code c ! unat dest = JUMPDEST \<and> boundary (Code c) (unat dest),
            c\<lparr>analysis := a\<rparr>, dests') \<and>
    contract_ok codes (c\<lparr>analysis := a\<rparr>) \<and> dests_ok codes dests'"
proof -
  have u: "IsUint64 dest \<Longrightarrow> unat (Uint64 dest) = unat dest"
    by (simp add: IsUint64_def Uint64_def unsigned_ucast_eq take_bit_nat_eq_self)
  have big: "\<not> IsUint64 dest \<Longrightarrow> \<not> unat dest < length (Code c)"
    using assms(3) by (simp add: IsUint64_def)
  show ?thesis
  proof (cases "IsUint64 dest \<and> unat dest < length (Code c) \<and> Code c ! unat dest = JUMPDEST")
    case True
    with isCode_correct [OF assms(1,2), of "unat dest"] show ?thesis
      by (simp add: validJumpdest_def u)
  next
    case False
    then have "validJumpdest c dests dest = Some (False, c\<lparr>analysis := analysis c\<rparr>, dests)"
      by (auto simp: validJumpdest_def u)
    with False big assms show ?thesis by (intro exI [of _ "analysis c"] exI [of _ dests]) auto
  qed
qed

theorem validJumpdest_correct_witness:
  "\<exists>a dests'. validJumpdest
      \<lparr>CallerAddress = 1, ct_self = 2, analysis = None, Code = [0x60, 0x5b, 0x5b], CodeHash = 7,
       CodeAddr = None, Input = [], Gas = 100, ct_value = Some 0\<rparr> Map.empty 2 =
    Some (2 < (3::nat) \<and> boundary [0x60, 0x5b, 0x5b] 2,
      \<lparr>CallerAddress = 1, ct_self = 2, analysis = a, Code = [0x60, 0x5b, 0x5b], CodeHash = 7,
       CodeAddr = None, Input = [], Gas = 100, ct_value = Some 0\<rparr>, dests')"
  using validJumpdest_correct [of "\<lambda>_. [0x60, 0x5b, 0x5b]"
      "\<lparr>CallerAddress = 1, ct_self = 2, analysis = None, Code = [0x60, 0x5b, 0x5b], CodeHash = 7,
       CodeAddr = None, Input = [], Gas = 100, ct_value = Some 0\<rparr>" Map.empty 2]
  by (auto simp: contract_ok_def dests_ok_def)

end
