(* ===== verification/Gas.thy ===== *)
theory Gas
  imports Evm
begin

text \<open>
  \<^verbatim>\<open>core/vm/gas_table.go\<close> and \<^verbatim>\<open>operations_acl.go\<close>: the dynamic gas of the
  instructions.  A gas function sees the EVM, the contract, the stack and the memory, may change the
  first, the second and the memory's fee record, and returns the gas or an error.
\<close>

section \<open>Results\<close>

type_synonym gas_result = "vm_error + u64"

definition and_then :: "vm_error + 'a \<Rightarrow> ('a \<Rightarrow> vm_error + 'b) \<Rightarrow> vm_error + 'b" where
  "and_then r f = (case r of Inl e \<Rightarrow> Inl e | Inr x \<Rightarrow> f x)"

lemma and_then_simps [simp]: "and_then (Inl e) f = Inl e" "and_then (Inr x) f = f x"
  by (simp_all add: and_then_def)

lemma and_then_Inr [simp]: "and_then r f = Inr y \<longleftrightarrow> (\<exists>x. r = Inr x \<and> f x = Inr y)"
  by (cases r) auto

text \<open>The result of a checked operation; an overflow is \<open>ErrGasUintOverflow\<close>.\<close>

definition checked :: "u64 \<times> bool \<Rightarrow> gas_result" where
  "checked r = (if snd r then Inl ErrGasUintOverflow else Inr (fst r))"

definition Uint64WithOverflow :: "u256 \<Rightarrow> gas_result" where
  "Uint64WithOverflow w = (if IsUint64 w then Inr (Uint64 w) else Inl ErrGasUintOverflow)"

type_synonym 't gas_state = "'t evm \<times> contract \<times> memory"

type_synonym 't gas_func = "'t env \<Rightarrow> stack \<Rightarrow> u64 \<Rightarrow> 't gas_state \<Rightarrow> ('t gas_state \<times> gas_result) option"

section \<open>Memory\<close>

definition memoryGasCost :: "memory \<Rightarrow> u64 \<Rightarrow> memory \<times> gas_result" where
  "memoryGasCost mem newMemSize =
     (if newMemSize = 0 then (mem, Inr 0)
      else if newMemSize > 0x1FFFFFFFE0 then (mem, Inl ErrGasUintOverflow)
      else let newMemSizeWords = toWordSize newMemSize;
               newMemSize = newMemSizeWords * 32
           in if newMemSize > of_nat (mem_Len mem)
              then let square = newMemSizeWords * newMemSizeWords;
                       linCoef = newMemSizeWords * MemoryGas;
                       quadCoef = square div QuadCoeffDiv;
                       newTotalFee = linCoef + quadCoef;
                       fee = newTotalFee - lastGasCost mem
                   in (mem\<lparr>lastGasCost := newTotalFee\<rparr>, Inr fee)
              else (mem, Inr 0))"

text \<open>A gas function that starts with the memory fee and then only computes.\<close>

definition after_memory ::
  "(stack \<Rightarrow> u64 \<Rightarrow> gas_result option) \<Rightarrow> 't gas_func" where
  "after_memory k E st sz s =
     (case s of (e, c, mem) \<Rightarrow>
        (case memoryGasCost mem sz of
           (mem, Inl err) \<Rightarrow> Some ((e, c, mem), Inl err)
         | (mem, Inr gas) \<Rightarrow> do { r \<leftarrow> k st gas; Some ((e, c, mem), r) }))"

text \<open>Charge \<open>per\<close> for every word of the length at \<open>pos\<close>.\<close>

definition word_gas :: "nat \<Rightarrow> u64 \<Rightarrow> stack \<Rightarrow> u64 \<Rightarrow> gas_result option" where
  "word_gas pos per st gas = do {
     len \<leftarrow> st_Back st pos;
     Some (and_then (Uint64WithOverflow len) (\<lambda>words.
           and_then (checked (SafeMul (toWordSize words) per)) (\<lambda>words.
           checked (SafeAdd gas words)))) }"

definition memoryCopierGas :: "nat \<Rightarrow> 't gas_func" where
  "memoryCopierGas stackpos = after_memory (word_gas stackpos CopyGas)"

abbreviation (input) gasCallDataCopy :: "'t gas_func" where "gasCallDataCopy \<equiv> memoryCopierGas 2"
abbreviation (input) gasCodeCopy :: "'t gas_func" where "gasCodeCopy \<equiv> memoryCopierGas 2"
abbreviation (input) gasMcopy :: "'t gas_func" where "gasMcopy \<equiv> memoryCopierGas 2"
abbreviation (input) gasExtCodeCopy :: "'t gas_func" where "gasExtCodeCopy \<equiv> memoryCopierGas 3"
abbreviation (input) gasReturnDataCopy :: "'t gas_func" where "gasReturnDataCopy \<equiv> memoryCopierGas 2"

definition pureMemoryGascost :: "'t gas_func" where
  "pureMemoryGascost = after_memory (\<lambda>st gas. Some (Inr gas))"

abbreviation (input) gasReturn :: "'t gas_func" where "gasReturn \<equiv> pureMemoryGascost"
abbreviation (input) gasRevert :: "'t gas_func" where "gasRevert \<equiv> pureMemoryGascost"
abbreviation (input) gasMLoad :: "'t gas_func" where "gasMLoad \<equiv> pureMemoryGascost"
abbreviation (input) gasMStore8 :: "'t gas_func" where "gasMStore8 \<equiv> pureMemoryGascost"
abbreviation (input) gasMStore :: "'t gas_func" where "gasMStore \<equiv> pureMemoryGascost"
abbreviation (input) gasCreate :: "'t gas_func" where "gasCreate \<equiv> pureMemoryGascost"

definition gasKeccak256 :: "'t gas_func" where
  "gasKeccak256 = after_memory (word_gas 1 Keccak256WordGas)"

definition gasCreate2 :: "'t gas_func" where
  "gasCreate2 = after_memory (word_gas 2 Keccak256WordGas)"

definition init_code_gas :: "u64 \<Rightarrow> stack \<Rightarrow> u64 \<Rightarrow> gas_result option" where
  "init_code_gas per st gas = do {
     len \<leftarrow> st_Back st 2;
     Some (if \<not> IsUint64 len \<or> Uint64 len > of_nat MaxInitCodeSize then Inl ErrGasUintOverflow
           else checked (SafeAdd gas (per * ((Uint64 len + 31) div 32)))) }"

definition gasCreateEip3860 :: "'t gas_func" where
  "gasCreateEip3860 = after_memory (init_code_gas InitCodeWordGas)"

definition gasCreate2Eip3860 :: "'t gas_func" where
  "gasCreate2Eip3860 = after_memory (init_code_gas (InitCodeWordGas + Keccak256WordGas))"

definition makeGasLog :: "u64 \<Rightarrow> 't gas_func" where
  "makeGasLog n E st sz s = do {
     len \<leftarrow> st_Back st 1;
     if \<not> IsUint64 len then Some (s, Inl ErrGasUintOverflow)
     else after_memory (\<lambda>st gas. Some (
            and_then (checked (SafeAdd gas LogGas)) (\<lambda>gas.
            and_then (checked (SafeAdd gas (n * LogTopicGas))) (\<lambda>gas.
            and_then (checked (SafeMul (Uint64 len) LogDataGas)) (\<lambda>memorySizeGas.
            checked (SafeAdd gas memorySizeGas)))))) E st sz s }"

section \<open>Exponentiation\<close>

definition exp_gas :: "u64 \<Rightarrow> 't gas_func" where
  "exp_gas per E st sz s = do {
     x \<leftarrow> st_Back st 1;
     let expByteLen = of_nat ((BitLen (unat x) + 7) div 8);
     Some (s, checked (SafeAdd (expByteLen * per) ExpGas)) }"

definition gasExpFrontier :: "'t gas_func" where "gasExpFrontier = exp_gas ExpByteFrontier"
definition gasExpEIP158 :: "'t gas_func" where "gasExpEIP158 = exp_gas ExpByteEIP158"

section \<open>Storage\<close>

definition upd_db :: "'t evm \<Rightarrow> statedb \<Rightarrow> 't evm" where
  "upd_db e d = e\<lparr>StateDB_of := d\<rparr>"

text \<open>
  The original value of a slot: the committed storage of the database, or in RPC mode what the
  tracer committed; \<open>AccountState()\<close> is nil when tracing without an account state.
\<close>

definition original_value :: "'t env \<Rightarrow> statedb \<Rightarrow> address \<Rightarrow> hash \<Rightarrow> (hash \<times> statedb) option" where
  "original_value E d a x =
     (if TraceStateFlag E
      then do {
        st \<leftarrow> accountState d;
        Some (if IsRequirePRC st then (GetCommittedStorage st a x, d) else GetCommittedState d a x) }
      else Some (GetCommittedState d a x))"

text \<open>
  The net-metered rule of EIP-1283, shared in shape by EIP-2200 and EIP-2929: \<open>clear\<close>,
  \<open>reset_zero\<close> and \<open>reset\<close> are the refunds of the dirty branch, \<open>init_cost\<close>, \<open>clean_cost\<close> and
  \<open>dirty_cost\<close> the costs.  The result is the cost and the database with its refund counter moved.
\<close>

definition net_sstore ::
  "'t env \<Rightarrow> statedb \<Rightarrow> address \<Rightarrow> hash \<Rightarrow> hash \<Rightarrow> hash \<Rightarrow>
   u64 \<Rightarrow> u64 \<Rightarrow> u64 \<Rightarrow> u64 \<Rightarrow> u64 \<Rightarrow> u64 \<Rightarrow> (statedb \<times> u64) option" where
  "net_sstore E d a x current v init_cost clean_cost dirty_cost clear reset_zero reset = do {
     (original, d) \<leftarrow> original_value E d a x;
     if original = current then
       (if original = 0 then Some (d, init_cost)
        else Some (if v = 0 then AddRefund d clear else d, clean_cost))
     else do {
       d \<leftarrow> (if original \<noteq> 0
             then (if current = 0 then SubRefund d clear
                   else Some (if v = 0 then AddRefund d clear else d))
             else Some d);
       let d = (if original = v then (if original = 0 then AddRefund d reset_zero else AddRefund d reset) else d);
       Some (d, dirty_cost) } }"

definition gasSStore :: "'t gas_func" where
  "gasSStore E st sz s = (case s of (e, c, mem) \<Rightarrow> do {
     y \<leftarrow> st_Back st 1;
     x \<leftarrow> st_Back st 0;
     let (current, d) = GetState (StateDB_of e) (ct_self c) x;
     if rulePetersburg (chainRules E) \<or> \<not> ruleConstantinople (chainRules E) then
       (if current = 0 \<and> y \<noteq> 0 then Some ((upd_db e d, c, mem), Inr SstoreSetGas)
        else if current \<noteq> 0 \<and> y = 0
        then Some ((upd_db e (AddRefund d SstoreRefundGas), c, mem), Inr SstoreClearGas)
        else Some ((upd_db e d, c, mem), Inr SstoreResetGas))
     else if current = y then Some ((upd_db e d, c, mem), Inr NetSstoreNoopGas)
     else do {
       (d, gas) \<leftarrow> net_sstore E d (ct_self c) x current y NetSstoreInitGas NetSstoreCleanGas
          NetSstoreDirtyGas NetSstoreClearRefund NetSstoreResetClearRefund NetSstoreResetRefund;
       Some ((upd_db e d, c, mem), Inr gas) } })"

definition gasSStoreEIP2200 :: "'t gas_func" where
  "gasSStoreEIP2200 E st sz s = (case s of (e, c, mem) \<Rightarrow>
     if Gas c \<le> SstoreSentryGasEIP2200 then Some (s, Inl ErrNotEnoughGas)
     else do {
       y \<leftarrow> st_Back st 1;
       x \<leftarrow> st_Back st 0;
       let (current, d) = GetState (StateDB_of e) (ct_self c) x;
       if current = y then Some ((upd_db e d, c, mem), Inr SloadGasEIP2200)
       else do {
         (d, gas) \<leftarrow> net_sstore E d (ct_self c) x current y SstoreSetGasEIP2200 SstoreResetGasEIP2200
            SloadGasEIP2200 SstoreClearsScheduleRefundEIP2200
            (SstoreSetGasEIP2200 - SloadGasEIP2200) (SstoreResetGasEIP2200 - SloadGasEIP2200);
         Some ((upd_db e d, c, mem), Inr gas) } })"

text \<open>\<open>makeGasSStoreFunc\<close>: EIP-2929; a cold slot of an address that is not warm is the panic.\<close>

definition makeGasSStoreFunc :: "u64 \<Rightarrow> 't gas_func" where
  "makeGasSStoreFunc clearingRefund E st sz s = (case s of (e, c, mem) \<Rightarrow>
     if Gas c \<le> SstoreSentryGasEIP2200 then Some (s, Inl ErrNotEnoughGas)
     else do {
       y \<leftarrow> st_Back st 1;
       slot \<leftarrow> st_peek st;
       let (current, d) = GetState (StateDB_of e) (ct_self c) slot;
       (addrPresent, slotPresent) \<leftarrow> SlotInAccessList d (ct_self c) slot;
       (d, cost) \<leftarrow> (if \<not> slotPresent
          then do {
            d \<leftarrow> AddSlotToAccessList d (ct_self c) slot;
            require addrPresent;
            Some (d, ColdSloadCostEIP2929) }
          else Some (d, 0));
       if current = y then Some ((upd_db e d, c, mem), Inr (cost + WarmStorageReadCostEIP2929))
       else do {
         (d, gas) \<leftarrow> net_sstore E d (ct_self c) slot current y SstoreSetGasEIP2200
            (SstoreResetGasEIP2200 - ColdSloadCostEIP2929) WarmStorageReadCostEIP2929 clearingRefund
            (SstoreSetGasEIP2200 - WarmStorageReadCostEIP2929)
            ((SstoreResetGasEIP2200 - ColdSloadCostEIP2929) - WarmStorageReadCostEIP2929);
         Some ((upd_db e d, c, mem), Inr (cost + gas)) } })"

abbreviation (input) gasSStoreEIP2929 :: "'t gas_func" where
  "gasSStoreEIP2929 \<equiv> makeGasSStoreFunc SstoreClearsScheduleRefundEIP2200"
abbreviation (input) gasSStoreEIP3529 :: "'t gas_func" where
  "gasSStoreEIP3529 \<equiv> makeGasSStoreFunc SstoreClearsScheduleRefundEIP3529"

definition gasSLoadEIP2929 :: "'t gas_func" where
  "gasSLoadEIP2929 E st sz s = (case s of (e, c, mem) \<Rightarrow> do {
     slot \<leftarrow> st_peek st;
     (_, slotPresent) \<leftarrow> SlotInAccessList (StateDB_of e) (ct_self c) slot;
     if \<not> slotPresent
     then do {
       d \<leftarrow> AddSlotToAccessList (StateDB_of e) (ct_self c) slot;
       Some ((upd_db e d, c, mem), Inr ColdSloadCostEIP2929) }
     else Some (s, Inr WarmStorageReadCostEIP2929) })"

section \<open>Account access (EIP-2929)\<close>

abbreviation (input) addr_of :: "u256 \<Rightarrow> address" where "addr_of w \<equiv> ucast w"

definition gasExtCodeCopyEIP2929 :: "'t gas_func" where
  "gasExtCodeCopyEIP2929 E st sz s = do {
     ((e, c, mem), r) \<leftarrow> gasExtCodeCopy E st sz s;
     case r of
       Inl err \<Rightarrow> Some ((e, c, mem), Inl err)
     | Inr gas \<Rightarrow> do {
         w \<leftarrow> st_peek st;
         if \<not> AddressInAccessList (StateDB_of e) (addr_of w)
         then Some ((upd_db e (AddAddressToAccessList (StateDB_of e) (addr_of w)), c, mem),
                    checked (SafeAdd gas (ColdAccountAccessCostEIP2929 - WarmStorageReadCostEIP2929)))
         else Some ((e, c, mem), Inr gas) } }"

definition gasEip2929AccountCheck :: "'t gas_func" where
  "gasEip2929AccountCheck E st sz s = (case s of (e, c, mem) \<Rightarrow> do {
     w \<leftarrow> st_peek st;
     if \<not> AddressInAccessList (StateDB_of e) (addr_of w)
     then Some ((upd_db e (AddAddressToAccessList (StateDB_of e) (addr_of w)), c, mem),
                Inr (ColdAccountAccessCostEIP2929 - WarmStorageReadCostEIP2929))
     else Some (s, Inr 0) })"

section \<open>Calls\<close>

text \<open>The end of every call's gas: the 63/64 rule and the sum with what is charged already.\<close>

definition call_gas_rest ::
  "'t env \<Rightarrow> stack \<Rightarrow> u64 \<Rightarrow> 't gas_state \<Rightarrow> ('t gas_state \<times> gas_result) option" where
  "call_gas_rest E st gas s = (case s of (e, c, mem) \<Rightarrow> do {
     w \<leftarrow> st_Back st 0;
     case callGas (ruleEIP150 (chainRules E)) (Gas c) gas w of
       Inl err \<Rightarrow> Some ((e\<lparr>callGasTemp := 0\<rparr>, c, mem), Inl err)
     | Inr temp \<Rightarrow> Some ((e\<lparr>callGasTemp := temp\<rparr>, c, mem), checked (SafeAdd gas temp)) })"

definition gasCall :: "'t gas_func" where
  "gasCall E st sz s = (case s of (e, c, mem) \<Rightarrow> do {
     v \<leftarrow> st_Back st 2;
     w \<leftarrow> st_Back st 1;
     let transfersValue = (v \<noteq> 0);
     let (newAcct, d) =
       (if ruleEIP158 (chainRules E)
        then (if transfersValue then Empty (StateDB_of e) (addr_of w) else (False, StateDB_of e))
        else (let (b, d) = Exist (StateDB_of e) (addr_of w) in (\<not> b, d)));
     let gas = (if newAcct then CallNewAccountGas else 0) + (if transfersValue then CallValueTransferGas else 0);
     let e = upd_db e d;
     case memoryGasCost mem sz of
       (mem, Inl err) \<Rightarrow> Some ((e, c, mem), Inl err)
     | (mem, Inr memoryGas) \<Rightarrow>
         (case checked (SafeAdd gas memoryGas) of
            Inl err \<Rightarrow> Some ((e, c, mem), Inl err)
          | Inr gas \<Rightarrow> call_gas_rest E st gas (e, c, mem)) })"

definition gasCallCode :: "'t gas_func" where
  "gasCallCode E st sz s = (case s of (e, c, mem) \<Rightarrow>
     (case memoryGasCost mem sz of
        (mem, Inl err) \<Rightarrow> Some ((e, c, mem), Inl err)
      | (mem, Inr memoryGas) \<Rightarrow> do {
          v \<leftarrow> st_Back st 2;
          case checked (SafeAdd (if v \<noteq> 0 then CallValueTransferGas else 0) memoryGas) of
            Inl err \<Rightarrow> Some ((e, c, mem), Inl err)
          | Inr gas \<Rightarrow> call_gas_rest E st gas (e, c, mem) }))"

definition gasDelegateCall :: "'t gas_func" where
  "gasDelegateCall E st sz s = (case s of (e, c, mem) \<Rightarrow>
     (case memoryGasCost mem sz of
        (mem, Inl err) \<Rightarrow> Some ((e, c, mem), Inl err)
      | (mem, Inr gas) \<Rightarrow> call_gas_rest E st gas (e, c, mem)))"

definition gasStaticCall :: "'t gas_func" where
  "gasStaticCall E st sz s = (case s of (e, c, mem) \<Rightarrow>
     (case memoryGasCost mem sz of
        (mem, Inl err) \<Rightarrow> Some ((e, c, mem), Inl err)
      | (mem, Inr gas) \<Rightarrow> call_gas_rest E st gas (e, c, mem)))"

definition makeCallVariantGasCallEIP2929 :: "'t gas_func \<Rightarrow> 't gas_func" where
  "makeCallVariantGasCallEIP2929 oldCalculator E st sz s = (case s of (e, c, mem) \<Rightarrow> do {
     w \<leftarrow> st_Back st 1;
     let warmAccess = AddressInAccessList (StateDB_of e) (addr_of w);
     let coldCost = ColdAccountAccessCostEIP2929 - WarmStorageReadCostEIP2929;
     let e = (if \<not> warmAccess then upd_db e (AddAddressToAccessList (StateDB_of e) (addr_of w)) else e);
     let (c, ok) = (if \<not> warmAccess then UseGas c coldCost else (c, True));
     if \<not> ok then Some ((e, c, mem), Inl ErrOutOfGas)
     else do {
       ((e, c, mem), r) \<leftarrow> oldCalculator E st sz (e, c, mem);
       case r of
         Inl err \<Rightarrow> Some ((e, c, mem), Inl err)
       | Inr gas \<Rightarrow>
           if warmAccess then Some ((e, c, mem), Inr gas)
           else Some ((e, c\<lparr>Gas := Gas c + coldCost\<rparr>, mem), Inr (gas + coldCost)) } })"

abbreviation (input) gasCallEIP2929 :: "'t gas_func" where
  "gasCallEIP2929 \<equiv> makeCallVariantGasCallEIP2929 gasCall"
abbreviation (input) gasDelegateCallEIP2929 :: "'t gas_func" where
  "gasDelegateCallEIP2929 \<equiv> makeCallVariantGasCallEIP2929 gasDelegateCall"
abbreviation (input) gasStaticCallEIP2929 :: "'t gas_func" where
  "gasStaticCallEIP2929 \<equiv> makeCallVariantGasCallEIP2929 gasStaticCall"
abbreviation (input) gasCallCodeEIP2929 :: "'t gas_func" where
  "gasCallCodeEIP2929 \<equiv> makeCallVariantGasCallEIP2929 gasCallCode"

section \<open>Self-destruction\<close>

text \<open>Go evaluates \<open>&&\<close> left to right: the balance is read only when the account is empty.\<close>

definition empty_and_funded :: "statedb \<Rightarrow> address \<Rightarrow> address \<Rightarrow> bool \<times> statedb" where
  "empty_and_funded d a self =
     (let (em, d) = Empty d a
      in if em then let (b, d) = GetBalance d self in (b \<noteq> 0, d) else (False, d))"

definition gasSelfdestruct :: "'t gas_func" where
  "gasSelfdestruct E st sz s = (case s of (e, c, mem) \<Rightarrow> do {
     let d = StateDB_of e;
     (gas, d) \<leftarrow> (if ruleEIP150 (chainRules E)
        then do {
          w \<leftarrow> st_Back st 0;
          let (new, d) = (if ruleEIP158 (chainRules E) then empty_and_funded d (addr_of w) (ct_self c)
                          else let (b, d) = Exist d (addr_of w) in (\<not> b, d));
          Some (SelfdestructGasEIP150 + (if new then CreateBySelfdestructGas else 0), d) }
        else Some (0, d));
     let (gone, d) = HasSelfDestructed d (ct_self c);
     let d = (if \<not> gone then AddRefund d SelfdestructRefundGas else d);
     Some ((upd_db e d, c, mem), Inr gas) })"

definition makeSelfdestructGasFn :: "bool \<Rightarrow> 't gas_func" where
  "makeSelfdestructGasFn refundsEnabled E st sz s = (case s of (e, c, mem) \<Rightarrow> do {
     w \<leftarrow> st_peek st;
     let d = StateDB_of e;
     let cold = \<not> AddressInAccessList d (addr_of w);
     let d = (if cold then AddAddressToAccessList d (addr_of w) else d);
     let gas = (if cold then ColdAccountAccessCostEIP2929 else 0);
     let (new, d) = empty_and_funded d (addr_of w) (ct_self c);
     let gas = gas + (if new then CreateBySelfdestructGas else 0);
     let (gone, d) = (if refundsEnabled then HasSelfDestructed d (ct_self c) else (True, d));
     let d = (if refundsEnabled \<and> \<not> gone then AddRefund d SelfdestructRefundGas else d);
     Some ((upd_db e d, c, mem), Inr gas) })"

abbreviation (input) gasSelfdestructEIP2929 :: "'t gas_func" where
  "gasSelfdestructEIP2929 \<equiv> makeSelfdestructGasFn True"
abbreviation (input) gasSelfdestructEIP3529 :: "'t gas_func" where
  "gasSelfdestructEIP3529 \<equiv> makeSelfdestructGasFn False"

end
