(* ===== verification/Headers.thy ===== *)
theory Headers
  imports Params Complex_Main
begin

text \<open>
  Block headers and what consensus computes from one header to the next: the gas-limit bound
  (\<^verbatim>\<open>consensus/misc/gaslimit.go\<close>), the base fee (\<^verbatim>\<open>consensus/misc/eip1559/eip1559.go\<close>)
  and the blob gas and blob fee (\<^verbatim>\<open>consensus/misc/eip4844/eip4844.go\<close>).  The number and the
  difficulty of a header are never nil (the decoder requires them); the optional fields are options.
\<close>

section \<open>Headers (core/types/block.go)\<close>

record header =
  h_ParentHash :: hash
  h_UncleHash :: hash
  h_Coinbase :: address
  h_Root :: hash
  h_TxHash :: hash
  h_ReceiptHash :: hash
  h_Bloom :: bytes
  h_Difficulty :: int
  h_Number :: int
  h_GasLimit :: u64
  h_GasUsed :: u64
  h_Time :: u64
  h_Extra :: bytes
  h_MixDigest :: hash
  h_Nonce :: u64
  h_BaseFee :: "int option"
  h_WithdrawalsHash :: "hash option"
  h_BlobGasUsed :: "u64 option"
  h_ExcessBlobGas :: "u64 option"
  h_ParentBeaconRoot :: "hash option"

text \<open>The errors of the header checks, with the values their messages print.\<close>

datatype header_error =
    InvalidGasLimit u64 u64 u64
  | GasLimitBelowMinimum
  | MissingBaseFee
  | InvalidBaseFee int int
  | MissingExcessBlobGas
  | MissingBlobGasUsed
  | BlobGasAboveMaximum u64
  | BlobGasNotMultiple u64
  | InvalidExcessBlobGas u64 u64 u64 u64

section \<open>The gas limit\<close>

abbreviation (input) GasLimitBoundDivisor :: u64 where "GasLimitBoundDivisor \<equiv> 1024"
abbreviation (input) MinGasLimit :: u64 where "MinGasLimit \<equiv> 5000"
abbreviation (input) MaxGasLimit :: u64 where "MaxGasLimit \<equiv> 0x7fffffffffffffff"

text \<open>The difference is taken in \<^verbatim>\<open>int64\<close>, where it wraps around.\<close>

definition VerifyGaslimit :: "u64 \<Rightarrow> u64 \<Rightarrow> header_error option" where
  "VerifyGaslimit parentGasLimit headerGasLimit =
     (let diff = parentGasLimit - headerGasLimit;
          diff = (if sint diff < 0 then - diff else diff);
          limit = parentGasLimit div GasLimitBoundDivisor
      in if diff \<ge> limit then Some (InvalidGasLimit headerGasLimit parentGasLimit (limit - 1))
         else if headerGasLimit < MinGasLimit then Some GasLimitBelowMinimum
         else None)"

section \<open>Division of big integers\<close>

text \<open>\<open>big.Int.Div\<close>: Euclidean division, which panics on a zero divisor.\<close>

definition big_Div :: "int \<Rightarrow> int \<Rightarrow> int option" where
  "big_Div x y = (if y = 0 then None else Some (if y > 0 then x div y else - (x div (- y))))"

lemma big_Div_pos [simp]: "y > 0 \<Longrightarrow> big_Div x y = Some (x div y)"
  by (simp add: big_Div_def)

section \<open>The base fee\<close>

abbreviation (input) DefaultBaseFeeChangeDenominator :: u64 where "DefaultBaseFeeChangeDenominator \<equiv> 8"
abbreviation (input) DefaultElasticityMultiplier :: u64 where "DefaultElasticityMultiplier \<equiv> 2"
abbreviation (input) InitialBaseFee :: u64 where "InitialBaseFee \<equiv> 1000000000"

definition BaseFeeChangeDenominator :: "chain_config \<Rightarrow> u64" where
  "BaseFeeChangeDenominator c = DefaultBaseFeeChangeDenominator"

definition ElasticityMultiplier :: "chain_config \<Rightarrow> u64" where
  "ElasticityMultiplier c = DefaultElasticityMultiplier"

text \<open>The share of the parent's base fee by which the fee moves.\<close>

definition fee_share :: "chain_config \<Rightarrow> u64 \<Rightarrow> int \<Rightarrow> u64 \<Rightarrow> int option" where
  "fee_share c gasDelta parentFee target = do {
     num \<leftarrow> big_Div (uint gasDelta * parentFee) (uint target);
     big_Div num (uint (BaseFeeChangeDenominator c)) }"

definition CalcBaseFee :: "chain_config \<Rightarrow> header \<Rightarrow> int option" where
  "CalcBaseFee c parent =
     (if \<not> IsLondon c (Some (h_Number parent)) then Some (uint InitialBaseFee)
      else let parentGasTarget = h_GasLimit parent div ElasticityMultiplier c
      in if h_GasUsed parent = parentGasTarget then h_BaseFee parent
      else if h_GasUsed parent > parentGasTarget then do {
        fee \<leftarrow> h_BaseFee parent;
        num \<leftarrow> fee_share c (h_GasUsed parent - parentGasTarget) fee parentGasTarget;
        Some (fee + max num 1) }
      else do {
        fee \<leftarrow> h_BaseFee parent;
        num \<leftarrow> fee_share c (parentGasTarget - h_GasUsed parent) fee parentGasTarget;
        Some (max (fee - num) 0) })"

definition VerifyEIP1559Header :: "chain_config \<Rightarrow> header \<Rightarrow> header \<Rightarrow> header_error option option" where
  "VerifyEIP1559Header c parent h =
     (let parentGasLimit = (if \<not> IsLondon c (Some (h_Number parent))
            then h_GasLimit parent * ElasticityMultiplier c else h_GasLimit parent)
      in case VerifyGaslimit parentGasLimit (h_GasLimit h) of
           Some err \<Rightarrow> Some (Some err)
         | None \<Rightarrow> (case h_BaseFee h of
             None \<Rightarrow> Some (Some MissingBaseFee)
           | Some fee \<Rightarrow> do {
               expected \<leftarrow> CalcBaseFee c parent;
               Some (if fee \<noteq> expected then Some (InvalidBaseFee fee expected) else None) }))"

section \<open>Blob gas\<close>

abbreviation (input) BlobTxMinBlobGasprice :: int where "BlobTxMinBlobGasprice \<equiv> 1"
abbreviation (input) BlobTxBlobGaspriceUpdateFraction :: int where "BlobTxBlobGaspriceUpdateFraction \<equiv> 3338477"
abbreviation (input) BlobTxTargetBlobGasPerBlock :: u64 where
  "BlobTxTargetBlobGasPerBlock \<equiv> 3 * BlobTxBlobGasPerBlob"
abbreviation (input) MaxBlobGasPerBlock :: u64 where "MaxBlobGasPerBlock \<equiv> 6 * BlobTxBlobGasPerBlob"

definition CalcExcessBlobGas :: "u64 \<Rightarrow> u64 \<Rightarrow> u64" where
  "CalcExcessBlobGas parentExcessBlobGas parentBlobGasUsed =
     (let excessBlobGas = parentExcessBlobGas + parentBlobGasUsed
      in if excessBlobGas < BlobTxTargetBlobGasPerBlock then 0
         else excessBlobGas - BlobTxTargetBlobGasPerBlock)"

text \<open>
  The Taylor expansion.  \<^term>\<open>None\<close> is a division by zero or a loop that does not end;
  the loop counter is taken unbounded.
\<close>

partial_function (option) fakeExp_loop :: "int \<Rightarrow> int \<Rightarrow> int \<Rightarrow> int \<Rightarrow> int \<Rightarrow> int option" where
  "fakeExp_loop numerator denominator i accum output =
     (if accum > 0 then do {
        a \<leftarrow> big_Div (accum * numerator) denominator;
        a \<leftarrow> big_Div a i;
        fakeExp_loop numerator denominator (i + 1) a (output + accum) }
      else Some output)"

definition fakeExponential :: "int \<Rightarrow> int \<Rightarrow> int \<Rightarrow> int option" where
  "fakeExponential factor numerator denominator = do {
     output \<leftarrow> fakeExp_loop numerator denominator 1 (factor * denominator) 0;
     big_Div output denominator }"

definition CalcBlobFee :: "u64 \<Rightarrow> int option" where
  "CalcBlobFee excessBlobGas =
     fakeExponential BlobTxMinBlobGasprice (uint excessBlobGas) BlobTxBlobGaspriceUpdateFraction"

definition VerifyEIP4844Header :: "header \<Rightarrow> header \<Rightarrow> header_error option option" where
  "VerifyEIP4844Header parent h =
     (case h_ExcessBlobGas h of
        None \<Rightarrow> Some (Some MissingExcessBlobGas)
      | Some excess \<Rightarrow> (case h_BlobGasUsed h of
          None \<Rightarrow> Some (Some MissingBlobGasUsed)
        | Some used \<Rightarrow>
            if used > MaxBlobGasPerBlock then Some (Some (BlobGasAboveMaximum used))
            else if used mod BlobTxBlobGasPerBlob \<noteq> 0 then Some (Some (BlobGasNotMultiple used))
            else do {
              (parentExcess, parentUsed) \<leftarrow> (case h_ExcessBlobGas parent of
                   None \<Rightarrow> Some (0, 0)
                 | Some x \<Rightarrow> do { u \<leftarrow> h_BlobGasUsed parent; Some (x, u) });
              let expected = CalcExcessBlobGas parentExcess parentUsed;
              Some (if excess \<noteq> expected
                    then Some (InvalidExcessBlobGas excess expected parentExcess parentUsed) else None) }))"

section \<open>Concrete headers\<close>

text \<open>A configuration with every fork up to Shanghai at zero, and a header on its chain.\<close>

definition demo_config :: chain_config where
  "demo_config = \<lparr>ChainID = Some 1, HomesteadBlock = Some 0, DAOForkBlock = None, DAOForkSupport = False,
     EIP150Block = Some 0, EIP155Block = Some 0, EIP158Block = Some 0, ByzantiumBlock = Some 0,
     ConstantinopleBlock = Some 0, PetersburgBlock = Some 0, IstanbulBlock = Some 0, MuirGlacierBlock = Some 0,
     BerlinBlock = Some 0, LondonBlock = Some 0, ArrowGlacierBlock = Some 0, GrayGlacierBlock = Some 0,
     MergeNetsplitBlock = None, ShanghaiTime = Some 0, CancunTime = None, PragueTime = None, VerkleTime = None,
     TerminalTotalDifficulty = Some 0\<rparr>"

definition demo_header :: header where
  "demo_header = \<lparr>h_ParentHash = 3, h_UncleHash = 0, h_Coinbase = 1, h_Root = 0, h_TxHash = 0, h_ReceiptHash = 0,
     h_Bloom = [], h_Difficulty = 0, h_Number = 100, h_GasLimit = 30000000, h_GasUsed = 20000000, h_Time = 1000,
     h_Extra = [], h_MixDigest = 4, h_Nonce = 0, h_BaseFee = Some 800, h_WithdrawalsHash = Some 0,
     h_BlobGasUsed = Some 524288, h_ExcessBlobGas = Some 131072, h_ParentBeaconRoot = None\<rparr>"

section \<open>The blob fee\<close>

text \<open>The loop ends: past the ratio of its arguments the terms shrink.\<close>

lemma term_shrinks:
  fixes a num den i :: int
  assumes "a > 0" "den > 0" "i > 0" "num < i * den"
  shows "a * num div den div i < a"
proof -
  have "a * num < a * (den * i)" using assms by (simp add: mult.commute)
  moreover have "a * num div (den * i) * (den * i) \<le> a * num"
    using assms pos_mod_sign [of "den * i" "a * num"] by (simp add: minus_mod_eq_div_mult [symmetric])
  ultimately have "a * num div (den * i) < a"
    using assms by (meson le_less_trans mult_less_cancel_right_pos mult_pos_pos)
  then show ?thesis using assms by (simp add: zdiv_zmult2_eq)
qed

lemma fakeExp_step:
  assumes "den > 0" "i > 0" "a > 0"
  shows "fakeExp_loop num den i a out = fakeExp_loop num den (i + 1) (a * num div den div i) (out + a)"
  by (subst fakeExp_loop.simps) (simp add: assms)

lemma fakeExp_stop: "a \<le> 0 \<Longrightarrow> fakeExp_loop num den i a out = Some out"
  by (subst fakeExp_loop.simps) simp

lemma fakeExp_late:
  assumes "den > 0" "i > 0" "num < i * den"
  shows "\<exists>r. fakeExp_loop num den i a out = Some r"
  using assms
proof (induction "nat a" arbitrary: i a out rule: less_induct)
  case less
  show ?case
  proof (cases "a > 0")
    case True
    have "a * num div den div i < a" by (rule term_shrinks) (use True less.prems in auto)
    then have "nat (a * num div den div i) < nat a" using True by simp
    moreover have "num < (i + 1) * den" using less.prems by (simp add: distrib_right)
    ultimately show ?thesis using less.hyps [of "a * num div den div i" "i + 1"] less.prems True
      by (simp add: fakeExp_step)
  qed (simp add: fakeExp_stop)
qed

lemma fakeExp_returns:
  assumes "den > 0" "i > 0"
  shows "\<exists>r. fakeExp_loop num den i a out = Some r"
  using assms
proof (induction "nat (num - i * den + 1)" arbitrary: i a out rule: less_induct)
  case less
  consider "num < i * den" | "a \<le> 0" | "num \<ge> i * den" "a > 0" by linarith
  then show ?case
  proof cases
    case 3
    have "nat (num - (i + 1) * den + 1) < nat (num - i * den + 1)" using less.prems 3 by (simp add: distrib_right)
    from less.hyps [OF this] less.prems 3 show ?thesis by (simp add: fakeExp_step)
  qed (use fakeExp_late less.prems fakeExp_stop in auto)
qed

text \<open>
  The exact series: each term is at most the term of the exponential series, so the sum stays below
  the exponential.
\<close>

lemma exp_partial_le:
  fixes x :: real
  assumes "x \<ge> 0"
  shows "(\<Sum>k<n. x ^ k / fact k) \<le> exp x"
proof -
  have s: "summable (\<lambda>k. x ^ k / fact k)" using summable_exp_generic [of x] by (simp add: field_simps)
  have "exp x = (\<Sum>k. x ^ k / fact k)" by (simp add: exp_def field_simps)
  then show ?thesis using sum_le_suminf [OF s, of "{..<n}"] assms by simp
qed

lemma div_le_real: "d > 0 \<Longrightarrow> real_of_int (a div d) \<le> real_of_int a / real_of_int d"
  using floor_divide_of_int_eq [of a d, where 'a = real] of_int_floor_le [of "real_of_int a / real_of_int d"] by simp

lemma next_term_le:
  fixes a num den :: int and n :: nat
  assumes "num \<ge> 0" "den > 0" and a: "real_of_int a \<le> c * ((real_of_int num / real_of_int den) ^ n / fact n)"
  shows "real_of_int (a * num div den div int (Suc n)) \<le> c * ((real_of_int num / real_of_int den) ^ Suc n / fact (Suc n))"
proof -
  have "real_of_int (a * num div den div int (Suc n)) \<le> real_of_int (a * num div den) / real_of_int (int (Suc n))"
    by (rule div_le_real) simp
  also have "\<dots> \<le> (real_of_int (a * num) / real_of_int den) / real_of_int (int (Suc n))"
    by (rule divide_right_mono [OF div_le_real]) (use assms in simp_all)
  also have "\<dots> = real_of_int a * (real_of_int num / real_of_int den / real (Suc n))" by simp
  also have "\<dots> \<le> c * ((real_of_int num / real_of_int den) ^ n / fact n) * (real_of_int num / real_of_int den / real (Suc n))"
    by (rule mult_right_mono [OF a]) (use assms in simp)
  also have "\<dots> = c * ((real_of_int num / real_of_int den) ^ Suc n / fact (Suc n))" by (simp add: field_simps)
  finally show ?thesis .
qed

lemma fakeExp_bounds:
  assumes "fakeExp_loop num den i a out = Some r" "num \<ge> 0" "den > 0" "c \<ge> 0"
    "i = int n + 1" "real_of_int a \<le> c * ((real_of_int num / real_of_int den) ^ n / fact n)"
    "real_of_int out \<le> c * (\<Sum>k<n. (real_of_int num / real_of_int den) ^ k / fact k)"
  shows "out \<le> r \<and> real_of_int r \<le> c * exp (real_of_int num / real_of_int den)"
  using assms
proof (induction arbitrary: n rule: fakeExp_loop.raw_induct [rotated, consumes 1, case_names 1])
  case (1 loop num den i a out r)
  let ?x = "real_of_int num / real_of_int den"
  show ?case
  proof (cases "a > 0")
    case True
    have i: "i > 0" "i + 1 = int (Suc n) + 1" "i = int (Suc n)" using 1 by simp_all
    from 1 True i(1) have l: "loop num den (i + 1) (a * num div den div i) (out + a) = Some r" by simp
    have t: "real_of_int (a * num div den div i) \<le> c * (?x ^ Suc n / fact (Suc n))"
      unfolding i(3) by (rule next_term_le) (use 1 in simp_all)
    have o: "real_of_int (out + a) \<le> c * (\<Sum>k<Suc n. ?x ^ k / fact k)" using 1 by (simp add: distrib_left)
    from 1(1) [OF l 1(3,4,5) i(2) t o] True show ?thesis by simp
  next
    case False
    with 1 have "r = out" by simp
    moreover have "c * (\<Sum>k<n. ?x ^ k / fact k) \<le> c * exp ?x"
      by (rule mult_left_mono [OF exp_partial_le]) (use 1 in simp_all)
    ultimately show ?thesis using 1 by simp
  qed
qed

text \<open>
  C38: The blob fee is computed for every excess blob gas: the expansion stops, divides by no zero,
  and the fee is at least the minimal price and at most the exponential it approximates.
\<close>

theorem CalcBlobFee_bounds:
  "\<exists>fee. CalcBlobFee excess = Some fee \<and> BlobTxMinBlobGasprice \<le> fee \<and>
     real_of_int fee \<le> exp (real (unat excess) / 3338477)"
proof -
  let ?d = "BlobTxBlobGaspriceUpdateFraction"
  obtain r where r: "fakeExp_loop (uint excess) ?d 1 ?d 0 = Some r" using fakeExp_returns by fastforce
  have up: "real_of_int r \<le> real_of_int ?d * exp (real_of_int (uint excess) / real_of_int ?d)"
    by (rule conjunct2 [OF fakeExp_bounds [OF r, where n = 0]]) simp_all
  have "fakeExp_loop (uint excess) ?d 2 (?d * uint excess div ?d div 1) ?d = Some r"
    using r by (simp add: fakeExp_step)
  then have "?d \<le> r"
    by (rule conjunct1 [OF fakeExp_bounds [where c = "real_of_int ?d" and n = 1]]) simp_all
  then have "1 \<le> r div ?d" by simp
  moreover have "real_of_int (r div ?d) \<le> exp (real (unat excess) / 3338477)"
    using div_le_real [of ?d r] up by (simp add: field_simps)
  ultimately show ?thesis using r by (simp add: CalcBlobFee_def fakeExponential_def)
qed

text \<open>A larger numerator gives no smaller terms.\<close>

lemma fakeExp_mono:
  assumes "fakeExp_loop num den i a out = Some r" "fakeExp_loop num' den i a' out' = Some r'"
    "0 \<le> num" "num \<le> num'" "den > 0" "i > 0" "a \<le> a'" "out \<le> out'"
  shows "r \<le> r'"
  using assms
proof (induction arbitrary: a' out' r' rule: fakeExp_loop.raw_induct [rotated, consumes 1, case_names 1])
  case (1 loop num den i a out r)
  show ?case
  proof (cases "a > 0")
    case True
    with 1 have l: "loop num den (i + 1) (a * num div den div i) (out + a) = Some r" by simp
    have l': "fakeExp_loop num' den (i + 1) (a' * num' div den div i) (out' + a') = Some r'"
      using 1 True fakeExp_step [of den i a' num' out'] by simp
    have "a * num \<le> a' * num'" using 1 True by (intro mult_mono) simp_all
    then have "a * num div den div i \<le> a' * num' div den div i" using 1 by (simp add: zdiv_mono1)
    then show ?thesis using 1(1) [OF l l'] 1 by simp
  next
    case False
    with 1 have "r = out" by simp
    moreover have "out' \<le> r'" if "fakeExp_loop n d i a out' = Some r'" "d > 0" "i > 0" for n d i a out'
      using that
    proof (induction rule: fakeExp_loop.raw_induct [rotated, consumes 1, case_names 1])
      case (1 loop n d i a out r)
      then show ?case by (cases "a > 0") force+
    qed
    ultimately show ?thesis using 1 by fastforce
  qed
qed

text \<open>
  C40: The blob fee never falls when the excess blob gas rises.
\<close>

theorem CalcBlobFee_mono:
  assumes "x \<le> y" "CalcBlobFee x = Some fee" "CalcBlobFee y = Some fee'"
  shows "fee \<le> fee'"
proof -
  from assms(2,3) obtain r r' where
    "fakeExp_loop (uint x) 3338477 1 3338477 0 = Some r" "fakeExp_loop (uint y) 3338477 1 3338477 0 = Some r'"
    and f: "fee = r div 3338477" "fee' = r' div 3338477"
    by (auto simp: CalcBlobFee_def fakeExponential_def)
  moreover have "uint x \<le> uint y" using assms(1) by (simp add: word_le_def)
  ultimately have "r \<le> r'" using fakeExp_mono [where num = "uint x" and num' = "uint y"] by simp
  then show ?thesis unfolding f by (rule zdiv_mono1) simp
qed

lemma CalcBlobFee_mono_witness:
  "CalcBlobFee 0 = Some 1 \<and> CalcBlobFee 3338477 = Some 2 \<and> (1 :: int) \<le> 2"
proof -
  have a: "CalcBlobFee 0 = Some 1"
    by (simp add: CalcBlobFee_def fakeExponential_def fakeExp_step fakeExp_stop)
  have b: "CalcBlobFee 3338477 = Some 2"
    by (simp add: CalcBlobFee_def fakeExponential_def fakeExp_step fakeExp_stop)
  from CalcBlobFee_mono [OF _ a b] a b show ?thesis by simp
qed

section \<open>The base fee\<close>

lemma fee_share_le:
  assumes "fee_share c d fee t = Some n" "fee \<ge> 0" "d \<le> t"
  shows "0 \<le> n \<and> n \<le> fee div 8"
proof -
  have t: "uint t > 0"
    using assms(1) uint_ge_0 [of t] by (auto simp: fee_share_def big_Div_def order_less_le)
  then have n: "n = uint d * fee div uint t div 8"
    using assms(1) by (simp add: fee_share_def BaseFeeChangeDenominator_def)
  have "uint d * fee \<le> fee * uint t" using assms(2,3) by (simp add: word_le_def mult.commute mult_left_mono)
  then have "uint d * fee div uint t \<le> fee" using zdiv_mono1 [OF _ t] t by fastforce
  then show ?thesis unfolding n using t assms(2) by (simp add: zdiv_mono1 pos_imp_zdiv_nonneg_iff)
qed

text \<open>
  C36: From London on the base fee of the next block is found whenever the parent has one and its gas
  target is not zero.  It moves with the gas used: up, by at least one and by at most an eighth, when
  the parent used more than its target (up to the elasticity limit), down by at most an eighth and
  not below zero when it used less, and not at all on target.
\<close>

theorem CalcBaseFee_eighth:
  assumes "IsLondon c (Some (h_Number parent))" "h_BaseFee parent = Some fee" "0 \<le> fee"
    and target: "target = h_GasLimit parent div ElasticityMultiplier c" "target \<noteq> 0"
    and used: "unat (h_GasUsed parent) \<le> 2 * unat target"
  shows "\<exists>next. CalcBaseFee c parent = Some next \<and>
    (h_GasUsed parent = target \<longrightarrow> next = fee) \<and>
    (h_GasUsed parent > target \<longrightarrow> fee < next \<and> next \<le> fee + max (fee div 8) 1) \<and>
    (h_GasUsed parent < target \<longrightarrow> fee - fee div 8 \<le> next \<and> next \<le> fee)"
proof -
  have some: "\<exists>n. fee_share c d fee target = Some n" for d
    using target(2) by (simp add: fee_share_def big_Div_def BaseFeeChangeDenominator_def uint_0_iff)
  consider "h_GasUsed parent = target" | "h_GasUsed parent > target" | "h_GasUsed parent < target" by fastforce
  then show ?thesis
  proof cases
    case 1
    then show ?thesis using assms by (simp add: CalcBaseFee_def)
  next
    case 2
    obtain n where n: "fee_share c (h_GasUsed parent - target) fee target = Some n" using some by blast
    have "h_GasUsed parent - target \<le> target"
      using 2 used by (simp add: word_le_nat_alt word_less_nat_alt unat_sub)
    from fee_share_le [OF n assms(3) this] n 2 assms(1,2) show ?thesis
      by (auto simp: CalcBaseFee_def target(1) [symmetric])
  next
    case 3
    obtain n where n: "fee_share c (target - h_GasUsed parent) fee target = Some n" using some by blast
    have "target - h_GasUsed parent \<le> target"
      using 3 by (simp add: word_le_nat_alt word_less_nat_alt unat_sub)
    from fee_share_le [OF n assms(3) this] n 3 assms(1-3) show ?thesis
      by (auto simp: CalcBaseFee_def target(1) [symmetric])
  qed
qed

lemma CalcBaseFee_eighth_witness:
  "\<exists>next. CalcBaseFee demo_config demo_header = Some next \<and> 800 < next \<and> next \<le> 900"
  using CalcBaseFee_eighth [of demo_config demo_header 800 15000000]
  by (simp add: demo_config_def demo_header_def IsLondon_def isBlockForked_def ElasticityMultiplier_def)

section \<open>The gas limit\<close>

lemma sint_neg: "sint (w :: u64) < 0 \<longleftrightarrow> 2 ^ 63 \<le> unat w"
proof -
  have "sint w < 0 \<longleftrightarrow> bit (uint w) 63" using bit_last_iff [of w] by (simp add: bit_uint_iff)
  also have "\<dots> \<longleftrightarrow> odd (uint w div 2 ^ 63)" by (simp add: bit_iff_odd)
  also have "\<dots> \<longleftrightarrow> 2 ^ 63 \<le> uint w"
  proof -
    have "uint w div 2 ^ 63 \<le> (2 ^ 64 - 1) div 2 ^ 63" by (rule zdiv_mono1) (use uint_lt2p [of w] in simp_all)
    moreover have "0 \<le> uint w div 2 ^ 63" by (simp add: pos_imp_zdiv_nonneg_iff)
    moreover have "x \<le> (2 ^ 64 - 1) div 2 ^ 63 \<Longrightarrow> 0 \<le> x \<Longrightarrow> x = 0 \<or> x = 1" for x :: int by simp linarith
    ultimately have "uint w div 2 ^ 63 = 0 \<or> uint w div 2 ^ 63 = 1" by blast
    then show ?thesis using uint_ge_0 [of w] by (auto simp: zdiv_eq_0_iff)
  qed
  also have "\<dots> \<longleftrightarrow> int (2 ^ 63) \<le> int (unat w)" by (simp del: of_nat_le_iff)
  finally show ?thesis by (simp only: of_nat_le_iff)
qed

text \<open>
  C39: Up to the maximal gas limit, where the \<^verbatim>\<open>int64\<close> difference does not wrap around, a
  gas limit is accepted exactly when it is at least the minimum and less than a 1024th of the
  parent's away from it.
\<close>

theorem VerifyGaslimit_exact:
  assumes "parent \<le> MaxGasLimit" "limit \<le> MaxGasLimit"
  shows "VerifyGaslimit parent limit = None \<longleftrightarrow>
    \<bar>int (unat parent) - int (unat limit)\<bar> < int (unat parent div 1024) \<and> 5000 \<le> unat limit"
proof -
  let ?d = "parent - limit"
  have b: "unat parent < 2 ^ 63" "unat limit < 2 ^ 63" using assms by (simp_all add: word_le_nat_alt)
  have "unat (if sint ?d < 0 then - ?d else ?d) = (if limit \<le> parent then unat parent - unat limit else unat limit - unat parent)"
  proof (cases "limit \<le> parent")
    case True
    then have "unat ?d = unat parent - unat limit" "unat limit \<le> unat parent" by (simp_all add: unat_sub word_le_nat_alt)
    moreover from this b have "\<not> sint ?d < 0" by (simp add: sint_neg)
    ultimately show ?thesis using True by simp
  next
    case False
    then have m: "unat (limit - parent) = unat limit - unat parent" "unat parent < unat limit"
      by (simp_all add: unat_sub word_le_nat_alt)
    then have "unat ?d = 2 ^ 64 - (unat limit - unat parent)"
      using b by (simp add: unat_sub_if_size word_size)
    with m b False show ?thesis by (simp add: sint_neg)
  qed
  then have "int (unat (if sint ?d < 0 then - ?d else ?d)) = \<bar>int (unat parent) - int (unat limit)\<bar>"
    by (simp only: word_le_nat_alt split: if_split) linarith
  moreover have "unat (parent div 1024) = unat parent div 1024" by (simp add: unat_div)
  moreover have "VerifyGaslimit parent limit = None \<longleftrightarrow>
      int (unat (if sint ?d < 0 then - ?d else ?d)) < int (unat (parent div 1024)) \<and> 5000 \<le> unat limit"
    unfolding of_nat_less_iff by (simp add: VerifyGaslimit_def Let_def word_le_nat_alt word_less_nat_alt not_le not_less)
  ultimately show ?thesis by simp
qed

lemma VerifyGaslimit_exact_witness:
  "VerifyGaslimit 30000000 30029295 = None \<and>
   VerifyGaslimit 30000000 30029296 \<noteq> None"
  using VerifyGaslimit_exact [of 30000000 30029295] VerifyGaslimit_exact [of 30000000 30029296] by simp

text \<open>
  Beyond that bound the wrapped difference can accept any limit: the code relies on the check of the
  maximal gas limit made elsewhere.
\<close>

lemma VerifyGaslimit_wraps: "VerifyGaslimit 0xFFFFFFFFFFFFFFFE 5000 = None"
  by (simp add: VerifyGaslimit_def sint_neg)

section \<open>Blob gas\<close>

text \<open>
  C37: A header's blob gas is accepted exactly when both fields are there, the blob gas used is a
  whole number of blobs and at most the maximum, and the excess is what the parent's excess and use
  leave above the target, as long as their sum fits 64 bits.
\<close>

theorem VerifyEIP4844Header_exact:
  assumes "h_ExcessBlobGas parent = Some pe" "h_BlobGasUsed parent = Some pu"
    "unat pe + unat pu < 2 ^ 64"
  shows "VerifyEIP4844Header parent h = Some None \<longleftrightarrow>
    (\<exists>used excess. h_BlobGasUsed h = Some used \<and> h_ExcessBlobGas h = Some excess \<and>
       unat used \<le> 6 * 131072 \<and> 131072 dvd unat used \<and> unat excess = unat pe + unat pu - 3 * 131072)"
proof -
  have s: "unat (pe + pu) = unat pe + unat pu" using assms(3) by (simp add: unat_add_lem [THEN iffD1])
  have "unat (CalcExcessBlobGas pe pu) = unat pe + unat pu - 3 * 131072"
    by (auto simp: CalcExcessBlobGas_def Let_def word_less_nat_alt s unat_sub word_le_nat_alt not_less)
  then have e: "excess = CalcExcessBlobGas pe pu \<longleftrightarrow> unat excess = unat pe + unat pu - 3 * 131072" for excess
    by (metis word_unat_eq_iff)
  have m: "used mod 131072 = 0 \<longleftrightarrow> 131072 dvd unat used" for used :: u64
    by (simp add: word_unat_eq_iff unat_mod dvd_eq_mod_eq_0)
  show ?thesis
    using assms(1,2) by (auto simp: VerifyEIP4844Header_def e m word_less_nat_alt not_less split: option.split)
qed

lemma VerifyEIP4844Header_exact_witness:
  "VerifyEIP4844Header demo_header (demo_header\<lparr>h_BlobGasUsed := Some 0, h_ExcessBlobGas := Some 262144\<rparr>) = Some None"
  using VerifyEIP4844Header_exact [of demo_header 131072 524288
      "demo_header\<lparr>h_BlobGasUsed := Some 0, h_ExcessBlobGas := Some 262144\<rparr>"]
  by (simp add: demo_header_def)

end
