(* ===== verification/Demo.thy ===== *)
theory Demo
  imports Evm Headers
begin

text \<open>
  Concrete values for the parameters of the model: a database, the \<^verbatim>\<open>uint256\<close>
  operations as they are documented, a block, a tracer that does nothing.  The witnesses run on them.
\<close>

section \<open>A small concrete environment\<close>

text \<open>
  The documented behaviour of the \<^verbatim>\<open>uint256\<close> operations: arithmetic modulo
  \<open>2 ^ 256\<close>, with division by zero giving zero.
\<close>

definition word_ops :: uint256_ops where
  "word_ops =
     \<lparr>u_bin = (\<lambda>op x y. case op of
         UAdd \<Rightarrow> x + y | USub \<Rightarrow> x - y | UMul \<Rightarrow> x * y
       | UDiv \<Rightarrow> (if y = 0 then 0 else x div y) | UMod \<Rightarrow> (if y = 0 then 0 else x mod y)
       | USDiv \<Rightarrow> (if y = 0 then 0 else word_of_int (sgn (sint x) * sgn (sint y) * (\<bar>sint x\<bar> div \<bar>sint y\<bar>)))
       | USMod \<Rightarrow> (if y = 0 then 0 else word_of_int (sgn (sint x) * (\<bar>sint x\<bar> mod \<bar>sint y\<bar>)))
       | UExp \<Rightarrow> x ^ unat y
       | UExtendSign \<Rightarrow> (if y < 31 then word_of_int (signed_take_bit (8 * unat y + 7) (uint x)) else x)
       | UAnd \<Rightarrow> x AND y | UOr \<Rightarrow> x OR y | UXor \<Rightarrow> x XOR y
       | UByte \<Rightarrow> (if y < 32 then drop_bit (8 * (31 - unat y)) x AND 0xFF else 0)),
      u_cmp = (\<lambda>op x y. case op of ULt \<Rightarrow> x < y | UGt \<Rightarrow> x > y | USlt \<Rightarrow> sint x < sint y | USgt \<Rightarrow> sint x > sint y),
      u_ter = (\<lambda>op x y z. case op of
         UAddMod \<Rightarrow> (if z = 0 then 0 else word_of_nat ((unat x + unat y) mod unat z))
       | UMulMod \<Rightarrow> (if z = 0 then 0 else word_of_nat ((unat x * unat y) mod unat z))),
      u_shf = (\<lambda>op x n. case op of ULsh \<Rightarrow> push_bit n x | URsh \<Rightarrow> drop_bit n x | USRsh \<Rightarrow> signed_drop_bit n x),
      u_Not = (\<lambda>x. NOT x)\<rparr>"

definition demo_externals :: externals where
  "demo_externals = \<lparr>ext_ops = word_ops, pc_RequiredGas = (\<lambda>p b. 100), pc_Run = (\<lambda>p b. (b, None)),
     ext_rpc = \<lparr>rpc_GetStorageAt = (\<lambda>a k n. 0), rpc_GetCodeAt = (\<lambda>a n. None), rpc_GetBalanceAt = (\<lambda>a n. 0),
       rpc_GetNonceAt = (\<lambda>a n. 0)\<rparr>,
     ext_visits = (\<lambda>st. \<lparr>vo_storage = [], vo_balance = [], vo_nonce = [], vo_code = []\<rparr>)\<rparr>"

definition demo_block :: block_context where
  "demo_block =
     \<lparr>bc_CanTransfer = (\<lambda>d a v. let (b, d) = GetBalance d a in (b \<ge> v, d)),
      bc_Transfer = (\<lambda>d a b v. AddBalance (SubBalance d a v) b v),
      bc_GetHash = (\<lambda>n. 0), bc_Coinbase = 1, bc_GasLimit = 30000000, bc_BlockNumber = 100, bc_Time = 1000,
      bc_Difficulty = 0, bc_BaseFee = Some 7, bc_BlobBaseFee = None, bc_Random = Some 0\<rparr>"

text \<open>A tracer that does nothing.\<close>

definition no_logger :: "unit logger" where
  "no_logger = \<lparr>CaptureTxStart = (\<lambda>t _. Some t), CaptureTxEnd = (\<lambda>t _. Some t),
     CaptureStart = (\<lambda>t d _ _ _ _ _ _. Some (t, d)), CaptureEnd = (\<lambda>t d _ _ _. Some (t, d)),
     CaptureEnter = (\<lambda>t d _ _ _ _ _ _. Some (t, d)), CaptureExit = (\<lambda>t d _ _ _. Some (t, d)),
     CaptureState = (\<lambda>t d _ _ _ _ _ _ _ _. Some (t, d)), CaptureFault = (\<lambda>t d _ _ _ _ _ _ _. Some (t, d))\<rparr>"

definition demo_rules :: rules where
  "demo_rules = \<lparr>ruleChainID = 1, ruleHomestead = True, ruleEIP150 = True, ruleEIP155 = True, ruleEIP158 = True,
     ruleByzantium = True, ruleConstantinople = True, rulePetersburg = True, ruleIstanbul = True, ruleBerlin = True,
     ruleLondon = True, ruleMerge = True, ruleShanghai = True, ruleCancun = False, rulePrague = False, ruleVerkle = False\<rparr>"

definition demo_env :: "unit env" where
  "demo_env = \<lparr>Context = demo_block,
     TxContext = \<lparr>tc_Origin = 9, tc_GasPrice = 10, tc_BlobHashes = [], tc_BlobFeeCap = None\<rparr>,
     chainConfig = demo_config, chainRules = demo_rules,
     Config = \<lparr>cfg_NoBaseFee = False, cfg_EnablePreimageRecording = False, cfg_ExtraEips = []\<rparr>,
     TraceStateFlag = False, Logger = no_logger, ext = demo_externals\<rparr>"

definition demo_evm :: "unit evm" where
  "demo_evm = \<lparr>StateDB_of = New demo_db None, depth = 0, callGasTemp = 0, aborted = False, readOnly = False,
     returnData = [], jumpdests = Map.empty, Tracer = None\<rparr>"

definition demo_contract :: "bytes \<Rightarrow> u64 \<Rightarrow> contract" where
  "demo_contract code gas = \<lparr>CallerAddress = 9, ct_self = 7, analysis = None, Code = code, CodeHash = 5,
     CodeAddr = Some 7, Input = [], Gas = gas, ct_value = Some 0\<rparr>"

end
