(* ===== verification/Gas_Props.thy ===== *)
theory Gas_Props
  imports Gas Demo
begin

text \<open>
  What the gas functions promise: the memory fee is the difference of a quadratic potential and never
  wraps, a call is given at most 63/64 of what is left, and the refund counter of net-metered storage
  writes never goes below zero.
\<close>

section \<open>The memory fee\<close>

text \<open>The fee of \<open>w\<close> words of memory, and the words \<open>n\<close> bytes take.\<close>

definition mem_fee :: "nat \<Rightarrow> nat" where
  "mem_fee w = 3 * w + w * w div 512"

definition words_of :: "nat \<Rightarrow> nat" where
  "words_of n = (n + 31) div 32"

text \<open>The memory is a whole number of words, below the limit, and its fee is paid.\<close>

definition mem_ok :: "memory \<Rightarrow> bool" where
  "mem_ok m \<longleftrightarrow> length (mem_store m) = 32 * (length (mem_store m) div 32) \<and>
     length (mem_store m) \<le> 0x1FFFFFFFE0 \<and>
     unat (lastGasCost m) = mem_fee (length (mem_store m) div 32)"

lemma mem_fee_mono: "a \<le> b \<Longrightarrow> mem_fee a \<le> mem_fee b"
  by (simp add: mem_fee_def add_mono div_le_mono mult_le_mono)

lemma mem_ok_New: "mem_ok NewMemory"
  by (simp add: mem_ok_def NewMemory_def mem_fee_def)

lemma unat_toWordSize: "unat (toWordSize sz) = words_of (unat sz)"
proof (cases "sz > MaxUint64 - 31")
  case True
  then have "18446744073709551584 < unat sz" by (simp add: word_less_nat_alt MaxUint64_def)
  moreover have "unat sz < 18446744073709551616" by simp
  ultimately have "(unat sz + 31) div 32 = 576460752303423488" by linarith
  with True show ?thesis by (simp add: toWordSize_def words_of_def MaxUint64_def)
next
  case False
  then have "unat sz \<le> 18446744073709551584" by (simp add: word_less_nat_alt MaxUint64_def)
  then have "unat (sz + 31) = unat sz + 31" by (simp add: unat_word_ariths)
  with False show ?thesis by (simp add: toWordSize_def words_of_def unat_div_distrib)
qed

lemma words_of_bound: "n \<le> 0x1FFFFFFFE0 \<Longrightarrow> words_of n \<le> 0xFFFFFFFF"
  by (simp add: words_of_def)

lemma mem_fee_bound: "w \<le> 0xFFFFFFFF \<Longrightarrow> mem_fee w < 2 ^ 64"
proof -
  assume w: "w \<le> 0xFFFFFFFF"
  then have "w * w \<le> 0xFFFFFFFF * 0xFFFFFFFF" by (rule mult_le_mono) (rule w)
  then have "w * w div 512 \<le> 0xFFFFFFFF * 0xFFFFFFFF div 512" by (rule div_le_mono)
  with w show ?thesis by (simp add: mem_fee_def)
qed

lemma unat_fee:
  assumes "unat (w :: u64) \<le> 0xFFFFFFFF"
  shows "unat (w * 3 + w * w div 512) = mem_fee (unat w)"
proof -
  have "unat w * unat w \<le> 0xFFFFFFFF * 0xFFFFFFFF" by (rule mult_le_mono) (use assms in auto)
  then have sq: "unat (w * w) = unat w * unat w" by (simp add: unat_word_ariths)
  have lin: "unat (w * 3) = 3 * unat w" using assms by (simp add: unat_word_ariths)
  have "unat (w * 3) + unat (w * w div 512) < 2 ^ 64"
    using mem_fee_bound [OF assms] by (simp add: mem_fee_def unat_div_distrib sq lin)
  then have "unat (w * 3 + w * w div 512) = unat (w * 3) + unat (w * w div 512)"
    by (simp only: unat_word_ariths(1)) simp
  then show ?thesis by (simp add: mem_fee_def unat_div_distrib sq lin)
qed

lemma resize_word: "length (mem_store (mem_Resize m n)) = max (length (mem_store m)) (unat n)"
  by (simp add: mem_Resize_def max_def)

lemma lastGasCost_Resize [simp]: "lastGasCost (mem_Resize m n) = lastGasCost m"
  by (simp add: mem_Resize_def)

lemma memory_fee_exact:
  assumes "mem_ok m"
  shows "if unat sz \<le> 0x1FFFFFFFE0
    then \<exists>m' fee. memoryGasCost m sz = (m', Inr fee) \<and>
      unat fee + mem_fee (length (mem_store m) div 32) =
        mem_fee (max (length (mem_store m) div 32) (words_of (unat sz))) \<and>
      mem_ok (mem_Resize m' (toWordSize sz * 32)) \<and>
      length (mem_store (mem_Resize m' (toWordSize sz * 32))) =
        max (length (mem_store m)) (32 * words_of (unat sz))
    else memoryGasCost m sz = (m, Inl ErrGasUintOverflow)"
proof (cases "unat sz \<le> 0x1FFFFFFFE0")
  case False
  then show ?thesis
    by (auto simp: memoryGasCost_def word_less_nat_alt)
next
  case True
  let ?w = "toWordSize sz" and ?l = "length (mem_store m)"
  have w: "unat ?w = words_of (unat sz)" "unat ?w \<le> 0xFFFFFFFF"
    using unat_toWordSize words_of_bound [OF True] by simp_all
  have w32: "unat (?w * 32) = 32 * words_of (unat sz)"
    using w by (simp add: unat_word_ariths)
  have l: "?l = 32 * (?l div 32)" "?l \<le> 0x1FFFFFFFE0" "unat (lastGasCost m) = mem_fee (?l div 32)"
    using assms by (simp_all add: mem_ok_def)
  have ul: "unat (of_nat ?l :: u64) = ?l"
    using l(2) by (subst unsigned_of_nat) (simp add: take_bit_nat_eq_self)
  show ?thesis
  proof (cases "?l < 32 * words_of (unat sz)")
    case grow: True
    then have ne: "sz \<noteq> 0" by (auto simp: words_of_def)
    let ?fee = "?w * 3 + ?w * ?w div 512"
    have f: "unat ?fee = mem_fee (words_of (unat sz))" using unat_fee [OF w(2)] w(1) by simp
    have le: "?l div 32 \<le> words_of (unat sz)" using grow by linarith
    have c: "memoryGasCost m sz = (m\<lparr>lastGasCost := ?fee\<rparr>, Inr (?fee - lastGasCost m))"
      using True ne grow ul w32
      by (simp add: memoryGasCost_def word_less_nat_alt mem_Len_def Let_def)
    have "unat (?fee - lastGasCost m) = mem_fee (words_of (unat sz)) - mem_fee (?l div 32)"
      using f l(3) mem_fee_mono [OF le] by (simp add: unat_sub word_le_nat_alt)
    with c f grow le mem_fee_mono [OF le] w32 w show ?thesis
      by (simp add: True mem_ok_def resize_word max_def)
  next
    case False
    have "memoryGasCost m sz = (m, Inr 0)"
      using True False ul w32 by (auto simp: memoryGasCost_def word_less_nat_alt mem_Len_def Let_def)
    moreover have "words_of (unat sz) \<le> ?l div 32" using False by linarith
    then have "max (?l div 32) (words_of (unat sz)) = ?l div 32" "max ?l (32 * words_of (unat sz)) = ?l"
      using False by auto
    ultimately show ?thesis
      using l w32 by (simp add: True mem_ok_def resize_word)
  qed
qed

text \<open>
  C15: The memory fee is exact and never wraps.  On a memory whose fee is paid, growing to a size up
  to the limit of 0x1FFFFFFFE0 bytes costs exactly the difference of the quadratic fee of the new and
  the old number of words (nothing when it already fits), and leaves a memory whose fee is paid
  again; any larger size is an overflow error that changes nothing.
\<close>

theorem memoryGasCost_exact:
  assumes "mem_ok m"
  shows "if unat sz \<le> 0x1FFFFFFFE0
    then \<exists>m' fee. memoryGasCost m sz = (m', Inr fee) \<and>
      unat fee + mem_fee (length (mem_store m) div 32) =
        mem_fee (max (length (mem_store m) div 32) (words_of (unat sz))) \<and>
      mem_ok (mem_Resize m' (toWordSize sz * 32)) \<and>
      length (mem_store (mem_Resize m' (toWordSize sz * 32))) =
        max (length (mem_store m)) (32 * words_of (unat sz))
    else memoryGasCost m sz = (m, Inl ErrGasUintOverflow)"
  using assms by (rule memory_fee_exact)

theorem memoryGasCost_exact_witness:
  "\<exists>m' fee. memoryGasCost NewMemory 1000 = (m', Inr fee) \<and> unat fee = 98"
  using memoryGasCost_exact [OF mem_ok_New, of 1000]
  by (auto simp: NewMemory_def words_of_def mem_fee_def)

section \<open>Calls\<close>

definition sixty_three_64ths :: "nat \<Rightarrow> nat" where
  "sixty_three_64ths n = n - n div 64"

lemma callGas_EIP150:
  assumes "base \<le> availableGas"
  shows "\<exists>g. callGas True availableGas base cost = Inr g \<and>
     unat g = min (unat cost) (sixty_three_64ths (unat availableGas - unat base))"
proof -
  let ?a = "availableGas - base"
  have a: "unat ?a = unat availableGas - unat base" using assms by (rule unat_sub)
  have d: "unat (?a div 64) = unat ?a div 64" by (simp add: unat_div_distrib)
  have "?a div 64 \<le> ?a" by (simp add: word_le_nat_alt d)
  then have g: "unat (?a - ?a div 64) = sixty_three_64ths (unat ?a)"
    by (simp add: unat_sub d sixty_three_64ths_def)
  have s: "sixty_three_64ths (unat ?a) < 2 ^ 64"
    using g unat_lt_64 [of "?a - ?a div 64"] by simp
  show ?thesis
  proof (cases "IsUint64 cost")
    case True
    then have "unat (Uint64 cost) = unat cost"
      by (simp add: IsUint64_def Uint64_def unsigned_ucast_eq take_bit_nat_eq_self)
    with True g a show ?thesis by (simp add: callGas_def Let_def word_less_nat_alt min_def)
  next
    case False
    then have "sixty_three_64ths (unat ?a) \<le> unat cost" using s by (simp add: IsUint64_def)
    with False g a show ?thesis by (simp add: callGas_def Let_def min_def)
  qed
qed

lemma callGas_EIP150_bound:
  "callGas True availableGas base cost = Inr g \<Longrightarrow> unat g \<le> 18158513697557839872"
proof -
  let ?a = "availableGas - base"
  have d: "unat (?a div 64) = unat ?a div 64" by (simp add: unat_div_distrib)
  have "?a div 64 \<le> ?a" by (simp add: word_le_nat_alt d)
  then have "unat (?a - ?a div 64) = unat ?a - unat ?a div 64" by (simp add: unat_sub d)
  moreover have "unat ?a < 18446744073709551616" by simp
  ultimately have "unat (?a - ?a div 64) \<le> 18158513697557839872" by linarith
  moreover assume "callGas True availableGas base cost = Inr g"
  then have "g \<le> ?a - ?a div 64"
    by (auto simp: callGas_def Let_def not_less split: if_splits)
  ultimately show ?thesis by (simp add: word_le_nat_alt)
qed

lemma checked_SafeAdd: "checked (SafeAdd x y) = Inr z \<longleftrightarrow> z = x + y \<and> unat x + unat y < 2 ^ 64"
  by (auto simp: checked_def SafeAdd_def not_le)

lemma checked_SafeAdd_Inl:
  "checked (SafeAdd x y) = Inl e \<longleftrightarrow> e = ErrGasUintOverflow \<and> 2 ^ 64 \<le> unat x + unat y"
  by (auto simp: checked_def SafeAdd_def)

lemma SafeAdd_unat: "unat x + unat (y :: u64) < 2 ^ 64 \<Longrightarrow> unat (x + y) = unat x + unat y"
  using unat_add_lem [of x y] by simp

lemma memory_fee_small:
  assumes "mem_ok mem" "memoryGasCost mem sz = (mem', Inr fee)"
  shows "unat fee \<le> 36028809887088637"
proof -
  from memory_fee_exact [OF assms(1), of sz] assms(2)
  have sz: "unat sz \<le> 0x1FFFFFFFE0" and f: "unat fee \<le> mem_fee (max (length (mem_store mem) div 32) (words_of (unat sz)))"
    by (auto split: if_splits)
  have "max (length (mem_store mem) div 32) (words_of (unat sz)) \<le> 0xFFFFFFFF"
    using words_of_bound [OF sz] assms(1) by (auto simp: mem_ok_def)
  then have "mem_fee (max (length (mem_store mem) div 32) (words_of (unat sz))) \<le> mem_fee 0xFFFFFFFF"
    by (rule mem_fee_mono)
  with f show ?thesis by (simp add: mem_fee_def)
qed

text \<open>What every call's gas function ends with: a charge so far, then the 63/64 rule.\<close>

lemma call_gas_rest_cases:
  assumes "call_gas_rest E st gas (e, c, mem) = Some ((e', c', mem'), Inr tot)"
  obtains "c' = c" "mem' = mem" "st \<noteq> []"
    "callGas (ruleEIP150 (chainRules E)) (Gas c) gas (st ! 0) = Inr (callGasTemp e')"
    "unat tot = unat gas + unat (callGasTemp e')"
  using assms
  by (auto simp: call_gas_rest_def st_Back_def checked_SafeAdd SafeAdd_unat split: sum.splits)

definition call_charge :: "'t env \<Rightarrow> stack \<Rightarrow> bool \<Rightarrow> contract \<Rightarrow> ('t gas_state \<times> gas_result) option \<Rightarrow> bool" where
  "call_charge E st valued c res \<longleftrightarrow>
     (\<exists>gas e1 m1. res = call_gas_rest E st gas (e1, c, m1) \<and> unat gas \<le> 36028809887122637 \<and>
        (valued \<and> st ! 2 \<noteq> 0 \<longrightarrow> 9000 \<le> unat gas))"

lemma call_charges:
  assumes "mem_ok mem" "f E st sz (e, c, mem) = Some (s', Inr tot)"
  shows "f = gasCall \<Longrightarrow> call_charge E st True c (f E st sz (e, c, mem))"
    "f = gasCallCode \<Longrightarrow> call_charge E st True c (f E st sz (e, c, mem))"
    "f = gasDelegateCall \<Longrightarrow> call_charge E st False c (f E st sz (e, c, mem))"
    "f = gasStaticCall \<Longrightarrow> call_charge E st False c (f E st sz (e, c, mem))"
proof -
  have add: "unat (x + y) = unat x + unat y"
    if "unat x \<le> 34000" "unat y \<le> 36028809887088637" for x y :: u64
    using that by (intro SafeAdd_unat) simp
  have base: "unat ((if a then 25000 else 0) + (if b then 9000 else 0) :: u64) =
      (if a then 25000 else 0) + (if b then 9000 else 0)" for a b by simp
  show "call_charge E st False c (f E st sz (e, c, mem))" if f: "f = gasDelegateCall"
  proof -
    obtain m1 fee where m: "memoryGasCost mem sz = (m1, Inr fee)"
      using assms(2) f by (auto simp: gasDelegateCall_def split: sum.splits prod.splits)
    then show ?thesis
      unfolding call_charge_def using memory_fee_small [OF assms(1) m] f
      by (intro exI [of _ fee] exI [of _ e] exI [of _ m1]) (simp add: gasDelegateCall_def)
  qed
  show "call_charge E st False c (f E st sz (e, c, mem))" if f: "f = gasStaticCall"
  proof -
    obtain m1 fee where m: "memoryGasCost mem sz = (m1, Inr fee)"
      using assms(2) f by (auto simp: gasStaticCall_def split: sum.splits prod.splits)
    then show ?thesis
      unfolding call_charge_def using memory_fee_small [OF assms(1) m] f
      by (intro exI [of _ fee] exI [of _ e] exI [of _ m1]) (simp add: gasStaticCall_def)
  qed
  show "call_charge E st True c (f E st sz (e, c, mem))" if f: "f = gasCallCode"
  proof -
    obtain m1 fee where m: "memoryGasCost mem sz = (m1, Inr fee)"
      using assms(2) f by (auto simp: gasCallCode_def split: sum.splits prod.splits)
    note fee = memory_fee_small [OF assms(1) m]
    let ?g = "(if st ! 2 \<noteq> 0 then 9000 else 0) + fee"
    have "unat ?g = (if st ! 2 \<noteq> 0 then 9000 else 0) + unat fee"
      using fee by (subst add) auto
    moreover have "f E st sz (e, c, mem) = call_gas_rest E st ?g (e, c, m1)"
      using assms(2) f m fee
      by (auto simp: gasCallCode_def st_Back_def checked_SafeAdd checked_SafeAdd_Inl split: sum.splits if_splits)
    ultimately show ?thesis unfolding call_charge_def using fee
      by (intro exI [of _ ?g] exI [of _ e] exI [of _ m1]) auto
  qed
  show "call_charge E st True c (f E st sz (e, c, mem))" if f: "f = gasCall"
  proof -
    obtain m1 r where mr: "memoryGasCost mem sz = (m1, r)" by fastforce
    have "r = Inl err \<Longrightarrow> False" for err
      using assms(2) f mr by (simp add: gasCall_def Let_def case_prod_beta del: split_paired_Ex)
    then obtain fee where m: "memoryGasCost mem sz = (m1, Inr fee)" using mr by (cases r) auto
    note fee = memory_fee_small [OF assms(1) m]
    obtain new d where nd: "(if ruleEIP158 (chainRules E)
        then (if st ! 2 \<noteq> 0 then Empty (StateDB_of e) (addr_of (st ! 1)) else (False, StateDB_of e))
        else (let (b, d) = Exist (StateDB_of e) (addr_of (st ! 1)) in (\<not> b, d))) = (new, d)"
      by fastforce
    let ?b = "(if new then 25000 else 0) + (if st ! 2 \<noteq> 0 then 9000 else 0) :: u64"
    have "unat (?b + fee) = unat ?b + unat fee" using fee by (intro add) auto
    then have "unat (?b + fee) = (if new then 25000 else 0) + (if st ! 2 \<noteq> 0 then 9000 else 0) + unat fee"
      by (simp only: base)
    moreover have "f E st sz (e, c, mem) = call_gas_rest E st (?b + fee) (upd_db e d, c, m1)"
      using assms(2) f m nd fee
      by (auto simp: gasCall_def st_Back_def checked_SafeAdd checked_SafeAdd_Inl Let_def split: sum.splits if_splits prod.splits)
    ultimately show ?thesis unfolding call_charge_def using fee
      by (intro exI [of _ "?b + fee"] exI [of _ "upd_db e d"] exI [of _ m1]) auto
  qed
qed

text \<open>What the callee is given, for a charge and a contract.\<close>

lemma call_charge_result:
  assumes "call_charge E st valued c res" "res = Some ((e', c', mem'), Inr tot)" "ruleEIP150 (chainRules E)"
  obtains gas where "c' = c" "unat gas \<le> 36028809887122637" "valued \<and> st ! 2 \<noteq> 0 \<longrightarrow> 9000 \<le> unat gas"
    "unat tot = unat gas + unat (callGasTemp e')" "unat (callGasTemp e') \<le> 18158513697557839872"
    "gas \<le> Gas c \<Longrightarrow> unat (callGasTemp e') =
       min (unat (st ! 0)) (sixty_three_64ths (unat (Gas c) - unat gas))"
proof -
  from assms(1,2) obtain gas e1 m1 where
    r: "call_gas_rest E st gas (e1, c, m1) = Some ((e', c', mem'), Inr tot)"
    and g: "unat gas \<le> 36028809887122637" "valued \<and> st ! 2 \<noteq> 0 \<longrightarrow> 9000 \<le> unat gas"
    unfolding call_charge_def by metis
  from r show ?thesis
  proof (rule call_gas_rest_cases)
    assume a: "c' = c" "callGas (ruleEIP150 (chainRules E)) (Gas c) gas (st ! 0) = Inr (callGasTemp e')"
      "unat tot = unat gas + unat (callGasTemp e')"
    show thesis
    proof (rule that [OF a(1) g a(3)])
      show "unat (callGasTemp e') \<le> 18158513697557839872"
        using a(2) assms(3) callGas_EIP150_bound by simp
      show "unat (callGasTemp e') = min (unat (st ! 0)) (sixty_three_64ths (unat (Gas c) - unat gas))"
        if "gas \<le> Gas c"
        using callGas_EIP150 [OF that, of "st ! 0"] a(2) assms(3) by simp
    qed
  qed
qed

definition call_gas_funcs :: "('t gas_func \<times> bool) set" where
  "call_gas_funcs = {(gasCall, True), (gasCallCode, True), (gasDelegateCall, False), (gasStaticCall, False)}"

lemma charge_total:
  "T = u + k \<Longrightarrow> (u \<le> G \<longrightarrow> k = min a (sixty_three_64ths (G - u))) \<Longrightarrow> T \<le> G \<longleftrightarrow> u \<le> G"
proof -
  assume T: "T = u + k" and k: "u \<le> G \<longrightarrow> k = min a (sixty_three_64ths (G - u))"
  have "min a (sixty_three_64ths (G - u)) \<le> G - u" by (simp add: sixty_three_64ths_def min.coboundedI2)
  with T k show ?thesis by linarith
qed

lemma call_charge_exact:
  assumes "mem_ok mem" "ruleEIP150 (chainRules E)" "(f, valued) \<in> call_gas_funcs"
    "g = f \<or> g = makeCallVariantGasCallEIP2929 f"
    "g E st sz (e, c, mem) = Some ((e', c', mem'), Inr tot)"
  shows "\<exists>charge. c' = c \<and> unat tot = charge + unat (callGasTemp e') \<and> (valued \<and> st ! 2 \<noteq> 0 \<longrightarrow> 9000 \<le> charge) \<and>
    (charge \<le> unat (Gas c) \<longrightarrow>
       unat (callGasTemp e') = min (unat (st ! 0)) (sixty_three_64ths (unat (Gas c) - charge))) \<and>
    (tot \<le> Gas c \<longleftrightarrow> charge \<le> unat (Gas c))"
proof -
  have cc: "call_charge E st valued c1 (f E st sz (e1, c1, mem))"
    if "f E st sz (e1, c1, mem) = Some (s1, Inr t)" for e1 c1 s1 t
    using assms(3) call_charges [where f = f, OF assms(1) that] by (auto simp: call_gas_funcs_def)
  have direct: ?thesis
    if r: "f E st sz (e1, c, mem) = Some ((e', c', mem'), Inr tot)" for e1
  proof (rule call_charge_result [OF cc [OF r] r assms(2)])
    fix gas
    assume a: "c' = c" "valued \<and> st ! 2 \<noteq> 0 \<longrightarrow> 9000 \<le> unat gas"
      "unat tot = unat gas + unat (callGasTemp e')"
      "gas \<le> Gas c \<Longrightarrow> unat (callGasTemp e') =
         min (unat (st ! 0)) (sixty_three_64ths (unat (Gas c) - unat gas))"
    then have "unat gas \<le> unat (Gas c) \<longrightarrow>
        unat (callGasTemp e') = min (unat (st ! 0)) (sixty_three_64ths (unat (Gas c) - unat gas))"
      by (simp add: word_le_nat_alt)
    with a(1-3) charge_total [OF a(3) this] show ?thesis
      by (intro exI [of _ "unat gas"]) (simp add: word_le_nat_alt)
  qed
  show ?thesis
  proof (cases "g = f")
    case True
    with direct assms(5) show ?thesis by simp
  next
    case False
    with assms(4) have g: "g = makeCallVariantGasCallEIP2929 f" by simp
    show ?thesis
    proof (cases "AddressInAccessList (StateDB_of e) (addr_of (st ! 1))")
      case True
      then have "f E st sz (e, c, mem) = Some ((e', c', mem'), Inr tot)"
        using assms(5) g
        by (auto simp: makeCallVariantGasCallEIP2929_def st_Back_def split: sum.split_asm prod.split_asm)
          (metis sum.exhaust)
      then show ?thesis by (rule direct)
    next
      case cold: False
      let ?e = "upd_db e (AddAddressToAccessList (StateDB_of e) (addr_of (st ! 1)))"
      let ?c = "c\<lparr>Gas := Gas c - 2500\<rparr>"
      obtain c2 t2 where r: "f E st sz (?e, ?c, mem) = Some ((e', c2, mem'), Inr t2)"
        and c: "2500 \<le> Gas c" "c' = c2\<lparr>Gas := Gas c2 + 2500\<rparr>" "tot = t2 + 2500"
        using assms(5) g cold
        by (auto simp: makeCallVariantGasCallEIP2929_def st_Back_def UseGas_def not_less
            split: sum.splits prod.splits if_splits) (metis sum.exhaust)
      show ?thesis
      proof (rule call_charge_result [OF cc [OF r] r assms(2)])
        fix gas
        assume a: "c2 = ?c" "valued \<and> st ! 2 \<noteq> 0 \<longrightarrow> 9000 \<le> unat gas"
          "unat gas \<le> 36028809887122637" "unat (callGasTemp e') \<le> 18158513697557839872"
          "unat t2 = unat gas + unat (callGasTemp e')"
          "gas \<le> Gas ?c \<Longrightarrow> unat (callGasTemp e') =
             min (unat (st ! 0)) (sixty_three_64ths (unat (Gas ?c) - unat gas))"
        have t: "unat tot = unat t2 + 2500"
          using a(3-5) unfolding c(3) by (subst SafeAdd_unat) auto
        have gc: "unat (Gas ?c) = unat (Gas c) - 2500" using c(1) by (simp add: unat_sub)
        have k: "unat gas + 2500 \<le> unat (Gas c) \<longrightarrow>
            unat (callGasTemp e') = min (unat (st ! 0)) (sixty_three_64ths (unat (Gas c) - (unat gas + 2500)))"
          using a(6) gc by (auto simp: word_le_nat_alt add.commute)
        have "unat tot = (unat gas + 2500) + unat (callGasTemp e')" using t a(5) by simp
        moreover have "c' = c" using a(1) c(2) by simp
        ultimately show ?thesis
          using charge_total [OF _ k, of "unat tot"] k a(2)
          by (intro exI [of _ "unat gas + 2500"]) (auto simp: word_le_nat_alt)
      qed
    qed
  qed
qed

text \<open>
  C18: The 63/64 rule.  From EIP-150 on, for every kind of call, before and after EIP-2929: when the
  gas function succeeds, its total is a charge plus the gas handed to the callee, and neither this sum
  nor the charge has wrapped.  If the gas left covers the charge, the callee gets exactly the smaller
  of what was asked and 63/64 of what is left after the charge, and the total is covered too; if not,
  the subtraction in \<open>callGas\<close> wraps, the total exceeds the gas left whatever the callee was to
  get, and the instruction runs out of gas.  A call that transfers value is charged at least 9000,
  which covers the stipend of 2300.
\<close>

theorem call_gas_63_64:
  assumes "mem_ok mem" "ruleEIP150 (chainRules E)" "(f, valued) \<in> call_gas_funcs"
    "g = f \<or> g = makeCallVariantGasCallEIP2929 f"
    "g E st sz (e, c, mem) = Some ((e', c', mem'), Inr tot)"
  shows "\<exists>charge. c' = c \<and> unat tot = charge + unat (callGasTemp e') \<and> (valued \<and> st ! 2 \<noteq> 0 \<longrightarrow> 9000 \<le> charge) \<and>
    (charge \<le> unat (Gas c) \<longrightarrow>
       unat (callGasTemp e') = min (unat (st ! 0)) (sixty_three_64ths (unat (Gas c) - charge))) \<and>
    (tot \<le> Gas c \<longleftrightarrow> charge \<le> unat (Gas c))"
  using assms by (rule call_charge_exact)

text \<open>A call that asks for 6400 gas, and one with less gas than the charge of 98.\<close>

theorem call_gas_63_64_witness:
  "(\<exists>charge. (6498 :: nat) = charge + 6400 \<and> 6400 = min 6400 (sixty_three_64ths (1000000 - charge))) \<and>
   (\<exists>charge. (6498 :: nat) = charge + 6400 \<and> 50 < charge)"
proof -
  let ?c = "\<lambda>g. demo_contract [] g" and ?st = "[6400, 8, 0, 0, 0, 0]"
  have r: "gasDelegateCall demo_env ?st 1024 (demo_evm, ?c g, NewMemory) =
      Some ((demo_evm\<lparr>callGasTemp := 6400\<rparr>, ?c g, NewMemory\<lparr>lastGasCost := 98\<rparr>), Inr 6498)" if "g = 1000000 \<or> g = 50" for g
    using that
    by (auto simp: gasDelegateCall_def memoryGasCost_def NewMemory_def mem_Len_def toWordSize_def MaxUint64_def
        call_gas_rest_def st_Back_def demo_env_def demo_rules_def demo_contract_def callGas_def Let_def
        IsUint64_def Uint64_def checked_def SafeAdd_def)
  have h: "ruleEIP150 (chainRules demo_env)" "(gasDelegateCall, False) \<in> call_gas_funcs"
    by (simp_all add: demo_env_def demo_rules_def call_gas_funcs_def)
  from call_gas_63_64 [OF mem_ok_New h disjI1 [OF refl] r [of 1000000]]
  have "\<exists>charge. (6498 :: nat) = charge + 6400 \<and> 6400 = min 6400 (sixty_three_64ths (1000000 - charge))"
    by (auto simp: demo_contract_def)
  moreover from call_gas_63_64 [OF mem_ok_New h disjI1 [OF refl] r [of 50]]
  have "\<exists>charge. (6498 :: nat) = charge + 6400 \<and> 50 < charge" by (auto simp: demo_contract_def not_le)
  ultimately show ?thesis by blast
qed

end
