(* ===== verification/CoreEvm.thy ===== *)
theory CoreEvm
  imports Evm Headers
begin

text \<open>
  \<^verbatim>\<open>core/evm.go\<close> and \<^verbatim>\<open>core/gaspool.go\<close>: the contexts the state transition gives
  to the EVM, the transfer of value, the block hashes with their cache, and the gas of a block.
\<close>

section \<open>Messages (core/state_transition.go)\<close>

text \<open>
  \<open>GasPrice\<close> and \<open>Value\<close> are never nil where a message is applied.  A nil access list
  costs as much as an empty one; a nil list of blob hashes is not the same as an empty one.
\<close>

record message =
  msg_To :: "address option"
  msg_From :: address
  msg_Nonce :: u64
  msg_Value :: int
  msg_GasLimit :: u64
  msg_GasPrice :: int
  msg_GasFeeCap :: "int option"
  msg_GasTipCap :: "int option"
  msg_Data :: bytes
  msg_AccessList :: tx_access_list
  msg_BlobGasFeeCap :: "int option"
  msg_BlobHashes :: "hash list option"
  msg_SkipAccountChecks :: bool

section \<open>Block hashes\<close>

text \<open>The chain: the consensus engine's author of a header, and the headers by hash and number.\<close>

record chain_context =
  ch_Author :: "header \<Rightarrow> address"
  ch_GetHeader :: "hash \<Rightarrow> u64 \<Rightarrow> header option"

definition number64 :: "header \<Rightarrow> u64" where
  "number64 h = word_of_int (h_Number h)"

text \<open>The loop that walks down the chain; \<^term>\<open>None\<close> when it does not end.\<close>

partial_function (option) hash_walk ::
  "chain_context \<Rightarrow> u64 \<Rightarrow> hash list \<Rightarrow> hash \<Rightarrow> u64 \<Rightarrow> (hash \<times> hash list) option" where
  "hash_walk ch n cache lastKnownHash lastKnownNumber =
     (case ch_GetHeader ch lastKnownHash lastKnownNumber of
        None \<Rightarrow> Some (0, cache)
      | Some h \<Rightarrow>
          let cache = cache @ [h_ParentHash h]; number = number64 h - 1
          in if n = number then Some (h_ParentHash h, cache)
             else hash_walk ch n cache (h_ParentHash h) number)"

text \<open>The function \<open>GetHashFn\<close> returns, with the cache it closes over.\<close>

definition GetHashFn :: "header \<Rightarrow> chain_context \<Rightarrow> hash list \<Rightarrow> u64 \<Rightarrow> (hash \<times> hash list) option" where
  "GetHashFn ref ch cache n =
     (if number64 ref \<le> n then Some (0, cache)
      else let cache = (if cache = [] then [h_ParentHash ref] else cache);
               index = number64 ref - n - 1
      in if index < of_nat (length cache) then do { h \<leftarrow> idx cache (unat index); Some (h, cache) }
         else hash_walk ch n cache (cache ! (length cache - 1)) (number64 ref - of_nat (length cache)))"

section \<open>The contexts\<close>

definition CanTransfer :: "statedb \<Rightarrow> address \<Rightarrow> int \<Rightarrow> bool \<times> statedb" where
  "CanTransfer d a amount = (case GetBalance d a of (b, d) \<Rightarrow> (b \<ge> amount, d))"

definition Transfer :: "statedb \<Rightarrow> address \<Rightarrow> address \<Rightarrow> int \<Rightarrow> statedb" where
  "Transfer d sender recipient amount = AddBalance (SubBalance d sender amount) recipient amount"

text \<open>
  The block hash of the context is the answer for an empty cache: the answers do not depend on the
  cache (below).  \<^term>\<open>None\<close> is the panic or the divergence of \<open>CalcBlobFee\<close>, which does not occur.
\<close>

definition NewEVMBlockContext :: "header \<Rightarrow> chain_context \<Rightarrow> address option \<Rightarrow> block_context option" where
  "NewEVMBlockContext h ch author = do {
     blobBaseFee \<leftarrow> (case h_ExcessBlobGas h of None \<Rightarrow> Some None | Some x \<Rightarrow> map_option Some (CalcBlobFee x));
     Some \<lparr>bc_CanTransfer = CanTransfer, bc_Transfer = Transfer,
       bc_GetHash = (\<lambda>n. case GetHashFn h ch [] n of None \<Rightarrow> 0 | Some (x, _) \<Rightarrow> x),
       bc_Coinbase = (case author of None \<Rightarrow> ch_Author ch h | Some a \<Rightarrow> a),
       bc_GasLimit = h_GasLimit h, bc_BlockNumber = h_Number h, bc_Time = h_Time h,
       bc_Difficulty = h_Difficulty h, bc_BaseFee = h_BaseFee h, bc_BlobBaseFee = blobBaseFee,
       bc_Random = (if h_Difficulty h = 0 then Some (h_MixDigest h) else None)\<rparr> }"

definition NewEVMTxContext :: "message \<Rightarrow> tx_context" where
  "NewEVMTxContext m =
     \<lparr>tc_Origin = msg_From m, tc_GasPrice = msg_GasPrice m,
      tc_BlobHashes = (case msg_BlobHashes m of None \<Rightarrow> [] | Some hs \<Rightarrow> hs),
      tc_BlobFeeCap = msg_BlobGasFeeCap m\<rparr>"

section \<open>The gas pool\<close>

text \<open>\<open>AddGas\<close> panics above \<^verbatim>\<open>uint64\<close>; \<open>SubGas\<close> returns \<open>ErrGasLimitReached\<close>, here
  the value \<^term>\<open>False\<close>, and takes nothing.\<close>

definition AddGas :: "u64 \<Rightarrow> u64 \<Rightarrow> u64 option" where
  "AddGas gp amount = (if gp > (- 1) - amount then None else Some (gp + amount))"

definition SubGas :: "u64 \<Rightarrow> u64 \<Rightarrow> bool \<times> u64" where
  "SubGas gp amount = (if gp < amount then (False, gp) else (True, gp - amount))"

section \<open>The cache of block hashes\<close>

text \<open>The hash \<open>m\<close> generations above the block with this hash and number.\<close>

primrec ancestor :: "chain_context \<Rightarrow> nat \<Rightarrow> hash \<Rightarrow> u64 \<Rightarrow> hash option" where
  "ancestor ch 0 h k = Some h"
| "ancestor ch (Suc m) h k =
     (case ch_GetHeader ch h k of None \<Rightarrow> None | Some x \<Rightarrow> ancestor ch m (h_ParentHash x) (k - 1))"

definition block_hash :: "header \<Rightarrow> chain_context \<Rightarrow> u64 \<Rightarrow> hash" where
  "block_hash ref ch n =
     (if number64 ref \<le> n then 0
      else case ancestor ch (unat (number64 ref - n - 1)) (h_ParentHash ref) (number64 ref - 1) of
        None \<Rightarrow> 0 | Some h \<Rightarrow> h)"

lemma ancestor_snoc:
  "ancestor ch (Suc m) h k =
     (case ancestor ch m h k of None \<Rightarrow> None
      | Some x \<Rightarrow> map_option h_ParentHash (ch_GetHeader ch x (k - of_nat m)))"
proof (induction m arbitrary: h k)
  case (Suc m)
  show ?case
  proof (cases "ch_GetHeader ch h k")
    case (Some x)
    have "k - 1 - of_nat m = k - of_nat (Suc m)" by simp
    with Some Suc [of "h_ParentHash x" "k - 1"] show ?thesis by (metis ancestor.simps(2) option.simps(5))
  qed simp
qed (simp split: option.split)

lemma ancestor_gone: "ancestor ch m h k = None \<Longrightarrow> m \<le> j \<Longrightarrow> ancestor ch j h k = None"
proof (induction m arbitrary: h k j)
  case (Suc m)
  then obtain j' where "j = Suc j'" "m \<le> j'" by (auto dest: Suc_le_D)
  with Suc show ?case by (simp split: option.splits)
qed simp

text \<open>Headers are found under their own number.\<close>

definition honest :: "chain_context \<Rightarrow> bool" where
  "honest ch \<longleftrightarrow> (\<forall>h k x. ch_GetHeader ch h k = Some x \<longrightarrow> number64 x = k)"

definition cache_ok :: "header \<Rightarrow> chain_context \<Rightarrow> hash list \<Rightarrow> bool" where
  "cache_ok ref ch cache \<longleftrightarrow> length cache \<le> unat (number64 ref) \<and>
     (\<forall>i<length cache. ancestor ch i (h_ParentHash ref) (number64 ref - 1) = Some (cache ! i))"

lemma cache_ok_snoc:
  assumes "cache_ok ref ch cache" "cache \<noteq> []" "length cache < unat (number64 ref)"
    "ch_GetHeader ch (cache ! (length cache - 1)) (number64 ref - of_nat (length cache)) = Some x"
  shows "cache_ok ref ch (cache @ [h_ParentHash x])"
proof -
  obtain m where m: "length cache = Suc m" using assms(2) by (cases cache) auto
  have "number64 ref - 1 - of_nat m = number64 ref - of_nat (length cache)" by (simp add: m)
  then have "ancestor ch (length cache) (h_ParentHash ref) (number64 ref - 1) = Some (h_ParentHash x)"
    unfolding m using assms(1,4) m by (subst ancestor_snoc) (simp add: cache_ok_def diff_diff_add)
  with assms show ?thesis by (auto simp: cache_ok_def nth_append less_Suc_eq)
qed

lemma hash_walk_correct:
  assumes "honest ch" "cache_ok ref ch cache" "cache \<noteq> []" "length cache \<le> unat (number64 ref - n - 1)"
    "n < number64 ref"
  shows "\<exists>cache'. hash_walk ch n cache (cache ! (length cache - 1)) (number64 ref - of_nat (length cache)) =
      Some (block_hash ref ch n, cache') \<and> cache_ok ref ch cache'"
  using assms
proof (induction "unat (number64 ref - n - 1) - length cache" arbitrary: cache rule: less_induct)
  case less
  let ?N = "number64 ref" and ?L = "length cache"
  let ?k = "?N - of_nat ?L" and ?h = "cache ! (length cache - 1)"
  obtain m where m: "?L = Suc m" using less.prems(3) by (cases cache) auto
  have i: "unat (?N - n - 1) = unat ?N - unat n - 1" "unat n < unat ?N"
    using less.prems(5) by (simp_all add: unat_sub_if_size word_size word_less_nat_alt)
  have k1: "?k - 1 = ?N - of_nat (Suc ?L)" by simp
  show ?case
  proof (cases "ch_GetHeader ch ?h ?k")
    case None
    have "ancestor ch (Suc m) (h_ParentHash ref) (?N - 1) = None"
      using less.prems(2) m None by (subst ancestor_snoc) (simp add: cache_ok_def diff_diff_add)
    then have "ancestor ch (unat (?N - n - 1)) (h_ParentHash ref) (?N - 1) = None"
      by (rule ancestor_gone) (use less.prems(4) m in simp)
    then show ?thesis using less.prems(2,5) None by (simp add: hash_walk.simps block_hash_def)
  next
    case (Some x)
    let ?c = "cache @ [h_ParentHash x]"
    have x: "number64 x - 1 = ?N - of_nat (Suc ?L)" using less.prems(1) Some k1 by (auto simp: honest_def)
    have ok: "cache_ok ref ch ?c" by (rule cache_ok_snoc [OF less.prems(2,3) _ Some]) (use less.prems(4) i in linarith)
    show ?thesis
    proof (cases "?L = unat (?N - n - 1)")
      case True
      have "n = ?N - of_nat (Suc ?L)" unfolding True by simp
      moreover have "block_hash ref ch n = h_ParentHash x"
        using ok less.prems(5) [folded not_le] by (simp add: block_hash_def cache_ok_def flip: True)
      ultimately show ?thesis using ok Some x by (simp add: hash_walk.simps)
    next
      case False
      have "n \<noteq> ?N - of_nat (Suc ?L)"
      proof
        assume "n = ?N - of_nat (Suc ?L)"
        then have "?N - n - 1 = of_nat ?L" by simp
        moreover have "unat (?N - n - 1) < 2 ^ 64" using unsigned_less [of "?N - n - 1", where 'a = nat] by simp
        then have "?L < 2 ^ 64" using less.prems(4) by linarith
        ultimately show False using False by (simp add: of_nat_inverse)
      qed
      then have "hash_walk ch n cache ?h ?k = hash_walk ch n ?c (h_ParentHash x) (?N - of_nat (Suc ?L))"
        using Some x by (simp add: hash_walk.simps [of ch n cache] Let_def diff_diff_add add.commute)
      then show ?thesis using less.hyps [of ?c] less.prems ok False by simp
    qed
  qed
qed

text \<open>One query.\<close>

lemma GetHashFn_correct:
  assumes "honest ch" "cache_ok ref ch cache"
  shows "\<exists>cache'. GetHashFn ref ch cache n = Some (block_hash ref ch n, cache') \<and> cache_ok ref ch cache'"
proof (cases "number64 ref \<le> n")
  case False
  let ?N = "number64 ref"
  let ?c = "if cache = [] then [h_ParentHash ref] else cache"
  have n: "n < ?N" using False by simp
  then have pos: "0 < unat ?N" by (simp add: word_less_nat_alt)
  have ok: "cache_ok ref ch ?c" using assms(2) pos by (simp add: cache_ok_def)
  have "length ?c \<le> unat ?N" "unat ?N < 2 ^ 64" using ok unsigned_less [of ?N, where 'a = nat] by (simp_all only: cache_ok_def) simp
  then have len: "length ?c < 2 ^ 64 \<and> length ?c \<le> unat ?N" by linarith
  show ?thesis
  proof (cases "?N - n - 1 < of_nat (length ?c)")
    case True
    then have "unat (?N - n - 1) < length ?c" using len by (simp add: word_less_nat_alt of_nat_inverse del: length_0_conv)
    with True False ok show ?thesis
      by (intro exI [of _ ?c]) (simp add: GetHashFn_def Let_def idx_def block_hash_def cache_ok_def)
  next
    case walk: False
    then have "length ?c \<le> unat (?N - n - 1)" using len by (simp add: word_less_nat_alt of_nat_inverse del: length_0_conv)
    from hash_walk_correct [OF assms(1) ok _ this n] walk False show ?thesis by (simp add: GetHashFn_def Let_def)
  qed
qed (use assms in \<open>simp add: GetHashFn_def block_hash_def\<close>)

text \<open>A sequence of queries to one function, its cache carried along.\<close>

fun ask :: "header \<Rightarrow> chain_context \<Rightarrow> hash list \<Rightarrow> u64 list \<Rightarrow> hash list option" where
  "ask ref ch cache [] = Some []"
| "ask ref ch cache (n # ns) = do {
     (h, cache) \<leftarrow> GetHashFn ref ch cache n;
     hs \<leftarrow> ask ref ch cache ns;
     Some (h # hs) }"

lemma ask_correct: "honest ch \<Longrightarrow> cache_ok ref ch cache \<Longrightarrow> ask ref ch cache ns = Some (map (block_hash ref ch) ns)"
proof (induction ns arbitrary: cache)
  case (Cons n ns)
  from GetHashFn_correct [OF Cons.prems] obtain c where
    "GetHashFn ref ch cache n = Some (block_hash ref ch n, c)" "cache_ok ref ch c" by blast
  with Cons show ?case by simp
qed simp

text \<open>
  C23: Whatever blocks have been asked for before, and in whatever order, the function that
  \<open>GetHashFn\<close> returns ends and answers with the ancestor's hash, zero when the block is not
  below the current one or the chain has lost a header on the way: its cache is invisible.
\<close>

theorem GetHashFn_cache:
  assumes "honest ch"
  shows "ask ref ch [] ns = Some (map (block_hash ref ch) ns)"
  by (rule ask_correct [OF assms]) (simp add: cache_ok_def)

definition demo_chain :: chain_context where
  "demo_chain = \<lparr>ch_Author = h_Coinbase,
     ch_GetHeader = (\<lambda>h k. if h = 3 \<and> k = 99 then Some (demo_header\<lparr>h_Number := 99, h_ParentHash := 2\<rparr>)
       else if h = 2 \<and> k = 98 then Some (demo_header\<lparr>h_Number := 98, h_ParentHash := 1\<rparr>) else None)\<rparr>"

lemma GetHashFn_cache_witness: "ask demo_header demo_chain [] [97, 99, 98, 100, 5] = Some [1, 3, 2, 0, 0]"
proof -
  have h: "honest demo_chain" by (simp add: honest_def demo_chain_def number64_def)
  have n: "number64 demo_header = 100" "h_ParentHash demo_header = 3" by (simp_all add: number64_def demo_header_def)
  have 2: "ancestor demo_chain 2 3 99 = Some 1" unfolding numeral_2_eq_2 by (simp add: demo_chain_def)
  have 1: "ancestor demo_chain 1 3 99 = Some 2" by (simp add: demo_chain_def)
  have 94: "ancestor demo_chain 94 3 99 = None"
    by (rule ancestor_gone [of _ "Suc (Suc (Suc 0))"]) (simp_all add: demo_chain_def)
  have "block_hash demo_header demo_chain 97 = 1" "block_hash demo_header demo_chain 99 = 3"
    "block_hash demo_header demo_chain 98 = 2" "block_hash demo_header demo_chain 100 = 0"
    "block_hash demo_header demo_chain 5 = 0"
    using 1 2 94 by (simp_all add: block_hash_def n)
  then show ?thesis unfolding GetHashFn_cache [OF h] by simp
qed

section \<open>Transfers\<close>

lemma CanTransfer_peek: "sdb_inv d \<Longrightarrow> CanTransfer d a v = (b, d') \<Longrightarrow> GetBalance d a = (fst (GetBalance d a), d')"
  by (auto simp: CanTransfer_def split: prod.splits)

end
