(* ===== verification/Opcodes.thy ===== *)
theory Opcodes
  imports Gas
begin

text \<open>
  The opcodes of \<^verbatim>\<open>core/vm/opcodes.go\<close>.  A name that is also an operator here has the
  suffix \<open>_OP\<close>; the PUSH, DUP and SWAP families are written from their first code.
\<close>

abbreviation (input) STOP :: byte where "STOP \<equiv> 0x00"
abbreviation (input) ADD :: byte where "ADD \<equiv> 0x01"
abbreviation (input) MUL :: byte where "MUL \<equiv> 0x02"
abbreviation (input) SUB :: byte where "SUB \<equiv> 0x03"
abbreviation (input) DIV :: byte where "DIV \<equiv> 0x04"
abbreviation (input) SDIV :: byte where "SDIV \<equiv> 0x05"
abbreviation (input) MOD :: byte where "MOD \<equiv> 0x06"
abbreviation (input) SMOD :: byte where "SMOD \<equiv> 0x07"
abbreviation (input) ADDMOD :: byte where "ADDMOD \<equiv> 0x08"
abbreviation (input) MULMOD :: byte where "MULMOD \<equiv> 0x09"
abbreviation (input) EXP :: byte where "EXP \<equiv> 0x0a"
abbreviation (input) SIGNEXTEND :: byte where "SIGNEXTEND \<equiv> 0x0b"
abbreviation (input) LT :: byte where "LT \<equiv> 0x10"
abbreviation (input) GT :: byte where "GT \<equiv> 0x11"
abbreviation (input) SLT :: byte where "SLT \<equiv> 0x12"
abbreviation (input) SGT :: byte where "SGT \<equiv> 0x13"
abbreviation (input) EQ :: byte where "EQ \<equiv> 0x14"
abbreviation (input) ISZERO :: byte where "ISZERO \<equiv> 0x15"
abbreviation (input) AND_OP :: byte where "AND_OP \<equiv> 0x16"
abbreviation (input) OR_OP :: byte where "OR_OP \<equiv> 0x17"
abbreviation (input) XOR_OP :: byte where "XOR_OP \<equiv> 0x18"
abbreviation (input) NOT_OP :: byte where "NOT_OP \<equiv> 0x19"
abbreviation (input) BYTE_OP :: byte where "BYTE_OP \<equiv> 0x1a"
abbreviation (input) SHL :: byte where "SHL \<equiv> 0x1b"
abbreviation (input) SHR :: byte where "SHR \<equiv> 0x1c"
abbreviation (input) SAR :: byte where "SAR \<equiv> 0x1d"
abbreviation (input) KECCAK256 :: byte where "KECCAK256 \<equiv> 0x20"
abbreviation (input) ADDRESS :: byte where "ADDRESS \<equiv> 0x30"
abbreviation (input) BALANCE :: byte where "BALANCE \<equiv> 0x31"
abbreviation (input) ORIGIN :: byte where "ORIGIN \<equiv> 0x32"
abbreviation (input) CALLER :: byte where "CALLER \<equiv> 0x33"
abbreviation (input) CALLVALUE :: byte where "CALLVALUE \<equiv> 0x34"
abbreviation (input) CALLDATALOAD :: byte where "CALLDATALOAD \<equiv> 0x35"
abbreviation (input) CALLDATASIZE :: byte where "CALLDATASIZE \<equiv> 0x36"
abbreviation (input) CALLDATACOPY :: byte where "CALLDATACOPY \<equiv> 0x37"
abbreviation (input) CODESIZE :: byte where "CODESIZE \<equiv> 0x38"
abbreviation (input) CODECOPY :: byte where "CODECOPY \<equiv> 0x39"
abbreviation (input) GASPRICE :: byte where "GASPRICE \<equiv> 0x3a"
abbreviation (input) EXTCODESIZE :: byte where "EXTCODESIZE \<equiv> 0x3b"
abbreviation (input) EXTCODECOPY :: byte where "EXTCODECOPY \<equiv> 0x3c"
abbreviation (input) RETURNDATASIZE :: byte where "RETURNDATASIZE \<equiv> 0x3d"
abbreviation (input) RETURNDATACOPY :: byte where "RETURNDATACOPY \<equiv> 0x3e"
abbreviation (input) EXTCODEHASH :: byte where "EXTCODEHASH \<equiv> 0x3f"
abbreviation (input) BLOCKHASH :: byte where "BLOCKHASH \<equiv> 0x40"
abbreviation (input) COINBASE :: byte where "COINBASE \<equiv> 0x41"
abbreviation (input) TIMESTAMP :: byte where "TIMESTAMP \<equiv> 0x42"
abbreviation (input) NUMBER :: byte where "NUMBER \<equiv> 0x43"
abbreviation (input) DIFFICULTY :: byte where "DIFFICULTY \<equiv> 0x44"
abbreviation (input) RANDOM :: byte where "RANDOM \<equiv> 0x44"
abbreviation (input) PREVRANDAO :: byte where "PREVRANDAO \<equiv> 0x44"
abbreviation (input) GASLIMIT :: byte where "GASLIMIT \<equiv> 0x45"
abbreviation (input) CHAINID :: byte where "CHAINID \<equiv> 0x46"
abbreviation (input) SELFBALANCE :: byte where "SELFBALANCE \<equiv> 0x47"
abbreviation (input) BASEFEE :: byte where "BASEFEE \<equiv> 0x48"
abbreviation (input) BLOBHASH :: byte where "BLOBHASH \<equiv> 0x49"
abbreviation (input) BLOBBASEFEE :: byte where "BLOBBASEFEE \<equiv> 0x4a"
abbreviation (input) POP :: byte where "POP \<equiv> 0x50"
abbreviation (input) MLOAD :: byte where "MLOAD \<equiv> 0x51"
abbreviation (input) MSTORE :: byte where "MSTORE \<equiv> 0x52"
abbreviation (input) MSTORE8 :: byte where "MSTORE8 \<equiv> 0x53"
abbreviation (input) SLOAD :: byte where "SLOAD \<equiv> 0x54"
abbreviation (input) SSTORE :: byte where "SSTORE \<equiv> 0x55"
abbreviation (input) JUMP :: byte where "JUMP \<equiv> 0x56"
abbreviation (input) JUMPI :: byte where "JUMPI \<equiv> 0x57"
abbreviation (input) PC :: byte where "PC \<equiv> 0x58"
abbreviation (input) MSIZE :: byte where "MSIZE \<equiv> 0x59"
abbreviation (input) GAS :: byte where "GAS \<equiv> 0x5a"
abbreviation (input) TLOAD :: byte where "TLOAD \<equiv> 0x5c"
abbreviation (input) TSTORE :: byte where "TSTORE \<equiv> 0x5d"
abbreviation (input) MCOPY :: byte where "MCOPY \<equiv> 0x5e"
abbreviation (input) PUSH0 :: byte where "PUSH0 \<equiv> 0x5f"
abbreviation (input) LOG0 :: byte where "LOG0 \<equiv> 0xa0"
abbreviation (input) LOG1 :: byte where "LOG1 \<equiv> 0xa1"
abbreviation (input) LOG2 :: byte where "LOG2 \<equiv> 0xa2"
abbreviation (input) LOG3 :: byte where "LOG3 \<equiv> 0xa3"
abbreviation (input) LOG4 :: byte where "LOG4 \<equiv> 0xa4"
abbreviation (input) CREATE :: byte where "CREATE \<equiv> 0xf0"
abbreviation (input) CALL :: byte where "CALL \<equiv> 0xf1"
abbreviation (input) CALLCODE :: byte where "CALLCODE \<equiv> 0xf2"
abbreviation (input) RETURN :: byte where "RETURN \<equiv> 0xf3"
abbreviation (input) DELEGATECALL :: byte where "DELEGATECALL \<equiv> 0xf4"
abbreviation (input) CREATE2 :: byte where "CREATE2 \<equiv> 0xf5"
abbreviation (input) STATICCALL :: byte where "STATICCALL \<equiv> 0xfa"
abbreviation (input) REVERT :: byte where "REVERT \<equiv> 0xfd"
abbreviation (input) INVALID :: byte where "INVALID \<equiv> 0xfe"
abbreviation (input) SELFDESTRUCT :: byte where "SELFDESTRUCT \<equiv> 0xff"

definition PUSH :: "nat \<Rightarrow> byte" where "PUSH n = 0x5f + of_nat n"
definition DUP :: "nat \<Rightarrow> byte" where "DUP n = 0x7f + of_nat n"
definition SWAP :: "nat \<Rightarrow> byte" where "SWAP n = 0x8f + of_nat n"

definition IsPush :: "byte \<Rightarrow> bool" where
  "IsPush b \<longleftrightarrow> PUSH0 \<le> b \<and> b \<le> PUSH 32"

end
