(* ===== verification/Instructions.thy ===== *)
theory Instructions
  imports Opcodes
begin

text \<open>
  \<^verbatim>\<open>core/vm/instructions.go\<close> and the instructions of \<^verbatim>\<open>eips.go\<close>.  An instruction works
  on the EVM and the scope (pc, stack, memory, contract) and returns bytes and an error;
  \<open>STOP\<close> and \<open>RETURN\<close> return \<open>ErrStopToken\<close>.  The calls back into the EVM are the fields
  of \<open>callees\<close>, which the interpreter fills with its own functions.  A nil byte slice is empty.
\<close>

section \<open>The shape of an instruction\<close>

record 't callees =
  c_Call :: "'t evm \<Rightarrow> contract_ref \<Rightarrow> address \<Rightarrow> bytes \<Rightarrow> u64 \<Rightarrow> int \<Rightarrow>
    ('t evm \<times> bytes \<times> u64 \<times> vm_error option) option"
  c_CallCode :: "'t evm \<Rightarrow> contract_ref \<Rightarrow> address \<Rightarrow> bytes \<Rightarrow> u64 \<Rightarrow> int \<Rightarrow>
    ('t evm \<times> bytes \<times> u64 \<times> vm_error option) option"
  c_DelegateCall :: "'t evm \<Rightarrow> contract_ref \<Rightarrow> address \<Rightarrow> bytes \<Rightarrow> u64 \<Rightarrow>
    ('t evm \<times> bytes \<times> u64 \<times> vm_error option) option"
  c_StaticCall :: "'t evm \<Rightarrow> contract_ref \<Rightarrow> address \<Rightarrow> bytes \<Rightarrow> u64 \<Rightarrow>
    ('t evm \<times> bytes \<times> u64 \<times> vm_error option) option"
  c_Create :: "'t evm \<Rightarrow> contract_ref \<Rightarrow> bytes \<Rightarrow> u64 \<Rightarrow> int \<Rightarrow>
    ('t evm \<times> bytes \<times> address \<times> u64 \<times> vm_error option) option"
  c_Create2 :: "'t evm \<Rightarrow> contract_ref \<Rightarrow> bytes \<Rightarrow> u64 \<Rightarrow> int \<Rightarrow> u256 \<Rightarrow>
    ('t evm \<times> bytes \<times> address \<times> u64 \<times> vm_error option) option"

type_synonym 't frame = "'t evm \<times> scope"

type_synonym 't executionFunc =
  "'t callees \<Rightarrow> 't env \<Rightarrow> 't frame \<Rightarrow> ('t frame \<times> bytes \<times> vm_error option) option"

text \<open>The ways an instruction ends: normally, with an error, with a new stack.\<close>

definition fin :: "'t evm \<Rightarrow> scope \<Rightarrow> ('t frame \<times> bytes \<times> vm_error option) option" where
  "fin e s = Some ((e, s), [], None)"

definition fails :: "'t evm \<Rightarrow> scope \<Rightarrow> vm_error \<Rightarrow> ('t frame \<times> bytes \<times> vm_error option) option" where
  "fails e s err = Some ((e, s), [], Some err)"

definition fin_st :: "'t evm \<Rightarrow> scope \<Rightarrow> stack \<Rightarrow> ('t frame \<times> bytes \<times> vm_error option) option" where
  "fin_st e s st = fin e (s\<lparr>Stack := st\<rparr>)"

text \<open>Read the top, pop one and read the next, pop two and read the third; the result overwrites it.\<close>

definition unary :: "(u256 \<Rightarrow> u256) \<Rightarrow> 't executionFunc" where
  "unary f K E p = (case p of (e, s) \<Rightarrow> do {
     x \<leftarrow> st_peek (Stack s);
     st \<leftarrow> st_set (Stack s) (f x);
     fin_st e s st })"

definition binary :: "(u256 \<Rightarrow> u256 \<Rightarrow> u256) \<Rightarrow> 't executionFunc" where
  "binary f K E p = (case p of (e, s) \<Rightarrow> do {
     (x, st) \<leftarrow> st_pop (Stack s);
     y \<leftarrow> st_peek st;
     st \<leftarrow> st_set st (f x y);
     fin_st e s st })"

definition ternary :: "(u256 \<Rightarrow> u256 \<Rightarrow> u256 \<Rightarrow> u256) \<Rightarrow> 't executionFunc" where
  "ternary f K E p = (case p of (e, s) \<Rightarrow> do {
     (x, st) \<leftarrow> st_pop (Stack s);
     (y, st) \<leftarrow> st_pop st;
     z \<leftarrow> st_peek st;
     st \<leftarrow> st_set st (f x y z);
     fin_st e s st })"

definition pushes :: "('t env \<Rightarrow> 't evm \<Rightarrow> scope \<Rightarrow> u256 option) \<Rightarrow> 't executionFunc" where
  "pushes v K E p = (case p of (e, s) \<Rightarrow> do {
     w \<leftarrow> v E e s;
     fin_st e s (st_push (Stack s) w) })"

definition bool_word :: "bool \<Rightarrow> u256" where
  "bool_word b = (if b then 1 else 0)"

text \<open>\<open>uint256.FromBig\<close> of a nil integer gives a nil pointer, whose use panics.\<close>

definition FromBig :: "int option \<Rightarrow> u256 option" where
  "FromBig b = map_option word_of_int b"

abbreviation (input) ops :: "'t env \<Rightarrow> uint256_ops" where "ops E \<equiv> ext_ops (ext E)"

text \<open>\<open>int64(w.Uint64())\<close>.\<close>

definition Int64 :: "u256 \<Rightarrow> int" where
  "Int64 w = sint (Uint64 w)"

text \<open>A call of the tracer when there is one.\<close>

definition with_tracer :: "('t \<Rightarrow> statedb \<Rightarrow> ('t \<times> statedb) option) \<Rightarrow> 't evm \<Rightarrow> 't evm option" where
  "with_tracer f e =
     (case Tracer e of None \<Rightarrow> Some e
      | Some t \<Rightarrow> do { (t, d) \<leftarrow> f t (StateDB_of e); Some (e\<lparr>Tracer := Some t, StateDB_of := d\<rparr>) })"

section \<open>Arithmetic and logic\<close>

definition opAdd :: "'t executionFunc" where "opAdd K E = binary (u_bin (ops E) UAdd) K E"
definition opSub :: "'t executionFunc" where "opSub K E = binary (u_bin (ops E) USub) K E"
definition opMul :: "'t executionFunc" where "opMul K E = binary (u_bin (ops E) UMul) K E"
definition opDiv :: "'t executionFunc" where "opDiv K E = binary (u_bin (ops E) UDiv) K E"
definition opSdiv :: "'t executionFunc" where "opSdiv K E = binary (u_bin (ops E) USDiv) K E"
definition opMod :: "'t executionFunc" where "opMod K E = binary (u_bin (ops E) UMod) K E"
definition opSmod :: "'t executionFunc" where "opSmod K E = binary (u_bin (ops E) USMod) K E"
definition opExp :: "'t executionFunc" where "opExp K E = binary (u_bin (ops E) UExp) K E"

definition opSignExtend :: "'t executionFunc" where
  "opSignExtend K E = binary (\<lambda>back num. u_bin (ops E) UExtendSign num back) K E"

definition opNot :: "'t executionFunc" where "opNot K E = unary (u_Not (ops E)) K E"

definition opLt :: "'t executionFunc" where
  "opLt K E = binary (\<lambda>x y. bool_word (u_cmp (ops E) ULt x y)) K E"
definition opGt :: "'t executionFunc" where
  "opGt K E = binary (\<lambda>x y. bool_word (u_cmp (ops E) UGt x y)) K E"
definition opSlt :: "'t executionFunc" where
  "opSlt K E = binary (\<lambda>x y. bool_word (u_cmp (ops E) USlt x y)) K E"
definition opSgt :: "'t executionFunc" where
  "opSgt K E = binary (\<lambda>x y. bool_word (u_cmp (ops E) USgt x y)) K E"

definition opEq :: "'t executionFunc" where "opEq K E = binary (\<lambda>x y. bool_word (x = y)) K E"
definition opIszero :: "'t executionFunc" where "opIszero K E = unary (\<lambda>x. bool_word (x = 0)) K E"
definition opAnd :: "'t executionFunc" where "opAnd K E = binary (u_bin (ops E) UAnd) K E"
definition opOr :: "'t executionFunc" where "opOr K E = binary (u_bin (ops E) UOr) K E"
definition opXor :: "'t executionFunc" where "opXor K E = binary (u_bin (ops E) UXor) K E"

definition opByte :: "'t executionFunc" where
  "opByte K E = binary (\<lambda>th val. u_bin (ops E) UByte val th) K E"

definition opAddmod :: "'t executionFunc" where
  "opAddmod K E = ternary (\<lambda>x y z. if z = 0 then 0 else u_ter (ops E) UAddMod x y z) K E"
definition opMulmod :: "'t executionFunc" where
  "opMulmod K E = ternary (u_ter (ops E) UMulMod) K E"

definition opSHL :: "'t executionFunc" where
  "opSHL K E = binary (\<lambda>sh val. if unat sh < 256 then u_shf (ops E) ULsh val (unat (Uint64 sh)) else 0) K E"
definition opSHR :: "'t executionFunc" where
  "opSHR K E = binary (\<lambda>sh val. if unat sh < 256 then u_shf (ops E) URsh val (unat (Uint64 sh)) else 0) K E"
definition opSAR :: "'t executionFunc" where
  "opSAR K E = binary (\<lambda>sh val.
     if unat sh > 256 then (if sint val \<ge> 0 then 0 else - 1)
     else u_shf (ops E) USRsh val (unat (Uint64 sh))) K E"

definition opKeccak256 :: "'t executionFunc" where
  "opKeccak256 K E p = (case p of (e, s) \<Rightarrow> do {
     (off, st) \<leftarrow> st_pop (Stack s);
     sz \<leftarrow> st_peek st;
     data \<leftarrow> mem_GetPtr (Memory s) (Int64 off) (Int64 sz);
     let h = keccak (db (StateDB_of e)) data;
     let e = (if cfg_EnablePreimageRecording (Config E)
              then upd_db e (AddPreimage (StateDB_of e) h data) else e);
     st \<leftarrow> st_set st h;
     fin_st e s st })"

section \<open>Environment\<close>

definition opAddress :: "'t executionFunc" where
  "opAddress = pushes (\<lambda>E e s. Some (ucast (ct_self (Contract s))))"

definition opBalance :: "'t executionFunc" where
  "opBalance K E p = (case p of (e, s) \<Rightarrow> do {
     slot \<leftarrow> st_peek (Stack s);
     let (b, d) = GetBalance (StateDB_of e) (addr_of slot);
     st \<leftarrow> st_set (Stack s) (word_of_int b);
     fin_st (upd_db e d) s st })"

definition opOrigin :: "'t executionFunc" where
  "opOrigin = pushes (\<lambda>E e s. Some (ucast (tc_Origin (TxContext E))))"
definition opCaller :: "'t executionFunc" where
  "opCaller = pushes (\<lambda>E e s. Some (ucast (CallerAddress (Contract s))))"
definition opCallValue :: "'t executionFunc" where
  "opCallValue = pushes (\<lambda>E e s. FromBig (ct_value (Contract s)))"

definition opCallDataLoad :: "'t executionFunc" where
  "opCallDataLoad K E p = (case p of (e, s) \<Rightarrow> do {
     x \<leftarrow> st_peek (Stack s);
     v \<leftarrow> (if IsUint64 x then map_option be_word (getData (Input (Contract s)) (Uint64 x) 32) else Some 0);
     st \<leftarrow> st_set (Stack s) v;
     fin_st e s st })"

definition opCallDataSize :: "'t executionFunc" where
  "opCallDataSize = pushes (\<lambda>E e s. Some (of_nat (length (Input (Contract s)))))"

text \<open>Pop three arguments and copy part of \<open>src\<close> to memory, as the three copying instructions do.\<close>

definition copy_to_memory :: "bytes \<Rightarrow> stack \<Rightarrow> 't evm \<Rightarrow> scope \<Rightarrow> ('t frame \<times> bytes \<times> vm_error option) option" where
  "copy_to_memory src st e s = do {
     (memOffset, st) \<leftarrow> st_pop st;
     (dataOffset, st) \<leftarrow> st_pop st;
     (len, st) \<leftarrow> st_pop st;
     let off64 = (if IsUint64 dataOffset then Uint64 dataOffset else 0xffffffffffffffff);
     data \<leftarrow> getData src off64 (Uint64 len);
     m \<leftarrow> mem_Set (Memory s) (Uint64 memOffset) (Uint64 len) data;
     fin e (s\<lparr>Stack := st, Memory := m\<rparr>) }"

definition opCallDataCopy :: "'t executionFunc" where
  "opCallDataCopy K E p = (case p of (e, s) \<Rightarrow> copy_to_memory (Input (Contract s)) (Stack s) e s)"

definition opReturnDataSize :: "'t executionFunc" where
  "opReturnDataSize = pushes (\<lambda>E e s. Some (of_nat (length (returnData e))))"

definition opReturnDataCopy :: "'t executionFunc" where
  "opReturnDataCopy K E p = (case p of (e, s) \<Rightarrow> do {
     (memOffset, st) \<leftarrow> st_pop (Stack s);
     (dataOffset, st) \<leftarrow> st_pop st;
     (len, st) \<leftarrow> st_pop st;
     let s = s\<lparr>Stack := st\<rparr>;
     if \<not> IsUint64 dataOffset then fails e s ErrReturnDataOutOfBounds
     else let en = u_bin (ops E) UAdd dataOffset len
          in if \<not> IsUint64 en \<or> length (returnData e) < unat (Uint64 en)
             then fails e s ErrReturnDataOutOfBounds
             else do {
               d \<leftarrow> go_slice (returnData e) (unat (Uint64 dataOffset)) (unat (Uint64 en));
               m \<leftarrow> mem_Set (Memory s) (Uint64 memOffset) (Uint64 len) d;
               fin e (s\<lparr>Memory := m\<rparr>) } })"

definition opExtCodeSize :: "'t executionFunc" where
  "opExtCodeSize K E p = (case p of (e, s) \<Rightarrow> do {
     slot \<leftarrow> st_peek (Stack s);
     let (n, d) = GetCodeSize (StateDB_of e) (addr_of slot);
     st \<leftarrow> st_set (Stack s) (of_nat n);
     fin_st (upd_db e d) s st })"

definition opCodeSize :: "'t executionFunc" where
  "opCodeSize = pushes (\<lambda>E e s. Some (of_nat (length (Code (Contract s)))))"

definition opCodeCopy :: "'t executionFunc" where
  "opCodeCopy K E p = (case p of (e, s) \<Rightarrow> copy_to_memory (Code (Contract s)) (Stack s) e s)"

definition slice_of :: "bytes option \<Rightarrow> bytes" where
  "slice_of c = (case c of None \<Rightarrow> [] | Some b \<Rightarrow> b)"

definition opExtCodeCopy :: "'t executionFunc" where
  "opExtCodeCopy K E p = (case p of (e, s) \<Rightarrow> do {
     (a, st) \<leftarrow> st_pop (Stack s);
     (memOffset, st3) \<leftarrow> st_pop st;
     (codeOffset, st2) \<leftarrow> st_pop st3;
     (len, st1) \<leftarrow> st_pop st2;
     let (code, d) = GetCode (StateDB_of e) (addr_of a);
     copy_to_memory (slice_of code) st (upd_db e d) s })"

definition opExtCodeHash :: "'t executionFunc" where
  "opExtCodeHash K E p = (case p of (e, s) \<Rightarrow> do {
     slot \<leftarrow> st_peek (Stack s);
     let (em, d) = Empty (StateDB_of e) (addr_of slot);
     let (h, d) = (if em then (0, d) else GetCodeHash d (addr_of slot));
     st \<leftarrow> st_set (Stack s) h;
     fin_st (upd_db e d) s st })"

definition opGasprice :: "'t executionFunc" where
  "opGasprice = pushes (\<lambda>E e s. FromBig (Some (tc_GasPrice (TxContext E))))"

definition opBlockhash :: "'t executionFunc" where
  "opBlockhash K E p = (case p of (e, s) \<Rightarrow> do {
     num \<leftarrow> st_peek (Stack s);
     let upper = (word_of_int (bc_BlockNumber (Context E)) :: u64);
     let lower = (if upper < 257 then 0 else upper - 256);
     let num64 = Uint64 num;
     st \<leftarrow> st_set (Stack s)
       (if \<not> IsUint64 num then 0
        else if num64 \<ge> lower \<and> num64 < upper then bc_GetHash (Context E) num64 else 0);
     fin_st e s st })"

definition opCoinbase :: "'t executionFunc" where
  "opCoinbase = pushes (\<lambda>E e s. Some (ucast (bc_Coinbase (Context E))))"
definition opTimestamp :: "'t executionFunc" where
  "opTimestamp = pushes (\<lambda>E e s. Some (ucast (bc_Time (Context E))))"
definition opNumber :: "'t executionFunc" where
  "opNumber = pushes (\<lambda>E e s. FromBig (Some (bc_BlockNumber (Context E))))"
definition opDifficulty :: "'t executionFunc" where
  "opDifficulty = pushes (\<lambda>E e s. FromBig (Some (bc_Difficulty (Context E))))"
definition opRandom :: "'t executionFunc" where
  "opRandom = pushes (\<lambda>E e s. bc_Random (Context E))"
definition opGasLimit :: "'t executionFunc" where
  "opGasLimit = pushes (\<lambda>E e s. Some (ucast (bc_GasLimit (Context E))))"

definition opSelfBalance :: "'t executionFunc" where
  "opSelfBalance K E p = (case p of (e, s) \<Rightarrow>
     let (b, d) = GetBalance (StateDB_of e) (ct_self (Contract s))
     in fin_st (upd_db e d) s (st_push (Stack s) (word_of_int b)))"

definition opChainID :: "'t executionFunc" where
  "opChainID = pushes (\<lambda>E e s. FromBig (ChainID (chainConfig E)))"
definition opBaseFee :: "'t executionFunc" where
  "opBaseFee = pushes (\<lambda>E e s. FromBig (bc_BaseFee (Context E)))"
definition opBlobBaseFee :: "'t executionFunc" where
  "opBlobBaseFee = pushes (\<lambda>E e s. FromBig (bc_BlobBaseFee (Context E)))"
definition opPush0 :: "'t executionFunc" where
  "opPush0 = pushes (\<lambda>E e s. Some 0)"

definition opBlobHash :: "'t executionFunc" where
  "opBlobHash K E = unary (\<lambda>index.
     if unat index < length (tc_BlobHashes (TxContext E))
     then tc_BlobHashes (TxContext E) ! unat (Uint64 index) else 0) K E"

section \<open>Stack, memory, storage and control\<close>

definition opPop :: "'t executionFunc" where
  "opPop K E p = (case p of (e, s) \<Rightarrow> do { (_, st) \<leftarrow> st_pop (Stack s); fin_st e s st })"

definition opMload :: "'t executionFunc" where
  "opMload K E p = (case p of (e, s) \<Rightarrow> do {
     v \<leftarrow> st_peek (Stack s);
     b \<leftarrow> mem_GetPtr (Memory s) (Int64 v) 32;
     st \<leftarrow> st_set (Stack s) (be_word b);
     fin_st e s st })"

definition opMstore :: "'t executionFunc" where
  "opMstore K E p = (case p of (e, s) \<Rightarrow> do {
     (mStart, st) \<leftarrow> st_pop (Stack s);
     (val, st) \<leftarrow> st_pop st;
     m \<leftarrow> mem_Set32 (Memory s) (Uint64 mStart) val;
     fin e (s\<lparr>Stack := st, Memory := m\<rparr>) })"

definition opMstore8 :: "'t executionFunc" where
  "opMstore8 K E p = (case p of (e, s) \<Rightarrow> do {
     (off, st) \<leftarrow> st_pop (Stack s);
     (val, st) \<leftarrow> st_pop st;
     require (unat (Uint64 off) < length (mem_store (Memory s)));
     fin e (s\<lparr>Stack := st,
       Memory := (Memory s)\<lparr>mem_store := (mem_store (Memory s))[unat (Uint64 off) := ucast (Uint64 val)]\<rparr>\<rparr>) })"

definition opMcopy :: "'t executionFunc" where
  "opMcopy K E p = (case p of (e, s) \<Rightarrow> do {
     (dst, st) \<leftarrow> st_pop (Stack s);
     (src, st) \<leftarrow> st_pop st;
     (len, st) \<leftarrow> st_pop st;
     m \<leftarrow> mem_Copy (Memory s) (Uint64 dst) (Uint64 src) (Uint64 len);
     fin e (s\<lparr>Stack := st, Memory := m\<rparr>) })"

definition opSload :: "'t executionFunc" where
  "opSload K E p = (case p of (e, s) \<Rightarrow> do {
     loc \<leftarrow> st_peek (Stack s);
     let (val, d) = GetState (StateDB_of e) (ct_self (Contract s)) loc;
     st \<leftarrow> st_set (Stack s) val;
     fin_st (upd_db e d) s st })"

definition opSstore :: "'t executionFunc" where
  "opSstore K E p = (case p of (e, s) \<Rightarrow>
     if readOnly e then fails e s ErrWriteProtection
     else do {
       (loc, st) \<leftarrow> st_pop (Stack s);
       (val, st) \<leftarrow> st_pop st;
       fin_st (upd_db e (SetState (StateDB_of e) (ct_self (Contract s)) loc val)) s st })"

text \<open>The hook also records the write in the tracer's account state, which must be there.\<close>

definition upd_account_state :: "(account_state \<Rightarrow> account_state) \<Rightarrow> 't evm \<Rightarrow> 't evm option" where
  "upd_account_state f e = do {
     a \<leftarrow> accountState (StateDB_of e);
     Some (upd_db e (SetAccountState (StateDB_of e) (f a))) }"

definition opSstoreHook :: "'t executionFunc" where
  "opSstoreHook K E p = (case p of (e, s) \<Rightarrow>
     if readOnly e then fails e s ErrWriteProtection
     else do {
       (loc, st) \<leftarrow> st_pop (Stack s);
       (val, st) \<leftarrow> st_pop st;
       let e = upd_db e (SetState (StateDB_of e) (ct_self (Contract s)) loc val);
       e \<leftarrow> upd_account_state (\<lambda>a. UpdateTouchedStorage a (ct_self (Contract s)) loc val) e;
       fin_st e s st })"

definition opTload :: "'t executionFunc" where
  "opTload K E p = (case p of (e, s) \<Rightarrow> do {
     loc \<leftarrow> st_peek (Stack s);
     st \<leftarrow> st_set (Stack s) (GetTransientState (StateDB_of e) (ct_self (Contract s)) loc);
     fin_st e s st })"

definition opTstore :: "'t executionFunc" where
  "opTstore K E p = (case p of (e, s) \<Rightarrow>
     if readOnly e then fails e s ErrWriteProtection
     else do {
       (loc, st) \<leftarrow> st_pop (Stack s);
       (val, st) \<leftarrow> st_pop st;
       fin_st (upd_db e (SetTransientState (StateDB_of e) (ct_self (Contract s)) loc val)) s st })"

text \<open>Take the jump to \<open>pos\<close>; the interpreter loop adds one to the pc.\<close>

definition jump_to :: "u256 \<Rightarrow> 't evm \<Rightarrow> scope \<Rightarrow> ('t frame \<times> bytes \<times> vm_error option) option" where
  "jump_to pos e s = do {
     (ok, c, dests) \<leftarrow> validJumpdest (Contract s) (jumpdests e) pos;
     let e = e\<lparr>jumpdests := dests\<rparr>;
     let s = s\<lparr>Contract := c\<rparr>;
     if \<not> ok then fails e s ErrInvalidJump else fin e (s\<lparr>sc_pc := Uint64 pos - 1\<rparr>) }"

definition opJump :: "'t executionFunc" where
  "opJump K E p = (case p of (e, s) \<Rightarrow>
     if aborted e then fails e s ErrStopToken
     else do {
       (pos, st) \<leftarrow> st_pop (Stack s);
       jump_to pos e (s\<lparr>Stack := st\<rparr>) })"

definition opJumpi :: "'t executionFunc" where
  "opJumpi K E p = (case p of (e, s) \<Rightarrow>
     if aborted e then fails e s ErrStopToken
     else do {
       (pos, st) \<leftarrow> st_pop (Stack s);
       (cond, st) \<leftarrow> st_pop st;
       if cond \<noteq> 0 then jump_to pos e (s\<lparr>Stack := st\<rparr>) else fin_st e s st })"

definition opJumpdest :: "'t executionFunc" where
  "opJumpdest K E p = (case p of (e, s) \<Rightarrow> fin e s)"

definition opPc :: "'t executionFunc" where "opPc = pushes (\<lambda>E e s. Some (ucast (sc_pc s)))"
definition opMsize :: "'t executionFunc" where
  "opMsize = pushes (\<lambda>E e s. Some (of_nat (mem_Len (Memory s))))"
definition opGas :: "'t executionFunc" where "opGas = pushes (\<lambda>E e s. Some (ucast (Gas (Contract s))))"

definition opPush1 :: "'t executionFunc" where
  "opPush1 K E p = (case p of (e, s) \<Rightarrow>
     let pc = sc_pc s + 1;
         v = (if unat pc < length (Code (Contract s)) then ucast (Code (Contract s) ! unat pc) else 0)
     in fin e (s\<lparr>sc_pc := pc, Stack := st_push (Stack s) v\<rparr>))"

definition makePush :: "u64 \<Rightarrow> nat \<Rightarrow> 't executionFunc" where
  "makePush sz pushByteSize K E p = (case p of (e, s) \<Rightarrow> do {
     let codeLen = int (length (Code (Contract s)));
     let startMin = (if sint (sc_pc s + 1) < codeLen then sint (sc_pc s + 1) else codeLen);
     let endMin = (if startMin + int pushByteSize < codeLen then startMin + int pushByteSize else codeLen);
     require (0 \<le> startMin);
     b \<leftarrow> go_slice (Code (Contract s)) (nat startMin) (nat endMin);
     fin e (s\<lparr>Stack := st_push (Stack s) (be_word (RightPadBytes b pushByteSize)), sc_pc := sc_pc s + sz\<rparr>) })"

definition makeDup :: "nat \<Rightarrow> 't executionFunc" where
  "makeDup n K E p = (case p of (e, s) \<Rightarrow> do { st \<leftarrow> st_dup (Stack s) n; fin_st e s st })"

definition makeSwap :: "nat \<Rightarrow> 't executionFunc" where
  "makeSwap n K E p = (case p of (e, s) \<Rightarrow> do { st \<leftarrow> st_swap (Stack s) (n + 1); fin_st e s st })"

section \<open>Logs\<close>

fun pop_n :: "nat \<Rightarrow> stack \<Rightarrow> (u256 list \<times> stack) option" where
  "pop_n 0 st = Some ([], st)"
| "pop_n (Suc n) st = do { (x, st) \<leftarrow> st_pop st; (xs, st) \<leftarrow> pop_n n st; Some (x # xs, st) }"

definition makeLog :: "nat \<Rightarrow> 't executionFunc" where
  "makeLog n K E p = (case p of (e, s) \<Rightarrow>
     if readOnly e then fails e s ErrWriteProtection
     else do {
       (mStart, st) \<leftarrow> st_pop (Stack s);
       (mSize, st) \<leftarrow> st_pop st;
       (topics, st) \<leftarrow> pop_n n st;
       d \<leftarrow> mem_GetCopy (Memory s) (Int64 mStart) (Int64 mSize);
       fin_st (upd_db e (AddLog (StateDB_of e)
         \<lparr>log_Address = ct_self (Contract s), log_Topics = topics, log_Data = d,
          log_BlockNumber = word_of_int (bc_BlockNumber (Context E)), log_TxHash = 0, log_TxIndex = 0,
          log_Index = 0\<rparr>)) s st })"

section \<open>Creating and calling\<close>

definition opCreate :: "'t executionFunc" where
  "opCreate K E p = (case p of (e, s) \<Rightarrow>
     if readOnly e then fails e s ErrWriteProtection
     else do {
       (value, st) \<leftarrow> st_pop (Stack s);
       (off, st) \<leftarrow> st_pop st;
       (size, st) \<leftarrow> st_pop st;
       input \<leftarrow> mem_GetCopy (Memory s) (Int64 off) (Int64 size);
       let gas = Gas (Contract s);
       let gas = (if ruleEIP150 (chainRules E) then gas - gas div 64 else gas);
       let c = fst (UseGas (Contract s) gas);
       (e, res, addr, returnGas, suberr) \<leftarrow> c_Create K e (ContractRef c) input gas (uint value);
       let v = (if ruleHomestead (chainRules E) \<and> suberr = Some ErrCodeStoreOutOfGas then 0
                else if suberr \<noteq> None \<and> suberr \<noteq> Some ErrCodeStoreOutOfGas then 0
                else ucast addr);
       let s = s\<lparr>Stack := st_push st v, Contract := c\<lparr>Gas := Gas c + returnGas\<rparr>\<rparr>;
       if suberr = Some ErrExecutionReverted
       then Some ((e\<lparr>returnData := res\<rparr>, s), res, None)
       else fin (e\<lparr>returnData := []\<rparr>) s })"

definition opCreate2 :: "'t executionFunc" where
  "opCreate2 K E p = (case p of (e, s) \<Rightarrow>
     if readOnly e then fails e s ErrWriteProtection
     else do {
       (endowment, st) \<leftarrow> st_pop (Stack s);
       (off, st) \<leftarrow> st_pop st;
       (size, st) \<leftarrow> st_pop st;
       (salt, st) \<leftarrow> st_pop st;
       input \<leftarrow> mem_GetCopy (Memory s) (Int64 off) (Int64 size);
       let gas = Gas (Contract s);
       let gas = gas - gas div 64;
       let c = fst (UseGas (Contract s) gas);
       (e, res, addr, returnGas, suberr) \<leftarrow> c_Create2 K e (ContractRef c) input gas (uint endowment) salt;
       let v = (if suberr \<noteq> None then 0 else ucast addr);
       let s = s\<lparr>Stack := st_push st v, Contract := c\<lparr>Gas := Gas c + returnGas\<rparr>\<rparr>;
       if suberr = Some ErrExecutionReverted
       then Some ((e\<lparr>returnData := res\<rparr>, s), res, None)
       else fin (e\<lparr>returnData := []\<rparr>) s })"

text \<open>What all four calls do with their result.\<close>

definition after_call ::
  "'t evm \<times> bytes \<times> u64 \<times> vm_error option \<Rightarrow> u256 \<Rightarrow> u256 \<Rightarrow> stack \<Rightarrow> scope \<Rightarrow>
   ('t frame \<times> bytes \<times> vm_error option) option" where
  "after_call r retOffset retSize st s = (case r of (e, ret, returnGas, err) \<Rightarrow> do {
     let temp = bool_word (err = None);
     m \<leftarrow> (if err = None \<or> err = Some ErrExecutionReverted
          then mem_Set (Memory s) (Uint64 retOffset) (Uint64 retSize) ret else Some (Memory s));
     let c = (Contract s)\<lparr>Gas := Gas (Contract s) + returnGas\<rparr>;
     Some ((e\<lparr>returnData := ret\<rparr>, s\<lparr>Stack := st_push st temp, Memory := m, Contract := c\<rparr>), ret, None) })"

definition opCall :: "'t executionFunc" where
  "opCall K E p = (case p of (e, s) \<Rightarrow> do {
     (temp, st) \<leftarrow> st_pop (Stack s);
     let gas = callGasTemp e;
     (addr, st) \<leftarrow> st_pop st;
     (value, st) \<leftarrow> st_pop st;
     (inOffset, st) \<leftarrow> st_pop st;
     (inSize, st) \<leftarrow> st_pop st;
     (retOffset, st) \<leftarrow> st_pop st;
     (retSize, st) \<leftarrow> st_pop st;
     args \<leftarrow> mem_GetPtr (Memory s) (Int64 inOffset) (Int64 inSize);
     if readOnly e \<and> value \<noteq> 0 then fails e (s\<lparr>Stack := st\<rparr>) ErrWriteProtection
     else do {
       let gas = (if value \<noteq> 0 then gas + CallStipend else gas);
       r \<leftarrow> c_Call K e (ContractRef (Contract s)) (addr_of addr) args gas (uint value);
       after_call r retOffset retSize st s } })"

definition opCallCode :: "'t executionFunc" where
  "opCallCode K E p = (case p of (e, s) \<Rightarrow> do {
     (temp, st) \<leftarrow> st_pop (Stack s);
     let gas = callGasTemp e;
     (addr, st) \<leftarrow> st_pop st;
     (value, st) \<leftarrow> st_pop st;
     (inOffset, st) \<leftarrow> st_pop st;
     (inSize, st) \<leftarrow> st_pop st;
     (retOffset, st) \<leftarrow> st_pop st;
     (retSize, st) \<leftarrow> st_pop st;
     args \<leftarrow> mem_GetPtr (Memory s) (Int64 inOffset) (Int64 inSize);
     let gas = (if value \<noteq> 0 then gas + CallStipend else gas);
     r \<leftarrow> c_CallCode K e (ContractRef (Contract s)) (addr_of addr) args gas (uint value);
     after_call r retOffset retSize st s })"

definition opDelegateCall :: "'t executionFunc" where
  "opDelegateCall K E p = (case p of (e, s) \<Rightarrow> do {
     (temp, st) \<leftarrow> st_pop (Stack s);
     let gas = callGasTemp e;
     (addr, st) \<leftarrow> st_pop st;
     (inOffset, st) \<leftarrow> st_pop st;
     (inSize, st) \<leftarrow> st_pop st;
     (retOffset, st) \<leftarrow> st_pop st;
     (retSize, st) \<leftarrow> st_pop st;
     args \<leftarrow> mem_GetPtr (Memory s) (Int64 inOffset) (Int64 inSize);
     r \<leftarrow> c_DelegateCall K e (ContractRef (Contract s)) (addr_of addr) args gas;
     after_call r retOffset retSize st s })"

definition opStaticCall :: "'t executionFunc" where
  "opStaticCall K E p = (case p of (e, s) \<Rightarrow> do {
     (temp, st) \<leftarrow> st_pop (Stack s);
     let gas = callGasTemp e;
     (addr, st) \<leftarrow> st_pop st;
     (inOffset, st) \<leftarrow> st_pop st;
     (inSize, st) \<leftarrow> st_pop st;
     (retOffset, st) \<leftarrow> st_pop st;
     (retSize, st) \<leftarrow> st_pop st;
     args \<leftarrow> mem_GetPtr (Memory s) (Int64 inOffset) (Int64 inSize);
     r \<leftarrow> c_StaticCall K e (ContractRef (Contract s)) (addr_of addr) args gas;
     after_call r retOffset retSize st s })"

section \<open>Ending\<close>

definition opReturn :: "'t executionFunc" where
  "opReturn K E p = (case p of (e, s) \<Rightarrow> do {
     (off, st) \<leftarrow> st_pop (Stack s);
     (size, st) \<leftarrow> st_pop st;
     ret \<leftarrow> mem_GetPtr (Memory s) (Int64 off) (Int64 size);
     Some ((e, s\<lparr>Stack := st\<rparr>), ret, Some ErrStopToken) })"

definition opRevert :: "'t executionFunc" where
  "opRevert K E p = (case p of (e, s) \<Rightarrow> do {
     (off, st) \<leftarrow> st_pop (Stack s);
     (size, st) \<leftarrow> st_pop st;
     ret \<leftarrow> mem_GetPtr (Memory s) (Int64 off) (Int64 size);
     Some ((e\<lparr>returnData := ret\<rparr>, s\<lparr>Stack := st\<rparr>), ret, Some ErrExecutionReverted) })"

definition opUndefined :: "'t executionFunc" where
  "opUndefined K E p = (case p of (e, s) \<Rightarrow> do {
     b \<leftarrow> idx (Code (Contract s)) (unat (sc_pc s));
     fails e s (ErrInvalidOpCode b) })"

definition opStop :: "'t executionFunc" where
  "opStop K E p = (case p of (e, s) \<Rightarrow> fails e s ErrStopToken)"

text \<open>The tracer sees a self-destruction as a call frame of its own.\<close>

definition trace_selfdestruct :: "'t env \<Rightarrow> address \<Rightarrow> address \<Rightarrow> int \<Rightarrow> 't evm \<Rightarrow> 't evm option" where
  "trace_selfdestruct E self beneficiary balance e = do {
     e \<leftarrow> with_tracer (\<lambda>t d. CaptureEnter (Logger E) t d SELFDESTRUCT self beneficiary [] 0 (Some balance)) e;
     with_tracer (\<lambda>t d. CaptureExit (Logger E) t d [] 0 None) e }"

definition opSelfdestruct :: "'t executionFunc" where
  "opSelfdestruct K E p = (case p of (e, s) \<Rightarrow>
     if readOnly e then fails e s ErrWriteProtection
     else do {
       (w, st) \<leftarrow> st_pop (Stack s);
       let self = ct_self (Contract s);
       let (balance, d) = GetBalance (StateDB_of e) self;
       let d = SelfDestruct (AddBalance d (addr_of w) balance) self;
       e \<leftarrow> trace_selfdestruct E self (addr_of w) balance (upd_db e d);
       fails e (s\<lparr>Stack := st\<rparr>) ErrStopToken })"

definition opSelfdestruct6780 :: "'t executionFunc" where
  "opSelfdestruct6780 K E p = (case p of (e, s) \<Rightarrow>
     if readOnly e then fails e s ErrWriteProtection
     else do {
       (w, st) \<leftarrow> st_pop (Stack s);
       let self = ct_self (Contract s);
       let (balance, d) = GetBalance (StateDB_of e) self;
       let d = Selfdestruct6780 (AddBalance (SubBalance d self balance) (addr_of w) balance) self;
       e \<leftarrow> trace_selfdestruct E self (addr_of w) balance (upd_db e d);
       fails e (s\<lparr>Stack := st\<rparr>) ErrStopToken })"

text \<open>The account state records the code and the two balances after the transfer.\<close>

definition record_selfdestruct :: "address \<Rightarrow> address \<Rightarrow> 't evm \<Rightarrow> 't evm option" where
  "record_selfdestruct self beneficiary e = do {
     let (code, d) = GetCode (StateDB_of e) self;
     e \<leftarrow> upd_account_state (\<lambda>a. UpdateTouchedCode a self (slice_of code)) (upd_db e d);
     let (b, d) = GetBalance (StateDB_of e) self;
     e \<leftarrow> upd_account_state (\<lambda>a. UpdateTouchedBalance a self b) (upd_db e d);
     let (b, d) = GetBalance (StateDB_of e) beneficiary;
     upd_account_state (\<lambda>a. UpdateTouchedBalance a beneficiary b) (upd_db e d) }"

definition opSelfdestructHook :: "'t executionFunc" where
  "opSelfdestructHook K E p = (case p of (e, s) \<Rightarrow>
     if readOnly e then fails e s ErrWriteProtection
     else do {
       (w, st) \<leftarrow> st_pop (Stack s);
       let self = ct_self (Contract s);
       let (balance, d) = GetBalance (StateDB_of e) self;
       let d = SelfDestruct (AddBalance d (addr_of w) balance) self;
       e \<leftarrow> record_selfdestruct self (addr_of w) (upd_db e d);
       e \<leftarrow> trace_selfdestruct E self (addr_of w) balance e;
       fails e (s\<lparr>Stack := st\<rparr>) ErrStopToken })"

definition opSelfdestruct6780Hook :: "'t executionFunc" where
  "opSelfdestruct6780Hook K E p = (case p of (e, s) \<Rightarrow>
     if readOnly e then fails e s ErrWriteProtection
     else do {
       (w, st) \<leftarrow> st_pop (Stack s);
       let self = ct_self (Contract s);
       let (balance, d) = GetBalance (StateDB_of e) self;
       let d = Selfdestruct6780 (AddBalance (SubBalance d self balance) (addr_of w) balance) self;
       e \<leftarrow> record_selfdestruct self (addr_of w) (upd_db e d);
       e \<leftarrow> trace_selfdestruct E self (addr_of w) balance e;
       fails e (s\<lparr>Stack := st\<rparr>) ErrStopToken })"

end
