(* ===== verification/JumpTable.thy ===== *)
theory JumpTable
  imports Instructions
begin

text \<open>
  \<^verbatim>\<open>core/vm/jump_table.go\<close>, the activators of \<^verbatim>\<open>eips.go\<close> and the choice of a table in
  \<^verbatim>\<open>NewEVMInterpreter\<close>: for every fork the operation behind each opcode, with its gas, its
  stack limits and its memory size.  A nil function is \<^term>\<open>None\<close>; \<^verbatim>\<open>executeTraceLog\<close> is never set
  and never read, and has no field here.
\<close>

section \<open>Operations and tables\<close>

type_synonym memorySizeFunc = "stack \<Rightarrow> (u64 \<times> bool) option"

record 't operation =
  execute :: "'t executionFunc"
  executeHook :: "'t executionFunc option"
  constantGas :: u64
  dynamicGas :: "'t gas_func option"
  op_minStack :: int
  op_maxStack :: int
  memorySize :: "memorySizeFunc option"

definition mk_op :: "'t executionFunc \<Rightarrow> 't executionFunc option \<Rightarrow> u64 \<Rightarrow> 't gas_func option \<Rightarrow>
    int \<Rightarrow> int \<Rightarrow> memorySizeFunc option \<Rightarrow> 't operation" where
  "mk_op ex hook cg dg mn mx ms =
     \<lparr>execute = ex, executeHook = hook, constantGas = cg, dynamicGas = dg,
      op_minStack = mn, op_maxStack = mx, memorySize = ms\<rparr>"

text \<open>
  A table has an operation for every byte: the only tables with nil entries are the literal of
  \<^verbatim>\<open>newFrontierInstructionSet\<close> before its last loop, the entry lists below.
\<close>

type_synonym 't jump_table = "byte \<Rightarrow> 't operation"

definition all_opcodes :: "byte list" where
  "all_opcodes = map of_nat [0..<256]"

text \<open>\<open>validate\<close> panics when an operation sizes memory but has no dynamic gas.\<close>

definition validate :: "'t jump_table \<Rightarrow> 't jump_table option" where
  "validate jt =
     (if list_all (\<lambda>i. memorySize (jt i) = None \<or> dynamicGas (jt i) \<noteq> None) all_opcodes
      then Some jt else None)"

section \<open>Frontier\<close>

definition frontier_arith :: "(byte \<times> 't operation) list" where
  "frontier_arith =
     [(STOP, mk_op opStop None 0 None (minStack 0 0) (maxStack 0 0) None),
      (ADD, mk_op opAdd None GasFastestStep None (minStack 2 1) (maxStack 2 1) None),
      (MUL, mk_op opMul None GasFastStep None (minStack 2 1) (maxStack 2 1) None),
      (SUB, mk_op opSub None GasFastestStep None (minStack 2 1) (maxStack 2 1) None),
      (DIV, mk_op opDiv None GasFastStep None (minStack 2 1) (maxStack 2 1) None),
      (SDIV, mk_op opSdiv None GasFastStep None (minStack 2 1) (maxStack 2 1) None),
      (MOD, mk_op opMod None GasFastStep None (minStack 2 1) (maxStack 2 1) None),
      (SMOD, mk_op opSmod None GasFastStep None (minStack 2 1) (maxStack 2 1) None),
      (ADDMOD, mk_op opAddmod None GasMidStep None (minStack 3 1) (maxStack 3 1) None),
      (MULMOD, mk_op opMulmod None GasMidStep None (minStack 3 1) (maxStack 3 1) None),
      (EXP, mk_op opExp None 0 (Some gasExpFrontier) (minStack 2 1) (maxStack 2 1) None),
      (SIGNEXTEND, mk_op opSignExtend None GasFastStep None (minStack 2 1) (maxStack 2 1) None),
      (LT, mk_op opLt None GasFastestStep None (minStack 2 1) (maxStack 2 1) None),
      (GT, mk_op opGt None GasFastestStep None (minStack 2 1) (maxStack 2 1) None),
      (SLT, mk_op opSlt None GasFastestStep None (minStack 2 1) (maxStack 2 1) None),
      (SGT, mk_op opSgt None GasFastestStep None (minStack 2 1) (maxStack 2 1) None),
      (EQ, mk_op opEq None GasFastestStep None (minStack 2 1) (maxStack 2 1) None),
      (ISZERO, mk_op opIszero None GasFastestStep None (minStack 1 1) (maxStack 1 1) None),
      (AND_OP, mk_op opAnd None GasFastestStep None (minStack 2 1) (maxStack 2 1) None),
      (XOR_OP, mk_op opXor None GasFastestStep None (minStack 2 1) (maxStack 2 1) None),
      (OR_OP, mk_op opOr None GasFastestStep None (minStack 2 1) (maxStack 2 1) None),
      (NOT_OP, mk_op opNot None GasFastestStep None (minStack 1 1) (maxStack 1 1) None),
      (BYTE_OP, mk_op opByte None GasFastestStep None (minStack 2 1) (maxStack 2 1) None),
      (KECCAK256, mk_op opKeccak256 None Keccak256Gas (Some gasKeccak256) (minStack 2 1) (maxStack 2 1) (Some memoryKeccak256))]"

definition frontier_environment :: "(byte \<times> 't operation) list" where
  "frontier_environment =
     [(ADDRESS, mk_op opAddress None GasQuickStep None (minStack 0 1) (maxStack 0 1) None),
      (BALANCE, mk_op opBalance None BalanceGasFrontier None (minStack 1 1) (maxStack 1 1) None),
      (ORIGIN, mk_op opOrigin None GasQuickStep None (minStack 0 1) (maxStack 0 1) None),
      (CALLER, mk_op opCaller None GasQuickStep None (minStack 0 1) (maxStack 0 1) None),
      (CALLVALUE, mk_op opCallValue None GasQuickStep None (minStack 0 1) (maxStack 0 1) None),
      (CALLDATALOAD, mk_op opCallDataLoad None GasFastestStep None (minStack 1 1) (maxStack 1 1) None),
      (CALLDATASIZE, mk_op opCallDataSize None GasQuickStep None (minStack 0 1) (maxStack 0 1) None),
      (CALLDATACOPY, mk_op opCallDataCopy None GasFastestStep (Some gasCallDataCopy) (minStack 3 0) (maxStack 3 0) (Some memoryCallDataCopy)),
      (CODESIZE, mk_op opCodeSize None GasQuickStep None (minStack 0 1) (maxStack 0 1) None),
      (CODECOPY, mk_op opCodeCopy None GasFastestStep (Some gasCodeCopy) (minStack 3 0) (maxStack 3 0) (Some memoryCodeCopy)),
      (GASPRICE, mk_op opGasprice None GasQuickStep None (minStack 0 1) (maxStack 0 1) None),
      (EXTCODESIZE, mk_op opExtCodeSize None ExtcodeSizeGasFrontier None (minStack 1 1) (maxStack 1 1) None),
      (EXTCODECOPY, mk_op opExtCodeCopy None ExtcodeCopyBaseFrontier (Some gasExtCodeCopy) (minStack 4 0) (maxStack 4 0) (Some memoryExtCodeCopy)),
      (BLOCKHASH, mk_op opBlockhash None GasExtStep None (minStack 1 1) (maxStack 1 1) None),
      (COINBASE, mk_op opCoinbase None GasQuickStep None (minStack 0 1) (maxStack 0 1) None),
      (TIMESTAMP, mk_op opTimestamp None GasQuickStep None (minStack 0 1) (maxStack 0 1) None),
      (NUMBER, mk_op opNumber None GasQuickStep None (minStack 0 1) (maxStack 0 1) None),
      (DIFFICULTY, mk_op opDifficulty None GasQuickStep None (minStack 0 1) (maxStack 0 1) None),
      (GASLIMIT, mk_op opGasLimit None GasQuickStep None (minStack 0 1) (maxStack 0 1) None)]"

definition frontier_flow :: "(byte \<times> 't operation) list" where
  "frontier_flow =
     [(POP, mk_op opPop None GasQuickStep None (minStack 1 0) (maxStack 1 0) None),
      (MLOAD, mk_op opMload None GasFastestStep (Some gasMLoad) (minStack 1 1) (maxStack 1 1) (Some memoryMLoad)),
      (MSTORE, mk_op opMstore None GasFastestStep (Some gasMStore) (minStack 2 0) (maxStack 2 0) (Some memoryMStore)),
      (MSTORE8, mk_op opMstore8 None GasFastestStep (Some gasMStore8) (minStack 2 0) (maxStack 2 0) (Some memoryMStore8)),
      (SLOAD, mk_op opSload None SloadGasFrontier None (minStack 1 1) (maxStack 1 1) None),
      (SSTORE, mk_op opSstore (Some opSstoreHook) 0 (Some gasSStore) (minStack 2 0) (maxStack 2 0) None),
      (JUMP, mk_op opJump None GasMidStep None (minStack 1 0) (maxStack 1 0) None),
      (JUMPI, mk_op opJumpi None GasSlowStep None (minStack 2 0) (maxStack 2 0) None),
      (PC, mk_op opPc None GasQuickStep None (minStack 0 1) (maxStack 0 1) None),
      (MSIZE, mk_op opMsize None GasQuickStep None (minStack 0 1) (maxStack 0 1) None),
      (GAS, mk_op opGas None GasQuickStep None (minStack 0 1) (maxStack 0 1) None),
      (JUMPDEST, mk_op opJumpdest None JumpdestGas None (minStack 0 0) (maxStack 0 0) None),
      (PUSH1, mk_op opPush1 None GasFastestStep None (minStack 0 1) (maxStack 0 1) None)]"

definition frontier_system :: "(byte \<times> 't operation) list" where
  "frontier_system =
     [(LOG0, mk_op (makeLog 0) None 0 (Some (makeGasLog 0)) (minStack 2 0) (maxStack 2 0) (Some memoryLog)),
      (LOG1, mk_op (makeLog 1) None 0 (Some (makeGasLog 1)) (minStack 3 0) (maxStack 3 0) (Some memoryLog)),
      (LOG2, mk_op (makeLog 2) None 0 (Some (makeGasLog 2)) (minStack 4 0) (maxStack 4 0) (Some memoryLog)),
      (LOG3, mk_op (makeLog 3) None 0 (Some (makeGasLog 3)) (minStack 5 0) (maxStack 5 0) (Some memoryLog)),
      (LOG4, mk_op (makeLog 4) None 0 (Some (makeGasLog 4)) (minStack 6 0) (maxStack 6 0) (Some memoryLog)),
      (CREATE, mk_op opCreate None CreateGas (Some gasCreate) (minStack 3 1) (maxStack 3 1) (Some memoryCreate)),
      (CALL, mk_op opCall None CallGasFrontier (Some gasCall) (minStack 7 1) (maxStack 7 1) (Some memoryCall)),
      (CALLCODE, mk_op opCallCode None CallGasFrontier (Some gasCallCode) (minStack 7 1) (maxStack 7 1) (Some memoryCall)),
      (RETURN, mk_op opReturn None 0 (Some gasReturn) (minStack 2 0) (maxStack 2 0) (Some memoryReturn)),
      (SELFDESTRUCT, mk_op opSelfdestruct (Some opSelfdestructHook) 0 (Some gasSelfdestruct) (minStack 1 0) (maxStack 1 0) None)]"

definition frontier_pushes :: "(byte \<times> 't operation) list" where
  "frontier_pushes = map (\<lambda>n. (PUSH n,
     mk_op (makePush (of_nat n) n) None GasFastestStep None (minStack 0 1) (maxStack 0 1) None)) [2..<33]"

definition frontier_dups :: "(byte \<times> 't operation) list" where
  "frontier_dups = map (\<lambda>n. (DUP n,
     mk_op (makeDup n) None GasFastestStep None (minDupStack (int n)) (maxDupStack (int n)) None)) [1..<17]"

definition frontier_swaps :: "(byte \<times> 't operation) list" where
  "frontier_swaps = map (\<lambda>n. (SWAP n,
     mk_op (makeSwap n) None GasFastestStep None (minSwapStack (int n + 1)) (maxSwapStack (int n + 1)) None)) [1..<17]"

definition frontier_entries :: "(byte \<times> 't operation) list" where
  "frontier_entries = frontier_arith @ frontier_environment @ frontier_flow @ frontier_pushes @
     frontier_dups @ frontier_swaps @ frontier_system"

definition undefined_op :: "'t operation" where
  "undefined_op = mk_op opUndefined None 0 None 0 (maxStack 0 0) None"

definition newFrontierInstructionSet :: "'t jump_table option" where
  "newFrontierInstructionSet = validate (\<lambda>b. case map_of frontier_entries b of Some x \<Rightarrow> x | None \<Rightarrow> undefined_op)"

section \<open>Changes of a table\<close>

definition set_gas :: "byte \<Rightarrow> u64 \<Rightarrow> 't jump_table \<Rightarrow> 't jump_table" where
  "set_gas b g jt = jt(b := (jt b)\<lparr>constantGas := g\<rparr>)"

definition set_dyn :: "byte \<Rightarrow> 't gas_func \<Rightarrow> 't jump_table \<Rightarrow> 't jump_table" where
  "set_dyn b g jt = jt(b := (jt b)\<lparr>dynamicGas := Some g\<rparr>)"

definition enable1884 :: "'t jump_table \<Rightarrow> 't jump_table" where
  "enable1884 jt =
     (let jt = set_gas SLOAD SloadGasEIP1884 jt;
          jt = set_gas BALANCE BalanceGasEIP1884 jt;
          jt = set_gas EXTCODEHASH ExtcodeHashGasEIP1884 jt
      in jt(SELFBALANCE := mk_op opSelfBalance None GasFastStep None (minStack 0 1) (maxStack 0 1) None))"

definition enable1344 :: "'t jump_table \<Rightarrow> 't jump_table" where
  "enable1344 jt = jt(CHAINID := mk_op opChainID None GasQuickStep None (minStack 0 1) (maxStack 0 1) None)"

definition enable2200 :: "'t jump_table \<Rightarrow> 't jump_table" where
  "enable2200 jt = set_dyn SSTORE gasSStoreEIP2200 (set_gas SLOAD SloadGasEIP2200 jt)"

definition enable2929 :: "'t jump_table \<Rightarrow> 't jump_table" where
  "enable2929 jt =
     (let jt = set_dyn SSTORE gasSStoreEIP2929 jt;
          jt = set_dyn SLOAD gasSLoadEIP2929 (set_gas SLOAD 0 jt);
          jt = set_dyn EXTCODECOPY gasExtCodeCopyEIP2929 (set_gas EXTCODECOPY WarmStorageReadCostEIP2929 jt);
          jt = set_dyn EXTCODESIZE gasEip2929AccountCheck (set_gas EXTCODESIZE WarmStorageReadCostEIP2929 jt);
          jt = set_dyn EXTCODEHASH gasEip2929AccountCheck (set_gas EXTCODEHASH WarmStorageReadCostEIP2929 jt);
          jt = set_dyn BALANCE gasEip2929AccountCheck (set_gas BALANCE WarmStorageReadCostEIP2929 jt);
          jt = set_dyn CALL gasCallEIP2929 (set_gas CALL WarmStorageReadCostEIP2929 jt);
          jt = set_dyn CALLCODE gasCallCodeEIP2929 (set_gas CALLCODE WarmStorageReadCostEIP2929 jt);
          jt = set_dyn STATICCALL gasStaticCallEIP2929 (set_gas STATICCALL WarmStorageReadCostEIP2929 jt);
          jt = set_dyn DELEGATECALL gasDelegateCallEIP2929 (set_gas DELEGATECALL WarmStorageReadCostEIP2929 jt)
      in set_dyn SELFDESTRUCT gasSelfdestructEIP2929 (set_gas SELFDESTRUCT SelfdestructGasEIP150 jt))"

definition enable3529 :: "'t jump_table \<Rightarrow> 't jump_table" where
  "enable3529 jt = set_dyn SELFDESTRUCT gasSelfdestructEIP3529 (set_dyn SSTORE gasSStoreEIP3529 jt)"

definition enable3198 :: "'t jump_table \<Rightarrow> 't jump_table" where
  "enable3198 jt = jt(BASEFEE := mk_op opBaseFee None GasQuickStep None (minStack 0 1) (maxStack 0 1) None)"

definition enable1153 :: "'t jump_table \<Rightarrow> 't jump_table" where
  "enable1153 jt = jt
     (TLOAD := mk_op opTload None WarmStorageReadCostEIP2929 None (minStack 1 1) (maxStack 1 1) None,
      TSTORE := mk_op opTstore None WarmStorageReadCostEIP2929 None (minStack 2 0) (maxStack 2 0) None)"

definition enable3855 :: "'t jump_table \<Rightarrow> 't jump_table" where
  "enable3855 jt = jt(PUSH0 := mk_op opPush0 None GasQuickStep None (minStack 0 1) (maxStack 0 1) None)"

definition enable3860 :: "'t jump_table \<Rightarrow> 't jump_table" where
  "enable3860 jt = set_dyn CREATE2 gasCreate2Eip3860 (set_dyn CREATE gasCreateEip3860 jt)"

definition enable5656 :: "'t jump_table \<Rightarrow> 't jump_table" where
  "enable5656 jt = jt(MCOPY := mk_op opMcopy None GasFastestStep (Some gasMcopy) (minStack 3 0) (maxStack 3 0) (Some memoryMcopy))"

definition enable4844 :: "'t jump_table \<Rightarrow> 't jump_table" where
  "enable4844 jt = jt(BLOBHASH := mk_op opBlobHash None GasFastestStep None (minStack 1 1) (maxStack 1 1) None)"

definition enable7516 :: "'t jump_table \<Rightarrow> 't jump_table" where
  "enable7516 jt = jt(BLOBBASEFEE := mk_op opBlobBaseFee None GasQuickStep None (minStack 0 1) (maxStack 0 1) None)"

text \<open>The new operation of EIP-6780 has no \<open>executeHook\<close>.\<close>

definition enable6780 :: "'t jump_table \<Rightarrow> 't jump_table" where
  "enable6780 jt = jt(SELFDESTRUCT :=
     mk_op opSelfdestruct6780 None SelfdestructGasEIP150 (Some gasSelfdestructEIP3529) (minStack 1 0) (maxStack 1 0) None)"

section \<open>The tables of the forks\<close>

definition newHomesteadInstructionSet :: "'t jump_table option" where
  "newHomesteadInstructionSet = do {
     jt \<leftarrow> newFrontierInstructionSet;
     validate (jt(DELEGATECALL := mk_op opDelegateCall None CallGasFrontier (Some gasDelegateCall)
       (minStack 6 1) (maxStack 6 1) (Some memoryDelegateCall))) }"

definition newTangerineWhistleInstructionSet :: "'t jump_table option" where
  "newTangerineWhistleInstructionSet = do {
     jt \<leftarrow> newHomesteadInstructionSet;
     let jt = set_gas BALANCE BalanceGasEIP150 jt;
     let jt = set_gas EXTCODESIZE ExtcodeSizeGasEIP150 jt;
     let jt = set_gas SLOAD SloadGasEIP150 jt;
     let jt = set_gas EXTCODECOPY ExtcodeCopyBaseEIP150 jt;
     let jt = set_gas CALL CallGasEIP150 jt;
     let jt = set_gas CALLCODE CallGasEIP150 jt;
     validate (set_gas DELEGATECALL CallGasEIP150 jt) }"

definition newSpuriousDragonInstructionSet :: "'t jump_table option" where
  "newSpuriousDragonInstructionSet = do {
     jt \<leftarrow> newTangerineWhistleInstructionSet;
     validate (set_dyn EXP gasExpEIP158 jt) }"

definition newByzantiumInstructionSet :: "'t jump_table option" where
  "newByzantiumInstructionSet = do {
     jt \<leftarrow> newSpuriousDragonInstructionSet;
     validate (jt
       (STATICCALL := mk_op opStaticCall None CallGasEIP150 (Some gasStaticCall) (minStack 6 1) (maxStack 6 1) (Some memoryStaticCall),
        RETURNDATASIZE := mk_op opReturnDataSize None GasQuickStep None (minStack 0 1) (maxStack 0 1) None,
        RETURNDATACOPY := mk_op opReturnDataCopy None GasFastestStep (Some gasReturnDataCopy) (minStack 3 0) (maxStack 3 0) (Some memoryReturnDataCopy),
        REVERT := mk_op opRevert None 0 (Some gasRevert) (minStack 2 0) (maxStack 2 0) (Some memoryRevert))) }"

definition newConstantinopleInstructionSet :: "'t jump_table option" where
  "newConstantinopleInstructionSet = do {
     jt \<leftarrow> newByzantiumInstructionSet;
     validate (jt
       (SHL := mk_op opSHL None GasFastestStep None (minStack 2 1) (maxStack 2 1) None,
        SHR := mk_op opSHR None GasFastestStep None (minStack 2 1) (maxStack 2 1) None,
        SAR := mk_op opSAR None GasFastestStep None (minStack 2 1) (maxStack 2 1) None,
        EXTCODEHASH := mk_op opExtCodeHash None ExtcodeHashGasConstantinople None (minStack 1 1) (maxStack 1 1) None,
        CREATE2 := mk_op opCreate2 None Create2Gas (Some gasCreate2) (minStack 4 1) (maxStack 4 1) (Some memoryCreate2))) }"

definition newIstanbulInstructionSet :: "'t jump_table option" where
  "newIstanbulInstructionSet = do {
     jt \<leftarrow> newConstantinopleInstructionSet;
     validate (enable2200 (enable1884 (enable1344 jt))) }"

definition newBerlinInstructionSet :: "'t jump_table option" where
  "newBerlinInstructionSet = do { jt \<leftarrow> newIstanbulInstructionSet; validate (enable2929 jt) }"

definition newLondonInstructionSet :: "'t jump_table option" where
  "newLondonInstructionSet = do { jt \<leftarrow> newBerlinInstructionSet; validate (enable3198 (enable3529 jt)) }"

definition newMergeInstructionSet :: "'t jump_table option" where
  "newMergeInstructionSet = do {
     jt \<leftarrow> newLondonInstructionSet;
     validate (jt(PREVRANDAO := mk_op opRandom None GasQuickStep None (minStack 0 1) (maxStack 0 1) None)) }"

definition newShanghaiInstructionSet :: "'t jump_table option" where
  "newShanghaiInstructionSet = do { jt \<leftarrow> newMergeInstructionSet; validate (enable3860 (enable3855 jt)) }"

definition newCancunInstructionSet :: "'t jump_table option" where
  "newCancunInstructionSet = do {
     jt \<leftarrow> newShanghaiInstructionSet;
     validate (enable6780 (enable5656 (enable1153 (enable7516 (enable4844 jt))))) }"

section \<open>Choosing a table\<close>

definition activators :: "(int \<times> ('t jump_table \<Rightarrow> 't jump_table)) list" where
  "activators =
     [(5656, enable5656), (6780, enable6780), (3855, enable3855), (3860, enable3860), (3529, enable3529),
      (3198, enable3198), (2929, enable2929), (2200, enable2200), (1884, enable1884), (1344, enable1344),
      (1153, enable1153)]"

text \<open>\<^term>\<open>None\<close> is the error "undefined eip".\<close>

definition EnableEIP :: "int \<Rightarrow> 't jump_table \<Rightarrow> 't jump_table option" where
  "EnableEIP eip jt = map_option (\<lambda>f. f jt) (map_of activators eip)"

definition ValidEip :: "int \<Rightarrow> bool" where
  "ValidEip eip \<longleftrightarrow> map_of (activators :: (int \<times> (unit jump_table \<Rightarrow> unit jump_table)) list) eip \<noteq> None"

definition fork_table :: "rules \<Rightarrow> 't jump_table option" where
  "fork_table r =
     (if ruleCancun r then newCancunInstructionSet
      else if ruleShanghai r then newShanghaiInstructionSet
      else if ruleMerge r then newMergeInstructionSet
      else if ruleLondon r then newLondonInstructionSet
      else if ruleBerlin r then newBerlinInstructionSet
      else if ruleIstanbul r then newIstanbulInstructionSet
      else if ruleConstantinople r then newConstantinopleInstructionSet
      else if ruleByzantium r then newByzantiumInstructionSet
      else if ruleEIP158 r then newSpuriousDragonInstructionSet
      else if ruleEIP150 r then newTangerineWhistleInstructionSet
      else if ruleHomestead r then newHomesteadInstructionSet
      else newFrontierInstructionSet)"

text \<open>The loop over the extra EIPs: the new table and the EIPs that were known.\<close>

fun enable_extra :: "int list \<Rightarrow> 't jump_table \<Rightarrow> int list \<Rightarrow> 't jump_table \<times> int list" where
  "enable_extra [] jt acc = (jt, acc)"
| "enable_extra (eip # eips) jt acc =
     (case EnableEIP eip jt of
        None \<Rightarrow> enable_extra eips jt acc
      | Some jt \<Rightarrow> enable_extra eips jt (acc @ [eip]))"

definition NewEVMInterpreter :: "'t env \<Rightarrow> ('t jump_table \<times> 't env) option" where
  "NewEVMInterpreter E = do {
     jt \<leftarrow> fork_table (chainRules E);
     let (jt, eips) = enable_extra (cfg_ExtraEips (Config E)) jt [];
     Some (jt, E\<lparr>Config := (Config E)\<lparr>cfg_ExtraEips := eips\<rparr>\<rparr>) }"

text \<open>The exported form; the flag is the error of a fork that is not defined yet.\<close>

definition LookupInstructionSet :: "rules \<Rightarrow> ('t jump_table \<times> bool) option" where
  "LookupInstructionSet r =
     (if ruleVerkle r then map_option (\<lambda>t. (t, True)) newCancunInstructionSet
      else if rulePrague r then map_option (\<lambda>t. (t, True)) newCancunInstructionSet
      else map_option (\<lambda>t. (t, False)) (fork_table r))"

definition HasCost :: "'t operation \<Rightarrow> bool" where
  "HasCost x \<longleftrightarrow> dynamicGas x \<noteq> None \<or> constantGas x \<noteq> 0"

end
