(* ===== verification/Interpreter.thy ===== *)
theory Interpreter
  imports JumpTable
begin

text \<open>
  \<^verbatim>\<open>core/vm/interpreter.go\<close> and the calls of \<^verbatim>\<open>core/vm/evm.go\<close>: one iteration of the
  interpreter loop, the loop, \<open>Run\<close>, and the four calls and two creations that run code, with the
  hooks that keep the tracer's account state.  \<^term>\<open>None\<close> is a panic.  The mutual recursion of \<open>Run\<close>
  and the calls is unrolled by the call depth, the loop by fuel; \<open>Interpreter_Props\<close> proves that
  the fuel \<open>Run\<close> takes and the depth \<open>EVM\<close> takes are never used up.
\<close>

section \<open>The tracer's account state\<close>

definition account_state_of :: "'t evm \<Rightarrow> account_state option" where
  "account_state_of e = accountState (StateDB_of e)"

definition upd_committed :: "(touched_state \<Rightarrow> touched_state) \<Rightarrow> account_state \<Rightarrow> account_state" where
  "upd_committed f st = st\<lparr>CommitedAccountState := f (CommitedAccountState st)\<rparr>"

abbreviation (input) rpc :: "'t env \<Rightarrow> rpc_provider" where "rpc E \<equiv> ext_rpc (ext E)"

text \<open>Run a read of the state database and hand its value on.\<close>

definition reading :: "(statedb \<Rightarrow> 'a \<times> statedb) \<Rightarrow> ('a \<Rightarrow> 't evm \<Rightarrow> 'b) \<Rightarrow> 't evm \<Rightarrow> 'b" where
  "reading f k e = (case f (StateDB_of e) of (v, d) \<Rightarrow> k v (upd_db e d))"

definition CheckAndSetCode :: "'t env \<Rightarrow> address \<Rightarrow> 't evm \<Rightarrow> 't evm option" where
  "CheckAndSetCode E a e = do {
     st \<leftarrow> account_state_of e;
     if \<not> IsTouchedCode st a then do {
       let e = (if IsRequirePRC st
                then upd_db e (SetCode (StateDB_of e) a (rpc_GetCodeAt (rpc E) a (bc_BlockNumber (Context E)))) else e);
       e \<leftarrow> reading (\<lambda>d. GetCode d a) (\<lambda>c. upd_account_state (\<lambda>st. UpdateTouchedCode st a (slice_of c))) e;
       reading (\<lambda>d. GetCode d a)
         (\<lambda>c. upd_account_state (upd_committed (\<lambda>st. UpdateTouchedCode st a (slice_of c)))) e }
     else reading (\<lambda>d. GetCode d a) (\<lambda>c e.
       Some (if c = None \<and> as_GetCode st a \<noteq> None
             then upd_db e (SetCode (StateDB_of e) a (as_GetCode st a)) else e)) e }"

definition CheckAndSetBalance :: "'t env \<Rightarrow> address \<Rightarrow> 't evm \<Rightarrow> 't evm option" where
  "CheckAndSetBalance E a e = do {
     st \<leftarrow> account_state_of e;
     e \<leftarrow> (if \<not> IsTouchedBalance st a then
            (let e = (if IsRequirePRC st
                      then upd_db e (SetBalance (StateDB_of e) a (rpc_GetBalanceAt (rpc E) a (bc_BlockNumber (Context E)))) else e)
             in reading (\<lambda>d. GetBalance d a) (\<lambda>b. upd_account_state (upd_committed (\<lambda>st. UpdateTouchedBalance st a b))) e)
          else Some e);
     reading (\<lambda>d. GetBalance d a) (\<lambda>b. upd_account_state (\<lambda>st. UpdateTouchedBalance st a b)) e }"

definition CheckAndSetNonce :: "'t env \<Rightarrow> address \<Rightarrow> 't evm \<Rightarrow> 't evm option" where
  "CheckAndSetNonce E a e = do {
     st \<leftarrow> account_state_of e;
     e \<leftarrow> (if \<not> IsTouchedNonce st a then
            (let e = (if IsRequirePRC st
                      then upd_db e (SetNonce (StateDB_of e) a (rpc_GetNonceAt (rpc E) a (bc_BlockNumber (Context E)))) else e)
             in reading (\<lambda>d. GetNonce d a) (\<lambda>n. upd_account_state (upd_committed (\<lambda>st. UpdateTouchedNonce st a n))) e)
          else Some e);
     reading (\<lambda>d. GetNonce d a) (\<lambda>n. upd_account_state (\<lambda>st. UpdateTouchedNonce st a n)) e }"

definition SetCodeBalanceNonce :: "'t env \<Rightarrow> address \<Rightarrow> 't evm \<Rightarrow> 't evm option" where
  "SetCodeBalanceNonce E a e = do {
     e \<leftarrow> CheckAndSetCode E a e;
     e \<leftarrow> CheckAndSetBalance E a e;
     CheckAndSetNonce E a e }"

text \<open>
  Before the gas of an instruction is computed its operands are fetched into the account state, from
  the RPC node when it is required.  The code compares the names of the opcodes, which are distinct.
\<close>

definition fetch_slot :: "'t env \<Rightarrow> address \<Rightarrow> hash \<Rightarrow> account_state \<Rightarrow> 't evm \<Rightarrow> 't evm" where
  "fetch_slot E a k st e =
     (if IsRequirePRC st
      then upd_db e (SetState (StateDB_of e) a k (rpc_GetStorageAt (rpc E) a k (bc_BlockNumber (Context E)))) else e)"

definition beforeOpcodeExecutionHook :: "'t env \<Rightarrow> byte \<Rightarrow> 't frame \<Rightarrow> 't evm option" where
  "beforeOpcodeExecutionHook E b p = (case p of (e, s) \<Rightarrow>
     let self = ct_self (Contract s)
     in if b = SLOAD then do {
          loc \<leftarrow> st_peek (Stack s);
          st \<leftarrow> account_state_of e;
          if \<not> IsTouchedStorage st self loc then do {
            e \<leftarrow> reading (\<lambda>d. GetState d self loc)
              (\<lambda>v. upd_account_state (\<lambda>st. UpdateTouchedStorage st self loc v)) (fetch_slot E self loc st e);
            reading (\<lambda>d. GetState d self loc)
              (\<lambda>v. upd_account_state (upd_committed (\<lambda>st. UpdateTouchedStorage st self loc v))) e }
          else Some e }
        else if b = SSTORE then do {
          _ \<leftarrow> st_Back (Stack s) 1;
          loc \<leftarrow> st_Back (Stack s) 0;
          st \<leftarrow> account_state_of e;
          if \<not> IsTouchedStorage st self loc then
            reading (\<lambda>d. GetState d self loc)
              (\<lambda>v. upd_account_state (upd_committed (\<lambda>st. UpdateTouchedStorage st self loc v))) (fetch_slot E self loc st e)
          else Some e }
        else if b = BALANCE then do {
          slot \<leftarrow> st_peek (Stack s);
          CheckAndSetBalance E (addr_of slot) e }
        else if b = EXTCODEHASH \<or> b = EXTCODESIZE \<or> b = EXTCODECOPY then do {
          slot \<leftarrow> st_peek (Stack s);
          CheckAndSetCode E (addr_of slot) e }
        else if b = CALL \<or> b = CALLCODE \<or> b = DELEGATECALL \<or> b = STATICCALL then do {
          addr \<leftarrow> st_Back (Stack s) 1;
          SetCodeBalanceNonce E (addr_of addr) e }
        else Some e)"

text \<open>The StateDB behind the interface \<^verbatim>\<open>trace.StateDB\<close>.\<close>

definition sdb_trace :: "statedb trace_statedb" where
  "sdb_trace = \<lparr>td_SetBalance = SetBalance, td_SetNonce = SetNonce, td_SetState = SetState,
     td_GetBalance = GetBalance, td_GetNonce = GetNonce, td_GetCode = GetCode, td_GetState = GetState\<rparr>"

definition revert_account_state :: "'t env \<Rightarrow> AccountStateSnapshot \<Rightarrow> 't evm \<Rightarrow> 't evm option" where
  "revert_account_state E snapshot e = do {
     st \<leftarrow> account_state_of e;
     (st, d) \<leftarrow> RevertAccountState sdb_trace (ext_visits (ext E) st) st snapshot (StateDB_of e) (IsRequirePRC st);
     Some (upd_db e (SetAccountState d st)) }"

definition record_balance :: "address \<Rightarrow> 't evm \<Rightarrow> 't evm option" where
  "record_balance a = reading (\<lambda>d. GetBalance d a) (\<lambda>b. upd_account_state (\<lambda>st. UpdateTouchedBalance st a b))"

definition record_nonce :: "address \<Rightarrow> 't evm \<Rightarrow> 't evm option" where
  "record_nonce a = reading (\<lambda>d. GetNonce d a) (\<lambda>n. upd_account_state (\<lambda>st. UpdateTouchedNonce st a n))"

definition record_code :: "address \<Rightarrow> 't evm \<Rightarrow> 't evm option" where
  "record_code a = reading (\<lambda>d. GetCode d a) (\<lambda>c. upd_account_state (\<lambda>st. UpdateTouchedCode st a (slice_of c)))"

text \<open>What is recorded after a call or creation that did not fail.\<close>

definition record_call :: "byte \<Rightarrow> address \<Rightarrow> address \<Rightarrow> 't evm \<Rightarrow> 't evm option" where
  "record_call b from to e =
     (if b = CALL \<or> b = CALLCODE \<or> b = CREATE then do {
        e \<leftarrow> record_balance from e;
        e \<leftarrow> record_nonce from e;
        e \<leftarrow> record_balance to e;
        e \<leftarrow> record_nonce to e;
        if b = CREATE then record_code to e else Some e }
      else if b = CREATE2 then do {
        e \<leftarrow> record_code to e;
        e \<leftarrow> record_nonce from e;
        record_nonce to e }
      else Some e)"

text \<open>The account a call or creation is going to act on, computed before it.\<close>

definition target_of :: "byte \<Rightarrow> 't frame \<Rightarrow> (address \<times> 't evm) option" where
  "target_of b p = (case p of (e, s) \<Rightarrow>
     let from = ct_self (Contract s)
     in if b = CALL \<or> b = CALLCODE then do {
          addr \<leftarrow> st_Back (Stack s) 1;
          Some (addr_of addr, e) }
        else if b = CREATE then reading (\<lambda>d. GetNonce d from) (\<lambda>n e. do {
          to \<leftarrow> CreateAddress (db (StateDB_of e)) from n;
          Some (to, e) }) e
        else if b = CREATE2 then do {
          off \<leftarrow> st_Back (Stack s) 1;
          size \<leftarrow> st_Back (Stack s) 2;
          salt \<leftarrow> st_Back (Stack s) 3;
          code \<leftarrow> mem_GetCopy (Memory s) (Int64 off) (Int64 size);
          let d = db (StateDB_of e);
          Some (CreateAddress2 d from salt (keccak d code), e) }
        else Some (0, e))"

definition opcodeExecutionHook :: "'t callees \<Rightarrow> 't env \<Rightarrow> 't jump_table \<Rightarrow> byte \<Rightarrow> 't frame \<Rightarrow>
    ('t frame \<times> bytes \<times> vm_error option) option" where
  "opcodeExecutionHook K E jt b p = (case p of (e, s) \<Rightarrow>
     if b = CREATE \<or> b = CREATE2 \<or> b = CALL \<or> b = CALLCODE \<or> b = DELEGATECALL \<or> b = STATICCALL then do {
       st \<leftarrow> account_state_of e;
       let snapshot = ExportSnapshot st;
       let from = ct_self (Contract s);
       (to, e) \<leftarrow> target_of b (e, s);
       ((e, s), res, err) \<leftarrow> execute (jt b) K E (e, s);
       e \<leftarrow> (if err \<noteq> None then revert_account_state E snapshot e else record_call b from to e);
       Some ((e, s), res, err) }
     else if b = SELFDESTRUCT \<or> b = SSTORE then do {
       hook \<leftarrow> executeHook (jt b);
       hook K E (e, s) }
     else execute (jt b) K E (e, s))"

section \<open>One iteration of the loop\<close>

text \<open>
  What the deferred tracer call of \<open>Run\<close> reports: the pc, opcode and gas before the instruction,
  its cost so far and whether the step was already logged.
\<close>

record step_info =
  si_pc :: u64
  si_op :: byte
  si_gas :: u64
  si_cost :: u64
  si_logged :: bool

datatype 't outcome =
    Next "'t frame"
  | Halt "'t frame" bytes "vm_error option" step_info

text \<open>The memory an instruction asks for, in whole words.\<close>

definition requested_memory :: "memorySizeFunc option \<Rightarrow> stack \<Rightarrow> gas_result option" where
  "requested_memory f st =
     (case f of
        None \<Rightarrow> Some (Inr 0)
      | Some f \<Rightarrow> do {
          (memSize, overflow) \<leftarrow> f st;
          Some (if overflow then Inl ErrGasUintOverflow else checked (SafeMul (toWordSize memSize) 32)) })"

definition capture_state :: "'t env \<Rightarrow> step_info \<Rightarrow> scope \<Rightarrow> vm_error option \<Rightarrow> 't evm \<Rightarrow> 't evm option" where
  "capture_state E i s err e =
     with_tracer (\<lambda>t d. CaptureState (Logger E) t d (si_pc i) (si_op i) (si_gas i) (si_cost i) s (returnData e) (depth e) err) e"

definition capture_fault :: "'t env \<Rightarrow> step_info \<Rightarrow> scope \<Rightarrow> vm_error option \<Rightarrow> 't evm \<Rightarrow> 't evm option" where
  "capture_fault E i s err e =
     with_tracer (\<lambda>t d. CaptureFault (Logger E) t d (si_pc i) (si_op i) (si_gas i) (si_cost i) s (depth e) err) e"

text \<open>Execute an instruction whose gas is paid, and advance the pc when it ends without an error.\<close>

definition perform :: "'t callees \<Rightarrow> 't env \<Rightarrow> 't jump_table \<Rightarrow> step_info \<Rightarrow> 't frame \<Rightarrow> 't outcome option" where
  "perform K E jt i p = do {
     ((e, s), res, err) \<leftarrow>
       (if TraceStateFlag E then opcodeExecutionHook K E jt (si_op i) p else execute (jt (si_op i)) K E p);
     Some (if err = None then Next (e, s\<lparr>sc_pc := sc_pc s + 1\<rparr>)
           else Halt (e, s) res err (i\<lparr>si_logged := True\<rparr>)) }"

text \<open>Charge the dynamic gas and grow the memory; the tracer is called in between.\<close>

definition run_dynamic :: "'t callees \<Rightarrow> 't env \<Rightarrow> 't jump_table \<Rightarrow> step_info \<Rightarrow> 't gas_func \<Rightarrow> 't frame \<Rightarrow> 't outcome option" where
  "run_dynamic K E jt i g p = (case p of (e, s) \<Rightarrow> do {
     ms \<leftarrow> requested_memory (memorySize (jt (si_op i))) (Stack s);
     case ms of
       Inl err \<Rightarrow> Some (Halt (e, s) [] (Some err) i)
     | Inr memSize \<Rightarrow> do {
         ((e, c, m), r) \<leftarrow> g E (Stack s) memSize (e, Contract s, Memory s);
         let s = s\<lparr>Contract := c, Memory := m\<rparr>;
         case r of
           Inl err \<Rightarrow> Some (Halt (e, s) [] (Some ErrOutOfGas) i)
         | Inr dynamicCost \<Rightarrow> do {
             let i = i\<lparr>si_cost := si_cost i + dynamicCost\<rparr>;
             let (c, ok) = UseGas c dynamicCost;
             let s = s\<lparr>Contract := c\<rparr>;
             if \<not> ok then Some (Halt (e, s) [] (Some ErrOutOfGas) i)
             else do {
               e \<leftarrow> capture_state E i s None e;
               perform K E jt i (e, if memSize > 0 then s\<lparr>Memory := mem_Resize (Memory s) memSize\<rparr> else s) } } } })"

definition run_step :: "'t callees \<Rightarrow> 't env \<Rightarrow> 't jump_table \<Rightarrow> 't frame \<Rightarrow> 't outcome option" where
  "run_step K E jt p = (case p of (e, s) \<Rightarrow>
     let b = GetOp (Contract s) (sc_pc s);
         x = jt b;
         i = \<lparr>si_pc = sc_pc s, si_op = b, si_gas = Gas (Contract s), si_cost = constantGas x, si_logged = False\<rparr>;
         sLen = int (st_len (Stack s))
     in if sLen < op_minStack x then Some (Halt (e, s) [] (Some (ErrStackUnderflow sLen (op_minStack x))) i)
        else if sLen > op_maxStack x then Some (Halt (e, s) [] (Some (ErrStackOverflow sLen (op_maxStack x))) i)
        else let (c, ok) = UseGas (Contract s) (constantGas x); s = s\<lparr>Contract := c\<rparr>
        in if \<not> ok then Some (Halt (e, s) [] (Some ErrOutOfGas) i)
        else do {
          e \<leftarrow> (if TraceStateFlag E then beforeOpcodeExecutionHook E b (e, s) else Some e);
          case dynamicGas x of
            Some g \<Rightarrow> run_dynamic K E jt i g (e, s)
          | None \<Rightarrow> do {
              e \<leftarrow> capture_state E i s None e;
              perform K E jt i (e, s) } })"

section \<open>The loop and \<open>Run\<close>\<close>

text \<open>The outer option is fuel: \<^term>\<open>None\<close> when the loop has not ended after that many iterations.\<close>

fun run_loop :: "nat \<Rightarrow> 't callees \<Rightarrow> 't env \<Rightarrow> 't jump_table \<Rightarrow> 't frame \<Rightarrow> 't outcome option option" where
  "run_loop 0 K E jt p = None"
| "run_loop (Suc n) K E jt p =
     (case run_step K E jt p of
        Some (Next p) \<Rightarrow> run_loop n K E jt p
      | r \<Rightarrow> Some r)"

text \<open>The end of \<open>Run\<close>: \<open>errStopToken\<close> is no error; a failure is reported to the tracer.\<close>

definition finish_run :: "'t env \<Rightarrow> 't outcome \<Rightarrow> ('t evm \<times> contract \<times> bytes \<times> vm_error option) option" where
  "finish_run E r =
     (case r of
        Next p \<Rightarrow> None
      | Halt (e, s) res err i \<Rightarrow> do {
          let err = (if err = Some ErrStopToken then None else err);
          e \<leftarrow> (if err = None then Some e
               else if \<not> si_logged i then capture_state E i s err e
               else capture_fault E i s err e);
          Some (e, Contract s, res, err) })"

text \<open>An iteration that goes on uses up gas, so as many iterations as there is gas suffice.\<close>

definition run_fuel :: "contract \<Rightarrow> nat" where
  "run_fuel c = Suc (unat (Gas c))"

type_synonym 't runner =
  "'t evm \<Rightarrow> contract \<Rightarrow> bytes \<Rightarrow> bool \<Rightarrow> ('t evm \<times> contract \<times> bytes \<times> vm_error option) option"

definition Run :: "'t callees \<Rightarrow> 't env \<Rightarrow> 't jump_table \<Rightarrow> 't runner" where
  "Run K E jt e c input ro = do {
     let set_ro = (ro \<and> \<not> readOnly e);
     let e = e\<lparr>depth := depth e + 1, readOnly := readOnly e \<or> ro, returnData := []\<rparr>;
     (e, c, res, err) \<leftarrow>
       (if Code c = [] then Some (e, c, [], None)
        else do {
          let s = \<lparr>sc_pc = 0, Stack = [], Memory = NewMemory, Contract = c\<lparr>Input := input\<rparr>\<rparr>;
          r \<leftarrow> run_loop (run_fuel c) K E jt (e, s);
          r \<leftarrow> r;
          finish_run E r });
     Some (e\<lparr>depth := depth e - 1, readOnly := (if set_ro then False else readOnly e)\<rparr>, c, res, err) }"

section \<open>Calls and creations (evm.go)\<close>

text \<open>
  After an error the state goes back to the snapshot, and all gas is gone unless the code reverted.
\<close>

definition settle :: "int \<Rightarrow> 't evm \<times> bytes \<times> u64 \<times> vm_error option \<Rightarrow> ('t evm \<times> bytes \<times> u64 \<times> vm_error option) option" where
  "settle snapshot r = (case r of (e, ret, gas, err) \<Rightarrow>
     if err \<noteq> None then do {
       d \<leftarrow> RevertToSnapshot (StateDB_of e) snapshot;
       Some (upd_db e d, ret, if err \<noteq> Some ErrExecutionReverted then 0 else gas, err) }
     else Some (e, ret, gas, err))"

text \<open>The deferred call of the tracer, with the gas that was used.\<close>

definition capture_exit :: "'t env \<Rightarrow> bool \<Rightarrow> u64 \<Rightarrow> 't evm \<times> bytes \<times> u64 \<times> vm_error option \<Rightarrow>
    ('t evm \<times> bytes \<times> u64 \<times> vm_error option) option" where
  "capture_exit E outermost startGas r = (case r of (e, ret, gas, err) \<Rightarrow> do {
     e \<leftarrow> with_tracer (\<lambda>t d. if outermost then CaptureEnd (Logger E) t d ret (startGas - gas) err
                            else CaptureExit (Logger E) t d ret (startGas - gas) err) e;
     Some (e, ret, gas, err) })"

definition take_snapshot :: "'t evm \<Rightarrow> int \<times> 't evm" where
  "take_snapshot e = (case Snapshot (StateDB_of e) of (i, d) \<Rightarrow> (i, upd_db e d))"

text \<open>Run the code of \<open>addr\<close> in the contract \<open>c\<close>.\<close>

definition run_contract :: "'t runner \<Rightarrow> 't evm \<Rightarrow> contract \<Rightarrow> address \<Rightarrow> hash \<Rightarrow> bytes option \<Rightarrow> bytes \<Rightarrow> bool \<Rightarrow>
    ('t evm \<times> bytes \<times> u64 \<times> vm_error option) option" where
  "run_contract run e c addr h code input ro = do {
     (e, c, ret, err) \<leftarrow> run e (SetCallCode c (Some addr) h (slice_of code)) input ro;
     Some (e, ret, Gas c, err) }"

text \<open>The three calls that run a precompile or a contract without a transfer share their middle.\<close>

definition run_target :: "'t runner \<Rightarrow> 't env \<Rightarrow> 't evm \<Rightarrow> contract option \<Rightarrow> address \<Rightarrow> bytes \<Rightarrow> u64 \<Rightarrow> bool \<Rightarrow>
    ('t evm \<times> bytes \<times> u64 \<times> vm_error option) option" where
  "run_target run E e contract addr input gas ro =
     (case precompile E addr of
        Some p \<Rightarrow> Some (e, RunPrecompiledContract (ext E) p input gas)
      | None \<Rightarrow> do {
          c \<leftarrow> contract;
          reading (\<lambda>d. GetCodeHash d addr) (\<lambda>h. reading (\<lambda>d. GetCode d addr)
            (\<lambda>code e. run_contract run e c addr h code input ro)) e })"

definition depth_exceeded :: "'t evm \<Rightarrow> bool" where
  "depth_exceeded e \<longleftrightarrow> depth e > int CallCreateDepth"

definition can_transfer :: "'t env \<Rightarrow> address \<Rightarrow> int \<Rightarrow> 't evm \<Rightarrow> bool \<times> 't evm" where
  "can_transfer E a v e = (case bc_CanTransfer (Context E) (StateDB_of e) a v of (b, d) \<Rightarrow> (b, upd_db e d))"

text \<open>A new contract called by \<open>caller\<close>; it shares the caller's jump-destination map.\<close>

definition new_contract :: "contract_ref \<Rightarrow> address \<Rightarrow> int option \<Rightarrow> u64 \<Rightarrow> 't evm \<Rightarrow> contract \<times> 't evm" where
  "new_contract caller self value gas e =
     (case NewContract caller self value gas (jumpdests e) of (c, dests) \<Rightarrow> (c, e\<lparr>jumpdests := dests\<rparr>))"

definition capture_enter :: "'t env \<Rightarrow> byte \<Rightarrow> address \<Rightarrow> address \<Rightarrow> bytes \<Rightarrow> u64 \<Rightarrow> int option \<Rightarrow> 't evm \<Rightarrow> 't evm option" where
  "capture_enter E typ from to input gas value =
     with_tracer (\<lambda>t d. CaptureEnter (Logger E) t d typ from to input gas value)"

text \<open>\<open>CaptureStart\<close> for the outermost call, \<open>CaptureEnter\<close> for an inner one.\<close>

definition capture_begin :: "'t env \<Rightarrow> bool \<Rightarrow> byte \<Rightarrow> address \<Rightarrow> address \<Rightarrow> bytes \<Rightarrow> u64 \<Rightarrow> int \<Rightarrow> 't evm \<Rightarrow> 't evm option" where
  "capture_begin E create typ from to input gas value e =
     (if depth e = 0 then with_tracer (\<lambda>t d. CaptureStart (Logger E) t d from to create input gas value) e
      else capture_enter E typ from to input gas (Some value) e)"

definition Call :: "'t runner \<Rightarrow> 't env \<Rightarrow> 't evm \<Rightarrow> contract_ref \<Rightarrow> address \<Rightarrow> bytes \<Rightarrow> u64 \<Rightarrow> int \<Rightarrow>
    ('t evm \<times> bytes \<times> u64 \<times> vm_error option) option" where
  "Call run E e caller addr input gas value =
     (if depth_exceeded e then Some (e, [], gas, Some ErrDepth)
      else let (ok, e) = (if value \<noteq> 0 then can_transfer E (ref_Address caller) value e else (True, e))
      in if \<not> ok then Some (e, [], gas, Some ErrInsufficientBalance)
      else let (snapshot, e) = take_snapshot e; outermost = (depth e = 0); p = precompile E addr
      in reading (\<lambda>d. Exist d addr) (\<lambda>ex e.
        if \<not> ex \<and> p = None \<and> ruleEIP158 (chainRules E) \<and> value = 0 then do {
          e \<leftarrow> capture_begin E False CALL (ref_Address caller) addr input gas value e;
          (e, _) \<leftarrow> capture_exit E outermost 0 (e, [], 0, None);
          Some (e, [], gas, None) }
        else do {
          let e = (if \<not> ex then upd_db e (CreateAccount (StateDB_of e) addr) else e);
          let e = upd_db e (bc_Transfer (Context E) (StateDB_of e) (ref_Address caller) addr value);
          e \<leftarrow> capture_begin E False CALL (ref_Address caller) addr input gas value e;
          r \<leftarrow> (case p of
                 Some p \<Rightarrow> Some (e, RunPrecompiledContract (ext E) p input gas)
               | None \<Rightarrow> reading (\<lambda>d. GetCode d addr) (\<lambda>code e.
                   if slice_of code = [] then Some (e, [], gas, None)
                   else let (c, e) = new_contract caller addr (Some value) gas e
                        in reading (\<lambda>d. GetCodeHash d addr)
                          (\<lambda>h e. run_contract run e c addr h code input False) e) e);
          r \<leftarrow> settle snapshot r;
          capture_exit E outermost gas r }) e)"

definition CallCode :: "'t runner \<Rightarrow> 't env \<Rightarrow> 't evm \<Rightarrow> contract_ref \<Rightarrow> address \<Rightarrow> bytes \<Rightarrow> u64 \<Rightarrow> int \<Rightarrow>
    ('t evm \<times> bytes \<times> u64 \<times> vm_error option) option" where
  "CallCode run E e caller addr input gas value =
     (if depth_exceeded e then Some (e, [], gas, Some ErrDepth)
      else let (ok, e) = can_transfer E (ref_Address caller) value e
      in if \<not> ok then Some (e, [], gas, Some ErrInsufficientBalance)
      else do {
        let (snapshot, e) = take_snapshot e;
        e \<leftarrow> capture_enter E CALLCODE (ref_Address caller) addr input gas (Some value) e;
        let (c, e) = new_contract caller (ref_Address caller) (Some value) gas e;
        r \<leftarrow> run_target run E e (Some c) addr input gas False;
        r \<leftarrow> settle snapshot r;
        capture_exit E False gas r })"

text \<open>With a tracer, \<open>DelegateCall\<close> panics for a caller that is not a contract even before \<open>AsDelegate\<close> does.\<close>

definition DelegateCall :: "'t runner \<Rightarrow> 't env \<Rightarrow> 't evm \<Rightarrow> contract_ref \<Rightarrow> address \<Rightarrow> bytes \<Rightarrow> u64 \<Rightarrow>
    ('t evm \<times> bytes \<times> u64 \<times> vm_error option) option" where
  "DelegateCall run E e caller addr input gas =
     (if depth_exceeded e then Some (e, [], gas, Some ErrDepth)
      else do {
        let (snapshot, e) = take_snapshot e;
        e \<leftarrow> (if Tracer e = None then Some e
             else (case caller of
                 AccountRef _ \<Rightarrow> None
               | ContractRef parent \<Rightarrow>
                   capture_enter E DELEGATECALL (ref_Address caller) addr input gas (ct_value parent) e));
        let (c, e) = new_contract caller (ref_Address caller) None gas e;
        r \<leftarrow> run_target run E e (AsDelegate c caller) addr input gas False;
        r \<leftarrow> settle snapshot r;
        capture_exit E False gas r })"

definition StaticCall :: "'t runner \<Rightarrow> 't env \<Rightarrow> 't evm \<Rightarrow> contract_ref \<Rightarrow> address \<Rightarrow> bytes \<Rightarrow> u64 \<Rightarrow>
    ('t evm \<times> bytes \<times> u64 \<times> vm_error option) option" where
  "StaticCall run E e caller addr input gas =
     (if depth_exceeded e then Some (e, [], gas, Some ErrDepth)
      else do {
        let (snapshot, e) = take_snapshot e;
        let e = upd_db e (AddBalance (StateDB_of e) addr 0);
        e \<leftarrow> capture_enter E STATICCALL (ref_Address caller) addr input gas None e;
        let (c, e) = new_contract caller addr (Some 0) gas e;
        r \<leftarrow> run_target run E e (Some c) addr input gas True;
        r \<leftarrow> settle snapshot r;
        capture_exit E False gas r })"

text \<open>
  What \<open>create\<close> makes of the code that the init code returned: the errors that reject it, or the
  code stored and paid for.
\<close>

definition store_code :: "'t env \<Rightarrow> address \<Rightarrow> 't evm \<times> contract \<times> bytes \<times> vm_error option \<Rightarrow>
    't evm \<times> contract \<times> bytes \<times> vm_error option" where
  "store_code E addr r = (case r of (e, c, ret, err) \<Rightarrow>
     let err = (if err = None \<and> ruleEIP158 (chainRules E) \<and> length ret > MaxCodeSize
                then Some ErrMaxCodeSizeExceeded else err);
         err = (if err = None \<and> length ret \<ge> 1 \<and> ret ! 0 = 0xEF \<and> ruleLondon (chainRules E)
                then Some ErrInvalidCode else err)
     in if err = None
        then let createDataGas = of_nat (length ret) * CreateDataGas; (c, ok) = UseGas c createDataGas
             in if ok then (upd_db e (SetCode (StateDB_of e) addr (if ret = [] then None else Some ret)), c, ret, None)
                else (e, c, ret, Some ErrCodeStoreOutOfGas)
        else (e, c, ret, err))"

definition settle_create :: "'t env \<Rightarrow> int \<Rightarrow> 't evm \<times> contract \<times> bytes \<times> vm_error option \<Rightarrow>
    ('t evm \<times> contract \<times> bytes \<times> vm_error option) option" where
  "settle_create E snapshot r = (case r of (e, c, ret, err) \<Rightarrow>
     if err \<noteq> None \<and> (ruleHomestead (chainRules E) \<or> err \<noteq> Some ErrCodeStoreOutOfGas) then do {
       d \<leftarrow> RevertToSnapshot (StateDB_of e) snapshot;
       Some (upd_db e d, if err \<noteq> Some ErrExecutionReverted then fst (UseGas c (Gas c)) else c, ret, err) }
     else Some (e, c, ret, err))"

text \<open>The nonce of the caller and the warm address outlive a failed creation; a collision takes all gas.\<close>

definition create :: "'t runner \<Rightarrow> 't env \<Rightarrow> 't evm \<Rightarrow> contract_ref \<Rightarrow> bytes \<Rightarrow> hash \<Rightarrow> u64 \<Rightarrow> int \<Rightarrow> address \<Rightarrow> byte \<Rightarrow>
    ('t evm \<times> bytes \<times> address \<times> u64 \<times> vm_error option) option" where
  "create run E e caller code codehash gas value addr typ =
     (if depth_exceeded e then Some (e, [], 0, gas, Some ErrDepth)
      else let (ok, e) = can_transfer E (ref_Address caller) value e
      in if \<not> ok then Some (e, [], 0, gas, Some ErrInsufficientBalance)
      else reading (\<lambda>d. GetNonce d (ref_Address caller)) (\<lambda>nonce e.
        if nonce + 1 < nonce then Some (e, [], 0, gas, Some ErrNonceUintOverflow)
        else let e = upd_db e (SetNonce (StateDB_of e) (ref_Address caller) (nonce + 1));
                 e = (if ruleBerlin (chainRules E) then upd_db e (AddAddressToAccessList (StateDB_of e) addr) else e)
        in reading (\<lambda>d. GetCodeHash d addr) (\<lambda>contractHash. reading (\<lambda>d. GetNonce d addr) (\<lambda>n e.
          if n \<noteq> 0 \<or> (contractHash \<noteq> 0 \<and> contractHash \<noteq> EmptyCodeHash (db (StateDB_of e)))
          then Some (e, [], 0, 0, Some ErrContractAddressCollision)
          else do {
            let (snapshot, e) = take_snapshot e;
            let e = upd_db e (CreateAccount (StateDB_of e) addr);
            let e = (if ruleEIP158 (chainRules E) then upd_db e (SetNonce (StateDB_of e) addr 1) else e);
            let e = upd_db e (bc_Transfer (Context E) (StateDB_of e) (ref_Address caller) addr value);
            let (c, e) = new_contract caller addr (Some value) gas e;
            let c = SetCodeOptionalHash c (Some addr) code codehash;
            e \<leftarrow> capture_begin E True typ (ref_Address caller) addr code gas value e;
            r \<leftarrow> run e c [] False;
            (e, c, ret, err) \<leftarrow> settle_create E snapshot (store_code E addr r);
            (e, _) \<leftarrow> capture_exit E (depth e = 0) gas (e, ret, Gas c, err);
            Some (e, ret, addr, Gas c, err) })) e) e)"

definition Create :: "'t runner \<Rightarrow> 't env \<Rightarrow> 't evm \<Rightarrow> contract_ref \<Rightarrow> bytes \<Rightarrow> u64 \<Rightarrow> int \<Rightarrow>
    ('t evm \<times> bytes \<times> address \<times> u64 \<times> vm_error option) option" where
  "Create run E e caller code gas value =
     reading (\<lambda>d. GetNonce d (ref_Address caller)) (\<lambda>nonce e. do {
       addr \<leftarrow> CreateAddress (db (StateDB_of e)) (ref_Address caller) nonce;
       create run E e caller code 0 gas value addr CREATE }) e"

definition Create2 :: "'t runner \<Rightarrow> 't env \<Rightarrow> 't evm \<Rightarrow> contract_ref \<Rightarrow> bytes \<Rightarrow> u64 \<Rightarrow> int \<Rightarrow> u256 \<Rightarrow>
    ('t evm \<times> bytes \<times> address \<times> u64 \<times> vm_error option) option" where
  "Create2 run E e caller code gas endowment salt =
     (let d = db (StateDB_of e); h = keccak d code
      in create run E e caller code h gas endowment (CreateAddress2 d (ref_Address caller) salt h) CREATE2)"

section \<open>The recursion through calls\<close>

definition callees_of :: "'t runner \<Rightarrow> 't env \<Rightarrow> 't callees" where
  "callees_of run E =
     \<lparr>c_Call = Call run E, c_CallCode = CallCode run E, c_DelegateCall = DelegateCall run E,
      c_StaticCall = StaticCall run E, c_Create = Create run E, c_Create2 = Create2 run E\<rparr>"

text \<open>\<open>Run\<close> with at most \<open>n\<close> nested runs below it; what lies deeper is \<open>Z\<close>.\<close>

fun run_at :: "nat \<Rightarrow> 't runner \<Rightarrow> 't env \<Rightarrow> 't jump_table \<Rightarrow> 't runner" where
  "run_at 0 Z E jt = Z"
| "run_at (Suc n) Z E jt = Run (callees_of (run_at n Z E jt) E) E jt"

definition no_runner :: "'t runner" where
  "no_runner e c input ro = None"

text \<open>
  \<open>Run\<close> is only entered at depths up to \<open>CallCreateDepth\<close>, so \<open>CallCreateDepth + 1\<close> levels suffice.
\<close>

definition EVM_run :: "'t env \<Rightarrow> 't jump_table \<Rightarrow> 't runner" where
  "EVM_run = run_at (CallCreateDepth + 1) no_runner"

definition EVM_Call :: "'t env \<Rightarrow> 't jump_table \<Rightarrow> 't evm \<Rightarrow> contract_ref \<Rightarrow> address \<Rightarrow> bytes \<Rightarrow> u64 \<Rightarrow> int \<Rightarrow>
    ('t evm \<times> bytes \<times> u64 \<times> vm_error option) option" where
  "EVM_Call E jt = Call (EVM_run E jt) E"

definition EVM_Create :: "'t env \<Rightarrow> 't jump_table \<Rightarrow> 't evm \<Rightarrow> contract_ref \<Rightarrow> bytes \<Rightarrow> u64 \<Rightarrow> int \<Rightarrow>
    ('t evm \<times> bytes \<times> address \<times> u64 \<times> vm_error option) option" where
  "EVM_Create E jt = Create (EVM_run E jt) E"

end
