(* ===== verification/Frame.thy ===== *)
theory Frame
  imports Interpreter StateDB_Nested Gas_Props
begin

text \<open>
  What running code leaves alone.  \<open>evolves\<close> is what one instruction, one call or a whole run
  may do to the EVM: the state database only grows (so every snapshot can still be restored), and
  the depth, the read-only flag and the tracer's presence stay.  \<open>evm_host\<close> states what the EVM
  expects of its surroundings: a balance check and a tracer that only read, a transfer that uses
  the database's operations.
\<close>

section \<open>The frame of an execution\<close>

definition sound_evm :: "'t evm \<Rightarrow> bool" where
  "sound_evm e \<longleftrightarrow> sound_db (StateDB_of e)"

definition evolves :: "'t evm \<Rightarrow> 't evm \<Rightarrow> bool" where
  "evolves e e' \<longleftrightarrow> grows (StateDB_of e) (StateDB_of e') \<and> depth e' = depth e \<and>
     readOnly e' = readOnly e \<and> aborted e' = aborted e \<and> (Tracer e' = None \<longleftrightarrow> Tracer e = None)"

lemma evolves_refl: "sound_evm e \<Longrightarrow> evolves e e"
  by (simp add: evolves_def sound_evm_def grows_refl)

lemma evolves_trans: "evolves e f \<Longrightarrow> evolves f g \<Longrightarrow> evolves e g"
  by (auto simp: evolves_def intro: grows_trans)

lemma evolves_sound: "evolves e e' \<Longrightarrow> sound_evm e'"
  unfolding evolves_def sound_evm_def using grows_sound by blast

lemma evolves_grows: "evolves e e' \<Longrightarrow> grows (StateDB_of e) (StateDB_of e')"
  by (simp add: evolves_def)

lemma evolves_depth: "evolves e e' \<Longrightarrow> depth e' = depth e"
  by (simp add: evolves_def)

named_theorems evolve "what keeps \<open>evolves\<close>"

lemma evolves_upd_db [evolve]:
  "evolves e0 e \<Longrightarrow> grows (StateDB_of e0) d \<Longrightarrow> evolves e0 (upd_db e d)"
  by (simp add: evolves_def upd_db_def)

lemma evolves_fields [simp]:
  "evolves e0 (e\<lparr>callGasTemp := g\<rparr>) = evolves e0 e" "evolves e0 (e\<lparr>returnData := b\<rparr>) = evolves e0 e"
  "evolves e0 (e\<lparr>jumpdests := j\<rparr>) = evolves e0 e"
  by (simp_all add: evolves_def)

lemma StateDB_of_upd [simp]: "StateDB_of (upd_db e d) = d" "depth (upd_db e d) = depth e"
  "callGasTemp (upd_db e d) = callGasTemp e" "readOnly (upd_db e d) = readOnly e"
  "Tracer (upd_db e d) = Tracer e" "jumpdests (upd_db e d) = jumpdests e"
  by (simp_all add: upd_db_def)

text \<open>The contract and the memory an instruction leaves: the same code and identity, the same size.\<close>

definition same_code :: "contract \<Rightarrow> contract \<Rightarrow> bool" where
  "same_code c c' \<longleftrightarrow> c'\<lparr>analysis := analysis c, Gas := Gas c\<rparr> = c"

definition same_size :: "memory \<Rightarrow> memory \<Rightarrow> bool" where
  "same_size m m' \<longleftrightarrow> length (mem_store m') = length (mem_store m) \<and> lastGasCost m' = lastGasCost m"

lemma same_code_refl [simp]: "same_code c c"
  by (simp add: same_code_def)

lemma same_code_upd [simp]:
  "same_code c (c'\<lparr>analysis := a\<rparr>) = same_code c c'" "same_code c (c'\<lparr>Gas := g\<rparr>) = same_code c c'"
  by (simp_all add: same_code_def)

lemma same_code_trans: "same_code c c' \<Longrightarrow> same_code c' c'' \<Longrightarrow> same_code c c''"
  unfolding same_code_def by (cases c; cases c'; cases c'') auto

lemma same_size_refl [simp]: "same_size m m"
  by (simp add: same_size_def)

lemma same_size_trans: "same_size m m' \<Longrightarrow> same_size m' m'' \<Longrightarrow> same_size m m''"
  by (simp add: same_size_def)

lemma same_size_ok: "same_size m m' \<Longrightarrow> mem_ok m' = mem_ok m"
  by (simp add: same_size_def mem_ok_def)

lemma memory_writes:
  "mem_Set m off sz b = Some m' \<Longrightarrow> same_size m m'"
  "mem_Set32 m off w = Some m' \<Longrightarrow> same_size m m'"
  "mem_Copy m dst src len = Some m' \<Longrightarrow> same_size m m'"
  by (auto simp: mem_Set_def mem_Set32_def mem_Copy_def same_size_def bind_eq_Some_conv word_le_nat_alt
      split: if_splits)

section \<open>Results of instructions\<close>

text \<open>
  \<open>goes e s g r\<close>: whatever an instruction started on \<open>e\<close> and \<open>s\<close> returns in \<open>r\<close>, it stayed in
  its frame and the contract has at most \<open>g\<close> gas.
\<close>

definition kept :: "'t evm \<Rightarrow> scope \<Rightarrow> nat \<Rightarrow> 't evm \<Rightarrow> scope \<Rightarrow> bool" where
  "kept e0 s0 g e s \<longleftrightarrow> evolves e0 e \<and> same_code (Contract s0) (Contract s) \<and>
     same_size (Memory s0) (Memory s) \<and> unat (Gas (Contract s)) \<le> g"

definition goes :: "'t evm \<Rightarrow> scope \<Rightarrow> nat \<Rightarrow> ('t frame \<times> bytes \<times> vm_error option) option \<Rightarrow> bool" where
  "goes e0 s0 g r \<longleftrightarrow> (\<forall>e s out err. r = Some ((e, s), out, err) \<longrightarrow> kept e0 s0 g e s)"

lemma goes_simps [simp]:
  "goes e0 s0 g None" "goes e0 s0 g (fails e s er) = kept e0 s0 g e s" "goes e0 s0 g (fin e s) = kept e0 s0 g e s"
  "goes e0 s0 g (fin_st e s st) = kept e0 s0 g e s"
  "goes e0 s0 g (Some ((e, s), out, err)) = kept e0 s0 g e s"
  "goes e0 s0 g (if b then p else q) \<longleftrightarrow> (b \<longrightarrow> goes e0 s0 g p) \<and> (\<not> b \<longrightarrow> goes e0 s0 g q)"
  "goes e0 s0 g (case x of (u, v) \<Rightarrow> h u v) \<longleftrightarrow> (\<forall>u v. x = (u, v) \<longrightarrow> goes e0 s0 g (h u v))"
  by (auto simp: goes_def fin_def fails_def fin_st_def kept_def split: prod.split)

lemma goes_bind [simp]: "goes e0 s0 g (Option.bind m f) \<longleftrightarrow> (\<forall>x. m = Some x \<longrightarrow> goes e0 s0 g (f x))"
  by (cases m) auto

lemma goes_mono: "goes e s g r \<Longrightarrow> g \<le> h \<Longrightarrow> goes e s h r"
  by (auto simp: goes_def kept_def)

lemma kept_refl: "sound_evm e \<Longrightarrow> kept e s (unat (Gas (Contract s))) e s"
  by (simp add: kept_def evolves_refl)

lemma reading_Some: "reading f k e = r \<longleftrightarrow> (\<exists>v d. f (StateDB_of e) = (v, d) \<and> k v (upd_db e d) = r)"
  by (auto simp: reading_def split: prod.split)

lemma upd_account_state_evolves [evolve]:
  "upd_account_state f e = Some e' \<Longrightarrow> evolves e0 e \<Longrightarrow> evolves e0 e'"
  by (auto simp: upd_account_state_def bind_eq_Some_conv intro: evolve db_ops evolves_grows)

lemma upd_account_state_temp: "upd_account_state f e = Some e' \<Longrightarrow> callGasTemp e' = callGasTemp e"
  by (auto simp: upd_account_state_def bind_eq_Some_conv)

section \<open>The host\<close>

locale evm_host =
  fixes E :: "'t env"
  assumes CanTransfer_peeks: "sdb_inv d \<Longrightarrow> bc_CanTransfer (Context E) d a v = (b, d') \<Longrightarrow> peeks d d'"
    and Transfer_grows: "grows s d \<Longrightarrow> grows s (bc_Transfer (Context E) d a a' v)"
    and CaptureStart_peeks: "sdb_inv d \<Longrightarrow> CaptureStart (Logger E) t d a a' cr inp g v = Some (t', d') \<Longrightarrow> peeks d d'"
    and CaptureEnd_peeks: "sdb_inv d \<Longrightarrow> CaptureEnd (Logger E) t d out g err = Some (t', d') \<Longrightarrow> peeks d d'"
    and CaptureEnter_peeks: "sdb_inv d \<Longrightarrow> CaptureEnter (Logger E) t d typ a a' inp g ov = Some (t', d') \<Longrightarrow> peeks d d'"
    and CaptureExit_peeks: "sdb_inv d \<Longrightarrow> CaptureExit (Logger E) t d out g err = Some (t', d') \<Longrightarrow> peeks d d'"
    and CaptureState_peeks: "sdb_inv d \<Longrightarrow> CaptureState (Logger E) t d pc op g cost sc out dp err = Some (t', d') \<Longrightarrow> peeks d d'"
    and CaptureFault_peeks: "sdb_inv d \<Longrightarrow> CaptureFault (Logger E) t d pc op g cost sc dp err = Some (t', d') \<Longrightarrow> peeks d d'"
begin

lemmas capture_peeks = CaptureStart_peeks CaptureEnd_peeks CaptureEnter_peeks CaptureExit_peeks
  CaptureState_peeks CaptureFault_peeks

end

text \<open>A tracer call that only reads the database.\<close>

lemma with_tracer_evolves:
  assumes "\<And>t d t' d'. sdb_inv d \<Longrightarrow> f t d = Some (t', d') \<Longrightarrow> peeks d d'"
    and "with_tracer f e = Some e'" "evolves e0 e"
  shows "evolves e0 e'"
  using assms grows_inv [OF evolves_grows [OF assms(3)]]
  by (auto simp: with_tracer_def bind_eq_Some_conv evolves_def peeks_def
      intro: grows_step split: option.splits)

lemma with_tracer_world:
  assumes "\<And>t d t' d'. sdb_inv d \<Longrightarrow> f t d = Some (t', d') \<Longrightarrow> peeks d d'"
    and "with_tracer f e = Some e'" "sound_evm e"
  shows "world_of (StateDB_of e') = world_of (StateDB_of e)"
  using assms by (auto simp: with_tracer_def bind_eq_Some_conv peeks_def sound_evm_def sound_db_def split: option.splits)

lemma with_tracer_fields:
  "with_tracer f e = Some e' \<Longrightarrow> callGasTemp e' = callGasTemp e \<and> depth e' = depth e \<and> returnData e' = returnData e \<and>
     readOnly e' = readOnly e"
  by (auto simp: with_tracer_def bind_eq_Some_conv split: option.splits)

context evm_host begin

lemma capture_state_evolves [evolve]: "capture_state E i s err e = Some e' \<Longrightarrow> evolves e0 e \<Longrightarrow> evolves e0 e'"
  unfolding capture_state_def by (rule with_tracer_evolves [rotated]; (assumption | erule (1) CaptureState_peeks))

lemma capture_fault_evolves [evolve]: "capture_fault E i s err e = Some e' \<Longrightarrow> evolves e0 e \<Longrightarrow> evolves e0 e'"
  unfolding capture_fault_def by (rule with_tracer_evolves [rotated]; (assumption | erule (1) CaptureFault_peeks))

lemma trace_selfdestruct_evolves [evolve]:
  "trace_selfdestruct E a b v e = Some e' \<Longrightarrow> evolves e0 e \<Longrightarrow> evolves e0 e'"
  unfolding trace_selfdestruct_def bind_eq_Some_conv
  by (elim exE conjE, rule with_tracer_evolves [rotated], assumption, rule with_tracer_evolves [rotated];
      (assumption | erule (1) CaptureEnter_peeks | erule (1) CaptureExit_peeks))

end

end
