(* ===== verification/JumpTable_Props.thy ===== *)
theory JumpTable_Props
  imports JumpTable Demo
begin

text \<open>
  Every operation of every fork's table declares its stack use truthfully: it reads and replaces
  exactly the elements its limits announce, and so do its gas and its memory-size function.  So no
  table panics in \<open>validate\<close> and no operation the interpreter dispatches can run out of arguments.
\<close>

section \<open>Working on the top of the stack only\<close>

definition add_below :: "stack \<Rightarrow> ('t frame \<times> bytes \<times> vm_error option) option \<Rightarrow>
    ('t frame \<times> bytes \<times> vm_error option) option" where
  "add_below ys r = map_option (\<lambda>((e, s), ret, err). ((e, s\<lparr>Stack := Stack s @ ys\<rparr>), ret, err)) r"

text \<open>
  \<open>stack_local n k f\<close>: \<open>f\<close> depends on the top \<open>n\<close> elements only, leaves the rest below its result,
  and replaces them by \<open>k\<close> elements when it ends without an error.
\<close>

definition stack_local :: "nat \<Rightarrow> nat \<Rightarrow> 't executionFunc \<Rightarrow> bool" where
  "stack_local n k f \<longleftrightarrow>
     (\<forall>K E e s xs ys. length xs = n \<longrightarrow>
        f K E (e, s\<lparr>Stack := xs @ ys\<rparr>) = add_below ys (f K E (e, s\<lparr>Stack := xs\<rparr>)) \<and>
        (\<forall>e' s' ret. f K E (e, s\<lparr>Stack := xs\<rparr>) = Some ((e', s'), ret, None) \<longrightarrow> length (Stack s') = k))"

definition leaves :: "nat \<Rightarrow> ('t frame \<times> bytes \<times> vm_error option) option \<Rightarrow> bool" where
  "leaves k r \<longleftrightarrow> (\<forall>e s ret. r = Some ((e, s), ret, None) \<longrightarrow> length (Stack s) = k)"

lemma stack_localI:
  assumes "\<And>K E e p xs m c ys. length xs = n \<Longrightarrow>
      add_below ys (f K E (e, \<lparr>sc_pc = p, Stack = xs, Memory = m, Contract = c\<rparr>)) =
      f K E (e, \<lparr>sc_pc = p, Stack = xs @ ys, Memory = m, Contract = c\<rparr>)"
    and "\<And>K E e p xs m c. length xs = n \<Longrightarrow>
      leaves k (f K E (e, \<lparr>sc_pc = p, Stack = xs, Memory = m, Contract = c\<rparr>))"
  shows "stack_local n k f"
proof -
  have upd: "\<exists>p m c. \<forall>st. s\<lparr>Stack := st\<rparr> = \<lparr>sc_pc = p, Stack = st, Memory = m, Contract = c\<rparr>" for s :: scope
    by (cases s) auto
  show ?thesis
    unfolding stack_local_def leaves_def [symmetric] using assms upd by (metis leaves_def)
qed

named_theorems local_ops "operations that work on the top of the stack only"

lemma add_below_simps [simp]:
  "add_below ys (Option.bind m f) = Option.bind m (\<lambda>x. add_below ys (f x))"
  "add_below ys None = None"
  "add_below ys (Some ((e, s), ret, err)) = Some ((e, s\<lparr>Stack := Stack s @ ys\<rparr>), ret, err)"
  "add_below ys (fin e s) = fin e (s\<lparr>Stack := Stack s @ ys\<rparr>)"
  "add_below ys (fails e s er) = fails e (s\<lparr>Stack := Stack s @ ys\<rparr>) er"
  "add_below ys (if b then p else q) = (if b then add_below ys p else add_below ys q)"
  "add_below ys (case x of (u, v) \<Rightarrow> h u v) = (case x of (u, v) \<Rightarrow> add_below ys (h u v))"
  by (cases m) (auto simp: add_below_def fin_def fails_def split: prod.split)

lemma leaves_simps [simp]:
  "leaves k None" "leaves k (fails e s er)" "leaves k (Some ((e, s), ret, Some er))"
  "leaves k (fin e s) \<longleftrightarrow> length (Stack s) = k"
  "leaves k (Some ((e, s), ret, None)) \<longleftrightarrow> length (Stack s) = k"
  "leaves k (if b then p else q) \<longleftrightarrow> (b \<longrightarrow> leaves k p) \<and> (\<not> b \<longrightarrow> leaves k q)"
  "leaves k (case x of (u, v) \<Rightarrow> h u v) \<longleftrightarrow> (\<forall>u v. x = (u, v) \<longrightarrow> leaves k (h u v))"
  by (auto simp: leaves_def fin_def fails_def split: prod.split)

lemma leaves_bind [simp]: "leaves k (Option.bind m f) \<longleftrightarrow> (\<forall>x. m = Some x \<longrightarrow> leaves k (f x))"
  by (cases m) auto

lemma len_numeral: "length xs = numeral v \<longleftrightarrow> (\<exists>a ys. xs = a # ys \<and> length ys = pred_numeral v)"
  by (cases xs) (auto simp: numeral_eq_Suc)

lemma idx_Cons [simp]:
  "idx (a # st) 0 = Some a" "idx (a # st) (Suc n) = idx st n" "idx (a # st) (numeral v) = idx st (pred_numeral v)"
  by (simp_all add: idx_def numeral_eq_Suc)

lemmas on_stack = length_Suc_conv len_numeral st_peek_def st_Back_def st_push_def fin_st_def Let_def

section \<open>The instructions\<close>

lemma local_unary [local_ops]: "stack_local (Suc 0) (Suc 0) (unary f)"
  by (rule stack_localI) (auto simp: unary_def on_stack)

lemma local_binary [local_ops]: "stack_local 2 (Suc 0) (binary f)"
  by (rule stack_localI) (auto simp: binary_def on_stack)

lemma local_ternary [local_ops]: "stack_local 3 (Suc 0) (ternary f)"
  by (rule stack_localI) (auto simp: ternary_def on_stack)

text \<open>The instructions built from the combinators.\<close>

lemma stack_local_fun:
  assumes "\<And>K E. \<exists>h. f K E = g h K E" "\<And>h. stack_local n k (g h)"
  shows "stack_local n k f"
  using assms unfolding stack_local_def by metis

lemma local_unary_ops [local_ops]:
  "stack_local (Suc 0) (Suc 0) opNot" "stack_local (Suc 0) (Suc 0) opIszero"
  "stack_local (Suc 0) (Suc 0) opBlobHash"
  by (rule stack_local_fun [where g = unary, OF _ local_unary]; unfold opNot_def opIszero_def opBlobHash_def; blast)+

lemma local_binary_ops [local_ops]:
  "stack_local 2 (Suc 0) opAdd" "stack_local 2 (Suc 0) opSub" "stack_local 2 (Suc 0) opMul"
  "stack_local 2 (Suc 0) opDiv" "stack_local 2 (Suc 0) opSdiv" "stack_local 2 (Suc 0) opMod"
  "stack_local 2 (Suc 0) opSmod" "stack_local 2 (Suc 0) opExp" "stack_local 2 (Suc 0) opSignExtend"
  "stack_local 2 (Suc 0) opLt" "stack_local 2 (Suc 0) opGt" "stack_local 2 (Suc 0) opSlt"
  "stack_local 2 (Suc 0) opSgt" "stack_local 2 (Suc 0) opEq" "stack_local 2 (Suc 0) opAnd"
  "stack_local 2 (Suc 0) opOr" "stack_local 2 (Suc 0) opXor" "stack_local 2 (Suc 0) opByte"
  "stack_local 2 (Suc 0) opSHL" "stack_local 2 (Suc 0) opSHR" "stack_local 2 (Suc 0) opSAR"
  by (rule stack_local_fun [where g = binary, OF _ local_binary]; unfold
    opAdd_def opSub_def opMul_def opDiv_def opSdiv_def opMod_def opSmod_def opExp_def
    opSignExtend_def opLt_def opGt_def opSlt_def opSgt_def opEq_def opAnd_def opOr_def opXor_def
    opByte_def opSHL_def opSHR_def opSAR_def; blast)+

lemma local_ternary_ops [local_ops]:
  "stack_local 3 (Suc 0) opAddmod" "stack_local 3 (Suc 0) opMulmod"
  by (rule stack_local_fun [where g = ternary, OF _ local_ternary]; unfold opAddmod_def opMulmod_def; blast)+

lemmas push_defs = pushes_def
    opAddress_def opOrigin_def opCaller_def opCallValue_def opCallDataSize_def opReturnDataSize_def
    opCodeSize_def opGasprice_def opCoinbase_def opTimestamp_def opNumber_def opDifficulty_def
    opRandom_def opGasLimit_def opSelfBalance_def opChainID_def opBaseFee_def opBlobBaseFee_def
    opPush0_def opPc_def opMsize_def opGas_def opPush1_def

lemma local_push_ops [local_ops]:
  "stack_local 0 (Suc 0) opAddress" "stack_local 0 (Suc 0) opOrigin" "stack_local 0 (Suc 0) opCaller"
  "stack_local 0 (Suc 0) opCallValue" "stack_local 0 (Suc 0) opCallDataSize"
  "stack_local 0 (Suc 0) opReturnDataSize" "stack_local 0 (Suc 0) opCodeSize"
  "stack_local 0 (Suc 0) opGasprice" "stack_local 0 (Suc 0) opCoinbase" "stack_local 0 (Suc 0) opTimestamp"
  "stack_local 0 (Suc 0) opNumber" "stack_local 0 (Suc 0) opDifficulty" "stack_local 0 (Suc 0) opRandom"
  "stack_local 0 (Suc 0) opGasLimit" "stack_local 0 (Suc 0) opSelfBalance" "stack_local 0 (Suc 0) opChainID"
  "stack_local 0 (Suc 0) opBaseFee" "stack_local 0 (Suc 0) opBlobBaseFee" "stack_local 0 (Suc 0) opPush0"
  "stack_local 0 (Suc 0) opPc" "stack_local 0 (Suc 0) opMsize" "stack_local 0 (Suc 0) opGas"
  "stack_local 0 (Suc 0) opPush1"
  by (rule stack_localI; auto simp: push_defs on_stack FromBig_def split: prod.splits)+

lemmas op_parts = copy_to_memory_def after_call_def jump_to_def

lemma local_reads [local_ops]:
  "stack_local (Suc 0) (Suc 0) opBalance" "stack_local (Suc 0) (Suc 0) opCallDataLoad"
  "stack_local (Suc 0) (Suc 0) opExtCodeSize" "stack_local (Suc 0) (Suc 0) opExtCodeHash"
  "stack_local (Suc 0) (Suc 0) opBlockhash" "stack_local (Suc 0) (Suc 0) opMload"
  "stack_local (Suc 0) (Suc 0) opSload" "stack_local (Suc 0) (Suc 0) opTload"
  by (rule stack_localI; auto simp: opBalance_def opCallDataLoad_def opExtCodeSize_def opExtCodeHash_def opBlockhash_def opMload_def opSload_def opTload_def op_parts on_stack cong: if_cong)+

lemma local_keccak [local_ops]:
  "stack_local 2 (Suc 0) opKeccak256"
  by (rule stack_localI; auto simp: opKeccak256_def op_parts on_stack cong: if_cong)+

lemma local_copies [local_ops]:
  "stack_local 3 0 opCallDataCopy" "stack_local 3 0 opCodeCopy" "stack_local 3 0 opReturnDataCopy"
  "stack_local 3 0 opMcopy"
  by (rule stack_localI; auto simp: opCallDataCopy_def opCodeCopy_def opReturnDataCopy_def opMcopy_def op_parts on_stack cong: if_cong)+

lemma local_extcodecopy [local_ops]:
  "stack_local 4 0 opExtCodeCopy"
  by (rule stack_localI; auto simp: opExtCodeCopy_def op_parts on_stack cong: if_cong)+

lemma local_writes [local_ops]:
  "stack_local 2 0 opMstore" "stack_local 2 0 opMstore8" "stack_local 2 0 opSstore"
  "stack_local 2 0 opSstoreHook" "stack_local 2 0 opTstore" "stack_local 2 0 opJumpi"
  by (rule stack_localI; auto simp: opMstore_def opMstore8_def opSstore_def opSstoreHook_def opTstore_def opJumpi_def op_parts on_stack cong: if_cong)+

lemma local_drops [local_ops]:
  "stack_local (Suc 0) 0 opPop" "stack_local (Suc 0) 0 opJump"
  by (rule stack_localI; auto simp: opPop_def opJump_def op_parts on_stack cong: if_cong)+

lemma local_none [local_ops]:
  "stack_local 0 0 opJumpdest" "stack_local 0 0 opUndefined" "stack_local 0 0 opStop"
  by (rule stack_localI; auto simp: opJumpdest_def opUndefined_def opStop_def op_parts on_stack cong: if_cong)+

lemma local_creates [local_ops]:
  "stack_local 3 (Suc 0) opCreate"
  by (rule stack_localI; auto simp: opCreate_def op_parts on_stack cong: if_cong)+

lemma local_creates2 [local_ops]:
  "stack_local 4 (Suc 0) opCreate2"
  by (rule stack_localI; auto simp: opCreate2_def op_parts on_stack cong: if_cong)+

lemma local_calls7 [local_ops]:
  "stack_local 7 (Suc 0) opCall" "stack_local 7 (Suc 0) opCallCode"
  by (rule stack_localI; auto simp: opCall_def opCallCode_def op_parts on_stack cong: if_cong)+

lemma local_calls6 [local_ops]:
  "stack_local 6 (Suc 0) opDelegateCall" "stack_local 6 (Suc 0) opStaticCall"
  by (rule stack_localI; auto simp: opDelegateCall_def opStaticCall_def op_parts on_stack cong: if_cong)+

lemma local_ends [local_ops]:
  "stack_local 2 0 opReturn" "stack_local 2 0 opRevert"
  by (rule stack_localI; auto simp: opReturn_def opRevert_def op_parts on_stack cong: if_cong)+

lemma local_destructs [local_ops]:
  "stack_local (Suc 0) 0 opSelfdestruct" "stack_local (Suc 0) 0 opSelfdestruct6780"
  "stack_local (Suc 0) 0 opSelfdestructHook" "stack_local (Suc 0) 0 opSelfdestruct6780Hook"
  by (rule stack_localI; auto simp: opSelfdestruct_def opSelfdestruct6780_def opSelfdestructHook_def opSelfdestruct6780Hook_def op_parts on_stack cong: if_cong)+

lemma local_makePush [local_ops]: "stack_local 0 (Suc 0) (makePush sz n)"
  by (rule stack_localI) (auto simp: makePush_def on_stack cong: if_cong)

lemma local_makeDup [local_ops]: "1 \<le> n \<Longrightarrow> stack_local n (Suc n) (makeDup n)"
  by (rule stack_localI) (auto simp: makeDup_def st_dup_def on_stack idx_def nth_append)

lemma local_makeSwap [local_ops]: "1 \<le> n \<Longrightarrow> stack_local (Suc n) (Suc n) (makeSwap n)"
  by (rule stack_localI) (auto simp: makeSwap_def st_swap_def st_push_def fin_st_def nth_append list_update_append)

lemma pop_n_append:
  "length xs = n \<Longrightarrow> pop_n n (xs @ ys) = Some (xs, ys)"
  by (induction n arbitrary: xs) (auto simp: length_Suc_conv)

lemma pop_n_append_self: "length xs = n \<Longrightarrow> pop_n n xs = Some (xs, [])"
  using pop_n_append [of xs n "[]"] by simp

lemma local_makeLog [local_ops]: "m = n + 2 \<Longrightarrow> stack_local m 0 (makeLog n)"
  by (rule stack_localI) (auto simp: makeLog_def on_stack pop_n_append pop_n_append_self cong: if_cong)

section \<open>Gas functions and memory sizes\<close>

definition gas_local :: "nat \<Rightarrow> 't gas_func \<Rightarrow> bool" where
  "gas_local n g \<longleftrightarrow> (\<forall>E xs ys sz s. length xs = n \<longrightarrow> g E (xs @ ys) sz s = g E xs sz s)"

definition mem_local :: "nat \<Rightarrow> memorySizeFunc \<Rightarrow> bool" where
  "mem_local n f \<longleftrightarrow> (\<forall>xs ys. length xs = n \<longrightarrow> f (xs @ ys) = f xs \<and> f xs \<noteq> None)"

lemma st_Back_append: "i < length xs \<Longrightarrow> st_Back (xs @ ys) i = st_Back xs i"
  by (simp add: st_Back_def idx_def nth_append)

lemma st_peek_append: "0 < length xs \<Longrightarrow> st_peek (xs @ ys) = st_peek xs"
  by (simp add: st_peek_def idx_def nth_append)

lemmas gas_parts = gas_local_def memoryCopierGas_def pureMemoryGascost_def gasKeccak256_def gasCreate2_def
  gasCreateEip3860_def gasCreate2Eip3860_def makeGasLog_def gasExpFrontier_def gasExpEIP158_def
  after_memory_def word_gas_def init_code_gas_def exp_gas_def
  gasSStore_def gasSStoreEIP2200_def makeGasSStoreFunc_def gasSLoadEIP2929_def gasExtCodeCopyEIP2929_def
  gasEip2929AccountCheck_def gasSelfdestruct_def makeSelfdestructGasFn_def

lemma gas_local_ops [local_ops]:
  "i < n \<Longrightarrow> gas_local n (memoryCopierGas i)" "gas_local n pureMemoryGascost"
  "1 < n \<Longrightarrow> gas_local n gasKeccak256" "2 < n \<Longrightarrow> gas_local n gasCreate2"
  "2 < n \<Longrightarrow> gas_local n gasCreateEip3860" "2 < n \<Longrightarrow> gas_local n gasCreate2Eip3860"
  "1 < n \<Longrightarrow> gas_local n (makeGasLog w)" "1 < n \<Longrightarrow> gas_local n gasExpFrontier"
  "1 < n \<Longrightarrow> gas_local n gasExpEIP158" "1 < n \<Longrightarrow> gas_local n gasSStore"
  "1 < n \<Longrightarrow> gas_local n gasSStoreEIP2200" "1 < n \<Longrightarrow> gas_local n (makeGasSStoreFunc r)"
  "0 < n \<Longrightarrow> gas_local n gasSLoadEIP2929" "0 < n \<Longrightarrow> gas_local n gasEip2929AccountCheck"
  "0 < n \<Longrightarrow> gas_local n gasSelfdestruct" "0 < n \<Longrightarrow> gas_local n (makeSelfdestructGasFn b)"
  by (simp_all add: gas_parts st_Back_append st_peek_append cong: if_cong)

lemma gas_local_extcodecopy [local_ops]: "3 < n \<Longrightarrow> gas_local n gasExtCodeCopyEIP2929"
  by (simp add: gas_parts st_Back_append st_peek_append cong: if_cong)

lemma call_gas_rest_append: "0 < length xs \<Longrightarrow> call_gas_rest E (xs @ ys) = call_gas_rest E xs"
  by (auto simp: fun_eq_iff call_gas_rest_def st_Back_append)

lemma gas_local_calls [local_ops]:
  "2 < n \<Longrightarrow> gas_local n gasCall" "2 < n \<Longrightarrow> gas_local n gasCallCode"
  "0 < n \<Longrightarrow> gas_local n gasDelegateCall" "0 < n \<Longrightarrow> gas_local n gasStaticCall"
  by (auto simp: gas_local_def gasCall_def gasCallCode_def gasDelegateCall_def gasStaticCall_def
      st_Back_append call_gas_rest_append cong: if_cong sum.case_cong prod.case_cong)

lemma gas_local_variant [local_ops]:
  "1 < n \<Longrightarrow> gas_local n g \<Longrightarrow> gas_local n (makeCallVariantGasCallEIP2929 g)"
  by (simp add: gas_local_def makeCallVariantGasCallEIP2929_def st_Back_append cong: if_cong)

lemma mem_local_args: "i < n \<Longrightarrow> j < n \<Longrightarrow> mem_local n (\<lambda>st. mem_args st i j)"
  by (auto simp: mem_local_def mem_args_def st_Back_def idx_def nth_append)

lemma mem_local_ops [local_ops]:
  "mem_local 2 memoryKeccak256" "mem_local 3 memoryCallDataCopy" "mem_local 3 memoryReturnDataCopy"
  "mem_local 3 memoryCodeCopy" "mem_local 4 memoryExtCodeCopy" "mem_local (Suc 0) memoryMLoad"
  "mem_local 2 memoryMStore8" "mem_local 2 memoryMStore" "mem_local 3 memoryMcopy" "mem_local 3 memoryCreate"
  "mem_local 4 memoryCreate2" "mem_local 7 memoryCall" "mem_local 6 memoryDelegateCall"
  "mem_local 6 memoryStaticCall" "mem_local 2 memoryReturn" "mem_local 2 memoryRevert"
  "1 < n \<Longrightarrow> mem_local n memoryLog"
  by (auto simp: memory_sizes mem_local_def mem_args_def mem_args2_def st_Back_def idx_def nth_append
      split: prod.splits if_splits)

section \<open>The tables\<close>

text \<open>The number of elements an operation takes and gives, as its stack limits announce.\<close>

definition op_pops :: "'t operation \<Rightarrow> nat" where
  "op_pops x = nat (op_minStack x)"

definition op_gives :: "'t operation \<Rightarrow> nat" where
  "op_gives x = nat (StackLimit + op_minStack x - op_maxStack x)"

definition op_sound :: "'t operation \<Rightarrow> bool" where
  "op_sound x \<longleftrightarrow>
     0 \<le> op_minStack x \<and> op_maxStack x \<le> StackLimit + op_minStack x \<and>
     stack_local (op_pops x) (op_gives x) (execute x) \<and>
     (\<forall>h. executeHook x = Some h \<longrightarrow> stack_local (op_pops x) (op_gives x) h) \<and>
     (\<forall>g. dynamicGas x = Some g \<longrightarrow> gas_local (op_pops x) g) \<and>
     (\<forall>f. memorySize x = Some f \<longrightarrow> dynamicGas x \<noteq> None \<and> mem_local (op_pops x) f)"

definition table_sound :: "'t jump_table \<Rightarrow> bool" where
  "table_sound jt \<longleftrightarrow> (\<forall>b. op_sound (jt b))"

lemma validate_sound: "table_sound jt \<Longrightarrow> validate jt = Some jt"
  unfolding table_sound_def op_sound_def validate_def list_all_iff by (metis option.exhaust)

lemmas op_data = op_sound_def op_pops_def op_gives_def mk_op_def minStack_def maxStack_def
  minDupStack_def maxDupStack_def minSwapStack_def maxSwapStack_def

lemma sound_arith: "list_all (\<lambda>(b, x). op_sound x) frontier_arith"
  by (simp add: frontier_arith_def op_data local_ops)

lemma sound_environment: "list_all (\<lambda>(b, x). op_sound x) frontier_environment"
  by (simp add: frontier_environment_def op_data local_ops)

lemma sound_flow: "list_all (\<lambda>(b, x). op_sound x) frontier_flow"
  by (simp add: frontier_flow_def op_data local_ops)

lemma sound_system: "list_all (\<lambda>(b, x). op_sound x) frontier_system"
  by (simp add: frontier_system_def op_data local_ops)

lemma nat_int_Suc: "nat (1 + int n) = Suc n" "nat (int n + 1) = Suc n"
  by auto

lemma sound_families:
  "list_all (\<lambda>(b, x). op_sound x) frontier_pushes" "list_all (\<lambda>(b, x). op_sound x) frontier_dups"
  "list_all (\<lambda>(b, x). op_sound x) frontier_swaps"
  by (auto simp: frontier_pushes_def frontier_dups_def frontier_swaps_def list_all_iff op_data local_ops nat_int_Suc)

lemma sound_entries: "list_all (\<lambda>(b, x). op_sound x) frontier_entries"
  by (simp add: frontier_entries_def sound_arith sound_environment sound_flow sound_system sound_families)

lemma sound_undefined: "op_sound undefined_op"
  by (simp add: undefined_op_def op_data local_ops)

text \<open>What the later forks rely on: the arguments of the operations they reprice.\<close>

definition shape :: "(byte \<times> nat) list \<Rightarrow> 't jump_table \<Rightarrow> bool" where
  "shape ps jt \<longleftrightarrow> table_sound jt \<and> list_all (\<lambda>(b, n). op_pops (jt b) = n) ps"

abbreviation (input) frontier_shape :: "(byte \<times> nat) list" where
  "frontier_shape \<equiv> [(SSTORE, 2), (SLOAD, 1), (EXTCODECOPY, 4), (EXTCODESIZE, 1), (BALANCE, 1), (CALL, 7),
     (CALLCODE, 7), (SELFDESTRUCT, 1), (CREATE, 3), (EXP, 2)]"
abbreviation (input) homestead_shape :: "(byte \<times> nat) list" where
  "homestead_shape \<equiv> (DELEGATECALL, 6) # frontier_shape"
abbreviation (input) byzantium_shape :: "(byte \<times> nat) list" where
  "byzantium_shape \<equiv> (STATICCALL, 6) # homestead_shape"
abbreviation (input) constantinople_shape :: "(byte \<times> nat) list" where
  "constantinople_shape \<equiv> (EXTCODEHASH, 1) # (CREATE2, 4) # byzantium_shape"

lemma sound_upd: "table_sound jt \<Longrightarrow> op_sound x \<Longrightarrow> table_sound (jt(b := x))"
  by (simp add: table_sound_def)

lemma sound_set_gas: "table_sound jt \<Longrightarrow> table_sound (set_gas b g jt)"
  unfolding set_gas_def by (rule sound_upd) (auto simp: table_sound_def op_sound_def op_pops_def op_gives_def)

lemma sound_set_dyn: "table_sound jt \<Longrightarrow> gas_local (op_pops (jt b)) g \<Longrightarrow> table_sound (set_dyn b g jt)"
  unfolding set_dyn_def by (rule sound_upd) (auto simp: table_sound_def op_sound_def op_pops_def op_gives_def)

lemma op_pops_simps [simp]:
  "op_pops (set_gas b g jt c) = op_pops (jt c)" "op_pops (set_dyn b d jt c) = op_pops (jt c)"
  "op_pops (mk_op ex hook cg dg mn mx ms) = nat mn"
  by (simp_all add: set_gas_def set_dyn_def op_pops_def mk_op_def)

lemma map_of_fresh: "list_all (\<lambda>(b, x). b \<noteq> c) xs \<Longrightarrow> map_of (xs @ ys) c = map_of ys c"
  by (induction xs) auto

lemma frontier_pops:
  "(b, n) \<in> {(EXTCODECOPY, 4), (EXTCODESIZE, 1), (BALANCE, 1), (SSTORE, 2), (SLOAD, 1)} \<Longrightarrow>
   \<exists>x. map_of (frontier_environment @ frontier_flow @ zs) b = Some x \<and> op_pops x = n"
  "(b, n) \<in> {(CALL, 7), (CALLCODE, 7), (SELFDESTRUCT, 1), (CREATE, 3)} \<Longrightarrow>
   \<exists>x. map_of frontier_system b = Some x \<and> op_pops x = n"
  "\<exists>x. map_of (frontier_arith @ zs) EXP = Some x \<and> op_pops x = 2"
  by (auto simp: frontier_environment_def frontier_flow_def frontier_system_def frontier_arith_def minStack_def)

lemma fresh_lists:
  "list_all (\<lambda>(b, x). b \<notin> {SSTORE, SLOAD, EXTCODECOPY, EXTCODESIZE, BALANCE, CALL, CALLCODE, SELFDESTRUCT, CREATE}) frontier_arith"
  "list_all (\<lambda>(b, x). b \<notin> {CALL, CALLCODE, SELFDESTRUCT, CREATE}) frontier_environment"
  "list_all (\<lambda>(b, x). b \<notin> {CALL, CALLCODE, SELFDESTRUCT, CREATE}) frontier_flow"
  "list_all (\<lambda>(b, x). b \<notin> {CALL, CALLCODE, SELFDESTRUCT, CREATE}) frontier_pushes"
  "list_all (\<lambda>(b, x). b \<notin> {CALL, CALLCODE, SELFDESTRUCT, CREATE}) frontier_dups"
  "list_all (\<lambda>(b, x). b \<notin> {CALL, CALLCODE, SELFDESTRUCT, CREATE}) frontier_swaps"
  by (simp_all add: frontier_environment_def frontier_flow_def frontier_arith_def frontier_pushes_def
      frontier_dups_def frontier_swaps_def upt_rec PUSH_def DUP_def SWAP_def)

lemma fresh_in: "list_all (\<lambda>(b, x). b \<notin> B) xs \<Longrightarrow> c \<in> B \<Longrightarrow> list_all (\<lambda>(b, x). b \<noteq> c) xs"
  by (auto simp: list_all_iff)

lemmas fresh = fresh_lists [THEN fresh_in]

lemma entries_tail:
  "b \<in> {CALL, CALLCODE, SELFDESTRUCT, CREATE} \<Longrightarrow> map_of frontier_entries b = map_of frontier_system b"
  by (auto simp: frontier_entries_def map_of_fresh fresh simp del: map_of_append)

lemma entries_middle:
  "b \<in> {SSTORE, SLOAD, EXTCODECOPY, EXTCODESIZE, BALANCE} \<Longrightarrow>
   map_of frontier_entries b = map_of (frontier_environment @ frontier_flow @
     frontier_pushes @ frontier_dups @ frontier_swaps @ frontier_system) b"
  by (auto simp: frontier_entries_def map_of_fresh fresh simp del: map_of_append)

lemma entries_pops:
  "(b, n) \<in> set frontier_shape \<Longrightarrow> \<exists>x. map_of frontier_entries b = Some x \<and> op_pops x = n"
proof -
  assume "(b, n) \<in> set frontier_shape"
  then consider (m) "(b, n) \<in> {(EXTCODECOPY, 4), (EXTCODESIZE, 1), (BALANCE, 1), (SSTORE, 2), (SLOAD, 1)}"
    | (s) "(b, n) \<in> {(CALL, 7), (CALLCODE, 7), (SELFDESTRUCT, 1), (CREATE, 3)}" | (e) "b = EXP" "n = 2"
    by auto
  then show ?thesis
  proof cases
    case m
    then have "b \<in> {SSTORE, SLOAD, EXTCODECOPY, EXTCODESIZE, BALANCE}" by auto
    with frontier_pops(1) [OF m] show ?thesis by (simp only: entries_middle)
  next
    case s
    then have "b \<in> {CALL, CALLCODE, SELFDESTRUCT, CREATE}" by auto
    with frontier_pops(2) [OF s] show ?thesis by (simp only: entries_tail)
  next
    case e
    then show ?thesis unfolding frontier_entries_def using frontier_pops(3) by (simp only:)
  qed
qed

lemma frontier_shaped: "\<exists>t. newFrontierInstructionSet = Some t \<and> shape frontier_shape t"
proof -
  let ?t = "\<lambda>b. case map_of frontier_entries b of Some x \<Rightarrow> x | None \<Rightarrow> (undefined_op :: 'a operation)"
  have sound: "table_sound ?t"
    using sound_entries sound_undefined
    by (auto simp: table_sound_def list_all_iff dest: map_of_SomeD split: option.split)
  have "op_pops (?t b) = n" if at: "(b, n) \<in> set frontier_shape" for b n
  proof -
    obtain x :: "'a operation" where "map_of frontier_entries b = Some x" "op_pops x = n"
      using entries_pops [OF at] by blast
    then show ?thesis by simp
  qed
  then have "list_all (\<lambda>(b, n). op_pops (?t b) = n) frontier_shape"
    unfolding list_all_iff by blast
  with sound show ?thesis
    by (intro exI [of _ ?t]) (simp add: newFrontierInstructionSet_def validate_sound shape_def)
qed

lemma shape_step:
  assumes "\<exists>t. m = Some t \<and> shape ps t" and "\<And>t. shape ps t \<Longrightarrow> shape qs (f t)"
  shows "\<exists>t. Option.bind m (\<lambda>t. validate (f t)) = Some t \<and> shape qs t"
  using assms validate_sound by (fastforce simp: shape_def)

lemma sound_mk_op:
  "op_sound (mk_op ex hook cg dg mn mx ms) \<longleftrightarrow>
     0 \<le> mn \<and> mx \<le> StackLimit + mn \<and>
     stack_local (nat mn) (nat (StackLimit + mn - mx)) ex \<and>
     (\<forall>h. hook = Some h \<longrightarrow> stack_local (nat mn) (nat (StackLimit + mn - mx)) h) \<and>
     (\<forall>g. dg = Some g \<longrightarrow> gas_local (nat mn) g) \<and>
     (\<forall>f. ms = Some f \<longrightarrow> dg \<noteq> None \<and> mem_local (nat mn) f)"
  by (simp add: op_sound_def op_pops_def op_gives_def mk_op_def)

lemmas shape_updates = shape_def sound_upd sound_set_gas sound_set_dyn local_ops sound_mk_op
  minStack_def maxStack_def

lemma shaped_sound: "\<exists>t. m = Some t \<and> shape ps t \<Longrightarrow> \<exists>t. m = Some t \<and> table_sound t"
  by (auto simp: shape_def)

lemma homestead_shaped: "\<exists>t. newHomesteadInstructionSet = Some t \<and> shape homestead_shape t"
  unfolding newHomesteadInstructionSet_def
  by (rule shape_step [OF frontier_shaped])
    (simp add: shape_updates)

lemma tangerine_shaped: "\<exists>t. newTangerineWhistleInstructionSet = Some t \<and> shape homestead_shape t"
  unfolding newTangerineWhistleInstructionSet_def Let_def
  by (rule shape_step [OF homestead_shaped]) (simp add: shape_updates)

lemma spurious_shaped: "\<exists>t. newSpuriousDragonInstructionSet = Some t \<and> shape homestead_shape t"
  unfolding newSpuriousDragonInstructionSet_def
  by (rule shape_step [OF tangerine_shaped]) (simp add: shape_updates)

lemma byzantium_shaped: "\<exists>t. newByzantiumInstructionSet = Some t \<and> shape byzantium_shape t"
  unfolding newByzantiumInstructionSet_def
  by (rule shape_step [OF spurious_shaped]) (simp add: shape_updates)

lemma constantinople_shaped: "\<exists>t. newConstantinopleInstructionSet = Some t \<and> shape constantinople_shape t"
  unfolding newConstantinopleInstructionSet_def
  by (rule shape_step [OF byzantium_shaped]) (simp add: shape_updates)

lemma istanbul_shaped: "\<exists>t. newIstanbulInstructionSet = Some t \<and> shape constantinople_shape t"
  unfolding newIstanbulInstructionSet_def
  by (rule shape_step [OF constantinople_shaped]) (simp add: shape_updates
    enable2200_def enable1884_def enable1344_def)

lemma berlin_shaped: "\<exists>t. newBerlinInstructionSet = Some t \<and> shape constantinople_shape t"
  unfolding newBerlinInstructionSet_def
  by (rule shape_step [OF istanbul_shaped]) (simp add: shape_updates enable2929_def)

lemma london_shaped: "\<exists>t. newLondonInstructionSet = Some t \<and> shape constantinople_shape t"
  unfolding newLondonInstructionSet_def
  by (rule shape_step [OF berlin_shaped]) (simp add: shape_updates enable3198_def enable3529_def)

lemma merge_shaped: "\<exists>t. newMergeInstructionSet = Some t \<and> shape constantinople_shape t"
  unfolding newMergeInstructionSet_def
  by (rule shape_step [OF london_shaped]) (simp add: shape_updates)

lemma shanghai_shaped: "\<exists>t. newShanghaiInstructionSet = Some t \<and> shape constantinople_shape t"
  unfolding newShanghaiInstructionSet_def
  by (rule shape_step [OF merge_shaped]) (simp add: shape_updates enable3860_def enable3855_def)

lemma cancun_shaped: "\<exists>t. newCancunInstructionSet = Some t \<and> shape constantinople_shape t"
  unfolding newCancunInstructionSet_def
  by (rule shape_step [OF shanghai_shaped]) (simp add: shape_updates
    enable6780_def enable5656_def enable1153_def enable7516_def enable4844_def)

lemma fork_tables_are_sound: "\<exists>t. fork_table r = Some t \<and> table_sound t"
  unfolding fork_table_def
  by (simp split: if_split)
    (intro conjI impI; rule shaped_sound, rule frontier_shaped homestead_shaped tangerine_shaped
      spurious_shaped byzantium_shaped constantinople_shaped istanbul_shaped berlin_shaped london_shaped
      merge_shaped shanghai_shaped cancun_shaped)

text \<open>
  C10: The table of every fork is built without a panic, and each of its operations, with its hook, its
  gas function and its memory-size function, reads and replaces exactly the stack elements that its
  limits announce: none of them depends on, or runs into, what lies below its arguments.
\<close>

theorem fork_table_sound: "\<exists>t. fork_table r = Some t \<and> table_sound t"
  by (rule fork_tables_are_sound)

end
