(* ===== verification/Frame_Ops.thy ===== *)
theory Frame_Ops
  imports Frame JumpTable_Props
begin

text \<open>
  Every instruction, its hook and its gas function stay in their frame.  A call may hand gas to its
  callee and get the unused part back; \<open>bonus_of\<close> bounds what it gets back by the gas
  that its gas function has charged for it.
\<close>

section \<open>What instructions may do\<close>

text \<open>The gas an instruction may add to the contract: what the callee was given, with its stipend.\<close>

definition bonus_of :: "byte \<Rightarrow> u64 \<Rightarrow> stack \<Rightarrow> nat" where
  "bonus_of b temp st =
     (if b = CALL \<or> b = CALLCODE then unat temp + (if st ! 2 \<noteq> 0 then 2300 else 0)
      else if b = DELEGATECALL \<or> b = STATICCALL then unat temp else 0)"

definition call_ok :: "'t evm \<Rightarrow> u64 \<Rightarrow> ('t evm \<times> bytes \<times> u64 \<times> vm_error option) option \<Rightarrow> bool" where
  "call_ok e g r \<longleftrightarrow> (\<forall>e' out left err. r = Some (e', out, left, err) \<longrightarrow> evolves e e' \<and> left \<le> g)"

definition create_ok :: "'t evm \<Rightarrow> u64 \<Rightarrow> ('t evm \<times> bytes \<times> address \<times> u64 \<times> vm_error option) option \<Rightarrow> bool" where
  "create_ok e g r \<longleftrightarrow> (\<forall>e' out a left err. r = Some (e', out, a, left, err) \<longrightarrow> evolves e e' \<and> left \<le> g)"

text \<open>What an instruction at depth \<open>d\<close> expects of the calls it makes.\<close>

definition callees_ok :: "int \<Rightarrow> 't callees \<Rightarrow> bool" where
  "callees_ok d K \<longleftrightarrow> (\<forall>e. sound_evm e \<and> depth e = d \<longrightarrow>
     (\<forall>c a i g v. call_ok e g (c_Call K e c a i g v)) \<and> (\<forall>c a i g v. call_ok e g (c_CallCode K e c a i g v)) \<and>
     (\<forall>c a i g. call_ok e g (c_DelegateCall K e c a i g)) \<and> (\<forall>c a i g. call_ok e g (c_StaticCall K e c a i g)) \<and>
     (\<forall>c i g v. create_ok e g (c_Create K e c i g v)) \<and> (\<forall>c i g v s. create_ok e g (c_Create2 K e c i g v s)))"

definition exec_fair :: "'t env \<Rightarrow> byte \<Rightarrow> 't executionFunc \<Rightarrow> bool" where
  "exec_fair E b f \<longleftrightarrow> (\<forall>K e s. callees_ok (depth e) K \<and> sound_evm e \<longrightarrow>
     goes e s (unat (Gas (Contract s)) + bonus_of b (callGasTemp e) (Stack s)) (f K E (e, s)))"

text \<open>An instruction that makes no call.\<close>

definition plain :: "'t env \<Rightarrow> 't executionFunc \<Rightarrow> bool" where
  "plain E f \<longleftrightarrow> (\<forall>K e s. sound_evm e \<longrightarrow> goes e s (unat (Gas (Contract s))) (f K E (e, s)))"

lemma plain_fair: "plain E f \<Longrightarrow> exec_fair E b f"
  unfolding plain_def exec_fair_def using goes_mono [OF _ le_add1] by blast

named_theorems plain_ops "instructions that make no call"

lemma plain_combinators:
  "plain E (unary f1)" "plain E (binary f2)" "plain E (ternary f3)" "plain E (pushes v)"
  by (auto simp: plain_def unary_def binary_def ternary_def pushes_def intro: kept_refl)

lemma plain_fun:
  assumes "\<And>K. \<exists>h. f K E = g h K E" "\<And>h. plain E (g h)"
  shows "plain E f"
  using assms unfolding plain_def by metis

lemma plain_unary [plain_ops]:
  "plain E opNot" "plain E opIszero" "plain E opBlobHash"
  by (rule plain_fun [where g = unary, OF _ plain_combinators(1)]; unfold
    opNot_def opIszero_def opBlobHash_def; blast)+

lemma plain_binary [plain_ops]:
  "plain E opAdd" "plain E opSub" "plain E opMul" "plain E opDiv" "plain E opSdiv" "plain E opMod"
  "plain E opSmod" "plain E opExp" "plain E opSignExtend" "plain E opLt" "plain E opGt" "plain E opSlt"
  "plain E opSgt" "plain E opEq" "plain E opAnd" "plain E opOr" "plain E opXor" "plain E opByte"
  "plain E opSHL" "plain E opSHR" "plain E opSAR"
  by (rule plain_fun [where g = binary, OF _ plain_combinators(2)]; unfold
    opAdd_def opSub_def opMul_def opDiv_def opSdiv_def opMod_def opSmod_def opExp_def opSignExtend_def
    opLt_def opGt_def opSlt_def opSgt_def opEq_def opAnd_def opOr_def opXor_def opByte_def opSHL_def
    opSHR_def opSAR_def; blast)+

lemma plain_ternary [plain_ops]:
  "plain E opAddmod" "plain E opMulmod"
  by (rule plain_fun [where g = ternary, OF _ plain_combinators(3)]; unfold
    opAddmod_def opMulmod_def; blast)+

lemma plain_pushes [plain_ops]:
  "plain E opAddress" "plain E opOrigin" "plain E opCaller" "plain E opCallValue" "plain E opCallDataSize"
  "plain E opReturnDataSize" "plain E opCodeSize" "plain E opGasprice" "plain E opCoinbase"
  "plain E opTimestamp" "plain E opNumber" "plain E opDifficulty" "plain E opRandom" "plain E opGasLimit"
  "plain E opChainID" "plain E opBaseFee" "plain E opBlobBaseFee" "plain E opPush0" "plain E opPc"
  "plain E opMsize" "plain E opGas"
  by (rule plain_fun [where g = pushes, OF _ plain_combinators(4)]; unfold
    opAddress_def opOrigin_def opCaller_def opCallValue_def opCallDataSize_def opReturnDataSize_def
    opCodeSize_def opGasprice_def opCoinbase_def opTimestamp_def opNumber_def opDifficulty_def
    opRandom_def opGasLimit_def opChainID_def opBaseFee_def opBlobBaseFee_def opPush0_def opPc_def
    opMsize_def opGas_def; blast)+

lemma validJumpdest_same:
  "validJumpdest c dests pos = Some (ok, c', dests') \<Longrightarrow> same_code c c' \<and> Gas c' = Gas c"
  by (auto simp: validJumpdest_def isCode_def bind_eq_Some_conv split: if_splits option.splits)

lemma kept_upd:
  "sound_evm e \<Longrightarrow> evolves e e' \<Longrightarrow> kept e s (unat (Gas (Contract s))) e' s"
  by (simp add: kept_def)

lemma plain_direct1 [plain_ops]:
  "plain E opSelfBalance" "plain E opPush1" "plain E opKeccak256" "plain E opBalance"
  "plain E opCallDataLoad" "plain E opExtCodeSize" "plain E opBlockhash" "plain E opMload"
  by (auto simp: plain_def kept_def op_parts Let_def same_size_def
    opSelfBalance_def opPush1_def opKeccak256_def opBalance_def opCallDataLoad_def opExtCodeSize_def
    opBlockhash_def opMload_def
      intro: evolves_refl evolves_upd_db db_ops evolves_grows dest: memory_writes validJumpdest_same)

lemma plain_direct2 [plain_ops]:
  "plain E opSload" "plain E opTload" "plain E opCallDataCopy" "plain E opCodeCopy"
  "plain E opReturnDataCopy" "plain E opMcopy" "plain E opExtCodeCopy" "plain E opMstore"
  by (auto simp: plain_def kept_def op_parts Let_def same_size_def
    opSload_def opTload_def opCallDataCopy_def opCodeCopy_def opReturnDataCopy_def opMcopy_def
    opExtCodeCopy_def opMstore_def
      intro: evolves_refl evolves_upd_db db_ops evolves_grows dest: memory_writes validJumpdest_same)

lemma plain_direct3 [plain_ops]:
  "plain E opMstore8" "plain E opSstore" "plain E opTstore" "plain E opJumpi" "plain E opPop"
  "plain E opJump" "plain E opJumpdest" "plain E opUndefined" "plain E opStop" "plain E opReturn"
  "plain E opRevert"
  by (auto simp: plain_def kept_def op_parts Let_def same_size_def
    opMstore8_def opSstore_def opTstore_def opJumpi_def opPop_def opJump_def opJumpdest_def
    opUndefined_def opStop_def opReturn_def opRevert_def
      intro: evolves_refl evolves_upd_db db_ops evolves_grows dest: memory_writes validJumpdest_same)

lemma plain_direct4 [plain_ops]:
  "plain E opExtCodeHash" "plain E opSstoreHook"
  by (auto simp: plain_def kept_def opExtCodeHash_def opSstoreHook_def)
    (blast intro: evolves_refl evolves_upd_db db_ops evolves_grows upd_account_state_evolves)+

lemma plain_families [plain_ops]:
  "plain E (makePush sz n)" "plain E (makeDup n)" "plain E (makeSwap n)" "plain E (makeLog n)"
  by (auto simp: plain_def kept_def makePush_def makeDup_def makeSwap_def makeLog_def Let_def
      intro: evolves_refl evolves_upd_db db_ops evolves_grows)

text \<open>Creations and calls: the gas that comes back is at most what was handed out.\<close>

lemma unat_add_le: "unat (a + b) \<le> unat a + unat (b :: u64)"
  by (simp add: unat_word_ariths)

lemma add_back: "left \<le> g \<Longrightarrow> g \<le> c \<Longrightarrow> unat (c - g + left) \<le> unat (c :: u64)"
proof -
  assume a: "left \<le> g" "g \<le> c"
  have "unat (c - g + left) \<le> unat (c - g) + unat left" by (rule unat_add_le)
  also have "\<dots> \<le> unat c" using a by (simp add: word_le_nat_alt unat_sub)
  finally show ?thesis .
qed

lemma create_gas_le: "(if b then g - g div 64 else g) \<le> (g :: u64)"
proof -
  have "g div 64 \<le> g" by (simp add: word_le_nat_alt unat_div_distrib)
  then show ?thesis by (simp add: word_le_nat_alt unat_sub)
qed

lemma UseGas_le: "g \<le> Gas c \<Longrightarrow> fst (UseGas c g) = c\<lparr>Gas := Gas c - g\<rparr>"
  by (simp add: UseGas_def)

lemma sixty_four_le: "g - g div 64 \<le> (g :: u64)"
  using create_gas_le [of True] by simp

lemma callees_okD:
  assumes "callees_ok (depth e) K" "sound_evm e"
  shows "c_Call K e c a i g v = Some (e', out, left, err) \<Longrightarrow> evolves e e' \<and> left \<le> g"
    "c_CallCode K e c a i g v = Some (e', out, left, err) \<Longrightarrow> evolves e e' \<and> left \<le> g"
    "c_DelegateCall K e c a i g = Some (e', out, left, err) \<Longrightarrow> evolves e e' \<and> left \<le> g"
    "c_StaticCall K e c a i g = Some (e', out, left, err) \<Longrightarrow> evolves e e' \<and> left \<le> g"
    "c_Create K e c i g v = Some (e', out, n, left, err) \<Longrightarrow> evolves e e' \<and> left \<le> g"
    "c_Create2 K e c i g v sa = Some (e', out, n, left, err) \<Longrightarrow> evolves e e' \<and> left \<le> g"
proof -
  have *: "(\<forall>c a i g v. call_ok e g (c_Call K e c a i g v)) \<and> (\<forall>c a i g v. call_ok e g (c_CallCode K e c a i g v)) \<and>
     (\<forall>c a i g. call_ok e g (c_DelegateCall K e c a i g)) \<and> (\<forall>c a i g. call_ok e g (c_StaticCall K e c a i g)) \<and>
     (\<forall>c i g v. create_ok e g (c_Create K e c i g v)) \<and> (\<forall>c i g v s. create_ok e g (c_Create2 K e c i g v s))"
    using assms by (simp add: callees_ok_def)
  have call: "call_ok e g r \<Longrightarrow> r = Some (e', out, left, err) \<Longrightarrow> evolves e e' \<and> left \<le> g" for r
    by (simp add: call_ok_def)
  have create: "create_ok e g r \<Longrightarrow> r = Some (e', out, n, left, err) \<Longrightarrow> evolves e e' \<and> left \<le> g" for r
    by (auto simp: create_ok_def)
  show "evolves e e' \<and> left \<le> g" if "c_Call K e c a i g v = Some (e', out, left, err)"
    by (rule call [OF _ that]) (simp add: *)
  show "evolves e e' \<and> left \<le> g" if "c_CallCode K e c a i g v = Some (e', out, left, err)"
    by (rule call [OF _ that]) (simp add: *)
  show "evolves e e' \<and> left \<le> g" if "c_DelegateCall K e c a i g = Some (e', out, left, err)"
    by (rule call [OF _ that]) (simp add: *)
  show "evolves e e' \<and> left \<le> g" if "c_StaticCall K e c a i g = Some (e', out, left, err)"
    by (rule call [OF _ that]) (simp add: *)
  show "evolves e e' \<and> left \<le> g" if "c_Create K e c i g v = Some (e', out, n, left, err)"
    by (rule create [OF _ that]) (simp add: *)
  show "evolves e e' \<and> left \<le> g" if "c_Create2 K e c i g v sa = Some (e', out, n, left, err)"
    by (rule create [OF _ that]) (simp add: *)
qed

lemma unat_le: "a \<le> b \<Longrightarrow> unat a \<le> unat (b :: u64)"
  by (simp add: word_le_nat_alt)

lemma add_back64: "left \<le> g - g div 64 \<Longrightarrow> unat (g div 64 + left) \<le> unat (g :: u64)"
  using add_back [of left "g - g div 64" g] sixty_four_le [of g] by (simp add: algebra_simps)

lemma fair_opCreate: "exec_fair E CREATE opCreate"
  unfolding exec_fair_def
proof (intro allI impI, elim conjE)
  fix K :: "'a callees" and e :: "'a evm" and s
  assume K: "callees_ok (depth e) K" and e: "sound_evm e"
  show "goes e s (unat (Gas (Contract s)) + bonus_of CREATE (callGasTemp e) (Stack s)) (opCreate K E (e, s))"
    by (cases "ruleEIP150 (chainRules E)")
      (auto simp: opCreate_def kept_def bonus_of_def Let_def UseGas_le sixty_four_le e evolves_refl
        
        intro: add_back64 unat_le dest!: callees_okD(5) [OF K e])
qed

lemma fair_opCreate2: "exec_fair E CREATE2 opCreate2"
  unfolding exec_fair_def
proof (intro allI impI, elim conjE)
  fix K :: "'a callees" and e :: "'a evm" and s
  assume K: "callees_ok (depth e) K" and e: "sound_evm e"
  show "goes e s (unat (Gas (Contract s)) + bonus_of CREATE2 (callGasTemp e) (Stack s)) (opCreate2 K E (e, s))"
    by (auto simp: opCreate2_def kept_def bonus_of_def Let_def UseGas_le sixty_four_le e evolves_refl
        intro: add_back add_back64 dest!: callees_okD(6) [OF K e])
qed

text \<open>All four calls end alike.\<close>

lemma after_call_goes:
  assumes "evolves e0 e" "unat (Gas (Contract s)) + unat left \<le> g"
  shows "goes e0 s g (after_call (e, out, left, err) off sz st s)"
proof -
  have "unat (Gas (Contract s) + left) \<le> g"
    using unat_add_le [of "Gas (Contract s)" left] assms(2) by linarith
  with assms(1) show ?thesis by (auto simp: after_call_def kept_def Let_def dest: memory_writes)
qed

lemma stipend_le: "left \<le> t + 2300 \<Longrightarrow> unat left \<le> unat (t :: u64) + 2300"
  using unat_add_le [of t 2300] by (simp add: word_le_nat_alt)

lemma fair_call:
  assumes "\<And>K e s ys. sound_evm e \<Longrightarrow> callees_ok (depth e) K \<Longrightarrow>
      goes e s (unat (Gas (Contract s)) + bonus_of b (callGasTemp e) (Stack s)) (f K E (e, s))"
  shows "exec_fair E b f"
  using assms by (auto simp: exec_fair_def)

lemma pop3: "st_pop st = Some (a, st1) \<Longrightarrow> st_pop st1 = Some (b, st2) \<Longrightarrow> st_pop st2 = Some (v, st3) \<Longrightarrow> v = st ! 2"
  by (cases st rule: st_pop.cases; cases st1 rule: st_pop.cases; cases st2 rule: st_pop.cases) auto

lemma fair_opDelegateCall: "exec_fair E DELEGATECALL opDelegateCall"
proof (rule fair_call)
  fix K :: "'a callees" and e :: "'a evm" and s
  assume e: "sound_evm e" and K: "callees_ok (depth e) K"
  show "goes e s (unat (Gas (Contract s)) + bonus_of DELEGATECALL (callGasTemp e) (Stack s)) (opDelegateCall K E (e, s))"
    using e by (auto simp: opDelegateCall_def Let_def bonus_of_def kept_def evolves_refl word_le_nat_alt
        intro!: after_call_goes dest!: callees_okD(3) [OF K e])
qed

lemma fair_opStaticCall: "exec_fair E STATICCALL opStaticCall"
proof (rule fair_call)
  fix K :: "'a callees" and e :: "'a evm" and s
  assume e: "sound_evm e" and K: "callees_ok (depth e) K"
  show "goes e s (unat (Gas (Contract s)) + bonus_of STATICCALL (callGasTemp e) (Stack s)) (opStaticCall K E (e, s))"
    using e by (auto simp: opStaticCall_def Let_def bonus_of_def kept_def evolves_refl word_le_nat_alt
        intro!: after_call_goes dest!: callees_okD(4) [OF K e])
qed

lemma fair_opCall: "exec_fair E CALL opCall"
proof (rule fair_call)
  fix K :: "'a callees" and e :: "'a evm" and s
  assume e: "sound_evm e" and K: "callees_ok (depth e) K"
  show "goes e s (unat (Gas (Contract s)) + bonus_of CALL (callGasTemp e) (Stack s)) (opCall K E (e, s))"
    using e by (auto simp: opCall_def Let_def bonus_of_def kept_def evolves_refl
        intro!: after_call_goes intro: unat_le stipend_le dest: pop3 dest!: callees_okD(1) [OF K e])
qed

lemma fair_opCallCode: "exec_fair E CALLCODE opCallCode"
proof (rule fair_call)
  fix K :: "'a callees" and e :: "'a evm" and s
  assume e: "sound_evm e" and K: "callees_ok (depth e) K"
  show "goes e s (unat (Gas (Contract s)) + bonus_of CALLCODE (callGasTemp e) (Stack s)) (opCallCode K E (e, s))"
    using e by (auto simp: opCallCode_def Let_def bonus_of_def kept_def evolves_refl
        intro!: after_call_goes intro: unat_le stipend_le dest: pop3 dest!: callees_okD(2) [OF K e])
qed

lemma record_selfdestruct_evolves [evolve]:
  "record_selfdestruct a b e = Some e' \<Longrightarrow> evolves e0 e \<Longrightarrow> evolves e0 e'"
  by (auto simp: record_selfdestruct_def bind_eq_Some_conv Let_def case_prod_unfold)
    (assumption | erule upd_account_state_evolves | rule evolves_upd_db grows_snd evolves_grows)+

context evm_host begin

lemma plain_selfdestructs [plain_ops]:
  "plain E opSelfdestruct" "plain E opSelfdestruct6780" "plain E opSelfdestructHook" "plain E opSelfdestruct6780Hook"
  by (auto simp: plain_def kept_def opSelfdestruct_def opSelfdestruct6780_def opSelfdestructHook_def
      opSelfdestruct6780Hook_def Let_def bind_eq_Some_conv case_prod_unfold)
    (assumption | erule trace_selfdestruct_evolves record_selfdestruct_evolves
     | rule evolves_refl evolves_upd_db grows_snd grows_writes evolves_grows)+

end

section \<open>Gas functions\<close>

text \<open>
  A gas function stays in its frame, treats the memory as \<open>memoryGasCost\<close> does, and when the
  contract can pay its result, has left the contract as it was and charged the bonus of the operation.
\<close>

definition gas_fair :: "'t env \<Rightarrow> byte \<Rightarrow> bool \<Rightarrow> 't gas_func \<Rightarrow> bool" where
  "gas_fair E b um g \<longleftrightarrow> (\<forall>e c m st sz e' c' m' r.
     sound_evm e \<and> mem_ok m \<and> (um \<or> sz = 0) \<and> g E st sz (e, c, m) = Some ((e', c', m'), r) \<longrightarrow>
     evolves e e' \<and> same_code c c' \<and> Gas c' \<le> Gas c \<and>
     (\<forall>dc. r = Inr dc \<and> dc \<le> Gas c' \<longrightarrow>
        c' = c \<and> bonus_of b (callGasTemp e') st \<le> unat dc \<and>
        (\<exists>fee. memoryGasCost m sz = (m', Inr fee))))"

lemma memoryGasCost_0 [simp]: "memoryGasCost m 0 = (m, Inr 0)"
  by (simp add: memoryGasCost_def)

lemma bonus_none [simp]: "b \<notin> {CALL, CALLCODE, DELEGATECALL, STATICCALL} \<Longrightarrow> bonus_of b temp st = 0"
  by (simp add: bonus_of_def)

lemma gas_after_memory: "b \<notin> {CALL, CALLCODE, DELEGATECALL, STATICCALL} \<Longrightarrow> gas_fair E b um (after_memory k)"
  by (auto simp: gas_fair_def after_memory_def bind_eq_Some_conv intro: evolves_refl split: prod.splits sum.splits)

lemma gas_memory:
  assumes "b \<notin> {CALL, CALLCODE, DELEGATECALL, STATICCALL}"
  shows "gas_fair E b um (memoryCopierGas n)" "gas_fair E b um pureMemoryGascost" "gas_fair E b um gasKeccak256"
    "gas_fair E b um gasCreate2" "gas_fair E b um gasCreateEip3860" "gas_fair E b um gasCreate2Eip3860"
  using gas_after_memory [OF assms]
  by (simp_all add: memoryCopierGas_def pureMemoryGascost_def gasKeccak256_def gasCreate2_def
      gasCreateEip3860_def gasCreate2Eip3860_def)

lemma gas_makeGasLog:
  assumes "b \<notin> {CALL, CALLCODE, DELEGATECALL, STATICCALL}"
  shows "gas_fair E b um (makeGasLog w)"
proof -
  define k where "k len = (\<lambda>(st :: stack) gas. Some (
            and_then (checked (SafeAdd gas LogGas)) (\<lambda>gas.
            and_then (checked (SafeAdd gas (w * LogTopicGas))) (\<lambda>gas.
            and_then (checked (SafeMul (Uint64 len) LogDataGas)) (\<lambda>memorySizeGas.
            checked (SafeAdd gas memorySizeGas))))))" for len
  have m: "makeGasLog w E st sz s = do {
      len \<leftarrow> st_Back st 1;
      if \<not> IsUint64 len then Some (s, Inl ErrGasUintOverflow) else after_memory (k len) E st sz s }" for st sz s
    unfolding makeGasLog_def k_def by simp
  show ?thesis
    using gas_after_memory [OF assms, where um = um and E = E]
    unfolding gas_fair_def m bind_eq_Some_conv by (fastforce intro: evolves_refl split: if_splits)
qed

text \<open>A gas function that leaves contract and memory alone.\<close>

definition db_only :: "'t evm \<Rightarrow> contract \<Rightarrow> memory \<Rightarrow> ('t gas_state \<times> gas_result) option \<Rightarrow> bool" where
  "db_only e0 c m r \<longleftrightarrow> (\<forall>e c' m' x. r = Some ((e, c', m'), x) \<longrightarrow> evolves e0 e \<and> c' = c \<and> m' = m)"

lemma db_only_simps [simp]:
  "db_only e0 c m None" "db_only e0 c m (Some ((e, c', m'), x)) \<longleftrightarrow> evolves e0 e \<and> c' = c \<and> m' = m"
  "db_only e0 c m (if b then p else q) \<longleftrightarrow> (b \<longrightarrow> db_only e0 c m p) \<and> (\<not> b \<longrightarrow> db_only e0 c m q)"
  "db_only e0 c m (case y of (u, v) \<Rightarrow> h u v) \<longleftrightarrow> (\<forall>u v. y = (u, v) \<longrightarrow> db_only e0 c m (h u v))"
  by (auto simp: db_only_def split: prod.split)

lemma db_only_bind [simp]: "db_only e0 c m (Option.bind y f) \<longleftrightarrow> (\<forall>x. y = Some x \<longrightarrow> db_only e0 c m (f x))"
  by (cases y) auto

lemma gas_fair_db:
  assumes "b \<notin> {CALL, CALLCODE, DELEGATECALL, STATICCALL}"
    and "\<And>e c m st sz. sound_evm e \<Longrightarrow> db_only e c m (g E st sz (e, c, m))"
  shows "gas_fair E b False g"
  using assms unfolding gas_fair_def db_only_def by fastforce

lemma original_value_grows: "original_value E d a x = Some (v, d') \<Longrightarrow> grows d0 d \<Longrightarrow> grows d0 d'"
  by (auto simp: original_value_def bind_eq_Some_conv intro: db_ops split: if_splits)

lemma net_sstore_grows:
  "net_sstore E d a x cur v g1 g2 g3 g4 g5 g6 = Some (d', n) \<Longrightarrow> grows d0 d \<Longrightarrow> grows d0 d'"
  by (auto simp: net_sstore_def bind_eq_Some_conv Let_def intro: db_ops dest!: original_value_grows split: if_splits)

lemma gas_exp: "gas_fair E EXP False gasExpFrontier" "gas_fair E EXP False gasExpEIP158"
  by (rule gas_fair_db; simp add: gasExpFrontier_def gasExpEIP158_def exp_gas_def evolves_refl)+

lemma evolves_read_write:
  assumes "sound_evm e" "\<And>d0. grows d0 (StateDB_of e) \<Longrightarrow> grows d0 d"
  shows "evolves e (upd_db e d)"
  using assms by (auto intro: evolves_upd_db evolves_refl evolves_grows)

lemma gas_sstore: "gas_fair E SSTORE False gasSStore" "gas_fair E SSTORE False gasSStoreEIP2200"
  "gas_fair E SSTORE False (makeGasSStoreFunc r)" "gas_fair E SLOAD False gasSLoadEIP2929"
  by (rule gas_fair_db; auto simp: gasSStore_def gasSStoreEIP2200_def makeGasSStoreFunc_def gasSLoadEIP2929_def
      Let_def require_def split: if_split_asm intro!: evolves_refl evolves_read_write;
      (assumption | erule grows_reads grows_checked net_sstore_grows | rule grows_writes)+)+


lemma gas_account_access:
  assumes "b \<notin> {CALL, CALLCODE, DELEGATECALL, STATICCALL}"
  shows "gas_fair E b False gasEip2929AccountCheck" "gas_fair E b um gasExtCodeCopyEIP2929"
proof -
  show "gas_fair E b False gasEip2929AccountCheck"
    by (rule gas_fair_db [OF assms]) (auto simp: gasEip2929AccountCheck_def intro!: evolves_refl evolves_read_write intro: db_ops)
  show "gas_fair E b um gasExtCodeCopyEIP2929"
    using assms
    by (auto simp: gas_fair_def gasExtCodeCopyEIP2929_def memoryCopierGas_def after_memory_def bind_eq_Some_conv
        intro!: evolves_refl evolves_read_write intro: db_ops split: if_split_asm sum.split_asm prod.split_asm)
qed

lemma empty_and_funded_grows: "empty_and_funded d a b = (r, d') \<Longrightarrow> grows d0 d \<Longrightarrow> grows d0 d'"
  by (auto simp: empty_and_funded_def Let_def split: prod.splits if_splits intro: db_ops)

lemma gas_selfdestruct:
  "gas_fair E SELFDESTRUCT False gasSelfdestruct" "gas_fair E SELFDESTRUCT False (makeSelfdestructGasFn r)"
  by (rule gas_fair_db; auto simp: gasSelfdestruct_def makeSelfdestructGasFn_def Let_def split: if_split_asm prod.split_asm
      intro!: evolves_refl evolves_read_write;
      (assumption | erule grows_reads empty_and_funded_grows | rule grows_writes)+)+


section \<open>Gas of calls\<close>

text \<open>A gas function that keeps the contract, and the memory but for the fee.\<close>

definition mem_paid :: "'t evm \<Rightarrow> contract \<Rightarrow> memory \<Rightarrow> u64 \<Rightarrow> ('t gas_state \<times> gas_result) option \<Rightarrow> bool" where
  "mem_paid e0 c m sz r \<longleftrightarrow> (\<forall>e c' m' x. r = Some ((e, c', m'), x) \<longrightarrow> evolves e0 e \<and> c' = c \<and>
     (\<forall>dc. x = Inr dc \<longrightarrow> (\<exists>fee. memoryGasCost m sz = (m', Inr fee))))"

lemma mem_paid_simps [simp]:
  "mem_paid e0 c m sz None"
  "mem_paid e0 c m sz (Some ((e, c', m'), Inl err)) \<longleftrightarrow> evolves e0 e \<and> c' = c"
  "mem_paid e0 c m sz (if b then p else q) \<longleftrightarrow> (b \<longrightarrow> mem_paid e0 c m sz p) \<and> (\<not> b \<longrightarrow> mem_paid e0 c m sz q)"
  "mem_paid e0 c m sz (case y of (u, v) \<Rightarrow> h u v) \<longleftrightarrow> (\<forall>u v. y = (u, v) \<longrightarrow> mem_paid e0 c m sz (h u v))"
  "mem_paid e0 c m sz (case z of Inl u \<Rightarrow> h1 u | Inr v \<Rightarrow> h2 v) \<longleftrightarrow>
     (\<forall>u. z = Inl u \<longrightarrow> mem_paid e0 c m sz (h1 u)) \<and> (\<forall>v. z = Inr v \<longrightarrow> mem_paid e0 c m sz (h2 v))"
  by (auto simp: mem_paid_def split: prod.split sum.split)

lemma mem_paid_bind [simp]: "mem_paid e0 c m sz (Option.bind y f) \<longleftrightarrow> (\<forall>x. y = Some x \<longrightarrow> mem_paid e0 c m sz (f x))"
  by (cases y) auto

lemma mem_paid_rest:
  "memoryGasCost m sz = (m', Inr fee) \<Longrightarrow> evolves e0 e \<Longrightarrow> mem_paid e0 c m sz (call_gas_rest E st gas (e, c, m'))"
  by (auto simp: call_gas_rest_def) (auto simp: mem_paid_def)

lemma new_account_evolves:
  "Empty (StateDB_of e) a = (v, d) \<Longrightarrow> sound_evm e \<Longrightarrow> evolves e (upd_db e d)"
  "(case Exist (StateDB_of e) a of (b, d) \<Rightarrow> (\<not> b, d)) = (v, d) \<Longrightarrow> sound_evm e \<Longrightarrow> evolves e (upd_db e d)"
  "sound_evm e \<Longrightarrow> evolves e (upd_db e (StateDB_of e))"
  by (auto split: prod.split_asm intro!: evolves_read_write intro: db_ops)

lemma call_gas_frame:
  assumes "(f, valued) \<in> call_gas_funcs" "sound_evm e"
  shows "mem_paid e c m sz (f E st sz (e, c, m))"
proof -
  have "mem_paid e c m sz (gasCall E st sz (e, c, m))"
    unfolding gasCall_def Let_def
    by simp (intro allI impI conjI; hypsubst?; ((rule mem_paid_rest, assumption)?);
      (erule new_account_evolves(1,2) [OF _ assms(2)] | rule new_account_evolves(3) [OF assms(2)]))
  moreover have "mem_paid e c m sz (f E st sz (e, c, m))" if "f \<noteq> gasCall"
    using assms that
    by (auto simp: call_gas_funcs_def gasCallCode_def gasDelegateCall_def gasStaticCall_def Let_def
      evolves_refl cong: if_cong) (rule mem_paid_rest, assumption, erule evolves_refl)+
  ultimately show ?thesis by blast
qed

text \<open>What a call's gas function charges covers what the callee can give back.\<close>

lemma call_gas_bonus:
  assumes "mem_ok m" "(f, valued) \<in> call_gas_funcs" "f E st sz (e, c, m) = Some ((e', c', m'), Inr tot)"
  shows "unat (callGasTemp e') + (if valued \<and> st ! 2 \<noteq> 0 then 2300 else 0) \<le> unat tot"
proof -
  have "call_charge E st valued c (f E st sz (e, c, m))"
    using assms(2) call_charges [where f = f, OF assms(1,3)] by (auto simp: call_gas_funcs_def)
  with assms(3) obtain gas e1 m1 where
    "call_gas_rest E st gas (e1, c, m1) = Some ((e', c', m'), Inr tot)" "valued \<and> st ! 2 \<noteq> 0 \<longrightarrow> 9000 \<le> unat gas"
    unfolding call_charge_def by metis
  then show ?thesis by (auto elim!: call_gas_rest_cases)
qed

definition call_opcodes :: "'t gas_func \<Rightarrow> byte set" where
  "call_opcodes f = {b. (b = CALL \<and> f = gasCall) \<or> (b = CALLCODE \<and> f = gasCallCode) \<or>
     (b = DELEGATECALL \<and> f = gasDelegateCall) \<or> (b = STATICCALL \<and> f = gasStaticCall)}"

lemma gas_fair_call:
  assumes "b \<in> call_opcodes f"
  shows "gas_fair E b um f"
proof -
  define valued where "valued = (b = CALL \<or> b = CALLCODE)"
  have f: "(f, valued) \<in> call_gas_funcs" using assms by (auto simp: call_opcodes_def call_gas_funcs_def valued_def)
  have "bonus_of b temp st = unat temp + (if valued \<and> st ! 2 \<noteq> 0 then 2300 else 0)" for temp st
    using assms by (auto simp: bonus_of_def valued_def call_opcodes_def)
  then have "bonus_of b (callGasTemp e') st \<le> unat dc"
    if "mem_ok m" "f E st sz (e, c, m) = Some ((e', c', m'), Inr dc)" for m sz e c m' e' c' st dc
    using call_gas_bonus [OF that(1) f that(2)] by simp
  with call_gas_frame [OF f, where E = E] show ?thesis
    unfolding gas_fair_def mem_paid_def using same_code_refl by blast
qed


text \<open>The EIP-2929 variant takes the charge for a cold account out of the contract for a while.\<close>

lemma variant_frame:
  assumes f: "(f, valued) \<in> call_gas_funcs" and e: "sound_evm e"
    and r: "makeCallVariantGasCallEIP2929 f E st sz (e, c, m) = Some ((e', c', m'), r)"
  shows "evolves e e' \<and> same_code c c' \<and> Gas c' \<le> Gas c \<and>
    (\<forall>dc. r = Inr dc \<longrightarrow> c' = c \<and> (\<exists>fee. memoryGasCost m sz = (m', Inr fee)))"
proof -
  obtain w where w: "st_Back st 1 = Some w"
    using r by (auto simp: makeCallVariantGasCallEIP2929_def bind_eq_Some_conv)
  let ?e = "upd_db e (AddAddressToAccessList (StateDB_of e) (addr_of w))"
  let ?c = "c\<lparr>Gas := Gas c - 2500\<rparr>"
  have e1: "evolves e ?e" by (auto intro!: evolves_read_write e intro: db_ops)
  have less: "Gas c - 2500 \<le> Gas c" if "2500 \<le> Gas c" using that by (simp add: word_le_nat_alt unat_sub)
  note warm = call_gas_frame [OF f e, unfolded mem_paid_def, rule_format]
  note cold = call_gas_frame [OF f evolves_sound [OF e1], unfolded mem_paid_def, rule_format]
  show ?thesis
  proof (cases "AddressInAccessList (StateDB_of e) (addr_of w)")
    case True
    then have "f E st sz (e, c, m) = Some ((e', c', m'), r)"
      using r w by (auto simp: makeCallVariantGasCallEIP2929_def split: sum.split_asm prod.split_asm) (metis sum.exhaust)
    from warm [OF this] show ?thesis by auto
  next
    case False
    note r' = r [unfolded makeCallVariantGasCallEIP2929_def]
    show ?thesis
    proof (cases "Gas c < 2500")
      case nc: False
      then have True: "2500 \<le> Gas c" by simp
      from nc r' w False obtain e2 c2 m2 r2 where r2: "f E st sz (?e, ?c, m) = Some ((e2, c2, m2), r2)"
        and res: "(case r2 of Inl err \<Rightarrow> Some ((e2, c2, m2), Inl err)
           | Inr gas \<Rightarrow> Some ((e2, c2\<lparr>Gas := Gas c2 + 2500\<rparr>, m2), Inr (gas + 2500))) = Some ((e', c', m'), r)"
        by (auto simp: UseGas_def bind_eq_Some_conv Let_def)
      from cold [OF r2] res True less show ?thesis
        by (auto intro: evolves_trans [OF e1] split: sum.split_asm)
    qed (use r' w False e1 in \<open>auto simp: UseGas_def Let_def\<close>)
  qed
qed

lemma gas_fair_variant:
  assumes "b \<in> call_opcodes f" and rule: "ruleEIP150 (chainRules E)"
  shows "gas_fair E b um (makeCallVariantGasCallEIP2929 f)"
proof -
  define valued where "valued = (b = CALL \<or> b = CALLCODE)"
  have f: "(f, valued) \<in> call_gas_funcs" using assms(1) by (auto simp: call_opcodes_def call_gas_funcs_def valued_def)
  have bonus: "bonus_of b temp st = unat temp + (if valued \<and> st ! 2 \<noteq> 0 then 2300 else 0)" for temp st
    using assms(1) by (auto simp: bonus_of_def valued_def call_opcodes_def)
  have "bonus_of b (callGasTemp e') st \<le> unat dc"
    if m: "mem_ok m" and r: "makeCallVariantGasCallEIP2929 f E st sz (e, c, m) = Some ((e', c', m'), Inr dc)"
    for m sz e c m' e' c' st dc
    using call_charge_exact [OF m rule f disjI2 [OF refl] r] by (auto simp: bonus)
  then show ?thesis
    using variant_frame [OF f] unfolding gas_fair_def by (smt (verit, best) order_trans)
qed

end
