(* ===== verification/Frame_Tables.thy ===== *)
theory Frame_Tables
  imports Frame_Ops
begin

text \<open>
  Every operation of every table the interpreter can dispatch with stays in its frame and, unless it
  ends the run, costs gas: the tables of the forks, and those tables with extra EIPs enabled.
\<close>

section \<open>Fair operations\<close>

definition gas_pays :: "'t env \<Rightarrow> 't gas_func \<Rightarrow> bool" where
  "gas_pays E g \<longleftrightarrow> (\<forall>st sz s s' dc. g E st sz s = Some (s', Inr dc) \<longrightarrow> dc \<noteq> 0)"

definition halting :: "'t executionFunc \<Rightarrow> bool" where
  "halting f \<longleftrightarrow> (\<forall>K E p p' out. f K E p \<noteq> Some (p', out, None))"

definition steady :: "'t operation \<Rightarrow> bool" where
  "steady x \<longleftrightarrow> constantGas x \<noteq> 0 \<or> (halting (execute x) \<and> (\<forall>h. executeHook x = Some h \<longrightarrow> halting h))"

definition op_fair :: "'t env \<Rightarrow> byte \<Rightarrow> 't operation \<Rightarrow> bool" where
  "op_fair E b x \<longleftrightarrow>
     exec_fair E b (execute x) \<and> (\<forall>h. executeHook x = Some h \<longrightarrow> exec_fair E b h) \<and>
     (case dynamicGas x of
        None \<Rightarrow> plain E (execute x) \<and> (\<forall>h. executeHook x = Some h \<longrightarrow> plain E h) \<and> memorySize x = None \<and> steady x
      | Some g \<Rightarrow> gas_fair E b (memorySize x \<noteq> None) g \<and> (steady x \<or> gas_pays E g))"

text \<open>What later changes of a table rely on: operations that size no memory, and those that keep their price.\<close>

definition calm :: "byte set" where
  "calm = {SSTORE, SLOAD, EXTCODESIZE, EXTCODEHASH, BALANCE, SELFDESTRUCT, EXP}"

definition fixed_price :: "byte set" where
  "fixed_price = {CREATE, CREATE2, SELFDESTRUCT, CALL, CALLCODE, DELEGATECALL, STATICCALL}"

definition entry_fair :: "'t env \<Rightarrow> byte \<Rightarrow> 't operation \<Rightarrow> bool" where
  "entry_fair E b x \<longleftrightarrow> op_fair E b x \<and> (b \<in> calm \<longrightarrow> memorySize x = None) \<and>
     (b \<in> fixed_price \<longrightarrow> steady x)"

definition table_fair :: "'t env \<Rightarrow> 't jump_table \<Rightarrow> bool" where
  "table_fair E jt \<longleftrightarrow> (\<forall>b. entry_fair E b (jt b))"

lemma table_fairD: "table_fair E jt \<Longrightarrow> op_fair E b (jt b)"
  "table_fair E jt \<Longrightarrow> b \<in> fixed_price \<Longrightarrow> steady (jt b)"
  by (simp_all add: table_fair_def entry_fair_def)

lemma halting_ops: "halting opStop" "halting opReturn" "halting opRevert" "halting opUndefined"
  "halting opSelfdestruct" "halting opSelfdestruct6780" "halting opSelfdestructHook"
  by (auto simp: halting_def op_parts opStop_def opReturn_def opRevert_def opUndefined_def opSelfdestruct_def
      opSelfdestruct6780_def opSelfdestructHook_def fails_def Let_def bind_eq_Some_conv split: prod.splits if_splits)

section \<open>Gas functions that charge\<close>

lemma pays_exp: "gas_pays E gasExpFrontier" "gas_pays E gasExpEIP158"
  by (auto simp: gas_pays_def gasExpFrontier_def gasExpEIP158_def exp_gas_def Let_def checked_SafeAdd SafeAdd_unat bind_eq_Some_conv
      dest!: arg_cong [where f = unat])


lemma SafeAdd_pays: "checked (SafeAdd x y) = Inr z \<Longrightarrow> x \<noteq> 0 \<or> y \<noteq> 0 \<Longrightarrow> z \<noteq> 0"
  by (auto simp: checked_SafeAdd SafeAdd_unat unat_eq_0 dest!: arg_cong [where f = unat])

lemma pays_log: "gas_pays E (makeGasLog n)"
  unfolding gas_pays_def makeGasLog_def after_memory_def
  by (auto simp: bind_eq_Some_conv split: if_split_asm sum.split_asm prod.split_asm dest!: SafeAdd_pays)

lemma net_sstore_cost:
  "net_sstore E d a x cur v g1 g2 g3 g4 g5 g6 = Some (d', n) \<Longrightarrow> n \<in> {g1, g2, g3}"
  by (auto simp: net_sstore_def bind_eq_Some_conv Let_def split: if_split_asm prod.split_asm)

lemma pays_sstore: "gas_pays E gasSStore" "gas_pays E gasSStoreEIP2200" "gas_pays E (makeGasSStoreFunc r)"
  "gas_pays E gasSLoadEIP2929"
  by (auto simp: gas_pays_def gasSStore_def gasSStoreEIP2200_def makeGasSStoreFunc_def gasSLoadEIP2929_def
      bind_eq_Some_conv Let_def require_def split: if_split_asm prod.split_asm dest!: net_sstore_cost)

section \<open>The literal of Frontier\<close>

lemma entry_fair_mk:
  "entry_fair E b (mk_op ex hook cg dg mn mx ms) \<longleftrightarrow>
     exec_fair E b ex \<and> (\<forall>h. hook = Some h \<longrightarrow> exec_fair E b h) \<and>
     (case dg of
        None \<Rightarrow> plain E ex \<and> (\<forall>h. hook = Some h \<longrightarrow> plain E h) \<and> ms = None \<and>
          (cg \<noteq> 0 \<or> halting ex \<and> (\<forall>h. hook = Some h \<longrightarrow> halting h))
      | Some g \<Rightarrow> gas_fair E b (ms \<noteq> None) g \<and>
          (cg \<noteq> 0 \<or> halting ex \<and> (\<forall>h. hook = Some h \<longrightarrow> halting h) \<or> gas_pays E g)) \<and>
     (b \<in> calm \<longrightarrow> ms = None) \<and>
     (b \<in> fixed_price \<longrightarrow> cg \<noteq> 0 \<or> halting ex \<and> (\<forall>h. hook = Some h \<longrightarrow> halting h))"
  by (simp add: entry_fair_def op_fair_def mk_op_def steady_def split: option.split)

lemmas entry_facts = entry_fair_mk calm_def fixed_price_def plain_ops plain_fair halting_ops gas_memory gas_makeGasLog
  gas_sstore gas_exp gas_account_access gas_selfdestruct gas_fair_call call_opcodes_def
  pays_exp pays_log pays_sstore fair_opCreate fair_opCreate2 fair_opCall fair_opCallCode
  fair_opDelegateCall fair_opStaticCall

lemma fair_undefined: "entry_fair E b undefined_op"
  by (simp add: undefined_op_def entry_facts)

lemma fair_arith: "list_all (\<lambda>(b, x). entry_fair E b x) frontier_arith"
  by (simp add: frontier_arith_def entry_facts)

lemma fair_environment: "list_all (\<lambda>(b, x). entry_fair E b x) frontier_environment"
  by (simp add: frontier_environment_def entry_facts)

lemma fair_flow: "list_all (\<lambda>(b, x). entry_fair E b x) frontier_flow"
  by (simp add: frontier_flow_def entry_facts)

lemma fair_families:
  "list_all (\<lambda>(b, x). entry_fair E b x) frontier_pushes" "list_all (\<lambda>(b, x). entry_fair E b x) frontier_dups"
  "list_all (\<lambda>(b, x). entry_fair E b x) frontier_swaps"
  by (auto simp: frontier_pushes_def frontier_dups_def frontier_swaps_def list_all_iff entry_facts
    PUSH_def DUP_def SWAP_def upt_rec)

context evm_host begin

lemma fair_system: "list_all (\<lambda>(b, x). entry_fair E b x) frontier_system"
  by (simp add: frontier_system_def entry_facts plain_selfdestructs)

end


section \<open>Changing a table\<close>

named_theorems fair_changes "changes that keep a table fair"

lemma fair_upd [fair_changes]: "table_fair E jt \<Longrightarrow> entry_fair E b x \<Longrightarrow> table_fair E (jt(b := x))"
  by (simp add: table_fair_def)

lemma gas_fair_mono: "gas_fair E b um g \<Longrightarrow> (um' \<Longrightarrow> um) \<Longrightarrow> gas_fair E b um' g"
  unfolding gas_fair_def by (intro allI impI) (elim allE, erule mp, elim conjE, intro conjI; (assumption | blast))

lemma gas_fair_calm:
  assumes "gas_fair E b (b \<notin> calm) g" "entry_fair E b x"
  shows "gas_fair E b (memorySize x \<noteq> None) g"
  by (rule gas_fair_mono [OF assms(1)]) (use assms(2) in \<open>auto simp: entry_fair_def\<close>)

lemma entry_change:
  assumes e: "entry_fair E b x"
    and same: "execute y = execute x" "executeHook y = executeHook x" "memorySize y = memorySize x"
    and dyn: "dynamicGas y = dynamicGas x \<or> (\<exists>g. dynamicGas y = Some g \<and> gas_fair E b (b \<notin> calm) g)"
    and pays: "steady y \<or> b \<notin> fixed_price \<and> (\<exists>g. dynamicGas y = Some g \<and> gas_pays E g)"
  shows "entry_fair E b y"
proof (cases "dynamicGas y")
  case None
  then have "dynamicGas x = None" "steady y" using dyn pays by auto
  with e same None show ?thesis by (auto simp: entry_fair_def op_fair_def)
next
  case (Some g)
  have "gas_fair E b (memorySize x \<noteq> None) g"
    using dyn
  proof
    assume "dynamicGas y = dynamicGas x"
    with e Some show ?thesis by (simp add: entry_fair_def op_fair_def)
  next
    assume "\<exists>g. dynamicGas y = Some g \<and> gas_fair E b (b \<notin> calm) g"
    with Some show ?thesis using gas_fair_calm [OF _ e] by auto
  qed
  moreover have "steady y \<or> gas_pays E g" "b \<in> fixed_price \<longrightarrow> steady y" using pays Some by auto
  moreover have "exec_fair E b (execute x)" "\<forall>h. executeHook x = Some h \<longrightarrow> exec_fair E b h"
    "b \<in> calm \<longrightarrow> memorySize x = None" using e by (auto simp: entry_fair_def op_fair_def)
  ultimately show ?thesis using same Some unfolding entry_fair_def op_fair_def by simp
qed

lemma fair_set_gas [fair_changes]: "table_fair E jt \<Longrightarrow> c \<noteq> 0 \<Longrightarrow> table_fair E (set_gas b c jt)"
  unfolding set_gas_def
  by (rule fair_upd, assumption, rule entry_change [of E b "jt b"]) (simp_all add: table_fair_def steady_def)

lemma fair_set_dyn [fair_changes]:
  assumes "table_fair E jt" "gas_fair E b (b \<notin> calm) g" "b \<in> fixed_price \<or> gas_pays E g"
  shows "table_fair E (set_dyn b g jt)"
proof -
  have e: "entry_fair E b (jt b)" using assms(1) by (simp add: table_fair_def)
  then have "b \<in> fixed_price \<longrightarrow> steady (jt b)" by (simp add: entry_fair_def)
  then have "steady ((jt b)\<lparr>dynamicGas := Some g\<rparr>) \<or> b \<notin> fixed_price \<and> gas_pays E g"
    using assms(3) unfolding steady_def by auto
  then show ?thesis
    unfolding set_dyn_def by (intro fair_upd assms(1) entry_change [OF e]) (simp_all add: assms(2))
qed

text \<open>A new constant and a new dynamic price at once; one of them is not free.\<close>

lemma fair_reprice [fair_changes]:
  assumes "table_fair E jt" "gas_fair E b (b \<notin> calm) g"
    "c \<noteq> 0 \<or> b \<notin> fixed_price \<and> gas_pays E g"
  shows "table_fair E (set_dyn b g (set_gas b c jt))"
proof -
  have e: "entry_fair E b (jt b)" using assms(1) by (simp add: table_fair_def)
  have u: "set_dyn b g (set_gas b c jt) = jt(b := (jt b)\<lparr>constantGas := c, dynamicGas := Some g\<rparr>)"
    by (simp add: set_dyn_def set_gas_def)
  show ?thesis
    unfolding u using assms by (intro fair_upd entry_change [OF e]) (auto simp: steady_def)
qed

lemma fair_validate: "validate jt = Some t \<Longrightarrow> table_fair E jt \<Longrightarrow> table_fair E t"
  by (simp add: validate_def split: if_split_asm)


lemmas change_facts = fair_changes entry_facts gas_fair_variant Let_def

lemma fair_activators:
  "table_fair E jt \<Longrightarrow> table_fair E (enable1884 jt)" "table_fair E jt \<Longrightarrow> table_fair E (enable1344 jt)"
  "table_fair E jt \<Longrightarrow> table_fair E (enable2200 jt)" "table_fair E jt \<Longrightarrow> table_fair E (enable3529 jt)"
  "table_fair E jt \<Longrightarrow> table_fair E (enable3198 jt)" "table_fair E jt \<Longrightarrow> table_fair E (enable1153 jt)"
  "table_fair E jt \<Longrightarrow> table_fair E (enable3855 jt)" "table_fair E jt \<Longrightarrow> table_fair E (enable3860 jt)"
  "table_fair E jt \<Longrightarrow> table_fair E (enable5656 jt)" "table_fair E jt \<Longrightarrow> table_fair E (enable4844 jt)"
  "table_fair E jt \<Longrightarrow> table_fair E (enable7516 jt)"
  by (simp_all add: change_facts enable1884_def enable1344_def enable2200_def enable3529_def enable3198_def
      enable1153_def enable3855_def enable3860_def enable5656_def enable4844_def enable7516_def)

lemma lookup_fair:
  "list_all (\<lambda>(b, x). entry_fair E b x) xs \<Longrightarrow>
   entry_fair E b (case map_of xs b of Some x \<Rightarrow> x | None \<Rightarrow> undefined_op)"
  by (auto simp: list_all_iff fair_undefined dest: map_of_SomeD split: option.split)

text \<open>EIP-2929's gas for calls bounds what the callee is given only with the 63/64 rule of EIP-150.\<close>

lemma fair_enable2929: "ruleEIP150 (chainRules E) \<Longrightarrow> table_fair E jt \<Longrightarrow> table_fair E (enable2929 jt)"
  unfolding enable2929_def Let_def
  by (intro fair_reprice fair_set_dyn) (simp_all add: entry_facts gas_fair_variant)

text \<open>What the rules and the extra EIPs of a chain must agree on.\<close>

definition rules_agree :: "'t env \<Rightarrow> bool" where
  "rules_agree E \<longleftrightarrow>
     (let r = chainRules E
      in ruleBerlin r \<or> ruleLondon r \<or> ruleMerge r \<or> ruleShanghai r \<or> ruleCancun r \<or>
         2929 \<in> set (cfg_ExtraEips (Config E)) \<longrightarrow> ruleEIP150 r)"

context evm_host begin

lemma fair_enable6780: "table_fair E jt \<Longrightarrow> table_fair E (enable6780 jt)"
  by (simp add: change_facts enable6780_def plain_selfdestructs)

lemma fair_entries: "list_all (\<lambda>(b, x). entry_fair E b x) frontier_entries"
  by (simp add: frontier_entries_def fair_arith fair_environment fair_flow fair_system fair_families)

lemma frontier_fair: "newFrontierInstructionSet = Some t \<Longrightarrow> table_fair E t"
  unfolding newFrontierInstructionSet_def
  by (erule fair_validate) (simp add: table_fair_def lookup_fair [OF fair_entries])

lemma early_fair:
  "newHomesteadInstructionSet = Some t \<Longrightarrow> table_fair E t"
  "newTangerineWhistleInstructionSet = Some t \<Longrightarrow> table_fair E t"
  "newSpuriousDragonInstructionSet = Some t \<Longrightarrow> table_fair E t"
  "newByzantiumInstructionSet = Some t \<Longrightarrow> table_fair E t"
  "newConstantinopleInstructionSet = Some t \<Longrightarrow> table_fair E t"
  "newIstanbulInstructionSet = Some t \<Longrightarrow> table_fair E t"
proof -
  have step: "table_fair E t"
    if "Option.bind m (\<lambda>t. validate (f t)) = Some t" "\<And>t. m = Some t \<Longrightarrow> table_fair E t"
      "\<And>t. table_fair E t \<Longrightarrow> table_fair E (f t)" for m f t
    using that by (auto simp: bind_eq_Some_conv intro: fair_validate)
  show 1: "table_fair E t" if "newHomesteadInstructionSet = Some t" for t
    using that unfolding newHomesteadInstructionSet_def
    by (rule step [OF _ frontier_fair]) (simp_all add: change_facts)
  show 2: "table_fair E t" if "newTangerineWhistleInstructionSet = Some t" for t
    using that unfolding newTangerineWhistleInstructionSet_def Let_def
    by (rule step [OF _ 1]) (simp_all add: change_facts)
  show 3: "table_fair E t" if "newSpuriousDragonInstructionSet = Some t" for t
    using that unfolding newSpuriousDragonInstructionSet_def
    by (rule step [OF _ 2]) (simp_all add: change_facts)
  show 4: "table_fair E t" if "newByzantiumInstructionSet = Some t" for t
    using that unfolding newByzantiumInstructionSet_def
    by (rule step [OF _ 3]) (simp_all add: change_facts)
  show 5: "table_fair E t" if "newConstantinopleInstructionSet = Some t" for t
    using that unfolding newConstantinopleInstructionSet_def
    by (rule step [OF _ 4]) (simp_all add: change_facts)
  show 6: "table_fair E t" if "newIstanbulInstructionSet = Some t" for t
    using that unfolding newIstanbulInstructionSet_def
    by (rule step [OF _ 5]) (simp_all add: fair_activators)
qed

lemma late_fair:
  assumes "ruleEIP150 (chainRules E)"
  shows "newBerlinInstructionSet = Some t \<Longrightarrow> table_fair E t"
    "newLondonInstructionSet = Some t \<Longrightarrow> table_fair E t"
    "newMergeInstructionSet = Some t \<Longrightarrow> table_fair E t"
    "newShanghaiInstructionSet = Some t \<Longrightarrow> table_fair E t"
    "newCancunInstructionSet = Some t \<Longrightarrow> table_fair E t"
proof -
  have step: "table_fair E t"
    if "Option.bind m (\<lambda>t. validate (f t)) = Some t" "\<And>t. m = Some t \<Longrightarrow> table_fair E t"
      "\<And>t. table_fair E t \<Longrightarrow> table_fair E (f t)" for m f t
    using that by (auto simp: bind_eq_Some_conv intro: fair_validate)
  show 1: "table_fair E t" if "newBerlinInstructionSet = Some t" for t
    using that unfolding newBerlinInstructionSet_def
    by (rule step [OF _ early_fair(6)]) (simp_all add: fair_enable2929 assms)
  show 2: "table_fair E t" if "newLondonInstructionSet = Some t" for t
    using that unfolding newLondonInstructionSet_def
    by (rule step [OF _ 1]) (simp_all add: fair_activators)
  show 3: "table_fair E t" if "newMergeInstructionSet = Some t" for t
    using that unfolding newMergeInstructionSet_def
    by (rule step [OF _ 2]) (simp_all add: change_facts)
  show 4: "table_fair E t" if "newShanghaiInstructionSet = Some t" for t
    using that unfolding newShanghaiInstructionSet_def
    by (rule step [OF _ 3]) (simp_all add: fair_activators)
  show 5: "table_fair E t" if "newCancunInstructionSet = Some t" for t
    using that unfolding newCancunInstructionSet_def
    by (rule step [OF _ 4]) (simp_all add: fair_activators fair_enable6780)
qed

lemma fork_table_fair:
  assumes "fork_table (chainRules E) = Some t"
    "ruleBerlin (chainRules E) \<or> ruleLondon (chainRules E) \<or> ruleMerge (chainRules E) \<or>
       ruleShanghai (chainRules E) \<or> ruleCancun (chainRules E) \<longrightarrow> ruleEIP150 (chainRules E)"
  shows "table_fair E t"
proof (cases "ruleEIP150 (chainRules E)")
  case True
  note late = late_fair [OF True]
  from assms(1) show ?thesis
    unfolding fork_table_def by (auto split: if_split_asm intro: frontier_fair early_fair late)
next
  case False
  with assms show ?thesis
    unfolding fork_table_def by (auto split: if_split_asm intro: frontier_fair early_fair)
qed

lemma EnableEIP_fair:
  assumes "EnableEIP eip jt = Some t" "table_fair E jt" "eip = 2929 \<longrightarrow> ruleEIP150 (chainRules E)"
  shows "table_fair E t"
  using assms by (auto simp: EnableEIP_def activators_def fair_activators fair_enable6780 fair_enable2929 split: if_split_asm)

lemma enable_extra_fair:
  assumes "table_fair E jt" "2929 \<in> set eips \<longrightarrow> ruleEIP150 (chainRules E)"
  shows "table_fair E (fst (enable_extra eips jt acc))"
  using assms
  by (induction eips jt acc rule: enable_extra.induct) (auto split: option.split dest: EnableEIP_fair)

lemma interpreter_fair:
  assumes "NewEVMInterpreter E0 = Some (jt, E)" "rules_agree E0"
  shows "table_fair E jt"
proof -
  obtain t where t: "fork_table (chainRules E0) = Some t" "jt = fst (enable_extra (cfg_ExtraEips (Config E0)) t [])"
    and E: "chainRules E = chainRules E0"
    using assms(1) by (auto simp: NewEVMInterpreter_def bind_eq_Some_conv case_prod_unfold Let_def)
  have "table_fair E t"
    using t(1) assms(2) by (intro fork_table_fair) (auto simp: E rules_agree_def Let_def)
  then show ?thesis
    unfolding t(2) using assms(2) by (intro enable_extra_fair) (auto simp: E rules_agree_def Let_def)
qed

end

end
