(* ===== verification/Frame_Hooks.thy ===== *)
theory Frame_Hooks
  imports Frame_Tables
begin

text \<open>
  The hooks of the tracer around an instruction: they fetch and record account data and may write what
  they fetched to the state database, and stay in the frame of the execution as the instructions do.
\<close>

section \<open>Reads and records\<close>

lemma reading_evolves:
  assumes "reading f k e = Some x" "evolves e0 e"
    and "\<And>v d e1. f (StateDB_of e) = (v, d) \<Longrightarrow> evolves e0 e \<Longrightarrow> grows (StateDB_of e0) d"
    and "\<And>v e1. k v e1 = Some x \<Longrightarrow> evolves e0 e1 \<Longrightarrow> P"
  shows P
proof -
  obtain v d where f: "f (StateDB_of e) = (v, d)" by fastforce
  show P
    using assms(1) f by (intro assms(4) [of v "upd_db e d"]) (auto simp: reading_def intro: evolves_upd_db assms(2,3))
qed

lemma reading_updates [evolve]:
  "reading (\<lambda>d. GetBalance d a) (\<lambda>v. upd_account_state (f1 v)) e = Some e' \<Longrightarrow> evolves e0 e \<Longrightarrow> evolves e0 e'"
  "reading (\<lambda>d. GetNonce d a) (\<lambda>v. upd_account_state (f2 v)) e = Some e' \<Longrightarrow> evolves e0 e \<Longrightarrow> evolves e0 e'"
  "reading (\<lambda>d. GetCode d a) (\<lambda>v. upd_account_state (f3 v)) e = Some e' \<Longrightarrow> evolves e0 e \<Longrightarrow> evolves e0 e'"
  "reading (\<lambda>d. GetState d a k) (\<lambda>v. upd_account_state (f4 v)) e = Some e' \<Longrightarrow> evolves e0 e \<Longrightarrow> evolves e0 e'"
  by (erule reading_evolves, assumption, erule grows_reads, erule evolves_grows, erule upd_account_state_evolves, assumption)+

lemma reading_write_code:
  "reading (\<lambda>d. GetCode d a) (\<lambda>c e. Some (if P c then upd_db e (SetCode (StateDB_of e) a v) else e)) e = Some e' \<Longrightarrow>
   evolves e0 e \<Longrightarrow> evolves e0 e'"
  by (erule reading_evolves, assumption, erule grows_reads, erule evolves_grows)
    (auto split: if_split_asm intro: evolves_upd_db db_ops evolves_grows)

lemma records_evolve [evolve]:
  "record_balance a e = Some e' \<Longrightarrow> evolves e0 e \<Longrightarrow> evolves e0 e'"
  "record_nonce a e = Some e' \<Longrightarrow> evolves e0 e \<Longrightarrow> evolves e0 e'"
  "record_code a e = Some e' \<Longrightarrow> evolves e0 e \<Longrightarrow> evolves e0 e'"
  by (auto simp: record_balance_def record_nonce_def record_code_def intro: reading_updates)

lemma record_call_evolves [evolve]: "record_call b from to e = Some e' \<Longrightarrow> evolves e0 e \<Longrightarrow> evolves e0 e'"
  by (auto simp: record_call_def bind_eq_Some_conv split: if_split_asm; (assumption | erule records_evolve)+)

lemma CheckAndSet_evolves [evolve]:
  "CheckAndSetCode E a e = Some e' \<Longrightarrow> evolves e0 e \<Longrightarrow> evolves e0 e'"
  "CheckAndSetBalance E a e = Some e' \<Longrightarrow> evolves e0 e \<Longrightarrow> evolves e0 e'"
  "CheckAndSetNonce E a e = Some e' \<Longrightarrow> evolves e0 e \<Longrightarrow> evolves e0 e'"
proof -
  have w: "evolves e0 e \<Longrightarrow> evolves e0 (upd_db e (SetCode (StateDB_of e) a c))"
    "evolves e0 e \<Longrightarrow> evolves e0 (upd_db e (SetBalance (StateDB_of e) a n))"
    "evolves e0 e \<Longrightarrow> evolves e0 (upd_db e (SetNonce (StateDB_of e) a m))" for e0 e :: "'a evm" and c n m
    by (auto intro: evolves_upd_db db_ops evolves_grows)
  show "CheckAndSetCode E a e = Some e' \<Longrightarrow> evolves e0 e \<Longrightarrow> evolves e0 e'"
    by (auto simp: CheckAndSetCode_def bind_eq_Some_conv Let_def split: if_split_asm;
        (assumption | erule reading_updates reading_write_code | rule w)+)
  show "CheckAndSetBalance E a e = Some e' \<Longrightarrow> evolves e0 e \<Longrightarrow> evolves e0 e'"
    by (auto simp: CheckAndSetBalance_def bind_eq_Some_conv Let_def split: if_split_asm;
        (assumption | erule reading_updates | rule w)+)
  show "CheckAndSetNonce E a e = Some e' \<Longrightarrow> evolves e0 e \<Longrightarrow> evolves e0 e'"
    by (auto simp: CheckAndSetNonce_def bind_eq_Some_conv Let_def split: if_split_asm;
        (assumption | erule reading_updates | rule w)+)
qed

lemma SetCodeBalanceNonce_evolves [evolve]: "SetCodeBalanceNonce E a e = Some e' \<Longrightarrow> evolves e0 e \<Longrightarrow> evolves e0 e'"
  by (auto simp: SetCodeBalanceNonce_def bind_eq_Some_conv; (assumption | erule CheckAndSet_evolves)+)

lemma fetch_slot_evolves: "evolves e0 e \<Longrightarrow> evolves e0 (fetch_slot E a k st e)"
  by (auto simp: fetch_slot_def intro: evolves_upd_db db_ops evolves_grows)

lemma before_hook_evolves [evolve]:
  "beforeOpcodeExecutionHook E b (e, s) = Some e' \<Longrightarrow> evolves e0 e \<Longrightarrow> evolves e0 e'"
  by (auto simp: beforeOpcodeExecutionHook_def bind_eq_Some_conv Let_def split: if_split_asm;
      (assumption | erule reading_updates CheckAndSet_evolves SetCodeBalanceNonce_evolves | rule fetch_slot_evolves)+)

section \<open>Reverting the account state\<close>

lemma sdb_trace_simps [simp]:
  "td_SetBalance sdb_trace = SetBalance" "td_SetNonce sdb_trace = SetNonce" "td_SetState sdb_trace = SetState"
  by (simp_all add: sdb_trace_def)

lemma revert_storage_grows:
  "revert_storage sdb_trace sn r order (st, d) = (st', d') \<Longrightarrow> grows d0 d \<Longrightarrow> grows d0 d'"
proof (induction order arbitrary: st d r)
  case (Cons p order)
  obtain a k where "p = (a, k)" by fastforce
  with Cons.prems show ?case
    by (auto simp: Let_def split: if_split_asm intro: grows_writes elim!: Cons.IH)
qed simp

lemma revert_balances_grows:
  "revert_balances sdb_trace sn r order (st, d) = Some (st', d') \<Longrightarrow> grows d0 d \<Longrightarrow> grows d0 d'"
proof (induction order arbitrary: st d r)
  case (Cons a order)
  from Cons.prems show ?case
    by (auto simp: Let_def bind_eq_Some_conv split: if_split_asm intro: grows_writes elim!: Cons.IH)
qed simp

lemma revert_nonces_grows:
  "revert_nonces sdb_trace sn r order (st, d) = (st', d') \<Longrightarrow> grows d0 d \<Longrightarrow> grows d0 d'"
proof (induction order arbitrary: st d r)
  case (Cons a order)
  from Cons.prems show ?case
    by (auto simp: Let_def split: if_split_asm intro: grows_writes elim!: Cons.IH)
qed simp

lemma RevertAccountState_grows:
  assumes "RevertAccountState sdb_trace vo st sn d r = Some (st', d')" "grows d0 d"
  shows "grows d0 d'"
proof -
  obtain s1 d1 where 1: "revert_storage sdb_trace sn r (vo_storage vo) (st, d) = (s1, d1)" by fastforce
  with assms(1) obtain s2 d2 where 2: "revert_balances sdb_trace sn r (vo_balance vo) (s1, d1) = Some (s2, d2)"
    and 3: "revert_nonces sdb_trace sn r (vo_nonce vo) (s2, d2) = (st', d')"
    by (auto simp: RevertAccountState_def bind_eq_Some_conv)
  from revert_storage_grows [OF 1 assms(2)] have "grows d0 d1" .
  from revert_balances_grows [OF 2 this] have "grows d0 d2" .
  from revert_nonces_grows [OF 3 this] show ?thesis .
qed

lemma revert_account_state_evolves [evolve]:
  "revert_account_state E sn e = Some e' \<Longrightarrow> evolves e0 e \<Longrightarrow> evolves e0 e'"
  by (auto simp: revert_account_state_def bind_eq_Some_conv
      intro!: evolves_upd_db grows_SetAccountState intro: RevertAccountState_grows evolves_grows)


section \<open>The hook around an instruction\<close>

lemma target_of_evolves:
  assumes "target_of b (e, s) = Some (to, e')" "evolves e0 e"
  shows "evolves e0 e' \<and> callGasTemp e' = callGasTemp e \<and> depth e' = depth e"
proof -
  have "evolves e0 e' \<and> callGasTemp e' = callGasTemp e \<and> depth e' = depth e"
    if "reading (\<lambda>d. GetNonce d from) (\<lambda>n e. Option.bind (f n e) (\<lambda>to. Some (to, e))) e = Some (to, e')" for "from" f
    using that assms(2) by (auto simp: reading_def bind_eq_Some_conv split: prod.split_asm intro: evolves_upd_db db_ops evolves_grows)
  with assms show ?thesis
    by (auto simp: target_of_def bind_eq_Some_conv Let_def split: if_split_asm)
qed

lemma kept_trans_evolves: "kept e0 s0 g e s \<Longrightarrow> evolves e e' \<Longrightarrow> kept e0 s0 g e' s"
  by (auto simp: kept_def intro: evolves_trans)

lemma kept_from: "evolves e e1 \<Longrightarrow> kept e1 s g e' s' \<Longrightarrow> kept e s g e' s'"
  by (auto simp: kept_def intro: evolves_trans)

lemma kept_evolves: "kept e0 s0 g e s \<Longrightarrow> evolves e e"
  by (auto simp: kept_def intro: evolves_refl evolves_sound)

definition dispatch :: "'t callees \<Rightarrow> 't env \<Rightarrow> 't jump_table \<Rightarrow> byte \<Rightarrow> 't frame \<Rightarrow> ('t frame \<times> bytes \<times> vm_error option) option" where
  "dispatch K E jt b p = (if TraceStateFlag E then opcodeExecutionHook K E jt b p else execute (jt b) K E p)"

text \<open>The hook adds only what stays in the frame to the instruction it runs.\<close>

lemma dispatch_goes:
  assumes e: "sound_evm e"
    and run: "\<And>e1. evolves e e1 \<Longrightarrow> callGasTemp e1 = callGasTemp e \<Longrightarrow> depth e1 = depth e \<Longrightarrow>
      goes e1 s g (execute (jt b) K E (e1, s))"
    and hook: "\<And>h. executeHook (jt b) = Some h \<Longrightarrow> goes e s g (h K E (e, s))"
  shows "goes e s g (dispatch K E jt b (e, s))"
proof -
  have around: "kept e s g e' s'"
    if t: "target_of b (e, s) = Some (to, e1)"
      and r: "execute (jt b) K E (e1, s) = Some ((e2, s'), out, err)" and u: "evolves e2 e2 \<Longrightarrow> evolves e2 e'"
    for to e1 e2 s' out err e'
  proof -
    from target_of_evolves [OF t evolves_refl [OF e]]
    have e1: "evolves e e1" and "goes e1 s g (execute (jt b) K E (e1, s))" using run by auto
    with r have k: "kept e1 s g e2 s'" by (simp add: goes_def)
    show ?thesis by (rule kept_from [OF e1 kept_trans_evolves [OF k u [OF kept_evolves [OF k]]]])
  qed
  show ?thesis
  proof (cases "TraceStateFlag E")
    case False
    then show ?thesis using run [OF evolves_refl [OF e]] by (simp add: dispatch_def)
  next
    case True
    show ?thesis
      unfolding goes_def
    proof (intro allI impI)
      fix e' s' out err
      assume "dispatch K E jt b (e, s) = Some ((e', s'), out, err)"
      with True have r: "opcodeExecutionHook K E jt b (e, s) = Some ((e', s'), out, err)"
        by (simp add: dispatch_def)
      show "kept e s g e' s'"
      proof (cases "b \<in> {CREATE, CREATE2, CALL, CALLCODE, DELEGATECALL, STATICCALL}")
        case True
        then have c: "(b = CREATE \<or> b = CREATE2 \<or> b = CALL \<or> b = CALLCODE \<or> b = DELEGATECALL \<or> b = STATICCALL) = True"
          by simp
        have u: "opcodeExecutionHook K E jt b (e, s) = do {
            st \<leftarrow> account_state_of e;
            (to, e) \<leftarrow> target_of b (e, s);
            ((e, t), res, err) \<leftarrow> execute (jt b) K E (e, s);
            e \<leftarrow> (if err \<noteq> None then revert_account_state E (ExportSnapshot st) e
                  else record_call b (ct_self (Contract s)) to e);
            Some ((e, t), res, err) }"
          unfolding opcodeExecutionHook_def Let_def c if_True prod.case by (rule refl)
        note r = r [unfolded u]
        obtain st where st: "account_state_of e = Some st" using r by (cases "account_state_of e") auto
        obtain to e1 where t: "target_of b (e, s) = Some (to, e1)" using r st by (cases "target_of b (e, s)") auto
        obtain e2 s2 out2 err2 where x: "execute (jt b) K E (e1, s) = Some ((e2, s2), out2, err2)"
          using r st t by (cases "execute (jt b) K E (e1, s)") auto
        have same: "s2 = s'" "out2 = out" "err2 = err" and
          after: "revert_account_state E (ExportSnapshot st) e2 = Some e' \<or> record_call b (ct_self (Contract s)) to e2 = Some e'"
          using r st t x by (auto simp: bind_eq_Some_conv split: if_split_asm)
        show ?thesis
          by (rule around [OF t x [unfolded same]])
            (use after in \<open>auto intro: revert_account_state_evolves record_call_evolves\<close>)
      next
        case False
        show ?thesis
        proof (cases "b \<in> {SELFDESTRUCT, SSTORE}")
          case True
          with r False obtain h where "executeHook (jt b) = Some h" "h K E (e, s) = Some ((e', s'), out, err)"
            by (auto simp: opcodeExecutionHook_def bind_eq_Some_conv)
          with hook show ?thesis by (fastforce simp: goes_def)
        next
          case ordinary: False
          with r False have "execute (jt b) K E (e, s) = Some ((e', s'), out, err)"
            by (simp add: opcodeExecutionHook_def)
          with run [OF evolves_refl [OF e]] show ?thesis by (simp add: goes_def)
        qed
      qed
    qed
  qed
qed

lemma dispatch_fair:
  assumes K: "callees_ok (depth e) K" and e: "sound_evm e"
    and ex: "exec_fair E b (execute (jt b))" "\<And>h. executeHook (jt b) = Some h \<Longrightarrow> exec_fair E b h"
  shows "goes e s (unat (Gas (Contract s)) + bonus_of b (callGasTemp e) (Stack s)) (dispatch K E jt b (e, s))"
proof (rule dispatch_goes [OF e])
  fix e1
  assume e1: "evolves e e1" "callGasTemp e1 = callGasTemp e" "depth e1 = depth e"
  have "callees_ok (depth e1) K" "sound_evm e1" using K e1(3) evolves_sound [OF e1(1)] by simp_all
  with ex(1) have "goes e1 s (unat (Gas (Contract s)) + bonus_of b (callGasTemp e1) (Stack s)) (execute (jt b) K E (e1, s))"
    by (simp add: exec_fair_def)
  then show "goes e1 s (unat (Gas (Contract s)) + bonus_of b (callGasTemp e) (Stack s)) (execute (jt b) K E (e1, s))"
    by (simp only: e1(2))
next
  fix h
  assume "executeHook (jt b) = Some h"
  from ex(2) [OF this] K e
  show "goes e s (unat (Gas (Contract s)) + bonus_of b (callGasTemp e) (Stack s)) (h K E (e, s))"
    by (simp add: exec_fair_def)
qed

lemma dispatch_plain:
  assumes e: "sound_evm e" and ex: "plain E (execute (jt b))" "\<And>h. executeHook (jt b) = Some h \<Longrightarrow> plain E h"
  shows "goes e s (unat (Gas (Contract s))) (dispatch K E jt b (e, s))"
proof (rule dispatch_goes [OF e])
  fix e1
  assume "evolves e e1"
  from evolves_sound [OF this] ex(1) show "goes e1 s (unat (Gas (Contract s))) (execute (jt b) K E (e1, s))"
    by (simp add: plain_def)
next
  fix h
  assume "executeHook (jt b) = Some h"
  from ex(2) [OF this] e show "goes e s (unat (Gas (Contract s))) (h K E (e, s))" by (simp add: plain_def)
qed

end
