(* ===== verification/Frame_Run.thy ===== *)
theory Frame_Run
  imports Frame_Hooks
begin

text \<open>
  One iteration of the interpreter, the loop and \<open>Run\<close>: an iteration that goes on costs gas, keeps
  the memory's fee paid and the stack within its limit, so the loop ends within the fuel
  that \<open>Run\<close> gives it.
\<close>

section \<open>Memory\<close>

lemma mem_Resize_ok:
  assumes "mem_ok m" "requested_memory f st = Some (Inr sz)" "memoryGasCost m sz = (m', Inr fee)"
  shows "mem_ok (if sz > 0 then mem_Resize m' sz else m')"
proof (cases "sz = 0")
  case True
  with assms show ?thesis by simp
next
  case False
  with assms(2) obtain n where n: "sz = toWordSize n * 32" "unat (toWordSize n) * 32 < 2 ^ 64"
    by (auto simp: requested_memory_def bind_eq_Some_conv checked_def SafeMul_def not_le split: option.split_asm if_split_asm)
  then have u: "unat sz = 32 * unat (toWordSize n)" by (simp add: unat_word_ariths)
  note x = memory_fee_exact [OF assms(1), of sz]
  have le: "unat sz \<le> 0x1FFFFFFFE0"
  proof (rule ccontr)
    assume "\<not> ?thesis"
    with x assms(3) show False by simp
  qed
  then have "unat (toWordSize sz) = unat (toWordSize n)"
    by (simp add: unat_toWordSize [of sz] u words_of_def)
  then have "toWordSize sz = toWordSize n" by (simp add: word_unat_eq_iff)
  with x le assms(3) n(1) False show ?thesis by (auto simp: word_greater_zero_iff)
qed

section \<open>One iteration\<close>

definition sound_frame :: "'t callees \<Rightarrow> 't frame \<Rightarrow> bool" where
  "sound_frame K p \<longleftrightarrow> (case p of (e, s) \<Rightarrow> sound_evm e \<and> mem_ok (Memory s) \<and> callees_ok (depth e) K)"

text \<open>What an iteration leaves: its own frame, and less gas when it goes on.\<close>

definition steps_to :: "'t frame \<Rightarrow> 't outcome \<Rightarrow> bool" where
  "steps_to p r \<longleftrightarrow> (case p of (e, s) \<Rightarrow> (case r of
     Next (e', s') \<Rightarrow> evolves e e' \<and> same_code (Contract s) (Contract s') \<and> mem_ok (Memory s') \<and>
       unat (Gas (Contract s')) < unat (Gas (Contract s))
   | Halt (e', s') out err i \<Rightarrow> evolves e e' \<and> same_code (Contract s) (Contract s') \<and>
       unat (Gas (Contract s')) \<le> unat (Gas (Contract s)) \<and> err \<noteq> None))"

lemma steps_toI:
  assumes "evolves e e1" "same_code (Contract s) (Contract s1)" "mem_ok (Memory s1)"
    and k: "kept e1 s1 g e' s'" and g: "g \<le> unat (Gas (Contract s))"
    and r: "r = (if err = None then Next (e', s'\<lparr>sc_pc := sc_pc s' + 1\<rparr>) else Halt (e', s') out err i)"
    and less: "err = None \<Longrightarrow> g < unat (Gas (Contract s))"
  shows "steps_to (e, s) r"
  using assms same_size_ok [of "Memory s1" "Memory s'"]
  by (auto simp: steps_to_def kept_def intro: evolves_trans same_code_trans split: if_split_asm)

lemma perform_dispatch:
  "perform K E jt i p = map_option (\<lambda>((e, s), res, err).
     if err = None then Next (e, s\<lparr>sc_pc := sc_pc s + 1\<rparr>) else Halt (e, s) res err (i\<lparr>si_logged := True\<rparr>))
     (dispatch K E jt (si_op i) p)"
  by (auto simp: perform_def dispatch_def map_option_case split: option.split prod.split)

lemma dispatch_halting:
  assumes "halting (execute (jt b))" "\<And>h. executeHook (jt b) = Some h \<Longrightarrow> halting h"
    "dispatch K E jt b p = Some (q, out, err)"
  shows "err \<noteq> None"
proof -
  have h: "f K E (e, s) \<noteq> Some ((e', s'), out', None)" if "halting f" for f e s e' s' out'
    using that unfolding halting_def by blast
  obtain e s where p: "p = (e, s)" by fastforce
  show ?thesis
  proof
    assume None: "err = None"
    show False
      using assms(3) unfolding None dispatch_def p opcodeExecutionHook_def
      by (cases q) (auto simp: bind_eq_Some_conv Let_def h [OF assms(1)] h [OF assms(2)] split: if_split_asm)
  qed
qed

lemma perform_steps:
  assumes e: "evolves e e1" and c: "same_code (Contract s) (Contract s1)" and m: "mem_ok (Memory s1)"
    and d: "goes e1 s1 g (dispatch K E jt (si_op i) (e1, s1))"
    and g: "g \<le> unat (Gas (Contract s))"
    and less: "steady (jt (si_op i)) \<Longrightarrow> constantGas (jt (si_op i)) = 0 \<or> g < unat (Gas (Contract s))"
    and pays: "\<not> steady (jt (si_op i)) \<Longrightarrow> g < unat (Gas (Contract s))"
    and r: "perform K E jt i (e1, s1) = Some r"
  shows "steps_to (e, s) r"
proof -
  obtain e2 s2 out err where x: "dispatch K E jt (si_op i) (e1, s1) = Some ((e2, s2), out, err)"
    and r: "r = (if err = None then Next (e2, s2\<lparr>sc_pc := sc_pc s2 + 1\<rparr>) else Halt (e2, s2) out err (i\<lparr>si_logged := True\<rparr>))"
    using r by (auto simp: perform_dispatch)
  have k: "kept e1 s1 g e2 s2" using d x by (simp add: goes_def)
  show ?thesis
  proof (rule steps_toI [OF e c m k g r])
    assume "err = None"
    with dispatch_halting [OF _ _ x] less pays show "g < unat (Gas (Contract s))" by (auto simp: steady_def)
  qed
qed

text \<open>An iteration that ends before its instruction is executed.\<close>

lemma steps_to_Halt:
  "evolves e e1 \<Longrightarrow> same_code (Contract s) (Contract s1) \<Longrightarrow> Gas (Contract s1) \<le> Gas (Contract s) \<Longrightarrow>
   steps_to (e, s) (Halt (e1, s1) out (Some err) i)"
  by (simp add: steps_to_def word_le_nat_alt)

lemma UseGas_cases:
  obtains "UseGas c g = (c, False)" "Gas c < g"
  | "UseGas c g = (c\<lparr>Gas := Gas c - g\<rparr>, True)" "g \<le> Gas c" "unat (Gas c - g) = unat (Gas c) - unat g"
    "unat g \<le> unat (Gas c)"
  by (cases "Gas c < g") (auto simp: UseGas_def not_less word_le_nat_alt unat_sub)

text \<open>What a run started on \<open>e\<close> with the contract \<open>c\<close> leaves.\<close>

definition run_ok :: "'t evm \<Rightarrow> contract \<Rightarrow> ('t evm \<times> contract \<times> bytes \<times> vm_error option) option \<Rightarrow> bool" where
  "run_ok e c r \<longleftrightarrow> (\<forall>e' c' out err. r = Some (e', c', out, err) \<longrightarrow> evolves e e' \<and> Gas c' \<le> Gas c)"

definition runner_ok :: "int \<Rightarrow> 't runner \<Rightarrow> bool" where
  "runner_ok d run \<longleftrightarrow> (\<forall>e c input ro. sound_evm e \<and> depth e = d \<longrightarrow> run_ok e c (run e c input ro))"

context evm_host begin

lemma run_dynamic_steps:
  assumes fair: "table_fair E jt" and K: "callees_ok (depth e) K" and e: "evolves e e1"
    and c: "same_code (Contract s) (Contract s1)" and m: "mem_ok (Memory s1)"
    and g: "unat (Gas (Contract s1)) + unat (constantGas (jt (si_op i))) = unat (Gas (Contract s))"
    and dyn: "dynamicGas (jt (si_op i)) = Some dg"
    and r: "run_dynamic K E jt i dg (e1, s1) = Some r"
  shows "steps_to (e, s) r"
proof -
  let ?b = "si_op i"
  note e1 = evolves_sound [OF e]
  have le: "Gas (Contract s1) \<le> Gas (Contract s)" using g by (simp add: word_le_nat_alt)
  from table_fairD(1) [OF fair, of ?b] dyn
  have gf: "gas_fair E ?b (memorySize (jt ?b) \<noteq> None) dg" and pay: "steady (jt ?b) \<or> gas_pays E dg"
    by (simp_all add: op_fair_def)
  obtain ms where ms: "requested_memory (memorySize (jt ?b)) (Stack s1) = Some ms"
    using r by (auto simp: run_dynamic_def bind_eq_Some_conv)
  show ?thesis
  proof (cases ms)
    case (Inl err)
    with r ms have "r = Halt (e1, s1) [] (Some err) i" by (simp add: run_dynamic_def)
    then show ?thesis using steps_to_Halt [OF e c le] by simp
  next
    case (Inr sz)
    obtain e2 c2 m2 q where d: "dg E (Stack s1) sz (e1, Contract s1, Memory s1) = Some ((e2, c2, m2), q)"
      using r ms Inr by (auto simp: run_dynamic_def bind_eq_Some_conv)
    have sz: "memorySize (jt ?b) \<noteq> None \<or> sz = 0"
      using ms Inr by (auto simp: requested_memory_def split: option.split_asm)
    from gf e1 m d sz
    have f: "evolves e1 e2" "same_code (Contract s1) c2" "Gas c2 \<le> Gas (Contract s1)"
      and paid: "\<And>dc. q = Inr dc \<Longrightarrow> dc \<le> Gas c2 \<Longrightarrow> c2 = Contract s1 \<and>
        bonus_of ?b (callGasTemp e2) (Stack s1) \<le> unat dc \<and> (\<exists>fee. memoryGasCost (Memory s1) sz = (m2, Inr fee))"
      unfolding gas_fair_def by blast+
    note e2 = evolves_trans [OF e f(1)] and c2 = same_code_trans [OF c f(2)]
    let ?s2 = "s1\<lparr>Contract := c2, Memory := m2\<rparr>"
    have le2: "Gas c2 \<le> Gas (Contract s)" using f(3) le by (rule order_trans)
    show ?thesis
    proof (cases q)
      case (Inl err)
      with r ms Inr d have "r = Halt (e2, ?s2) [] (Some ErrOutOfGas) i" by (simp add: run_dynamic_def)
      then show ?thesis using steps_to_Halt [OF e2, of s ?s2] c2 le2 by simp
    next
      case q: (Inr dc)
      let ?i = "i\<lparr>si_cost := si_cost i + dc\<rparr>"
      show ?thesis
      proof (rule UseGas_cases [of c2 dc])
        assume u: "UseGas c2 dc = (c2, False)"
        with r ms Inr d q have "r = Halt (e2, ?s2\<lparr>Contract := c2\<rparr>) [] (Some ErrOutOfGas) ?i" by (simp add: run_dynamic_def)
        then show ?thesis using steps_to_Halt [OF e2, of s "?s2\<lparr>Contract := c2\<rparr>"] c2 le2 by simp
      next
        assume u: "UseGas c2 dc = (c2\<lparr>Gas := Gas c2 - dc\<rparr>, True)" "dc \<le> Gas c2"
          "unat (Gas c2 - dc) = unat (Gas c2) - unat dc" "unat dc \<le> unat (Gas c2)"
        from paid [OF q u(2)] obtain fee where p: "c2 = Contract s1"
          "bonus_of ?b (callGasTemp e2) (Stack s1) \<le> unat dc" "memoryGasCost (Memory s1) sz = (m2, Inr fee)" by blast
        let ?s3 = "?s2\<lparr>Contract := c2\<lparr>Gas := Gas c2 - dc\<rparr>\<rparr>"
        let ?s4 = "if sz > 0 then ?s3\<lparr>Memory := mem_Resize m2 sz\<rparr> else ?s3"
        obtain e3 where t: "capture_state E ?i ?s3 None e2 = Some e3" and x: "perform K E jt ?i (e3, ?s4) = Some r"
          using r ms Inr d q u(1) by (auto simp: run_dynamic_def bind_eq_Some_conv Let_def cong: if_cong)
        have e3: "evolves e e3" by (rule capture_state_evolves [OF t e2])
        have temp: "callGasTemp e3 = callGasTemp e2"
          using with_tracer_fields t unfolding capture_state_def by blast
        have K3: "callees_ok (depth e3) K" using K evolves_depth [OF e3] by simp
        have m4: "mem_ok (Memory ?s4)" using mem_Resize_ok [OF m _ p(3)] ms Inr by (auto split: if_split_asm)
        have c4: "same_code (Contract s) (Contract ?s4)" using c2 by simp
        have g4: "unat (Gas (Contract ?s4)) + unat dc + unat (constantGas (jt ?b)) = unat (Gas (Contract s))"
          using g u(3,4) p(1) by simp
        have st: "Stack ?s4 = Stack s1" "si_op ?i = ?b" by simp_all
        have nz: "\<not> steady (jt ?b) \<Longrightarrow> dc \<noteq> 0 \<and> ?b \<notin> {CALL, CALLCODE, DELEGATECALL, STATICCALL}"
          using pay d q table_fairD(2) [OF fair, of ?b] by (auto simp: gas_pays_def fixed_price_def)
        from table_fairD(1) [OF fair, of ?b]
        have "exec_fair E ?b (execute (jt ?b))" "\<And>h. executeHook (jt ?b) = Some h \<Longrightarrow> exec_fair E ?b h"
          by (simp_all add: op_fair_def)
        from dispatch_fair [where s = ?s4 and jt = jt and b = ?b, OF K3 evolves_sound [OF e3] this]
        have go: "goes e3 ?s4 (unat (Gas (Contract ?s4)) + bonus_of ?b (callGasTemp e2) (Stack s1))
            (dispatch K E jt (si_op ?i) (e3, ?s4))" by (simp only: st temp)
        show ?thesis
        proof (rule perform_steps [OF e3 c4 m4 go _ _ _ x], unfold st(2))
          show "unat (Gas (Contract ?s4)) + bonus_of ?b (callGasTemp e2) (Stack s1) \<le> unat (Gas (Contract s))"
            using g4 p(2) by linarith
          show "constantGas (jt ?b) = 0 \<or>
            unat (Gas (Contract ?s4)) + bonus_of ?b (callGasTemp e2) (Stack s1) < unat (Gas (Contract s))"
            using g4 p(2) unat_gt_0 [of "constantGas (jt ?b)"] by linarith
          assume "\<not> steady (jt ?b)"
          with nz have "dc \<noteq> 0" "bonus_of ?b (callGasTemp e2) (Stack s1) = 0" by auto
          then show "unat (Gas (Contract ?s4)) + bonus_of ?b (callGasTemp e2) (Stack s1) < unat (Gas (Contract s))"
            using g4 unat_gt_0 [of dc] by linarith
        qed
      qed
    qed
  qed
qed

lemma run_step_steps:
  assumes fair: "table_fair E jt" and f: "sound_frame K (e, s)" and r: "run_step K E jt (e, s) = Some r"
  shows "steps_to (e, s) r"
proof -
  from f have e: "sound_evm e" and m: "mem_ok (Memory s)" and K: "callees_ok (depth e) K"
    by (simp_all add: sound_frame_def)
  note e0 = evolves_refl [OF e]
  let ?b = "GetOp (Contract s) (sc_pc s)"
  let ?i = "\<lparr>si_pc = sc_pc s, si_op = ?b, si_gas = Gas (Contract s), si_cost = constantGas (jt ?b), si_logged = False\<rparr>"
  let ?n = "int (st_len (Stack s))"
  show ?thesis
  proof (cases "?n < op_minStack (jt ?b) \<or> ?n > op_maxStack (jt ?b)")
    case True
    then have "\<exists>err. r = Halt (e, s) [] (Some err) ?i"
      using r by (cases "?n < op_minStack (jt ?b)") (auto simp: run_step_def Let_def)
    then show ?thesis using steps_to_Halt [OF e0, of s s] by auto
  next
    case False
    show ?thesis
    proof (rule UseGas_cases [of "Contract s" "constantGas (jt ?b)"])
      assume u: "UseGas (Contract s) (constantGas (jt ?b)) = (Contract s, False)"
      then have "r = Halt (e, s\<lparr>Contract := Contract s\<rparr>) [] (Some ErrOutOfGas) ?i"
        using r False by (auto simp: run_step_def Let_def)
      then show ?thesis using steps_to_Halt [OF e0, of s s] by simp
    next
      assume u: "UseGas (Contract s) (constantGas (jt ?b)) =
          (Contract s\<lparr>Gas := Gas (Contract s) - constantGas (jt ?b)\<rparr>, True)"
        "unat (Gas (Contract s) - constantGas (jt ?b)) = unat (Gas (Contract s)) - unat (constantGas (jt ?b))"
        "unat (constantGas (jt ?b)) \<le> unat (Gas (Contract s))"
      let ?s = "s\<lparr>Contract := Contract s\<lparr>Gas := Gas (Contract s) - constantGas (jt ?b)\<rparr>\<rparr>"
      have c: "same_code (Contract s) (Contract ?s)" and m1: "mem_ok (Memory ?s)" using m by simp_all
      have g: "unat (Gas (Contract ?s)) + unat (constantGas (jt (si_op ?i))) = unat (Gas (Contract s))" using u(2,3) by simp
      obtain e1 where h: "(if TraceStateFlag E then beforeOpcodeExecutionHook E ?b (e, ?s) else Some e) = Some e1"
        using r False u(1) by (auto simp: run_step_def Let_def bind_eq_Some_conv)
      have e1: "evolves e e1" using h e0 before_hook_evolves [OF _ e0] by (cases "TraceStateFlag E") auto
      show ?thesis
      proof (cases "dynamicGas (jt ?b)")
        case (Some dg)
        then have "run_dynamic K E jt ?i dg (e1, ?s) = Some r"
          using r False u(1) h by (simp add: run_step_def Let_def)
        with Some show ?thesis by (intro run_dynamic_steps [OF fair K e1 c m1 g]) simp_all
      next
        case None
        then obtain e2 where t: "capture_state E ?i ?s None e1 = Some e2" and x: "perform K E jt ?i (e2, ?s) = Some r"
          using r False u(1) h by (auto simp: run_step_def Let_def bind_eq_Some_conv)
        have e2: "evolves e e2" by (rule capture_state_evolves [OF t e1])
        have K2: "callees_ok (depth e2) K" using K evolves_depth [OF e2] by simp
        from table_fairD(1) [OF fair, of ?b] None
        have p: "plain E (execute (jt ?b))" "\<And>h. executeHook (jt ?b) = Some h \<Longrightarrow> plain E h" and st: "steady (jt ?b)"
          by (simp_all add: op_fair_def)
        have go: "goes e2 ?s (unat (Gas (Contract ?s))) (dispatch K E jt (si_op ?i) (e2, ?s))"
          using dispatch_plain [where jt = jt and b = ?b and s = ?s and K = K, OF evolves_sound [OF e2] p] by simp
        have "constantGas (jt ?b) = 0 \<or> unat (Gas (Contract ?s)) < unat (Gas (Contract s))"
          using g unat_gt_0 [of "constantGas (jt ?b)"] by simp linarith
        then show ?thesis using g st by (intro perform_steps [OF e2 c m1 go _ _ _ x]) auto
      qed
    qed
  qed
qed

section \<open>The loop\<close>

lemma steps_to_sound: "sound_frame K p \<Longrightarrow> steps_to p (Next q) \<Longrightarrow> sound_frame K q"
  by (auto simp: sound_frame_def steps_to_def evolves_depth intro: evolves_sound split: prod.split_asm)

lemma steps_to_trans:
  "steps_to p (Next q) \<Longrightarrow> steps_to q r \<Longrightarrow> steps_to p r"
  by (auto simp: steps_to_def split: prod.split_asm outcome.split_asm intro: evolves_trans same_code_trans)

text \<open>The loop ends in an error or a stop within as many iterations as there is gas.\<close>

lemma run_loop_ends:
  assumes fair: "table_fair E jt" and f: "sound_frame K p" and n: "unat (Gas (Contract (snd p))) < n"
  shows "\<exists>r. run_loop n K E jt p = Some r \<and> (\<forall>q. r = Some q \<longrightarrow> steps_to p q \<and> (\<forall>p'. q \<noteq> Next p'))"
  using f n
proof (induction n arbitrary: p)
  case (Suc n)
  obtain e s where p: "p = (e, s)" by fastforce
  show ?case
  proof (cases "run_step K E jt p")
    case (Some r)
    from run_step_steps [OF fair Suc.prems(1) [unfolded p] Some [unfolded p]] have st: "steps_to p r" by (simp add: p)
    show ?thesis
    proof (cases r)
      case (Next q)
      with st have less: "unat (Gas (Contract (snd q))) < n" using Suc.prems(2) by (auto simp: steps_to_def p split: prod.split_asm)
      from st have on: "steps_to p (Next q)" by (simp only: Next)
      have "run_loop (Suc n) K E jt p = run_loop n K E jt q" using Some Next by simp
      then show ?thesis using Suc.IH [OF steps_to_sound [OF Suc.prems(1) on] less] steps_to_trans [OF on] by auto
    next
      case (Halt q out err i)
      with Some st show ?thesis by auto
    qed
  qed auto
qed simp

section \<open>\<open>Run\<close>\<close>

lemma finish_run_evolves:
  assumes "finish_run E r = Some (e', c', out, err)" "steps_to (e, s) r" "\<And>p. r \<noteq> Next p"
  shows "evolves e e' \<and> Gas c' \<le> Gas (Contract s)"
proof -
  obtain e1 s1 out1 err1 i where r: "r = Halt (e1, s1) out1 err1 i" using assms(3) by (cases r) auto
  with assms(2) have e1: "evolves e e1" and g: "Gas (Contract s1) \<le> Gas (Contract s)"
    by (simp_all add: steps_to_def word_le_nat_alt)
  from assms(1) r have "c' = Contract s1"
    by (auto simp: finish_run_def bind_eq_Some_conv Let_def)
  moreover have "evolves e e'"
    using assms(1) r e1 by (auto simp: finish_run_def bind_eq_Some_conv Let_def split: if_split_asm
        intro: capture_state_evolves capture_fault_evolves)
  ultimately show ?thesis using g by simp
qed

lemma enter_leave:
  assumes "evolves (e\<lparr>depth := depth e + 1, readOnly := readOnly e \<or> ro, returnData := []\<rparr>) e'"
  shows "evolves e (e'\<lparr>depth := depth e' - 1, readOnly := (if ro \<and> \<not> readOnly e then False else readOnly e')\<rparr>)"
  using assms by (auto simp: evolves_def)

lemma Run_ok:
  assumes fair: "table_fair E jt" and K: "callees_ok (d + 1) K"
  shows "runner_ok d (Run K E jt)"
  unfolding runner_ok_def run_ok_def
proof (intro allI impI, elim conjE)
  fix e c input ro e' c' out err
  assume e: "sound_evm e" "depth e = d" and r: "Run K E jt e c input ro = Some (e', c', out, err)"
  let ?e = "e\<lparr>depth := depth e + 1, readOnly := readOnly e \<or> ro, returnData := []\<rparr>"
  have se: "sound_evm ?e" using e(1) by (simp add: sound_evm_def)
  have "\<exists>e1. evolves ?e e1 \<and> e' = e1\<lparr>depth := depth e1 - 1, readOnly := (if ro \<and> \<not> readOnly e then False else readOnly e1)\<rparr> \<and>
      Gas c' \<le> Gas c"
  proof (cases "Code c = []")
    case True
    with r evolves_refl [OF se] show ?thesis by (intro exI [of _ ?e]) (auto simp: Run_def Let_def)
  next
    case False
    let ?s = "\<lparr>sc_pc = 0, Stack = [], Memory = NewMemory, Contract = c\<lparr>Input := input\<rparr>\<rparr>"
    have sf: "sound_frame K (?e, ?s)" using se e(2) K by (simp add: sound_frame_def mem_ok_New)
    obtain q where l: "run_loop (run_fuel c) K E jt (?e, ?s) = Some (Some q)"
      and fin: "\<exists>e1. finish_run E q = Some (e1, c', out, err) \<and>
        e' = e1\<lparr>depth := depth e1 - 1, readOnly := (if ro \<and> \<not> readOnly e then False else readOnly e1)\<rparr>"
      using r False by (auto simp: Run_def Let_def bind_eq_Some_conv)
    have "unat (Gas (Contract (snd (?e, ?s)))) < run_fuel c" by (simp add: run_fuel_def)
    from run_loop_ends [OF fair sf this] l have q: "steps_to (?e, ?s) q" "\<And>p. q \<noteq> Next p" by auto
    from fin obtain e1 where f: "finish_run E q = Some (e1, c', out, err)"
      and e': "e' = e1\<lparr>depth := depth e1 - 1, readOnly := (if ro \<and> \<not> readOnly e then False else readOnly e1)\<rparr>" by blast
    from finish_run_evolves [OF f q] e' show ?thesis by auto
  qed
  then show "evolves e e' \<and> Gas c' \<le> Gas c" using enter_leave by blast
qed

end

end
