(* ===== verification/Frame_Calls.thy ===== *)
theory Frame_Calls
  imports Frame_Run
begin

text \<open>
  The calls and creations, given that the code they run stays in its frame: they stay in the frame of
  their caller, return at most the gas they were given, and after an error leave the world they were
  called in (a creation its world with the caller's nonce and the warm address).
\<close>

section \<open>Results of calls\<close>

definition world :: "'t evm \<Rightarrow> world" where
  "world e = world_of (StateDB_of e)"

text \<open>The errors that refuse a call before it starts; they return all gas.\<close>

definition refused :: "vm_error \<Rightarrow> bool" where
  "refused err \<longleftrightarrow> err = ErrDepth \<or> err = ErrInsufficientBalance"

definition call_fine :: "'t evm \<Rightarrow> u64 \<Rightarrow> ('t evm \<times> bytes \<times> u64 \<times> vm_error option) option \<Rightarrow> bool" where
  "call_fine e g r \<longleftrightarrow> (\<forall>e' out left err. r = Some (e', out, left, err) \<longrightarrow> evolves e e' \<and> left \<le> g \<and>
     (\<forall>er. err = Some er \<longrightarrow> world e' = world e \<and> (left = 0 \<or> er = ErrExecutionReverted \<or> (refused er \<and> left = g))))"

lemma call_fine_ok: "call_fine e g r \<Longrightarrow> call_ok e g r"
  by (auto simp: call_fine_def call_ok_def)

lemma world_upd [simp]: "world (upd_db e d) = world_of d" "world (e\<lparr>jumpdests := j\<rparr>) = world e"
  by (simp_all add: world_def)

section \<open>Snapshots of the EVM\<close>

lemma take_snapshot_evolves:
  assumes "take_snapshot e = (i, e1)" "evolves e0 e"
  shows "evolves e0 e1" "world e1 = world e"
proof -
  obtain d where d: "Snapshot (StateDB_of e) = (i, d)" "e1 = upd_db e d"
    using assms(1) by (auto simp: take_snapshot_def split: prod.split_asm)
  show "evolves e0 e1" using assms(2) Snapshot_grows [OF d(1)] by (auto simp: d(2) intro: evolves_upd_db evolves_grows)
  show "world e1 = world e" using d(1) by (auto simp: d(2) world_def Snapshot_def)
qed

text \<open>Going back to a snapshot after anything that stayed in the frame never panics.\<close>

lemma revert_snapshot:
  assumes e: "sound_evm e" and snap: "take_snapshot e = (i, e1)" and ev: "evolves e1 e2"
  shows "\<exists>d. RevertToSnapshot (StateDB_of e2) i = Some d \<and> evolves e (upd_db e2 d) \<and> world (upd_db e2 d) = world e"
proof -
  obtain d1 where d1: "Snapshot (StateDB_of e) = (i, d1)" "e1 = upd_db e d1"
    using snap by (auto simp: take_snapshot_def split: prod.split_asm)
  have "sound_db (StateDB_of e)" using e by (simp add: sound_evm_def)
  moreover have "grows d1 (StateDB_of e2)" using evolves_grows [OF ev] by (simp add: d1(2))
  ultimately obtain d where "RevertToSnapshot (StateDB_of e2) i = Some d" "grows (StateDB_of e) d"
    "world_of d = world_of (StateDB_of e)"
    using RevertToSnapshot_grows [OF _ d1(1)] by blast
  moreover have "evolves e e2" by (rule evolves_trans [OF take_snapshot_evolves(1) [OF snap evolves_refl [OF e]] ev])
  ultimately show ?thesis by (auto simp: world_def intro: evolves_upd_db)
qed

lemma settle_ok:
  assumes "sound_evm e" "take_snapshot e = (i, e1)" "evolves e1 e2"
  shows "\<exists>e3 left. settle i (e2, rt, g, err) = Some (e3, rt, left, err) \<and> evolves e e3 \<and> left \<le> g \<and>
    (\<forall>er. err = Some er \<longrightarrow> world e3 = world e \<and> (left = 0 \<or> er = ErrExecutionReverted))"
proof (cases err)
  case None
  have "evolves e e2" by (rule evolves_trans [OF take_snapshot_evolves(1) [OF assms(2) evolves_refl [OF assms(1)]] assms(3)])
  with None show ?thesis by (simp add: settle_def)
next
  case (Some er)
  with revert_snapshot [OF assms] show ?thesis by (auto simp: settle_def)
qed

lemma with_tracer_ok:
  assumes "with_tracer f e = Some e'" "evolves e0 e"
    and p: "\<And>t d t' d'. sdb_inv d \<Longrightarrow> f t d = Some (t', d') \<Longrightarrow> peeks d d'"
  shows "evolves e0 e' \<and> world e' = world e"
  using with_tracer_evolves [OF p assms(1,2)] with_tracer_world [OF p assms(1) evolves_sound [OF assms(2)]]
  by (simp add: world_def)

context evm_host begin

lemma capture_exit_ok:
  assumes "capture_exit E outer g0 (e, rt, g, err) = Some (e', rt', g', err')" "evolves e0 e"
  shows "evolves e0 e' \<and> rt' = rt \<and> g' = g \<and> err' = err \<and> world e' = world e"
proof -
  have w: "with_tracer (\<lambda>t d. if outer then CaptureEnd (Logger E) t d rt (g0 - g) err
      else CaptureExit (Logger E) t d rt (g0 - g) err) e = Some e'" "rt' = rt" "g' = g" "err' = err"
    using assms(1) by (auto simp: capture_exit_def bind_eq_Some_conv)
  have "evolves e0 e' \<and> world e' = world e"
    by (rule with_tracer_ok [OF w(1) assms(2)])
      (cases outer; simp add: CaptureEnd_peeks CaptureExit_peeks)
  with w(2-4) show ?thesis by simp
qed

lemma capture_enter_ok:
  assumes "capture_enter E b a a' inp g v e = Some e'" "evolves e0 e"
  shows "evolves e0 e'"
  using with_tracer_ok [OF assms(1) [unfolded capture_enter_def] assms(2)] CaptureEnter_peeks by metis

lemma capture_begin_ok:
  assumes "capture_begin E cr b a a' inp g v e = Some e'" "evolves e0 e"
  shows "evolves e0 e'"
proof (cases "depth e = 0")
  case True
  with assms(1) have w: "with_tracer (\<lambda>t d. CaptureStart (Logger E) t d a a' cr inp g v) e = Some e'"
    by (simp add: capture_begin_def)
  show ?thesis using with_tracer_ok [OF w assms(2)] CaptureStart_peeks by metis
next
  case False
  with assms show ?thesis by (simp add: capture_begin_def capture_enter_ok)
qed

lemma can_transfer_ok:
  assumes "can_transfer E a v e = (ok, e')" "evolves e0 e"
  shows "evolves e0 e' \<and> world e' = world e"
proof -
  obtain d where d: "bc_CanTransfer (Context E) (StateDB_of e) a v = (ok, d)" "e' = upd_db e d"
    using assms(1) by (auto simp: can_transfer_def split: prod.split_asm)
  have "peeks (StateDB_of e) d" by (rule CanTransfer_peeks [OF grows_inv [OF evolves_grows [OF assms(2)]] d(1)])
  then show ?thesis
    using evolves_upd_db [OF assms(2) grows_step [OF evolves_grows [OF assms(2)]]]
    by (simp add: d(2) world_def peeks_def)
qed

text \<open>The end of every call.\<close>

lemma call_end:
  assumes e: "sound_evm e" "take_snapshot e = (i, e1)" "evolves e1 e2" "g2 \<le> g"
    and r: "Option.bind (settle i (e2, rt, g2, err)) (capture_exit E outer g0) = Some (e', out, left, er)"
  shows "evolves e e' \<and> left \<le> g \<and> (\<forall>x. er = Some x \<longrightarrow> world e' = world e \<and> (left = 0 \<or> x = ErrExecutionReverted))"
proof -
  from settle_ok [OF e(1-3)] obtain e3 l where s: "settle i (e2, rt, g2, err) = Some (e3, rt, l, err)" "evolves e e3"
    "l \<le> g2" "\<And>x. err = Some x \<Longrightarrow> world e3 = world e \<and> (l = 0 \<or> x = ErrExecutionReverted)" by metis
  from r s(1) have "capture_exit E outer g0 (e3, rt, l, err) = Some (e', out, left, er)" by simp
  from capture_exit_ok [OF this s(2)] s(3,4) e(4) show ?thesis by auto
qed

end

section \<open>Running code\<close>

lemma RunPrecompiled_le: "RunPrecompiledContract x p input g = (out, left, err) \<Longrightarrow> left \<le> g"
  by (auto simp: RunPrecompiledContract_def Let_def word_le_nat_alt unat_sub not_less split: if_split_asm prod.split_asm)

lemma new_contract_ok:
  assumes "new_contract caller self v g e = (c, e')" "evolves e0 e"
  shows "Gas c = g \<and> evolves e0 e' \<and> depth e' = depth e"
  using assms by (auto simp: new_contract_def NewContract_def)

lemma run_contract_ok:
  assumes run: "runner_ok (depth e0) run" and e: "evolves e0 e"
    and r: "run_contract run e c addr h code input ro = Some (e', out, left, err)"
  shows "evolves e0 e' \<and> left \<le> Gas c"
proof -
  obtain c' where "run e (SetCallCode c (Some addr) h (slice_of code)) input ro = Some (e', c', out, err)" "left = Gas c'"
    using r by (auto simp: run_contract_def bind_eq_Some_conv)
  moreover have "run_ok e (SetCallCode c (Some addr) h (slice_of code)) (run e (SetCallCode c (Some addr) h (slice_of code)) input ro)"
    using run evolves_sound [OF e] evolves_depth [OF e] by (simp add: runner_ok_def)
  ultimately show ?thesis using evolves_trans [OF e] by (auto simp: run_ok_def SetCallCode_def)
qed

lemma run_target_ok:
  assumes run: "runner_ok (depth e0) run" and e: "evolves e0 e" and c: "\<And>c. contract = Some c \<Longrightarrow> Gas c = g"
    and r: "run_target run E e contract addr input g ro = Some (e', out, left, err)"
  shows "evolves e0 e' \<and> left \<le> g"
proof (cases "precompile E addr")
  case (Some p)
  with r have "RunPrecompiledContract (ext E) p input g = (out, left, err)" "e' = e" by (auto simp: run_target_def)
  with e RunPrecompiled_le show ?thesis by blast
next
  case None
  with r obtain x where x: "contract = Some x" by (cases contract) (auto simp: run_target_def)
  obtain h d1 where 1: "GetCodeHash (StateDB_of e) addr = (h, d1)" by fastforce
  obtain code d2 where 2: "GetCode d1 addr = (code, d2)" by fastforce
  have "grows (StateDB_of e0) d2" using grows_reads(5) [OF 1 evolves_grows [OF e]] grows_reads(6) [OF 2] by blast
  then have "evolves e0 (upd_db (upd_db e d1) d2)" using e by (auto simp: evolves_def upd_db_def)
  moreover have "run_contract run (upd_db (upd_db e d1) d2) x addr h code input ro = Some (e', out, left, err)"
    using r None x 1 2 by (simp add: run_target_def reading_def)
  ultimately show ?thesis using run_contract_ok [where run = run and ?e0.0 = e0, OF run] c [OF x] by metis
qed

section \<open>The calls\<close>

context evm_host begin

text \<open>The part that three of the four calls share.\<close>

lemma target_call:
  assumes run: "runner_ok (depth e) run" and e: "sound_evm e"
    and snap: "take_snapshot e = (i, e1)" and e2: "evolves e1 e2"
    and n: "new_contract caller self v g e2 = (c, e3)" and c: "\<And>x. contract = Some x \<Longrightarrow> Gas x = Gas c"
    and r: "Option.bind (run_target run E e3 contract addr input g ro) (\<lambda>r.
      Option.bind (settle i r) (capture_exit E outer g0)) = Some (e', out, left, er)"
  shows "evolves e e' \<and> left \<le> g \<and> (\<forall>x. er = Some x \<longrightarrow> world e' = world e \<and> (left = 0 \<or> x = ErrExecutionReverted))"
proof -
  note n = new_contract_ok [OF n e2]
  obtain e4 rt g4 er4 where x: "run_target run E e3 contract addr input g ro = Some (e4, rt, g4, er4)"
    and y: "Option.bind (settle i (e4, rt, g4, er4)) (capture_exit E outer g0) = Some (e', out, left, er)"
    using r by (auto simp: bind_eq_Some_conv)
  have "depth e1 = depth e" by (rule evolves_depth [OF take_snapshot_evolves(1) [OF snap evolves_refl [OF e]]])
  then have "evolves e1 e4 \<and> g4 \<le> g" using run_target_ok [where ?e0.0 = e1, OF _ _ _ x] run n c by simp
  with call_end [OF e snap _ _ y] show ?thesis by blast
qed

lemma CallCode_fine:
  assumes run: "runner_ok (depth e) run" and e: "sound_evm e"
  shows "call_fine e g (CallCode run E e caller addr input g v)"
  unfolding call_fine_def
proof (intro allI impI)
  fix e' out left err
  assume r: "CallCode run E e caller addr input g v = Some (e', out, left, err)"
  obtain ok e1 where t: "can_transfer E (ref_Address caller) v e = (ok, e1)" by fastforce
  note t' = can_transfer_ok [OF t evolves_refl [OF e]]
  consider "depth_exceeded e" | "\<not> depth_exceeded e" "\<not> ok" | "\<not> depth_exceeded e" ok by blast
  then show "evolves e e' \<and> left \<le> g \<and> (\<forall>er. err = Some er \<longrightarrow> world e' = world e \<and>
      (left = 0 \<or> er = ErrExecutionReverted \<or> refused er \<and> left = g))"
  proof cases
    case 3
    obtain i e2 where s: "take_snapshot e1 = (i, e2)" by fastforce
    have s1: "sound_evm e1" "runner_ok (depth e1) run" using t' evolves_sound evolves_depth run by fastforce+
    note e2 = take_snapshot_evolves(1) [OF s evolves_refl [OF s1(1)]]
    obtain e3 where c: "capture_enter E CALLCODE (ref_Address caller) addr input g (Some v) e2 = Some e3"
      using r 3 t s by (auto simp: CallCode_def Let_def bind_eq_Some_conv)
    obtain ct e4 where n: "new_contract caller (ref_Address caller) (Some v) g e3 = (ct, e4)" by fastforce
    have "Option.bind (run_target run E e4 (Some ct) addr input g False) (\<lambda>r.
        Option.bind (settle i r) (capture_exit E False g)) = Some (e', out, left, err)"
      using r 3 t s c n by (simp add: CallCode_def Let_def)
    from target_call [OF s1(2,1) s capture_enter_ok [OF c evolves_refl [OF evolves_sound [OF e2]]] n _ this] t'
    show ?thesis by (auto intro: evolves_trans)
  qed (use r t t' evolves_refl [OF e] in \<open>auto simp: CallCode_def refused_def\<close>)
qed

lemma DelegateCall_fine:
  assumes run: "runner_ok (depth e) run" and e: "sound_evm e"
  shows "call_fine e g (DelegateCall run E e caller addr input g)"
  unfolding call_fine_def
proof (intro allI impI)
  fix e' out left err
  assume r: "DelegateCall run E e caller addr input g = Some (e', out, left, err)"
  show "evolves e e' \<and> left \<le> g \<and> (\<forall>er. err = Some er \<longrightarrow> world e' = world e \<and>
      (left = 0 \<or> er = ErrExecutionReverted \<or> refused er \<and> left = g))"
  proof (cases "depth_exceeded e")
    case False
    obtain i e2 where s: "take_snapshot e = (i, e2)" by fastforce
    note e2 = evolves_refl [OF evolves_sound [OF take_snapshot_evolves(1) [OF s evolves_refl [OF e]]]]
    obtain e3 where c: "(if Tracer e2 = None then Some e2 else (case caller of AccountRef _ \<Rightarrow> None
        | ContractRef parent \<Rightarrow> capture_enter E DELEGATECALL (ref_Address caller) addr input g (ct_value parent) e2)) = Some e3"
      and r3: "(let (c, e) = new_contract caller (ref_Address caller) None g e3 in
        Option.bind (run_target run E e (AsDelegate c caller) addr input g False) (\<lambda>r.
          Option.bind (settle i r) (capture_exit E False g))) = Some (e', out, left, err)"
      using r False s by (auto simp: DelegateCall_def Let_def bind_eq_Some_conv)
    have e3: "evolves e2 e3"
      using c e2 by (cases "Tracer e2 = None"; cases caller) (auto intro: capture_enter_ok)
    obtain ct e4 where n: "new_contract caller (ref_Address caller) None g e3 = (ct, e4)" by fastforce
    have a: "Gas x = Gas ct" if "AsDelegate ct caller = Some x" for x
      using that by (auto simp: AsDelegate_def split: contract_ref.split_asm)
    have "Option.bind (run_target run E e4 (AsDelegate ct caller) addr input g False) (\<lambda>r.
        Option.bind (settle i r) (capture_exit E False g)) = Some (e', out, left, err)"
      using r3 n by simp
    from target_call [OF run e s e3 n a this] show ?thesis by auto
  qed (use r evolves_refl [OF e] in \<open>auto simp: DelegateCall_def refused_def\<close>)
qed

lemma StaticCall_fine:
  assumes run: "runner_ok (depth e) run" and e: "sound_evm e"
  shows "call_fine e g (StaticCall run E e caller addr input g)"
  unfolding call_fine_def
proof (intro allI impI)
  fix e' out left err
  assume r: "StaticCall run E e caller addr input g = Some (e', out, left, err)"
  show "evolves e e' \<and> left \<le> g \<and> (\<forall>er. err = Some er \<longrightarrow> world e' = world e \<and>
      (left = 0 \<or> er = ErrExecutionReverted \<or> refused er \<and> left = g))"
  proof (cases "depth_exceeded e")
    case False
    obtain i e2 where s: "take_snapshot e = (i, e2)" by fastforce
    note e2 = evolves_refl [OF evolves_sound [OF take_snapshot_evolves(1) [OF s evolves_refl [OF e]]]]
    have e3: "evolves e2 (upd_db e2 (AddBalance (StateDB_of e2) addr 0))"
      by (rule evolves_upd_db [OF e2 grows_writes(2) [OF evolves_grows [OF e2]]])
    obtain e4 where c: "capture_enter E STATICCALL (ref_Address caller) addr input g None
        (upd_db e2 (AddBalance (StateDB_of e2) addr 0)) = Some e4"
      using r False s by (auto simp: StaticCall_def Let_def bind_eq_Some_conv)
    obtain ct e5 where n: "new_contract caller addr (Some 0) g e4 = (ct, e5)" by fastforce
    have "Option.bind (run_target run E e5 (Some ct) addr input g True) (\<lambda>r.
        Option.bind (settle i r) (capture_exit E False g)) = Some (e', out, left, err)"
      using r False s c n by (simp add: StaticCall_def Let_def)
    from target_call [OF run e s capture_enter_ok [OF c e3] n _ this] show ?thesis by auto
  qed (use r evolves_refl [OF e] in \<open>auto simp: StaticCall_def refused_def\<close>)
qed

text \<open>The code of a call: a precompile, nothing, or the contract's code.\<close>

lemma call_body_ok:
  assumes run: "runner_ok (depth e0) run" and e: "evolves e0 e"
    and r: "(case p of
        Some p \<Rightarrow> Some (e, RunPrecompiledContract (ext E) p input g)
      | None \<Rightarrow> reading (\<lambda>d. GetCode d addr) (\<lambda>code e.
          if slice_of code = [] then Some (e, [], g, None)
          else let (c, e) = new_contract caller addr (Some v) g e
               in reading (\<lambda>d. GetCodeHash d addr) (\<lambda>h e. run_contract run e c addr h code input False) e) e) =
      Some (e', out, left, err)"
  shows "evolves e0 e' \<and> left \<le> g"
proof (cases p)
  case (Some q)
  with r have "RunPrecompiledContract (ext E) q input g = (out, left, err)" "e' = e" by auto
  with e RunPrecompiled_le show ?thesis by blast
next
  case None
  obtain code d1 where 1: "GetCode (StateDB_of e) addr = (code, d1)" by fastforce
  let ?e1 = "upd_db e d1"
  have e1: "evolves e0 ?e1" using grows_reads(6) [OF 1 evolves_grows [OF e]] by (rule evolves_upd_db [OF e])
  show ?thesis
  proof (cases "slice_of code = []")
    case True
    with r None 1 e1 show ?thesis by (simp add: reading_def)
  next
    case False
    obtain c e2 where n: "new_contract caller addr (Some v) g ?e1 = (c, e2)" by fastforce
    note n' = new_contract_ok [OF n e1]
    obtain h d2 where 2: "GetCodeHash (StateDB_of e2) addr = (h, d2)" by fastforce
    have e3: "evolves e0 (upd_db e2 d2)"
      using n' grows_reads(5) [OF 2 evolves_grows] by (blast intro: evolves_upd_db)
    have "run_contract run (upd_db e2 d2) c addr h code input False = Some (e', out, left, err)"
      using r None 1 2 n False by (simp add: reading_def)
    with run_contract_ok [where run = run, OF run e3] n' show ?thesis by metis
  qed
qed

lemma Call_fine:
  assumes run: "runner_ok (depth e) run" and e: "sound_evm e"
  shows "call_fine e g (Call run E e caller addr input g v)"
  unfolding call_fine_def
proof (intro allI impI)
  fix e' out left err
  assume r: "Call run E e caller addr input g v = Some (e', out, left, err)"
  note e0 = evolves_refl [OF e]
  obtain ok e1 where t: "(if v \<noteq> 0 then can_transfer E (ref_Address caller) v e else (True, e)) = (ok, e1)" by fastforce
  have t': "evolves e e1 \<and> world e1 = world e"
    using t can_transfer_ok [OF _ e0] e0 by (auto split: if_split_asm)
  consider "depth_exceeded e" | "\<not> depth_exceeded e" "\<not> ok" | "\<not> depth_exceeded e" ok by blast
  then show "evolves e e' \<and> left \<le> g \<and> (\<forall>er. err = Some er \<longrightarrow> world e' = world e \<and>
      (left = 0 \<or> er = ErrExecutionReverted \<or> refused er \<and> left = g))"
  proof cases
    case 3
    obtain i e2 where s: "take_snapshot e1 = (i, e2)" by fastforce
    have s1: "sound_evm e1" and "depth e1 = depth e" using t' evolves_sound evolves_depth by blast+
    note e2' = take_snapshot_evolves(1) [OF s evolves_refl [OF s1]]
    note e2 = evolves_refl [OF evolves_sound [OF e2']]
    have d2: "runner_ok (depth e2) run" using run evolves_depth [OF e2'] \<open>depth e1 = depth e\<close> by simp
    obtain ex d3 where x: "Exist (StateDB_of e2) addr = (ex, d3)" by fastforce
    let ?e3 = "upd_db e2 d3"
    have e3: "evolves e2 ?e3" by (rule evolves_upd_db [OF e2 grows_reads(1) [OF x evolves_grows [OF e2]]])
    let ?top = "depth e2 = 0"
    show ?thesis
    proof (cases "\<not> ex \<and> precompile E addr = None \<and> ruleEIP158 (chainRules E) \<and> v = 0")
      case True
      then obtain e4 where b: "capture_begin E False CALL (ref_Address caller) addr input g v ?e3 = Some e4"
        and y: "Option.bind (capture_exit E ?top 0 (e4, [], 0, None)) (\<lambda>(e, _). Some (e, [], g, None)) = Some (e', out, left, err)"
        using r 3 t s x by (auto simp: Call_def Let_def reading_def bind_eq_Some_conv)
      from y obtain z where "capture_exit E ?top 0 (e4, [], 0, None) = Some (e', z)" "left = g" "err = None"
        by (auto simp: bind_eq_Some_conv)
      moreover obtain z1 z2 z3 where "z = (z1, z2, z3)" by (cases z)
      ultimately have "evolves e2 e'" "left = g" "err = None"
        using capture_exit_ok [OF _ capture_begin_ok [OF b e3]] by blast+
      with t' e2' show ?thesis by (auto intro: evolves_trans)
    next
      case False
      let ?e4 = "if \<not> ex then upd_db ?e3 (CreateAccount (StateDB_of ?e3) addr) else ?e3"
      have e4: "evolves e2 ?e4"
        using evolves_upd_db [OF e3 grows_writes(1) [OF evolves_grows [OF e3]]] e3 by (cases ex) simp_all
      let ?e5 = "upd_db ?e4 (bc_Transfer (Context E) (StateDB_of ?e4) (ref_Address caller) addr v)"
      have e5: "evolves e2 ?e5" by (rule evolves_upd_db [OF e4 Transfer_grows [OF evolves_grows [OF e4]]])
      obtain e6 where b: "capture_begin E False CALL (ref_Address caller) addr input g v ?e5 = Some e6"
        and y: "Option.bind (case precompile E addr of
              Some p \<Rightarrow> Some (e6, RunPrecompiledContract (ext E) p input g)
            | None \<Rightarrow> reading (\<lambda>d. GetCode d addr) (\<lambda>code e.
                if slice_of code = [] then Some (e, [], g, None)
                else let (c, e) = new_contract caller addr (Some v) g e
                     in reading (\<lambda>d. GetCodeHash d addr) (\<lambda>h e. run_contract run e c addr h code input False) e) e6)
          (\<lambda>r. Option.bind (settle i r) (capture_exit E ?top g)) = Some (e', out, left, err)"
        using r 3 t s x False by (auto simp: Call_def Let_def reading_def bind_eq_Some_conv)
      from y obtain e7 rt g7 er7 where
        c: "(case precompile E addr of
              Some p \<Rightarrow> Some (e6, RunPrecompiledContract (ext E) p input g)
            | None \<Rightarrow> reading (\<lambda>d. GetCode d addr) (\<lambda>code e.
                if slice_of code = [] then Some (e, [], g, None)
                else let (c, e) = new_contract caller addr (Some v) g e
                     in reading (\<lambda>d. GetCodeHash d addr) (\<lambda>h e. run_contract run e c addr h code input False) e) e6) =
            Some (e7, rt, g7, er7)"
        and w: "Option.bind (settle i (e7, rt, g7, er7)) (capture_exit E ?top g) = Some (e', out, left, err)"
        by (auto simp: bind_eq_Some_conv)
      from call_end [OF s1 s conjunct1 [OF call_body_ok [OF d2 capture_begin_ok [OF b e5] c]]
          conjunct2 [OF call_body_ok [OF d2 capture_begin_ok [OF b e5] c]] w] t'
      show ?thesis by (auto intro: evolves_trans)
    qed
  qed (use r t t' e0 in \<open>auto simp: Call_def refused_def\<close>)
qed

end

section \<open>Creations\<close>

text \<open>What outlives a failed creation: the nonce of the creator and, from Berlin on, the warm address.\<close>

definition create_floor :: "rules \<Rightarrow> address \<Rightarrow> address \<Rightarrow> world \<Rightarrow> world" where
  "create_floor r creator addr w =
     (let n = w_read w creator 0 (\<lambda>v. sa_Nonce (av_data v));
          w = w_upd (w_ensure w creator) creator (v_setNonce (n + 1))
      in if ruleBerlin r then w\<lparr>w_accessList := fst (AddAddress (w_accessList w) addr)\<rparr> else w)"

lemma GetNonce_reads:
  assumes "GetNonce d a = (n, d')" "sdb_inv d"
  shows "n = w_read (world_of d) a 0 (\<lambda>v. sa_Nonce (av_data v))"
  using exec_op_agrees [OF assms(2), of "OpGetNonce a"] assms(1) by (auto simp: agrees_def ret_def)

lemma create_floor_ok:
  assumes e: "evolves e0 e" and n: "GetNonce (StateDB_of e) a = (n, d)"
  shows "evolves e0 (upd_db (upd_db e d) (SetNonce d a (n + 1))) \<and>
    world (upd_db (upd_db e d) (SetNonce d a (n + 1))) = w_upd (w_ensure (world e) a) a
      (v_setNonce (w_read (world e) a 0 (\<lambda>v. sa_Nonce (av_data v)) + 1))"
proof -
  note inv = grows_inv [OF evolves_grows [OF e]]
  have g: "grows (StateDB_of e0) d" by (rule grows_reads(4) [OF n evolves_grows [OF e]])
  have "world_of d = world e" using reads_peek(4) [OF inv n] by (simp add: peeks_def world_def)
  moreover have "world_of (SetNonce d a (n + 1)) = w_upd (w_ensure (world_of d) a) a (v_setNonce (n + 1))"
    using SetNonce_implements [OF grows_inv [OF g]] by (simp add: implements_def)
  moreover have "n = w_read (world e) a 0 (\<lambda>v. sa_Nonce (av_data v))" using GetNonce_reads [OF n inv] by (simp add: world_def)
  ultimately show ?thesis
    using evolves_upd_db [OF evolves_upd_db [OF e g] grows_writes(5) [OF g]] by (simp add: world_def)
qed

lemma AddAddress_ok:
  assumes "evolves e0 e"
  shows "evolves e0 (upd_db e (AddAddressToAccessList (StateDB_of e) a)) \<and>
    world (upd_db e (AddAddressToAccessList (StateDB_of e) a)) =
      (world e)\<lparr>w_accessList := fst (AddAddress (w_accessList (world e)) a)\<rparr>"
proof -
  have "agrees (StateDB_of e) (exec_op (OpAddAddress a) (StateDB_of e)) (spec_op (OpAddAddress a) (world_of (StateDB_of e)))"
    by (rule exec_op_agrees [OF grows_inv [OF evolves_grows [OF assms]]])
  then show ?thesis
    using evolves_upd_db [OF assms grows_writes(13) [OF evolves_grows [OF assms]]] by (simp add: agrees_def world_def)
qed

text \<open>
  The reasons for which a creation is refused before it starts, and what a creation leaves: a refused
  one changes nothing and gives all gas back; one that was started and failed leaves the world with
  \<open>create_floor\<close> only, and no gas unless the init code reverted.  Before Homestead a creation that
  cannot pay for storing its code is no failure in this sense: the code keeps its changes.
\<close>

definition create_refused :: "'t env \<Rightarrow> address \<Rightarrow> int \<Rightarrow> 't evm \<Rightarrow> vm_error option" where
  "create_refused E creator v e =
     (let n = w_read (world e) creator 0 (\<lambda>v. sa_Nonce (av_data v))
      in if depth_exceeded e then Some ErrDepth
         else if \<not> fst (can_transfer E creator v e) then Some ErrInsufficientBalance
         else if n + 1 < n then Some ErrNonceUintOverflow else None)"

definition create_left :: "rules \<Rightarrow> vm_error \<Rightarrow> bool" where
  "create_left r er \<longleftrightarrow> er = ErrCodeStoreOutOfGas \<and> \<not> ruleHomestead r"

definition create_fine :: "'t env \<Rightarrow> address \<Rightarrow> int \<Rightarrow> address \<Rightarrow> 't evm \<Rightarrow> u64 \<Rightarrow>
    ('t evm \<times> bytes \<times> address \<times> u64 \<times> vm_error option) option \<Rightarrow> bool" where
  "create_fine E creator v addr e g r \<longleftrightarrow> (\<forall>e' out a left err. r = Some (e', out, a, left, err) \<longrightarrow>
     evolves e e' \<and> left \<le> g \<and>
     (case create_refused E creator v e of
        Some er \<Rightarrow> world e' = world e \<and> out = [] \<and> a = 0 \<and> left = g \<and> err = Some er
      | None \<Rightarrow> \<forall>er. err = Some er \<and> \<not> create_left (chainRules E) er \<longrightarrow>
          world e' = create_floor (chainRules E) creator addr (world e) \<and> (left = 0 \<or> er = ErrExecutionReverted)))"

lemma create_fine_ok: "create_fine E creator v addr e g r \<Longrightarrow> create_ok e g r"
  unfolding create_fine_def create_ok_def by blast

lemma store_code_ok:
  assumes "store_code E addr (e, c, rt, err) = (e', c', rt', err')" "evolves e0 e"
  shows "evolves e0 e' \<and> Gas c' \<le> Gas c"
proof -
  have "Gas (fst (UseGas c g)) \<le> Gas c" for g
    by (rule UseGas_cases [of c g]) (auto simp: word_le_nat_alt)
  then show ?thesis
    using assms by (auto simp: store_code_def Let_def intro: evolves_upd_db db_ops evolves_grows split: if_split_asm prod.split_asm)
      (metis fst_conv)+
qed

lemma settle_create_ok:
  assumes "sound_evm e" "take_snapshot e = (i, e1)" "evolves e1 e2"
    and r: "settle_create E i (e2, c, rt, err) = Some (e3, c', rt', err')"
  shows "evolves e e3 \<and> Gas c' \<le> Gas c \<and> err' = err \<and>
    (\<forall>er. err = Some er \<and> \<not> create_left (chainRules E) er \<longrightarrow>
       world e3 = world e \<and> (Gas c' = 0 \<or> er = ErrExecutionReverted))"
proof (cases "err \<noteq> None \<and> (ruleHomestead (chainRules E) \<or> err \<noteq> Some ErrCodeStoreOutOfGas)")
  case True
  have "Gas (fst (UseGas c (Gas c))) = 0" by (simp add: UseGas_def)
  with True revert_snapshot [OF assms(1-3)] r show ?thesis by (auto simp: settle_create_def split: if_split_asm)
next
  case False
  have "evolves e e2" by (rule evolves_trans [OF take_snapshot_evolves(1) [OF assms(2) evolves_refl [OF assms(1)]] assms(3)])
  with False r show ?thesis by (auto simp: settle_create_def create_left_def)
qed

context evm_host begin

text \<open>From the snapshot on: the account, the init code and what is kept of it.\<close>

lemma create_body_ok:
  assumes run: "runner_ok (depth e) run" and e: "sound_evm e" and snap: "take_snapshot e = (i, e1)"
    and e2: "evolves e1 e2" and n: "new_contract caller addr (Some v) g e2 = (c, e3)"
    and b: "capture_begin E True typ (ref_Address caller) addr code g v e3 = Some e4"
    and r: "do {
      r \<leftarrow> run e4 (SetCodeOptionalHash c (Some addr) code h) [] False;
      (e, c, rt, err) \<leftarrow> settle_create E i (store_code E addr r);
      (e, _) \<leftarrow> capture_exit E (depth e = 0) g (e, rt, Gas c, err);
      Some (e, rt, addr, Gas c, err) } = Some (e', out, a, left, er)"
  shows "evolves e e' \<and> left \<le> g \<and>
    (\<forall>x. er = Some x \<and> \<not> create_left (chainRules E) x \<longrightarrow>
       world e' = world e \<and> (left = 0 \<or> x = ErrExecutionReverted))"
proof -
  note n' = new_contract_ok [OF n e2]
  have e4: "evolves e1 e4" using capture_begin_ok [OF b] n' by blast
  have d: "depth e1 = depth e" by (rule evolves_depth [OF take_snapshot_evolves(1) [OF snap evolves_refl [OF e]]])
  from r obtain e5 c5 rt5 er5 where 5: "run e4 (SetCodeOptionalHash c (Some addr) code h) [] False = Some (e5, c5, rt5, er5)"
    by (auto simp: bind_eq_Some_conv)
  obtain e6 c6 rt6 er6 where 6: "store_code E addr (e5, c5, rt5, er5) = (e6, c6, rt6, er6)" by (metis prod_cases4)
  from r 5 6 obtain w where w: "settle_create E i (e6, c6, rt6, er6) = Some w"
    by (cases "settle_create E i (e6, c6, rt6, er6)") auto
  obtain e7 c7 rt7 er7 where w7: "w = (e7, c7, rt7, er7)" by (metis prod_cases4)
  note 7 = w [unfolded w7]
  have x: "do { (e, _) \<leftarrow> capture_exit E (depth e7 = 0) g (e7, rt7, Gas c7, er7); Some (e, rt7, addr, Gas c7, er7) } =
      Some (e', out, a, left, er)" using r by (simp only: 5 6 7 Option.bind.simps prod.case)
  from x obtain q where q: "capture_exit E (depth e7 = 0) g (e7, rt7, Gas c7, er7) = Some q"
    by (cases "capture_exit E (depth e7 = 0) g (e7, rt7, Gas c7, er7)") auto
  obtain e8 z where z8: "q = (e8, z)" by (cases q)
  from x q z8 have 8: "capture_exit E (depth e7 = 0) g (e7, rt7, Gas c7, er7) = Some (e', z)"
    "left = Gas c7" "er = er7" by auto
  have "run_ok e4 (SetCodeOptionalHash c (Some addr) code h) (run e4 (SetCodeOptionalHash c (Some addr) code h) [] False)"
    using run evolves_sound [OF e4] evolves_depth [OF e4] d by (simp add: runner_ok_def)
  with 5 n' have "evolves e4 e5" "Gas c5 \<le> g" by (auto simp: run_ok_def SetCodeOptionalHash_def)
  with store_code_ok [OF 6 evolves_trans [OF e4]] have e6: "evolves e1 e6" "Gas c6 \<le> g" by auto
  from settle_create_ok [OF e snap e6(1) 7] e6(2) have e7: "evolves e e7" "Gas c7 \<le> g" "er7 = er6"
    "\<And>x. er6 = Some x \<Longrightarrow> \<not> create_left (chainRules E) x \<Longrightarrow>
       world e7 = world e \<and> (Gas c7 = 0 \<or> x = ErrExecutionReverted)" by auto
  obtain z1 z2 z3 where z: "z = (z1, z2, z3)" by (cases z)
  from capture_exit_ok [OF 8(1) [unfolded z] e7(1)] 8(2,3) e7 show ?thesis by auto
qed

lemma create_fine:
  assumes run: "runner_ok (depth e) run" and e: "sound_evm e"
  shows "create_fine E (ref_Address caller) v addr e g (create run E e caller code h g v addr typ)"
  unfolding create_fine_def
proof (intro allI impI)
  fix e' out a left err
  assume r: "create run E e caller code h g v addr typ = Some (e', out, a, left, err)"
  let ?a = "ref_Address caller"
  let ?goal = "evolves e e' \<and> left \<le> g \<and> (case create_refused E ?a v e of
        Some er \<Rightarrow> world e' = world e \<and> out = [] \<and> a = 0 \<and> left = g \<and> err = Some er
      | None \<Rightarrow> \<forall>er. err = Some er \<and> \<not> create_left (chainRules E) er \<longrightarrow>
          world e' = create_floor (chainRules E) ?a addr (world e) \<and> (left = 0 \<or> er = ErrExecutionReverted))"
  obtain ok e1 where t: "can_transfer E ?a v e = (ok, e1)" by fastforce
  note t' = can_transfer_ok [OF t evolves_refl [OF e]]
  note e1 = conjunct1 [OF t']
  obtain n d where n: "GetNonce (StateDB_of e1) ?a = (n, d)" by fastforce
  have nw: "w_read (world e) ?a 0 (\<lambda>v. sa_Nonce (av_data v)) = n"
    using GetNonce_reads [OF n grows_inv [OF evolves_grows [OF e1]]] t' by (simp add: world_def)
  note refused = create_refused_def [of E ?a v e, unfolded nw t fst_conv]
  have d: "evolves e (upd_db e1 d) \<and> world (upd_db e1 d) = world e"
    using reads_peek(4) [OF grows_inv [OF evolves_grows [OF e1]] n] t'
      evolves_upd_db [OF e1 grows_reads(4) [OF n evolves_grows [OF e1]]] by (simp add: peeks_def world_def)
  consider "depth_exceeded e" | "\<not> depth_exceeded e" "\<not> ok" | "\<not> depth_exceeded e" ok "n + 1 < n"
    | "\<not> depth_exceeded e" ok "\<not> n + 1 < n" by blast
  then show ?goal
  proof cases
    case 4
    let ?e2 = "upd_db (upd_db e1 d) (SetNonce d ?a (n + 1))"
    let ?e3 = "if ruleBerlin (chainRules E) then upd_db ?e2 (AddAddressToAccessList (StateDB_of ?e2) addr) else ?e2"
    note e2 = create_floor_ok [OF e1 n]
    have e3: "evolves e ?e3" "world ?e3 = create_floor (chainRules E) ?a addr (world e)"
      using e2 AddAddress_ok [OF conjunct1 [OF e2], of addr] t' by (simp_all add: create_floor_def Let_def)
    obtain ch d4 where ch: "GetCodeHash (StateDB_of ?e3) addr = (ch, d4)" by fastforce
    obtain m d5 where m: "GetNonce d4 addr = (m, d5)" by fastforce
    let ?e5 = "upd_db (upd_db ?e3 d4) d5"
    note g3 = evolves_grows [OF e3(1)]
    note g4 = grows_reads(5) [OF ch g3]
    have e5: "evolves e ?e5" by (rule evolves_upd_db [OF evolves_upd_db [OF e3(1) g4] grows_reads(4) [OF m g4]])
    have w5: "world ?e5 = create_floor (chainRules E) ?a addr (world e)"
      using reads_peek(5) [OF grows_inv [OF g3] ch] reads_peek(4) [OF grows_inv [OF g4] m] e3(2)
      by (simp add: peeks_def world_def)
    show ?thesis
    proof (cases "m \<noteq> 0 \<or> (ch \<noteq> 0 \<and> ch \<noteq> EmptyCodeHash (db (StateDB_of ?e5)))")
      case True
      have "e' = ?e5" "left = 0"
        using r 4 t n ch m True by (simp_all add: create_def reading_def Let_def split: if_split_asm)
      with e5 w5 4 show ?thesis by (auto simp: refused Let_def)
    next
      case False
      obtain i e6 where s: "take_snapshot ?e5 = (i, e6)" by fastforce
      have s5: "sound_evm ?e5" and d5: "runner_ok (depth ?e5) run" using evolves_sound [OF e5] evolves_depth [OF e5] run by simp_all
      note e6 = evolves_refl [OF evolves_sound [OF take_snapshot_evolves(1) [OF s evolves_refl [OF s5]]]]
      let ?e7 = "upd_db e6 (CreateAccount (StateDB_of e6) addr)"
      let ?e8 = "if ruleEIP158 (chainRules E) then upd_db ?e7 (SetNonce (StateDB_of ?e7) addr 1) else ?e7"
      let ?e9 = "upd_db ?e8 (bc_Transfer (Context E) (StateDB_of ?e8) ?a addr v)"
      have e7: "evolves e6 ?e7" by (rule evolves_upd_db [OF e6 grows_writes(1) [OF evolves_grows [OF e6]]])
      have e8: "evolves e6 ?e8"
        using evolves_upd_db [OF e7 grows_writes(5) [OF evolves_grows [OF e7]]] e7 by (cases "ruleEIP158 (chainRules E)") simp_all
      have e9: "evolves e6 ?e9" by (rule evolves_upd_db [OF e8 Transfer_grows [OF evolves_grows [OF e8]]])
      obtain c e10 where nc: "new_contract caller addr (Some v) g ?e9 = (c, e10)" by fastforce
      obtain e11 where b: "capture_begin E True typ ?a addr code g v e10 = Some e11"
        and y: "do {
          r \<leftarrow> run e11 (SetCodeOptionalHash c (Some addr) code h) [] False;
          (e, c, rt, err) \<leftarrow> settle_create E i (store_code E addr r);
          (e, _) \<leftarrow> capture_exit E (depth e = 0) g (e, rt, Gas c, err);
          Some (e, rt, addr, Gas c, err) } = Some (e', out, a, left, err)"
        using r 4 t n ch m False s nc
        by (cases "capture_begin E True typ ?a addr code g v e10") (simp_all add: create_def reading_def Let_def split: if_split_asm)
      from create_body_ok [OF d5 s5 s e9 nc b y] e5 w5 4 show ?thesis by (auto simp: refused Let_def intro: evolves_trans)
    qed
  next
    case 1
    then have "create_refused E ?a v e = Some ErrDepth" by (simp add: refused Let_def)
    with r 1 evolves_refl [OF e] show ?thesis by (auto simp: create_def split: option.split)
  qed (use r t t' n d in \<open>auto simp: create_def reading_def refused Let_def\<close>)
qed

end

end
