(* ===== verification/Interpreter_Props.thy ===== *)
theory Interpreter_Props
  imports Frame_Calls
begin

text \<open>
  The interpreter as a whole: what one iteration keeps, that every run ends, and what a call or a
  creation leaves of the state, for the tables that \<open>NewEVMInterpreter\<close> chooses.
\<close>

section \<open>The stack\<close>

lemma exec_stack:
  assumes "stack_local n k f" "n \<le> length (Stack s)" "f K E (e, s) = Some ((e', s'), out, None)"
  shows "length (Stack s') = k + (length (Stack s) - n)"
proof -
  let ?xs = "take n (Stack s)" and ?ys = "drop n (Stack s)"
  have s: "s\<lparr>Stack := ?xs @ ?ys\<rparr> = s" by simp
  have l: "length ?xs = n" using assms(2) by simp
  from assms(1) l have a: "f K E (e, s\<lparr>Stack := ?xs @ ?ys\<rparr>) = add_below ?ys (f K E (e, s\<lparr>Stack := ?xs\<rparr>))"
    and b: "\<And>e' s' rt. f K E (e, s\<lparr>Stack := ?xs\<rparr>) = Some ((e', s'), rt, None) \<Longrightarrow> length (Stack s') = k"
    unfolding stack_local_def by blast+
  from a assms(3) obtain e1 s1 where "f K E (e, s\<lparr>Stack := ?xs\<rparr>) = Some ((e1, s1), out, None)" "s' = s1\<lparr>Stack := Stack s1 @ ?ys\<rparr>"
    unfolding s by (cases "f K E (e, s\<lparr>Stack := ?xs\<rparr>)") (auto simp: add_below_def)
  with b show ?thesis by simp
qed

lemma dispatch_stack:
  assumes x: "op_sound (jt b)" "op_pops (jt b) \<le> length (Stack s)"
    and d: "dispatch K E jt b (e, s) = Some ((e', s'), out, None)"
  shows "length (Stack s') = op_gives (jt b) + (length (Stack s) - op_pops (jt b))"
proof -
  have ex: "\<And>c e e' s' out. execute (jt c) K E (e, s) = Some ((e', s'), out, None) \<Longrightarrow> b = c \<Longrightarrow>
      length (Stack s') = op_gives (jt c) + (length (Stack s) - op_pops (jt c))"
    "\<And>c h e e' s' out. h K E (e, s) = Some ((e', s'), out, None) \<Longrightarrow> executeHook (jt c) = Some h \<Longrightarrow> b = c \<Longrightarrow>
      length (Stack s') = op_gives (jt c) + (length (Stack s) - op_pops (jt c))"
    using x exec_stack unfolding op_sound_def by blast+
  show ?thesis
    using d unfolding dispatch_def opcodeExecutionHook_def
    by (auto simp: bind_eq_Some_conv Let_def dest: ex split: if_split_asm)
qed

definition stack_ok :: "'t frame \<Rightarrow> bool" where
  "stack_ok p \<longleftrightarrow> int (length (Stack (snd p))) \<le> StackLimit"

lemma perform_stack:
  assumes "op_sound (jt (si_op i))" "op_minStack (jt (si_op i)) \<le> int (length (Stack s))"
    "int (length (Stack s)) \<le> op_maxStack (jt (si_op i))" "perform K E jt i (e, s) = Some (Next p)"
  shows "stack_ok p"
proof -
  let ?x = "jt (si_op i)"
  obtain e' s' out where d: "dispatch K E jt (si_op i) (e, s) = Some ((e', s'), out, None)" "p = (e', s'\<lparr>sc_pc := sc_pc s' + 1\<rparr>)"
    using assms(4) by (auto simp: perform_dispatch split: if_split_asm)
  have m: "0 \<le> op_minStack ?x" "op_maxStack ?x \<le> StackLimit + op_minStack ?x" using assms(1) by (auto simp: op_sound_def)
  have "op_pops ?x \<le> length (Stack s)" using assms(2) by (simp add: op_pops_def)
  from dispatch_stack [OF assms(1) this d(1)] this m assms(3) show ?thesis
    by (simp add: d(2) stack_ok_def op_pops_def op_gives_def)
qed

definition next_ok :: "'t outcome option \<Rightarrow> bool" where
  "next_ok r \<longleftrightarrow> (\<forall>p. r = Some (Next p) \<longrightarrow> stack_ok p)"

lemma next_ok_simps [simp]:
  "next_ok None" "next_ok (Some (Halt q out err i))"
  "next_ok (if b then r1 else r2) \<longleftrightarrow> (b \<longrightarrow> next_ok r1) \<and> (\<not> b \<longrightarrow> next_ok r2)"
  "next_ok (case x of (u, v) \<Rightarrow> h u v) \<longleftrightarrow> (\<forall>u v. x = (u, v) \<longrightarrow> next_ok (h u v))"
  "next_ok (case z of Inl u \<Rightarrow> h1 u | Inr v \<Rightarrow> h2 v) \<longleftrightarrow>
     (\<forall>u. z = Inl u \<longrightarrow> next_ok (h1 u)) \<and> (\<forall>v. z = Inr v \<longrightarrow> next_ok (h2 v))"
  "next_ok (case y of None \<Rightarrow> k1 | Some w \<Rightarrow> k2 w) \<longleftrightarrow>
     (y = None \<longrightarrow> next_ok k1) \<and> (\<forall>w. y = Some w \<longrightarrow> next_ok (k2 w))"
  by (auto simp: next_ok_def split: prod.split sum.split option.split)

lemma next_ok_bind [simp]: "next_ok (Option.bind y f) \<longleftrightarrow> (\<forall>x. y = Some x \<longrightarrow> next_ok (f x))"
  by (cases y) auto

lemma perform_next_ok:
  "table_sound jt \<Longrightarrow> op_minStack (jt (si_op i)) \<le> int (st_len (Stack s)) \<Longrightarrow>
   int (st_len (Stack s)) \<le> op_maxStack (jt (si_op i)) \<Longrightarrow> next_ok (perform K E jt i (e, s))"
  unfolding next_ok_def table_sound_def st_len_def using perform_stack by blast

lemma run_dynamic_next_ok:
  assumes "table_sound jt" "op_minStack (jt (si_op i)) \<le> int (st_len (Stack s))"
    "int (st_len (Stack s)) \<le> op_maxStack (jt (si_op i))"
  shows "next_ok (run_dynamic K E jt i g (e, s))"
  by (simp add: run_dynamic_def Let_def perform_next_ok assms)

lemma run_step_stack:
  assumes "table_sound jt" "run_step K E jt (e, s) = Some (Next p)"
  shows "stack_ok p"
proof -
  have "next_ok (run_step K E jt (e, s))"
    by (auto simp: run_step_def Let_def not_less intro!: perform_next_ok run_dynamic_next_ok assms(1))
  with assms(2) show ?thesis by (simp add: next_ok_def)
qed

section \<open>The unrolled recursion\<close>

context evm_host begin

lemma Create_fine:
  assumes run: "runner_ok (depth e) run" and e: "sound_evm e"
    and r: "Create run E e caller code g v = Some r"
  shows "\<exists>addr e1. CreateAddress (db (StateDB_of e)) (ref_Address caller)
        (w_read (world e) (ref_Address caller) 0 (\<lambda>v. sa_Nonce (av_data v))) = Some addr \<and>
      evolves e e1 \<and> world e1 = world e \<and>
      create_fine E (ref_Address caller) v addr e1 g (Some r)"
proof -
  obtain n d where n: "GetNonce (StateDB_of e) (ref_Address caller) = (n, d)" by fastforce
  let ?e1 = "upd_db e d"
  note g = evolves_grows [OF evolves_refl [OF e]]
  have e1: "evolves e ?e1" by (rule evolves_upd_db [OF evolves_refl [OF e] grows_reads(4) [OF n g]])
  have w: "world ?e1 = world e" using reads_peek(4) [OF grows_inv [OF g] n] by (simp add: peeks_def world_def)
  have nw: "n = w_read (world e) (ref_Address caller) 0 (\<lambda>v. sa_Nonce (av_data v))"
    using GetNonce_reads [OF n grows_inv [OF g]] by (simp add: world_def)
  have db: "db d = db (StateDB_of e)" using grows_db [OF grows_reads(4) [OF n g]] by simp
  from r n db obtain addr where a: "CreateAddress (db (StateDB_of e)) (ref_Address caller) n = Some addr"
    and c: "create run E ?e1 caller code 0 g v addr CREATE = Some r"
    by (auto simp: Create_def reading_def bind_eq_Some_conv)
  have "create_fine E (ref_Address caller) v addr ?e1 g (create run E ?e1 caller code 0 g v addr CREATE)"
    by (rule create_fine) (use run evolves_sound [OF e1] in simp_all)
  with a c e1 w nw show ?thesis by auto
qed

lemma Create_ok:
  assumes "runner_ok (depth e) run" "sound_evm e"
  shows "create_ok e g (Create run E e caller code g v)"
  unfolding create_ok_def
proof (intro allI impI)
  fix e' out a left err
  assume "Create run E e caller code g v = Some (e', out, a, left, err)"
  from Create_fine [OF assms this] obtain addr e1 where e1: "evolves e e1"
    and f: "create_fine E (ref_Address caller) v addr e1 g (Some (e', out, a, left, err))" by blast
  from create_fine_ok [OF f] e1 show "evolves e e' \<and> left \<le> g"
    unfolding create_ok_def by (blast intro: evolves_trans)
qed

lemma Create2_fine:
  assumes "runner_ok (depth e) run" "sound_evm e"
  shows "create_fine E (ref_Address caller) v (CreateAddress2 (db (StateDB_of e)) (ref_Address caller) salt
      (keccak (db (StateDB_of e)) code)) e g (Create2 run E e caller code g v salt)"
  unfolding Create2_def Let_def by (rule create_fine [OF assms])

lemma callees_of_ok:
  assumes "runner_ok d run"
  shows "callees_ok d (callees_of run E)"
  unfolding callees_ok_def callees_of_def callees.simps
  by (intro allI impI conjI;
      (rule call_fine_ok [OF Call_fine] call_fine_ok [OF CallCode_fine] call_fine_ok [OF DelegateCall_fine]
        call_fine_ok [OF StaticCall_fine] Create_ok create_fine_ok [OF Create2_fine]);
      use assms in auto)

lemma runner_ok_none: "runner_ok d no_runner"
  by (simp add: runner_ok_def run_ok_def no_runner_def)

lemma run_at_ok:
  assumes "table_fair E jt"
  shows "runner_ok d (run_at n no_runner E jt)"
proof (induction n arbitrary: d)
  case (Suc n)
  show ?case by (simp, rule Run_ok [OF assms callees_of_ok [OF Suc]])
qed (simp add: runner_ok_none)

lemma EVM_run_ok: "table_fair E jt \<Longrightarrow> runner_ok d (EVM_run E jt)"
  unfolding EVM_run_def by (rule run_at_ok)

lemma EVM_Call_fine:
  "table_fair E jt \<Longrightarrow> sound_evm e \<Longrightarrow> call_fine e g (EVM_Call E jt e caller addr input g v)"
  unfolding EVM_Call_def by (rule Call_fine [OF EVM_run_ok])

lemma EVM_Create_ok:
  "table_fair E jt \<Longrightarrow> sound_evm e \<Longrightarrow> create_ok e g (EVM_Create E jt e caller code g v)"
  unfolding EVM_Create_def by (rule Create_ok [OF EVM_run_ok])

lemma EVM_Create_fine:
  assumes "table_fair E jt" "sound_evm e" "EVM_Create E jt e caller code g v = Some r"
  shows "\<exists>addr e1. CreateAddress (db (StateDB_of e)) (ref_Address caller)
        (w_read (world e) (ref_Address caller) 0 (\<lambda>v. sa_Nonce (av_data v))) = Some addr \<and>
      evolves e e1 \<and> world e1 = world e \<and> create_fine E (ref_Address caller) v addr e1 g (Some r)"
  by (rule Create_fine [OF EVM_run_ok [OF assms(1)] assms(2) assms(3) [unfolded EVM_Create_def]])

end

end
