(* ===== verification/TxTracer.thy ===== *)
theory TxTracer
  imports CoreEvm Interpreter_Props "HOL-Library.AList"
begin

text \<open>
  \<^verbatim>\<open>eth/tracers/txTracer/txTracer.go\<close> with the data of \<^verbatim>\<open>hunter/trace/tx.go\<close>: the tracer that
  records the tree of calls of a transaction and, for the calls that involve a target address, the
  accounts before and after.  The call frames live in a store and the tracer keeps their indices, as
  the code keeps pointers; a Go map is an association list, and \<open>ord\<close> is the order in which
  \<open>range\<close> visits its keys.
\<close>

section \<open>The trace (hunter/trace/tx.go)\<close>

record trace_log =
  tl_Address :: address
  tl_Topics :: "hash list"
  tl_Data :: bytes
  tl_Position :: nat

record jump_info =
  ji_Pc :: u64
  ji_Destination :: u64
  ji_Cond :: bool

record trace_account =
  ta_Balance :: int
  ta_Code :: bytes
  ta_Nonce :: u64
  ta_Storage :: "(hash \<times> hash) list"

type_synonym trace_state = "(address \<times> trace_account) list"

text \<open>
  The error of a frame is kept as such instead of its message.  \<open>Calls\<close> holds indices of the
  store.  The token balances and the revert reason are never set by the tracer.
\<close>

record call_frame =
  cf_Type :: byte
  cf_From :: address
  cf_To :: "address option"
  cf_Value :: "int option"
  cf_Input :: bytes
  cf_Output :: bytes
  cf_IsContract :: bool
  cf_Gas :: u64
  cf_GasUsed :: u64
  cf_Error :: "vm_error option"
  cf_Logs :: "trace_log list"
  cf_Calls :: "nat list"
  cf_CallLocation :: u64
  cf_IsState :: bool
  cf_Create :: bool
  cf_Created :: "address list"
  cf_Deleted :: "address list"
  cf_PreState :: trace_state
  cf_PostState :: trace_state
  cf_Branch :: "jump_info list"

definition Exists :: "trace_account \<Rightarrow> bool" where
  "Exists a \<longleftrightarrow> ta_Nonce a > 0 \<or> ta_Code a \<noteq> [] \<or> ta_Storage a \<noteq> [] \<or> ta_Balance a \<noteq> 0"

section \<open>The tracer's state\<close>

text \<open>\<open>tt_env\<close>: \<open>env\<close> is set.  The first entry of the call stack is nil before \<open>CaptureStart\<close>.\<close>

record tx_tracer =
  tt_frames :: "call_frame list"
  tt_callstack :: "nat option list"
  tt_gasLimit :: u64
  tt_isRecordState :: bool
  tt_targetAddress :: "address list"
  tt_env :: bool
  tt_statedCall :: "nat list"
  tt_tmpCallLocation :: u64

definition NewTxTracer :: tx_tracer where
  "NewTxTracer = \<lparr>tt_frames = [], tt_callstack = [None], tt_gasLimit = 0, tt_isRecordState = False,
     tt_targetAddress = [], tt_env = False, tt_statedCall = [], tt_tmpCallLocation = 0\<rparr>"

definition SetIsRecordState :: "tx_tracer \<Rightarrow> tx_tracer" where
  "SetIsRecordState t = t\<lparr>tt_isRecordState := True\<rparr>"

definition AddTargetAddress :: "tx_tracer \<Rightarrow> address \<Rightarrow> tx_tracer" where
  "AddTargetAddress t a = t\<lparr>tt_targetAddress := List.insert a (tt_targetAddress t)\<rparr>"

definition is_target :: "tx_tracer \<Rightarrow> address \<Rightarrow> bool" where
  "is_target t a \<longleftrightarrow> a \<in> set (tt_targetAddress t)"

text \<open>The pointers.\<close>

definition frame_at :: "tx_tracer \<Rightarrow> nat \<Rightarrow> call_frame option" where
  "frame_at t i = idx (tt_frames t) i"

definition set_frame :: "nat \<Rightarrow> call_frame \<Rightarrow> tx_tracer \<Rightarrow> tx_tracer" where
  "set_frame i f t = t\<lparr>tt_frames := (tt_frames t)[i := f]\<rparr>"

definition new_frame :: "call_frame \<Rightarrow> tx_tracer \<Rightarrow> nat \<times> tx_tracer" where
  "new_frame f t = (length (tt_frames t), t\<lparr>tt_frames := tt_frames t @ [f]\<rparr>)"

definition stack_at :: "tx_tracer \<Rightarrow> nat \<Rightarrow> nat option" where
  "stack_at t i = Option.bind (idx (tt_callstack t) i) id"

definition GetCallFrame :: "tx_tracer \<Rightarrow> nat option" where
  "GetCallFrame t = stack_at t 0"

section \<open>Looking up accounts and slots\<close>

definition lookupAccount :: "call_frame \<Rightarrow> address \<Rightarrow> statedb \<Rightarrow> call_frame \<times> statedb" where
  "lookupAccount call addr d =
     (case map_of (cf_PreState call) addr of
        Some _ \<Rightarrow> (call, d)
      | None \<Rightarrow>
          let (b, d) = GetBalance d addr; (n, d) = GetNonce d addr; (c, d) = GetCode d addr
          in (call\<lparr>cf_PreState := AList.update addr
                \<lparr>ta_Balance = b, ta_Code = slice_of c, ta_Nonce = n, ta_Storage = []\<rparr> (cf_PreState call)\<rparr>, d))"

text \<open>\<^term>\<open>None\<close>: the account has not been looked up, a nil dereference.\<close>

definition lookupStorage :: "call_frame \<Rightarrow> address \<Rightarrow> hash \<Rightarrow> statedb \<Rightarrow> (call_frame \<times> statedb) option" where
  "lookupStorage call addr key d = do {
     a \<leftarrow> map_of (cf_PreState call) addr;
     Some (case map_of (ta_Storage a) key of
        Some _ \<Rightarrow> (call, d)
      | None \<Rightarrow> (case GetState d addr key of (v, d) \<Rightarrow>
          (call\<lparr>cf_PreState := AList.update addr (a\<lparr>ta_Storage := AList.update key v (ta_Storage a)\<rparr>)
             (cf_PreState call)\<rparr>, d))) }"

text \<open>Change the balance of an account of the prestate.\<close>

definition pre_account :: "call_frame \<Rightarrow> address \<Rightarrow> (trace_account \<Rightarrow> trace_account) \<Rightarrow> call_frame option" where
  "pre_account call addr f = do {
     a \<leftarrow> map_of (cf_PreState call) addr;
     Some (call\<lparr>cf_PreState := AList.update addr (f a) (cf_PreState call)\<rparr>) }"

text \<open>The balances before the transfer of the call's value.\<close>

definition undo_transfer :: "call_frame \<Rightarrow> address \<Rightarrow> address \<Rightarrow> int \<Rightarrow> call_frame option" where
  "undo_transfer call src dst value = do {
     call \<leftarrow> pre_account call dst (\<lambda>a. a\<lparr>ta_Balance := ta_Balance a - value\<rparr>);
     pre_account call src (\<lambda>a. a\<lparr>ta_Balance := ta_Balance a + value\<rparr>) }"

section \<open>The end of a call\<close>

text \<open>
  \<open>errors.Is(err, errors.New("execution reverted"))\<close>: the second error is a new pointer, which no
  error of the VM is or wraps, so the test never holds and what follows it is dead: neither the output
  nor the reason of a revert is recorded.
\<close>

definition is_fresh_error :: "vm_error \<Rightarrow> bool" where
  "is_fresh_error e = False"

lemma is_fresh_error [simp]: "\<not> is_fresh_error e"
  by (simp add: is_fresh_error_def)

definition processOutput :: "call_frame \<Rightarrow> bytes \<Rightarrow> vm_error option \<Rightarrow> call_frame" where
  "processOutput f output err =
     (case err of
        None \<Rightarrow> f\<lparr>cf_Output := output\<rparr>
      | Some e \<Rightarrow>
          let f = f\<lparr>cf_Error := Some e\<rparr>;
              f = (if cf_Type f = CREATE \<or> cf_Type f = CREATE2 then f\<lparr>cf_To := None\<rparr> else f)
          in if \<not> is_fresh_error e \<or> output = [] then f else f\<lparr>cf_Output := output\<rparr>)"

text \<open>The slots of an account after the call.\<close>

fun post_storage :: "address \<Rightarrow> hash list \<Rightarrow> statedb \<Rightarrow> (hash \<times> hash) list \<times> statedb" where
  "post_storage a [] d = ([], d)"
| "post_storage a (k # ks) d =
     (let (v, d) = GetState d a k; (st, d) = post_storage a ks d in (AList.update k v st, d))"

fun post_accounts :: "(hash list \<Rightarrow> hash list) \<Rightarrow> call_frame \<Rightarrow> address list \<Rightarrow> statedb \<Rightarrow> call_frame \<times> statedb" where
  "post_accounts kord call [] d = (call, d)"
| "post_accounts kord call (a # as) d =
     (if a \<in> set (cf_Deleted call) then post_accounts kord call as d
      else let (b, d) = GetBalance d a; (n, d) = GetNonce d a; (c, d) = GetCode d a;
               keys = (case map_of (cf_PreState call) a of None \<Rightarrow> [] | Some s \<Rightarrow> map fst (ta_Storage s));
               (st, d) = post_storage a (kord keys) d
           in post_accounts kord (call\<lparr>cf_PostState := AList.update a
                \<lparr>ta_Balance = b, ta_Code = slice_of c, ta_Nonce = n, ta_Storage = st\<rparr> (cf_PostState call)\<rparr>) as d)"

text \<open>A created account that was empty before leaves the prestate.\<close>

definition drop_created :: "call_frame \<Rightarrow> call_frame" where
  "drop_created call = call\<lparr>cf_PreState :=
     filter (\<lambda>(a, s). \<not> (a \<in> set (cf_Created call) \<and> \<not> Exists s)) (cf_PreState call)\<rparr>"

record visiting =
  v_accounts :: "address list \<Rightarrow> address list"
  v_slots :: "hash list \<Rightarrow> hash list"

definition handleCallEnd :: "visiting \<Rightarrow> call_frame \<Rightarrow> statedb \<Rightarrow> call_frame \<times> statedb" where
  "handleCallEnd ord call d =
     (case post_accounts (v_slots ord) call (v_accounts ord (map fst (cf_PreState call))) d of
        (call, d) \<Rightarrow> (drop_created call, d))"

section \<open>The calls of the interpreter\<close>

definition fresh_frame :: "byte \<Rightarrow> address \<Rightarrow> address \<Rightarrow> bool \<Rightarrow> bytes \<Rightarrow> u64 \<Rightarrow> int option \<Rightarrow> call_frame" where
  "fresh_frame typ src dst isContract input gas value =
     \<lparr>cf_Type = typ, cf_From = src, cf_To = Some dst, cf_Value = value, cf_Input = input, cf_Output = [],
      cf_IsContract = isContract, cf_Gas = gas, cf_GasUsed = 0, cf_Error = None, cf_Logs = [], cf_Calls = [],
      cf_CallLocation = 0, cf_IsState = False, cf_Create = False, cf_Created = [], cf_Deleted = [],
      cf_PreState = [], cf_PostState = [], cf_Branch = []\<rparr>"

definition tt_CaptureTxStart :: "tx_tracer \<Rightarrow> u64 \<Rightarrow> tx_tracer option" where
  "tt_CaptureTxStart t gasLimit = Some (t\<lparr>tt_gasLimit := gasLimit\<rparr>)"

text \<open>\<^term>\<open>None\<close> when no call was started: the first frame is nil.\<close>

definition tt_CaptureTxEnd :: "tx_tracer \<Rightarrow> u64 \<Rightarrow> tx_tracer option" where
  "tt_CaptureTxEnd t restGas = do {
     i \<leftarrow> stack_at t 0;
     f \<leftarrow> frame_at t i;
     Some (set_frame i (f\<lparr>cf_GasUsed := tt_gasLimit t - restGas\<rparr>) t) }"

text \<open>The accounts of the outermost call, if it goes to a target.\<close>

definition start_state :: "call_frame \<Rightarrow> address \<Rightarrow> address \<Rightarrow> bool \<Rightarrow> int \<Rightarrow> statedb \<Rightarrow> (call_frame \<times> statedb) option" where
  "start_state call src dst isCreate value d = do {
     let call = call\<lparr>cf_IsState := True, cf_Create := isCreate\<rparr>;
     let (call, d) = lookupAccount call src d;
     let (call, d) = lookupAccount call dst d;
     call \<leftarrow> undo_transfer call src dst value;
     call \<leftarrow> pre_account call src (\<lambda>a. a\<lparr>ta_Nonce := ta_Nonce a - 1\<rparr>);
     Some (if isCreate then call\<lparr>cf_Created := List.insert dst (cf_Created call)\<rparr> else call, d) }"

definition tt_CaptureStart :: "tx_tracer \<Rightarrow> statedb \<Rightarrow> address \<Rightarrow> address \<Rightarrow> bool \<Rightarrow> bytes \<Rightarrow> u64 \<Rightarrow> int \<Rightarrow>
    (tx_tracer \<times> statedb) option" where
  "tt_CaptureStart t d src dst isCreate input gas value = do {
     let (c, d) = GetCode d dst;
     let call = fresh_frame (if isCreate then CREATE else CALL) src dst (slice_of c \<noteq> []) input (tt_gasLimit t) (Some value);
     let (i, t) = new_frame call t;
     require (tt_callstack t \<noteq> []);
     let t = t\<lparr>tt_callstack := (tt_callstack t)[0 := Some i], tt_env := True\<rparr>;
     if tt_isRecordState t \<and> is_target t dst then do {
       (call, d) \<leftarrow> start_state call src dst isCreate value d;
       Some (set_frame i call (t\<lparr>tt_statedCall := tt_statedCall t @ [i]\<rparr>), d) }
     else Some (t, d) }"

text \<open>Record the accounts after a stated call and forget it.\<close>

definition end_state :: "visiting \<Rightarrow> nat \<Rightarrow> tx_tracer \<Rightarrow> statedb \<Rightarrow> (tx_tracer \<times> statedb) option" where
  "end_state ord i t d = do {
     f \<leftarrow> frame_at t i;
     if tt_isRecordState t \<and> cf_IsState f then do {
       let (f, d) = handleCallEnd ord f d;
       require (tt_statedCall t \<noteq> []);
       Some ((set_frame i f t)\<lparr>tt_statedCall := butlast (tt_statedCall t)\<rparr>, d) }
     else Some (t, d) }"

definition tt_CaptureEnd :: "visiting \<Rightarrow> tx_tracer \<Rightarrow> statedb \<Rightarrow> bytes \<Rightarrow> u64 \<Rightarrow> vm_error option \<Rightarrow>
    (tx_tracer \<times> statedb) option" where
  "tt_CaptureEnd ord t d output gasUsed err = do {
     i \<leftarrow> stack_at t 0;
     f \<leftarrow> frame_at t i;
     end_state ord i (set_frame i (processOutput f output err) t) d }"

text \<open>The other accounts its parent knows are looked up for a stated call as well.\<close>

fun lookup_others :: "call_frame \<Rightarrow> address \<Rightarrow> address \<Rightarrow> address list \<Rightarrow> statedb \<Rightarrow> call_frame \<times> statedb" where
  "lookup_others call src dst [] d = (call, d)"
| "lookup_others call src dst (a # as) d =
     (if a \<noteq> src \<and> a \<noteq> dst
      then let (call, d) = lookupAccount call a d in lookup_others call src dst as d
      else lookup_others call src dst as d)"

definition enter_state :: "visiting \<Rightarrow> tx_tracer \<Rightarrow> bool \<Rightarrow> call_frame \<Rightarrow> byte \<Rightarrow> address \<Rightarrow> address \<Rightarrow> int option \<Rightarrow> statedb \<Rightarrow>
    (call_frame \<times> statedb) option" where
  "enter_state ord t inherit call typ src dst value d = do {
     let call = call\<lparr>cf_IsState := True, cf_Create := (typ = CREATE \<or> typ = CREATE2)\<rparr>;
     let (call, d) = lookupAccount call src d;
     let (call, d) = lookupAccount call dst d;
     (call, d) \<leftarrow> (if inherit then do {
         parent \<leftarrow> frame_at t (last (tt_statedCall t));
         Some (lookup_others call src dst (v_accounts ord (map fst (cf_PreState parent))) d) }
       else Some (call, d));
     v \<leftarrow> value;
     call \<leftarrow> undo_transfer call src dst v;
     Some (if cf_Create call then call\<lparr>cf_Created := List.insert dst (cf_Created call)\<rparr> else call, d) }"

definition tt_CaptureEnter :: "visiting \<Rightarrow> tx_tracer \<Rightarrow> statedb \<Rightarrow> byte \<Rightarrow> address \<Rightarrow> address \<Rightarrow> bytes \<Rightarrow> u64 \<Rightarrow> int option \<Rightarrow>
    (tx_tracer \<times> statedb) option" where
  "tt_CaptureEnter ord t d typ src dst input gas value = do {
     require (tt_env t);
     let (c, d) = GetCode d dst;
     let call = fresh_frame typ src dst (slice_of c \<noteq> []) input gas value;
     let (i, t) = new_frame call t;
     let t = t\<lparr>tt_callstack := tt_callstack t @ [Some i]\<rparr>;
     if length (tt_callstack t) \<le> 1 then Some (t, d)
     else do {
       let call = call\<lparr>cf_CallLocation := tt_tmpCallLocation t\<rparr>;
       let flag1 = is_target t dst;
       let flag2 = (tt_statedCall t \<noteq> [] \<and> is_target t src);
       if tt_isRecordState t \<and> typ = CALL \<and> (flag1 \<or> flag2) then do {
         (call, d) \<leftarrow> enter_state ord t flag2 call typ src dst value d;
         Some (set_frame i call (t\<lparr>tt_statedCall := tt_statedCall t @ [i]\<rparr>), d) }
       else Some (set_frame i call t, d) } }"

definition tt_CaptureExit :: "visiting \<Rightarrow> tx_tracer \<Rightarrow> statedb \<Rightarrow> bytes \<Rightarrow> u64 \<Rightarrow> vm_error option \<Rightarrow>
    (tx_tracer \<times> statedb) option" where
  "tt_CaptureExit ord t d output gasUsed err =
     (if length (tt_callstack t) \<le> 1 then Some (t, d)
      else do {
        i \<leftarrow> last (tt_callstack t);
        let t = t\<lparr>tt_callstack := butlast (tt_callstack t)\<rparr>;
        f \<leftarrow> frame_at t i;
        let t = set_frame i (processOutput (f\<lparr>cf_GasUsed := gasUsed\<rparr>) output err) t;
        p \<leftarrow> last (tt_callstack t);
        parent \<leftarrow> frame_at t p;
        end_state ord i (set_frame p (parent\<lparr>cf_Calls := cf_Calls parent @ [i]\<rparr>) t) d })"

definition tt_CaptureFault :: "tx_tracer \<Rightarrow> statedb \<Rightarrow> u64 \<Rightarrow> byte \<Rightarrow> u64 \<Rightarrow> u64 \<Rightarrow> scope \<Rightarrow> int \<Rightarrow> vm_error option \<Rightarrow>
    (tx_tracer \<times> statedb) option" where
  "tt_CaptureFault t d pc op gas cost s dep err = Some (t, d)"

section \<open>One step\<close>

text \<open>
  \<open>tracers.GetMemoryCopyPadded\<close>: the inner \<^term>\<open>None\<close> is its error; \<^verbatim>\<open>int64\<close> sums wrap around.
\<close>

definition wrap64 :: "int \<Rightarrow> int" where
  "wrap64 x = sint (word_of_int x :: u64)"

definition GetMemoryCopyPadded :: "memory \<Rightarrow> int \<Rightarrow> int \<Rightarrow> bytes option option" where
  "GetMemoryCopyPadded m offset sz =
     (if offset < 0 \<or> sz < 0 then Some None
      else if wrap64 (offset + sz) < int (mem_Len m) then map_option Some (mem_GetCopy m offset sz)
      else if wrap64 (wrap64 (offset + sz) - int (mem_Len m)) > 1024 * 1024 then Some None
      else do {
        let overlap = int (mem_Len m) - offset;
        b \<leftarrow> (if overlap > 0 then mem_GetPtr m offset overlap else Some []);
        Some (Some (copy_at (replicate (nat sz) 0) 0 b)) })"

text \<open>A log; \<^term>\<open>False\<close> when the memory could not be copied and the step is given up.\<close>

definition trace_log_step :: "tx_tracer \<Rightarrow> byte \<Rightarrow> scope \<Rightarrow> (bool \<times> tx_tracer) option" where
  "trace_log_step t op s =
     (if op \<in> {LOG0, LOG1, LOG2, LOG3, LOG4} then do {
        mStart \<leftarrow> st_Back (Stack s) 0;
        mSize \<leftarrow> st_Back (Stack s) 1;
        topics \<leftarrow> those (map (\<lambda>i. st_Back (Stack s) (2 + i)) [0..<unat (op - LOG0)]);
        r \<leftarrow> GetMemoryCopyPadded (Memory s) (Int64 mStart) (Int64 mSize);
        case r of
          None \<Rightarrow> Some (False, t)
        | Some data \<Rightarrow> do {
            require (tt_callstack t \<noteq> []);
            i \<leftarrow> last (tt_callstack t);
            f \<leftarrow> frame_at t i;
            let lg = \<lparr>tl_Address = ct_self (Contract s), tl_Topics = topics, tl_Data = data,
                      tl_Position = length (cf_Calls f)\<rparr>;
            Some (True, set_frame i (f\<lparr>cf_Logs := cf_Logs f @ [lg]\<rparr>) t) } }
      else Some (True, t))"

text \<open>
  What one step adds to a stated call: its frame, the database, the location of the next call, and
  whether to go on with the other stated calls.
\<close>

definition stated_step :: "tx_tracer \<Rightarrow> call_frame \<Rightarrow> statedb \<Rightarrow> u64 \<Rightarrow> byte \<Rightarrow> scope \<Rightarrow>
    (call_frame \<times> statedb \<times> u64 \<times> bool) option" where
  "stated_step t call d pc op s =
     (let st = Stack s; n = length st; caller = ct_self (Contract s); loc = tt_tmpCallLocation t
      in if n \<ge> 1 \<and> (op = SLOAD \<or> op = SSTORE) then do {
           slot \<leftarrow> st_Back st 0;
           (call, d) \<leftarrow> lookupStorage call caller slot d;
           Some (call, d, loc, True) }
         else if n \<ge> 1 \<and> op \<in> {EXTCODECOPY, EXTCODEHASH, EXTCODESIZE, BALANCE, SELFDESTRUCT} then do {
           a \<leftarrow> st_Back st 0;
           let (call, d) = lookupAccount call (addr_of a) d;
           Some (if op = SELFDESTRUCT then call\<lparr>cf_Deleted := List.insert caller (cf_Deleted call)\<rparr> else call, d, loc, True) }
         else if n \<ge> 5 \<and> op \<in> {DELEGATECALL, CALL, STATICCALL, CALLCODE} then do {
           a \<leftarrow> st_Back st 1;
           let (call, d) = lookupAccount call (addr_of a) d;
           Some (call, d, pc, True) }
         else if op = CREATE then do {
           let (nonce, d) = GetNonce d caller;
           addr \<leftarrow> CreateAddress (db d) caller nonce;
           let (call, d) = lookupAccount call addr d;
           Some (call\<lparr>cf_Created := List.insert addr (cf_Created call)\<rparr>, d, loc, True) }
         else if n \<ge> 4 \<and> op = CREATE2 then do {
           offset \<leftarrow> st_Back st 1;
           sz \<leftarrow> st_Back st 2;
           salt \<leftarrow> st_Back st 3;
           r \<leftarrow> GetMemoryCopyPadded (Memory s) (Int64 offset) (Int64 sz);
           case r of
             None \<Rightarrow> Some (call, d, loc, False)
           | Some init \<Rightarrow> do {
               let addr = CreateAddress2 (db d) caller salt (keccak (db d) init);
               let (call, d) = lookupAccount call addr d;
               Some (call\<lparr>cf_Created := List.insert addr (cf_Created call)\<rparr>, d, loc, True) } }
         else if n \<ge> 2 \<and> op = JUMPI \<and> is_target t caller then do {
           pos \<leftarrow> st_Back st 0;
           cond \<leftarrow> st_Back st 1;
           Some (call\<lparr>cf_Branch := cf_Branch call @ [\<lparr>ji_Pc = pc,
             ji_Destination = (if cond \<noteq> 0 then Uint64 pos else pc + 1), ji_Cond = (cond \<noteq> 0)\<rparr>]\<rparr>, d, loc, True) }
         else Some (call, d, loc, True))"

fun stated_steps :: "nat list \<Rightarrow> u64 \<Rightarrow> byte \<Rightarrow> scope \<Rightarrow> tx_tracer \<Rightarrow> statedb \<Rightarrow> (tx_tracer \<times> statedb) option" where
  "stated_steps [] pc op s t d = Some (t, d)"
| "stated_steps (i # is) pc op s t d = do {
     call \<leftarrow> frame_at t i;
     (call, d, loc, continue) \<leftarrow> stated_step t call d pc op s;
     let t = (set_frame i call t)\<lparr>tt_tmpCallLocation := loc\<rparr>;
     if continue then stated_steps is pc op s t d else Some (t, d) }"

definition tt_CaptureState :: "tx_tracer \<Rightarrow> statedb \<Rightarrow> u64 \<Rightarrow> byte \<Rightarrow> u64 \<Rightarrow> u64 \<Rightarrow> scope \<Rightarrow> bytes \<Rightarrow> int \<Rightarrow> vm_error option \<Rightarrow>
    (tx_tracer \<times> statedb) option" where
  "tt_CaptureState t d pc op gas cost s rData dep err =
     (if err \<noteq> None then Some (t, d)
      else do {
        (go_on, t) \<leftarrow> trace_log_step t op s;
        if go_on then stated_steps (tt_statedCall t) pc op s t d else Some (t, d) })"

definition TxTracer_logger :: "visiting \<Rightarrow> tx_tracer logger" where
  "TxTracer_logger ord =
     \<lparr>CaptureTxStart = tt_CaptureTxStart, CaptureTxEnd = tt_CaptureTxEnd,
      CaptureStart = tt_CaptureStart, CaptureEnd = tt_CaptureEnd ord,
      CaptureEnter = tt_CaptureEnter ord, CaptureExit = tt_CaptureExit ord,
      CaptureState = tt_CaptureState, CaptureFault = tt_CaptureFault\<rparr>"

section \<open>The tracer only reads the database\<close>

definition looked :: "statedb \<Rightarrow> statedb \<Rightarrow> bool" where
  "looked d0 d \<longleftrightarrow> sdb_inv d0 \<and> peeks d0 d"

lemma looked_inv: "looked d0 d \<Longrightarrow> sdb_inv d"
  by (auto simp: looked_def peeks_def step_def intro: sdb.ext_inv)

lemma looked_step: "looked d0 d \<Longrightarrow> peeks d d' \<Longrightarrow> looked d0 d'"
  by (auto simp: looked_def intro: peeks_trans)

named_theorems looks "operations of the tracer that only read"

lemma looked_reads [looks]:
  "GetBalance d a = (n, d') \<Longrightarrow> looked d0 d \<Longrightarrow> looked d0 d'"
  "GetNonce d a = (m, d') \<Longrightarrow> looked d0 d \<Longrightarrow> looked d0 d'"
  "GetCode d a = (c, d') \<Longrightarrow> looked d0 d \<Longrightarrow> looked d0 d'"
  "GetState d a k = (v, d') \<Longrightarrow> looked d0 d \<Longrightarrow> looked d0 d'"
  by (blast intro: looked_step reads_peek looked_inv)+

lemma lookupAccount_looks [looks]:
  "lookupAccount call a d = (call', d') \<Longrightarrow> looked d0 d \<Longrightarrow> looked d0 d'"
  by (auto simp: lookupAccount_def split: option.splits prod.splits dest: looks)

lemma lookupStorage_looks [looks]:
  "lookupStorage call a k d = Some (call', d') \<Longrightarrow> looked d0 d \<Longrightarrow> looked d0 d'"
  by (auto simp: lookupStorage_def split: option.splits prod.splits dest: looks)

lemma post_storage_looks [looks]: "post_storage a ks d = (st, d') \<Longrightarrow> looked d0 d \<Longrightarrow> looked d0 d'"
proof (induction ks arbitrary: st d)
  case (Cons k ks)
  then show ?case by (auto split: prod.splits dest: looks)
qed simp

lemma post_accounts_looks [looks]: "post_accounts kord call as d = (call', d') \<Longrightarrow> looked d0 d \<Longrightarrow> looked d0 d'"
proof (induction "as" arbitrary: call d)
  case (Cons a as)
  show ?case
  proof (cases "a \<in> set (cf_Deleted call)")
    case False
    obtain b d1 n d2 c d3 st d4 where 1: "GetBalance d a = (b, d1)" "GetNonce d1 a = (n, d2)" "GetCode d2 a = (c, d3)"
      "post_storage a (kord (case map_of (cf_PreState call) a of None \<Rightarrow> [] | Some s \<Rightarrow> map fst (ta_Storage s))) d3 = (st, d4)"
      by (metis surj_pair)
    then have "looked d0 d4" using Cons.prems(2) by (auto dest!: looks)
    with Cons 1 False show ?thesis by (simp add: Let_def)
  qed (use Cons in simp)
qed simp

lemma handleCallEnd_looks [looks]: "handleCallEnd ord call d = (call', d') \<Longrightarrow> looked d0 d \<Longrightarrow> looked d0 d'"
  by (auto simp: handleCallEnd_def split: prod.splits dest: looks)

lemma lookup_others_looks [looks]: "lookup_others call f g as d = (call', d') \<Longrightarrow> looked d0 d \<Longrightarrow> looked d0 d'"
proof (induction "as" arbitrary: call d)
  case (Cons a as)
  obtain c1 d1 where "lookupAccount call a d = (c1, d1)" by fastforce
  with Cons show ?case by (auto split: if_splits dest: looks)
qed simp

lemma start_state_looks [looks]:
  "start_state call f g c v d = Some (call', d') \<Longrightarrow> looked d0 d \<Longrightarrow> looked d0 d'"
  by (auto simp: start_state_def split: prod.splits dest!: looks)

lemma enter_state_looks [looks]:
  "enter_state ord t inh call typ f g v d = Some (call', d') \<Longrightarrow> looked d0 d \<Longrightarrow> looked d0 d'"
  by (auto simp: enter_state_def split: prod.splits if_splits dest!: looks)

lemma end_state_looks [looks]: "end_state ord i t d = Some (t', d') \<Longrightarrow> looked d0 d \<Longrightarrow> looked d0 d'"
  by (auto simp: end_state_def split: prod.splits if_splits dest!: looks)

definition sees :: "statedb \<Rightarrow> ('a \<times> statedb \<times> 'b) option \<Rightarrow> bool" where
  "sees d0 r \<longleftrightarrow> (\<forall>x d y. r = Some (x, d, y) \<longrightarrow> looked d0 d)"

lemma sees_simps [simp]:
  "sees d0 None" "sees d0 (Some (x, d, y)) = looked d0 d"
  "sees d0 (if b then p else q) \<longleftrightarrow> (b \<longrightarrow> sees d0 p) \<and> (\<not> b \<longrightarrow> sees d0 q)"
  "sees d0 (case z of (u, v) \<Rightarrow> h u v) \<longleftrightarrow> (\<forall>u v. z = (u, v) \<longrightarrow> sees d0 (h u v))"
  "sees d0 (case m of None \<Rightarrow> p | Some w \<Rightarrow> k w) \<longleftrightarrow> (m = None \<longrightarrow> sees d0 p) \<and> (\<forall>w. m = Some w \<longrightarrow> sees d0 (k w))"
  by (auto simp: sees_def split: prod.splits option.splits)

lemma sees_bind [simp]: "sees d0 (Option.bind m f) \<longleftrightarrow> (\<forall>x. m = Some x \<longrightarrow> sees d0 (f x))"
  by (cases m) auto

lemma stated_step_looks [looks]:
  assumes "stated_step t call d pc op s = Some (call', d', loc, b)" "looked d0 d"
  shows "looked d0 d'"
proof -
  have "sees d0 (stated_step t call d pc op s)"
    unfolding stated_step_def Let_def sees_simps sees_bind using assms(2) by (auto dest: looks)
  with assms(1) show ?thesis by (simp add: sees_def)
qed

lemma stated_steps_looks [looks]: "stated_steps is pc op s t d = Some (t', d') \<Longrightarrow> looked d0 d \<Longrightarrow> looked d0 d'"
proof (induction "is" arbitrary: t d)
  case (Cons i "is")
  then show ?case by (auto simp: Let_def split: if_splits dest: looks)
qed simp

lemma captures_look:
  assumes "looked d0 d"
  shows "tt_CaptureStart t d a a' cr inp g v = Some (t', d') \<Longrightarrow> looked d0 d'"
    "tt_CaptureEnd ord t d out g err = Some (t', d') \<Longrightarrow> looked d0 d'"
    "tt_CaptureEnter ord t d typ a a' inp g ov = Some (t', d') \<Longrightarrow> looked d0 d'"
    "tt_CaptureExit ord t d out g err = Some (t', d') \<Longrightarrow> looked d0 d'"
    "tt_CaptureState t d pc op g cost sc out dp err = Some (t', d') \<Longrightarrow> looked d0 d'"
    "tt_CaptureFault t d pc op g cost sc dp err = Some (t', d') \<Longrightarrow> looked d0 d'"
  using assms
  by (auto simp: tt_CaptureStart_def tt_CaptureEnd_def tt_CaptureEnter_def tt_CaptureExit_def tt_CaptureState_def
      tt_CaptureFault_def new_frame_def Let_def split: prod.splits if_splits dest!: looks)

section \<open>The host of the EVM\<close>

text \<open>
  The environment as \<^verbatim>\<open>core\<close> sets it up: value is checked and moved by \<open>CanTransfer\<close>
  and \<open>Transfer\<close>, and the tracer is a \<open>TxTracer\<close>.
\<close>

definition core_env :: "block_context \<Rightarrow> visiting \<Rightarrow> tx_tracer env \<Rightarrow> tx_tracer env" where
  "core_env bc ord E = E\<lparr>Context := bc\<lparr>bc_CanTransfer := CanTransfer, bc_Transfer := Transfer\<rparr>,
     Logger := TxTracer_logger ord\<rparr>"

lemma CanTransfer_peeks: "sdb_inv d \<Longrightarrow> CanTransfer d a v = (b, d') \<Longrightarrow> peeks d d'"
  by (auto simp: CanTransfer_def intro: reads_peek split: prod.splits)

lemma Transfer_grows: "grows s d \<Longrightarrow> grows s (Transfer d a a' v)"
  unfolding Transfer_def by (intro grows_writes)

lemma looked_refl: "sdb_inv d \<Longrightarrow> looked d d"
  by (simp add: looked_def peeks_refl)

interpretation core: evm_host "core_env bc ord E" for bc ord E
proof (unfold_locales, goal_cases)
  case (1 d a v b d')
  then show ?case by (simp add: core_env_def CanTransfer_peeks)
next
  case (2 s d a a' v)
  then show ?case by (simp add: core_env_def Transfer_grows)
qed (use captures_look [OF looked_refl] in \<open>auto simp: core_env_def TxTracer_logger_def looked_def\<close>)

definition wired :: "tx_tracer env \<Rightarrow> bool" where
  "wired E \<longleftrightarrow> bc_CanTransfer (Context E) = CanTransfer \<and> bc_Transfer (Context E) = Transfer \<and>
     (\<exists>ord. Logger E = TxTracer_logger ord)"

lemma wired_core: "wired E \<Longrightarrow> \<exists>bc ord. E = core_env bc ord E"
  unfolding wired_def core_env_def by (rule exI [of _ "Context E"]) (auto intro!: env.equality block_context.equality)

lemma wired_host: "wired E \<Longrightarrow> evm_host E"
  using wired_core core.evm_host_axioms by metis

end
