(* ===== verification/TxTracer_Props.thy ===== *)
theory TxTracer_Props
  imports TxTracer Demo
begin

text \<open>
  What the tracer records is the tree of the calls: the tracer's stack of frames and its list of
  stated calls come back to what they were after every bracketed call, and the frame of each call
  lists, in order, the frames of the calls it made.
\<close>

section \<open>Bracketed events\<close>

text \<open>
  What the EVM tells the tracer during a call: steps, and inner calls, each with the events between
  its entry and its exit.  Every event carries the database of its moment.
\<close>

datatype event =
    Step statedb u64 byte u64 u64 scope bytes int "vm_error option"
  | Sub statedb byte address address bytes u64 "int option" "event list" statedb bytes u64 "vm_error option"

fun run_events :: "visiting \<Rightarrow> event list \<Rightarrow> tx_tracer \<Rightarrow> tx_tracer option" where
  "run_events ord [] t = Some t"
| "run_events ord (Step d pc op g cost s rd dp err # evs) t = do {
     (t, _) \<leftarrow> tt_CaptureState t d pc op g cost s rd dp err;
     run_events ord evs t }"
| "run_events ord (Sub d typ src dst inp g v inner d' out used err # evs) t = do {
     (t, _) \<leftarrow> tt_CaptureEnter ord t d typ src dst inp g v;
     t \<leftarrow> run_events ord inner t;
     (t, _) \<leftarrow> tt_CaptureExit ord t d' out used err;
     run_events ord evs t }"

text \<open>The tree of calls: what identifies a call and how it ended, and the calls it made.\<close>

record call_head =
  hd_Type :: byte
  hd_From :: address
  hd_To :: "address option"
  hd_Value :: "int option"
  hd_Input :: bytes
  hd_Output :: bytes
  hd_Gas :: u64
  hd_GasUsed :: u64
  hd_Error :: "vm_error option"

datatype call_node = CallNode call_head "call_node list"

definition ended :: "byte \<Rightarrow> address \<Rightarrow> address \<Rightarrow> int option \<Rightarrow> bytes \<Rightarrow> u64 \<Rightarrow> bytes \<Rightarrow> u64 \<Rightarrow> vm_error option \<Rightarrow> call_head" where
  "ended typ src dst v inp g out used err =
     \<lparr>hd_Type = typ, hd_From = src, hd_To = (if err \<noteq> None \<and> (typ = CREATE \<or> typ = CREATE2) then None else Some dst),
      hd_Value = v, hd_Input = inp, hd_Output = (if err = None then out else []), hd_Gas = g, hd_GasUsed = used,
      hd_Error = err\<rparr>"

fun calls_of :: "event list \<Rightarrow> call_node list" where
  "calls_of [] = []"
| "calls_of (Step d pc op g cost s rd dp err # evs) = calls_of evs"
| "calls_of (Sub d typ src dst inp g v inner d' out used err # evs) =
     CallNode (ended typ src dst v inp g out used err) (calls_of inner) # calls_of evs"

definition head_of :: "call_frame \<Rightarrow> call_head" where
  "head_of f = \<lparr>hd_Type = cf_Type f, hd_From = cf_From f, hd_To = cf_To f, hd_Value = cf_Value f,
     hd_Input = cf_Input f, hd_Output = cf_Output f, hd_Gas = cf_Gas f, hd_GasUsed = cf_GasUsed f,
     hd_Error = cf_Error f\<rparr>"

text \<open>The frame \<open>i\<close> and the frames it refers to hold this tree; all were made after frame \<open>lo\<close>.\<close>

fun recorded :: "nat \<Rightarrow> tx_tracer \<Rightarrow> nat \<Rightarrow> call_node \<Rightarrow> bool" where
  "recorded lo t i (CallNode h cs) \<longleftrightarrow> lo \<le> i \<and> (case frame_at t i of None \<Rightarrow> False
     | Some f \<Rightarrow> head_of f = h \<and> list_all2 (recorded lo t) (cf_Calls f) cs)"

section \<open>What an event leaves alone\<close>

definition keeps :: "call_frame \<Rightarrow> call_frame \<Rightarrow> bool" where
  "keeps f f' \<longleftrightarrow> head_of f' = head_of f \<and> cf_Calls f' = cf_Calls f \<and> cf_IsState f' = cf_IsState f"

text \<open>Frames up to \<open>n\<close> other than \<open>p\<close> are kept, and the flags stay.\<close>

definition calm_but :: "nat set \<Rightarrow> tx_tracer \<Rightarrow> tx_tracer \<Rightarrow> bool" where
  "calm_but ps t t' \<longleftrightarrow> length (tt_frames t) \<le> length (tt_frames t') \<and>
     (\<forall>i < length (tt_frames t). i \<notin> ps \<longrightarrow> keeps (tt_frames t ! i) (tt_frames t' ! i)) \<and>
     tt_isRecordState t' = tt_isRecordState t \<and> tt_gasLimit t' = tt_gasLimit t \<and> tt_env t' = tt_env t"

lemma keeps_refl [simp]: "keeps f f"
  by (simp add: keeps_def)

lemma keeps_trans: "keeps f g \<Longrightarrow> keeps g h \<Longrightarrow> keeps f h"
  by (simp add: keeps_def)

lemma calm_refl [simp]: "calm_but ps t t"
  by (simp add: calm_but_def)

lemma calm_trans: "calm_but ps t u \<Longrightarrow> calm_but ps u v \<Longrightarrow> calm_but ps t v"
  unfolding calm_but_def by (auto intro: keeps_trans)

lemma calm_mono: "calm_but ps t u \<Longrightarrow> ps \<subseteq> qs \<Longrightarrow> calm_but qs t u"
  by (auto simp: calm_but_def)

lemma frame_at_iff: "frame_at t i = Some f \<longleftrightarrow> i < length (tt_frames t) \<and> tt_frames t ! i = f"
  by (simp add: frame_at_def idx_def)

lemma calm_at:
  assumes "calm_but ps t t'" "frame_at t i = Some f" "i \<notin> ps"
  obtains f' where "frame_at t' i = Some f'" "keeps f f'"
  using assms by (auto simp: calm_but_def frame_at_iff)

lemma calm_set_frame: "frame_at t i = Some f \<Longrightarrow> keeps f f' \<or> i \<in> ps \<Longrightarrow> calm_but ps t (set_frame i f' t)"
  by (auto simp: calm_but_def set_frame_def frame_at_iff nth_list_update)

lemma set_frame_fields [simp]:
  "tt_callstack (set_frame i f t) = tt_callstack t" "tt_statedCall (set_frame i f t) = tt_statedCall t"
  "tt_isRecordState (set_frame i f t) = tt_isRecordState t" "length (tt_frames (set_frame i f t)) = length (tt_frames t)"
  "tt_gasLimit (set_frame i f t) = tt_gasLimit t" "tt_env (set_frame i f t) = tt_env t"
  by (simp_all add: set_frame_def)

lemma frame_at_set [simp]:
  "frame_at (set_frame i f t) j = (if i = j \<and> i < length (tt_frames t) then Some f else frame_at t j)"
  by (auto simp: frame_at_def set_frame_def idx_def)

lemma frame_at_upd [simp]:
  "frame_at (t\<lparr>tt_callstack := a\<rparr>) i = frame_at t i" "frame_at (t\<lparr>tt_statedCall := b\<rparr>) i = frame_at t i"
  "frame_at (t\<lparr>tt_tmpCallLocation := c\<rparr>) i = frame_at t i"
  by (simp_all add: frame_at_def)

lemma calm_upd [simp]:
  "calm_but ps t (t'\<lparr>tt_callstack := a\<rparr>) = calm_but ps t t'" "calm_but ps t (t'\<lparr>tt_statedCall := b\<rparr>) = calm_but ps t t'"
  "calm_but ps t (t'\<lparr>tt_tmpCallLocation := c\<rparr>) = calm_but ps t t'"
  "calm_but ps (t\<lparr>tt_callstack := a\<rparr>) t' = calm_but ps t t'" "calm_but ps (t\<lparr>tt_statedCall := b\<rparr>) t' = calm_but ps t t'"
  by (simp_all add: calm_but_def)

text \<open>A tree recorded in frames that are kept stays recorded.\<close>

lemma recorded_calm:
  assumes "recorded lo t i n" "calm_but ps t t'" "\<And>p. p \<in> ps \<Longrightarrow> p < lo"
  shows "recorded lo t' i n"
  using assms(1)
proof (induction n arbitrary: i)
  case (CallNode h cs)
  then obtain f where f: "lo \<le> i" "frame_at t i = Some f" "head_of f = h" "list_all2 (recorded lo t) (cf_Calls f) cs"
    by (auto split: option.splits)
  have "i \<notin> ps" using assms(3) f(1) leD by blast
  with f assms(2) have "keeps f (tt_frames t' ! i)" "i < length (tt_frames t')"
    by (auto simp: calm_but_def frame_at_iff)
  moreover have "list_all2 (recorded lo t') (cf_Calls f) cs"
    using f(4) CallNode.IH by (auto intro: list.rel_mono_strong)
  ultimately show ?case using f by (simp add: frame_at_def idx_def keeps_def)
qed

lemma recorded_mono: "recorded hi t i n \<Longrightarrow> lo \<le> hi \<Longrightarrow> recorded lo t i n"
proof (induction n arbitrary: i)
  case (CallNode h cs)
  then show ?case by (auto split: option.splits intro: list.rel_mono_strong)
qed

section \<open>Steps\<close>

named_theorems kept_by "operations on a frame that keep its head"

lemma keeps_upd [simp]:
  "keeps f (g\<lparr>cf_PreState := a\<rparr>) = keeps f g" "keeps f (g\<lparr>cf_PostState := a\<rparr>) = keeps f g"
  "keeps f (g\<lparr>cf_Created := b\<rparr>) = keeps f g" "keeps f (g\<lparr>cf_Deleted := b\<rparr>) = keeps f g"
  "keeps f (g\<lparr>cf_Branch := c\<rparr>) = keeps f g" "keeps f (g\<lparr>cf_Logs := l\<rparr>) = keeps f g"
  "keeps f (g\<lparr>cf_Create := cr\<rparr>) = keeps f g" "keeps f (g\<lparr>cf_CallLocation := cl\<rparr>) = keeps f g"
  by (simp_all add: keeps_def head_of_def)

lemma keeps_lookup [kept_by]:
  "lookupAccount g a d = (g', d') \<Longrightarrow> keeps f g \<Longrightarrow> keeps f g'"
  "lookupStorage g a k d = Some (g', d') \<Longrightarrow> keeps f g \<Longrightarrow> keeps f g'"
proof -
  have "keeps f g \<Longrightarrow> keeps f (fst (lookupAccount g a d))"
    by (simp add: lookupAccount_def Let_def case_prod_unfold split: option.split)
  then show "lookupAccount g a d = (g', d') \<Longrightarrow> keeps f g \<Longrightarrow> keeps f g'" by simp
  have "keeps f g \<Longrightarrow> lookupStorage g a k d = Some r \<Longrightarrow> keeps f (fst r)" for r
    by (cases "map_of (cf_PreState g) a") (auto simp: lookupStorage_def case_prod_unfold split: option.split)
  then show "lookupStorage g a k d = Some (g', d') \<Longrightarrow> keeps f g \<Longrightarrow> keeps f g'" by fastforce
qed

lemma keeps_pre [kept_by]:
  "pre_account g a h = Some g' \<Longrightarrow> keeps f g \<Longrightarrow> keeps f g'"
  "undo_transfer g a b v = Some g' \<Longrightarrow> keeps f g \<Longrightarrow> keeps f g'"
  by (auto simp: pre_account_def undo_transfer_def)

lemma keeps_others [kept_by]: "lookup_others g a b as d = (g', d') \<Longrightarrow> keeps f g \<Longrightarrow> keeps f g'"
proof (induction "as" arbitrary: g d)
  case (Cons x xs)
  obtain c1 d1 where "lookupAccount g x d = (c1, d1)" by fastforce
  with Cons show ?case by (auto split: if_splits dest: kept_by)
qed simp

lemma keeps_post [kept_by]: "post_accounts kord g as d = (g', d') \<Longrightarrow> keeps f g \<Longrightarrow> keeps f g'"
proof (induction "as" arbitrary: g d)
  case (Cons a as)
  then show ?case by (auto simp: Let_def split: if_splits prod.splits)
qed simp

lemma keeps_end [kept_by]: "handleCallEnd ord g d = (g', d') \<Longrightarrow> keeps f g \<Longrightarrow> keeps f g'"
  by (auto simp: handleCallEnd_def drop_created_def split: prod.splits dest: kept_by)

definition kept_in :: "call_frame \<Rightarrow> (call_frame \<times> 'b) option \<Rightarrow> bool" where
  "kept_in f r \<longleftrightarrow> (\<forall>x y. r = Some (x, y) \<longrightarrow> keeps f x)"

lemma kept_in_simps [simp]:
  "kept_in f None" "kept_in f (Some (x, y)) = keeps f x"
  "kept_in f (if b then p else q) \<longleftrightarrow> (b \<longrightarrow> kept_in f p) \<and> (\<not> b \<longrightarrow> kept_in f q)"
  "kept_in f (case z of (u, v) \<Rightarrow> h u v) \<longleftrightarrow> (\<forall>u v. z = (u, v) \<longrightarrow> kept_in f (h u v))"
  "kept_in f (case m of None \<Rightarrow> p | Some w \<Rightarrow> k w) \<longleftrightarrow> (m = None \<longrightarrow> kept_in f p) \<and> (\<forall>w. m = Some w \<longrightarrow> kept_in f (k w))"
  by (auto simp: kept_in_def split: prod.splits option.splits)

lemma kept_in_bind [simp]: "kept_in f (Option.bind m k) \<longleftrightarrow> (\<forall>x. m = Some x \<longrightarrow> kept_in f (k x))"
  by (cases m) auto

lemma keeps_if [simp]: "keeps f (if b then x else y) \<longleftrightarrow> (b \<longrightarrow> keeps f x) \<and> (\<not> b \<longrightarrow> keeps f y)"
  by simp

lemma keeps_stated:
  assumes "stated_step t g d pc op s = Some (g', r)"
  shows "keeps g g'"
proof -
  have "kept_in g (stated_step t g d pc op s)"
    unfolding stated_step_def Let_def kept_in_simps kept_in_bind by (auto dest: kept_by [OF _ keeps_refl])
  then show ?thesis unfolding assms kept_in_simps .
qed

text \<open>What stays at a step.\<close>

definition still :: "tx_tracer \<Rightarrow> tx_tracer \<Rightarrow> bool" where
  "still t t' \<longleftrightarrow> calm_but {} t t' \<and> tt_callstack t' = tt_callstack t \<and> tt_statedCall t' = tt_statedCall t"

lemma still_refl [simp]: "still t t"
  by (simp add: still_def)

lemma still_trans: "still t u \<Longrightarrow> still u v \<Longrightarrow> still t v"
  by (auto simp: still_def intro: calm_trans)

lemma still_set_frame: "frame_at t i = Some f \<Longrightarrow> keeps f f' \<Longrightarrow> still t (set_frame i f' t)"
  by (simp add: still_def calm_set_frame)

lemma still_log: "trace_log_step t op s = Some (b, t') \<Longrightarrow> still t t'"
  by (auto simp: trace_log_step_def still_def Let_def split: if_split_asm option.split_asm intro!: calm_set_frame)

lemma still_steps: "stated_steps is pc op s t d = Some (t', d') \<Longrightarrow> still t t'"
proof (induction "is" arbitrary: t d)
  case (Cons i "is")
  then obtain f f' d1 loc b where f: "frame_at t i = Some f" "stated_step t f d pc op s = Some (f', d1, loc, b)"
    and rest: "(if b then stated_steps is pc op s ((set_frame i f' t)\<lparr>tt_tmpCallLocation := loc\<rparr>) d1
      else Some ((set_frame i f' t)\<lparr>tt_tmpCallLocation := loc\<rparr>, d1)) = Some (t', d')"
    by (auto simp: Let_def)
  have "still t ((set_frame i f' t)\<lparr>tt_tmpCallLocation := loc\<rparr>)"
    using still_set_frame [OF f(1) keeps_stated [OF f(2)]] by (simp add: still_def)
  with rest Cons.IH show ?case by (auto split: if_split_asm intro: still_trans)
qed (simp add: still_def)

lemma still_CaptureState: "tt_CaptureState t d pc op g cost s rd dp err = Some (t', d') \<Longrightarrow> still t t'"
  by (auto simp: tt_CaptureState_def split: if_split_asm dest: still_log still_steps intro: still_trans)

section \<open>Entering and leaving a call\<close>

text \<open>The frame \<open>n\<close> is on top, stated exactly when it is the last stated call.\<close>

definition entered :: "tx_tracer \<Rightarrow> call_head \<Rightarrow> tx_tracer \<Rightarrow> bool" where
  "entered t h t' \<longleftrightarrow> (let n = length (tt_frames t) in
     calm_but {} t t' \<and> length (tt_frames t') = Suc n \<and> tt_callstack t' = tt_callstack t @ [Some n] \<and>
     (\<exists>f. frame_at t' n = Some f \<and> head_of f = h \<and> cf_Calls f = [] \<and> (cf_IsState f \<longrightarrow> tt_isRecordState t) \<and>
        tt_statedCall t' = tt_statedCall t @ (if cf_IsState f then [n] else [])))"

definition started :: "byte \<Rightarrow> address \<Rightarrow> address \<Rightarrow> int option \<Rightarrow> bytes \<Rightarrow> u64 \<Rightarrow> call_head" where
  "started typ src dst v inp g =
     \<lparr>hd_Type = typ, hd_From = src, hd_To = Some dst, hd_Value = v, hd_Input = inp, hd_Output = [], hd_Gas = g,
      hd_GasUsed = 0, hd_Error = None\<rparr>"

lemma keeps_fresh:
  "keeps (fresh_frame typ src dst b inp g v\<lparr>cf_IsState := s\<rparr>) f \<Longrightarrow>
     head_of f = started typ src dst v inp g \<and> cf_Calls f = [] \<and> cf_IsState f = s"
  by (simp add: keeps_def fresh_frame_def head_of_def started_def)

lemma keeps_fresh0: "keeps (fresh_frame typ src dst b inp g v) f \<Longrightarrow>
     head_of f = started typ src dst v inp g \<and> cf_Calls f = [] \<and> \<not> cf_IsState f"
  by (simp add: keeps_def fresh_frame_def head_of_def started_def)

lemma keeps_enter_state:
  "enter_state ord t inh call typ src dst v d = Some (call', d') \<Longrightarrow> keeps (call\<lparr>cf_IsState := True\<rparr>) call'"
  by (auto simp: enter_state_def Let_def split: if_split_asm prod.split_asm
      dest!: kept_by [where f = "call\<lparr>cf_IsState := True\<rparr>"])

lemma keeps_start_state:
  "start_state call src dst cr v d = Some (call', d') \<Longrightarrow> keeps (call\<lparr>cf_IsState := True\<rparr>) call'"
  by (auto simp: start_state_def Let_def split: if_split_asm prod.split_asm
      dest!: kept_by [where f = "call\<lparr>cf_IsState := True\<rparr>"])

lemma new_frame_calm:
  "calm_but {} t (t\<lparr>tt_frames := tt_frames t @ [f]\<rparr>)"
  "frame_at (t\<lparr>tt_frames := tt_frames t @ [f]\<rparr>) (length (tt_frames t)) = Some f"
  by (auto simp: calm_but_def nth_append frame_at_def idx_def)

lemma calm_new_set:
  "calm_but {} t (set_frame (length (tt_frames t)) g (t\<lparr>tt_frames := tt_frames t @ [f], tt_callstack := cs\<rparr>))"
  by (auto simp: calm_but_def set_frame_def nth_append list_update_append)

lemma entered_Enter:
  assumes "tt_CaptureEnter ord t d typ src dst inp g v = Some (t', d')" "tt_callstack t \<noteq> []"
  shows "entered t (started typ src dst v inp g) t'"
proof -
  let ?n = "length (tt_frames t)"
  obtain c d1 where c: "GetCode d dst = (c, d1)" by fastforce
  let ?f = "fresh_frame typ src dst (slice_of c \<noteq> []) inp g v\<lparr>cf_CallLocation := tt_tmpCallLocation t\<rparr>"
  let ?t1 = "t\<lparr>tt_frames := tt_frames t @ [fresh_frame typ src dst (slice_of c \<noteq> []) inp g v],
     tt_callstack := tt_callstack t @ [Some ?n]\<rparr>"
  have keep: "keeps (fresh_frame typ src dst (slice_of c \<noteq> []) inp g v) ?f" by simp
  from assms c consider (plain) "t' = set_frame ?n ?f ?t1"
    | (stated) f where "tt_isRecordState t" "keeps (?f\<lparr>cf_IsState := True\<rparr>) f"
        "t' = set_frame ?n f (?t1\<lparr>tt_statedCall := tt_statedCall t @ [?n]\<rparr>)"
    by (auto simp: tt_CaptureEnter_def new_frame_def Let_def split: if_split_asm dest!: keeps_enter_state)
  then show ?thesis
  proof cases
    case plain
    with keeps_fresh0 [OF keep] show ?thesis by (simp add: entered_def Let_def calm_new_set)
  next
    case stated
    have "head_of f = started typ src dst v inp g \<and> cf_Calls f = [] \<and> cf_IsState f"
      using stated(2) by (simp add: keeps_def fresh_frame_def head_of_def started_def)
    then show ?thesis using stated(1,3) by (simp add: entered_def Let_def calm_new_set set_frame_def calm_but_def nth_append list_update_append frame_at_def idx_def)
  qed
qed

definition finished :: "call_head \<Rightarrow> bytes \<Rightarrow> u64 \<Rightarrow> vm_error option \<Rightarrow> call_head" where
  "finished h out used err = ended (hd_Type h) (hd_From h) (case hd_To h of None \<Rightarrow> 0 | Some a \<Rightarrow> a) (hd_Value h)
     (hd_Input h) (hd_Gas h) out used err"

lemma head_processOutput:
  assumes "head_of f = started typ src dst v inp g"
  shows "head_of (processOutput (f\<lparr>cf_GasUsed := used\<rparr>) out err) = ended typ src dst v inp g out used err \<and>
    cf_Calls (processOutput (f\<lparr>cf_GasUsed := used\<rparr>) out err) = cf_Calls f \<and>
    cf_IsState (processOutput (f\<lparr>cf_GasUsed := used\<rparr>) out err) = cf_IsState f"
  using assms by (cases err) (auto simp: head_of_def started_def processOutput_def ended_def Let_def)

text \<open>The end of the state of a call.\<close>

lemma end_state_ok:
  assumes "end_state ord i t d = Some (t', d')" "frame_at t i = Some f"
    "cf_IsState f \<longrightarrow> tt_isRecordState t" "tt_statedCall t = sc @ (if cf_IsState f then [j] else [])"
  shows "calm_but {} t t' \<and> length (tt_frames t') = length (tt_frames t) \<and> tt_callstack t' = tt_callstack t \<and> tt_statedCall t' = sc"
  using assms by (auto simp: end_state_def split: if_split_asm prod.split_asm intro!: calm_set_frame [OF assms(2)] dest: keeps_end [OF _ keeps_refl])

definition exited :: "tx_tracer \<Rightarrow> nat \<Rightarrow> nat \<Rightarrow> call_head \<Rightarrow> tx_tracer \<Rightarrow> bool" where
  "exited t p i h t' \<longleftrightarrow> calm_but {p, i} t t' \<and>
     (\<exists>f f'. frame_at t i = Some f \<and> frame_at t' i = Some f' \<and> head_of f' = h \<and> cf_Calls f' = cf_Calls f) \<and>
     (\<exists>g g'. frame_at t p = Some g \<and> frame_at t' p = Some g' \<and> head_of g' = head_of g \<and>
        cf_IsState g' = cf_IsState g \<and> cf_Calls g' = cf_Calls g @ [i])"

lemma exited_Exit:
  assumes x: "tt_CaptureExit ord t d out used err = Some (t', d')" "tt_callstack t = ks @ [Some p, Some i]" "i \<noteq> p"
    and f: "frame_at t i = Some f" "head_of f = started typ src dst v inp g"
    and st: "cf_IsState f \<longrightarrow> tt_isRecordState t" "tt_statedCall t = sc @ (if cf_IsState f then [i] else [])"
  shows "exited t p i (ended typ src dst v inp g out used err) t' \<and> tt_callstack t' = ks @ [Some p] \<and> tt_statedCall t' = sc"
proof -
  let ?f = "processOutput (f\<lparr>cf_GasUsed := used\<rparr>) out err"
  note h = head_processOutput [OF f(2), of used out err]
  let ?t1 = "set_frame i ?f (t\<lparr>tt_callstack := ks @ [Some p]\<rparr>)"
  have b: "butlast (tt_callstack t) = ks @ [Some p]" "last (tt_callstack t) = Some i"
    unfolding x(2) by (simp_all add: butlast_append)
  obtain q where q: "frame_at ?t1 p = Some q"
    and e: "end_state ord i (set_frame p (q\<lparr>cf_Calls := cf_Calls q @ [i]\<rparr>) ?t1) d = Some (t', d')"
    using x(1) f(1) unfolding tt_CaptureExit_def b by (auto simp: Let_def x(2))
  let ?t2 = "set_frame p (q\<lparr>cf_Calls := cf_Calls q @ [i]\<rparr>) ?t1"
  have q': "frame_at t p = Some q" using q x(3) by simp
  have i2: "frame_at ?t2 i = Some ?f" using f(1) x(3) by (simp add: frame_at_iff)
  have p2: "frame_at ?t2 p = Some (q\<lparr>cf_Calls := cf_Calls q @ [i]\<rparr>)" using q' by (simp add: frame_at_iff)
  note ok = end_state_ok [OF e i2, of sc i]
  have e': "calm_but {} ?t2 t'" "length (tt_frames t') = length (tt_frames t)" "tt_callstack t' = ks @ [Some p]"
    "tt_statedCall t' = sc" using ok h st by simp_all
  have "calm_but {p, i} t ?t2"
    using f(1) q' x(3) by (auto simp: calm_but_def set_frame_def frame_at_iff nth_list_update)
  then have c: "calm_but {p, i} t t'" using calm_mono [OF e'(1)] by (blast intro: calm_trans)
  obtain f' where f': "frame_at t' i = Some f'" "keeps ?f f'" by (rule calm_at [OF e'(1) i2]) simp_all
  obtain q2 where q2: "frame_at t' p = Some q2" "keeps (q\<lparr>cf_Calls := cf_Calls q @ [i]\<rparr>) q2"
    by (rule calm_at [OF e'(1) p2]) simp_all
  have "head_of (q\<lparr>cf_Calls := cf_Calls q @ [i]\<rparr>) = head_of q" by (simp add: head_of_def)
  with f' q2 have "exited t p i (ended typ src dst v inp g out used err) t'"
    using c h f(1) q' by (simp add: exited_def keeps_def)
  with e'(3,4) show ?thesis by blast
qed

section \<open>The tree\<close>

text \<open>Events under the call of frame \<open>p\<close> add their calls to it and leave the rest alone.\<close>

definition grown :: "tx_tracer \<Rightarrow> nat \<Rightarrow> call_node list \<Rightarrow> tx_tracer \<Rightarrow> bool" where
  "grown t p ns t' \<longleftrightarrow> calm_but {p} t t' \<and> tt_callstack t' = tt_callstack t \<and> tt_statedCall t' = tt_statedCall t \<and>
     (\<exists>f f' ids. frame_at t p = Some f \<and> frame_at t' p = Some f' \<and> head_of f' = head_of f \<and>
        cf_IsState f' = cf_IsState f \<and> cf_Calls f' = cf_Calls f @ ids \<and>
        list_all2 (recorded (length (tt_frames t)) t') ids ns)"

lemma grown_refl: "frame_at t p = Some f \<Longrightarrow> grown t p [] t"
  by (simp add: grown_def)

lemma grown_trans:
  assumes a: "grown t p ns u" and b: "grown u p ms v"
  shows "grown t p (ns @ ms) v"
proof -
  obtain f f' ids where 1: "frame_at t p = Some f" "frame_at u p = Some f'" "head_of f' = head_of f"
    "cf_IsState f' = cf_IsState f" "cf_Calls f' = cf_Calls f @ ids" "list_all2 (recorded (length (tt_frames t)) u) ids ns"
    using a by (auto simp: grown_def)
  obtain f'' jds where 2: "frame_at v p = Some f''" "head_of f'' = head_of f'"
    "cf_IsState f'' = cf_IsState f'" "cf_Calls f'' = cf_Calls f' @ jds" "list_all2 (recorded (length (tt_frames u)) v) jds ms"
    using b 1(2) by (auto simp: grown_def)
  have p: "p < length (tt_frames t)" using 1(1) by (simp add: frame_at_iff)
  have "calm_but {p} u v" "calm_but {p} t u" using a b by (simp_all add: grown_def)
  then have "list_all2 (recorded (length (tt_frames t)) v) ids ns"
    using 1(6) p by (auto elim!: list.rel_mono_strong intro: recorded_calm)
  moreover have "length (tt_frames t) \<le> length (tt_frames u)" using \<open>calm_but {p} t u\<close> by (simp add: calm_but_def)
  then have "list_all2 (recorded (length (tt_frames t)) v) jds ms"
    using 2(5) by (auto elim!: list.rel_mono_strong intro: recorded_mono)
  ultimately have "list_all2 (recorded (length (tt_frames t)) v) (ids @ jds) (ns @ ms)" by (simp add: list_all2_appendI)
  with a b 1 2 show ?thesis unfolding grown_def by (auto intro: calm_trans)
qed

lemma grown_still: "still t t' \<Longrightarrow> frame_at t p = Some f \<Longrightarrow> grown t p [] t'"
  unfolding still_def grown_def
  by (auto simp: frame_at_iff calm_but_def keeps_def)

lemma run_events_grown:
  assumes "run_events ord evs t = Some t'" "tt_callstack t = ks @ [Some p]" "frame_at t p = Some f"
  shows "grown t p (calls_of evs) t'"
  using assms
proof (induction ord evs t arbitrary: t' ks p f rule: run_events.induct)
  case (1 ord t)
  then show ?case by (simp add: grown_refl)
next
  case (2 ord d pc op g cost s rd dp err evs t)
  then obtain u d1 where u: "tt_CaptureState t d pc op g cost s rd dp err = Some (u, d1)" "run_events ord evs u = Some t'"
    by auto
  have g1: "grown t p [] u" by (rule grown_still [OF still_CaptureState [OF u(1)] 2(4)])
  then obtain f' where "frame_at u p = Some f'" "tt_callstack u = ks @ [Some p]" using 2(3) by (auto simp: grown_def)
  from 2(1) [OF u(1) refl u(2) this(2,1)] grown_trans [OF g1] show ?case by fastforce
next
  case (3 ord d ty src dst inp g v inner d' out used err evs t)
  from 3(3) obtain u d1 w x d2 where en: "tt_CaptureEnter ord t d ty src dst inp g v = Some (u, d1)"
    and run: "run_events ord inner u = Some w"
    and ex: "tt_CaptureExit ord w d' out used err = Some (x, d2)" and rest: "run_events ord evs x = Some t'" by auto
  let ?n = "length (tt_frames t)"
  have ent: "entered t (started ty src dst v inp g) u" using entered_Enter [OF en] 3(4) by simp
  then obtain h where u: "frame_at u ?n = Some h" "head_of h = started ty src dst v inp g" "cf_Calls h = []"
    "cf_IsState h \<longrightarrow> tt_isRecordState t" "tt_statedCall u = tt_statedCall t @ (if cf_IsState h then [?n] else [])"
    "calm_but {} t u" "length (tt_frames u) = Suc ?n" "tt_callstack u = (ks @ [Some p]) @ [Some ?n]"
    using 3(4) by (auto simp: entered_def Let_def)
  have p: "p < ?n" using 3(5) by (simp add: frame_at_iff)
  have "grown u ?n (calls_of inner) w" by (rule 3(1) [OF en refl run u(8,1)])
  then obtain h' ids where w: "frame_at w ?n = Some h'" "head_of h' = started ty src dst v inp g" "cf_IsState h' = cf_IsState h"
    "cf_Calls h' = ids" "list_all2 (recorded (Suc ?n) w) ids (calls_of inner)" "calm_but {?n} u w"
    "tt_callstack w = ks @ [Some p, Some ?n]" "tt_statedCall w = tt_statedCall t @ (if cf_IsState h' then [?n] else [])"
    using u by (auto simp: grown_def)
  have rec: "tt_isRecordState w = tt_isRecordState t" using u(6) w(6) by (simp add: calm_but_def)
  have x: "exited w p ?n (ended ty src dst v inp g out used err) x" "tt_callstack x = ks @ [Some p]"
    "tt_statedCall x = tt_statedCall t"
    using exited_Exit [OF ex w(7) _ w(1,2) _ w(8)] p u(4) w(3) rec by simp_all
  then obtain k q q' where k: "frame_at x ?n = Some k" "head_of k = ended ty src dst v inp g out used err" "cf_Calls k = ids"
    and q: "frame_at w p = Some q" "frame_at x p = Some q'" "head_of q' = head_of q" "cf_IsState q' = cf_IsState q"
      "cf_Calls q' = cf_Calls q @ [?n]"
    using w(1,4) by (auto simp: exited_def)
  have wx: "calm_but {p, ?n} w x" using x(1) by (simp add: exited_def)
  have tx: "calm_but {p} t x"
    unfolding calm_but_def
  proof (intro conjI allI impI)
    show "length (tt_frames t) \<le> length (tt_frames x)" using u(7) w(6) wx by (simp add: calm_but_def)
    show "tt_isRecordState x = tt_isRecordState t" using rec wx by (simp add: calm_but_def)
    show "tt_gasLimit x = tt_gasLimit t" "tt_env x = tt_env t" using u(6) w(6) wx by (simp_all add: calm_but_def)
    fix j
    assume j: "j < ?n" "j \<notin> {p}"
    then have "keeps (tt_frames t ! j) (tt_frames u ! j)" "keeps (tt_frames u ! j) (tt_frames w ! j)"
      "keeps (tt_frames w ! j) (tt_frames x ! j)" using u(6,7) w(6) wx by (auto simp: calm_but_def)
    then show "keeps (tt_frames t ! j) (tt_frames x ! j)" by (blast intro: keeps_trans)
  qed
  have "list_all2 (recorded ?n x) ids (calls_of inner)"
    using w(5) p by (auto elim!: list.rel_mono_strong intro!: recorded_mono [OF recorded_calm [OF _ wx]])
  then have "recorded ?n x ?n (CallNode (ended ty src dst v inp g out used err) (calls_of inner))" using k by simp
  moreover have "keeps f q"
  proof -
    obtain f1 where f1: "frame_at u p = Some f1" "keeps f f1" by (rule calm_at [OF u(6) 3(5)]) simp_all
    obtain f2 where "frame_at w p = Some f2" "keeps f1 f2" by (rule calm_at [OF w(6) f1(1)]) (use p in simp_all)
    with f1 q(1) show ?thesis by (auto intro: keeps_trans)
  qed
  ultimately have "grown t p [CallNode (ended ty src dst v inp g out used err) (calls_of inner)] x"
    using tx x(2,3) 3(4,5) q by (auto simp: grown_def keeps_def)
  moreover have "grown x p (calls_of evs) t'" by (rule 3(2) [OF en refl run ex refl rest x(2) q(2)])
  ultimately show ?case using grown_trans by fastforce
qed

section \<open>A transaction\<close>

text \<open>All the tracer hears of a transaction whose outermost call has the given events.\<close>

definition run_tx :: "visiting \<Rightarrow> tx_tracer \<Rightarrow> u64 \<Rightarrow> statedb \<Rightarrow> address \<Rightarrow> address \<Rightarrow> bool \<Rightarrow> bytes \<Rightarrow> u64 \<Rightarrow> int \<Rightarrow>
    event list \<Rightarrow> statedb \<Rightarrow> bytes \<Rightarrow> u64 \<Rightarrow> vm_error option \<Rightarrow> u64 \<Rightarrow> tx_tracer option" where
  "run_tx ord t gasLimit d src dst isCreate inp g v evs d' out used err restGas = do {
     t \<leftarrow> tt_CaptureTxStart t gasLimit;
     (t, _) \<leftarrow> tt_CaptureStart t d src dst isCreate inp g v;
     t \<leftarrow> run_events ord evs t;
     (t, _) \<leftarrow> tt_CaptureEnd ord t d' out used err;
     tt_CaptureTxEnd t restGas }"

text \<open>A tracer that has traced nothing yet.\<close>

definition ready :: "tx_tracer \<Rightarrow> bool" where
  "ready t \<longleftrightarrow> tt_callstack t = [None] \<and> tt_statedCall t = []"

lemma CaptureStart_ok:
  assumes "tt_CaptureStart t d src dst cr inp g v = Some (t', d')" "ready t"
  shows "\<exists>f. tt_callstack t' = [Some (length (tt_frames t))] \<and> frame_at t' (length (tt_frames t)) = Some f \<and>
    head_of f = started (if cr then CREATE else CALL) src dst (Some v) inp (tt_gasLimit t) \<and> cf_Calls f = [] \<and>
    tt_gasLimit t' = tt_gasLimit t \<and> (cf_IsState f \<longrightarrow> tt_isRecordState t') \<and>
    length (tt_frames t') = Suc (length (tt_frames t)) \<and>
    tt_statedCall t' = (if cf_IsState f then [length (tt_frames t)] else [])"
proof -
  let ?n = "length (tt_frames t)"
  obtain c d1 where c: "GetCode d dst = (c, d1)" by fastforce
  let ?f = "fresh_frame (if cr then CREATE else CALL) src dst (slice_of c \<noteq> []) inp (tt_gasLimit t) (Some v)"
  let ?t1 = "t\<lparr>tt_frames := tt_frames t @ [?f], tt_callstack := [Some ?n], tt_env := True\<rparr>"
  have f: "frame_at ?t1 ?n = Some ?f" by (simp add: frame_at_def idx_def)
  from assms c consider (plain) "t' = ?t1"
    | (stated) f where "tt_isRecordState t" "keeps (?f\<lparr>cf_IsState := True\<rparr>) f"
        "t' = set_frame ?n f (?t1\<lparr>tt_statedCall := [?n]\<rparr>)"
    by (auto simp: tt_CaptureStart_def new_frame_def Let_def ready_def split: if_split_asm dest!: keeps_start_state)
  then show ?thesis
  proof cases
    case plain
    with keeps_fresh0 [OF keeps_refl, of "if cr then CREATE else CALL"] f assms(2) show ?thesis
      by (simp add: ready_def fresh_frame_def started_def head_of_def)
  next
    case stated
    then show ?thesis using keeps_fresh [OF stated(2)] by simp
  qed
qed

lemma CaptureTxEnd_ok:
  assumes "tt_CaptureTxEnd t rest = Some t'" "tt_callstack t = [Some i]" "frame_at t i = Some f"
  shows "t' = set_frame i (f\<lparr>cf_GasUsed := tt_gasLimit t - rest\<rparr>) t"
  using assms by (simp add: tt_CaptureTxEnd_def stack_at_def idx_def)

text \<open>
  C9: The tracer records the tree of the calls.  For a tracer that is ready, whatever steps and inner
  calls the EVM reports between the start and the end of the outermost call, and whatever the database
  is at each of them: if the tracer does not panic, the frame it hands out holds exactly that call with
  its gas used and how it ended, and below it, in order, the calls made, each with theirs; the list of
  stated calls is empty again.  How a call ended is its output when it succeeded and its error when it
  failed, never both: also after a revert the output is not recorded, because the test for a revert in
  \<open>processOutput\<close> compares with a new error and always fails; a creation that failed has no address.
\<close>

theorem run_tx_tree:
  assumes "ready t" "run_tx ord t gasLimit d src dst isCreate inp g v evs d' out used err restGas = Some t'"
  shows "\<exists>i. GetCallFrame t' = Some i \<and> tt_callstack t' = [Some i] \<and> tt_statedCall t' = [] \<and>
    recorded 0 t' i (CallNode (ended (if isCreate then CREATE else CALL) src dst (Some v) inp gasLimit out
      (gasLimit - restGas) err) (calls_of evs))"
proof -
  let ?h = "started (if isCreate then CREATE else CALL) src dst (Some v) inp gasLimit"
  from assms(2) obtain t1 d1 t2 t3 d3 where s: "tt_CaptureStart (t\<lparr>tt_gasLimit := gasLimit\<rparr>) d src dst isCreate inp g v = Some (t1, d1)"
    and r: "run_events ord evs t1 = Some t2" and e: "tt_CaptureEnd ord t2 d' out used err = Some (t3, d3)"
    and x: "tt_CaptureTxEnd t3 restGas = Some t'"
    by (auto simp: run_tx_def tt_CaptureTxStart_def)
  have "ready (t\<lparr>tt_gasLimit := gasLimit\<rparr>)" using assms(1) by (simp add: ready_def)
  from CaptureStart_ok [OF s this] obtain i f where 1: "tt_callstack t1 = [Some i]" "frame_at t1 i = Some f" "head_of f = ?h"
    "cf_Calls f = []" "tt_gasLimit t1 = gasLimit" "cf_IsState f \<longrightarrow> tt_isRecordState t1"
    "length (tt_frames t1) = Suc i" "tt_statedCall t1 = [] @ (if cf_IsState f then [i] else [])" by auto
  have "grown t1 i (calls_of evs) t2" using run_events_grown [OF r, of "[]" i f] 1 by simp
  then obtain f2 ids where 2: "tt_callstack t2 = [Some i]" "frame_at t2 i = Some f2" "head_of f2 = ?h" "cf_IsState f2 = cf_IsState f"
    "cf_Calls f2 = ids" "list_all2 (recorded (Suc i) t2) ids (calls_of evs)" "calm_but {i} t1 t2"
    "tt_statedCall t2 = [] @ (if cf_IsState f2 then [i] else [])"
    using 1 by (auto simp: grown_def)
  let ?f = "processOutput f2 out err"
  have f: "head_of (?f\<lparr>cf_GasUsed := u\<rparr>) = ended (if isCreate then CREATE else CALL) src dst (Some v) inp gasLimit out u err"
    "cf_Calls ?f = ids" "cf_IsState ?f = cf_IsState f2" for u
    using 2(3,5) by (cases err; auto simp: head_of_def started_def processOutput_def ended_def Let_def)+
  have i: "i < length (tt_frames t2)" using 2(2) by (simp add: frame_at_iff)
  have en: "end_state ord i (set_frame i ?f t2) d' = Some (t3, d3)"
    using e 2(1,2) by (simp add: tt_CaptureEnd_def stack_at_def idx_def)
  have rec: "tt_isRecordState t2 = tt_isRecordState t1" "tt_gasLimit t2 = gasLimit" using 2(7) 1(5) by (simp_all add: calm_but_def)
  have at: "frame_at (set_frame i ?f t2) i = Some ?f" using i by simp
  have c3: "calm_but {} (set_frame i ?f t2) t3" "tt_callstack t3 = [Some i]" "tt_statedCall t3 = []"
    using end_state_ok [OF en at, of "[]" i] f(3) 2(1,4,8) 1(6) rec by simp_all
  obtain f3 where f3: "frame_at t3 i = Some f3" "keeps ?f f3" by (rule calm_at [OF c3(1) at]) simp_all
  have t': "t' = set_frame i (f3\<lparr>cf_GasUsed := gasLimit - restGas\<rparr>) t3"
    using CaptureTxEnd_ok [OF x c3(2) f3(1)] c3(1) rec by (simp add: calm_but_def)
  have c23: "calm_but {i} t2 t'"
  proof -
    have "calm_but {i} t2 (set_frame i ?f t2)" by (rule calm_set_frame [OF 2(2)]) simp
    moreover have "calm_but {i} t3 t'" unfolding t' by (rule calm_set_frame [OF f3(1)]) simp
    ultimately show ?thesis using calm_mono [OF c3(1)] by (blast intro: calm_trans)
  qed
  have "list_all2 (recorded 0 t') ids (calls_of evs)"
    using 2(6) by (auto elim!: list.rel_mono_strong intro!: recorded_mono [OF recorded_calm [OF _ c23]])
  moreover have "frame_at t' i = Some (f3\<lparr>cf_GasUsed := gasLimit - restGas\<rparr>)" using f3(1) by (simp add: t' frame_at_iff)
  moreover have "head_of (f3\<lparr>cf_GasUsed := u\<rparr>) = head_of (?f\<lparr>cf_GasUsed := u\<rparr>)" for u
    using f3(2) by (simp add: keeps_def head_of_def)
  ultimately have "recorded 0 t' i (CallNode (ended (if isCreate then CREATE else CALL) src dst (Some v) inp gasLimit out
      (gasLimit - restGas) err) (calls_of evs))"
    using f f3(2) by (simp add: keeps_def)
  then show ?thesis using c3 by (simp add: t' GetCallFrame_def stack_at_def idx_def)
qed

section \<open>Without recorded states\<close>

text \<open>Logs the EVM can reach: their operands are on the stack and their memory range is sane.\<close>

definition log_fine :: "byte \<Rightarrow> scope \<Rightarrow> bool" where
  "log_fine op s \<longleftrightarrow> (op \<in> {LOG0, LOG1, LOG2, LOG3, LOG4} \<longrightarrow> 2 + unat (op - LOG0) \<le> length (Stack s) \<and>
     GetMemoryCopyPadded (Memory s) (Int64 (Stack s ! 0)) (Int64 (Stack s ! 1)) \<noteq> None)"

fun events_fine :: "event list \<Rightarrow> bool" where
  "events_fine [] = True"
| "events_fine (Step d pc op g cost s rd dp err # evs) \<longleftrightarrow> (err \<noteq> None \<or> log_fine op s) \<and> events_fine evs"
| "events_fine (Sub d typ src dst inp g v inner d' out used err # evs) \<longleftrightarrow> events_fine inner \<and> events_fine evs"

text \<open>A tracer in the middle of a transaction that records no states.\<close>

definition running :: "tx_tracer \<Rightarrow> bool" where
  "running t \<longleftrightarrow> \<not> tt_isRecordState t \<and> tt_env t \<and> tt_statedCall t = [] \<and>
     (\<exists>ks p f. tt_callstack t = ks @ [Some p] \<and> frame_at t p = Some f)"

lemma those_Some: "(\<And>x. x \<in> set xs \<Longrightarrow> f x \<noteq> None) \<Longrightarrow> \<exists>ys. those (map f xs) = Some ys"
  by (induction xs) (auto split: option.split)

lemma log_step_returns:
  assumes "log_fine op s" "running t"
  shows "\<exists>b t'. trace_log_step t op s = Some (b, t')"
proof (cases "op \<in> {LOG0, LOG1, LOG2, LOG3, LOG4}")
  case True
  then have l: "2 + unat (op - LOG0) \<le> length (Stack s)" using assms(1) unfolding log_fine_def by blast
  have "\<exists>ys. those (map (\<lambda>i. st_Back (Stack s) (2 + i)) [0..<unat (op - LOG0)]) = Some ys"
    using l by (intro those_Some) (auto simp: st_Back_def idx_def)
  moreover have "st_Back (Stack s) 0 = Some (Stack s ! 0)" "st_Back (Stack s) 1 = Some (Stack s ! 1)"
    using l by (auto simp: st_Back_def idx_def)
  moreover obtain r where "GetMemoryCopyPadded (Memory s) (Int64 (Stack s ! 0)) (Int64 (Stack s ! 1)) = Some r"
    using True assms(1) unfolding log_fine_def by blast
  moreover obtain ks p f where "tt_callstack t = ks @ [Some p]" "frame_at t p = Some f" using assms(2) by (auto simp: running_def)
  ultimately show ?thesis using True unfolding trace_log_step_def by (cases r) auto
qed (auto simp: trace_log_step_def)

lemma state_returns:
  assumes "err \<noteq> None \<or> log_fine op s" "running t"
  shows "\<exists>t' d'. tt_CaptureState t d pc op g cost s rd dp err = Some (t', d')"
proof (cases "err = None")
  case True
  then obtain b t1 where l: "trace_log_step t op s = Some (b, t1)" using log_step_returns assms by blast
  then have "tt_statedCall t1 = []" using still_log [OF l] assms(2) by (simp add: still_def running_def)
  with l True show ?thesis by (simp add: tt_CaptureState_def)
qed (simp add: tt_CaptureState_def)

lemma running_still: "running t \<Longrightarrow> still t t' \<Longrightarrow> running t'"
  unfolding running_def still_def by (force simp: calm_but_def frame_at_iff)

lemma running_grown: "running t \<Longrightarrow> tt_callstack t = ks @ [Some p] \<Longrightarrow> grown t p ns t' \<Longrightarrow> running t'"
  unfolding running_def grown_def by (force simp: calm_but_def)

lemma enter_returns:
  assumes "running t"
  shows "\<exists>t' d'. tt_CaptureEnter ord t d typ src dst inp g v = Some (t', d')"
  using assms by (auto simp: running_def tt_CaptureEnter_def new_frame_def Let_def split: prod.split)

lemma exit_returns:
  assumes "\<not> tt_isRecordState t" "tt_callstack t = ks @ [Some p, Some i]" "frame_at t i = Some f" "frame_at t p = Some q"
  shows "\<exists>t' d'. tt_CaptureExit ord t d out used err = Some (t', d')"
  using assms by (auto simp: tt_CaptureExit_def end_state_def Let_def butlast_append frame_at_iff)

lemma run_events_returns:
  assumes "events_fine evs" "running t"
  shows "\<exists>t'. run_events ord evs t = Some t'"
  using assms
proof (induction evs arbitrary: t rule: events_fine.induct)
  case (2 d pc op g cost s rd dp err evs)
  then obtain u d1 where u: "tt_CaptureState t d pc op g cost s rd dp err = Some (u, d1)" using state_returns by fastforce
  have "running u" by (rule running_still [OF 2(3) still_CaptureState [OF u]])
  with 2 u show ?case by simp
next
  case (3 d ty src dst inp g v inner d' out used err evs)
  then obtain u d1 where en: "tt_CaptureEnter ord t d ty src dst inp g v = Some (u, d1)" using enter_returns by blast
  obtain ks p f where t: "tt_callstack t = ks @ [Some p]" "frame_at t p = Some f" using 3(4) by (auto simp: running_def)
  let ?n = "length (tt_frames t)"
  have "entered t (started ty src dst v inp g) u" using entered_Enter [OF en] t by simp
  then obtain h where u: "frame_at u ?n = Some h" "cf_IsState h \<longrightarrow> tt_isRecordState t"
    "tt_statedCall u = tt_statedCall t @ (if cf_IsState h then [?n] else [])"
    "calm_but {} t u" "tt_callstack u = (ks @ [Some p]) @ [Some ?n]" using t by (auto simp: entered_def Let_def)
  have "running u" using 3(4) u by (simp add: running_def calm_but_def)
  with 3 obtain w where run: "run_events ord inner u = Some w" by auto
  have gr: "grown u ?n (calls_of inner) w" by (rule run_events_grown [OF run u(5,1)])
  obtain f1 where f1: "frame_at u p = Some f1" by (rule calm_at [OF u(4) t(2)]) simp_all
  have "p \<noteq> ?n" using t(2) by (auto simp: frame_at_iff)
  then obtain f2 where f2: "frame_at w p = Some f2" using calm_at [of "{?n}" u w p f1] gr f1 by (auto simp: grown_def)
  have w: "\<not> tt_isRecordState w" "tt_callstack w = ks @ [Some p, Some ?n]" "\<exists>h. frame_at w ?n = Some h"
    using gr u(4,5) 3(4) by (auto simp: grown_def calm_but_def running_def)
  then obtain x d2 where ex: "tt_CaptureExit ord w d' out used err = Some (x, d2)" using exit_returns f2 by blast
  have "run_events ord [Sub d ty src dst inp g v inner d' out used err] t = Some x" using en run ex by simp
  from running_grown [OF 3(4) t(1) run_events_grown [OF this t]] have "running x" .
  with 3 en run ex show ?case by auto
qed simp

lemma run_tx_some:
  assumes "ready t" "\<not> tt_isRecordState t" "events_fine evs"
  shows "\<exists>t'. run_tx ord t gasLimit d src dst isCreate inp g v evs d' out used err restGas = Some t'"
proof -
  let ?t = "t\<lparr>tt_gasLimit := gasLimit\<rparr>"
  obtain t1 d1 where s: "tt_CaptureStart ?t d src dst isCreate inp g v = Some (t1, d1)" "\<not> tt_isRecordState t1" "tt_env t1"
    using assms(1,2) by (cases "GetCode d dst") (auto simp: tt_CaptureStart_def new_frame_def Let_def ready_def)
  have "ready ?t" using assms(1) by (simp add: ready_def)
  from CaptureStart_ok [OF s(1) this] s(2) obtain i f where 1: "tt_callstack t1 = [] @ [Some i]" "frame_at t1 i = Some f"
    "tt_statedCall t1 = []" by auto
  then have run: "running t1" using s by (auto simp: running_def)
  obtain t2 where r: "run_events ord evs t1 = Some t2" using run_events_returns [OF assms(3) run] by blast
  have g: "grown t1 i (calls_of evs) t2" by (rule run_events_grown [OF r 1(1,2)])
  then obtain f2 where 2: "tt_callstack t2 = [Some i]" "frame_at t2 i = Some f2" "\<not> tt_isRecordState t2"
    using 1 s(2) by (auto simp: grown_def calm_but_def)
  then have "tt_CaptureEnd ord t2 d' out used err = Some (set_frame i (processOutput f2 out err) t2, d')"
    by (simp add: tt_CaptureEnd_def stack_at_def idx_def end_state_def frame_at_iff)
  moreover have "\<exists>t'. tt_CaptureTxEnd (set_frame i (processOutput f2 out err) t2) restGas = Some t'"
    using 2 by (simp add: tt_CaptureTxEnd_def stack_at_def idx_def frame_at_iff)
  ultimately show ?thesis using s(1) r by (simp add: run_tx_def tt_CaptureTxStart_def)
qed

text \<open>A call that reverts, with an inner call that succeeds, recorded without states.\<close>

definition demo_events :: "event list" where
  "demo_events = [Step (New demo_db None) 0 0x5b 90 1 \<lparr>sc_pc = 0, Stack = [], Memory = NewMemory,
       Contract = demo_contract [0x5b] 90\<rparr> [] 1 None,
     Sub (New demo_db None) STATICCALL 7 8 [1] 40 None [] (New demo_db None) [2] 10 None]"

definition demo_order :: visiting where
  "demo_order = \<lparr>v_accounts = id, v_slots = id\<rparr>"

lemma demo_events_fine: "events_fine demo_events" "ready NewTxTracer" "\<not> tt_isRecordState NewTxTracer"
  by (simp_all add: demo_events_def log_fine_def ready_def NewTxTracer_def)

lemma run_tx_tree_witness:
  "\<exists>t' i. run_tx demo_order NewTxTracer 100 (New demo_db None) 9 7 False [] 90 0 demo_events (New demo_db None) [] 60
     (Some ErrExecutionReverted) 40 = Some t' \<and>
   recorded 0 t' i (CallNode (ended CALL 9 7 (Some 0) [] 100 [] 60 (Some ErrExecutionReverted))
     [CallNode (ended STATICCALL 7 8 None [1] 40 [2] 10 None) []])"
proof -
  obtain t' where t: "run_tx demo_order NewTxTracer 100 (New demo_db None) 9 7 False [] 90 0 demo_events (New demo_db None) [] 60
     (Some ErrExecutionReverted) 40 = Some t'" using run_tx_some [OF demo_events_fine(2,3,1)] by blast
  from run_tx_tree [OF demo_events_fine(2) t] t show ?thesis by (auto simp: demo_events_def)
qed

text \<open>
  The end of a transaction whose outermost call was never started is a panic: \<open>TransitionDb\<close> reaches
  it when the intrinsic gas or the transfer is refused after \<open>CaptureTxStart\<close>.
\<close>

lemma CaptureTxEnd_panics: "ready t \<Longrightarrow> tt_CaptureTxEnd t restGas = None"
  by (simp add: ready_def tt_CaptureTxEnd_def stack_at_def idx_def)

end
