(* ===== verification/Transition.thy ===== *)
theory Transition
  imports CoreEvm Interpreter
begin

text \<open>
  \<^verbatim>\<open>core/state_transition.go\<close>: the intrinsic gas, the checks and the purchase of gas before a
  message is executed, its execution with and without the tracing of the account state, the refund
  and the fee.  \<^term>\<open>None\<close> is a panic; a consensus error is a value.
\<close>

section \<open>Results and errors\<close>

datatype core_error =
    ErrNonceTooHigh address u64 u64
  | ErrNonceTooLow address u64 u64
  | ErrNonceMax address u64
  | ErrSenderNoEOA address hash
  | ErrFeeCapVeryHigh address nat
  | ErrTipVeryHigh address nat
  | ErrTipAboveFeeCap address int int
  | ErrFeeCapTooLow address int int
  | ErrMissingBlobHashes
  | ErrBlobHashVersion nat byte
  | ErrBlobFeeCapTooLow address int int
  | ErrInsufficientFunds address int int
  | ErrGasLimitReached
  | ErrGasUintOverflow_core
  | ErrIntrinsicGas u64 u64
  | ErrInsufficientFundsForTransfer address
  | ErrMaxInitCodeSizeExceeded_core nat

record execution_result =
  UsedGas :: u64
  RefundedGas :: u64
  er_Err :: "vm_error option"
  er_ReturnData :: bytes

definition Unwrap :: "execution_result \<Rightarrow> vm_error option" where
  "Unwrap r = er_Err r"

definition Failed :: "execution_result \<Rightarrow> bool" where
  "Failed r \<longleftrightarrow> er_Err r \<noteq> None"

definition er_Return :: "execution_result \<Rightarrow> bytes" where
  "er_Return r = (if er_Err r \<noteq> None then [] else er_ReturnData r)"

definition er_Revert :: "execution_result \<Rightarrow> bytes" where
  "er_Revert r = (if er_Err r \<noteq> Some ErrExecutionReverted then [] else er_ReturnData r)"

section \<open>The intrinsic gas\<close>

definition StorageKeys :: "tx_access_list \<Rightarrow> nat" where
  "StorageKeys al = sum_list (map (\<lambda>(a, ks). length ks) al)"

definition IntrinsicGas :: "bytes \<Rightarrow> tx_access_list \<Rightarrow> bool \<Rightarrow> bool \<Rightarrow> bool \<Rightarrow> bool \<Rightarrow> core_error + u64" where
  "IntrinsicGas data al isContractCreation isHomestead isEIP2028 isEIP3860 =
     (let gas = (if isContractCreation \<and> isHomestead then TxGasContractCreation else TxGas);
          dataLen = of_nat (length data) :: u64;
          dataGas =
            (if dataLen > 0
             then let nz = of_nat (length (filter (\<lambda>b. b \<noteq> 0) data)) :: u64;
                      nonZeroGas = (if isEIP2028 then TxDataNonZeroGasEIP2028 else TxDataNonZeroGasFrontier)
               in if (MaxUint64 - gas) div nonZeroGas < nz then Inl ErrGasUintOverflow_core
                  else let gas = gas + nz * nonZeroGas; z = dataLen - nz
               in if (MaxUint64 - gas) div TxDataZeroGas < z then Inl ErrGasUintOverflow_core
                  else let gas = gas + z * TxDataZeroGas
               in if isContractCreation \<and> isEIP3860
                  then let lenWords = toWordSize dataLen
                       in if (MaxUint64 - gas) div InitCodeWordGas < lenWords then Inl ErrGasUintOverflow_core
                          else Inr (gas + lenWords * InitCodeWordGas)
                  else Inr gas
             else Inr gas)
      in case dataGas of
           Inl e \<Rightarrow> Inl e
         | Inr gas \<Rightarrow> Inr (gas + of_nat (length al) * TxAccessListAddressGas
                                + of_nat (StorageKeys al) * TxAccessListStorageKeyGas))"

section \<open>Messages\<close>

text \<open>What the code asks of a transaction; \<open>types.Sender\<close> is a parameter.\<close>

record transaction =
  tx_Nonce :: u64
  tx_Gas :: u64
  tx_GasPrice :: int
  tx_GasFeeCap :: int
  tx_GasTipCap :: int
  tx_To :: "address option"
  tx_Value :: int
  tx_Data :: bytes
  tx_AccessList :: tx_access_list
  tx_BlobHashes :: "hash list option"
  tx_BlobGasFeeCap :: "int option"

definition BigMin :: "int \<Rightarrow> int \<Rightarrow> int" where
  "BigMin x y = (if x > y then y else x)"

definition TransactionToMessage :: "(transaction \<Rightarrow> address \<times> string option) \<Rightarrow> transaction \<Rightarrow> int option \<Rightarrow>
    message \<times> string option" where
  "TransactionToMessage sender tx baseFee =
     (let price = (case baseFee of None \<Rightarrow> tx_GasPrice tx | Some b \<Rightarrow> BigMin (tx_GasTipCap tx + b) (tx_GasFeeCap tx));
          (from_addr, err) = sender tx
      in (\<lparr>msg_To = tx_To tx, msg_From = from_addr, msg_Nonce = tx_Nonce tx, msg_Value = tx_Value tx,
           msg_GasLimit = tx_Gas tx, msg_GasPrice = price, msg_GasFeeCap = Some (tx_GasFeeCap tx),
           msg_GasTipCap = Some (tx_GasTipCap tx), msg_Data = tx_Data tx, msg_AccessList = tx_AccessList tx,
           msg_BlobGasFeeCap = tx_BlobGasFeeCap tx, msg_BlobHashes = tx_BlobHashes tx,
           msg_SkipAccountChecks = False\<rparr>, err))"

section \<open>The state transition\<close>

record 't transition =
  gp :: u64
  msg :: message
  gasRemaining :: u64
  initialGas :: u64
  st_evm :: "'t evm"

definition NewStateTransition :: "'t evm \<Rightarrow> message \<Rightarrow> u64 \<Rightarrow> 't transition" where
  "NewStateTransition e m pool = \<lparr>gp = pool, msg = m, gasRemaining = 0, initialGas = 0, st_evm = e\<rparr>"

definition st_to :: "'t transition \<Rightarrow> address" where
  "st_to st = (case msg_To (msg st) of None \<Rightarrow> 0 | Some a \<Rightarrow> a)"

abbreviation st_db :: "'t transition \<Rightarrow> statedb" where "st_db st \<equiv> StateDB_of (st_evm st)"

definition upd_sdb :: "'t transition \<Rightarrow> statedb \<Rightarrow> 't transition" where
  "upd_sdb st d = st\<lparr>st_evm := upd_db (st_evm st) d\<rparr>"

definition gasUsed :: "'t transition \<Rightarrow> u64" where
  "gasUsed st = initialGas st - gasRemaining st"

definition blobGasUsed :: "message \<Rightarrow> u64" where
  "blobGasUsed m = of_nat (case msg_BlobHashes m of None \<Rightarrow> 0 | Some hs \<Rightarrow> length hs) * BlobTxBlobGasPerBlob"

definition is_cancun :: "'t env \<Rightarrow> bool" where
  "is_cancun E = IsCancun (chainConfig E) (Some (bc_BlockNumber (Context E))) (bc_Time (Context E))"

text \<open>What the sender must own and what is taken from it.\<close>

definition purchase :: "'t env \<Rightarrow> message \<Rightarrow> (int \<times> int) option" where
  "purchase E m = do {
     let mgval = uint (msg_GasLimit m) * msg_GasPrice m;
     let balanceCheck = (case msg_GasFeeCap m of None \<Rightarrow> mgval
                         | Some cap \<Rightarrow> uint (msg_GasLimit m) * cap + msg_Value m);
     if is_cancun E \<and> blobGasUsed m > 0 then do {
       cap \<leftarrow> msg_BlobGasFeeCap m;
       fee \<leftarrow> bc_BlobBaseFee (Context E);
       Some (balanceCheck + uint (blobGasUsed m) * cap, mgval + uint (blobGasUsed m) * fee) }
     else Some (balanceCheck, mgval) }"

definition buyGas :: "'t env \<Rightarrow> 't transition \<Rightarrow> (core_error option \<times> 't transition) option" where
  "buyGas E st = do {
     let m = msg st;
     (balanceCheck, mgval) \<leftarrow> purchase E m;
     let (have, d) = GetBalance (st_db st) (msg_From m);
     let st = upd_sdb st d;
     if have < balanceCheck then Some (Some (ErrInsufficientFunds (msg_From m) have balanceCheck), st)
     else let (ok, pool) = SubGas (gp st) (msg_GasLimit m)
     in if \<not> ok then Some (Some ErrGasLimitReached, st)
     else let st = st\<lparr>gp := pool, gasRemaining := gasRemaining st + msg_GasLimit m, initialGas := msg_GasLimit m\<rparr>
     in Some (None, upd_sdb st (SubBalance (st_db st) (msg_From m) mgval)) }"

text \<open>The checks of the account: its nonce and that it holds no code.\<close>

definition check_account :: "message \<Rightarrow> 't transition \<Rightarrow> core_error option \<times> 't transition" where
  "check_account m st =
     (if msg_SkipAccountChecks m then (None, st)
      else let (stNonce, d) = GetNonce (st_db st) (msg_From m); st = upd_sdb st d; msgNonce = msg_Nonce m
      in if stNonce < msgNonce then (Some (ErrNonceTooHigh (msg_From m) msgNonce stNonce), st)
         else if stNonce > msgNonce then (Some (ErrNonceTooLow (msg_From m) msgNonce stNonce), st)
         else if stNonce + 1 < stNonce then (Some (ErrNonceMax (msg_From m) stNonce), st)
         else let (codeHash, d) = GetCodeHash (st_db st) (msg_From m); st = upd_sdb st d
         in if codeHash \<noteq> 0 \<and> codeHash \<noteq> EmptyCodeHash (db (st_db st))
            then (Some (ErrSenderNoEOA (msg_From m) codeHash), st) else (None, st))"

definition bit_len :: "int \<Rightarrow> nat" where
  "bit_len i = BitLen (nat \<bar>i\<bar>)"

text \<open>The checks of the fees from London on; a nil fee is a panic where it is used.\<close>

definition check_fees :: "'t env \<Rightarrow> message \<Rightarrow> core_error option option" where
  "check_fees E m =
     (if \<not> IsLondon (chainConfig E) (Some (bc_BlockNumber (Context E))) then Some None
      else do {
        skipCheck \<leftarrow> (if cfg_NoBaseFee (Config E) then do {
            cap \<leftarrow> msg_GasFeeCap m;
            if bit_len cap = 0 then map_option (\<lambda>tip. bit_len tip = 0) (msg_GasTipCap m) else Some False }
          else Some False);
        if skipCheck then Some None
        else do {
          cap \<leftarrow> msg_GasFeeCap m;
          if bit_len cap > 256 then Some (Some (ErrFeeCapVeryHigh (msg_From m) (bit_len cap)))
          else do {
            tip \<leftarrow> msg_GasTipCap m;
            if bit_len tip > 256 then Some (Some (ErrTipVeryHigh (msg_From m) (bit_len tip)))
            else if cap < tip then Some (Some (ErrTipAboveFeeCap (msg_From m) tip cap))
            else do {
              baseFee \<leftarrow> bc_BaseFee (Context E);
              Some (if cap < baseFee then Some (ErrFeeCapTooLow (msg_From m) cap baseFee) else None) } } } })"

abbreviation (input) BlobTxHashVersion :: byte where "BlobTxHashVersion \<equiv> 0x01"

fun check_versions :: "nat \<Rightarrow> hash list \<Rightarrow> core_error option" where
  "check_versions i [] = None"
| "check_versions i (h # hs) =
     (let v = ucast (drop_bit 248 h) :: byte
      in if v \<noteq> BlobTxHashVersion then Some (ErrBlobHashVersion i v) else check_versions (i + 1) hs)"

definition check_blobs :: "message \<Rightarrow> core_error option" where
  "check_blobs m =
     (case msg_BlobHashes m of
        None \<Rightarrow> None
      | Some [] \<Rightarrow> Some ErrMissingBlobHashes
      | Some hs \<Rightarrow> check_versions 0 hs)"

definition check_blob_fee :: "'t env \<Rightarrow> message \<Rightarrow> core_error option option" where
  "check_blob_fee E m =
     (if is_cancun E \<and> blobGasUsed m > 0 then do {
        skipCheck \<leftarrow> (if cfg_NoBaseFee (Config E) then map_option (\<lambda>cap. bit_len cap = 0) (msg_BlobGasFeeCap m)
                      else Some False);
        if skipCheck then Some None
        else do {
          cap \<leftarrow> msg_BlobGasFeeCap m;
          fee \<leftarrow> bc_BlobBaseFee (Context E);
          Some (if cap < fee then Some (ErrBlobFeeCapTooLow (msg_From m) cap fee) else None) } }
      else Some None)"

definition preCheck :: "'t env \<Rightarrow> 't transition \<Rightarrow> (core_error option \<times> 't transition) option" where
  "preCheck E st = do {
     let m = msg st;
     let (err, st) = check_account m st;
     if err \<noteq> None then Some (err, st)
     else do {
       err \<leftarrow> check_fees E m;
       if err \<noteq> None then Some (err, st)
       else if check_blobs m \<noteq> None then Some (check_blobs m, st)
       else do {
         err \<leftarrow> check_blob_fee E m;
         if err \<noteq> None then Some (err, st) else buyGas E st } } }"

section \<open>Execution\<close>

definition tx_rules :: "'t env \<Rightarrow> rules" where
  "tx_rules E = Rules (chainConfig E) (Some (bc_BlockNumber (Context E))) (bc_Random (Context E) \<noteq> None) (bc_Time (Context E))"

text \<open>Notify the tracer, if there is one, of the start or the end of the transaction.\<close>

definition with_tx_tracer :: "('t \<Rightarrow> 't option) \<Rightarrow> 't transition \<Rightarrow> 't transition option" where
  "with_tx_tracer f st =
     (case Tracer (st_evm st) of
        None \<Rightarrow> Some st
      | Some t \<Rightarrow> do { t \<leftarrow> f t; Some (st\<lparr>st_evm := (st_evm st)\<lparr>Tracer := Some t\<rparr>\<rparr>) })"

text \<open>
  The checks after the purchase, and the preparation of the state; \<open>active\<close> is the list of active
  precompiled contracts, in the order of a Go map.
\<close>

definition prepare_message :: "'t env \<Rightarrow> (rules \<Rightarrow> address list) \<Rightarrow> 't transition \<Rightarrow>
    (core_error option \<times> 't transition) option" where
  "prepare_message E active st =
     (let m = msg st; r = tx_rules E; isCreation = (msg_To m = None)
      in case IntrinsicGas (msg_Data m) (msg_AccessList m) isCreation (ruleHomestead r) (ruleIstanbul r) (ruleShanghai r) of
           Inl err \<Rightarrow> Some (Some err, st)
         | Inr gas \<Rightarrow>
             if gasRemaining st < gas then Some (Some (ErrIntrinsicGas (gasRemaining st) gas), st)
             else let st = st\<lparr>gasRemaining := gasRemaining st - gas\<rparr>;
                      (ok, e) = (if msg_Value m > 0 then can_transfer E (msg_From m) (msg_Value m) (st_evm st)
                                 else (True, st_evm st));
                      st = st\<lparr>st_evm := e\<rparr>
             in if \<not> ok then Some (Some (ErrInsufficientFundsForTransfer (msg_From m)), st)
                else if ruleShanghai r \<and> isCreation \<and> length (msg_Data m) > MaxInitCodeSize
                then Some (Some (ErrMaxInitCodeSizeExceeded_core (length (msg_Data m))), st)
                else do {
                  d \<leftarrow> Prepare (st_db st) r (msg_From m) (bc_Coinbase (Context E)) (msg_To m) (active r) (msg_AccessList m);
                  Some (None, upd_sdb st d) })"

text \<open>Create a contract or call one, with all the gas that is left.\<close>

definition bump_nonce :: "'t transition \<Rightarrow> 't transition" where
  "bump_nonce st =
     (case GetNonce (st_db st) (msg_From (msg st)) of (n, d) \<Rightarrow>
        upd_sdb st (SetNonce d (msg_From (msg st)) (n + 1)))"

definition do_create :: "'t env \<Rightarrow> 't jump_table \<Rightarrow> 't transition \<Rightarrow>
    (bytes \<times> address \<times> vm_error option \<times> 't transition) option" where
  "do_create E jt st = do {
     (e, out, a, left, err) \<leftarrow> EVM_Create E jt (st_evm st) (AccountRef (msg_From (msg st))) (msg_Data (msg st))
        (gasRemaining st) (msg_Value (msg st));
     Some (out, a, err, st\<lparr>st_evm := e, gasRemaining := left\<rparr>) }"

definition do_call :: "'t env \<Rightarrow> 't jump_table \<Rightarrow> 't transition \<Rightarrow> (bytes \<times> vm_error option \<times> 't transition) option" where
  "do_call E jt st = do {
     (e, out, left, err) \<leftarrow> EVM_Call E jt (st_evm st) (AccountRef (msg_From (msg st))) (st_to st) (msg_Data (msg st))
        (gasRemaining st) (msg_Value (msg st));
     Some (out, err, st\<lparr>st_evm := e, gasRemaining := left\<rparr>) }"

definition execute_message :: "'t env \<Rightarrow> 't jump_table \<Rightarrow> 't transition \<Rightarrow>
    (bytes \<times> vm_error option \<times> 't transition) option" where
  "execute_message E jt st =
     (if msg_To (msg st) = None then do {
        (out, _, err, st) \<leftarrow> do_create E jt st;
        Some (out, err, st) }
      else do_call E jt (bump_nonce st))"

text \<open>The same with the account state recorded around it.\<close>

definition on_evm :: "('t evm \<Rightarrow> 't evm option) \<Rightarrow> 't transition \<Rightarrow> 't transition option" where
  "on_evm f st = map_option (\<lambda>e. st\<lparr>st_evm := e\<rparr>) (f (st_evm st))"

definition when_traced :: "'t env \<Rightarrow> ('t evm \<Rightarrow> 't evm option) \<Rightarrow> 't transition \<Rightarrow> 't transition option" where
  "when_traced E f st = (if TraceStateFlag E then on_evm f st else Some st)"

text \<open>The snapshot of the account state; without tracing there is none.\<close>

definition tx_snapshot :: "'t env \<Rightarrow> 't transition \<Rightarrow> AccountStateSnapshot option option" where
  "tx_snapshot E st =
     (if TraceStateFlag E then map_option (Some \<circ> ExportSnapshot) (account_state_of (st_evm st)) else Some None)"

definition record_end :: "'t env \<Rightarrow> AccountStateSnapshot option \<Rightarrow> vm_error option \<Rightarrow> address \<Rightarrow> address \<Rightarrow> 't evm \<Rightarrow> 't evm option" where
  "record_end E snapshot vmerr sender toAddr e = do {
     e \<leftarrow> (if vmerr \<noteq> None then Option.bind snapshot (\<lambda>s. revert_account_state E s e) else Some e);
     e \<leftarrow> record_balance sender e;
     e \<leftarrow> record_nonce sender e;
     e \<leftarrow> record_balance toAddr e;
     record_nonce toAddr e }"

definition execute_message_trace :: "'t env \<Rightarrow> 't jump_table \<Rightarrow> 't transition \<Rightarrow>
    (bytes \<times> vm_error option \<times> 't transition) option" where
  "execute_message_trace E jt st = do {
     (out, toAddr, vmerr, snapshot, st) \<leftarrow>
       (if msg_To (msg st) = None then do {
          snapshot \<leftarrow> tx_snapshot E st;
          (out, toAddr, vmerr, st) \<leftarrow> do_create E jt st;
          st \<leftarrow> when_traced E (record_code toAddr) st;
          Some (out, toAddr, vmerr, snapshot, st) }
        else do {
          st \<leftarrow> when_traced E (SetCodeBalanceNonce E (st_to st)) st;
          let st = bump_nonce st;
          st \<leftarrow> when_traced E (record_nonce (msg_From (msg st))) st;
          snapshot \<leftarrow> tx_snapshot E st;
          (out, vmerr, st) \<leftarrow> do_call E jt st;
          Some (out, st_to st, vmerr, snapshot, st) });
     st \<leftarrow> when_traced E (record_end E snapshot vmerr (msg_From (msg st)) toAddr) st;
     Some (out, vmerr, st) }"

section \<open>The refund and the fee\<close>

definition refundGas :: "u64 \<Rightarrow> 't transition \<Rightarrow> (u64 \<times> 't transition) option" where
  "refundGas refundQuotient st = do {
     let refund = gasUsed st div refundQuotient;
     let refund = (if refund > GetRefund (st_db st) then GetRefund (st_db st) else refund);
     let st = st\<lparr>gasRemaining := gasRemaining st + refund\<rparr>;
     let st = upd_sdb st (AddBalance (st_db st) (msg_From (msg st)) (uint (gasRemaining st) * msg_GasPrice (msg st)));
     pool \<leftarrow> AddGas (gp st) (gasRemaining st);
     Some (refund, st\<lparr>gp := pool\<rparr>) }"

definition pay_fee :: "'t env \<Rightarrow> 't transition \<Rightarrow> 't transition option" where
  "pay_fee E st = do {
     let m = msg st;
     effectiveTip \<leftarrow> (if ruleLondon (tx_rules E) then do {
         tip \<leftarrow> msg_GasTipCap m;
         cap \<leftarrow> msg_GasFeeCap m;
         baseFee \<leftarrow> bc_BaseFee (Context E);
         Some (BigMin tip (cap - baseFee)) }
       else Some (msg_GasPrice m));
     free \<leftarrow> (if cfg_NoBaseFee (Config E) then do {
         cap \<leftarrow> msg_GasFeeCap m;
         if cap = 0 then map_option (\<lambda>tip. tip = 0) (msg_GasTipCap m) else Some False }
       else Some False);
     Some (if free then st
           else upd_sdb st (AddBalance (st_db st) (bc_Coinbase (Context E)) (uint (gasUsed st) * effectiveTip))) }"

definition finish_message :: "'t env \<Rightarrow> bytes \<times> vm_error option \<times> 't transition \<Rightarrow>
    (execution_result \<times> 't transition) option" where
  "finish_message E r = (case r of (out, vmerr, st) \<Rightarrow> do {
     (gasRefund, st) \<leftarrow> refundGas (if \<not> ruleLondon (tx_rules E) then RefundQuotient else RefundQuotientEIP3529) st;
     st \<leftarrow> pay_fee E st;
     Some (\<lparr>UsedGas = gasUsed st, RefundedGas = gasRefund, er_Err = vmerr, er_ReturnData = out\<rparr>, st) })"

text \<open>
  From the checks to the result; \<open>exec\<close> is the execution.  The tracer is told of the start after
  the first checks, and of the end, by a deferred call, on every return after that.
\<close>

definition transition :: "'t env \<Rightarrow> (rules \<Rightarrow> address list) \<Rightarrow>
    ('t transition \<Rightarrow> (bytes \<times> vm_error option \<times> 't transition) option) \<Rightarrow> 't transition \<Rightarrow>
    ((core_error + execution_result) \<times> 't transition) option" where
  "transition E active exec st = do {
     (err, st) \<leftarrow> preCheck E st;
     case err of
       Some err \<Rightarrow> Some (Inl err, st)
     | None \<Rightarrow> do {
         st \<leftarrow> with_tx_tracer (\<lambda>t. CaptureTxStart (Logger E) t (initialGas st)) st;
         (err, st) \<leftarrow> prepare_message E active st;
         (r, st) \<leftarrow> (case err of
             Some err \<Rightarrow> Some (Inl err, st)
           | None \<Rightarrow> do {
               r \<leftarrow> exec st;
               (res, st) \<leftarrow> finish_message E r;
               Some (Inr res, st) });
         st \<leftarrow> with_tx_tracer (\<lambda>t. CaptureTxEnd (Logger E) t (gasRemaining st)) st;
         Some (r, st) } }"

definition TransitionDb :: "'t env \<Rightarrow> 't jump_table \<Rightarrow> (rules \<Rightarrow> address list) \<Rightarrow> 't transition \<Rightarrow>
    ((core_error + execution_result) \<times> 't transition) option" where
  "TransitionDb E jt active st = transition E active (execute_message E jt) st"

definition TransitionDbTrace :: "'t env \<Rightarrow> 't jump_table \<Rightarrow> (rules \<Rightarrow> address list) \<Rightarrow> 't transition \<Rightarrow>
    ((core_error + execution_result) \<times> 't transition) option" where
  "TransitionDbTrace E jt active st = do {
     st \<leftarrow> when_traced E (\<lambda>e. Option.bind (CheckAndSetBalance E (msg_From (msg st)) e)
       (CheckAndSetNonce E (msg_From (msg st)))) st;
     transition E active (execute_message_trace E jt) st }"

definition ApplyMessage :: "'t env \<Rightarrow> 't jump_table \<Rightarrow> (rules \<Rightarrow> address list) \<Rightarrow> 't evm \<Rightarrow> message \<Rightarrow> u64 \<Rightarrow>
    ((core_error + execution_result) \<times> 't transition) option" where
  "ApplyMessage E jt active e m pool = TransitionDb E jt active (NewStateTransition e m pool)"

definition ApplyMessageTrace :: "'t env \<Rightarrow> 't jump_table \<Rightarrow> (rules \<Rightarrow> address list) \<Rightarrow> 't evm \<Rightarrow> message \<Rightarrow> u64 \<Rightarrow>
    ((core_error + execution_result) \<times> 't transition) option" where
  "ApplyMessageTrace E jt active e m pool = TransitionDbTrace E jt active (NewStateTransition e m pool)"

end
