(* ===== verification/JumpTable_Code.thy ===== *)
theory JumpTable_Code
  imports JumpTable
begin

text \<open>
  Which code an interpreter can dispatch to: every operation of every table the interpreter can be
  given, with its hook, is one of a fixed set of instructions.  What holds of the instructions of that
  set holds of whatever the interpreter runs.
\<close>

section \<open>The instructions\<close>

definition plain_instructions :: "'t executionFunc set" where
  "plain_instructions =
     {opAdd, opSub, opMul, opDiv, opSdiv, opMod, opSmod, opExp, opSignExtend, opNot, opLt, opGt, opSlt, opSgt, opEq,
      opIszero, opAnd, opOr, opXor, opByte, opAddmod, opMulmod, opSHL, opSHR, opSAR, opKeccak256, opAddress, opBalance,
      opOrigin, opCaller, opCallValue, opCallDataLoad, opCallDataSize, opCallDataCopy, opReturnDataSize, opReturnDataCopy,
      opExtCodeSize, opCodeSize, opCodeCopy, opExtCodeCopy, opExtCodeHash, opGasprice, opBlockhash, opCoinbase, opTimestamp,
      opNumber, opDifficulty, opRandom, opGasLimit, opPop, opMload, opMstore, opMstore8, opSload, opJump, opJumpi,
      opJumpdest, opPc, opMsize, opGas, opPush1, opReturn, opRevert, opUndefined, opStop, opSelfBalance, opChainID,
      opTload, opBaseFee, opPush0, opMcopy, opBlobHash, opBlobBaseFee}
     \<union> {makePush sz n | sz n. True} \<union> {makeDup n | n. True} \<union> {makeSwap n | n. True}"

definition writing_instructions :: "'t executionFunc set" where
  "writing_instructions = {opSstore, opSstoreHook, opTstore, opSelfdestruct, opSelfdestruct6780, opSelfdestructHook}
     \<union> {makeLog n | n. True}"

definition calling_instructions :: "'t executionFunc set" where
  "calling_instructions = {opCreate, opCreate2, opCall, opCallCode, opDelegateCall, opStaticCall}"

definition instruction_set :: "'t executionFunc set" where
  "instruction_set = plain_instructions \<union> writing_instructions \<union> calling_instructions"

lemma plain_in [simp]:
  "opAdd \<in> plain_instructions" "opSub \<in> plain_instructions" "opMul \<in> plain_instructions" "opDiv \<in> plain_instructions"
  "opSdiv \<in> plain_instructions" "opMod \<in> plain_instructions" "opSmod \<in> plain_instructions" "opExp \<in> plain_instructions"
  "opSignExtend \<in> plain_instructions" "opNot \<in> plain_instructions" "opLt \<in> plain_instructions" "opGt \<in> plain_instructions"
  "opSlt \<in> plain_instructions" "opSgt \<in> plain_instructions" "opEq \<in> plain_instructions" "opIszero \<in> plain_instructions"
  "opAnd \<in> plain_instructions" "opOr \<in> plain_instructions" "opXor \<in> plain_instructions" "opByte \<in> plain_instructions"
  "opAddmod \<in> plain_instructions" "opMulmod \<in> plain_instructions" "opSHL \<in> plain_instructions" "opSHR \<in> plain_instructions"
  "opSAR \<in> plain_instructions" "opKeccak256 \<in> plain_instructions" "opAddress \<in> plain_instructions"
  "opBalance \<in> plain_instructions" "opOrigin \<in> plain_instructions" "opCaller \<in> plain_instructions"
  "opCallValue \<in> plain_instructions" "opCallDataLoad \<in> plain_instructions" "opCallDataSize \<in> plain_instructions"
  "opCallDataCopy \<in> plain_instructions" "opReturnDataSize \<in> plain_instructions" "opReturnDataCopy \<in> plain_instructions"
  "opExtCodeSize \<in> plain_instructions" "opCodeSize \<in> plain_instructions" "opCodeCopy \<in> plain_instructions"
  "opExtCodeCopy \<in> plain_instructions" "opExtCodeHash \<in> plain_instructions" "opGasprice \<in> plain_instructions"
  "opBlockhash \<in> plain_instructions" "opCoinbase \<in> plain_instructions" "opTimestamp \<in> plain_instructions"
  "opNumber \<in> plain_instructions" "opDifficulty \<in> plain_instructions" "opRandom \<in> plain_instructions"
  "opGasLimit \<in> plain_instructions" "opPop \<in> plain_instructions" "opMload \<in> plain_instructions"
  "opMstore \<in> plain_instructions" "opMstore8 \<in> plain_instructions" "opSload \<in> plain_instructions"
  "opJump \<in> plain_instructions" "opJumpi \<in> plain_instructions" "opJumpdest \<in> plain_instructions" "opPc \<in> plain_instructions"
  "opMsize \<in> plain_instructions" "opGas \<in> plain_instructions" "opPush1 \<in> plain_instructions" "opReturn \<in> plain_instructions"
  "opRevert \<in> plain_instructions" "opUndefined \<in> plain_instructions" "opStop \<in> plain_instructions"
  "opSelfBalance \<in> plain_instructions" "opChainID \<in> plain_instructions" "opTload \<in> plain_instructions"
  "opBaseFee \<in> plain_instructions" "opPush0 \<in> plain_instructions" "opMcopy \<in> plain_instructions"
  "opBlobHash \<in> plain_instructions" "opBlobBaseFee \<in> plain_instructions"
  "makePush sz n \<in> plain_instructions" "makeDup n \<in> plain_instructions" "makeSwap n \<in> plain_instructions"
  unfolding plain_instructions_def by blast+

lemma instruction_in [simp]:
  "f \<in> plain_instructions \<Longrightarrow> f \<in> instruction_set"
  "opSstore \<in> instruction_set" "opSstoreHook \<in> instruction_set" "opTstore \<in> instruction_set"
  "opSelfdestruct \<in> instruction_set" "opSelfdestruct6780 \<in> instruction_set" "opSelfdestructHook \<in> instruction_set"
  "makeLog n \<in> instruction_set" "opCreate \<in> instruction_set" "opCreate2 \<in> instruction_set" "opCall \<in> instruction_set"
  "opCallCode \<in> instruction_set" "opDelegateCall \<in> instruction_set" "opStaticCall \<in> instruction_set"
  unfolding instruction_set_def writing_instructions_def calling_instructions_def by blast+

section \<open>Tables\<close>

definition op_coded :: "'t operation \<Rightarrow> bool" where
  "op_coded x \<longleftrightarrow> execute x \<in> instruction_set \<and> (\<forall>h. executeHook x = Some h \<longrightarrow> h \<in> instruction_set)"

definition table_coded :: "'t jump_table \<Rightarrow> bool" where
  "table_coded jt \<longleftrightarrow> (\<forall>b. op_coded (jt b))"

named_theorems coded "operations and tables that dispatch to instructions"

lemma coded_mk [coded]: "op_coded (mk_op ex hook cg dg mn mx ms) \<longleftrightarrow>
    ex \<in> instruction_set \<and> (\<forall>h. hook = Some h \<longrightarrow> h \<in> instruction_set)"
  by (simp add: op_coded_def mk_op_def)

lemma coded_upd [coded]: "table_coded jt \<Longrightarrow> op_coded x \<Longrightarrow> table_coded (jt(b := x))"
  by (simp add: table_coded_def)

lemma coded_set [coded]: "table_coded jt \<Longrightarrow> table_coded (set_gas b c jt)" "table_coded jt \<Longrightarrow> table_coded (set_dyn b g jt)"
  by (auto simp: table_coded_def set_gas_def set_dyn_def op_coded_def)

lemma coded_validate: "validate jt = Some t \<Longrightarrow> table_coded jt \<Longrightarrow> table_coded t"
  by (simp add: validate_def split: if_split_asm)

lemma coded_activators [coded]:
  "table_coded jt \<Longrightarrow> table_coded (enable1884 jt)" "table_coded jt \<Longrightarrow> table_coded (enable1344 jt)"
  "table_coded jt \<Longrightarrow> table_coded (enable2200 jt)" "table_coded jt \<Longrightarrow> table_coded (enable2929 jt)"
  "table_coded jt \<Longrightarrow> table_coded (enable3529 jt)" "table_coded jt \<Longrightarrow> table_coded (enable3198 jt)"
  "table_coded jt \<Longrightarrow> table_coded (enable1153 jt)" "table_coded jt \<Longrightarrow> table_coded (enable3855 jt)"
  "table_coded jt \<Longrightarrow> table_coded (enable3860 jt)" "table_coded jt \<Longrightarrow> table_coded (enable5656 jt)"
  "table_coded jt \<Longrightarrow> table_coded (enable4844 jt)" "table_coded jt \<Longrightarrow> table_coded (enable7516 jt)"
  "table_coded jt \<Longrightarrow> table_coded (enable6780 jt)"
  by (simp_all add: coded Let_def enable1884_def enable1344_def enable2200_def enable2929_def enable3529_def enable3198_def
      enable1153_def enable3855_def enable3860_def enable5656_def enable4844_def enable7516_def enable6780_def)

lemma coded_entries: "list_all (\<lambda>(b, x). op_coded x) frontier_entries"
proof -
  have "list_all (\<lambda>(b, x). op_coded x) frontier_arith" by (simp add: frontier_arith_def coded)
  moreover have "list_all (\<lambda>(b, x). op_coded x) frontier_environment" by (simp add: frontier_environment_def coded)
  moreover have "list_all (\<lambda>(b, x). op_coded x) frontier_flow" by (simp add: frontier_flow_def coded)
  moreover have "list_all (\<lambda>(b, x). op_coded x) frontier_system" by (simp add: frontier_system_def coded)
  ultimately show ?thesis
    by (auto simp: frontier_entries_def frontier_pushes_def frontier_dups_def frontier_swaps_def list_all_iff coded)
qed

lemma coded_undefined: "op_coded undefined_op"
  by (simp add: undefined_op_def coded)

lemma coded_lookup:
  "list_all (\<lambda>(b, x). op_coded x) xs \<Longrightarrow> op_coded (case map_of xs b of Some x \<Rightarrow> x | None \<Rightarrow> undefined_op)"
  by (auto simp: list_all_iff coded_undefined dest: map_of_SomeD split: option.split)

lemma coded_frontier: "newFrontierInstructionSet = Some t \<Longrightarrow> table_coded t"
  unfolding newFrontierInstructionSet_def
  by (erule coded_validate) (simp add: table_coded_def coded_lookup [OF coded_entries])

lemma coded_step:
  "Option.bind m (\<lambda>t. validate (f t)) = Some t \<Longrightarrow> (\<And>t. m = Some t \<Longrightarrow> table_coded t) \<Longrightarrow>
   (\<And>t. table_coded t \<Longrightarrow> table_coded (f t)) \<Longrightarrow> table_coded t"
  by (auto simp: bind_eq_Some_conv intro: coded_validate)

lemma coded_homestead: "newHomesteadInstructionSet = Some t \<Longrightarrow> table_coded t"
  unfolding newHomesteadInstructionSet_def by (erule coded_step [OF _ coded_frontier]) (simp_all add: coded)

lemma coded_tangerine: "newTangerineWhistleInstructionSet = Some t \<Longrightarrow> table_coded t"
  unfolding newTangerineWhistleInstructionSet_def Let_def by (erule coded_step [OF _ coded_homestead]) (simp_all add: coded)

lemma coded_spurious: "newSpuriousDragonInstructionSet = Some t \<Longrightarrow> table_coded t"
  unfolding newSpuriousDragonInstructionSet_def by (erule coded_step [OF _ coded_tangerine]) (simp_all add: coded)

lemma coded_byzantium: "newByzantiumInstructionSet = Some t \<Longrightarrow> table_coded t"
  unfolding newByzantiumInstructionSet_def by (erule coded_step [OF _ coded_spurious]) (simp_all add: coded)

lemma coded_constantinople: "newConstantinopleInstructionSet = Some t \<Longrightarrow> table_coded t"
  unfolding newConstantinopleInstructionSet_def by (erule coded_step [OF _ coded_byzantium]) (simp_all add: coded)

lemma coded_istanbul: "newIstanbulInstructionSet = Some t \<Longrightarrow> table_coded t"
  unfolding newIstanbulInstructionSet_def by (erule coded_step [OF _ coded_constantinople]) (simp_all add: coded)

lemma coded_berlin: "newBerlinInstructionSet = Some t \<Longrightarrow> table_coded t"
  unfolding newBerlinInstructionSet_def by (erule coded_step [OF _ coded_istanbul]) (simp_all add: coded)

lemma coded_london: "newLondonInstructionSet = Some t \<Longrightarrow> table_coded t"
  unfolding newLondonInstructionSet_def by (erule coded_step [OF _ coded_berlin]) (simp_all add: coded)

lemma coded_merge: "newMergeInstructionSet = Some t \<Longrightarrow> table_coded t"
  unfolding newMergeInstructionSet_def by (erule coded_step [OF _ coded_london]) (simp_all add: coded)

lemma coded_shanghai: "newShanghaiInstructionSet = Some t \<Longrightarrow> table_coded t"
  unfolding newShanghaiInstructionSet_def by (erule coded_step [OF _ coded_merge]) (simp_all add: coded)

lemma coded_cancun: "newCancunInstructionSet = Some t \<Longrightarrow> table_coded t"
  unfolding newCancunInstructionSet_def by (erule coded_step [OF _ coded_shanghai]) (simp_all add: coded)

lemmas coded_forks = coded_frontier coded_homestead coded_tangerine coded_spurious coded_byzantium coded_constantinople
  coded_istanbul coded_berlin coded_london coded_merge coded_shanghai coded_cancun

lemma fork_table_coded: "fork_table r = Some t \<Longrightarrow> table_coded t"
  by (auto simp: fork_table_def split: if_split_asm intro: coded_forks)

lemma EnableEIP_coded: "EnableEIP eip jt = Some t \<Longrightarrow> table_coded jt \<Longrightarrow> table_coded t"
  by (auto simp: EnableEIP_def activators_def coded split: if_split_asm)

lemma enable_extra_coded: "table_coded jt \<Longrightarrow> table_coded (fst (enable_extra eips jt acc))"
  by (induction eips jt acc rule: enable_extra.induct) (auto split: option.split dest: EnableEIP_coded)

text \<open>Whatever the rules and the extra EIPs.\<close>

lemma interpreter_coded: "NewEVMInterpreter E0 = Some (jt, E) \<Longrightarrow> table_coded jt"
  using enable_extra_coded fork_table_coded
  by (fastforce simp: NewEVMInterpreter_def bind_eq_Some_conv case_prod_unfold Let_def)

end
