(* ===== verification/Frame_Depth.thy ===== *)
theory Frame_Depth
  imports Interpreter_Props JumpTable_Code
begin

text \<open>
  The recursion through calls is unrolled by depth; here is why the levels chosen are enough.  What an
  instruction at some depth does depends on the calls it is given only as far as they act at that
  depth, and beyond the deepest call that the EVM allows nothing is run: so the result is the same
  with more levels, and whatever stands below them.
\<close>

section \<open>Calls that agree at a depth\<close>

definition callees_agree :: "int \<Rightarrow> 't callees \<Rightarrow> 't callees \<Rightarrow> bool" where
  "callees_agree d K K' \<longleftrightarrow> (\<forall>e. sound_evm e \<and> depth e = d \<longrightarrow>
     c_Call K e = c_Call K' e \<and> c_CallCode K e = c_CallCode K' e \<and> c_DelegateCall K e = c_DelegateCall K' e \<and>
     c_StaticCall K e = c_StaticCall K' e \<and> c_Create K e = c_Create K' e \<and> c_Create2 K e = c_Create2 K' e)"

definition runners_agree :: "int \<Rightarrow> 't runner \<Rightarrow> 't runner \<Rightarrow> bool" where
  "runners_agree d run run' \<longleftrightarrow> (\<forall>e. sound_evm e \<and> depth e = d \<longrightarrow> run e = run' e)"

text \<open>Code whose effect at a depth is fixed by the calls at that depth.\<close>

definition by_depth :: "'t executionFunc \<Rightarrow> bool" where
  "by_depth f \<longleftrightarrow> (\<forall>K K' E e s. callees_agree (depth e) K K' \<and> sound_evm e \<longrightarrow> f K E (e, s) = f K' E (e, s))"

section \<open>Instructions\<close>

lemma by_depth_const: "(\<And>K K'. f K = f K') \<Longrightarrow> by_depth f"
  unfolding by_depth_def by metis

lemma plain_by_depth: "f \<in> plain_instructions \<Longrightarrow> by_depth f"
  unfolding plain_instructions_def
  by (elim UnE insertE CollectE exE conjE emptyE; hypsubst; rule by_depth_const;
      simp add: fun_eq_iff unary_def binary_def ternary_def pushes_def opAdd_def opSub_def opMul_def opDiv_def opSdiv_def opMod_def opSmod_def opExp_def opSignExtend_def opNot_def
        opLt_def opGt_def opSlt_def opSgt_def opEq_def opIszero_def opAnd_def opOr_def opXor_def opByte_def
        opAddmod_def opMulmod_def opSHL_def opSHR_def opSAR_def opKeccak256_def opAddress_def opBalance_def
        opOrigin_def opCaller_def opCallValue_def opCallDataLoad_def opCallDataSize_def opCallDataCopy_def
        opReturnDataSize_def opReturnDataCopy_def opExtCodeSize_def opCodeSize_def opCodeCopy_def opExtCodeCopy_def
        opExtCodeHash_def opGasprice_def opBlockhash_def opCoinbase_def opTimestamp_def opNumber_def opDifficulty_def
        opRandom_def opGasLimit_def opPop_def opMload_def opMstore_def opMstore8_def opSload_def opJump_def
        opJumpi_def opJumpdest_def opPc_def opMsize_def opGas_def opPush1_def opReturn_def opRevert_def
        opUndefined_def opStop_def opSelfBalance_def opChainID_def opTload_def opBaseFee_def opPush0_def opMcopy_def
        opBlobHash_def opBlobBaseFee_def makePush_def makeDup_def makeSwap_def)

lemma writing_by_depth: "f \<in> writing_instructions \<Longrightarrow> by_depth f"
  unfolding writing_instructions_def
  by (elim UnE insertE CollectE exE conjE emptyE; hypsubst; rule by_depth_const;
      simp add: fun_eq_iff opSstore_def opSstoreHook_def opTstore_def opSelfdestruct_def opSelfdestruct6780_def
        opSelfdestructHook_def makeLog_def)

lemma calling_by_depth: "f \<in> calling_instructions \<Longrightarrow> by_depth f"
  unfolding calling_instructions_def
  by (auto simp: by_depth_def callees_agree_def opCreate_def opCreate2_def opCall_def opCallCode_def opDelegateCall_def
      opStaticCall_def Let_def cong: if_cong)

lemma instruction_by_depth: "f \<in> instruction_set \<Longrightarrow> by_depth f"
  unfolding instruction_set_def using plain_by_depth writing_by_depth calling_by_depth by blast

lemma by_depthD: "by_depth f \<Longrightarrow> callees_agree (depth e) K K' \<Longrightarrow> sound_evm e \<Longrightarrow> f K E (e, s) = f K' E (e, s)"
  unfolding by_depth_def by blast

lemma coded_by_depth:
  assumes "table_coded jt"
  shows "by_depth (execute (jt b))" "executeHook (jt b) = Some h \<Longrightarrow> by_depth h"
  using assms by (auto simp: table_coded_def op_coded_def intro: instruction_by_depth)

section \<open>One iteration\<close>

lemma bind_agree: "(\<And>x. m = Some x \<Longrightarrow> f x = g x) \<Longrightarrow> Option.bind m f = Option.bind m g"
  by (cases m) auto

lemma bind_fst_agree: "m = m' \<Longrightarrow> Option.bind m f = Option.bind m' f"
  by simp

lemma agree_depth: "callees_agree (depth e) K K' \<Longrightarrow> evolves e e' \<Longrightarrow> callees_agree (depth e') K K'"
  by (simp add: evolves_depth)

lemma dispatch_agree:
  assumes "table_coded jt" "callees_agree (depth e) K K'" "sound_evm e"
  shows "dispatch K E jt b (e, s) = dispatch K' E jt b (e, s)"
proof -
  note code = coded_by_depth [OF assms(1)]
  have x: "execute (jt b) K E (e1, s) = execute (jt b) K' E (e1, s)" if "evolves e e1" for e1
    by (rule by_depthD [OF code(1) agree_depth [OF assms(2) that] evolves_sound [OF that]])
  have h: "h K E (e, s) = h K' E (e, s)" if "executeHook (jt b) = Some h" for h
    by (rule by_depthD [OF code(2) [OF that] assms(2,3)])
  note r = evolves_refl [OF assms(3)]
  have t: "execute (jt b) K E (e1, s) = execute (jt b) K' E (e1, s)" if "target_of b (e, s) = Some (to, e1)" for to e1
    using target_of_evolves [OF that r] x by blast
  have "opcodeExecutionHook K E jt b (e, s) = opcodeExecutionHook K' E jt b (e, s)"
    unfolding opcodeExecutionHook_def Let_def prod.case
    by (rule if_cong [OF refl], rule bind_agree, rule bind_agree, clarsimp simp: t,
        rule if_cong [OF refl], rule bind_agree, erule h, rule x [OF r])
  then show ?thesis by (simp add: dispatch_def x [OF r])
qed

lemma perform_agree:
  assumes "table_coded jt" "callees_agree (depth e) K K'" "sound_evm e"
  shows "perform K E jt i (e, s) = perform K' E jt i (e, s)"
  by (simp only: perform_dispatch dispatch_agree [OF assms])

context evm_host begin

lemma run_dynamic_agree:
  assumes code: "table_coded jt" and fair: "table_fair E jt" and K: "callees_agree (depth e) K K'"
    and e: "sound_evm e" "mem_ok (Memory s)" and dyn: "dynamicGas (jt (si_op i)) = Some dg"
  shows "run_dynamic K E jt i dg (e, s) = run_dynamic K' E jt i dg (e, s)"
proof -
  have gf: "gas_fair E (si_op i) (memorySize (jt (si_op i)) \<noteq> None) dg"
    using table_fairD(1) [OF fair, of "si_op i"] dyn by (simp add: op_fair_def)
  have ev: "evolves e e2"
    if "requested_memory (memorySize (jt (si_op i))) (Stack s) = Some (Inr sz)"
      "dg E (Stack s) sz (e, Contract s, Memory s) = Some ((e2, c2, m2), q)" for sz e2 c2 m2 q
  proof -
    have "memorySize (jt (si_op i)) \<noteq> None \<or> sz = 0"
      using that(1) by (auto simp: requested_memory_def split: option.split_asm)
    with gf e that(2) show ?thesis unfolding gas_fair_def by blast
  qed
  have p: "perform K E jt i' (e3, t) = perform K' E jt i' (e3, t)" if "evolves e e3" for e3 i' t
    by (rule perform_agree [OF code agree_depth [OF K that] evolves_sound [OF that]])
  show ?thesis
    unfolding run_dynamic_def prod.case
    apply (rule bind_agree, rule sum.case_cong [OF refl refl], rule bind_agree)
    subgoal premises prems for ms sz x
    proof -
      obtain e2 c2 m2 q where x: "x = ((e2, c2, m2), q)" by (metis surj_pair)
      note e2 = ev [OF prems(1) [unfolded prems(2)] prems(3) [unfolded x]]
      have t: "Option.bind (capture_state E i' s' None e2) (\<lambda>e. perform K E jt i' (e, t)) =
          Option.bind (capture_state E i' s' None e2) (\<lambda>e. perform K' E jt i' (e, t))" for i' s' t
        by (rule bind_agree) (rule p, rule capture_state_evolves [OF _ e2])
      show ?thesis by (cases q) (simp_all add: x t Let_def case_prod_unfold)
    qed
    done
qed

lemma run_step_agree:
  assumes code: "table_coded jt" and fair: "table_fair E jt" and K: "callees_agree (depth e) K K'"
    and e: "sound_evm e" "mem_ok (Memory s)"
  shows "run_step K E jt (e, s) = run_step K' E jt (e, s)"
proof -
  let ?b = "GetOp (Contract s) (sc_pc s)"
  note e0 = evolves_refl [OF e(1)]
  have h: "evolves e e1" if "(if TraceStateFlag E then beforeOpcodeExecutionHook E ?b (e, t) else Some e) = Some e1" for e1 t
    using that e0 before_hook_evolves [OF _ e0] by (cases "TraceStateFlag E") auto
  have dyn: "run_dynamic K E jt i dg (e1, t) = run_dynamic K' E jt i dg (e1, t)"
    if "evolves e e1" "mem_ok (Memory t)" "dynamicGas (jt (si_op i)) = Some dg" for e1 t i dg
    by (rule run_dynamic_agree [OF code fair agree_depth [OF K that(1)] evolves_sound [OF that(1)] that(2,3)])
  have perf: "Option.bind (capture_state E i s' None e1) (\<lambda>e. perform K E jt i' (e, t)) =
      Option.bind (capture_state E i s' None e1) (\<lambda>e. perform K' E jt i' (e, t))" if "evolves e e1" for e1 i i' s' t
    by (rule bind_agree)
      (rule perform_agree [OF code agree_depth [OF K] evolves_sound]; rule capture_state_evolves [OF _ that])
  obtain c ok where u: "UseGas (Contract s) (constantGas (jt ?b)) = (c, ok)" by fastforce
  have "(case dynamicGas (jt ?b) of Some g \<Rightarrow> run_dynamic K E jt i g (e1, s\<lparr>Contract := c\<rparr>)
        | None \<Rightarrow> Option.bind (capture_state E i (s\<lparr>Contract := c\<rparr>) None e1) (\<lambda>e. perform K E jt i (e, s\<lparr>Contract := c\<rparr>))) =
      (case dynamicGas (jt ?b) of Some g \<Rightarrow> run_dynamic K' E jt i g (e1, s\<lparr>Contract := c\<rparr>)
        | None \<Rightarrow> Option.bind (capture_state E i (s\<lparr>Contract := c\<rparr>) None e1) (\<lambda>e. perform K' E jt i (e, s\<lparr>Contract := c\<rparr>)))"
    if "evolves e e1" "si_op i = ?b" for e1 i
    using that e(2) by (cases "dynamicGas (jt ?b)") (simp_all add: perf dyn)
  then show ?thesis
    unfolding run_step_def Let_def prod.case u
    by (intro if_cong [OF refl refl] bind_agree) (auto dest: h)
qed

text \<open>The loop and a run.\<close>

lemma run_loop_agree:
  assumes code: "table_coded jt" and fair: "table_fair E jt" and f: "sound_frame K (e, s)"
    and K: "callees_agree (depth e) K K'"
  shows "run_loop n K E jt (e, s) = run_loop n K' E jt (e, s)"
  using f K
proof (induction n arbitrary: e s)
  case (Suc n)
  then have s: "sound_evm e" "mem_ok (Memory s)" by (simp_all add: sound_frame_def)
  have "run_loop n K E jt p = run_loop n K' E jt p" if "run_step K E jt (e, s) = Some (Next p)" for p
  proof -
    obtain e1 s1 where p: "p = (e1, s1)" by fastforce
    from run_step_steps [OF fair Suc.prems(1) that] have st: "steps_to (e, s) (Next (e1, s1))" by (simp add: p)
    then have "depth e1 = depth e" by (simp add: steps_to_def evolves_depth)
    with Suc.IH [OF steps_to_sound [OF Suc.prems(1) st]] Suc.prems(2) show ?thesis by (simp add: p)
  qed
  then show ?case
    by (simp add: run_step_agree [OF code fair Suc.prems(2) s, symmetric] split: option.split outcome.split)
qed simp

lemma Run_agree:
  assumes code: "table_coded jt" and fair: "table_fair E jt" and ok: "callees_ok (d + 1) K"
    and K: "callees_agree (d + 1) K K'"
  shows "runners_agree d (Run K E jt) (Run K' E jt)"
  unfolding runners_agree_def
proof (intro allI impI, elim conjE, intro ext)
  fix e :: "'t evm" and c input ro
  assume e: "sound_evm e" "depth e = d"
  let ?e = "e\<lparr>depth := depth e + 1, readOnly := readOnly e \<or> ro, returnData := []\<rparr>"
  have "sound_evm ?e" "depth ?e = d + 1" using e by (simp_all add: sound_evm_def)
  then have "run_loop (run_fuel c) K E jt (?e, \<lparr>sc_pc = 0, Stack = [], Memory = NewMemory, Contract = c\<lparr>Input := input\<rparr>\<rparr>) =
      run_loop (run_fuel c) K' E jt (?e, \<lparr>sc_pc = 0, Stack = [], Memory = NewMemory, Contract = c\<lparr>Input := input\<rparr>\<rparr>)"
    by (intro run_loop_agree [OF code fair]) (use ok K in \<open>simp_all add: sound_frame_def mem_ok_New\<close>)
  then show "Run K E jt e c input ro = Run K' E jt e c input ro"
    by (simp add: Run_def Let_def cong: if_cong)
qed

section \<open>Calls and creations\<close>

text \<open>Two runners that agree at the depth of \<open>e0\<close> agree wherever a call from \<open>e0\<close> enters one.\<close>

lemma runners_agreeD: "runners_agree (depth e0) run run' \<Longrightarrow> evolves e0 e \<Longrightarrow> run e = run' e"
  unfolding runners_agree_def using evolves_sound evolves_depth by blast

lemma reading_agree:
  "evolves e0 e \<Longrightarrow> (\<And>v e1. evolves e0 e1 \<Longrightarrow> k1 v e1 = k1' v e1) \<Longrightarrow>
     reading (\<lambda>d. GetCodeHash d a) k1 e = reading (\<lambda>d. GetCodeHash d a) k1' e"
  "evolves e0 e \<Longrightarrow> (\<And>v e1. evolves e0 e1 \<Longrightarrow> k2 v e1 = k2' v e1) \<Longrightarrow>
     reading (\<lambda>d. GetCode d a) k2 e = reading (\<lambda>d. GetCode d a) k2' e"
  "evolves e0 e \<Longrightarrow> (\<And>v e1. evolves e0 e1 \<Longrightarrow> k3 v e1 = k3' v e1) \<Longrightarrow>
     reading (\<lambda>d. Exist d a) k3 e = reading (\<lambda>d. Exist d a) k3' e"
  "evolves e0 e \<Longrightarrow> (\<And>v e1. evolves e0 e1 \<Longrightarrow> k4 v e1 = k4' v e1) \<Longrightarrow>
     reading (\<lambda>d. GetNonce d a) k4 e = reading (\<lambda>d. GetNonce d a) k4' e"
  by (simp_all add: reading_def case_prod_unfold evolves_upd_db grows_snd evolves_grows)

lemma run_contract_agree:
  "runners_agree (depth e0) run run' \<Longrightarrow> evolves e0 e \<Longrightarrow>
   run_contract run e c a h code input ro = run_contract run' e c a h code input ro"
  by (simp add: run_contract_def runners_agreeD)

lemma run_target_agree:
  assumes "runners_agree (depth e0) run run'" "evolves e0 e"
  shows "run_target run E e contract addr input gas ro = run_target run' E e contract addr input gas ro"
proof -
  have "reading (\<lambda>d. GetCodeHash d addr) (\<lambda>h. reading (\<lambda>d. GetCode d addr) (\<lambda>code e. run_contract run e c addr h code input ro)) e =
      reading (\<lambda>d. GetCodeHash d addr) (\<lambda>h. reading (\<lambda>d. GetCode d addr) (\<lambda>code e. run_contract run' e c addr h code input ro)) e" for c
    by (intro reading_agree [where ?e0.0 = e0] assms(2) run_contract_agree [OF assms(1)])
  then show ?thesis by (simp add: run_target_def cong: if_cong option.case_cong)
qed

lemma pair_agree: "(\<And>a b. p = (a, b) \<Longrightarrow> f a b = g a b) \<Longrightarrow> (case p of (a, b) \<Rightarrow> f a b) = (case p of (a, b) \<Rightarrow> g a b)"
  by (cases p) simp

text \<open>The middle that the calls share, from the snapshot on.\<close>

lemma middle_agree:
  assumes "runners_agree (depth e0) run run'" "evolves e0 e"
  shows "(let (c, e) = new_contract caller self v g e in
      Option.bind (run_target run E e (m c) addr input g' ro) k) =
    (let (c, e) = new_contract caller self v g e in
      Option.bind (run_target run' E e (m c) addr input g' ro) k)"
  unfolding Let_def
  by (rule pair_agree, rule bind_fst_agree, rule run_target_agree [OF assms(1)], drule new_contract_ok [OF _ assms(2)], simp)

lemma CallCode_agree:
  assumes "runners_agree (depth e) run run'" "sound_evm e"
  shows "CallCode run E e = CallCode run' E e"
proof (intro ext)
  fix caller addr input gas v
  note e0 = evolves_refl [OF assms(2)]
  show "CallCode run E e caller addr input gas v = CallCode run' E e caller addr input gas v"
    unfolding CallCode_def Let_def [of "can_transfer _ _ _ _"] Let_def [of "take_snapshot _"]
    by (rule if_cong [OF refl refl], rule pair_agree, rule if_cong [OF refl refl], rule pair_agree, rule bind_agree,
        rule middle_agree [OF assms(1)], rule capture_enter_ok, assumption, rule take_snapshot_evolves(1), assumption,
        rule can_transfer_ok [THEN conjunct1], assumption, rule e0)
qed

lemma DelegateCall_agree:
  assumes "runners_agree (depth e) run run'" "sound_evm e"
  shows "DelegateCall run E e = DelegateCall run' E e"
proof (intro ext)
  fix caller addr input gas
  note e0 = evolves_refl [OF assms(2)]
  have c: "evolves e e2" if "(if Tracer e1 = None then Some e1 else (case caller of AccountRef _ \<Rightarrow> None
      | ContractRef parent \<Rightarrow> capture_enter E DELEGATECALL (ref_Address caller) addr input gas (ct_value parent) e1)) = Some e2"
    "evolves e e1" for e1 e2
    using that by (cases "Tracer e1 = None"; cases caller) (auto intro: capture_enter_ok)
  show "DelegateCall run E e caller addr input gas = DelegateCall run' E e caller addr input gas"
    unfolding DelegateCall_def Let_def [of "take_snapshot _"]
    by (rule if_cong [OF refl refl], rule pair_agree, rule bind_agree, rule middle_agree [OF assms(1)], erule c,
        rule take_snapshot_evolves(1), assumption, rule e0)
qed

lemma StaticCall_agree:
  assumes "runners_agree (depth e) run run'" "sound_evm e"
  shows "StaticCall run E e = StaticCall run' E e"
proof (intro ext)
  fix caller addr input gas
  note e0 = evolves_refl [OF assms(2)]
  have t: "evolves e (upd_db e1 (AddBalance (StateDB_of e1) addr 0))" if "evolves e e1" for e1
    by (rule evolves_upd_db [OF that grows_writes(2) [OF evolves_grows [OF that]]])
  show "StaticCall run E e caller addr input gas = StaticCall run' E e caller addr input gas"
    unfolding StaticCall_def Let_def [of "take_snapshot _"] Let_def [of "upd_db _ _"]
    by (rule if_cong [OF refl refl], rule pair_agree, rule bind_agree, rule middle_agree [OF assms(1)],
        rule capture_enter_ok, assumption, rule t, rule take_snapshot_evolves(1), assumption, rule e0)
qed

lemma Call_agree:
  assumes "runners_agree (depth e) run run'" "sound_evm e"
  shows "Call run E e = Call run' E e"
proof (intro ext)
  fix caller addr input gas v
  note e0 = evolves_refl [OF assms(2)]
  have t: "evolves e e1" if "(if v \<noteq> 0 then can_transfer E (ref_Address caller) v e else (True, e)) = (ok, e1)" for ok e1
    using that e0 can_transfer_ok [OF _ e0] by (auto split: if_split_asm)
  have w: "evolves e (upd_db (if b then upd_db e1 (CreateAccount (StateDB_of e1) addr) else e1)
      (bc_Transfer (Context E) (StateDB_of (if b then upd_db e1 (CreateAccount (StateDB_of e1) addr) else e1)) f addr v))"
    if "evolves e e1" for e1 b f
    using that by (cases b) (auto intro: evolves_upd_db Transfer_grows grows_writes evolves_grows)
  have body: "reading (\<lambda>d. GetCode d addr) (\<lambda>code e. if slice_of code = [] then Some (e, [], gas, None)
        else case new_contract caller addr (Some v) gas e of (c, e) \<Rightarrow>
          reading (\<lambda>d. GetCodeHash d addr) (\<lambda>h e. run_contract run e c addr h code input False) e) e1 =
      reading (\<lambda>d. GetCode d addr) (\<lambda>code e. if slice_of code = [] then Some (e, [], gas, None)
        else case new_contract caller addr (Some v) gas e of (c, e) \<Rightarrow>
          reading (\<lambda>d. GetCodeHash d addr) (\<lambda>h e. run_contract run' e c addr h code input False) e) e1"
    if "evolves e e1" for e1
    by (rule reading_agree(2) [OF that], rule if_cong [OF refl refl], rule pair_agree,
        rule reading_agree(1) [where ?e0.0 = e], drule new_contract_ok, assumption, simp,
        rule run_contract_agree [OF assms(1)])
  show "Call run E e caller addr input gas v = Call run' E e caller addr input gas v"
    unfolding Call_def Let_def
    by (rule if_cong [OF refl refl], rule pair_agree, rule if_cong [OF refl refl], rule pair_agree,
        rule reading_agree(3) [where ?e0.0 = e], rule take_snapshot_evolves(1), assumption, erule t,
        rule if_cong [OF refl refl], rule bind_agree, rule bind_fst_agree, rule option.case_cong [OF refl _ refl],
        rule body, erule capture_begin_ok, erule w)
qed

lemma create_agree:
  assumes "runners_agree (depth e) run run'" "sound_evm e"
  shows "create run E e = create run' E e"
proof (intro ext)
  fix caller code codehash gas v addr ty
  note e0 = evolves_refl [OF assms(2)]
  have w1: "evolves e (if b then upd_db e1 (AddAddressToAccessList (StateDB_of e1) addr) else e1)" if "evolves e e1" for e1 b
    using that by (cases b) (auto intro: evolves_upd_db grows_writes evolves_grows)
  have w2: "evolves e (upd_db e1 (SetNonce (StateDB_of e1) a n))" "evolves e (upd_db e1 (CreateAccount (StateDB_of e1) a))"
    "evolves e (upd_db e1 (bc_Transfer (Context E) (StateDB_of e1) f a v))" if "evolves e e1" for e1 a n f
    using that by (auto intro: evolves_upd_db grows_writes Transfer_grows evolves_grows)
  have w3: "evolves e (if b then upd_db e1 (SetNonce (StateDB_of e1) addr 1) else e1)" if "evolves e e1" for e1 b
    using that w2(1) by (cases b) simp_all
  note w = w1 w2 w3
  show "create run E e caller code codehash gas v addr ty = create run' E e caller code codehash gas v addr ty"
    unfolding create_def Let_def
    by (rule if_cong [OF refl refl], rule pair_agree, rule if_cong [OF refl refl],
        rule reading_agree(4) [where ?e0.0 = e], erule can_transfer_ok [THEN conjunct1, OF _ e0], rule if_cong [OF refl refl],
        rule reading_agree(1) [where ?e0.0 = e], intro w, assumption,
        rule reading_agree(4) [where ?e0.0 = e], assumption, rule if_cong [OF refl refl], rule pair_agree, rule pair_agree, rule bind_agree,
        rule bind_fst_agree, rule runners_agreeD [OF assms(1), THEN fun_cong, THEN fun_cong, THEN fun_cong],
        erule capture_begin_ok, drule new_contract_ok [where ?e0.0 = e], rule w2(3), rule w3, rule w2(2), rule take_snapshot_evolves(1), assumption, assumption, simp)
qed

lemma Create_agree:
  assumes "runners_agree (depth e) run run'" "sound_evm e"
  shows "Create run E e = Create run' E e" "Create2 run E e = Create2 run' E e"
proof -
  have "create run E e1 = create run' E e1" if "evolves e e1" for e1
    by (rule create_agree) (use assms(1) evolves_sound [OF that] evolves_depth [OF that] in simp_all)
  then show "Create run E e = Create run' E e"
    unfolding Create_def
    by (intro ext reading_agree(4) [OF evolves_refl [OF assms(2)]] bind_agree) simp
  show "Create2 run E e = Create2 run' E e"
    by (intro ext) (simp add: Create2_def create_agree [OF assms])
qed

lemma callees_of_agree: "runners_agree d run run' \<Longrightarrow> callees_agree d (callees_of run E) (callees_of run' E)"
  unfolding callees_agree_def callees_of_def
  by (auto simp: Call_agree CallCode_agree DelegateCall_agree StaticCall_agree Create_agree)

text \<open>Beyond the deepest call nothing is run.\<close>

lemma callees_of_deep: "int CallCreateDepth < d \<Longrightarrow> callees_agree d (callees_of run E) (callees_of run' E)"
  unfolding callees_agree_def callees_of_def
  by (auto simp: fun_eq_iff Call_def CallCode_def DelegateCall_def StaticCall_def Create_def Create2_def create_def
      depth_exceeded_def reading_def upd_db_def split: prod.split)

text \<open>Levels beyond the depth that is left do not matter, nor what stands below them.\<close>

lemma run_at_agree:
  assumes code: "table_coded jt" and fair: "table_fair E jt"
    and "int CallCreateDepth < d + int n" "int CallCreateDepth < d + int m" "d \<le> int CallCreateDepth"
  shows "runners_agree d (run_at n no_runner E jt) (run_at m Z E jt)"
  using assms(3-5)
proof (induction n arbitrary: d m)
  case (Suc n)
  then obtain m' where m: "m = Suc m'" by (cases m) auto
  have "callees_agree (d + 1) (callees_of (run_at n no_runner E jt) E) (callees_of (run_at m' Z E jt) E)"
  proof (cases "d + 1 \<le> int CallCreateDepth")
    case True
    with Suc.prems m show ?thesis by (intro callees_of_agree Suc.IH) auto
  next
    case False
    then show ?thesis by (intro callees_of_deep) auto
  qed
  then show ?case
    unfolding m run_at.simps by (rule Run_agree [OF code fair callees_of_ok [OF run_at_ok [OF fair]]])
qed simp

lemma run_at_enough:
  assumes "table_coded jt" "table_fair E jt" "sound_evm e" "0 \<le> depth e" "CallCreateDepth < n"
  shows "Call (run_at n Z E jt) E e = EVM_Call E jt e" "Create (run_at n Z E jt) E e = EVM_Create E jt e"
proof -
  have "Call (EVM_run E jt) E e = Call (run_at n Z E jt) E e \<and> Create (EVM_run E jt) E e = Create (run_at n Z E jt) E e"
  proof (cases "depth e \<le> int CallCreateDepth")
    case True
    then have "runners_agree (depth e) (EVM_run E jt) (run_at n Z E jt)"
      unfolding EVM_run_def using assms(4,5) by (intro run_at_agree [OF assms(1,2)]) simp_all
    then show ?thesis using Call_agree Create_agree(1) assms(3) by blast
  next
    case False
    then have "int CallCreateDepth < depth e" by simp
    from callees_of_deep [OF this] show ?thesis
      unfolding callees_agree_def callees_of_def using assms(3) by fastforce
  qed
  then show "Call (run_at n Z E jt) E e = EVM_Call E jt e" "Create (run_at n Z E jt) E e = EVM_Create E jt e"
    by (simp_all add: EVM_Call_def EVM_Create_def)
qed

end

end
