(* ===== verification/Calls_Props.thy ===== *)
theory Calls_Props
  imports TxTracer Demo StateDB_Props Rlp_Props Frame_Depth
begin

text \<open>
  What the interpreter and the calls promise on the tables that \<open>NewEVMInterpreter\<close> chooses, in an
  environment wired as \<^verbatim>\<open>core\<close> wires it: one iteration, the whole loop, a call and a creation.
\<close>

section \<open>The environment of a run\<close>

lemma interpreter_env:
  assumes "NewEVMInterpreter E0 = Some (jt, E)" "wired E0"
  shows "wired E" "chainRules E = chainRules E0"
  using assms by (auto simp: NewEVMInterpreter_def wired_def case_prod_unfold Let_def)

text \<open>The host's contract carries over, with the table.\<close>

lemma interpreter_host:
  assumes "NewEVMInterpreter E0 = Some (jt, E)" "wired E0" "rules_agree E0"
  shows "evm_host E" "table_fair E jt"
proof -
  show h: "evm_host E" by (rule wired_host [OF interpreter_env(1) [OF assms(1,2)]])
  show "table_fair E jt" by (rule evm_host.interpreter_fair [OF h assms(1,3)])
qed

lemma interpreter_sound:
  fixes E0 :: "'t env"
  assumes "NewEVMInterpreter E0 = Some (jt, E)" "cfg_ExtraEips (Config E0) = []"
  shows "table_sound jt"
proof -
  obtain t :: "'t jump_table" where "fork_table (chainRules E0) = Some t" "table_sound t"
    using fork_tables_are_sound by blast
  with assms show ?thesis by (auto simp: NewEVMInterpreter_def)
qed

section \<open>A concrete environment\<close>

definition frontier_rules :: rules where
  "frontier_rules = \<lparr>ruleChainID = 1, ruleHomestead = False, ruleEIP150 = False, ruleEIP155 = False, ruleEIP158 = False,
     ruleByzantium = False, ruleConstantinople = False, rulePetersburg = False, ruleIstanbul = False, ruleBerlin = False,
     ruleLondon = False, ruleMerge = False, ruleShanghai = False, ruleCancun = False, rulePrague = False, ruleVerkle = False\<rparr>"

definition demo_core :: "tx_tracer env" where
  "demo_core = \<lparr>Context = demo_block\<lparr>bc_CanTransfer := CanTransfer, bc_Transfer := Transfer\<rparr>,
     TxContext = \<lparr>tc_Origin = 9, tc_GasPrice = 10, tc_BlobHashes = [], tc_BlobFeeCap = None\<rparr>,
     chainConfig = demo_config, chainRules = frontier_rules,
     Config = \<lparr>cfg_NoBaseFee = False, cfg_EnablePreimageRecording = False, cfg_ExtraEips = []\<rparr>,
     TraceStateFlag = False, Logger = TxTracer_logger \<lparr>v_accounts = id, v_slots = id\<rparr>, ext = demo_externals\<rparr>"

definition core_evm :: "tx_tracer evm" where
  "core_evm = \<lparr>StateDB_of = New demo_db None, depth = 0, callGasTemp = 0, aborted = False, readOnly = False,
     returnData = [], jumpdests = Map.empty, Tracer = None\<rparr>"

lemma wired_demo: "wired demo_core" "rules_agree demo_core" "cfg_ExtraEips (Config demo_core) = []"
  by (auto simp: demo_core_def wired_def rules_agree_def frontier_rules_def Let_def)

lemma sound_core_evm: "sound_evm core_evm"
  using sdb_inv_New [of demo_db None] by (simp add: sound_evm_def core_evm_def sound_db_def revs_ok_def New_def)

text \<open>The interpreter of the demo chain, with the entry for \<open>JUMPDEST\<close>.\<close>

lemma demo_interpreter:
  obtains jt where "NewEVMInterpreter demo_core = Some (jt, demo_core)"
    "jt 0x5b = mk_op opJumpdest None JumpdestGas None (minStack 0 0) (maxStack 0 0) None"
proof -
  obtain t :: "tx_tracer jump_table" where t: "newFrontierInstructionSet = Some t"
    using fork_tables_are_sound [of frontier_rules, where 'a = tx_tracer]
    by (auto simp: fork_table_def frontier_rules_def)
  then have j: "t = (\<lambda>b. case map_of frontier_entries b of Some x \<Rightarrow> x | None \<Rightarrow> undefined_op)"
    by (simp add: newFrontierInstructionSet_def validate_def split: if_split_asm)
  have "t 0x5b = mk_op opJumpdest None JumpdestGas None (minStack 0 0) (maxStack 0 0) None"
    unfolding j by (simp add: frontier_entries_def frontier_arith_def frontier_environment_def frontier_flow_def)
  moreover have "NewEVMInterpreter demo_core = Some (t, demo_core)"
    using t by (simp add: NewEVMInterpreter_def fork_table_def demo_core_def frontier_rules_def)
  ultimately show ?thesis using that by blast
qed

section \<open>One iteration\<close>

lemma run_at_frame:
  assumes "NewEVMInterpreter E0 = Some (jt, E)" "wired E0" "rules_agree E0" "sound_evm e" "mem_ok (Memory s)"
  shows "sound_frame (callees_of (run_at n no_runner E jt) E) (e, s)"
  using evm_host.callees_of_ok [OF interpreter_host(1) [OF assms(1-3)]
      evm_host.run_at_ok [OF interpreter_host [OF assms(1-3)]]] assms(4,5)
  by (simp add: sound_frame_def)

text \<open>
  C4: An iteration of the interpreter that goes on keeps the frame: the state database stays sound and
  every earlier snapshot restorable, the depth and the read-only flag are what they were, the contract
  runs the same code, the memory is whole words that are paid for, the stack holds at most 1024
  elements, and there is strictly less gas.
\<close>

theorem run_step_keeps:
  assumes "NewEVMInterpreter E0 = Some (jt, E)" "wired E0" "rules_agree E0" "cfg_ExtraEips (Config E0) = []"
    and "sound_evm e" "mem_ok (Memory s)"
    and "run_step (callees_of (run_at n no_runner E jt) E) E jt (e, s) = Some (Next (e', s'))"
  shows "sound_evm e' \<and> grows (StateDB_of e) (StateDB_of e') \<and> depth e' = depth e \<and> readOnly e' = readOnly e \<and>
    same_code (Contract s) (Contract s') \<and> mem_ok (Memory s') \<and> length (Stack s') \<le> 1024 \<and>
    Gas (Contract s') < Gas (Contract s)"
proof -
  note h = interpreter_host [OF assms(1-3)]
  have st: "steps_to (e, s) (Next (e', s'))"
    by (rule evm_host.run_step_steps [OF h(1) h(2) run_at_frame [OF assms(1-3,5,6)] assms(7)])
  then have "sound_evm e'" using evolves_sound by (auto simp: steps_to_def)
  moreover have "stack_ok (e', s')" by (rule run_step_stack [OF interpreter_sound [OF assms(1,4)] assms(7)])
  ultimately show ?thesis
    using st by (simp add: steps_to_def evolves_def stack_ok_def word_less_nat_alt)
qed

definition demo_scope :: scope where
  "demo_scope = \<lparr>sc_pc = 0, Stack = [], Memory = NewMemory, Contract = demo_contract [0x5b] 100\<rparr>"

lemma run_step_keeps_witness:
  "\<exists>jt e' s'. run_step (callees_of (run_at 0 no_runner demo_core jt) demo_core) demo_core jt (core_evm, demo_scope) =
     Some (Next (e', s')) \<and> Gas (Contract s') < 100 \<and> length (Stack s') \<le> 1024"
proof (rule demo_interpreter)
  fix jt
  assume i: "NewEVMInterpreter demo_core = Some (jt, demo_core)"
    and jd: "jt 0x5b = mk_op opJumpdest None JumpdestGas None (minStack 0 0) (maxStack 0 0) None"
  let ?K = "callees_of (run_at 0 no_runner demo_core jt) demo_core"
  obtain s' where r: "run_step ?K demo_core jt (core_evm, demo_scope) = Some (Next (core_evm, s'))"
    using jd by (simp add: run_step_def demo_scope_def demo_contract_def GetOp_def mk_op_def Let_def UseGas_def perform_def
        capture_state_def with_tracer_def core_evm_def demo_core_def st_len_def minStack_def maxStack_def opJumpdest_def fin_def)
  have m: "mem_ok (Memory demo_scope)" by (simp add: demo_scope_def mem_ok_New)
  from run_step_keeps [OF i wired_demo sound_core_evm m r] r show ?thesis
    by (intro exI [of _ jt] exI [of _ core_evm] exI [of _ s']) (simp add: demo_scope_def demo_contract_def)
qed

section \<open>The loop\<close>

text \<open>
  C7: The interpreter loop ends: with as many iterations as there is gas, and one, it comes to a stop,
  an error or a panic, whatever the code, the stack and the calls it makes.
\<close>

theorem run_terminates:
  assumes "NewEVMInterpreter E0 = Some (jt, E)" "wired E0" "rules_agree E0" "sound_evm e" "mem_ok (Memory s)"
  shows "run_loop (run_fuel (Contract s)) (callees_of (run_at n no_runner E jt) E) E jt (e, s) \<noteq> None"
proof -
  note h = interpreter_host [OF assms(1-3)]
  have "unat (Gas (Contract (snd (e, s)))) < run_fuel (Contract s)" by (simp add: run_fuel_def)
  from evm_host.run_loop_ends [OF h(1) h(2) run_at_frame [OF assms] this] show ?thesis by fastforce
qed

lemma run_terminates_witness:
  "\<exists>jt. run_loop (run_fuel (Contract demo_scope)) (callees_of (run_at 0 no_runner demo_core jt) demo_core) demo_core jt
     (core_evm, demo_scope) \<noteq> None"
proof (rule demo_interpreter)
  fix jt
  assume i: "NewEVMInterpreter demo_core = Some (jt, demo_core)"
  have m: "mem_ok (Memory demo_scope)" by (simp add: demo_scope_def mem_ok_New)
  from run_terminates [OF i wired_demo(1,2) sound_core_evm m] show ?thesis by blast
qed

section \<open>Calls and creations\<close>

text \<open>
  C3: A call that fails leaves the world it was called in: every account, slot, transient slot, log,
  refund and warm address is what it was.  It returns no gas unless the code reverted or the call was
  refused before it started, and never more than it was given; a call in any case keeps the depth, the
  read-only flag and the earlier snapshots.
\<close>

theorem EVM_Call_error:
  assumes "NewEVMInterpreter E0 = Some (jt, E)" "wired E0" "rules_agree E0" "sound_evm e"
    and "EVM_Call E jt e caller addr input gas value = Some (e', out, left, err)"
  shows "left \<le> gas \<and> depth e' = depth e \<and> readOnly e' = readOnly e \<and> grows (StateDB_of e) (StateDB_of e') \<and>
    (\<forall>er. err = Some er \<longrightarrow> world e' = world e \<and>
       (left = 0 \<or> er = ErrExecutionReverted \<or> ((er = ErrDepth \<or> er = ErrInsufficientBalance) \<and> left = gas)))"
  using evm_host.EVM_Call_fine [OF interpreter_host [OF assms(1-3)] assms(4)] assms(5)
  unfolding call_fine_def evolves_def refused_def by blast

text \<open>The balance check that \<^verbatim>\<open>core\<close> wires in reads the world.\<close>

lemma can_transfer_world:
  assumes "wired E" "sound_evm e"
  shows "fst (can_transfer E a v e) \<longleftrightarrow> v \<le> w_read (world e) a 0 (\<lambda>v. sa_Balance (av_data v))"
proof -
  obtain n d where n: "GetBalance (StateDB_of e) a = (n, d)" by fastforce
  have "sdb_inv (StateDB_of e)" using assms(2) by (simp add: sound_evm_def sound_db_def)
  from exec_op_agrees [OF this, of "OpGetBalance a"] n
  have "n = w_read (world e) a 0 (\<lambda>v. sa_Balance (av_data v))" by (auto simp: agrees_def ret_def world_def)
  with n assms(1) show ?thesis by (auto simp: can_transfer_def wired_def CanTransfer_def)
qed

lemma create_refused_world:
  assumes "wired E" "sound_evm e" "evolves e e1" "world e1 = world e"
  shows "create_refused E a v e1 = create_refused E a v e"
  using can_transfer_world [OF assms(1,2), of a v] can_transfer_world [OF assms(1) evolves_sound [OF assms(3)], of a v]
    evolves_depth [OF assms(3)] assms(4)
  by (simp add: create_refused_def depth_exceeded_def Let_def cong: if_cong)

text \<open>
  C6: A creation is either refused (too deep, not enough balance for the value, the nonce at its end),
  and then changes nothing and gives all gas back, or it starts.  If one that started fails, the world
  is the one it was called in but for the creator's nonce, one higher, and, from Berlin on, the
  address it created for, which stays warm; that address is the one \<open>CreateAddress\<close> computes from
  the creator and its old nonce; and no gas comes back unless the init code reverted.  The one
  exception is a chain before Homestead, where running out of gas for storing the code is an error that
  keeps what the init code did.
\<close>

theorem EVM_Create_error:
  assumes "NewEVMInterpreter E0 = Some (jt, E)" "wired E0" "rules_agree E0" "sound_evm e"
    and "EVM_Create E jt e caller code gas value = Some (e', out, addr, left, err)"
  shows "left \<le> gas \<and> depth e' = depth e \<and> readOnly e' = readOnly e \<and> grows (StateDB_of e) (StateDB_of e') \<and>
    (\<exists>new. CreateAddress (db (StateDB_of e)) (ref_Address caller)
        (w_read (world e) (ref_Address caller) 0 (\<lambda>v. sa_Nonce (av_data v))) = Some new \<and>
     (case create_refused E (ref_Address caller) value e of
        Some er \<Rightarrow> world e' = world e \<and> left = gas \<and> err = Some er
      | None \<Rightarrow> \<forall>er. err = Some er \<and> \<not> (er = ErrCodeStoreOutOfGas \<and> \<not> ruleHomestead (chainRules E)) \<longrightarrow>
          world e' = create_floor (chainRules E) (ref_Address caller) new (world e) \<and>
          (left = 0 \<or> er = ErrExecutionReverted)))"
proof -
  from evm_host.EVM_Create_fine [OF interpreter_host [OF assms(1-3)] assms(4,5)]
  obtain new e1 where n: "CreateAddress (db (StateDB_of e)) (ref_Address caller)
        (w_read (world e) (ref_Address caller) 0 (\<lambda>v. sa_Nonce (av_data v))) = Some new"
    and e1: "evolves e e1" "world e1 = world e"
    and f: "create_fine E (ref_Address caller) value new e1 gas (Some (e', out, addr, left, err))" by blast
  have r: "create_refused E (ref_Address caller) value e1 = create_refused E (ref_Address caller) value e"
    by (rule create_refused_world [OF interpreter_env(1) [OF assms(1,2)] assms(4) e1])
  have "evolves e e'" using f evolves_trans [OF e1(1)] by (simp add: create_fine_def)
  with f n show ?thesis
    by (auto simp: create_fine_def create_left_def evolves_def r e1(2) split: option.splits)
qed

text \<open>The account of the demo database has no balance for the value.\<close>

lemma EVM_Call_error_witness:
  "\<exists>jt e'. EVM_Call demo_core jt core_evm (AccountRef 9) 7 [] 50 5 = Some (e', [], 50, Some ErrInsufficientBalance) \<and>
     world e' = world core_evm"
proof (rule demo_interpreter)
  fix jt
  assume i: "NewEVMInterpreter demo_core = Some (jt, demo_core)"
  obtain e' where r: "EVM_Call demo_core jt core_evm (AccountRef 9) 7 [] 50 5 = Some (e', [], 50, Some ErrInsufficientBalance)"
    by (simp add: EVM_Call_def Call_def Let_def depth_exceeded_def can_transfer_def core_evm_def demo_core_def CanTransfer_def
        GetBalance_def getStateObject_def getDeletedStateObject_def New_def demo_db_def upd_db_def)
  from EVM_Call_error [OF i wired_demo(1,2) sound_core_evm r] r show ?thesis by blast
qed

text \<open>Init code of one \<open>JUMPDEST\<close> with no gas to pay for it.\<close>

lemma demo_init_fails:
  assumes "jt 0x5b = mk_op opJumpdest None JumpdestGas None (minStack 0 0) (maxStack 0 0) None"
    and "Code c = [0x5b]" "Gas c = 0" "Tracer e = None"
  shows "\<exists>e' c'. EVM_run demo_core jt e c [] False = Some (e', c', [], Some ErrOutOfGas) \<and> Gas c' = 0 \<and>
    StateDB_of e' = StateDB_of e \<and> Tracer e' = None"
proof -
  let ?K = "callees_of (run_at 1024 no_runner demo_core jt) demo_core"
  have run: "EVM_run demo_core jt = Run ?K demo_core jt"
    unfolding EVM_run_def by (simp add: eval_nat_numeral)
  show ?thesis
    unfolding run using assms
    by (simp add: Run_def Let_def run_fuel_def run_step_def GetOp_def mk_op_def UseGas_def finish_run_def
        capture_state_def with_tracer_def st_len_def minStack_def maxStack_def)
qed

lemma demo_reads:
  "GetBalance (New demo_db None) 9 = (0, New demo_db None)" "GetNonce (New demo_db None) 9 = (0, New demo_db None)"
  "GetNonce (SetNonce (New demo_db None) 9 1) 0x981 = (0, SetNonce (New demo_db None) 9 1)"
  "GetCodeHash (SetNonce (New demo_db None) 9 1) 0x981 = (0, SetNonce (New demo_db None) 9 1)"
  "db (New demo_db None) = demo_db"
  by (simp_all add: SetNonce_def GetOrNewStateObject_def createObject_def obj_SetNonce_def obj_setNonce_def upd_obj_def
      setStateObject_def newObject_def sdb_append_def Let_def GetBalance_def
      GetNonce_def GetCodeHash_def getStateObject_def getDeletedStateObject_def New_def demo_db_def)

lemma demo_fields:
  "StateDB_of core_evm = New demo_db None" "depth core_evm = 0" "upd_db core_evm (New demo_db None) = core_evm"
  "upd_db (upd_db e d) d' = upd_db e d'" "Tracer core_evm = None"
  "bc_CanTransfer (Context demo_core) = CanTransfer" "bc_Transfer (Context demo_core) = Transfer"
  "chainRules demo_core = frontier_rules" "\<not> ruleBerlin frontier_rules" "\<not> ruleEIP158 frontier_rules"
  by (simp_all add: core_evm_def upd_db_def demo_core_def frontier_rules_def)

lemma demo_CreateAddress: "CreateAddress demo_db 9 0 = Some 0x981"
proof -
  have e: "rlp_enc (RSlice [RArray (to_be 20 (9 :: address)), RUint 0]) =
      [0xD6, 0x94, 0, 0, 0, 0, 0, 0, 0, 0, 0, 0, 0, 0, 0, 0, 0, 0, 0, 0, 0, 9, 0x80]" by code_simp
  have "(ucast (keccak demo_db [0xD6, 0x94, 0, 0, 0, 0, 0, 0, 0, 0, 0, 0, 0, 0, 0, 0, 0, 0, 0, 0, 0, 9, 0x80]) :: address) = 0x981"
    by code_simp
  moreover have "EncodeToBytes (RSlice [RArray (to_be 20 (9 :: address)), RUint 0]) =
      Some (Inr [0xD6, 0x94, 0, 0, 0, 0, 0, 0, 0, 0, 0, 0, 0, 0, 0, 0, 0, 0, 0, 0, 0, 9, 0x80])"
    using EncodeToBytes_enc [of "RSlice [RArray (to_be 20 (9 :: address)), RUint 0]"] unfolding e by simp
  ultimately show ?thesis by (simp add: CreateAddress_def)
qed

lemma demo_create_fails:
  assumes jd: "jt 0x5b = mk_op opJumpdest None JumpdestGas None (minStack 0 0) (maxStack 0 0) None"
  shows "\<exists>e'. EVM_Create demo_core jt core_evm (AccountRef 9) [0x5b] 0 0 = Some (e', [], 0x981, 0, Some ErrOutOfGas)"
proof -
  let ?e0 = "upd_db core_evm (SetNonce (New demo_db None) 9 1)"
  obtain i e1 where s: "take_snapshot ?e0 = (i, e1)" by fastforce
  let ?e2 = "upd_db (upd_db e1 (CreateAccount (StateDB_of e1) 0x981)) (Transfer (CreateAccount (StateDB_of e1) 0x981) 9 0x981 0)"
  obtain c e3 where c: "new_contract (AccountRef 9) 0x981 (Some 0) 0 ?e2 = (c, e3)" by fastforce
  have e0: "sound_evm ?e0"
    using grows_sound [OF grows_writes(5) [OF grows_refl]] sound_core_evm by (simp add: sound_evm_def core_evm_def)
  have e1: "evolves e1 e1" by (rule evolves_refl [OF evolves_sound [OF take_snapshot_evolves(1) [OF s evolves_refl [OF e0]]]])
  have t: "Tracer e1 = None" using s by (auto simp: take_snapshot_def core_evm_def split: prod.splits)
  have e2: "evolves e1 ?e2"
    using evolves_upd_db [OF evolves_upd_db [OF e1 grows_writes(1) [OF evolves_grows [OF e1]]]
        grows_writes(2) [OF grows_writes(3) [OF grows_writes(1) [OF evolves_grows [OF e1]]]]] by (simp add: Transfer_def)
  have c3: "Gas c = 0" "StateDB_of e3 = StateDB_of ?e2" "Tracer e3 = None" "evolves e1 e3"
    using c new_contract_ok [OF c e2] t by (auto simp: new_contract_def NewContract_def Let_def split: prod.splits option.splits)
  have co: "Code (SetCodeOptionalHash c (Some 0x981) [0x5b] 0) = [0x5b]" "Gas (SetCodeOptionalHash c (Some 0x981) [0x5b] 0) = 0"
    using c3 by (simp_all add: SetCodeOptionalHash_def)
  from demo_init_fails [where jt = jt, OF jd co c3(3)] obtain e4 c4 where
    r: "EVM_run demo_core jt e3 (SetCodeOptionalHash c (Some 0x981) [0x5b] 0) [] False = Some (e4, c4, [], Some ErrOutOfGas)"
      "Gas c4 = 0" "StateDB_of e4 = StateDB_of e3" "Tracer e4 = None" by blast
  from revert_snapshot [OF e0 s c3(4)] r(3) obtain d where d: "RevertToSnapshot (StateDB_of e4) i = Some d" by auto
  have cr: "create (EVM_run demo_core jt) demo_core core_evm (AccountRef 9) [0x5b] 0 0 0 0x981 CREATE = do {
      e \<leftarrow> capture_begin demo_core True CREATE 9 0x981 [0x5b] 0 0 e3;
      r \<leftarrow> EVM_run demo_core jt e (SetCodeOptionalHash c (Some 0x981) [0x5b] 0) [] False;
      (e, c, ret, err) \<leftarrow> settle_create demo_core i (store_code demo_core 0x981 r);
      (e, _) \<leftarrow> capture_exit demo_core (depth e = 0) 0 (e, ret, Gas c, err);
      Some (e, ret, 0x981, Gas c, err) }"
    using s c by (simp add: create_def reading_def depth_exceeded_def can_transfer_def CanTransfer_def demo_reads demo_fields)
  have b: "capture_begin demo_core True CREATE 9 0x981 [0x5b] 0 0 e3 = Some e3"
    using c3 by (simp add: capture_begin_def capture_enter_def with_tracer_def)
  have st: "settle_create demo_core i (store_code demo_core 0x981 (e4, c4, [], Some ErrOutOfGas)) =
      Some (upd_db e4 d, fst (UseGas c4 (Gas c4)), [], Some ErrOutOfGas)"
    using d by (simp add: store_code_def settle_create_def)
  have "capture_exit demo_core (depth (upd_db e4 d) = 0) 0 (upd_db e4 d, [], Gas (fst (UseGas c4 (Gas c4))), Some ErrOutOfGas) =
      Some (upd_db e4 d, [], 0, Some ErrOutOfGas)" "Gas (fst (UseGas c4 (Gas c4))) = 0"
    using r by (simp_all add: capture_exit_def with_tracer_def UseGas_def)
  then have "create (EVM_run demo_core jt) demo_core core_evm (AccountRef 9) [0x5b] 0 0 0 0x981 CREATE =
      Some (upd_db e4 d, [], 0x981, 0, Some ErrOutOfGas)"
    unfolding cr b by (simp add: r(1) st)
  then show ?thesis
    by (simp add: EVM_Create_def Create_def reading_def demo_CreateAddress core_evm_def demo_reads upd_db_def)
qed

lemma EVM_Create_error_witness:
  "\<exists>jt e' new. EVM_Create demo_core jt core_evm (AccountRef 9) [0x5b] 0 0 = Some (e', [], 0x981, 0, Some ErrOutOfGas) \<and>
     CreateAddress demo_db 9 0 = Some new \<and> world e' = create_floor frontier_rules 9 new (world core_evm)"
proof (rule demo_interpreter)
  fix jt
  assume i: "NewEVMInterpreter demo_core = Some (jt, demo_core)"
    and jd: "jt 0x5b = mk_op opJumpdest None JumpdestGas None (minStack 0 0) (maxStack 0 0) None"
  obtain e' where r: "EVM_Create demo_core jt core_evm (AccountRef 9) [0x5b] 0 0 = Some (e', [], 0x981, 0, Some ErrOutOfGas)"
    using demo_create_fails [where jt = jt, OF jd] by blast
  have n: "w_read (world core_evm) 9 0 (\<lambda>v. sa_Nonce (av_data v)) = 0"
    using GetNonce_reads [OF demo_reads(2) sdb_inv_New] by (simp add: world_def demo_fields)
  have "create_refused demo_core 9 0 core_evm = None"
    by (simp add: create_refused_def n depth_exceeded_def can_transfer_def CanTransfer_def demo_reads demo_fields)
  with EVM_Create_error [OF i wired_demo(1,2) sound_core_evm r] r show ?thesis
    by (auto simp: n demo_fields demo_reads)
qed

section \<open>The levels of the recursion\<close>

text \<open>
  C8: The nesting of calls ends by the depth limit: a call or a creation gives the same result with
  any larger number of nested interpreters than the limit, and whatever stands below them, so the
  bound the model unrolls to is never reached.
\<close>

theorem EVM_levels_suffice:
  assumes "NewEVMInterpreter E0 = Some (jt, E)" "wired E0" "rules_agree E0" "sound_evm e" "0 \<le> depth e"
    and "CallCreateDepth < n"
  shows "Call (run_at n Z E jt) E e caller addr input gas value = EVM_Call E jt e caller addr input gas value \<and>
    Create (run_at n Z E jt) E e caller input gas value = EVM_Create E jt e caller input gas value"
  using evm_host.run_at_enough [OF interpreter_host(1) [OF assms(1-3)] interpreter_coded [OF assms(1)]
      interpreter_host(2) [OF assms(1-3)] assms(4-6)] by simp

lemma EVM_levels_suffice_witness:
  "\<exists>jt. Call (run_at 2000 no_runner demo_core jt) demo_core core_evm (AccountRef 9) 7 [] 50 0 =
     EVM_Call demo_core jt core_evm (AccountRef 9) 7 [] 50 0"
proof (rule demo_interpreter)
  fix jt
  assume i: "NewEVMInterpreter demo_core = Some (jt, demo_core)"
  have "0 \<le> depth core_evm" "CallCreateDepth < 2000" by (simp_all add: core_evm_def)
  from EVM_levels_suffice [OF i wired_demo(1,2) sound_core_evm this] show ?thesis by blast
qed

end
