(* ===== verification/Transition_Props.thy ===== *)
theory Transition_Props
  imports Transition TxTracer_Props Calls_Props
begin

text \<open>
  The state transition: the intrinsic gas is the formula of the yellow paper or an overflow error, a
  refused message changes nothing, the gas of the block is accounted for, and the tracing variant is
  the plain one when nothing is traced.
\<close>

section \<open>The intrinsic gas\<close>

definition nonzero :: "bytes \<Rightarrow> nat" where
  "nonzero data = length (filter (\<lambda>b. b \<noteq> 0) data)"

text \<open>The gas for the kind of message and its data, over the natural numbers.\<close>

definition data_gas :: "bytes \<Rightarrow> bool \<Rightarrow> bool \<Rightarrow> bool \<Rightarrow> bool \<Rightarrow> nat" where
  "data_gas data isContractCreation isHomestead isEIP2028 isEIP3860 =
     (if isContractCreation \<and> isHomestead then 53000 else 21000)
     + nonzero data * (if isEIP2028 then 16 else 68) + (length data - nonzero data) * 4
     + (if isContractCreation \<and> isEIP3860 then 2 * ((length data + 31) div 32) else 0)"

lemma add_checked:
  fixes gas n c :: u64
  assumes "c \<noteq> 0"
  shows "(MaxUint64 - gas) div c < n \<longleftrightarrow> 2 ^ 64 \<le> unat gas + unat n * unat c"
    and "\<not> (MaxUint64 - gas) div c < n \<Longrightarrow> unat (gas + n * c) = unat gas + unat n * unat c"
proof -
  have g: "unat gas < 2 ^ 64" using unsigned_less [of gas, where 'a = nat] by simp
  have "MaxUint64 = - 1" by (simp add: MaxUint64_def)
  then have "gas \<le> MaxUint64" by (metis word_order.extremum)
  then have m: "unat (MaxUint64 - gas) = 2 ^ 64 - 1 - unat gas" by (simp add: unat_sub) (simp add: MaxUint64_def)
  have c: "0 < unat c" using assms by (simp add: unat_gt_0)
  have "(MaxUint64 - gas) div c < n \<longleftrightarrow> (2 ^ 64 - 1 - unat gas) div unat c < unat n"
    by (simp only: word_less_nat_alt unat_div m)
  also have "\<dots> \<longleftrightarrow> 2 ^ 64 - 1 - unat gas < unat n * unat c" using c by (simp only: div_less_iff_less_mult)
  also have "\<dots> \<longleftrightarrow> 2 ^ 64 \<le> unat gas + unat n * unat c" using g by linarith
  finally show iff: "(MaxUint64 - gas) div c < n \<longleftrightarrow> 2 ^ 64 \<le> unat gas + unat n * unat c" .
  assume "\<not> (MaxUint64 - gas) div c < n"
  then have a: "unat gas + unat n * unat c < 2 ^ 64" using iff by simp
  then have "unat (n * c) = unat n * unat c" by (intro unat_mult_lem [THEN iffD1]) simp
  with a show "unat (gas + n * c) = unat gas + unat n * unat c" by (simp add: unat_add_lem [THEN iffD1])
qed

lemma nonzero_le: "nonzero data \<le> length data"
  by (simp add: nonzero_def)

text \<open>One checked charge of \<open>n\<close> units at \<open>c\<close> on top of \<open>a\<close>.\<close>

lemma charge:
  fixes n c :: u64
  assumes "c \<noteq> 0" "a < 2 ^ 64"
  shows "(MaxUint64 - of_nat a) div c < n \<longleftrightarrow> 2 ^ 64 \<le> a + unat n * unat c"
    and "of_nat a + n * c = of_nat (a + unat n * unat c)"
  using add_checked(1) [OF assms(1), of "of_nat a" n] assms(2) by (simp_all add: of_nat_inverse)

text \<open>
  C16: The intrinsic gas of any message is the sum the yellow paper gives - for the kind of message, for
  each zero and each nonzero byte, for each word of init code, for each address and each slot of the
  access list - and the overflow error exactly when the part for the data does not fit 64 bits; the
  intermediate checks neither miss an overflow nor report a false one.
\<close>

theorem IntrinsicGas_exact:
  assumes "length data < 2 ^ 64"
  shows "IntrinsicGas data al isContractCreation isHomestead isEIP2028 isEIP3860 =
    (if 2 ^ 64 \<le> data_gas data isContractCreation isHomestead isEIP2028 isEIP3860 then Inl ErrGasUintOverflow_core
     else Inr (of_nat (data_gas data isContractCreation isHomestead isEIP2028 isEIP3860 +
       2400 * length al + 1900 * StorageKeys al)))"
proof -
  define b :: nat where "b = (if isContractCreation \<and> isHomestead then 53000 else 21000)"
  define c :: u64 where "c = (if isEIP2028 then TxDataNonZeroGasEIP2028 else TxDataNonZeroGasFrontier)"
  define nz len where "nz = (of_nat (nonzero data) :: u64)" and "len = (of_nat (length data) :: u64)"
  define a1 where "a1 = b + nonzero data * unat c"
  define a2 where "a2 = a1 + (length data - nonzero data) * 4"
  define w where "w = (length data + 31) div 32"
  have u: "unat len = length data" "unat nz = nonzero data" "unat (len - nz) = length data - nonzero data"
    using assms nonzero_le [of data] by (simp_all add: len_def nz_def of_nat_inverse unat_sub_if_size)
  have w: "unat (toWordSize len) = w" by (simp add: unat_toWordSize words_of_def u w_def)
  have base: "(if isContractCreation \<and> isHomestead then TxGasContractCreation else TxGas) = of_nat b" "b < 2 ^ 64"
    by (simp_all add: b_def)
  have s1: "(MaxUint64 - of_nat b) div c < nz \<longleftrightarrow> 2 ^ 64 \<le> a1" "of_nat b + nz * c = of_nat a1"
    using charge [of c b nz] base(2) by (simp_all add: u a1_def) (simp_all add: c_def split: if_split_asm)
  have s2: "(MaxUint64 - of_nat a1) div TxDataZeroGas < len - nz \<longleftrightarrow> 2 ^ 64 \<le> a2"
    "of_nat a1 + (len - nz) * TxDataZeroGas = of_nat a2" if "a1 < 2 ^ 64"
    using charge [of "4 :: u64" a1 "len - nz", OF _ that] by (simp_all add: u a2_def)
  have s3: "(MaxUint64 - of_nat a2) div InitCodeWordGas < toWordSize len \<longleftrightarrow> 2 ^ 64 \<le> a2 + w * 2"
    "of_nat a2 + toWordSize len * InitCodeWordGas = of_nat (a2 + w * 2)" if "a2 < 2 ^ 64"
    using charge [of "2 :: u64" a2 "toWordSize len", OF _ that] by (simp_all add: w)
  have total: "data_gas data isContractCreation isHomestead isEIP2028 isEIP3860 =
      a2 + (if isContractCreation \<and> isEIP3860 then w * 2 else 0)"
    by (simp add: data_gas_def a2_def a1_def b_def c_def w_def)
  show ?thesis
  proof (cases "data = []")
    case True
    then show ?thesis by (simp add: IntrinsicGas_def data_gas_def nonzero_def)
  next
    case False
    then have pos: "0 < len" using u(1) by (simp add: word_less_nat_alt)
    note defs = IntrinsicGas_def Let_def nonzero_def [symmetric] nz_def [symmetric] len_def [symmetric] c_def [symmetric] base(1)
    consider "2 ^ 64 \<le> a1" | "a1 < 2 ^ 64" "2 ^ 64 \<le> a2" | "a1 < 2 ^ 64" "a2 < 2 ^ 64" by linarith
    then show ?thesis
    proof cases
      case 1
      then have "2 ^ 64 \<le> a2" by (simp add: a2_def)
      with 1 show ?thesis using pos s1 unfolding defs total by simp
    next
      case 2
      then show ?thesis using pos s1 s2 unfolding defs total by simp
    next
      case 3
      then show ?thesis using pos s1 s2 s3 unfolding defs total by simp
    qed
  qed
qed

text \<open>A creation with two zero bytes and one nonzero byte of init code, and one address with one slot.\<close>

lemma IntrinsicGas_exact_witness:
  "IntrinsicGas [0, 1, 0] [(5, [7])] True True True True = Inr (53000 + 16 + 8 + 2 + 2400 + 1900)"
  by (subst IntrinsicGas_exact) (simp_all add: data_gas_def nonzero_def StorageKeys_def)

section \<open>The state a transition passes on\<close>

text \<open>The same message and bookkeeping, with this much gas left; only the EVM differs.\<close>

definition same_tx :: "u64 \<Rightarrow> 't transition \<Rightarrow> 't transition \<Rightarrow> bool" where
  "same_tx g st st' \<longleftrightarrow> msg st' = msg st \<and> gp st' = gp st \<and> initialGas st' = initialGas st \<and> gasRemaining st' = g"

definition sound_tx :: "'t transition \<Rightarrow> bool" where
  "sound_tx st \<longleftrightarrow> sound_evm (st_evm st)"

lemma same_tx_refl [simp]: "same_tx (gasRemaining st) st st"
  by (simp add: same_tx_def)

lemma upd_sdb_fields [simp]:
  "msg (upd_sdb st d) = msg st" "gp (upd_sdb st d) = gp st" "initialGas (upd_sdb st d) = initialGas st"
  "gasRemaining (upd_sdb st d) = gasRemaining st" "StateDB_of (st_evm (upd_sdb st d)) = d"
  "sound_tx (upd_sdb st d) = sound_db d" "upd_sdb (upd_sdb st d) d' = upd_sdb st d'"
  by (simp_all add: upd_sdb_def sound_tx_def sound_evm_def upd_db_def)

lemma upd_sdb_upd [simp]:
  "upd_sdb (st\<lparr>gp := p\<rparr>) d = (upd_sdb st d)\<lparr>gp := p\<rparr>"
  "upd_sdb (st\<lparr>gasRemaining := g\<rparr>) d = (upd_sdb st d)\<lparr>gasRemaining := g\<rparr>"
  "upd_sdb (st\<lparr>initialGas := g\<rparr>) d = (upd_sdb st d)\<lparr>initialGas := g\<rparr>"
  by (simp_all add: upd_sdb_def)

lemma sound_tx_upd [simp]:
  "sound_tx (st\<lparr>gp := p\<rparr>) = sound_tx st" "sound_tx (st\<lparr>gasRemaining := g\<rparr>) = sound_tx st"
  "sound_tx (st\<lparr>initialGas := g\<rparr>) = sound_tx st"
  by (simp_all add: sound_tx_def)

lemma sound_grows: "sound_tx st \<Longrightarrow> grows (st_db st) d \<Longrightarrow> sound_tx (upd_sdb st d)"
  using grows_sound by (simp add: sound_tx_def sound_evm_def)

lemma sound_db_tx: "sound_tx st \<Longrightarrow> grows (st_db st) (st_db st)"
  by (simp add: sound_tx_def sound_evm_def grows_refl)

section \<open>A refused message\<close>

text \<open>The checks only read the database; the purchase takes the gas and its price.\<close>

definition reads_tx :: "'t transition \<Rightarrow> 't transition \<Rightarrow> bool" where
  "reads_tx st st' \<longleftrightarrow> (\<exists>d. st' = upd_sdb st d \<and> peeks (st_db st) d)"

lemma reads_tx_refl: "sound_tx st \<Longrightarrow> reads_tx st st"
  unfolding reads_tx_def sound_tx_def sound_evm_def sound_db_def
  by (intro exI [of _ "st_db st"]) (simp add: upd_sdb_def upd_db_def peeks_refl)

lemma reads_tx_step:
  assumes "reads_tx st st'" "peeks (st_db st') d"
  shows "reads_tx st (upd_sdb st' d)"
proof -
  obtain d1 where d: "st' = upd_sdb st d1" "peeks (st_db st) d1" using assms(1) by (auto simp: reads_tx_def)
  with assms(2) have "peeks (st_db st) d" using peeks_trans by fastforce
  then show ?thesis unfolding reads_tx_def d(1) upd_sdb_fields by blast
qed

lemma reads_tx_sound: "sound_tx st \<Longrightarrow> reads_tx st st' \<Longrightarrow> sound_tx st'"
  unfolding reads_tx_def using grows_sound [OF peeks_grows] by (auto simp: sound_tx_def sound_evm_def)

lemma reads_tx_inv: "sound_tx st \<Longrightarrow> reads_tx st st' \<Longrightarrow> sdb_inv (st_db st')"
  using reads_tx_sound by (auto simp: sound_tx_def sound_evm_def sound_db_def)

lemma check_account_reads:
  assumes "check_account m st = (err, st')" "sound_tx st"
  shows "reads_tx st st'"
proof -
  obtain n d1 where n: "GetNonce (st_db st) (msg_From m) = (n, d1)" by fastforce
  obtain h d2 where h: "GetCodeHash d1 (msg_From m) = (h, d2)" by fastforce
  note r0 = reads_tx_refl [OF assms(2)]
  note r1 = reads_tx_step [OF r0 reads_peek(4) [OF reads_tx_inv [OF assms(2) r0] n]]
  have "reads_tx st (upd_sdb (upd_sdb st d1) d2)"
    using reads_tx_step [OF r1 reads_peek(5) [OF reads_tx_inv [OF assms(2) r1]]] h by simp
  with r0 r1 assms(1) n h show ?thesis by (auto simp: check_account_def Let_def split: if_split_asm)
qed

text \<open>What the purchase does when it succeeds; when it fails it has only read.\<close>

definition bought :: "'t env \<Rightarrow> 't transition \<Rightarrow> 't transition \<Rightarrow> bool" where
  "bought E st st' \<longleftrightarrow> (\<exists>d need price. peeks (st_db st) d \<and> purchase E (msg st) = Some (need, price) \<and>
     need \<le> fst (GetBalance (st_db st) (msg_From (msg st))) \<and> msg_GasLimit (msg st) \<le> gp st \<and>
     st' = (upd_sdb st (SubBalance d (msg_From (msg st)) price))\<lparr>gp := gp st - msg_GasLimit (msg st),
       gasRemaining := gasRemaining st + msg_GasLimit (msg st), initialGas := msg_GasLimit (msg st)\<rparr>)"

lemma buyGas_result:
  assumes "buyGas E st = Some (err, st')" "sound_tx st"
  shows "if err = None then bought E st st' else reads_tx st st'"
proof -
  let ?m = "msg st"
  obtain b d where b: "GetBalance (st_db st) (msg_From ?m) = (b, d)" by fastforce
  note r0 = reads_tx_refl [OF assms(2)]
  note pk = reads_peek(3) [OF reads_tx_inv [OF assms(2) r0] b]
  obtain q where "purchase E ?m = Some q"
    using assms(1) by (cases "purchase E ?m") (simp_all add: buyGas_def)
  moreover obtain need price where "q = (need, price)" by fastforce
  ultimately show ?thesis
    using assms(1) b pk reads_tx_step [OF r0 pk]
    by (auto simp: buyGas_def Let_def SubGas_def bought_def split: if_split_asm)
qed

lemma preCheck_result:
  assumes "preCheck E st = Some (err, st')" "sound_tx st"
  shows "if err = None then \<exists>st1. reads_tx st st1 \<and> bought E st1 st' else reads_tx st st'"
proof -
  obtain e1 st1 where c: "check_account (msg st) st = (e1, st1)" by fastforce
  have r: "reads_tx st st1" by (rule check_account_reads [OF c assms(2)])
  consider "err \<noteq> None" "st' = st1" | "buyGas E st1 = Some (err, st')"
    using assms(1) c by (auto simp: preCheck_def bind_eq_Some_conv Let_def split: if_split_asm)
  then show ?thesis
  proof cases
    case 1
    then show ?thesis using r by auto
  next
    case 2
    from buyGas_result [OF this reads_tx_sound [OF assms(2) r]] r show ?thesis
      by (auto simp: reads_tx_def split: if_split_asm intro: peeks_trans)
  qed
qed

text \<open>
  C17: A message the checks refuse - its nonce, its sender, its fees, its blobs, its balance, the gas
  left in the block - changes nothing: the world and every snapshot, the gas pool, the gas of the
  transition and the tracer are what they were.
\<close>

theorem TransitionDb_refused:
  assumes "sound_evm (st_evm st)" "preCheck E st = Some (Some err, st1)"
  shows "TransitionDb E jt active st = Some (Inl err, st1) \<and> world (st_evm st1) = world (st_evm st) \<and>
    grows (st_db st) (st_db st1) \<and> gp st1 = gp st \<and> gasRemaining st1 = gasRemaining st \<and>
    initialGas st1 = initialGas st \<and> Tracer (st_evm st1) = Tracer (st_evm st)"
proof -
  have s: "sound_tx st" using assms(1) by (simp add: sound_tx_def)
  from preCheck_result [OF assms(2) s] obtain d where d: "st1 = upd_sdb st d" "peeks (st_db st) d"
    by (auto simp: reads_tx_def)
  moreover have "sound_db (st_db st)" using assms(1) by (simp add: sound_evm_def)
  ultimately show ?thesis
    using assms(2) peeks_grows by (auto simp: TransitionDb_def transition_def world_def peeks_def upd_sdb_def)
qed

section \<open>The gas of a transition\<close>

lemma tracer_tx:
  assumes "with_tx_tracer f st = Some st'"
  shows "same_tx (gasRemaining st) st st' \<and> st_db st' = st_db st \<and> sound_tx st' = sound_tx st"
  using assms by (auto simp: with_tx_tracer_def bind_eq_Some_conv same_tx_def sound_tx_def sound_evm_def split: option.split_asm)

lemma Prepare_sound:
  assumes "Prepare s r sender coinbase dst active tal = Some s'" "sound_db s"
  shows "sound_db s'"
proof -
  obtain al where al: "s' = s\<lparr>accessList := al, transientStorage := newTransientStorage\<rparr>" "al_wf al"
  proof (cases "ruleBerlin r")
    case False
    then show ?thesis
      using that [of "accessList s"] assms by (simp add: Prepare_def sound_db_def sdb_inv_def)
  next
    case True
    let ?add = "\<lambda>al a. fst (AddAddress al a)"
    let ?al1 = "?add newAccessList sender"
    let ?al2 = "foldl ?add (case dst of None \<Rightarrow> ?al1 | Some d \<Rightarrow> ?add ?al1 d) active"
    have "al_wf (case dst of None \<Rightarrow> ?al1 | Some d \<Rightarrow> ?add ?al1 d)" by (cases dst) (simp_all add: AddAddress_wf)
    then have "al_wf ?al2" using foldl_AddAddress_warm by blast
    from prepare_list_warm [OF this, of tal] obtain al where "prepare_list ?al2 tal = Some al" "al_wf al" by blast
    with True assms(1) show ?thesis
      using that [of "if ruleShanghai r then ?add al coinbase else al"] by (auto simp: Prepare_def AddAddress_wf)
  qed
  with assms(2) show ?thesis by (simp add: sound_db_def sdb_inv_def sdb_ok_def revs_ok_def)
qed

lemma prepare_message_result:
  assumes "prepare_message E active st = Some (None, st')" "sound_tx st" "wired E"
  shows "\<exists>g. IntrinsicGas (msg_Data (msg st)) (msg_AccessList (msg st)) (msg_To (msg st) = None) (ruleHomestead (tx_rules E))
      (ruleIstanbul (tx_rules E)) (ruleShanghai (tx_rules E)) = Inr g \<and> g \<le> gasRemaining st \<and>
    same_tx (gasRemaining st - g) st st' \<and> sound_tx st'"
proof -
  obtain g where g: "IntrinsicGas (msg_Data (msg st)) (msg_AccessList (msg st)) (msg_To (msg st) = None) (ruleHomestead (tx_rules E))
      (ruleIstanbul (tx_rules E)) (ruleShanghai (tx_rules E)) = Inr g" "g \<le> gasRemaining st"
    using assms(1) by (auto simp: prepare_message_def Let_def split: sum.split_asm if_split_asm)
  have e: "sound_evm (st_evm st)" using assms(2) by (simp add: sound_tx_def)
  obtain ok e1 where t: "(if msg_Value (msg st) > 0 then can_transfer E (msg_From (msg st)) (msg_Value (msg st)) (st_evm st)
      else (True, st_evm st)) = (ok, e1)" by fastforce
  have e1: "sound_evm e1"
  proof (cases "msg_Value (msg st) > 0")
    case True
    with t have "can_transfer E (msg_From (msg st)) (msg_Value (msg st)) (st_evm st) = (ok, e1)" by simp
    from evm_host.can_transfer_ok [OF wired_host [OF assms(3)] this evolves_refl [OF e]] show ?thesis
      by (elim conjE) (rule evolves_sound)
  qed (use t e in simp)
  from assms(1) g t obtain d where d: "Prepare (StateDB_of e1) (tx_rules E) (msg_From (msg st)) (bc_Coinbase (Context E))
      (msg_To (msg st)) (active (tx_rules E)) (msg_AccessList (msg st)) = Some d"
    "st' = upd_sdb (st\<lparr>gasRemaining := gasRemaining st - g, st_evm := e1\<rparr>) d"
    by (auto simp: prepare_message_def Let_def bind_eq_Some_conv split: if_split_asm)
  have "sound_db d" using Prepare_sound [OF d(1)] e1 by (simp add: sound_evm_def)
  with d(2) have "sound_tx st'" "same_tx (gasRemaining st - g) st st'" by (simp_all add: same_tx_def)
  with g show ?thesis by blast
qed

lemma bump_nonce_tx: "sound_tx st \<Longrightarrow> same_tx (gasRemaining st) st (bump_nonce st) \<and> sound_tx (bump_nonce st)"
  using grows_sound [OF grows_writes(5) [OF grows_snd(4) [OF sound_db_tx]]]
  by (simp add: bump_nonce_def same_tx_def case_prod_unfold)

lemma execute_message_gas:
  assumes "execute_message E jt st = Some (out, err, st')" "sound_tx st" "evm_host E" "table_fair E jt"
  shows "\<exists>g \<le> gasRemaining st. same_tx g st st' \<and> sound_tx st'"
proof (cases "msg_To (msg st) = None")
  case True
  have e: "sound_evm (st_evm st)" using assms(2) by (simp add: sound_tx_def)
  from assms(1) True obtain e' a left where r: "EVM_Create E jt (st_evm st) (AccountRef (msg_From (msg st))) (msg_Data (msg st))
      (gasRemaining st) (msg_Value (msg st)) = Some (e', out, a, left, err)" "st' = st\<lparr>st_evm := e', gasRemaining := left\<rparr>"
    by (auto simp: execute_message_def do_create_def bind_eq_Some_conv)
  with evm_host.EVM_Create_ok [OF assms(3,4) e] have "evolves (st_evm st) e' \<and> left \<le> gasRemaining st"
    unfolding create_ok_def by blast
  with r(2) show ?thesis using evolves_sound by (auto simp: same_tx_def sound_tx_def)
next
  case False
  let ?st = "bump_nonce st"
  note b = bump_nonce_tx [OF assms(2)]
  then have e: "sound_evm (st_evm ?st)" by (simp add: sound_tx_def)
  from assms(1) False obtain e' left where r: "EVM_Call E jt (st_evm ?st) (AccountRef (msg_From (msg ?st))) (st_to ?st) (msg_Data (msg ?st))
      (gasRemaining ?st) (msg_Value (msg ?st)) = Some (e', out, left, err)" "st' = ?st\<lparr>st_evm := e', gasRemaining := left\<rparr>"
    by (auto simp: execute_message_def do_call_def bind_eq_Some_conv)
  with evm_host.EVM_Call_fine [OF assms(3,4) e] have "evolves (st_evm ?st) e' \<and> left \<le> gasRemaining ?st"
    unfolding call_fine_def by blast
  with r(2) b show ?thesis using evolves_sound by (auto simp: same_tx_def sound_tx_def)
qed

text \<open>The refund, over the natural numbers.\<close>

definition refund_quotient :: "'t env \<Rightarrow> u64" where
  "refund_quotient E = (if \<not> ruleLondon (tx_rules E) then RefundQuotient else RefundQuotientEIP3529)"

lemma refund_quotient_pos: "refund_quotient E \<noteq> 0"
  by (simp add: refund_quotient_def)

lemma refund_fits:
  fixes limit rem r q :: u64
  assumes "rem \<le> limit" "r \<le> (limit - rem) div q"
  shows "unat (rem + r) = unat rem + unat r" "unat (limit - (rem + r)) = unat limit - unat rem - unat r"
    "unat rem + unat r \<le> unat limit" "unat r \<le> (unat limit - unat rem) div unat q"
proof -
  have s: "unat (limit - rem) = unat limit - unat rem" using assms(1) by (simp add: unat_sub)
  have "unat r \<le> unat ((limit - rem) div q)" using assms(2) by (simp only: word_le_nat_alt)
  then show q: "unat r \<le> (unat limit - unat rem) div unat q" by (simp only: unat_div s)
  have "(unat limit - unat rem) div unat q \<le> unat limit - unat rem" by simp
  with q have "unat r \<le> unat limit - unat rem" by (rule le_trans)
  moreover have "unat rem \<le> unat limit" using assms(1) by (simp only: word_le_nat_alt)
  ultimately show l: "unat rem + unat r \<le> unat limit" by linarith
  show a: "unat (rem + r) = unat rem + unat r"
    by (rule unat_add_lem [THEN iffD1]) (rule order.strict_trans1 [OF l unsigned_less])
  then have "rem + r \<le> limit" using l by (simp only: word_le_nat_alt)
  then show "unat (limit - (rem + r)) = unat limit - unat rem - unat r" by (simp add: unat_sub a)
qed

lemma finish_message_gas:
  assumes "finish_message E (out, vmerr, st) = Some (res, st')" "gasRemaining st \<le> initialGas st"
  shows "unat (UsedGas res) = unat (initialGas st) - unat (gasRemaining st) - unat (RefundedGas res)"
    "unat (gasRemaining st) + unat (RefundedGas res) \<le> unat (initialGas st)"
    "unat (RefundedGas res) \<le> (unat (initialGas st) - unat (gasRemaining st)) div unat (refund_quotient E)"
    "gp st' = gp st + (initialGas st - UsedGas res)" "er_Err res = vmerr"
proof -
  let ?q = "gasUsed st div refund_quotient E" and ?c = "GetRefund (st_db st)"
  define r where "r = (if ?q > ?c then ?c else ?q)"
  have "r \<le> ?q" by (auto simp: r_def)
  then have r: "r \<le> (initialGas st - gasRemaining st) div refund_quotient E" by (simp add: gasUsed_def)
  note f = refund_fits [OF assms(2) r]
  have pay: "pay_fee E st1 = Some st2 \<Longrightarrow> same_tx (gasRemaining st1) st1 st2" for st1 st2
    by (auto simp: pay_fee_def same_tx_def bind_eq_Some_conv Let_def split: if_split_asm)
  from assms(1) obtain r' st1 where st1: "refundGas (refund_quotient E) st = Some (r', st1)" "pay_fee E st1 = Some st'"
    "res = \<lparr>UsedGas = gasUsed st', RefundedGas = r', er_Err = vmerr, er_ReturnData = out\<rparr>"
    unfolding finish_message_def refund_quotient_def [symmetric] by (auto simp: bind_eq_Some_conv)
  have r': "r' = r" using st1(1) by (auto simp: refundGas_def Let_def r_def [symmetric] bind_eq_Some_conv)
  note st1 = st1 [unfolded r']
  have g1: "gasRemaining st1 = gasRemaining st + r" "initialGas st1 = initialGas st" "gp st1 = gp st + (gasRemaining st + r)"
    using st1(1) by (auto simp: refundGas_def bind_eq_Some_conv Let_def AddGas_def r_def [symmetric] split: if_split_asm)
  with pay [OF st1(2)] have u: "UsedGas res = initialGas st - (gasRemaining st + r)" "gp st' = gp st1" "RefundedGas res = r"
    by (simp_all add: st1(3) gasUsed_def same_tx_def)
  show "unat (UsedGas res) = unat (initialGas st) - unat (gasRemaining st) - unat (RefundedGas res)"
    "unat (gasRemaining st) + unat (RefundedGas res) \<le> unat (initialGas st)"
    "unat (RefundedGas res) \<le> (unat (initialGas st) - unat (gasRemaining st)) div unat (refund_quotient E)"
    using f by (simp_all add: u)
  show "gp st' = gp st + (initialGas st - UsedGas res)" by (simp add: u g1)
  show "er_Err res = vmerr" by (simp add: st1(3))
qed

text \<open>
  C5: The gas of a message that is executed adds up.  What it uses is at most its limit and the limit
  fits the gas left in the block; the block's gas goes down by exactly what is used.  The intrinsic
  gas is covered, the refund is at most the fraction of the gas spent that the fork allows, and used gas
  and refund together are at most the limit.
\<close>

theorem TransitionDb_gas:
  assumes "NewEVMInterpreter E0 = Some (jt, E)" "wired E0" "rules_agree E0" "sound_evm (st_evm st)"
    and "gasRemaining st = 0" "TransitionDb E jt active st = Some (Inr res, st')"
  shows "unat (UsedGas res) + unat (RefundedGas res) \<le> unat (msg_GasLimit (msg st)) \<and> msg_GasLimit (msg st) \<le> gp st \<and>
    gp st' = gp st - UsedGas res \<and>
    unat (RefundedGas res) \<le> (unat (UsedGas res) + unat (RefundedGas res)) div unat (refund_quotient E) \<and>
    (\<exists>g. IntrinsicGas (msg_Data (msg st)) (msg_AccessList (msg st)) (msg_To (msg st) = None) (ruleHomestead (tx_rules E))
        (ruleIstanbul (tx_rules E)) (ruleShanghai (tx_rules E)) = Inr g \<and>
      unat g \<le> unat (UsedGas res) + unat (RefundedGas res))"
proof -
  note h = interpreter_host [OF assms(1-3)] and w = interpreter_env(1) [OF assms(1,2)]
  have s0: "sound_tx st" using assms(4) by (simp add: sound_tx_def)
  from assms(6) obtain st1 st2 st3 out vmerr st4 st5 where run: "preCheck E st = Some (None, st1)"
    "with_tx_tracer (\<lambda>t. CaptureTxStart (Logger E) t (initialGas st1)) st1 = Some st2"
    "prepare_message E active st2 = Some (None, st3)" "execute_message E jt st3 = Some (out, vmerr, st4)"
    "finish_message E (out, vmerr, st4) = Some (res, st5)"
    "with_tx_tracer (\<lambda>t. CaptureTxEnd (Logger E) t (gasRemaining st5)) st5 = Some st'"
    by (auto simp: TransitionDb_def transition_def bind_eq_Some_conv split: option.split_asm)
  from preCheck_result [OF run(1) s0] obtain st0 where r0: "reads_tx st st0" and b0: "bought E st0 st1" by auto
  then obtain d0 where 0: "st0 = upd_sdb st d0" "sound_tx st0" "bought E st0 st1"
    using reads_tx_sound [OF s0 r0] by (auto simp: reads_tx_def)
  let ?limit = "msg_GasLimit (msg st)"
  have 1: "msg st1 = msg st" "initialGas st1 = ?limit" "gasRemaining st1 = ?limit" "gp st1 = gp st - ?limit"
    "?limit \<le> gp st" "sound_tx st1"
    using 0 assms(5) grows_sound [OF grows_writes(3) [OF peeks_grows]]
    by (auto simp: bought_def sound_tx_def sound_evm_def)
  note 2 = tracer_tx [OF run(2)]
  from prepare_message_result [OF run(3) _ w] 1(6) 2 obtain g where g:
    "IntrinsicGas (msg_Data (msg st)) (msg_AccessList (msg st)) (msg_To (msg st) = None) (ruleHomestead (tx_rules E))
        (ruleIstanbul (tx_rules E)) (ruleShanghai (tx_rules E)) = Inr g" "g \<le> ?limit" "sound_tx st3"
    "same_tx (?limit - g) st2 st3" using 1 by (auto simp: same_tx_def)
  from execute_message_gas [OF run(4) g(3) h] obtain left where left: "left \<le> ?limit - g" "same_tx left st3 st4"
    using g(4) by (auto simp: same_tx_def)
  have l: "unat left \<le> unat ?limit - unat g" using left(1) g(2) by (simp add: word_le_nat_alt unat_sub)
  have g': "unat g \<le> unat ?limit" using g(2) by (simp only: word_le_nat_alt)
  have 4: "gasRemaining st4 = left" "initialGas st4 = ?limit" "gp st4 = gp st - ?limit"
    using 1 2 g(4) left(2) by (auto simp: same_tx_def)
  have "left \<le> ?limit" using l g' by (simp only: word_le_nat_alt)
  note f = finish_message_gas [OF run(5), unfolded 4, OF this]
  have "gp st' = gp st - UsedGas res" using tracer_tx [OF run(6)] f(4) by (simp add: same_tx_def)
  with g(1) f(1-3) l g' 1(5) show ?thesis by (intro conjI exI [of _ g]) (auto simp: add.commute)
qed

section \<open>The tracing transition\<close>

text \<open>
  C24: Without the tracing of the account state the tracing transition is the plain one: it makes the
  same checks, the same call or creation with the same gas, the same refund and fee, and returns the
  same result in the same state.
\<close>

theorem TransitionDbTrace_plain:
  "\<not> TraceStateFlag E \<Longrightarrow> TransitionDbTrace E jt active st = TransitionDb E jt active st"
proof -
  assume "\<not> TraceStateFlag E"
  then have t: "when_traced E f st = Some st" "tx_snapshot E st = Some None" for f st
    by (simp_all add: when_traced_def tx_snapshot_def)
  have "execute_message_trace E jt st = execute_message E jt st" for st
  proof (cases "msg_To (msg st) = None")
    case True
    then show ?thesis
      by (cases "do_create E jt st") (auto simp: execute_message_trace_def execute_message_def t)
  next
    case False
    then show ?thesis
      by (cases "do_call E jt (bump_nonce st)") (auto simp: execute_message_trace_def execute_message_def t Let_def)
  qed
  then have "execute_message_trace E jt = execute_message E jt" by (rule ext)
  then show ?thesis by (simp add: TransitionDbTrace_def TransitionDb_def t)
qed

section \<open>The tracer and a refused transaction\<close>

lemma bought_tx:
  assumes "preCheck E st = Some (None, st1)" "sound_tx st"
  shows "msg st1 = msg st \<and> gasRemaining st1 = gasRemaining st + msg_GasLimit (msg st) \<and>
    Tracer (st_evm st1) = Tracer (st_evm st)"
  using preCheck_result [OF assms] by (auto simp: reads_tx_def bought_def) (simp_all add: upd_sdb_def)

text \<open>
  C25: A message that passes the checks and has too little gas for its intrinsic cost is no error but a
  panic when a fresh \<open>TxTracer\<close> is attached: the tracer is told of the end of a transaction whose
  outermost call it was never told of.
\<close>

theorem TransitionDb_tracer_panics:
  assumes "wired E" "sound_evm (st_evm st)" "Tracer (st_evm st) = Some t" "ready t" "gasRemaining st = 0"
    and "preCheck E st = Some (None, st1)" "msg_GasLimit (msg st) < g"
    and "IntrinsicGas (msg_Data (msg st)) (msg_AccessList (msg st)) (msg_To (msg st) = None) (ruleHomestead (tx_rules E))
      (ruleIstanbul (tx_rules E)) (ruleShanghai (tx_rules E)) = Inr g"
  shows "TransitionDb E jt active st = None"
proof -
  have "sound_tx st" using assms(2) by (simp add: sound_tx_def)
  note b = bought_tx [OF assms(6) this]
  obtain ord where l: "Logger E = TxTracer_logger ord" using assms(1) by (auto simp: wired_def)
  let ?t = "t\<lparr>tt_gasLimit := initialGas st1\<rparr>"
  let ?st = "st1\<lparr>st_evm := (st_evm st1)\<lparr>Tracer := Some ?t\<rparr>\<rparr>"
  have "with_tx_tracer (\<lambda>t. CaptureTxStart (Logger E) t (initialGas st1)) st1 = Some ?st"
    using b assms(3) by (simp add: with_tx_tracer_def l TxTracer_logger_def tt_CaptureTxStart_def)
  moreover have "prepare_message E active ?st = Some (Some (ErrIntrinsicGas (gasRemaining ?st) g), ?st)"
    using b assms(5,7,8) by (simp add: prepare_message_def Let_def)
  moreover have "ready ?t" using assms(4) by (simp add: ready_def)
  then have "with_tx_tracer (\<lambda>t. CaptureTxEnd (Logger E) t (gasRemaining ?st)) ?st = None"
    using CaptureTxEnd_panics by (simp add: with_tx_tracer_def l TxTracer_logger_def)
  ultimately show ?thesis using assms(6) by (simp add: TransitionDb_def transition_def)
qed

section \<open>Concrete transactions\<close>

text \<open>A chain at the fork of EIP 158, and a transfer of nothing to an account that does not exist.\<close>

definition spurious_config :: chain_config where
  "spurious_config = demo_config\<lparr>ByzantiumBlock := None, ConstantinopleBlock := None, PetersburgBlock := None,
     IstanbulBlock := None, MuirGlacierBlock := None, BerlinBlock := None, LondonBlock := None,
     ArrowGlacierBlock := None, GrayGlacierBlock := None, ShanghaiTime := None\<rparr>"

definition spurious_core :: "tx_tracer env" where
  "spurious_core = demo_core\<lparr>Context := (Context demo_core)\<lparr>bc_Random := None\<rparr>, chainConfig := spurious_config,
     chainRules := Rules spurious_config (Some 100) False 1000\<rparr>"

definition demo_message :: "u64 \<Rightarrow> message" where
  "demo_message limit = \<lparr>msg_To = Some 8, msg_From = 9, msg_Nonce = 0, msg_Value = 0, msg_GasLimit = limit, msg_GasPrice = 0,
     msg_GasFeeCap = None, msg_GasTipCap = None, msg_Data = [], msg_AccessList = [], msg_BlobGasFeeCap = None,
     msg_BlobHashes = None, msg_SkipAccountChecks = False\<rparr>"

definition demo_transition :: "tx_tracer option \<Rightarrow> u64 \<Rightarrow> tx_tracer transition" where
  "demo_transition tr limit = NewStateTransition (core_evm\<lparr>Tracer := tr\<rparr>) (demo_message limit) 50000"

lemma wired_spurious: "wired spurious_core" "rules_agree spurious_core" "cfg_ExtraEips (Config spurious_core) = []"
  using wired_demo
  by (auto simp: spurious_core_def wired_def rules_agree_def Rules_def spurious_config_def demo_config_def Let_def
      IsBerlin_def IsLondon_def IsShanghai_def IsCancun_def isBlockForked_def isTimestampForked_def)

lemma sound_demo_transition: "sound_evm (st_evm (demo_transition tr limit))" "gasRemaining (demo_transition tr limit) = 0"
  using sound_core_evm by (simp_all add: demo_transition_def NewStateTransition_def sound_evm_def)

lemma spurious_rules: "tx_rules spurious_core = Rules spurious_config (Some 100) False 1000"
  by (simp add: tx_rules_def spurious_core_def demo_core_def demo_block_def)

lemma spurious_flags:
  "ruleHomestead (tx_rules spurious_core)" "\<not> ruleIstanbul (tx_rules spurious_core)" "\<not> ruleShanghai (tx_rules spurious_core)"
  "\<not> ruleLondon (tx_rules spurious_core)" "\<not> ruleBerlin (tx_rules spurious_core)" "ruleEIP158 (chainRules spurious_core)"
  unfolding spurious_rules
  by (simp_all add: Rules_def spurious_core_def spurious_config_def demo_config_def IsHomestead_def IsIstanbul_def IsShanghai_def
      IsLondon_def IsBerlin_def IsEIP158_def isBlockForked_def)

lemma spurious_forks:
  "\<not> ruleCancun (chainRules spurious_core)" "\<not> ruleBerlin (chainRules spurious_core)"
  "\<not> ruleIstanbul (chainRules spurious_core)" "\<not> ruleByzantium (chainRules spurious_core)"
  by (simp_all add: spurious_core_def Rules_def spurious_config_def demo_config_def IsIstanbul_def IsByzantium_def IsCancun_def
      IsLondon_def IsBerlin_def isBlockForked_def)

lemma demo_intrinsic: "IntrinsicGas [] [] False h i s = Inr 21000"
  by (simp add: IntrinsicGas_def StorageKeys_def)

text \<open>The checks pass with any limit the block has gas for.\<close>

lemma demo_preCheck:
  assumes "limit \<le> 50000"
  obtains st where "preCheck spurious_core (demo_transition tr limit) = Some (None, st)"
    "gp st = 50000 - limit" "gasRemaining st = limit" "initialGas st = limit" "msg st = demo_message limit"
    "stateObjects (st_db st) 8 = None" "db (st_db st) = demo_db" "snap (st_db st) = None" "refund (st_db st) = 0" "Tracer (st_evm st) = tr" "depth (st_evm st) = 0"
    "\<exists>ob. stateObjects (st_db st) 9 = Some ob \<and> \<not> deleted ob \<and> so_address ob = 9"
proof -
  have c: "\<not> IsLondon (chainConfig spurious_core) (Some (bc_BlockNumber (Context spurious_core)))" "\<not> is_cancun spurious_core"
    by (simp_all add: spurious_core_def spurious_config_def demo_core_def demo_block_def is_cancun_def IsCancun_def IsLondon_def
        isBlockForked_def)
  obtain ob b d where d: "createObject (New demo_db None) 9 = (ob, b, d)" by (metis surj_pair)
  then have n: "stateObjects d 8 = None" "db d = demo_db" "snap d = None" "refund d = 0"
    "\<exists>ob. stateObjects d 9 = Some ob \<and> \<not> deleted ob \<and> so_address ob = 9"
    by (auto simp: createObject_def New_def demo_db_def newObject_def Let_def getDeletedStateObject_def sdb_append_def journal_append_def setStateObject_def split: if_split_asm)
  let ?st = "(upd_sdb (demo_transition tr limit) d)\<lparr>gp := 50000 - limit, gasRemaining := limit, initialGas := limit\<rparr>"
  have g: "getStateObject (New demo_db None) 9 = (None, New demo_db None)"
    by (simp add: getStateObject_def getDeletedStateObject_def New_def demo_db_def)
  have "preCheck spurious_core (demo_transition tr limit) = Some (None, ?st)"
    using assms by (simp add: c preCheck_def check_account_def demo_transition_def NewStateTransition_def demo_message_def
        check_fees_def check_blobs_def check_blob_fee_def buyGas_def purchase_def core_evm_def upd_sdb_def upd_db_def Let_def
        SubGas_def GetNonce_def GetCodeHash_def GetBalance_def SubBalance_def GetOrNewStateObject_def g d obj_SubBalance_def)
  from that [OF this] n show ?thesis
    by (simp add: demo_transition_def NewStateTransition_def upd_sdb_def upd_db_def core_evm_def)
qed

lemma demo_msg [simp]: "msg (demo_transition tr limit) = demo_message limit"
  by (simp add: demo_transition_def NewStateTransition_def)

lemma demo_interpreter_spurious: "\<exists>jt. NewEVMInterpreter spurious_core = Some (jt, spurious_core)"
proof -
  obtain t :: "tx_tracer jump_table" where "fork_table (chainRules spurious_core) = Some t" using fork_tables_are_sound by blast
  then have "NewEVMInterpreter spurious_core = Some (t, spurious_core)"
    using wired_spurious(3) by (simp add: NewEVMInterpreter_def)
  then show ?thesis by blast
qed

text \<open>A transfer of nothing: 21000 of the 30000 gas are used, 29000 of the block's 50000 are left.\<close>

lemma demo_run:
  "\<exists>res st. TransitionDb spurious_core jt active (demo_transition None 30000) = Some (Inr res, st)"
proof -
  obtain st1 where p: "preCheck spurious_core (demo_transition None 30000) = Some (None, st1)"
    and s: "gp st1 = 20000" "gasRemaining st1 = 30000" "initialGas st1 = 30000" "msg st1 = demo_message 30000"
      "stateObjects (st_db st1) 8 = None" "db (st_db st1) = demo_db" "snap (st_db st1) = None" "refund (st_db st1) = 0" "Tracer (st_evm st1) = None"
      "depth (st_evm st1) = 0" "\<exists>ob. stateObjects (st_db st1) 9 = Some ob \<and> \<not> deleted ob \<and> so_address ob = 9"
    by (rule demo_preCheck [of 30000 None]) simp_all
  then obtain ob where ob: "stateObjects (st_db st1) 9 = Some ob" "\<not> deleted ob" "so_address ob = 9" by blast
  let ?d2 = "(st_db st1)\<lparr>transientStorage := newTransientStorage\<rparr>"
  let ?st2 = "upd_sdb (st1\<lparr>gasRemaining := 9000\<rparr>) ?d2"
  have 2: "prepare_message spurious_core active st1 = Some (None, ?st2)"
    using s by (simp add: prepare_message_def demo_message_def demo_intrinsic spurious_flags Let_def Prepare_def)
  have 3: "\<exists>st3. bump_nonce ?st2 = st3 \<and> msg st3 = demo_message 30000 \<and> gasRemaining st3 = 9000 \<and> initialGas st3 = 30000 \<and>
      gp st3 = 20000 \<and> Tracer (st_evm st3) = None \<and> depth (st_evm st3) = 0 \<and> stateObjects (st_db st3) 8 = None \<and>
      db (st_db st3) = demo_db \<and> snap (st_db st3) = None \<and> refund (st_db st3) = 0"
    using s ob by (simp add: bump_nonce_def demo_message_def GetNonce_def SetNonce_def GetOrNewStateObject_def getStateObject_def
        getDeletedStateObject_def obj_SetNonce_def obj_setNonce_def upd_obj_def sdb_append_def journal_append_def Let_def)
      (simp add: upd_sdb_def upd_db_def)
  then obtain st3 where 3: "bump_nonce ?st2 = st3" "msg st3 = demo_message 30000" "gasRemaining st3 = 9000" "initialGas st3 = 30000"
    "gp st3 = 20000" "Tracer (st_evm st3) = None" "depth (st_evm st3) = 0" "stateObjects (st_db st3) 8 = None"
    "db (st_db st3) = demo_db" "snap (st_db st3) = None" "refund (st_db st3) = 0" by blast
  have "\<exists>e. do_call spurious_core jt st3 = Some ([], None, st3\<lparr>st_evm := e, gasRemaining := 9000\<rparr>) \<and> Tracer e = None \<and>
      refund (StateDB_of e) = 0"
    using 3(2-11) spurious_flags(6)
    by (simp add: do_call_def EVM_Call_def Call_def depth_exceeded_def take_snapshot_def Snapshot_def reading_def Exist_def
        getStateObject_def getDeletedStateObject_def demo_db_def demo_message_def upd_db_def st_to_def precompile_def precompiles_of_def PrecompiledContractsHomestead_def spurious_forks capture_begin_def with_tracer_def capture_exit_def split del: if_split cong: if_cong)
      (rule exI, rule conjI, rule refl, simp)
  then obtain e where 4: "execute_message spurious_core jt ?st2 = Some ([], None, st3\<lparr>st_evm := e, gasRemaining := 9000\<rparr>)"
    "Tracer e = None" "refund (StateDB_of e) = 0" using s(4) 3(1) by (auto simp: execute_message_def demo_message_def)
  have free: "\<not> cfg_NoBaseFee (Config spurious_core)" by (simp add: spurious_core_def demo_core_def)
  have 5: "\<exists>res st. finish_message spurious_core ([], None, st3\<lparr>st_evm := e, gasRemaining := 9000\<rparr>) = Some (res, st) \<and>
      Tracer (st_evm st) = None"
    using 3 4 spurious_flags(4)
    by (simp add: finish_message_def refundGas_def GetRefund_def AddGas_def pay_fee_def Let_def gasUsed_def free)
      (simp add: upd_sdb_def upd_db_def)
  show ?thesis using p 2 4 5 s(9) by (auto simp: TransitionDb_def transition_def with_tx_tracer_def upd_sdb_def upd_db_def)
qed

lemma TransitionDb_gas_witness:
  "\<exists>jt res st. TransitionDb spurious_core jt (\<lambda>r. []) (demo_transition None 30000) = Some (Inr res, st) \<and>
     unat (UsedGas res) + unat (RefundedGas res) \<le> 30000 \<and> gp st = 50000 - UsedGas res \<and>
     21000 \<le> unat (UsedGas res) + unat (RefundedGas res)"
proof -
  obtain jt where i: "NewEVMInterpreter spurious_core = Some (jt, spurious_core)" using demo_interpreter_spurious by blast
  obtain res st where r: "TransitionDb spurious_core jt (\<lambda>r. []) (demo_transition None 30000) = Some (Inr res, st)"
    using demo_run by blast
  from TransitionDb_gas [OF i wired_spurious(1,2) sound_demo_transition r] r show ?thesis
    by (intro exI [of _ jt] exI [of _ res] exI [of _ st])
      (auto simp: demo_message_def demo_intrinsic demo_transition_def NewStateTransition_def)
qed

lemma TransitionDb_tracer_panics_witness:
  "TransitionDb spurious_core (\<lambda>b. undefined_op) (\<lambda>r. []) (demo_transition (Some NewTxTracer) 20000) = None"
proof -
  obtain st1 where p: "preCheck spurious_core (demo_transition (Some NewTxTracer) 20000) = Some (None, st1)"
    by (rule demo_preCheck [of 20000 "Some NewTxTracer"]) simp_all
  show ?thesis
    by (rule TransitionDb_tracer_panics [OF wired_spurious(1) sound_demo_transition(1) _ _ sound_demo_transition(2) p, of NewTxTracer 21000])
      (simp_all add: demo_transition_def NewStateTransition_def demo_message_def ready_def NewTxTracer_def demo_intrinsic)
qed

lemma TransitionDbTrace_plain_witness:
  "TransitionDbTrace spurious_core (\<lambda>b. undefined_op) (\<lambda>r. []) (demo_transition None 30000) =
     TransitionDb spurious_core (\<lambda>b. undefined_op) (\<lambda>r. []) (demo_transition None 30000)"
  by (rule TransitionDbTrace_plain) (simp add: spurious_core_def demo_core_def)

text \<open>A limit above the gas left in the block.\<close>

lemma TransitionDb_refused_witness:
  "\<exists>err st. TransitionDb spurious_core (\<lambda>b. undefined_op) (\<lambda>r. []) (demo_transition None 60000) = Some (Inl err, st) \<and>
     gp st = 50000 \<and> world (st_evm st) = world (st_evm (demo_transition None 60000))"
proof -
  have c: "\<not> IsLondon (chainConfig spurious_core) (Some (bc_BlockNumber (Context spurious_core)))" "\<not> is_cancun spurious_core"
    by (simp_all add: spurious_core_def spurious_config_def demo_core_def demo_block_def is_cancun_def IsCancun_def IsLondon_def
        isBlockForked_def)
  have g: "getStateObject (New demo_db None) 9 = (None, New demo_db None)"
    by (simp add: getStateObject_def getDeletedStateObject_def New_def demo_db_def)
  have "\<exists>st. preCheck spurious_core (demo_transition None 60000) = Some (Some ErrGasLimitReached, st)"
    by (simp add: c preCheck_def check_account_def demo_transition_def NewStateTransition_def demo_message_def
        check_fees_def check_blobs_def check_blob_fee_def buyGas_def purchase_def core_evm_def upd_sdb_def upd_db_def Let_def
        SubGas_def GetNonce_def GetCodeHash_def GetBalance_def g)
  then obtain st where p: "preCheck spurious_core (demo_transition None 60000) = Some (Some ErrGasLimitReached, st)" by blast
  from TransitionDb_refused [OF sound_demo_transition(1) p, of "\<lambda>b. undefined_op" "\<lambda>r. []"] show ?thesis
    by (auto simp: demo_transition_def NewStateTransition_def)
qed

end

