(* ===== verification/Substate.thy ===== *)
theory Substate
  imports RlpDecode CoreEvm Headers "HOL-Library.Finite_Map"
begin

text \<open>
  The records a transaction is replayed from (\<^verbatim>\<open>research/substate.go\<close>) and the form they are
  stored in (\<^verbatim>\<open>research/substate_rlp.go\<close>).  A Go map is a finite map; the order in which a
  \<open>range\<close> loop visits one is an argument where the result depends on it.  Pointers that the
  code never leaves nil are values; a \<open>*big.Int\<close> that may be nil is an option, and comparing
  with exactly one nil panics.
\<close>

section \<open>Accounts\<close>

record substate_account =
  sa_Nonce :: u64
  sa_Balance :: int
  sa_Storage :: "(hash, hash) fmap"
  sa_Code :: bytes

definition NewSubstateAccount :: "u64 \<Rightarrow> int \<Rightarrow> bytes \<Rightarrow> substate_account" where
  "NewSubstateAccount nonce balance cd =
     \<lparr>sa_Nonce = nonce, sa_Balance = balance, sa_Storage = fmempty, sa_Code = cd\<rparr>"

definition maplen :: "('k, 'v) fmap \<Rightarrow> nat" where
  "maplen m = fcard (fmdom m)"

text \<open>Every entry of the first map is in the second, with the same value.\<close>

definition entries_in :: "('v \<Rightarrow> 'v \<Rightarrow> bool) \<Rightarrow> ('k, 'v) fmap \<Rightarrow> ('k, 'v) fmap \<Rightarrow> bool" where
  "entries_in eq x y = fBall (fmdom x) (\<lambda>k.
     case fmlookup x k of None \<Rightarrow> True | Some xv \<Rightarrow>
       (case fmlookup y k of None \<Rightarrow> False | Some yv \<Rightarrow> eq xv yv))"

definition Account_EqualState :: "substate_account \<Rightarrow> substate_account \<Rightarrow> bool" where
  "Account_EqualState x y = fBall (fmdom (sa_Storage x)) (\<lambda>k.
     case fmlookup (sa_Storage x) k of None \<Rightarrow> True | Some xv \<Rightarrow>
       (case fmlookup (sa_Storage y) k of None \<Rightarrow> True | Some yv \<Rightarrow> xv = yv))"

definition Account_Equal :: "substate_account \<Rightarrow> substate_account \<Rightarrow> bool" where
  "Account_Equal x y =
     (if \<not> (sa_Nonce x = sa_Nonce y \<and> sa_Balance x = sa_Balance y \<and> sa_Code x = sa_Code y \<and>
             maplen (sa_Storage x) = maplen (sa_Storage y)) then False
      else entries_in (=) (sa_Storage x) (sa_Storage y))"

definition Account_Copy :: "substate_account \<Rightarrow> substate_account" where
  "Account_Copy sa = (NewSubstateAccount (sa_Nonce sa) (sa_Balance sa) (sa_Code sa))\<lparr>sa_Storage := sa_Storage sa\<rparr>"

type_synonym substate_alloc = "(address, substate_account) fmap"

text \<open>The first address, in the order of the loop, whose account differs.\<close>

fun Alloc_EqualState :: "address list \<Rightarrow> substate_alloc \<Rightarrow> substate_alloc \<Rightarrow> address option" where
  "Alloc_EqualState [] x y = None"
| "Alloc_EqualState (k # ks) x y =
     (case (fmlookup x k, fmlookup y k) of
        (Some xv, Some yv) \<Rightarrow> if Account_EqualState xv yv then Alloc_EqualState ks x y else Some k
      | _ \<Rightarrow> Some k)"

definition Alloc_Equal :: "substate_alloc \<Rightarrow> substate_alloc \<Rightarrow> bool" where
  "Alloc_Equal x y = (if maplen x \<noteq> maplen y then False else entries_in Account_Equal x y)"

definition Alloc_Copy :: "substate_alloc \<Rightarrow> substate_alloc" where
  "Alloc_Copy sa = fmmap Account_Copy sa"

section \<open>The block, the message and the result\<close>

record substate_env =
  se_Coinbase :: address
  se_Difficulty :: int
  se_GasLimit :: u64
  se_Number :: u64
  se_Timestamp :: u64
  se_BlockHashes :: "(u64, hash) fmap"
  se_BaseFee :: "int option"

definition NewSubstateEnv :: "header \<Rightarrow> (u64, hash) fmap \<Rightarrow> substate_env" where
  "NewSubstateEnv b blockHashes =
     \<lparr>se_Coinbase = h_Coinbase b, se_Difficulty = h_Difficulty b, se_GasLimit = h_GasLimit b,
      se_Number = number64 b, se_Timestamp = h_Time b, se_BlockHashes = blockHashes,
      se_BaseFee = h_BaseFee b\<rparr>"

text \<open>\<open>Cmp\<close> of two \<open>*big.Int\<close>: the same pointer, here both nil, is equal; one nil is dereferenced.\<close>

definition ptr_Cmp :: "int option \<Rightarrow> int option \<Rightarrow> int option" where
  "ptr_Cmp x y =
     (case (x, y) of
        (None, None) \<Rightarrow> Some 0
      | (Some a, Some b) \<Rightarrow> Some (if a = b then 0 else if a < b then -1 else 1)
      | _ \<Rightarrow> None)"

definition Env_Equal :: "substate_env \<Rightarrow> substate_env \<Rightarrow> bool option" where
  "Env_Equal x y =
     (if \<not> (se_Coinbase x = se_Coinbase y \<and> se_Difficulty x = se_Difficulty y \<and>
             se_GasLimit x = se_GasLimit y \<and> se_Number x = se_Number y \<and> se_Timestamp x = se_Timestamp y \<and>
             maplen (se_BlockHashes x) = maplen (se_BlockHashes y)) then Some False
      else do {
        c \<leftarrow> ptr_Cmp (se_BaseFee x) (se_BaseFee y);
        Some (c = 0 \<and> entries_in (=) (se_BlockHashes x) (se_BlockHashes y)) })"

record substate_message =
  sm_Nonce :: u64
  sm_CheckNonce :: bool
  sm_GasPrice :: int
  sm_Gas :: u64
  sm_From :: address
  sm_To :: "address option"
  sm_Value :: int
  sm_Data :: bytes
  sm_dataHash :: "hash option"
  sm_AccessList :: tx_access_list
  sm_GasFeeCap :: "int option"
  sm_GasTipCap :: "int option"

definition NewSubstateMessage :: "message \<Rightarrow> substate_message" where
  "NewSubstateMessage m =
     \<lparr>sm_Nonce = msg_Nonce m, sm_CheckNonce = False, sm_GasPrice = msg_GasPrice m, sm_Gas = msg_GasLimit m,
      sm_From = msg_From m, sm_To = msg_To m, sm_Value = msg_Value m, sm_Data = msg_Data m, sm_dataHash = None,
      sm_AccessList = msg_AccessList m, sm_GasFeeCap = msg_GasFeeCap m, sm_GasTipCap = msg_GasTipCap m\<rparr>"

text \<open>The access lists, entry by entry and key by key; a missing entry of \<open>y\<close> would panic.\<close>

definition keys_equal :: "hash list \<Rightarrow> hash list \<Rightarrow> bool" where
  "keys_equal xs ys \<longleftrightarrow> length xs = length ys \<and> list_all2 (=) xs ys"

definition access_equal :: "tx_access_list \<Rightarrow> tx_access_list \<Rightarrow> bool" where
  "access_equal xs ys = list_all2 (\<lambda>(a, ks) (b, ls). a = b \<and> keys_equal ks ls) xs ys"

definition Message_Equal :: "substate_message \<Rightarrow> substate_message \<Rightarrow> bool option" where
  "Message_Equal x y =
     (if \<not> (sm_Nonce x = sm_Nonce y \<and> sm_CheckNonce x = sm_CheckNonce y \<and> sm_GasPrice x = sm_GasPrice y \<and>
             sm_Gas x = sm_Gas y \<and> sm_From x = sm_From y \<and> sm_To x = sm_To y \<and> sm_Value x = sm_Value y \<and>
             sm_Data x = sm_Data y \<and> length (sm_AccessList x) = length (sm_AccessList y)) then Some False
      else do {
        c \<leftarrow> ptr_Cmp (sm_GasFeeCap x) (sm_GasFeeCap y);
        if c \<noteq> 0 then Some False
        else do {
          d \<leftarrow> ptr_Cmp (sm_GasTipCap x) (sm_GasTipCap y);
          Some (d = 0 \<and> access_equal (sm_AccessList x) (sm_AccessList y)) } })"

text \<open>The hash of the data, computed once and kept.\<close>

definition DataHash :: "(bytes \<Rightarrow> hash) \<Rightarrow> substate_message \<Rightarrow> hash \<times> substate_message" where
  "DataHash keccak256 m =
     (case sm_dataHash m of
        Some h \<Rightarrow> (h, m)
      | None \<Rightarrow> let h = keccak256 (sm_Data m) in (h, m\<lparr>sm_dataHash := Some h\<rparr>))"

definition AsMessage :: "substate_message \<Rightarrow> message" where
  "AsMessage m =
     \<lparr>msg_To = sm_To m, msg_From = sm_From m, msg_Nonce = sm_Nonce m, msg_Value = sm_Value m,
      msg_GasLimit = sm_Gas m, msg_GasPrice = sm_GasPrice m, msg_GasFeeCap = sm_GasFeeCap m,
      msg_GasTipCap = sm_GasTipCap m, msg_Data = sm_Data m, msg_AccessList = sm_AccessList m,
      msg_BlobGasFeeCap = None, msg_BlobHashes = None, msg_SkipAccountChecks = False\<rparr>"

record substate_result =
  sr_Status :: u64
  sr_Bloom :: bytes \<comment> \<open>256 bytes\<close>
  sr_Logs :: "log list"
  sr_ContractAddress :: address
  sr_GasUsed :: u64

record receipt =
  rc_Type :: byte
  rc_PostState :: bytes
  rc_Status :: u64
  rc_CumulativeGasUsed :: u64
  rc_Bloom :: bytes
  rc_Logs :: "log list"
  rc_TxHash :: hash
  rc_ContractAddress :: address
  rc_GasUsed :: u64

definition NewSubstateResult :: "receipt \<Rightarrow> substate_result" where
  "NewSubstateResult r =
     \<lparr>sr_Status = rc_Status r, sr_Bloom = rc_Bloom r, sr_Logs = rc_Logs r,
      sr_ContractAddress = rc_ContractAddress r, sr_GasUsed = rc_GasUsed r\<rparr>"

definition logs_equal :: "bool \<Rightarrow> log list \<Rightarrow> log list \<Rightarrow> bool" where
  "logs_equal compare_data xs ys =
     list_all2 (\<lambda>x y. log_Address x = log_Address y \<and> (compare_data \<longrightarrow> log_Data x = log_Data y) \<and>
       keys_equal (log_Topics x) (log_Topics y)) xs ys"

definition result_equal :: "bool \<Rightarrow> substate_result \<Rightarrow> substate_result \<Rightarrow> bool" where
  "result_equal compare_data x y =
     (if \<not> (sr_Status x = sr_Status y \<and> sr_Bloom x = sr_Bloom y \<and> length (sr_Logs x) = length (sr_Logs y) \<and>
             sr_ContractAddress x = sr_ContractAddress y \<and> sr_GasUsed x = sr_GasUsed y) then False
      else logs_equal compare_data (sr_Logs x) (sr_Logs y))"

definition Result_EqualState :: "substate_result \<Rightarrow> substate_result \<Rightarrow> bool" where
  "Result_EqualState = result_equal False"

definition Result_Equal :: "substate_result \<Rightarrow> substate_result \<Rightarrow> bool" where
  "Result_Equal = result_equal True"

record substate =
  ss_InputAlloc :: substate_alloc
  ss_OutputAlloc :: substate_alloc
  ss_Env :: substate_env
  ss_Message :: substate_message
  ss_Result :: substate_result

definition Substate_Equal :: "substate \<Rightarrow> substate \<Rightarrow> bool option" where
  "Substate_Equal x y =
     (if \<not> (Alloc_Equal (ss_InputAlloc x) (ss_InputAlloc y) \<and> Alloc_Equal (ss_OutputAlloc x) (ss_OutputAlloc y))
      then Some False
      else do {
        e \<leftarrow> Env_Equal (ss_Env x) (ss_Env y);
        if \<not> e then Some False
        else do {
          m \<leftarrow> Message_Equal (ss_Message x) (ss_Message y);
          Some (m \<and> Result_Equal (ss_Result x) (ss_Result y)) } })"

end
