(* ===== verification/SubstateRLP.thy ===== *)
theory SubstateRLP
  imports Substate
begin

text \<open>
  The stored form of a substate (\<^verbatim>\<open>research/substate_rlp.go\<close>): maps become lists of pairs, code
  and the init code of a creation become hashes, and the formats before Berlin and before London
  are read too.  For the codec a Go value of a struct type is an \<open>rlp_val\<close>; \<open>rv_\<close> is the value
  reflection hands to the encoder, \<open>ty_\<close> the type it builds the decoder from and \<open>un_\<close> the
  struct filled in from a decoded value of that type.
\<close>

section \<open>Accounts\<close>

record account_rlp =
  ar_Nonce :: u64
  ar_Balance :: int
  ar_CodeHash :: hash
  ar_Storage :: "(hash \<times> hash) list"

definition map_pairs :: "('k::linorder, 'v) fmap \<Rightarrow> ('k \<times> 'v) list" where
  "map_pairs m = map (\<lambda>k. (k, the (fmlookup m k))) (sorted_list_of_fset (fmdom m))"

definition NewSubstateAccountRLP :: "(bytes \<Rightarrow> hash) \<Rightarrow> substate_account \<Rightarrow> account_rlp" where
  "NewSubstateAccountRLP keccak256 sa =
     \<lparr>ar_Nonce = sa_Nonce sa, ar_Balance = sa_Balance sa, ar_CodeHash = keccak256 (sa_Code sa),
      ar_Storage = map_pairs (sa_Storage sa)\<rparr>"

text \<open>Filling a map from a list of pairs: a later pair overwrites.\<close>

definition fill_map :: "('k \<times> 'v) list \<Rightarrow> ('k, 'v) fmap" where
  "fill_map ps = foldl (\<lambda>m (k, v). fmupd k v m) fmempty ps"

definition Account_SetRLP :: "(hash \<Rightarrow> bytes option) \<Rightarrow> account_rlp \<Rightarrow> substate_account option" where
  "Account_SetRLP getCode r = do {
     cd \<leftarrow> getCode (ar_CodeHash r);
     Some \<lparr>sa_Nonce = ar_Nonce r, sa_Balance = ar_Balance r, sa_Storage = fill_map (ar_Storage r), sa_Code = cd\<rparr> }"

record alloc_rlp =
  al_Addresses :: "address list"
  al_Accounts :: "account_rlp list"

definition NewSubstateAllocRLP :: "(bytes \<Rightarrow> hash) \<Rightarrow> substate_alloc \<Rightarrow> alloc_rlp" where
  "NewSubstateAllocRLP keccak256 alloc =
     (let addrs = sorted_list_of_fset (fmdom alloc)
      in \<lparr>al_Addresses = addrs,
          al_Accounts = map (\<lambda>a. NewSubstateAccountRLP keccak256 (the (fmlookup alloc a))) addrs\<rparr>)"

text \<open>The loop over the addresses indexes the accounts.\<close>

fun set_accounts :: "(hash \<Rightarrow> bytes option) \<Rightarrow> address list \<Rightarrow> account_rlp list \<Rightarrow> substate_alloc \<Rightarrow> substate_alloc option" where
  "set_accounts getCode [] accounts alloc = Some alloc"
| "set_accounts getCode (addr # addrs) [] alloc = None"
| "set_accounts getCode (addr # addrs) (r # rs) alloc = do {
     sa \<leftarrow> Account_SetRLP getCode r;
     set_accounts getCode addrs rs (fmupd addr sa alloc) }"

definition Alloc_SetRLP :: "(hash \<Rightarrow> bytes option) \<Rightarrow> alloc_rlp \<Rightarrow> substate_alloc option" where
  "Alloc_SetRLP getCode r = set_accounts getCode (al_Addresses r) (al_Accounts r) fmempty"

section \<open>The block\<close>

record legacy_env_rlp =
  er_Coinbase :: address
  er_Difficulty :: int
  er_GasLimit :: u64
  er_Number :: u64
  er_Timestamp :: u64
  er_BlockHashes :: "(hash \<times> hash) list"

record env_rlp = legacy_env_rlp +
  er_BaseFee :: "hash option"

definition Env_setLegacyRLP :: "legacy_env_rlp \<Rightarrow> env_rlp" where
  "Env_setLegacyRLP l = legacy_env_rlp.extend l \<lparr>er_BaseFee = None\<rparr>"

text \<open>\<open>BigToHash\<close> takes the low 32 bytes of the absolute value.\<close>

definition BigToHash :: "int \<Rightarrow> hash" where
  "BigToHash b = word_of_int \<bar>b\<bar>"

text \<open>
  The block numbers are taken in the order in which \<open>range\<close> visits the map: the list
  \<open>sortedNum64\<close> is not sorted.
\<close>

definition NewSubstateEnvRLP :: "u64 list \<Rightarrow> substate_env \<Rightarrow> env_rlp" where
  "NewSubstateEnvRLP order env =
     \<lparr>er_Coinbase = se_Coinbase env, er_Difficulty = se_Difficulty env, er_GasLimit = se_GasLimit env,
      er_Number = se_Number env, er_Timestamp = se_Timestamp env,
      er_BlockHashes = map (\<lambda>n. (BigToHash (uint n), the (fmlookup (se_BlockHashes env) n))) order,
      er_BaseFee = map_option BigToHash (se_BaseFee env)\<rparr>"

definition Env_SetRLP :: "env_rlp \<Rightarrow> substate_env" where
  "Env_SetRLP r =
     \<lparr>se_Coinbase = er_Coinbase r, se_Difficulty = er_Difficulty r, se_GasLimit = er_GasLimit r,
      se_Number = er_Number r, se_Timestamp = er_Timestamp r,
      se_BlockHashes = fill_map (map (\<lambda>(n, h). (ucast n, h)) (er_BlockHashes r)),
      se_BaseFee = map_option uint (er_BaseFee r)\<rparr>"

section \<open>The message\<close>

record legacy_message_rlp =
  mr_Nonce :: u64
  mr_CheckNonce :: bool
  mr_GasPrice :: int
  mr_Gas :: u64
  mr_From :: address
  mr_To :: "address option"
  mr_Value :: int
  mr_Data :: bytes
  mr_InitCodeHash :: "hash option"

record berlin_message_rlp = legacy_message_rlp +
  mr_AccessList :: tx_access_list

record message_rlp = berlin_message_rlp +
  mr_GasFeeCap :: "int option"
  mr_GasTipCap :: "int option"

text \<open>Both conversions leave the access list empty; Berlin's own list is not copied.\<close>

definition Message_setLegacyRLP :: "legacy_message_rlp \<Rightarrow> message_rlp" where
  "Message_setLegacyRLP l =
     berlin_message_rlp.extend (legacy_message_rlp.extend l \<lparr>mr_AccessList = []\<rparr>)
       \<lparr>mr_GasFeeCap = Some (mr_GasPrice l), mr_GasTipCap = Some (mr_GasPrice l)\<rparr>"

definition Message_setBerlinRLP :: "berlin_message_rlp \<Rightarrow> message_rlp" where
  "Message_setBerlinRLP b =
     berlin_message_rlp.extend (b\<lparr>mr_AccessList := []\<rparr>)
       \<lparr>mr_GasFeeCap = Some (mr_GasPrice b), mr_GasTipCap = Some (mr_GasPrice b)\<rparr>"

text \<open>The hash of the data is kept in the message, which is returned.\<close>

definition NewSubstateMessageRLP :: "(bytes \<Rightarrow> hash) \<Rightarrow> substate_message \<Rightarrow> message_rlp \<times> substate_message" where
  "NewSubstateMessageRLP keccak256 m =
     (let r = \<lparr>mr_Nonce = sm_Nonce m, mr_CheckNonce = sm_CheckNonce m, mr_GasPrice = sm_GasPrice m,
               mr_Gas = sm_Gas m, mr_From = sm_From m, mr_To = sm_To m, mr_Value = sm_Value m,
               mr_Data = sm_Data m, mr_InitCodeHash = None, mr_AccessList = sm_AccessList m,
               mr_GasFeeCap = sm_GasFeeCap m, mr_GasTipCap = sm_GasTipCap m\<rparr>
      in if sm_To m = None
         then (let (h, m) = DataHash keccak256 m in (r\<lparr>mr_Data := [], mr_InitCodeHash := Some h\<rparr>, m))
         else (r, m))"

definition Message_SetRLP :: "(hash \<Rightarrow> bytes option) \<Rightarrow> message_rlp \<Rightarrow> substate_message option" where
  "Message_SetRLP getCode r = do {
     data \<leftarrow> (if mr_To r = None then do { h \<leftarrow> mr_InitCodeHash r; getCode h } else Some (mr_Data r));
     Some \<lparr>sm_Nonce = mr_Nonce r, sm_CheckNonce = mr_CheckNonce r, sm_GasPrice = mr_GasPrice r,
           sm_Gas = mr_Gas r, sm_From = mr_From r, sm_To = mr_To r, sm_Value = mr_Value r, sm_Data = data,
           sm_dataHash = None, sm_AccessList = mr_AccessList r, sm_GasFeeCap = mr_GasFeeCap r,
           sm_GasTipCap = mr_GasTipCap r\<rparr> }"

section \<open>The whole substate\<close>

text \<open>A result is stored as it is (\<open>SubstateResultRLP\<close> has the same fields).\<close>

definition NewSubstateResultRLP :: "substate_result \<Rightarrow> substate_result" where
  "NewSubstateResultRLP r =
     \<lparr>sr_Status = sr_Status r, sr_Bloom = sr_Bloom r, sr_Logs = sr_Logs r,
      sr_ContractAddress = sr_ContractAddress r, sr_GasUsed = sr_GasUsed r\<rparr>"

definition Result_SetRLP :: "substate_result \<Rightarrow> substate_result" where
  "Result_SetRLP r =
     \<lparr>sr_Status = sr_Status r, sr_Bloom = sr_Bloom r, sr_Logs = sr_Logs r,
      sr_ContractAddress = sr_ContractAddress r, sr_GasUsed = sr_GasUsed r\<rparr>"

record ('e, 'm) stored_substate =
  st_InputAlloc :: alloc_rlp
  st_OutputAlloc :: alloc_rlp
  st_Env :: 'e
  st_Message :: 'm
  st_Result :: substate_result

type_synonym substate_rlp = "(env_rlp, message_rlp) stored_substate"
type_synonym berlin_substate_rlp = "(legacy_env_rlp, berlin_message_rlp) stored_substate"
type_synonym legacy_substate_rlp = "(legacy_env_rlp, legacy_message_rlp) stored_substate"

definition setLegacyRLP :: "legacy_substate_rlp \<Rightarrow> substate_rlp" where
  "setLegacyRLP l =
     \<lparr>st_InputAlloc = st_InputAlloc l, st_OutputAlloc = st_OutputAlloc l, st_Env = Env_setLegacyRLP (st_Env l),
      st_Message = Message_setLegacyRLP (st_Message l), st_Result = st_Result l\<rparr>"

definition setBerlinRLP :: "berlin_substate_rlp \<Rightarrow> substate_rlp" where
  "setBerlinRLP b =
     \<lparr>st_InputAlloc = st_InputAlloc b, st_OutputAlloc = st_OutputAlloc b, st_Env = Env_setLegacyRLP (st_Env b),
      st_Message = Message_setBerlinRLP (st_Message b), st_Result = st_Result b\<rparr>"

definition NewSubstateRLP :: "(bytes \<Rightarrow> hash) \<Rightarrow> u64 list \<Rightarrow> substate \<Rightarrow> substate_rlp \<times> substate" where
  "NewSubstateRLP keccak256 order s =
     (let (m, msg) = NewSubstateMessageRLP keccak256 (ss_Message s)
      in (\<lparr>st_InputAlloc = NewSubstateAllocRLP keccak256 (ss_InputAlloc s),
           st_OutputAlloc = NewSubstateAllocRLP keccak256 (ss_OutputAlloc s),
           st_Env = NewSubstateEnvRLP order (ss_Env s), st_Message = m,
           st_Result = NewSubstateResultRLP (ss_Result s)\<rparr>, s\<lparr>ss_Message := msg\<rparr>))"

definition Substate_SetRLP :: "(hash \<Rightarrow> bytes option) \<Rightarrow> substate_rlp \<Rightarrow> substate option" where
  "Substate_SetRLP getCode r = do {
     ia \<leftarrow> Alloc_SetRLP getCode (st_InputAlloc r);
     oa \<leftarrow> Alloc_SetRLP getCode (st_OutputAlloc r);
     m \<leftarrow> Message_SetRLP getCode (st_Message r);
     Some \<lparr>ss_InputAlloc = ia, ss_OutputAlloc = oa, ss_Env = Env_SetRLP (st_Env r), ss_Message = m,
           ss_Result = Result_SetRLP (st_Result r)\<rparr> }"

section \<open>The structs as values of the codec\<close>

abbreviation "ty_hash \<equiv> TArray 32"
abbreviation "ty_address \<equiv> TArray 20"
abbreviation "ty_uint64 \<equiv> TUint 64"
abbreviation "ty_pairs \<equiv> TSlice (TListArray 2 ty_hash)"
abbreviation "ty_struct ts \<equiv> TStruct (map (Field False) ts)"

definition rv_hash :: "hash \<Rightarrow> rlp_val" where "rv_hash h = RArray (to_be 32 h)"
definition rv_address :: "address \<Rightarrow> rlp_val" where "rv_address a = RArray (to_be 20 a)"
definition rv_pairs :: "(hash \<times> hash) list \<Rightarrow> rlp_val" where
  "rv_pairs ps = RSlice (map (\<lambda>(k, v). RSlice [rv_hash k, rv_hash v]) ps)"
definition rv_ptr :: "('a \<Rightarrow> rlp_val) \<Rightarrow> 'a option \<Rightarrow> rlp_val" where
  "rv_ptr f p = (case p of None \<Rightarrow> RNilPtr 0x80 | Some x \<Rightarrow> f x)"

fun un_bytes :: "rlp_val \<Rightarrow> bytes" where
  "un_bytes (RArray b) = b" | "un_bytes (RBytes b) = b" | "un_bytes _ = []"
fun un_list :: "rlp_val \<Rightarrow> rlp_val list" where
  "un_list (RSlice vs) = vs" | "un_list (RStruct vs) = vs" | "un_list _ = []"
fun un_uint :: "rlp_val \<Rightarrow> u64" where
  "un_uint (RUint i) = i" | "un_uint _ = 0"
fun un_bool :: "rlp_val \<Rightarrow> bool" where
  "un_bool (RBool b) = b" | "un_bool _ = False"
fun un_big :: "rlp_val \<Rightarrow> int option" where
  "un_big (RBigPtr p) = p" | "un_big _ = None"
definition un_int :: "rlp_val \<Rightarrow> int" where
  "un_int v = (case un_big v of None \<Rightarrow> 0 | Some i \<Rightarrow> i)"
definition un_hash :: "rlp_val \<Rightarrow> hash" where "un_hash v = be_word (un_bytes v)"
definition un_address :: "rlp_val \<Rightarrow> address" where "un_address v = be_word (un_bytes v)"
definition un_pairs :: "rlp_val \<Rightarrow> (hash \<times> hash) list" where
  "un_pairs v = map (\<lambda>p. (un_hash (un_list p ! 0), un_hash (un_list p ! 1))) (un_list v)"
fun un_ptr :: "(rlp_val \<Rightarrow> 'a) \<Rightarrow> rlp_val \<Rightarrow> 'a option" where
  "un_ptr f (RNilPtr e) = None"
| "un_ptr f v = Some (f v)"

definition ty_account :: rlp_type where
  "ty_account = ty_struct [ty_uint64, TBig, ty_hash, ty_pairs]"
definition rv_account :: "account_rlp \<Rightarrow> rlp_val" where
  "rv_account a = RStruct [RUint (ar_Nonce a), RBigPtr (Some (ar_Balance a)), rv_hash (ar_CodeHash a), rv_pairs (ar_Storage a)]"
definition un_account :: "rlp_val \<Rightarrow> account_rlp" where
  "un_account v = (let f = un_list v in
     \<lparr>ar_Nonce = un_uint (f ! 0), ar_Balance = un_int (f ! 1), ar_CodeHash = un_hash (f ! 2), ar_Storage = un_pairs (f ! 3)\<rparr>)"

definition ty_alloc :: rlp_type where
  "ty_alloc = ty_struct [TSlice ty_address, TSlice (TPtr ty_account)]"
definition rv_alloc :: "alloc_rlp \<Rightarrow> rlp_val" where
  "rv_alloc a = RStruct [RSlice (map rv_address (al_Addresses a)), RSlice (map rv_account (al_Accounts a))]"
definition un_alloc :: "rlp_val \<Rightarrow> alloc_rlp" where
  "un_alloc v = (let f = un_list v in
     \<lparr>al_Addresses = map un_address (un_list (f ! 0)), al_Accounts = map un_account (un_list (f ! 1))\<rparr>)"

definition ty_legacy_env :: rlp_type where
  "ty_legacy_env = ty_struct [ty_address, TBig, ty_uint64, ty_uint64, ty_uint64, ty_pairs]"
definition rv_legacy_env :: "legacy_env_rlp \<Rightarrow> rlp_val" where
  "rv_legacy_env e = RStruct [rv_address (er_Coinbase e), RBigPtr (Some (er_Difficulty e)), RUint (er_GasLimit e),
     RUint (er_Number e), RUint (er_Timestamp e), rv_pairs (er_BlockHashes e)]"
definition un_legacy_env :: "rlp_val \<Rightarrow> legacy_env_rlp" where
  "un_legacy_env v = (let f = un_list v in
     \<lparr>er_Coinbase = un_address (f ! 0), er_Difficulty = un_int (f ! 1), er_GasLimit = un_uint (f ! 2),
      er_Number = un_uint (f ! 3), er_Timestamp = un_uint (f ! 4), er_BlockHashes = un_pairs (f ! 5)\<rparr>)"

definition ty_env :: rlp_type where
  "ty_env = ty_struct [ty_address, TBig, ty_uint64, ty_uint64, ty_uint64, ty_pairs, TNil KString ty_hash]"
definition rv_env :: "env_rlp \<Rightarrow> rlp_val" where
  "rv_env e = RStruct [rv_address (er_Coinbase e), RBigPtr (Some (er_Difficulty e)), RUint (er_GasLimit e),
     RUint (er_Number e), RUint (er_Timestamp e), rv_pairs (er_BlockHashes e), rv_ptr rv_hash (er_BaseFee e)]"
definition un_env :: "rlp_val \<Rightarrow> env_rlp" where
  "un_env v = legacy_env_rlp.extend (un_legacy_env v) \<lparr>er_BaseFee = un_ptr un_hash (un_list v ! 6)\<rparr>"

definition ty_access_list :: rlp_type where
  "ty_access_list = TSlice (ty_struct [ty_address, TSlice ty_hash])"
definition rv_access_list :: "tx_access_list \<Rightarrow> rlp_val" where
  "rv_access_list al = RSlice (map (\<lambda>(a, ks). RStruct [rv_address a, RSlice (map rv_hash ks)]) al)"
definition un_access_list :: "rlp_val \<Rightarrow> tx_access_list" where
  "un_access_list v = map (\<lambda>t. (un_address (un_list t ! 0), map un_hash (un_list (un_list t ! 1)))) (un_list v)"

definition message_types :: "rlp_type list" where
  "message_types = [ty_uint64, TBool, TBig, ty_uint64, ty_address, TNil KString ty_address, TBig, TBytes,
     TNil KString ty_hash]"
definition ty_legacy_message :: rlp_type where "ty_legacy_message = ty_struct message_types"
definition ty_berlin_message :: rlp_type where "ty_berlin_message = ty_struct (message_types @ [ty_access_list])"
definition ty_message :: rlp_type where "ty_message = ty_struct (message_types @ [ty_access_list, TBig, TBig])"

definition rv_message :: "message_rlp \<Rightarrow> rlp_val" where
  "rv_message m = RStruct [RUint (mr_Nonce m), RBool (mr_CheckNonce m), RBigPtr (Some (mr_GasPrice m)),
     RUint (mr_Gas m), rv_address (mr_From m), rv_ptr rv_address (mr_To m), RBigPtr (Some (mr_Value m)),
     RBytes (mr_Data m), rv_ptr rv_hash (mr_InitCodeHash m), rv_access_list (mr_AccessList m),
     RBigPtr (mr_GasFeeCap m), RBigPtr (mr_GasTipCap m)]"
definition un_legacy_message :: "rlp_val \<Rightarrow> legacy_message_rlp" where
  "un_legacy_message v = (let f = un_list v in
     \<lparr>mr_Nonce = un_uint (f ! 0), mr_CheckNonce = un_bool (f ! 1), mr_GasPrice = un_int (f ! 2),
      mr_Gas = un_uint (f ! 3), mr_From = un_address (f ! 4), mr_To = un_ptr un_address (f ! 5),
      mr_Value = un_int (f ! 6), mr_Data = un_bytes (f ! 7), mr_InitCodeHash = un_ptr un_hash (f ! 8)\<rparr>)"
definition un_berlin_message :: "rlp_val \<Rightarrow> berlin_message_rlp" where
  "un_berlin_message v = legacy_message_rlp.extend (un_legacy_message v) \<lparr>mr_AccessList = un_access_list (un_list v ! 9)\<rparr>"
definition un_message :: "rlp_val \<Rightarrow> message_rlp" where
  "un_message v = berlin_message_rlp.extend (un_berlin_message v)
     \<lparr>mr_GasFeeCap = un_big (un_list v ! 10), mr_GasTipCap = un_big (un_list v ! 11)\<rparr>"

text \<open>Of a log only the consensus fields are stored; the others are zero when it is read back.\<close>

definition ty_log :: rlp_type where
  "ty_log = ty_struct [ty_address, TSlice ty_hash, TBytes]"
definition rv_log :: "log \<Rightarrow> rlp_val" where
  "rv_log l = RStruct [rv_address (log_Address l), RSlice (map rv_hash (log_Topics l)), RBytes (log_Data l)]"
definition un_log :: "rlp_val \<Rightarrow> log" where
  "un_log v = (let f = un_list v in
     \<lparr>log_Address = un_address (f ! 0), log_Topics = map un_hash (un_list (f ! 1)), log_Data = un_bytes (f ! 2),
      log_BlockNumber = 0, log_TxHash = 0, log_TxIndex = 0, log_Index = 0\<rparr>)"

definition ty_result :: rlp_type where
  "ty_result = ty_struct [ty_uint64, TArray 256, TSlice (TPtr ty_log), ty_address, ty_uint64]"
definition rv_result :: "substate_result \<Rightarrow> rlp_val" where
  "rv_result r = RStruct [RUint (sr_Status r), RArray (sr_Bloom r), RSlice (map rv_log (sr_Logs r)),
     rv_address (sr_ContractAddress r), RUint (sr_GasUsed r)]"
definition un_result :: "rlp_val \<Rightarrow> substate_result" where
  "un_result v = (let f = un_list v in
     \<lparr>sr_Status = un_uint (f ! 0), sr_Bloom = un_bytes (f ! 1), sr_Logs = map un_log (un_list (f ! 2)),
      sr_ContractAddress = un_address (f ! 3), sr_GasUsed = un_uint (f ! 4)\<rparr>)"

definition ty_substate :: "rlp_type \<Rightarrow> rlp_type \<Rightarrow> rlp_type" where
  "ty_substate env msg = ty_struct [ty_alloc, ty_alloc, TPtr env, TPtr msg, TPtr ty_result]"
definition rv_substate :: "substate_rlp \<Rightarrow> rlp_val" where
  "rv_substate s = RStruct [rv_alloc (st_InputAlloc s), rv_alloc (st_OutputAlloc s), rv_env (st_Env s),
     rv_message (st_Message s), rv_result (st_Result s)]"
definition un_substate :: "(rlp_val \<Rightarrow> 'e) \<Rightarrow> (rlp_val \<Rightarrow> 'm) \<Rightarrow> rlp_val \<Rightarrow> ('e, 'm) stored_substate" where
  "un_substate env msg v = (let f = un_list v in
     \<lparr>st_InputAlloc = un_alloc (f ! 0), st_OutputAlloc = un_alloc (f ! 1), st_Env = env (f ! 2),
      st_Message = msg (f ! 3), st_Result = un_result (f ! 4)\<rparr>)"

end
