(* ===== verification/MemoryDB.thy ===== *)
theory MemoryDB
  imports Prelude "HOL-Library.Finite_Map" "HOL-Library.List_Lexorder"
begin

text \<open>
  Key-value stores.  The client of a store sees the operations of \<^verbatim>\<open>ethdb.KeyValueStore\<close> as a
  record of functions over the store's state; the locale \<open>key_value_store\<close> states what a store
  promises, in terms of the map it holds.  The in-memory database of
  \<^verbatim>\<open>ethdb/memorydb/memorydb.go\<close> is an instance.  Its lock is left out (one goroutine); a closed
  database is one whose map is nil.
\<close>

datatype db_error = ErrDbClosed | ErrDbNotFound | ErrDbOther

record 'b backend =
  bk_Has :: "'b \<Rightarrow> bytes \<Rightarrow> db_error + bool"
  bk_Get :: "'b \<Rightarrow> bytes \<Rightarrow> db_error + bytes"
  bk_Put :: "'b \<Rightarrow> bytes \<Rightarrow> bytes \<Rightarrow> db_error option \<times> 'b"
  bk_Delete :: "'b \<Rightarrow> bytes \<Rightarrow> db_error option \<times> 'b"
  bk_Iterate :: "'b \<Rightarrow> bytes \<Rightarrow> bytes \<Rightarrow> (bytes \<times> bytes) list \<times> db_error option"
    \<comment> \<open>prefix, start; the pairs \<open>Next\<close> goes through and the error left at the end\<close>

definition has_prefix :: "bytes \<Rightarrow> bytes \<Rightarrow> bool" where
  "has_prefix key pr \<longleftrightarrow> take (length pr) key = pr"

section \<open>What a store promises\<close>

locale key_value_store =
  fixes B :: "'b backend" and contents :: "'b \<Rightarrow> (bytes, bytes) fmap" and usable :: "'b \<Rightarrow> bool"
  assumes get_store: "usable s \<Longrightarrow>
      bk_Get B s k = (case fmlookup (contents s) k of None \<Rightarrow> Inl ErrDbNotFound | Some v \<Rightarrow> Inr v)"
    and has_store: "usable s \<Longrightarrow> bk_Has B s k = Inr (fmlookup (contents s) k \<noteq> None)"
    and put_store: "usable s \<Longrightarrow> bk_Put B s k v = (e, s') \<Longrightarrow>
      e = None \<and> usable s' \<and> contents s' = fmupd k v (contents s)"
    and delete_store: "usable s \<Longrightarrow> bk_Delete B s k = (e, s') \<Longrightarrow>
      e = None \<and> usable s' \<and> contents s' = fmdrop k (contents s)"
    and iterate_store: "usable s \<Longrightarrow> bk_Iterate B s pr st =
      (map (\<lambda>k. (k, the (fmlookup (contents s) k)))
         (sorted_list_of_fset (ffilter (\<lambda>k. has_prefix k pr \<and> pr @ st \<le> k) (fmdom (contents s)))), None)"

section \<open>The in-memory database\<close>

type_synonym memory_db = "(bytes, bytes) fmap option" \<comment> \<open>None: the nil map of a closed database\<close>

definition md_New :: memory_db where
  "md_New = Some fmempty"

definition md_Close :: "memory_db \<Rightarrow> memory_db" where
  "md_Close db = None"

definition md_Has :: "memory_db \<Rightarrow> bytes \<Rightarrow> db_error + bool" where
  "md_Has db key = (case db of None \<Rightarrow> Inl ErrDbClosed | Some m \<Rightarrow> Inr (fmlookup m key \<noteq> None))"

definition md_Get :: "memory_db \<Rightarrow> bytes \<Rightarrow> db_error + bytes" where
  "md_Get db key =
     (case db of None \<Rightarrow> Inl ErrDbClosed
      | Some m \<Rightarrow> (case fmlookup m key of Some entry \<Rightarrow> Inr entry | None \<Rightarrow> Inl ErrDbNotFound))"

definition md_Put :: "memory_db \<Rightarrow> bytes \<Rightarrow> bytes \<Rightarrow> db_error option \<times> memory_db" where
  "md_Put db key v = (case db of None \<Rightarrow> (Some ErrDbClosed, db) | Some m \<Rightarrow> (None, Some (fmupd key v m)))"

definition md_Delete :: "memory_db \<Rightarrow> bytes \<Rightarrow> db_error option \<times> memory_db" where
  "md_Delete db key = (case db of None \<Rightarrow> (Some ErrDbClosed, db) | Some m \<Rightarrow> (None, Some (fmdrop key m)))"

text \<open>A range over the nil map visits nothing.\<close>

definition md_NewIterator :: "memory_db \<Rightarrow> bytes \<Rightarrow> bytes \<Rightarrow> (bytes \<times> bytes) list \<times> db_error option" where
  "md_NewIterator db pr st =
     (case db of None \<Rightarrow> ([], None)
      | Some m \<Rightarrow>
          (map (\<lambda>k. (k, the (fmlookup m k)))
             (sorted_list_of_fset (ffilter (\<lambda>k. has_prefix k pr \<and> pr @ st \<le> k) (fmdom m))), None))"

definition md_Len :: "memory_db \<Rightarrow> nat" where
  "md_Len db = (case db of None \<Rightarrow> 0 | Some m \<Rightarrow> fcard (fmdom m))"

definition memorydb :: "memory_db backend" where
  "memorydb = \<lparr>bk_Has = md_Has, bk_Get = md_Get, bk_Put = md_Put, bk_Delete = md_Delete,
     bk_Iterate = md_NewIterator\<rparr>"

text \<open>A batch buffers writes and deletions; \<open>Write\<close> replays them, and \<open>Replay\<close> into any writer.\<close>

datatype batch_op = BatchPut bytes bytes | BatchDelete bytes

record mem_batch =
  mb_writes :: "batch_op list"
  mb_size :: nat

definition mb_New :: mem_batch where
  "mb_New = \<lparr>mb_writes = [], mb_size = 0\<rparr>"

definition mb_Put :: "mem_batch \<Rightarrow> bytes \<Rightarrow> bytes \<Rightarrow> mem_batch" where
  "mb_Put b key v = b\<lparr>mb_writes := mb_writes b @ [BatchPut key v], mb_size := mb_size b + length key + length v\<rparr>"

definition mb_Delete :: "mem_batch \<Rightarrow> bytes \<Rightarrow> mem_batch" where
  "mb_Delete b key = b\<lparr>mb_writes := mb_writes b @ [BatchDelete key], mb_size := mb_size b + length key\<rparr>"

fun apply_op :: "(bytes, bytes) fmap \<Rightarrow> batch_op \<Rightarrow> (bytes, bytes) fmap" where
  "apply_op m (BatchPut key v) = fmupd key v m"
| "apply_op m (BatchDelete key) = fmdrop key m"

definition mb_Write :: "mem_batch \<Rightarrow> memory_db \<Rightarrow> db_error option \<times> memory_db" where
  "mb_Write b db =
     (case db of None \<Rightarrow> (Some ErrDbClosed, db) | Some m \<Rightarrow> (None, Some (foldl apply_op m (mb_writes b))))"

definition mb_Reset :: "mem_batch \<Rightarrow> mem_batch" where
  "mb_Reset b = \<lparr>mb_writes = [], mb_size = 0\<rparr>"

fun replay :: "'w backend \<Rightarrow> batch_op list \<Rightarrow> 'w \<Rightarrow> db_error option \<times> 'w" where
  "replay W [] w = (None, w)"
| "replay W (BatchPut k v # ops) w =
     (case bk_Put W w k v of (Some e, w) \<Rightarrow> (Some e, w) | (None, w) \<Rightarrow> replay W ops w)"
| "replay W (BatchDelete k # ops) w =
     (case bk_Delete W w k of (Some e, w) \<Rightarrow> (Some e, w) | (None, w) \<Rightarrow> replay W ops w)"

definition mb_Replay :: "mem_batch \<Rightarrow> 'w backend \<Rightarrow> 'w \<Rightarrow> db_error option \<times> 'w" where
  "mb_Replay b W w = replay W (mb_writes b) w"

section \<open>It is a store\<close>

interpretation memory: key_value_store memorydb the "\<lambda>db. db \<noteq> None"
  by unfold_locales (auto simp: memorydb_def md_Get_def md_Has_def md_Put_def md_Delete_def md_NewIterator_def)

context key_value_store
begin

text \<open>Replaying a batch into a store does what writing it to the map does.\<close>

lemma replay_store:
  "usable s \<Longrightarrow> replay B ops s = (e, s') \<Longrightarrow> e = None \<and> usable s' \<and> contents s' = foldl apply_op (contents s) ops"
proof (induction ops arbitrary: s)
  case (Cons op ops)
  show ?case
  proof (cases op)
    case (BatchPut k v)
    obtain e1 s1 where p: "bk_Put B s k v = (e1, s1)" by force
    from put_store [OF Cons.prems(1) p] p Cons BatchPut show ?thesis by auto
  next
    case (BatchDelete k)
    obtain e1 s1 where p: "bk_Delete B s k = (e1, s1)" by force
    from delete_store [OF Cons.prems(1) p] p Cons BatchDelete show ?thesis by auto
  qed
qed simp

end

end
