(* ===== verification/SubstateDB.thy ===== *)
theory SubstateDB
  imports SubstateRLP MemoryDB
begin

text \<open>
  The substate database (\<^verbatim>\<open>research/substate_db.go\<close>) over any key-value store, and the task pool
  that replays what it holds (the operations of \<^verbatim>\<open>research/substate_task.go\<close> a worker runs).
  \<open>keccak256\<close> is the hash function; a task is a function over a state of its own.  Opening,
  compacting and closing the store, the worker goroutines and the progress reports are left out.
\<close>

section \<open>Keys\<close>

definition stage1SubstatePrefix :: bytes where "stage1SubstatePrefix = [0x31, 0x73]"
definition stage1CodePrefix :: bytes where "stage1CodePrefix = [0x31, 0x63]"

text \<open>A transaction index is a Go \<open>int\<close>, stored as its 64-bit two's complement.\<close>

definition Stage1SubstateKey :: "u64 \<Rightarrow> int \<Rightarrow> bytes" where
  "Stage1SubstateKey block tx = stage1SubstatePrefix @ to_be 8 block @ to_be 8 (word_of_int tx :: u64)"

datatype key_error = InvalidKeyLength nat | InvalidKeyPrefix bytes

definition DecodeStage1SubstateKey :: "bytes \<Rightarrow> key_error + (u64 \<times> int)" where
  "DecodeStage1SubstateKey key =
     (let n = length stage1SubstatePrefix in
      if length key \<noteq> n + 8 + 8 then Inl (InvalidKeyLength (length key))
      else if take n key \<noteq> stage1SubstatePrefix then Inl (InvalidKeyPrefix (take n key))
      else let blockTx = drop n key
           in Inr (be_word (take 8 blockTx), sint (be_word (take 8 (drop 8 blockTx)) :: u64)))"

definition Stage1SubstateBlockPrefix :: "u64 \<Rightarrow> bytes" where
  "Stage1SubstateBlockPrefix block = stage1SubstatePrefix @ to_be 8 block"

definition Stage1CodeKey :: "hash \<Rightarrow> bytes" where
  "Stage1CodeKey codeHash = stage1CodePrefix @ to_be 32 codeHash"

definition DecodeStage1CodeKey :: "bytes \<Rightarrow> key_error + hash" where
  "DecodeStage1CodeKey key =
     (let n = length stage1CodePrefix in
      if length key \<noteq> n + 32 then Inl (InvalidKeyLength (length key))
      else if take 2 key \<noteq> stage1CodePrefix then Inl (InvalidKeyPrefix (take 2 key))
      else Inr (be_word (drop n key)))"

section \<open>Code\<close>

definition Empty_CodeHash :: "(bytes \<Rightarrow> hash) \<Rightarrow> hash" where
  "Empty_CodeHash keccak256 = keccak256 []"

definition HasCode :: "'b backend \<Rightarrow> (bytes \<Rightarrow> hash) \<Rightarrow> 'b \<Rightarrow> hash \<Rightarrow> bool option" where
  "HasCode B keccak256 d codeHash =
     (if codeHash = Empty_CodeHash keccak256 then Some False
      else case bk_Has B d (Stage1CodeKey codeHash) of Inl e \<Rightarrow> None | Inr has \<Rightarrow> Some has)"

definition GetCode_db :: "'b backend \<Rightarrow> (bytes \<Rightarrow> hash) \<Rightarrow> 'b \<Rightarrow> hash \<Rightarrow> bytes option" where
  "GetCode_db B keccak256 d codeHash =
     (if codeHash = Empty_CodeHash keccak256 then Some []
      else case bk_Get B d (Stage1CodeKey codeHash) of Inl e \<Rightarrow> None | Inr cd \<Rightarrow> Some cd)"

definition PutCode :: "'b backend \<Rightarrow> (bytes \<Rightarrow> hash) \<Rightarrow> 'b \<Rightarrow> bytes \<Rightarrow> 'b option" where
  "PutCode B keccak256 d cd =
     (if length cd = 0 then Some d
      else case bk_Put B d (Stage1CodeKey (keccak256 cd)) cd of (Some e, d) \<Rightarrow> None | (None, d) \<Rightarrow> Some d)"

section \<open>Substates\<close>

definition HasSubstate :: "'b backend \<Rightarrow> 'b \<Rightarrow> u64 \<Rightarrow> int \<Rightarrow> bool" where
  "HasSubstate B d block tx =
     (case bk_Has B d (Stage1SubstateKey block tx) of Inl e \<Rightarrow> False | Inr has \<Rightarrow> has)"

text \<open>The three formats, newest first; a value in none of them panics.\<close>

definition decode_stored :: "bytes \<Rightarrow> substate_rlp option" where
  "decode_stored v =
     (case DecodeBytes (ty_substate ty_env ty_message) v of
        Inr r \<Rightarrow> Some (un_substate un_env un_message r)
      | Inl _ \<Rightarrow>
          (case DecodeBytes (ty_substate ty_legacy_env ty_berlin_message) v of
             Inr r \<Rightarrow> Some (setBerlinRLP (un_substate un_legacy_env un_berlin_message r))
           | Inl _ \<Rightarrow>
               (case DecodeBytes (ty_substate ty_legacy_env ty_legacy_message) v of
                  Inr r \<Rightarrow> Some (setLegacyRLP (un_substate un_legacy_env un_legacy_message r))
                | Inl _ \<Rightarrow> None)))"

definition read_substate :: "'b backend \<Rightarrow> (bytes \<Rightarrow> hash) \<Rightarrow> 'b \<Rightarrow> bytes \<Rightarrow> substate option" where
  "read_substate B keccak256 d v = do {
     r \<leftarrow> decode_stored v;
     Substate_SetRLP (GetCode_db B keccak256 d) r }"

definition GetSubstate :: "'b backend \<Rightarrow> (bytes \<Rightarrow> hash) \<Rightarrow> 'b \<Rightarrow> u64 \<Rightarrow> int \<Rightarrow> substate option" where
  "GetSubstate B keccak256 d block tx =
     (case bk_Get B d (Stage1SubstateKey block tx) of
        Inl e \<Rightarrow> None
      | Inr v \<Rightarrow> read_substate B keccak256 d v)"

fun block_substates :: "'b backend \<Rightarrow> (bytes \<Rightarrow> hash) \<Rightarrow> 'b \<Rightarrow> u64 \<Rightarrow> (bytes \<times> bytes) list \<Rightarrow>
    (int, substate) fmap \<Rightarrow> (int, substate) fmap option" where
  "block_substates B keccak256 d block [] m = Some m"
| "block_substates B keccak256 d block ((key, v) # kvs) m =
     (case DecodeStage1SubstateKey key of
        Inl e \<Rightarrow> None
      | Inr (b, tx) \<Rightarrow>
          if block \<noteq> b then None
          else do {
            s \<leftarrow> read_substate B keccak256 d v;
            block_substates B keccak256 d block kvs (fmupd tx s m) })"

definition GetBlockSubstates :: "'b backend \<Rightarrow> (bytes \<Rightarrow> hash) \<Rightarrow> 'b \<Rightarrow> u64 \<Rightarrow> (int, substate) fmap option" where
  "GetBlockSubstates B keccak256 d block =
     (case bk_Iterate B d (Stage1SubstateBlockPrefix block) [] of (kvs, err) \<Rightarrow> do {
        m \<leftarrow> block_substates B keccak256 d block kvs fmempty;
        if err \<noteq> None then None else Some m })"

text \<open>The order in which the maps of a substate are visited.\<close>

record map_orders =
  mo_Input :: "address list"
  mo_Output :: "address list"
  mo_Hashes :: "u64 list"

fun put_codes :: "'b backend \<Rightarrow> (bytes \<Rightarrow> hash) \<Rightarrow> address list \<Rightarrow> substate_alloc \<Rightarrow> 'b \<Rightarrow> 'b option" where
  "put_codes B keccak256 [] alloc d = Some d"
| "put_codes B keccak256 (a # as) alloc d = do {
     account \<leftarrow> fmlookup alloc a;
     d \<leftarrow> PutCode B keccak256 d (sa_Code account);
     put_codes B keccak256 as alloc d }"

text \<open>The message keeps the hash of its data, so the substate is returned too.\<close>

definition PutSubstate :: "'b backend \<Rightarrow> (bytes \<Rightarrow> hash) \<Rightarrow> map_orders \<Rightarrow> 'b \<Rightarrow> u64 \<Rightarrow> int \<Rightarrow> substate \<Rightarrow>
    ('b \<times> substate) option" where
  "PutSubstate B keccak256 ord d block tx s = do {
     d \<leftarrow> put_codes B keccak256 (mo_Input ord) (ss_InputAlloc s) d;
     d \<leftarrow> put_codes B keccak256 (mo_Output ord) (ss_OutputAlloc s) d;
     d \<leftarrow> (if sm_To (ss_Message s) = None then PutCode B keccak256 d (sm_Data (ss_Message s)) else Some d);
     let (r, s) = NewSubstateRLP keccak256 (mo_Hashes ord) s;
     e \<leftarrow> EncodeToBytes (rv_substate r);
     case e of
       Inl err \<Rightarrow> None
     | Inr v \<Rightarrow>
         (case bk_Put B d (Stage1SubstateKey block tx) v of (Some err, d) \<Rightarrow> None | (None, d) \<Rightarrow> Some (d, s)) }"

definition DeleteSubstate :: "'b backend \<Rightarrow> 'b \<Rightarrow> u64 \<Rightarrow> int \<Rightarrow> 'b option" where
  "DeleteSubstate B d block tx =
     (case bk_Delete B d (Stage1SubstateKey block tx) of (Some e, d) \<Rightarrow> None | (None, d) \<Rightarrow> Some d)"

section \<open>Replaying a block\<close>

datatype task_error = NotInner | TaskError string

text \<open>A task is given the substate's pointer, which may be nil.\<close>

type_synonym 'st task = "u64 \<Rightarrow> int \<Rightarrow> substate option \<Rightarrow> 'st \<Rightarrow> task_error option \<times> 'st"

record 'st task_pool =
  TaskFunc :: "'st task"
  First :: u64
  Last :: u64
  SkipTransferTxs :: bool
  SkipCallTxs :: bool
  SkipCreateTxs :: bool

definition has_code :: "substate_alloc \<Rightarrow> address \<Rightarrow> bool" where
  "has_code alloc a = (case fmlookup alloc a of None \<Rightarrow> False | Some account \<Rightarrow> length (sa_Code account) > 0)"

definition skipped :: "'st task_pool \<Rightarrow> substate \<Rightarrow> bool" where
  "skipped pool s =
     (case sm_To (ss_Message s) of
        Some a \<Rightarrow> SkipTransferTxs pool \<and> \<not> has_code (ss_InputAlloc s) a \<or>
                  SkipCallTxs pool \<and> has_code (ss_InputAlloc s) a
      | None \<Rightarrow> SkipCreateTxs pool)"

text \<open>The transactions of the block in the order the map is visited; the count and the error.\<close>

fun execute_txs :: "'st task_pool \<Rightarrow> u64 \<Rightarrow> (int, substate) fmap \<Rightarrow> int list \<Rightarrow> int \<Rightarrow> 'st \<Rightarrow>
    (int \<times> (int \<times> task_error) option) \<times> 'st" where
  "execute_txs pool block m [] numTx st = ((numTx, None), st)"
| "execute_txs pool block m (tx # txs) numTx st =
     (case fmlookup m tx of
        None \<Rightarrow> execute_txs pool block m txs numTx st
      | Some s \<Rightarrow>
          if skipped pool s then execute_txs pool block m txs numTx st
          else (case TaskFunc pool block tx (Some s) st of
                  (None, st) \<Rightarrow> execute_txs pool block m txs (numTx + 1) st
                | (Some NotInner, st) \<Rightarrow> execute_txs pool block m txs numTx st
                | (Some e, st) \<Rightarrow> ((numTx, Some (tx, e)), st)))"

definition ExecuteBlock :: "'b backend \<Rightarrow> (bytes \<Rightarrow> hash) \<Rightarrow> 'st task_pool \<Rightarrow> 'b \<Rightarrow> int list \<Rightarrow> u64 \<Rightarrow> 'st \<Rightarrow>
    ((int \<times> (int \<times> task_error) option) \<times> 'st) option" where
  "ExecuteBlock B keccak256 pool d order block st = do {
     m \<leftarrow> GetBlockSubstates B keccak256 d block;
     Some (execute_txs pool block m order 0 st) }"

text \<open>
  \<open>strings.Split\<close> at underscores, and the values of \<open>strconv.ParseUint\<close> and \<open>Atoi\<close> in base 10,
  whose errors \<open>ExecuteBlockTx\<close> drops: malformed text is zero, too large a number the bound.
\<close>

fun split_at :: "char \<Rightarrow> string \<Rightarrow> string list" where
  "split_at c [] = [[]]"
| "split_at c (x # xs) =
     (if x = c then [] # split_at c xs
      else case split_at c xs of [] \<Rightarrow> [[x]] | w # ws \<Rightarrow> (x # w) # ws)"

definition digit :: "char \<Rightarrow> nat option" where
  "digit c = (let n = of_char c in if 48 \<le> n \<and> n \<le> 57 then Some (n - 48) else None)"

text \<open>A number that no longer fits ends the loop before a later malformed character is seen.\<close>

fun uint_digits :: "nat \<Rightarrow> string \<Rightarrow> nat \<Rightarrow> nat" where
  "uint_digits bound [] n = n"
| "uint_digits bound (c # cs) n =
     (case digit c of
        None \<Rightarrow> 0
      | Some d \<Rightarrow> if 10 * n + d > bound then bound else uint_digits bound cs (10 * n + d))"

definition ParseUint :: "string \<Rightarrow> u64" where
  "ParseUint s = (if s = [] then 0 else of_nat (uint_digits (2 ^ 64 - 1) s 0))"

definition Atoi :: "string \<Rightarrow> int" where
  "Atoi s =
     (let (neg, ds) = (case s of [] \<Rightarrow> (False, []) | c # cs \<Rightarrow>
            if c = CHR ''-'' then (True, cs) else if c = CHR ''+'' then (False, cs) else (False, s));
          n = (if ds = [] then 0 else uint_digits (2 ^ 64 - 1) ds 0)
      in if neg then - int (min n (2 ^ 63)) else int (min n (2 ^ 63 - 1)))"

definition ExecuteBlockTx :: "'b backend \<Rightarrow> (bytes \<Rightarrow> hash) \<Rightarrow> 'st task_pool \<Rightarrow> 'b \<Rightarrow> string \<Rightarrow> 'st \<Rightarrow>
    ((int \<times> task_error option) \<times> 'st) option" where
  "ExecuteBlockTx B keccak256 pool d blockTx st = do {
     let parts = split_at (CHR ''_'') blockTx;
     require (1 < length parts);
     let block = ParseUint (parts ! 0);
     let tx = Atoi (parts ! 1);
     m \<leftarrow> GetBlockSubstates B keccak256 d block;
     if block \<le> Last pool \<and> First pool \<le> block \<and> tx < int (maplen m)
     then (case TaskFunc pool block tx (fmlookup m tx) st of (err, st) \<Rightarrow> Some ((1, err), st))
     else Some ((0, None), st) }"

section \<open>Merging allocations\<close>

text \<open>
  \<open>UpdateSubstate\<close> puts the slots of \<open>alloc\<close> into the accounts that are there and, when asked, its
  other accounts; \<open>UpdateSubstatePlusInner\<close> adds the accounts of a dapp in any case.  The order of
  the loop over \<open>alloc\<close> is an argument.
\<close>

definition merge_storage :: "bool \<Rightarrow> (hash, hash) fmap \<Rightarrow> (hash, hash) fmap \<Rightarrow> (hash, hash) fmap" where
  "merge_storage replaces storage target = (if replaces then fmadd target storage else fmadd storage target)"

fun update_alloc :: "(address \<Rightarrow> bool) \<Rightarrow> bool \<Rightarrow> substate_alloc \<Rightarrow> address list \<Rightarrow> substate_alloc \<Rightarrow> substate_alloc" where
  "update_alloc adds replaces alloc [] target = target"
| "update_alloc adds replaces alloc (addr # addrs) target =
     (case fmlookup alloc addr of
        None \<Rightarrow> update_alloc adds replaces alloc addrs target
      | Some account \<Rightarrow>
          update_alloc adds replaces alloc addrs
            (case fmlookup target addr of
               None \<Rightarrow> if adds addr then fmupd addr account target else target
             | Some old \<Rightarrow>
                 fmupd addr (old\<lparr>sa_Storage := merge_storage replaces (sa_Storage account) (sa_Storage old)\<rparr>) target))"

definition UpdateSubstate :: "address list \<Rightarrow> substate_alloc \<Rightarrow> substate_alloc \<Rightarrow> bool \<Rightarrow> bool \<Rightarrow> substate_alloc" where
  "UpdateSubstate order target alloc replaces add = update_alloc (\<lambda>addr. add) replaces alloc order target"

text \<open>Lower case, and the hexadecimal text of an address in it.\<close>

definition lower :: "char \<Rightarrow> char" where
  "lower c = (let n = of_char c :: nat in if 65 \<le> n \<and> n \<le> 90 then char_of (n + 32) else c)"

definition hex_digit :: "nat \<Rightarrow> char" where
  "hex_digit n = char_of (if n < 10 then 48 + n else 87 + n)"

definition address_hex :: "address \<Rightarrow> string" where
  "address_hex a = ''0x'' @ concat (map (\<lambda>b. [hex_digit (unat b div 16), hex_digit (unat b mod 16)]) (to_be 20 a))"

definition UpdateSubstatePlusInner ::
    "address list \<Rightarrow> substate_alloc \<Rightarrow> substate_alloc \<Rightarrow> bool \<Rightarrow> bool \<Rightarrow> string list \<Rightarrow> substate_alloc" where
  "UpdateSubstatePlusInner order target alloc replaces add dappInner =
     update_alloc (\<lambda>addr. add \<or> (\<exists>inner \<in> set dappInner. map lower inner = address_hex addr)) replaces alloc order target"

end
