(* ===== verification/Substate_Props.thy ===== *)
theory Substate_Props
  imports SubstateDB RlpDecode_Props
begin

text \<open>
  The substate database gives back what was put into it.  The lemmas follow the layers: comparing
  substates is equality of what is stored of them; the structs read back from the codec's values
  are those written; the stored form is turned back into maps and code; and, for any store that
  keeps the promises of \<open>key_value_store\<close>, codes and substates are found under their keys.
\<close>

section \<open>Comparing\<close>

lemma map_eqI:
  assumes "maplen x = maplen y" "entries_in (=) x y"
  shows "x = y"
proof -
  have sub: "fmlookup x k = Some v \<Longrightarrow> fmlookup y k = Some v" for k v
  proof -
    assume l: "fmlookup x k = Some v"
    then have "k |\<in>| fmdom x" by (rule fmdomI)
    with assms(2) have "case fmlookup x k of None \<Rightarrow> True | Some xv \<Rightarrow>
        (case fmlookup y k of None \<Rightarrow> False | Some yv \<Rightarrow> xv = yv)"
      unfolding entries_in_def by blast
    with l show ?thesis by (simp split: option.splits)
  qed
  then have "fmdom x |\<subseteq>| fmdom y" by (auto simp: fmlookup_dom_iff)
  then have "fmdom x = fmdom y" using assms(1) by (metis fcard_seteq le_refl maplen_def)
  then show ?thesis using sub by (intro fmap_ext) (metis fmlookup_dom_iff not_None_eq)
qed

lemma entries_refl: "(\<And>v. eq v v) \<Longrightarrow> entries_in eq x x"
  by (auto simp: entries_in_def split: option.splits)

lemma map_equal_iff: "maplen x = maplen y \<and> entries_in (=) x y \<longleftrightarrow> x = y"
  by (auto intro: map_eqI simp: entries_refl)

lemma Account_Equal_iff: "Account_Equal x y \<longleftrightarrow> x = y"
  unfolding Account_Equal_def using map_equal_iff [of "sa_Storage x" "sa_Storage y"]
  by (auto intro: substate_account.equality)

lemma Alloc_Equal_iff: "Alloc_Equal x y \<longleftrightarrow> x = y"
proof -
  have "Account_Equal = (=)" by (simp add: fun_eq_iff Account_Equal_iff)
  then show ?thesis using map_equal_iff [of x y] by (auto simp: Alloc_Equal_def)
qed

lemma ptr_Cmp_0 [simp]: "ptr_Cmp x y = Some 0 \<longleftrightarrow> x = y"
  by (auto simp: ptr_Cmp_def split: option.splits)

lemma Env_Equal_iff: "Env_Equal x y = Some True \<longleftrightarrow> x = y"
proof -
  have "Env_Equal x y = Some True \<longleftrightarrow> se_Coinbase x = se_Coinbase y \<and> se_Difficulty x = se_Difficulty y \<and>
      se_GasLimit x = se_GasLimit y \<and> se_Number x = se_Number y \<and> se_Timestamp x = se_Timestamp y \<and>
      se_BlockHashes x = se_BlockHashes y \<and> se_BaseFee x = se_BaseFee y"
    unfolding Env_Equal_def using map_equal_iff [of "se_BlockHashes x" "se_BlockHashes y"] by auto
  then show ?thesis by (auto intro: substate_env.equality)
qed

lemma keys_equal_iff: "keys_equal xs ys \<longleftrightarrow> xs = ys"
  by (auto simp: keys_equal_def list.rel_eq)

lemma access_equal_iff: "access_equal xs ys \<longleftrightarrow> xs = ys"
proof -
  have "(\<lambda>(a, ks) (b, ls). a = b \<and> keys_equal ks ls) = ((=) :: address \<times> hash list \<Rightarrow> _)"
    by (auto simp: fun_eq_iff keys_equal_iff)
  then show ?thesis by (simp add: access_equal_def list.rel_eq)
qed

text \<open>What is stored of a substate: the data hash is not, and of a log only the consensus fields.\<close>

definition stored_log :: "log \<Rightarrow> log" where
  "stored_log l = l\<lparr>log_BlockNumber := 0, log_TxHash := 0, log_TxIndex := 0, log_Index := 0\<rparr>"

definition stored_form :: "substate \<Rightarrow> substate" where
  "stored_form s = s\<lparr>ss_Message := (ss_Message s)\<lparr>sm_dataHash := None\<rparr>,
     ss_Result := (ss_Result s)\<lparr>sr_Logs := map stored_log (sr_Logs (ss_Result s))\<rparr>\<rparr>"

lemma Message_Equal_iff:
  "Message_Equal x y = Some True \<longleftrightarrow> x\<lparr>sm_dataHash := None\<rparr> = y\<lparr>sm_dataHash := None\<rparr>"
proof -
  have "Message_Equal x y = Some True \<longleftrightarrow> sm_Nonce x = sm_Nonce y \<and> sm_CheckNonce x = sm_CheckNonce y \<and>
      sm_GasPrice x = sm_GasPrice y \<and> sm_Gas x = sm_Gas y \<and> sm_From x = sm_From y \<and> sm_To x = sm_To y \<and>
      sm_Value x = sm_Value y \<and> sm_Data x = sm_Data y \<and> sm_AccessList x = sm_AccessList y \<and>
      sm_GasFeeCap x = sm_GasFeeCap y \<and> sm_GasTipCap x = sm_GasTipCap y"
    by (auto simp: Message_Equal_def access_equal_iff)
  then show ?thesis by (cases x; cases y) auto
qed

lemma stored_log_iff:
  "stored_log x = stored_log y \<longleftrightarrow> log_Address x = log_Address y \<and> log_Data x = log_Data y \<and> log_Topics x = log_Topics y"
  by (cases x; cases y) (auto simp: stored_log_def)

lemma Result_Equal_iff:
  "Result_Equal x y \<longleftrightarrow> x\<lparr>sr_Logs := map stored_log (sr_Logs x)\<rparr> = y\<lparr>sr_Logs := map stored_log (sr_Logs y)\<rparr>"
proof -
  have "logs_equal True xs ys \<longleftrightarrow> map stored_log xs = map stored_log ys" for xs ys
    by (auto simp: logs_equal_def keys_equal_iff stored_log_iff list_all2_conv_all_nth list_eq_iff_nth_eq)
  moreover have "map stored_log (sr_Logs x) = map stored_log (sr_Logs y) \<Longrightarrow> length (sr_Logs x) = length (sr_Logs y)"
    by (metis length_map)
  ultimately show ?thesis
    unfolding Result_Equal_def result_equal_def by (cases x; cases y) auto
qed

lemma Substate_Equal_stored: "Substate_Equal x y = Some True \<longleftrightarrow> stored_form x = stored_form y"
proof -
  have "Substate_Equal x y = Some True \<longleftrightarrow> ss_InputAlloc x = ss_InputAlloc y \<and> ss_OutputAlloc x = ss_OutputAlloc y \<and>
      Env_Equal (ss_Env x) (ss_Env y) = Some True \<and> Message_Equal (ss_Message x) (ss_Message y) = Some True \<and>
      Result_Equal (ss_Result x) (ss_Result y)"
    by (auto simp: Substate_Equal_def Alloc_Equal_iff)
  then show ?thesis
    unfolding Env_Equal_iff Message_Equal_iff Result_Equal_iff by (cases x; cases y) (auto simp: stored_form_def)
qed

text \<open>
  When \<open>Equal\<close> panics: the comparison gets as far as a pair of pointers to a \<open>big.Int\<close> of which
  exactly one is nil, because everything compared before it is equal.
\<close>

definition one_nil :: "'a option \<Rightarrow> 'a option \<Rightarrow> bool" where
  "one_nil p q \<longleftrightarrow> (p = None) \<noteq> (q = None)"

definition Env_panics :: "substate_env \<Rightarrow> substate_env \<Rightarrow> bool" where
  "Env_panics x y \<longleftrightarrow> x\<lparr>se_BlockHashes := fmempty, se_BaseFee := None\<rparr> = y\<lparr>se_BlockHashes := fmempty, se_BaseFee := None\<rparr> \<and>
     maplen (se_BlockHashes x) = maplen (se_BlockHashes y) \<and> one_nil (se_BaseFee x) (se_BaseFee y)"

definition Message_panics :: "substate_message \<Rightarrow> substate_message \<Rightarrow> bool" where
  "Message_panics x y \<longleftrightarrow>
     x\<lparr>sm_dataHash := None, sm_AccessList := [], sm_GasFeeCap := None, sm_GasTipCap := None\<rparr> =
     y\<lparr>sm_dataHash := None, sm_AccessList := [], sm_GasFeeCap := None, sm_GasTipCap := None\<rparr> \<and>
     length (sm_AccessList x) = length (sm_AccessList y) \<and>
     (one_nil (sm_GasFeeCap x) (sm_GasFeeCap y) \<or>
      sm_GasFeeCap x = sm_GasFeeCap y \<and> one_nil (sm_GasTipCap x) (sm_GasTipCap y))"

definition equal_panics :: "substate \<Rightarrow> substate \<Rightarrow> bool" where
  "equal_panics x y \<longleftrightarrow> ss_InputAlloc x = ss_InputAlloc y \<and> ss_OutputAlloc x = ss_OutputAlloc y \<and>
     (Env_panics (ss_Env x) (ss_Env y) \<or> ss_Env x = ss_Env y \<and> Message_panics (ss_Message x) (ss_Message y))"

lemma ptr_Cmp_None: "ptr_Cmp x y = None \<longleftrightarrow> one_nil x y"
  by (auto simp: ptr_Cmp_def one_nil_def split: option.splits)

lemma same_pointer [simp]: "ptr_Cmp x x = Some 0" "\<not> one_nil x x"
  by (simp_all add: one_nil_def)

lemma Env_Equal_None: "Env_Equal x y = None \<longleftrightarrow> Env_panics x y"
  unfolding Env_panics_def ptr_Cmp_None [symmetric]
  by (cases x; cases y) (auto simp: Env_Equal_def bind_eq_None_conv)

lemma Message_Equal_None: "Message_Equal x y = None \<longleftrightarrow> Message_panics x y"
proof -
  have n: "ptr_Cmp a b = Some c \<Longrightarrow> \<not> one_nil a b" for a b c
    by (simp flip: ptr_Cmp_None)
  show ?thesis
    by (cases x; cases y; cases "ptr_Cmp (sm_GasFeeCap x) (sm_GasFeeCap y)")
      (auto simp: Message_Equal_def Message_panics_def bind_eq_None_conv ptr_Cmp_None dest: n split: if_splits)
qed

lemma Substate_Equal_None: "Substate_Equal x y = None \<longleftrightarrow> equal_panics x y"
proof (cases "Env_Equal (ss_Env x) (ss_Env y)")
  case None
  then have "ss_Env x \<noteq> ss_Env y" using Env_Equal_iff [of "ss_Env x" "ss_Env y"] by auto
  with None show ?thesis by (auto simp: Substate_Equal_def equal_panics_def Alloc_Equal_iff Env_Equal_None [symmetric])
next
  case (Some b)
  then have "\<not> Env_panics (ss_Env x) (ss_Env y)" "b \<longleftrightarrow> ss_Env x = ss_Env y"
    using Env_Equal_iff [of "ss_Env x" "ss_Env y"] Env_Equal_None [of "ss_Env x" "ss_Env y"] by auto
  with Some show ?thesis
    by (auto simp: Substate_Equal_def equal_panics_def Alloc_Equal_iff Message_Equal_None [symmetric] bind_eq_None_conv)
qed

lemma stored_form_idem: "stored_form (stored_form s) = stored_form s"
  by (simp add: stored_form_def stored_log_def comp_def)

section \<open>Values of the codec\<close>

lemma bytes_words [simp]: "be_word (to_be 32 h) = (h :: hash)" "be_word (to_be 20 a) = (a :: address)"
  "be_word (to_be 8 n) = (n :: u64)"
  by (simp_all add: be_word_to_be take_bit_word_eq_self)

lemma un_hash_rv [simp]: "un_hash (rv_hash h) = h"
  by (simp add: un_hash_def rv_hash_def)

lemma un_address_rv [simp]: "un_address (rv_address a) = a"
  by (simp add: un_address_def rv_address_def)

lemma un_pairs_rv [simp]: "un_pairs (rv_pairs ps) = ps"
  by (auto simp: un_pairs_def rv_pairs_def comp_def case_prod_beta)

lemma un_ptr_rv [simp]: "un_ptr un_hash (rv_ptr rv_hash p) = p" "un_ptr un_address (rv_ptr rv_address q) = q"
  by (cases p; simp add: rv_ptr_def un_hash_def rv_hash_def) (cases q; simp add: rv_ptr_def un_address_def rv_address_def)

lemma un_int_Some [simp]: "un_int (RBigPtr (Some i)) = i"
  by (simp add: un_int_def)

lemma nth_numerals [simp]: "(x # xs) ! 2 = xs ! 1" "(x # xs) ! 3 = xs ! 2" "(x # xs) ! 4 = xs ! 3" "(x # xs) ! 5 = xs ! 4"
  "(x # xs) ! 6 = xs ! 5" "(x # xs) ! 7 = xs ! 6" "(x # xs) ! 8 = xs ! 7" "(x # xs) ! 9 = xs ! 8"
  "(x # xs) ! 10 = xs ! 9" "(x # xs) ! 11 = xs ! 10"
  by (simp_all add: nth_Cons')

lemma un_account_rv [simp]: "un_account (rv_account a) = a"
  by (simp add: un_account_def rv_account_def)

lemma un_alloc_rv [simp]: "un_alloc (rv_alloc a) = a"
  by (simp add: un_alloc_def rv_alloc_def comp_def)

lemma un_env_rv [simp]: "un_env (rv_env e) = e"
  by (simp add: un_env_def un_legacy_env_def rv_env_def legacy_env_rlp.defs)

lemma un_access_list_rv [simp]: "un_access_list (rv_access_list al) = al"
  by (auto simp: un_access_list_def rv_access_list_def comp_def case_prod_beta)

lemma un_message_rv [simp]: "un_message (rv_message m) = m"
  by (simp add: un_message_def un_berlin_message_def un_legacy_message_def rv_message_def
      legacy_message_rlp.defs berlin_message_rlp.defs)

lemma un_log_rv [simp]: "un_log (rv_log l) = stored_log l"
  by (simp add: un_log_def rv_log_def stored_log_def comp_def)

lemma un_result_rv [simp]: "un_result (rv_result r) = r\<lparr>sr_Logs := map stored_log (sr_Logs r)\<rparr>"
  by (simp add: un_result_def rv_result_def comp_def)

lemma un_substate_rv:
  "un_substate un_env un_message (rv_substate r) =
     r\<lparr>st_Result := (st_Result r)\<lparr>sr_Logs := map stored_log (sr_Logs (st_Result r))\<rparr>\<rparr>"
  by (simp add: un_substate_def rv_substate_def)

text \<open>They have the types the decoder is built for.\<close>

lemma typed_struct: "typed (ty_struct ts) v \<longleftrightarrow> (\<exists>vs. v = RStruct vs \<and> list_all2 typed ts vs)"
proof -
  have "typed_fields (map (Field False) ts) vs \<longleftrightarrow> list_all2 typed ts vs" for vs
    by (induction ts arbitrary: vs) (auto simp: list_all2_Cons1)
  then show ?thesis by simp
qed

lemma typed_uint64 [simp]: "typed ty_uint64 (RUint i)"
  by simp

lemma typed_rv [simp]: "typed ty_hash (rv_hash h)" "typed ty_address (rv_address a)" "typed ty_pairs (rv_pairs ps)"
  by (auto simp: rv_hash_def rv_address_def rv_pairs_def list_all_iff)

lemma long_enc: "1 < length b \<Longrightarrow> str_enc b \<noteq> [c]"
  using length_str_enc [of b] by auto

lemma typed_ptr [simp]: "typed (TNil KString ty_hash) (rv_ptr rv_hash p)" "typed (TNil KString ty_address) (rv_ptr rv_address q)"
  by (cases p; simp add: rv_ptr_def rv_hash_def long_enc) (cases q; simp add: rv_ptr_def rv_address_def long_enc)

definition storable_account :: "account_rlp \<Rightarrow> bool" where
  "storable_account a \<longleftrightarrow> 0 \<le> ar_Balance a"

definition storable_rlp :: "substate_rlp \<Rightarrow> bool" where
  "storable_rlp r \<longleftrightarrow> list_all storable_account (al_Accounts (st_InputAlloc r)) \<and>
     list_all storable_account (al_Accounts (st_OutputAlloc r)) \<and> 0 \<le> er_Difficulty (st_Env r) \<and>
     0 \<le> mr_GasPrice (st_Message r) \<and> 0 \<le> mr_Value (st_Message r) \<and>
     (\<exists>c t. mr_GasFeeCap (st_Message r) = Some c \<and> 0 \<le> c \<and> mr_GasTipCap (st_Message r) = Some t \<and> 0 \<le> t) \<and>
     length (sr_Bloom (st_Result r)) = 256"

lemma typed_list [simp]: "typed (TSlice t) (RSlice vs) \<longleftrightarrow> (\<forall>v \<in> set vs. typed t v)"
  by (simp add: list_all_iff)

lemma typed_leaf: "0 \<le> i \<Longrightarrow> typed TBig (RBigPtr (Some i))" "typed TBool (RBool b)" "typed TBytes (RBytes c)"
  "typed (TArray n) (RArray c) \<longleftrightarrow> length c = n" "typed (TPtr t) v \<longleftrightarrow> typed t v"
  by simp_all

lemmas typed_rules = typed_uint64 typed_rv typed_ptr typed_list typed_leaf

declare typed.simps [simp del]

lemma typed_account: "storable_account a \<Longrightarrow> typed ty_account (rv_account a)"
  unfolding ty_account_def typed_struct by (simp add: rv_account_def storable_account_def typed_rules)

lemma typed_alloc: "list_all storable_account (al_Accounts a) \<Longrightarrow> typed ty_alloc (rv_alloc a)"
  unfolding ty_alloc_def typed_struct by (simp add: rv_alloc_def list_all_iff typed_account typed_rules)

lemma typed_env: "0 \<le> er_Difficulty e \<Longrightarrow> typed ty_env (rv_env e)"
  unfolding ty_env_def typed_struct by (simp add: rv_env_def typed_rules)

lemma typed_access_list: "typed ty_access_list (rv_access_list al)"
  unfolding ty_access_list_def rv_access_list_def typed_list typed_struct by (auto simp: typed_rules)

lemma typed_message:
  "0 \<le> mr_GasPrice m \<Longrightarrow> 0 \<le> mr_Value m \<Longrightarrow> mr_GasFeeCap m = Some c \<Longrightarrow> 0 \<le> c \<Longrightarrow>
   mr_GasTipCap m = Some t \<Longrightarrow> 0 \<le> t \<Longrightarrow> typed ty_message (rv_message m)"
  unfolding ty_message_def typed_struct
  by (simp add: rv_message_def message_types_def typed_access_list typed_rules)

lemma typed_log: "typed ty_log (rv_log l)"
  unfolding ty_log_def typed_struct by (simp add: rv_log_def typed_rules)

lemma typed_result: "length (sr_Bloom r) = 256 \<Longrightarrow> typed ty_result (rv_result r)"
  unfolding ty_result_def typed_struct by (simp add: rv_result_def typed_log typed_rules)

lemma typed_substate: "storable_rlp r \<Longrightarrow> typed (ty_substate ty_env ty_message) (rv_substate r)"
  unfolding ty_substate_def typed_struct
  by (auto simp: rv_substate_def storable_rlp_def typed_alloc typed_env typed_message typed_result typed_rules)

lemma strict_substate: "strict_type (ty_substate ty_env ty_message)"
  by (simp add: ty_substate_def ty_alloc_def ty_account_def ty_env_def ty_message_def message_types_def ty_access_list_def
      ty_result_def ty_log_def)

section \<open>Back from the stored form\<close>

lemma fill_map_lookup: "fmlookup (fill_map ps) k = map_of (rev ps) k"
proof (induction ps rule: rev_induct)
  case (snoc p ps)
  then show ?case by (cases p) (simp add: fill_map_def)
qed (simp add: fill_map_def)

lemma fill_map_restrict:
  assumes "set ks = fset (fmdom m)"
  shows "fill_map (map (\<lambda>k. (k, the (fmlookup m k))) ks) = m"
proof (rule fmap_ext)
  fix k
  have "map_of (rev (map (\<lambda>k. (k, the (fmlookup m k))) ks)) k = (if k \<in> set ks then Some (the (fmlookup m k)) else None)"
    by (simp add: rev_map map_of_map_restrict)
  then show "fmlookup (fill_map (map (\<lambda>k. (k, the (fmlookup m k))) ks)) k = fmlookup m k"
    using assms by (auto simp: fill_map_lookup fmlookup_dom_iff)
qed

lemma fill_map_pairs [simp]: "fill_map (map_pairs m) = m"
  unfolding map_pairs_def by (rule fill_map_restrict) simp

lemma Account_back:
  "getCode (K (sa_Code a)) = Some (sa_Code a) \<Longrightarrow> Account_SetRLP getCode (NewSubstateAccountRLP K a) = Some a"
  by (simp add: Account_SetRLP_def NewSubstateAccountRLP_def)

lemma set_accounts_back:
  "(\<And>a. a \<in> set addrs \<Longrightarrow> getCode (K (sa_Code (the (fmlookup alloc a)))) = Some (sa_Code (the (fmlookup alloc a)))) \<Longrightarrow>
   set_accounts getCode addrs (map (\<lambda>a. NewSubstateAccountRLP K (the (fmlookup alloc a))) addrs) m =
     Some (foldl (\<lambda>m (k, v). fmupd k v m) m (map (\<lambda>k. (k, the (fmlookup alloc k))) addrs))"
  by (induction addrs arbitrary: m) (simp_all add: Account_back)

definition alloc_codes :: "substate_alloc \<Rightarrow> bytes set" where
  "alloc_codes alloc = {sa_Code a | k a. fmlookup alloc k = Some a}"

lemma Alloc_back:
  assumes "\<And>c. c \<in> alloc_codes alloc \<Longrightarrow> getCode (K c) = Some c"
  shows "Alloc_SetRLP getCode (NewSubstateAllocRLP K alloc) = Some alloc"
proof -
  have "getCode (K (sa_Code (the (fmlookup alloc a)))) = Some (sa_Code (the (fmlookup alloc a)))"
    if "a \<in> fset (fmdom alloc)" for a
    using that assms by (fastforce simp: alloc_codes_def fmlookup_dom_iff)
  from set_accounts_back [of "sorted_list_of_fset (fmdom alloc)" getCode K alloc fmempty] this
  show ?thesis
    using fill_map_pairs [of alloc]
    by (simp add: Alloc_SetRLP_def NewSubstateAllocRLP_def Let_def fill_map_def map_pairs_def)
qed

lemma uint_word_of_int_256: "0 \<le> b \<Longrightarrow> b < 2 ^ 256 \<Longrightarrow> uint (word_of_int b :: hash) = b"
  by (simp add: unsigned_of_int take_bit_int_eq_self)

lemma Env_back:
  assumes "set order = fset (fmdom (se_BlockHashes env))" "\<And>b. se_BaseFee env = Some b \<Longrightarrow> 0 \<le> b \<and> b < 2 ^ 256"
  shows "Env_SetRLP (NewSubstateEnvRLP order env) = env"
proof -
  have "ucast (BigToHash (uint n)) = n" for n :: u64
  proof -
    have "BigToHash (uint n) = ucast n" by (simp add: BigToHash_def)
    moreover have "ucast (ucast n :: hash) = n" by (rule bit_eqI) (auto simp: bit_simps dest: bit_imp_le_length)
    ultimately show ?thesis by simp
  qed
  then have "fill_map (map (\<lambda>(n, h). (ucast n, h)) (map (\<lambda>n. (BigToHash (uint n), the (fmlookup (se_BlockHashes env) n))) order)) =
      se_BlockHashes env"
    using fill_map_restrict [OF assms(1)] by (simp add: comp_def)
  moreover have "map_option uint (map_option BigToHash (se_BaseFee env)) = se_BaseFee env"
    using assms(2) by (cases "se_BaseFee env") (auto simp: BigToHash_def uint_word_of_int_256)
  ultimately show ?thesis
    by (simp add: Env_SetRLP_def NewSubstateEnvRLP_def del: map_map)
qed

lemma Message_back:
  assumes "sm_To m = None \<Longrightarrow> getCode (K (sm_Data m)) = Some (sm_Data m)"
    and "sm_dataHash m = None \<or> sm_dataHash m = Some (K (sm_Data m))"
  shows "Message_SetRLP getCode (fst (NewSubstateMessageRLP K m)) = Some (m\<lparr>sm_dataHash := None\<rparr>)"
proof (cases "sm_To m")
  case None
  then have "fst (DataHash K m) = K (sm_Data m)" using assms(2) by (auto simp: DataHash_def Let_def)
  with None assms(1) show ?thesis
    by (simp add: Message_SetRLP_def NewSubstateMessageRLP_def Let_def case_prod_beta)
qed (simp add: Message_SetRLP_def NewSubstateMessageRLP_def)

definition storable :: "substate \<Rightarrow> bool" where
  "storable s \<longleftrightarrow>
     (\<forall>a \<in> fmran' (ss_InputAlloc s) \<union> fmran' (ss_OutputAlloc s). 0 \<le> sa_Balance a) \<and>
     0 \<le> se_Difficulty (ss_Env s) \<and> (\<forall>b. se_BaseFee (ss_Env s) = Some b \<longrightarrow> 0 \<le> b \<and> b < 2 ^ 256) \<and>
     0 \<le> sm_GasPrice (ss_Message s) \<and> 0 \<le> sm_Value (ss_Message s) \<and>
     (\<exists>c t. sm_GasFeeCap (ss_Message s) = Some c \<and> 0 \<le> c \<and> sm_GasTipCap (ss_Message s) = Some t \<and> 0 \<le> t) \<and>
     length (sr_Bloom (ss_Result s)) = 256"

definition substate_codes :: "substate \<Rightarrow> bytes set" where
  "substate_codes s = alloc_codes (ss_InputAlloc s) \<union> alloc_codes (ss_OutputAlloc s) \<union>
     (if sm_To (ss_Message s) = None then {sm_Data (ss_Message s)} else {})"

lemma storable_alloc:
  assumes "\<forall>a \<in> fmran' alloc. 0 \<le> sa_Balance a"
  shows "list_all storable_account (al_Accounts (NewSubstateAllocRLP K alloc))"
proof -
  have "0 \<le> sa_Balance a" if "fmlookup alloc x = Some a" for x a
    using assms fmran'I [OF that] by blast
  then show ?thesis
    by (auto simp: NewSubstateAllocRLP_def list_all_iff storable_account_def NewSubstateAccountRLP_def Let_def
        fmlookup_dom_iff)
qed

lemma NewMessageRLP_fields:
  "mr_GasPrice (fst (NewSubstateMessageRLP K m)) = sm_GasPrice m" "mr_Value (fst (NewSubstateMessageRLP K m)) = sm_Value m"
  "mr_GasFeeCap (fst (NewSubstateMessageRLP K m)) = sm_GasFeeCap m"
  "mr_GasTipCap (fst (NewSubstateMessageRLP K m)) = sm_GasTipCap m"
  by (simp_all add: NewSubstateMessageRLP_def Let_def case_prod_beta)

lemma storable_NewSubstateRLP: "storable s \<Longrightarrow> storable_rlp (fst (NewSubstateRLP K order s))"
  using storable_alloc [of "ss_InputAlloc s" K] storable_alloc [of "ss_OutputAlloc s" K]
  by (auto simp: storable_def storable_rlp_def NewSubstateRLP_def Let_def case_prod_beta NewMessageRLP_fields
      NewSubstateEnvRLP_def NewSubstateResultRLP_def)

lemma Substate_back:
  assumes s: "storable s" and order: "set order = fset (fmdom (se_BlockHashes (ss_Env s)))"
    and h: "sm_dataHash (ss_Message s) = None \<or> sm_dataHash (ss_Message s) = Some (K (sm_Data (ss_Message s)))"
    and codes: "\<And>c. c \<in> substate_codes s \<Longrightarrow> getCode (K c) = Some c"
  shows "Substate_SetRLP getCode (un_substate un_env un_message (rv_substate (fst (NewSubstateRLP K order s)))) =
    Some (stored_form s)"
proof -
  have "Alloc_SetRLP getCode (NewSubstateAllocRLP K (ss_InputAlloc s)) = Some (ss_InputAlloc s)"
    "Alloc_SetRLP getCode (NewSubstateAllocRLP K (ss_OutputAlloc s)) = Some (ss_OutputAlloc s)"
    using codes by (auto intro!: Alloc_back simp: substate_codes_def)
  moreover have "Message_SetRLP getCode (fst (NewSubstateMessageRLP K (ss_Message s))) =
      Some ((ss_Message s)\<lparr>sm_dataHash := None\<rparr>)"
    using codes h by (intro Message_back) (auto simp: substate_codes_def)
  moreover have "Env_SetRLP (NewSubstateEnvRLP order (ss_Env s)) = ss_Env s"
    using s order by (intro Env_back) (auto simp: storable_def)
  ultimately show ?thesis
    by (simp add: un_substate_rv Substate_SetRLP_def NewSubstateRLP_def Let_def case_prod_beta stored_form_def
        Result_SetRLP_def NewSubstateResultRLP_def)
qed

lemma decode_stored_back:
  assumes "storable_rlp r" "length (rlp_enc (rv_substate r)) < 2 ^ 64"
  shows "\<exists>v. EncodeToBytes (rv_substate r) = Some (Inr v) \<and>
    decode_stored v = Some (un_substate un_env un_message (rv_substate r))"
proof -
  note t = typed_substate [OF assms(1)]
  have "EncodeToBytes (rv_substate r) = Some (Inr (rlp_enc (rv_substate r)))"
    using EncodeToBytes_enc [OF typed_encodable(1) [OF strict_substate t] assms(2)] .
  moreover have "DecodeBytes (ty_substate ty_env ty_message) (rlp_enc (rv_substate r)) = Inr (rv_substate r)"
    using DecodeBytes_enc(1) [OF strict_substate assms(2)] t by simp
  ultimately show ?thesis by (simp add: decode_stored_def)
qed

section \<open>Keys\<close>

lemma key_prefixes: "Stage1SubstateKey block tx \<noteq> Stage1CodeKey h"
  by (simp add: Stage1SubstateKey_def Stage1CodeKey_def stage1SubstatePrefix_def stage1CodePrefix_def)

lemma to_be_32_be_word: "length c = 32 \<Longrightarrow> to_be 32 (be_word c :: hash) = c"
  using to_be_be_word [of c, where 'a = 256] by simp

lemma Stage1CodeKey_inj [simp]: "Stage1CodeKey g = Stage1CodeKey h \<longleftrightarrow> g = h"
proof
  assume "Stage1CodeKey g = Stage1CodeKey h"
  then have "(be_word (to_be 32 g) :: hash) = be_word (to_be 32 h)" by (simp add: Stage1CodeKey_def)
  then show "g = h" by simp
qed simp

lemma to_be_8_be_word: "length c = 8 \<Longrightarrow> to_be 8 (be_word c :: u64) = c"
  using to_be_be_word [of c, where 'a = 64] by simp

lemma sint_word_64: "- (2 ^ 63) \<le> tx \<Longrightarrow> tx < 2 ^ 63 \<Longrightarrow> sint (word_of_int tx :: u64) = tx"
  by (simp add: signed_of_int signed_take_bit_int_eq_self)

lemma sint_range_64: "- (2 ^ 63) \<le> sint (w :: u64) \<and> sint w < 2 ^ 63"
  using sint_range_size [of w] by (simp add: word_size)

lemma split_key: "length key = 18 \<Longrightarrow> key = take 2 key @ take 8 (drop 2 key) @ take 8 (drop 10 key)"
  using append_take_drop_id [of 2 key] append_take_drop_id [of 8 "drop 2 key"] by simp

lemma DecodeKey_iff:
  "DecodeStage1SubstateKey key = Inr (block, tx) \<longleftrightarrow>
     key = Stage1SubstateKey block tx \<and> - (2 ^ 63) \<le> tx \<and> tx < 2 ^ 63"
proof
  assume d: "DecodeStage1SubstateKey key = Inr (block, tx)"
  have l: "length stage1SubstatePrefix = 2" by (simp add: stage1SubstatePrefix_def)
  have *: "length key = 18" "take 2 key = stage1SubstatePrefix" "block = be_word (take 8 (drop 2 key))"
    "tx = sint (be_word (take 8 (drop 10 key)) :: u64)"
    using d by (auto simp: DecodeStage1SubstateKey_def l Let_def split: if_splits)
  have "key = stage1SubstatePrefix @ to_be 8 block @ to_be 8 (be_word (take 8 (drop 10 key)) :: u64)"
    using split_key [OF *(1)] *(1) by (simp add: * to_be_8_be_word)
  then have "key = Stage1SubstateKey block tx"
    by (simp add: Stage1SubstateKey_def *(4))
  with *(4) sint_range_64 show "key = Stage1SubstateKey block tx \<and> - (2 ^ 63) \<le> tx \<and> tx < 2 ^ 63" by metis
next
  assume "key = Stage1SubstateKey block tx \<and> - (2 ^ 63) \<le> tx \<and> tx < 2 ^ 63"
  then show "DecodeStage1SubstateKey key = Inr (block, tx)"
    by (simp add: DecodeStage1SubstateKey_def Stage1SubstateKey_def stage1SubstatePrefix_def Let_def sint_word_64)
qed

end
