(* ===== verification/SubstateDB_Props.thy ===== *)
theory SubstateDB_Props
  imports Substate_Props
begin

text \<open>
  Storing and loading over any store that keeps the promises of \<open>key_value_store\<close>: what is put is
  got back, what else is stored stays, and a block's map holds exactly its substates.  The
  properties are these facts for the in-memory database.
\<close>

section \<open>Codes in the contents of a store\<close>

definition put_code :: "(bytes \<Rightarrow> hash) \<Rightarrow> (bytes, bytes) fmap \<Rightarrow> bytes \<Rightarrow> (bytes, bytes) fmap" where
  "put_code K m c = (if c = [] then m else fmupd (Stage1CodeKey (K c)) c m)"

definition holds_code :: "(bytes \<Rightarrow> hash) \<Rightarrow> (bytes, bytes) fmap \<Rightarrow> bytes \<Rightarrow> bool" where
  "holds_code K m c \<longleftrightarrow> c = [] \<or> fmlookup m (Stage1CodeKey (K c)) = Some c"

text \<open>No code in the store has the hash of another code that is going to be put.\<close>

definition no_clash :: "(bytes \<Rightarrow> hash) \<Rightarrow> (bytes, bytes) fmap \<Rightarrow> bytes set \<Rightarrow> bool" where
  "no_clash K m C \<longleftrightarrow> inj_on K (insert [] C) \<and>
     (\<forall>c \<in> C. case fmlookup m (Stage1CodeKey (K c)) of None \<Rightarrow> True | Some c' \<Rightarrow> c' = c)"

definition put_all :: "(bytes \<Rightarrow> hash) \<Rightarrow> (bytes, bytes) fmap \<Rightarrow> bytes list \<Rightarrow> (bytes, bytes) fmap" where
  "put_all K m cs = foldl (put_code K) m cs"

lemma put_all_simps [simp]:
  "put_all K m [] = m" "put_all K m (c # cs) = put_all K (put_code K m c) cs"
  "put_all K m (cs @ ds) = put_all K (put_all K m cs) ds"
  by (simp_all add: put_all_def)

lemma put_code_other: "k \<noteq> Stage1CodeKey (K c) \<Longrightarrow> fmlookup (put_code K m c) k = fmlookup m k"
  by (simp add: put_code_def)

lemma put_all_other: "(\<And>c. c \<in> set cs \<Longrightarrow> k \<noteq> Stage1CodeKey (K c)) \<Longrightarrow> fmlookup (put_all K m cs) k = fmlookup m k"
  by (induction cs arbitrary: m) (simp_all add: put_code_other)

lemma put_all_keeps:
  assumes "inj_on K (insert c (set cs))" "holds_code K m c"
  shows "holds_code K (put_all K m cs) c"
  using assms
proof (induction cs arbitrary: m)
  case (Cons d ds)
  have "holds_code K (put_code K m d) c"
    using Cons.prems by (auto simp: holds_code_def put_code_def inj_on_def)
  moreover have "inj_on K (insert c (set ds))" using Cons.prems(1) by (rule inj_on_subset) auto
  ultimately show ?case using Cons.IH by simp
qed simp

lemma put_all_holds:
  "inj_on K (set cs) \<Longrightarrow> c \<in> set cs \<Longrightarrow> holds_code K (put_all K m cs) c"
proof (induction cs arbitrary: m)
  case (Cons d ds)
  show ?case
  proof (cases "c = d")
    case True
    have "holds_code K (put_code K m d) d" by (simp add: holds_code_def put_code_def)
    with Cons.prems(1) True show ?thesis by (simp add: put_all_keeps)
  next
    case False
    with Cons show ?thesis by simp
  qed
qed simp

lemma put_all_at:
  assumes "no_clash K m (set cs)" "fmlookup m (Stage1CodeKey h) = Some c"
  shows "fmlookup (put_all K m cs) (Stage1CodeKey h) = Some c"
proof (cases "\<exists>d \<in> set cs. h = K d")
  case True
  then obtain d where d: "d \<in> set cs" "h = K d" by blast
  with assms have "d = c" by (auto simp: no_clash_def split: option.splits)
  have "inj_on K (set cs)" using assms(1) by (auto simp: no_clash_def)
  from put_all_holds [OF this d(1)] have h: "holds_code K (put_all K m cs) c" unfolding \<open>d = c\<close> .
  show ?thesis
  proof (cases "c = []")
    case False with h d(2) \<open>d = c\<close> show ?thesis by (simp add: holds_code_def)
  next
    case True
    have "h \<noteq> K e" if "e \<in> set cs" "e \<noteq> []" for e
      using that d \<open>d = c\<close> True \<open>inj_on K (set cs)\<close> by (auto simp: inj_on_def)
    then have "fmlookup (put_all K m cs) (Stage1CodeKey h) = fmlookup m (Stage1CodeKey h)"
      by (induction cs arbitrary: m) (auto simp: put_code_def)
    with assms(2) show ?thesis by simp
  qed
next
  case False
  then show ?thesis using assms(2) by (subst put_all_other) auto
qed

lemma key_differs [simp]: "Stage1CodeKey h \<noteq> Stage1SubstateKey block tx" "Stage1SubstateKey block tx \<noteq> Stage1CodeKey h"
  using key_prefixes by metis+

lemma put_all_substate [simp]:
  "fmlookup (put_all K m cs) (Stage1SubstateKey block tx) = fmlookup m (Stage1SubstateKey block tx)"
  by (rule put_all_other) (simp add: key_prefixes)

lemma Stage1SubstateKey_inj:
  assumes "- (2 ^ 63) \<le> tx" "tx < 2 ^ 63" "- (2 ^ 63) \<le> tx'" "tx' < 2 ^ 63"
  shows "Stage1SubstateKey block tx = Stage1SubstateKey block' tx' \<longleftrightarrow> block = block' \<and> tx = tx'"
  using DecodeKey_iff [of "Stage1SubstateKey block tx" block tx] DecodeKey_iff [of "Stage1SubstateKey block tx" block' tx']
    assms by auto

section \<open>More code available\<close>

lemma Alloc_SetRLP_mono:
  assumes g: "\<And>h c. g h = Some c \<Longrightarrow> g' h = Some c"
  shows "set_accounts g addrs rs m = Some alloc \<Longrightarrow> set_accounts g' addrs rs m = Some alloc"
proof (induction addrs arbitrary: rs m)
  case (Cons addr addrs)
  then show ?case
    by (cases rs) (auto simp: Account_SetRLP_def split: Option.bind_splits dest!: g)
qed simp

lemma Substate_SetRLP_mono:
  assumes g: "\<And>h c. g h = Some c \<Longrightarrow> g' h = Some c" and "Substate_SetRLP g r = Some s"
  shows "Substate_SetRLP g' r = Some s"
proof -
  from assms(2) obtain ia oa m where *: "Alloc_SetRLP g (st_InputAlloc r) = Some ia"
    "Alloc_SetRLP g (st_OutputAlloc r) = Some oa" "Message_SetRLP g (st_Message r) = Some m"
    by (auto simp: Substate_SetRLP_def split: Option.bind_splits)
  then have "Alloc_SetRLP g' (st_InputAlloc r) = Some ia" "Alloc_SetRLP g' (st_OutputAlloc r) = Some oa"
    using Alloc_SetRLP_mono [OF g] by (auto simp: Alloc_SetRLP_def)
  moreover have "Message_SetRLP g' (st_Message r) = Some m"
    using *(3) g by (auto simp: Message_SetRLP_def split: Option.bind_splits if_splits)
  ultimately show ?thesis using assms(2) * by (simp add: Substate_SetRLP_def)
qed

section \<open>Over any store\<close>

definition codes_of_alloc :: "address list \<Rightarrow> substate_alloc \<Rightarrow> bytes list" where
  "codes_of_alloc addrs alloc = map (\<lambda>a. sa_Code (the (fmlookup alloc a))) addrs"

definition codes_put :: "map_orders \<Rightarrow> substate \<Rightarrow> bytes list" where
  "codes_put ord s = codes_of_alloc (mo_Input ord) (ss_InputAlloc s) @ codes_of_alloc (mo_Output ord) (ss_OutputAlloc s) @
     (if sm_To (ss_Message s) = None then [sm_Data (ss_Message s)] else [])"

text \<open>The orders visit the maps of the substate.\<close>

definition visits :: "map_orders \<Rightarrow> substate \<Rightarrow> bool" where
  "visits ord s \<longleftrightarrow> set (mo_Input ord) = fset (fmdom (ss_InputAlloc s)) \<and>
     set (mo_Output ord) = fset (fmdom (ss_OutputAlloc s)) \<and>
     set (mo_Hashes ord) = fset (fmdom (se_BlockHashes (ss_Env s)))"

definition put_encoding :: "(bytes \<Rightarrow> hash) \<Rightarrow> map_orders \<Rightarrow> substate \<Rightarrow> bytes" where
  "put_encoding K ord s = rlp_enc (rv_substate (fst (NewSubstateRLP K (mo_Hashes ord) s)))"

text \<open>What can be stored: the data hash, when it is already there, is that of the data.\<close>

definition can_put :: "(bytes \<Rightarrow> hash) \<Rightarrow> map_orders \<Rightarrow> substate \<Rightarrow> bool" where
  "can_put K ord s \<longleftrightarrow> storable s \<and> visits ord s \<and> length (put_encoding K ord s) < 2 ^ 64 \<and>
     (sm_dataHash (ss_Message s) = None \<or> sm_dataHash (ss_Message s) = Some (K (sm_Data (ss_Message s))))"

lemma set_codes_put: "visits ord s \<Longrightarrow> set (codes_put ord s) = substate_codes s"
proof -
  have "sa_Code ` (\<lambda>a. the (fmlookup m a)) ` fset (fmdom m) = alloc_codes m" for m
    by (force simp: alloc_codes_def fmlookup_dom_iff)
  then show "visits ord s \<Longrightarrow> ?thesis"
    by (auto simp: visits_def codes_put_def codes_of_alloc_def substate_codes_def image_image)
qed

lemma prefix_le: "pr \<le> (pr @ xs :: 'a::linorder list)"
  by (induction pr) auto

lemma block_prefix: "Stage1SubstateKey block tx = Stage1SubstateBlockPrefix block @ to_be 8 (word_of_int tx :: u64)"
  by (simp add: Stage1SubstateKey_def Stage1SubstateBlockPrefix_def)

lemma NewSubstateRLP_keeps: "stored_form (snd (NewSubstateRLP K order s)) = stored_form s"
  by (simp add: NewSubstateRLP_def NewSubstateMessageRLP_def DataHash_def Let_def case_prod_beta stored_form_def
      split: option.split)

context key_value_store
begin

lemma GetCode_db_iff:
  "usable d \<Longrightarrow> GetCode_db B K d h = (if h = K [] then Some [] else fmlookup (contents d) (Stage1CodeKey h))"
  by (simp add: GetCode_db_def Empty_CodeHash_def get_store split: option.split)

lemma PutCode_store:
  assumes "usable d"
  shows "\<exists>d'. PutCode B K d c = Some d' \<and> usable d' \<and> contents d' = put_code K (contents d) c"
proof (cases "bk_Put B d (Stage1CodeKey (K c)) c")
  case (Pair e d')
  from put_store [OF assms Pair] Pair assms show ?thesis by (auto simp: PutCode_def put_code_def)
qed

lemma put_codes_store:
  assumes "usable d" "set addrs \<subseteq> fset (fmdom alloc)"
  shows "\<exists>d'. put_codes B K addrs alloc d = Some d' \<and> usable d' \<and>
    contents d' = put_all K (contents d) (codes_of_alloc addrs alloc)"
  using assms
proof (induction addrs arbitrary: d)
  case (Cons a addrs)
  from Cons.prems(2) obtain acc where l: "fmlookup alloc a = Some acc" by (auto simp: fmlookup_dom_iff)
  from PutCode_store [OF Cons.prems(1)] obtain d1 where d1: "PutCode B K d (sa_Code acc) = Some d1" "usable d1"
    "contents d1 = put_code K (contents d) (sa_Code acc)" by blast
  from Cons.IH [OF d1(2)] Cons.prems(2) l d1 show ?case by (auto simp: codes_of_alloc_def)
qed (simp add: codes_of_alloc_def)

lemma PutSubstate_store:
  assumes "usable d" "can_put K ord s"
  shows "\<exists>d' s'. PutSubstate B K ord d block tx s = Some (d', s') \<and> usable d' \<and> stored_form s' = stored_form s \<and>
    contents d' = fmupd (Stage1SubstateKey block tx) (put_encoding K ord s) (put_all K (contents d) (codes_put ord s))"
proof -
  have v: "visits ord s" "storable s" "length (put_encoding K ord s) < 2 ^ 64" using assms(2) by (auto simp: can_put_def)
  from put_codes_store [OF assms(1), of "mo_Input ord" "ss_InputAlloc s" K] v obtain d1 where
    d1: "put_codes B K (mo_Input ord) (ss_InputAlloc s) d = Some d1" "usable d1"
      "contents d1 = put_all K (contents d) (codes_of_alloc (mo_Input ord) (ss_InputAlloc s))"
    by (auto simp: visits_def)
  from put_codes_store [OF d1(2), of "mo_Output ord" "ss_OutputAlloc s" K] v obtain d2 where
    d2: "put_codes B K (mo_Output ord) (ss_OutputAlloc s) d1 = Some d2" "usable d2"
      "contents d2 = put_all K (contents d1) (codes_of_alloc (mo_Output ord) (ss_OutputAlloc s))"
    by (auto simp: visits_def)
  obtain d3 where d3: "(if sm_To (ss_Message s) = None then PutCode B K d2 (sm_Data (ss_Message s)) else Some d2) = Some d3"
    "usable d3" "contents d3 = put_all K (contents d) (codes_put ord s)"
    using PutCode_store [OF d2(2), of K "sm_Data (ss_Message s)"] d1(3) d2(2,3)
    by (cases "sm_To (ss_Message s)") (auto simp: codes_put_def)
  obtain r s' where r: "NewSubstateRLP K (mo_Hashes ord) s = (r, s')" by force
  have e: "EncodeToBytes (rv_substate r) = Some (Inr (put_encoding K ord s))"
    using EncodeToBytes_enc [OF typed_encodable(1) [OF strict_substate typed_substate [OF storable_NewSubstateRLP [OF v(2)]]]]
      v(3) r by (metis put_encoding_def fst_conv)
  obtain err d4 where p: "bk_Put B d3 (Stage1SubstateKey block tx) (put_encoding K ord s) = (err, d4)" by force
  from put_store [OF d3(2) p] have d4: "err = None" "usable d4"
    "contents d4 = fmupd (Stage1SubstateKey block tx) (put_encoding K ord s) (contents d3)" by auto
  have "PutSubstate B K ord d block tx s = Some (d4, s')"
    using d1(1) d2(1) d3(1) r e p d4(1) by (simp add: PutSubstate_def)
  moreover have "stored_form s' = stored_form s" using NewSubstateRLP_keeps [of K "mo_Hashes ord" s] r by simp
  ultimately show ?thesis using d4 d3(3) by auto
qed

lemma get_after_put:
  assumes "usable d" "can_put K ord s" "inj_on K (insert [] (substate_codes s))"
    "PutSubstate B K ord d block tx s = Some (d', s')"
  shows "GetSubstate B K d' block tx = Some (stored_form s)"
proof -
  from PutSubstate_store [OF assms(1,2), of block tx] assms(4) have d': "usable d'"
    "contents d' = fmupd (Stage1SubstateKey block tx) (put_encoding K ord s) (put_all K (contents d) (codes_put ord s))"
    by auto
  have v: "visits ord s" "storable s" "length (put_encoding K ord s) < 2 ^ 64" using assms(2) by (auto simp: can_put_def)
  have codes: "GetCode_db B K d' (K c) = Some c" if "c \<in> substate_codes s" for c
  proof -
    have "holds_code K (put_all K (contents d) (codes_put ord s)) c"
      using that assms(3) set_codes_put [OF v(1)] by (intro put_all_holds) (auto intro: inj_on_subset)
    then show ?thesis using that assms(3)
      by (auto simp: GetCode_db_iff [OF d'(1)] d'(2) holds_code_def inj_on_def)
  qed
  have "decode_stored (put_encoding K ord s) =
      Some (un_substate un_env un_message (rv_substate (fst (NewSubstateRLP K (mo_Hashes ord) s))))"
    using decode_stored_back [OF storable_NewSubstateRLP [OF v(2)] v(3) [unfolded put_encoding_def]]
      EncodeToBytes_enc [OF typed_encodable(1) [OF strict_substate typed_substate [OF storable_NewSubstateRLP [OF v(2)]]]]
      v(3) by (auto simp: put_encoding_def)
  moreover have "Substate_SetRLP (GetCode_db B K d')
      (un_substate un_env un_message (rv_substate (fst (NewSubstateRLP K (mo_Hashes ord) s)))) = Some (stored_form s)"
    using assms(2) v(1) codes by (intro Substate_back v(2)) (auto simp: can_put_def visits_def)
  ultimately show ?thesis
    by (simp add: GetSubstate_def get_store [OF d'(1)] d'(2) read_substate_def)
qed

lemma GetSubstate_iff:
  "usable d \<Longrightarrow> GetSubstate B K d block tx =
     (case fmlookup (contents d) (Stage1SubstateKey block tx) of None \<Rightarrow> None | Some v \<Rightarrow> read_substate B K d v)"
  by (simp add: GetSubstate_def get_store split: option.split)

lemma put_keeps_others:
  assumes "usable d" "can_put K ord s" "no_clash K (contents d) (substate_codes s)"
    "PutSubstate B K ord d block tx s = Some (d', s')"
    "Stage1SubstateKey b t \<noteq> Stage1SubstateKey block tx" "GetSubstate B K d b t = Some x"
  shows "GetSubstate B K d' b t = Some x"
proof -
  from PutSubstate_store [OF assms(1,2), of block tx] assms(4) have d': "usable d'"
    "contents d' = fmupd (Stage1SubstateKey block tx) (put_encoding K ord s) (put_all K (contents d) (codes_put ord s))"
    by auto
  have v: "visits ord s" using assms(2) by (auto simp: can_put_def)
  have mono: "GetCode_db B K d h = Some c \<Longrightarrow> GetCode_db B K d' h = Some c" for h c
    using put_all_at [of K "contents d" "codes_put ord s" h c] assms(3) set_codes_put [OF v]
    by (auto simp: GetCode_db_iff assms(1) d' split: if_splits)
  from assms(6) show ?thesis
    using assms(5) Substate_SetRLP_mono [where g = "GetCode_db B K d" and g' = "GetCode_db B K d'"] mono
    by (auto simp: GetSubstate_iff assms(1) d' read_substate_def split: option.splits Option.bind_splits)
qed

lemma block_substates_lookup:
  assumes "block_substates B K d block kvs m = Some m'" "distinct (map fst kvs)" "- (2 ^ 63) \<le> tx" "tx < 2 ^ 63"
  shows "fmlookup m' tx =
    (case map_of kvs (Stage1SubstateKey block tx) of None \<Rightarrow> fmlookup m tx | Some v \<Rightarrow> read_substate B K d v)"
  using assms(1,2)
proof (induction kvs arbitrary: m)
  case (Cons kv kvs)
  obtain key v where kv: "kv = (key, v)" by force
  with Cons.prems(1) obtain t s where t: "DecodeStage1SubstateKey key = Inr (block, t)" "read_substate B K d v = Some s"
    "block_substates B K d block kvs (fmupd t s m) = Some m'"
    by (auto split: sum.splits prod.splits if_splits Option.bind_splits)
  then have key: "key = Stage1SubstateKey block t" "- (2 ^ 63) \<le> t" "t < 2 ^ 63" by (simp_all add: DecodeKey_iff)
  have "map_of kvs key = None" using Cons.prems(2) kv by (simp add: map_of_eq_None_iff)
  moreover have "key = Stage1SubstateKey block tx \<longleftrightarrow> t = tx"
    unfolding key(1) using Stage1SubstateKey_inj [OF key(2,3) assms(3,4)] by simp
  ultimately show ?case
    using Cons.IH [OF t(3)] Cons.prems(2) kv t(2) by (auto split: option.split)
qed simp

lemma GetBlock_lookup:
  assumes u: "usable d" and g: "GetBlockSubstates B K d block = Some m" and tx: "- (2 ^ 63) \<le> tx" "tx < 2 ^ 63"
  shows "fmlookup m tx = (if HasSubstate B d block tx then GetSubstate B K d block tx else None)"
proof -
  let ?keys = "ffilter (\<lambda>k. has_prefix k (Stage1SubstateBlockPrefix block) \<and> Stage1SubstateBlockPrefix block @ [] \<le> k)
    (fmdom (contents d))"
  let ?kvs = "map (\<lambda>k. (k, the (fmlookup (contents d) k))) (sorted_list_of_fset ?keys)"
  have b: "block_substates B K d block ?kvs fmempty = Some m"
    using g by (auto simp: GetBlockSubstates_def iterate_store [OF u] simp del: append_Nil2 split: Option.bind_splits)
  have "map_of ?kvs (Stage1SubstateKey block tx) = fmlookup (contents d) (Stage1SubstateKey block tx)"
    by (auto simp: map_of_map_restrict restrict_map_def block_prefix has_prefix_def prefix_le fmlookup_dom_iff)
  moreover have "distinct (map fst ?kvs)" by (simp add: comp_def sorted_list_of_fset.rep_eq)
  ultimately show ?thesis
    using block_substates_lookup [OF b _ tx]
    by (simp add: GetSubstate_iff [OF u] HasSubstate_def has_store [OF u] split: option.split)
qed

end

section \<open>The in-memory database\<close>

text \<open>C30: a substate put into the database is got back: under its key \<open>GetSubstate\<close> finds exactly
  what is stored of it, codes and init code included, in whatever order the maps were visited, and
  \<open>Equal\<close> holds it equal to the one that was put.  The hash of the codes must not collide.\<close>

theorem GetSubstate_PutSubstate:
  assumes "can_put K ord s" "inj_on K (insert [] (substate_codes s))"
  shows "\<exists>m' s'. PutSubstate memorydb K ord (Some m) block tx s = Some (Some m', s') \<and>
    GetSubstate memorydb K (Some m') block tx = Some (stored_form s) \<and>
    Substate_Equal s (stored_form s) = Some True"
proof -
  from memory.PutSubstate_store [OF _ assms(1), of "Some m" block tx] obtain m' s' where
    p: "PutSubstate memorydb K ord (Some m) block tx s = Some (Some m', s')" by auto
  moreover have "GetSubstate memorydb K (Some m') block tx = Some (stored_form s)"
    by (rule memory.get_after_put [OF _ assms p]) simp
  ultimately show ?thesis by (simp add: Substate_Equal_stored stored_form_idem)
qed

text \<open>C31: putting a substate leaves every other one as it was, as long as no code in the database
  has the hash of a different code that is put.\<close>

theorem PutSubstate_keeps_others:
  assumes "can_put K ord s" "no_clash K m (substate_codes s)"
    "PutSubstate memorydb K ord (Some m) block tx s = Some (d', s')"
    "(b, t) \<noteq> (block, tx)" "- (2 ^ 63) \<le> tx" "tx < 2 ^ 63" "- (2 ^ 63) \<le> t" "t < 2 ^ 63"
    "GetSubstate memorydb K (Some m) b t = Some x"
  shows "GetSubstate memorydb K d' b t = Some x"
proof -
  have "Stage1SubstateKey b t \<noteq> Stage1SubstateKey block tx"
    using assms(4-8) Stage1SubstateKey_inj by blast
  then show ?thesis using memory.put_keeps_others [of "Some m" K ord s] assms(1,2,3,9) by simp
qed

text \<open>C32: the map of a block has exactly the transactions the database has a substate for, each with
  what \<open>GetSubstate\<close> gives for it.\<close>

theorem GetBlockSubstates_lookup:
  assumes "GetBlockSubstates memorydb K (Some c) block = Some m" "- (2 ^ 63) \<le> tx" "tx < 2 ^ 63"
  shows "fmlookup m tx =
    (if HasSubstate memorydb (Some c) block tx then GetSubstate memorydb K (Some c) block tx else None)"
  using memory.GetBlock_lookup [OF _ assms] by simp

text \<open>C33: a key is decoded to a block and a transaction index exactly when it is the key of that
  block and index, the index being a 64-bit signed number.\<close>

theorem DecodeStage1SubstateKey_iff:
  "DecodeStage1SubstateKey key = Inr (block, tx) \<longleftrightarrow>
     key = Stage1SubstateKey block tx \<and> - (2 ^ 63) \<le> tx \<and> tx < 2 ^ 63"
  by (rule DecodeKey_iff)

text \<open>C34: \<open>Equal\<close> answers true exactly for substates that are equal up to the hash kept beside the
  message's data and the position fields of the logs, which are not stored.  It does not answer at all
  but panics exactly when the comparison reaches a base fee, a gas fee cap or a gas tip cap that is nil
  on one side only, everything compared before it being equal; otherwise it answers false.\<close>

theorem Substate_Equal_iff:
  "(Substate_Equal x y = Some True \<longleftrightarrow> stored_form x = stored_form y) \<and>
   (Substate_Equal x y = None \<longleftrightarrow> equal_panics x y)"
  by (intro conjI Substate_Equal_stored Substate_Equal_None)

section \<open>Witnesses\<close>

definition ex_account :: substate_account where
  "ex_account = \<lparr>sa_Nonce = 1, sa_Balance = 300, sa_Storage = fmupd 1 2 fmempty, sa_Code = [0x60, 0]\<rparr>"

definition ex_substate :: substate where
  "ex_substate =
     \<lparr>ss_InputAlloc = fmupd 7 ex_account fmempty, ss_OutputAlloc = fmempty,
      ss_Env = \<lparr>se_Coinbase = 1, se_Difficulty = 5, se_GasLimit = 8000000, se_Number = 12, se_Timestamp = 99,
        se_BlockHashes = fmupd 11 3 fmempty, se_BaseFee = Some 7\<rparr>,
      ss_Message = \<lparr>sm_Nonce = 1, sm_CheckNonce = True, sm_GasPrice = 9, sm_Gas = 21000, sm_From = 7, sm_To = None,
        sm_Value = 4, sm_Data = [1, 2, 3], sm_dataHash = None, sm_AccessList = [(2, [3])],
        sm_GasFeeCap = Some 9, sm_GasTipCap = Some 1\<rparr>,
      ss_Result = \<lparr>sr_Status = 1, sr_Bloom = replicate 256 0, sr_Logs =
        [\<lparr>log_Address = 7, log_Topics = [5], log_Data = [6], log_BlockNumber = 12, log_TxHash = 8, log_TxIndex = 0,
          log_Index = 0\<rparr>], sr_ContractAddress = 3, sr_GasUsed = 20000\<rparr>\<rparr>"

definition ex_orders :: map_orders where
  "ex_orders = \<lparr>mo_Input = [7], mo_Output = [], mo_Hashes = [11]\<rparr>"

definition ex_hash :: "bytes \<Rightarrow> hash" where
  "ex_hash c = (if c = [] then 0 else if c = [0x60, 0] then 1 else if c = [1, 2, 3] then 2 else 3)"

text \<open>A bound of the length of an encoding that is easy to evaluate.\<close>

fun enc_bound :: "rlp_val \<Rightarrow> nat" where
  "enc_bound (RUint i) = 17"
| "enc_bound (RBool v) = 10"
| "enc_bound (RBigPtr None) = 9"
| "enc_bound (RBigPtr (Some i)) = 9 + nat i"
| "enc_bound (RBytes s) = 9 + length s"
| "enc_bound (RArray s) = 9 + length s"
| "enc_bound (RNilPtr e) = 1"
| "enc_bound (RSlice vs) = 9 + sum_list (map enc_bound vs)"
| "enc_bound (RStruct vs) = 9 + sum_list (map enc_bound vs)"

lemma be_min_bounds: "length (be_min (unat (i :: u64))) \<le> 8" "length (be_min n) \<le> n"
proof -
  have "(2 :: nat) ^ n \<le> 256 ^ n" by (rule power_mono) simp_all
  then have "n < 256 ^ n" by (rule less_le_trans [OF less_exp])
  then show "length (be_min n) \<le> n" by (simp add: length_be_min)
  show "length (be_min (unat i)) \<le> 8" using unsigned_less [of i, where 'a = nat] by (simp add: length_be_min)
qed

lemma enc_le_bound: "length (rlp_enc v) \<le> enc_bound v"
proof (induction v rule: enc_bound.induct)
  case (1 i)
  show ?case using length_str_enc_le [of "be_min (unat i)"] be_min_bounds(1) [of i] by simp
next
  case (4 i)
  show ?case using length_str_enc_le [of "be_min (nat i)"] be_min_bounds(2) [of "nat i"] by simp
next
  case (8 vs)
  then have "length (concat (map rlp_enc vs)) \<le> sum_list (map enc_bound vs)"
    by (simp add: length_concat comp_def sum_list_mono)
  with length_frame_le [of KList "concat (map rlp_enc vs)"] show ?case by simp
next
  case (9 vs)
  then have "length (concat (map rlp_enc vs)) \<le> sum_list (map enc_bound vs)"
    by (simp add: length_concat comp_def sum_list_mono)
  with length_frame_le [of KList "concat (map rlp_enc vs)"] show ?case by simp
next
  case (2 v)
  show ?case using length_str_enc_le [of "if v then [1] else []"] by (cases v) simp_all
next
  case 3
  show ?case using length_str_enc_le [of "[]"] by simp
qed (simp_all add: length_str_enc_le)

lemma ex_codes: "substate_codes ex_substate = {[0x60, 0], [1, 2, 3]}"
  by (auto simp: substate_codes_def alloc_codes_def ex_substate_def ex_account_def)

lemma ex_can_put: "can_put ex_hash ex_orders ex_substate"
proof -
  have "storable ex_substate"
    by (auto simp: storable_def ex_substate_def ex_account_def fmran'_def)
  moreover have "visits ex_orders ex_substate"
    by (simp add: visits_def ex_orders_def ex_substate_def)
  moreover have "length (put_encoding ex_hash ex_orders ex_substate) < 2 ^ 64"
    unfolding put_encoding_def
    by (rule le_less_trans [OF enc_le_bound])
      (simp add: rv_substate_def NewSubstateRLP_def NewSubstateMessageRLP_def NewSubstateAllocRLP_def
        NewSubstateAccountRLP_def NewSubstateEnvRLP_def NewSubstateResultRLP_def DataHash_def Let_def case_prod_beta
        ex_substate_def ex_account_def ex_orders_def map_pairs_def rv_alloc_def rv_account_def rv_env_def
        rv_message_def rv_result_def rv_log_def rv_pairs_def rv_ptr_def rv_hash_def rv_address_def
        rv_access_list_def sorted_list_of_fset.rep_eq)
  ultimately show ?thesis by (simp add: can_put_def ex_substate_def)
qed

lemma ex_inj: "inj_on ex_hash (insert [] (substate_codes ex_substate))"
  unfolding ex_codes by (auto simp: inj_on_def ex_hash_def)

theorem GetSubstate_PutSubstate_witness:
  "\<exists>m' s'. PutSubstate memorydb ex_hash ex_orders (Some fmempty) 12 0 ex_substate = Some (Some m', s') \<and>
    GetSubstate memorydb ex_hash (Some m') 12 0 = Some (stored_form ex_substate) \<and>
    Substate_Equal ex_substate (stored_form ex_substate) = Some True"
  by (rule GetSubstate_PutSubstate [OF ex_can_put ex_inj])

lemma ex_no_clash:
  assumes "PutSubstate memorydb ex_hash ex_orders (Some fmempty) 12 0 ex_substate = Some (Some m, s')"
  shows "no_clash ex_hash m (substate_codes ex_substate)"
proof -
  have v: "visits ex_orders ex_substate" using ex_can_put by (simp add: can_put_def)
  from memory.PutSubstate_store [OF _ ex_can_put, of "Some fmempty" 12 0] assms have m:
    "m = fmupd (Stage1SubstateKey 12 0) (put_encoding ex_hash ex_orders ex_substate)
      (put_all ex_hash fmempty (codes_put ex_orders ex_substate))" by auto
  have "fmlookup m (Stage1CodeKey (ex_hash c)) = Some c" if "c \<in> substate_codes ex_substate" for c
  proof -
    have "holds_code ex_hash (put_all ex_hash fmempty (codes_put ex_orders ex_substate)) c"
      using ex_inj that set_codes_put [OF v] by (intro put_all_holds) (auto intro: inj_on_subset)
    moreover have "c \<noteq> []" using that by (auto simp: ex_codes)
    ultimately show ?thesis by (simp add: m holds_code_def)
  qed
  then show ?thesis using ex_inj by (simp add: no_clash_def)
qed

theorem PutSubstate_keeps_others_witness:
  "\<exists>m s d' t. PutSubstate memorydb ex_hash ex_orders (Some fmempty) 12 0 ex_substate = Some (Some m, s) \<and>
    PutSubstate memorydb ex_hash ex_orders (Some m) 12 1 ex_substate = Some (d', t) \<and>
    GetSubstate memorydb ex_hash d' 12 0 = Some (stored_form ex_substate)"
proof -
  from memory.PutSubstate_store [OF _ ex_can_put, of "Some fmempty" 12 0] obtain m s where
    1: "PutSubstate memorydb ex_hash ex_orders (Some fmempty) 12 0 ex_substate = Some (Some m, s)" by auto
  have g: "GetSubstate memorydb ex_hash (Some m) 12 0 = Some (stored_form ex_substate)"
    by (rule memory.get_after_put [OF _ ex_can_put ex_inj 1]) simp
  from memory.PutSubstate_store [OF _ ex_can_put, of "Some m" 12 1] obtain d' t where
    2: "PutSubstate memorydb ex_hash ex_orders (Some m) 12 1 ex_substate = Some (d', t)" by auto
  from PutSubstate_keeps_others [OF ex_can_put ex_no_clash [OF 1] 2 _ _ _ _ _ g] 1 2 show ?thesis by auto
qed

text \<open>A call without code, for a database of one entry.\<close>

definition ex_call :: substate where
  "ex_call = ex_substate\<lparr>ss_InputAlloc := fmempty,
     ss_Message := (ss_Message ex_substate)\<lparr>sm_To := Some 4\<rparr>\<rparr>"

definition ex_call_orders :: map_orders where
  "ex_call_orders = ex_orders\<lparr>mo_Input := []\<rparr>"

lemma ex_call_can_put: "can_put ex_hash ex_call_orders ex_call"
proof -
  have "length (put_encoding ex_hash ex_call_orders ex_call) < 2 ^ 64"
    unfolding put_encoding_def
    by (rule le_less_trans [OF enc_le_bound])
      (simp add: rv_substate_def NewSubstateRLP_def NewSubstateMessageRLP_def NewSubstateAllocRLP_def
        NewSubstateEnvRLP_def NewSubstateResultRLP_def Let_def case_prod_beta ex_call_def ex_call_orders_def
        ex_substate_def ex_orders_def rv_alloc_def rv_env_def rv_message_def rv_result_def rv_log_def
        rv_pairs_def rv_ptr_def rv_hash_def rv_address_def rv_access_list_def sorted_list_of_fset.rep_eq)
  then show ?thesis
    by (auto simp: can_put_def storable_def visits_def ex_call_def ex_call_orders_def ex_orders_def ex_substate_def
        fmran'_def)
qed

lemma ex_block:
  "GetBlockSubstates memorydb ex_hash (Some (fmupd (Stage1SubstateKey 12 0) (put_encoding ex_hash ex_call_orders ex_call) fmempty)) 12 =
     Some (fmupd 0 (stored_form ex_call) fmempty)"
  (is "GetBlockSubstates _ _ (Some ?m) _ = _")
proof -
  from memory.PutSubstate_store [OF _ ex_call_can_put, of "Some fmempty" 12 0] obtain s where
    p: "PutSubstate memorydb ex_hash ex_call_orders (Some fmempty) 12 0 ex_call = Some (Some ?m, s)"
    by (auto simp: codes_put_def codes_of_alloc_def ex_call_orders_def ex_orders_def ex_call_def)
  have "inj_on ex_hash (insert [] (substate_codes ex_call))"
    by (simp add: substate_codes_def alloc_codes_def ex_call_def ex_substate_def)
  from memory.get_after_put [OF _ ex_call_can_put this p] have
    g: "GetSubstate memorydb ex_hash (Some ?m) 12 0 = Some (stored_form ex_call)" by simp
  then have r: "read_substate memorydb ex_hash (Some ?m) (put_encoding ex_hash ex_call_orders ex_call) = Some (stored_form ex_call)"
    by (simp add: memory.GetSubstate_iff)
  have "ffilter (\<lambda>k. has_prefix k (Stage1SubstateBlockPrefix 12) \<and> Stage1SubstateBlockPrefix 12 \<le> k) (fmdom ?m) =
      {|Stage1SubstateKey 12 0|}"
    by (auto simp: block_prefix has_prefix_def prefix_le)
  moreover have "DecodeStage1SubstateKey (Stage1SubstateKey 12 0) = Inr (12, 0)"
    by (simp add: DecodeKey_iff)
  ultimately show ?thesis
    using r by (simp add: GetBlockSubstates_def memory.iterate_store sorted_list_of_fset.rep_eq)
qed

theorem GetBlockSubstates_lookup_witness:
  "\<exists>c m. GetBlockSubstates memorydb ex_hash (Some c) 12 = Some m \<and>
    HasSubstate memorydb (Some c) 12 0 \<and> fmlookup m 0 = GetSubstate memorydb ex_hash (Some c) 12 0"
proof -
  let ?c = "fmupd (Stage1SubstateKey 12 0) (put_encoding ex_hash ex_call_orders ex_call) fmempty"
  have "HasSubstate memorydb (Some ?c) 12 0" by (simp add: HasSubstate_def memory.has_store)
  with GetBlockSubstates_lookup [OF ex_block, of 0] ex_block show ?thesis
    by (intro exI [of _ ?c] exI [of _ "fmupd 0 (stored_form ex_call) fmempty"]) simp
qed

end
