(* ===== verification/SubstateJSON.thy ===== *)
theory SubstateJSON
  imports Substate
begin

text \<open>
  The JSON form of a substate (\<^verbatim>\<open>research/substate_json.go\<close>): the structs that
  \<^verbatim>\<open>encoding/json\<close> writes and reads, and the conversions.  The text codec is the standard
  library's.  A number that must be present is a value; the fees of London, which are omitted when
  they are nil, are options.  \<^term>\<open>None\<close> is a panic: a method of a nil \<open>*big.Int\<close> or of a nil
  struct pointer is called.
\<close>

record account_json =
  ja_Code :: bytes
  ja_Storage :: "(hash, hash) fmap"
  ja_Balance :: int
  ja_Nonce :: u64

definition NewSubstateAccountJSON :: "substate_account \<Rightarrow> account_json" where
  "NewSubstateAccountJSON sa =
     \<lparr>ja_Code = sa_Code sa, ja_Storage = sa_Storage sa, ja_Balance = sa_Balance sa, ja_Nonce = sa_Nonce sa\<rparr>"

definition Account_SetJSON :: "account_json \<Rightarrow> substate_account" where
  "Account_SetJSON j =
     \<lparr>sa_Nonce = ja_Nonce j, sa_Balance = ja_Balance j, sa_Storage = ja_Storage j, sa_Code = ja_Code j\<rparr>"

type_synonym alloc_json = "(address, account_json) fmap"

definition NewSubstateAllocJSON :: "substate_alloc \<Rightarrow> alloc_json" where
  "NewSubstateAllocJSON alloc = fmmap NewSubstateAccountJSON alloc"

definition Alloc_SetJSON :: "alloc_json \<Rightarrow> substate_alloc" where
  "Alloc_SetJSON j = fmmap Account_SetJSON j"

record env_json =
  je_Coinbase :: address
  je_Difficulty :: int
  je_GasLimit :: u64
  je_Number :: u64
  je_Timestamp :: u64
  je_BlockHashes :: "(u64, hash) fmap"
  je_BaseFee :: "int option"

definition NewSubstateEnvJSON :: "substate_env \<Rightarrow> env_json" where
  "NewSubstateEnvJSON e =
     \<lparr>je_Coinbase = se_Coinbase e, je_Difficulty = se_Difficulty e, je_GasLimit = se_GasLimit e,
      je_Number = se_Number e, je_Timestamp = se_Timestamp e, je_BlockHashes = se_BlockHashes e,
      je_BaseFee = se_BaseFee e\<rparr>"

definition Env_SetJSON :: "env_json \<Rightarrow> substate_env option" where
  "Env_SetJSON j = do {
     b \<leftarrow> je_BaseFee j;
     Some \<lparr>se_Coinbase = je_Coinbase j, se_Difficulty = je_Difficulty j, se_GasLimit = je_GasLimit j,
           se_Number = je_Number j, se_Timestamp = je_Timestamp j, se_BlockHashes = je_BlockHashes j,
           se_BaseFee = (if b = 0 then None else Some b)\<rparr> }"

record message_json =
  jm_Nonce :: u64
  jm_CheckNonce :: bool
  jm_GasPrice :: int
  jm_Gas :: u64
  jm_From :: address
  jm_To :: "address option"
  jm_Value :: int
  jm_Data :: bytes
  jm_AccessList :: tx_access_list
  jm_GasFeeCap :: "int option"
  jm_GasTipCap :: "int option"

definition NewSubstateMessageJSON :: "substate_message \<Rightarrow> message_json" where
  "NewSubstateMessageJSON m =
     \<lparr>jm_Nonce = sm_Nonce m, jm_CheckNonce = sm_CheckNonce m, jm_GasPrice = sm_GasPrice m, jm_Gas = sm_Gas m,
      jm_From = sm_From m, jm_To = sm_To m, jm_Value = sm_Value m, jm_Data = sm_Data m,
      jm_AccessList = sm_AccessList m, jm_GasFeeCap = sm_GasFeeCap m, jm_GasTipCap = sm_GasTipCap m\<rparr>"

text \<open>The hash kept in the message that is filled in stays; here it is a fresh one.\<close>

definition Message_SetJSON :: "message_json \<Rightarrow> substate_message option" where
  "Message_SetJSON j = do {
     c \<leftarrow> jm_GasFeeCap j;
     t \<leftarrow> jm_GasTipCap j;
     Some \<lparr>sm_Nonce = jm_Nonce j, sm_CheckNonce = jm_CheckNonce j, sm_GasPrice = jm_GasPrice j, sm_Gas = jm_Gas j,
           sm_From = jm_From j, sm_To = jm_To j, sm_Value = jm_Value j, sm_Data = jm_Data j, sm_dataHash = None,
           sm_AccessList = jm_AccessList j,
           sm_GasFeeCap = Some (if c = 0 then jm_GasPrice j else c),
           sm_GasTipCap = Some (if t = 0 then jm_GasPrice j else t)\<rparr> }"

record result_json =
  jr_Status :: u64
  jr_Bloom :: bytes
  jr_Logs :: "log list"
  jr_ContractAddress :: address
  jr_GasUsed :: u64

definition NewSubstateResultJSON :: "substate_result \<Rightarrow> result_json" where
  "NewSubstateResultJSON r =
     \<lparr>jr_Status = sr_Status r, jr_Bloom = sr_Bloom r, jr_Logs = sr_Logs r,
      jr_ContractAddress = sr_ContractAddress r, jr_GasUsed = sr_GasUsed r\<rparr>"

definition Result_SetJSON :: "result_json \<Rightarrow> substate_result" where
  "Result_SetJSON j =
     \<lparr>sr_Status = jr_Status j, sr_Bloom = jr_Bloom j, sr_Logs = jr_Logs j,
      sr_ContractAddress = jr_ContractAddress j, sr_GasUsed = jr_GasUsed j\<rparr>"

record substate_json =
  js_InputAlloc :: alloc_json
  js_OutputAlloc :: alloc_json
  js_Env :: env_json
  js_Message :: message_json
  js_Result :: result_json

definition NewSubstateJSON :: "substate \<Rightarrow> substate_json" where
  "NewSubstateJSON s =
     \<lparr>js_InputAlloc = NewSubstateAllocJSON (ss_InputAlloc s), js_OutputAlloc = NewSubstateAllocJSON (ss_OutputAlloc s),
      js_Env = NewSubstateEnvJSON (ss_Env s), js_Message = NewSubstateMessageJSON (ss_Message s),
      js_Result = NewSubstateResultJSON (ss_Result s)\<rparr>"

text \<open>Which of the pointers \<open>Env\<close>, \<open>Message\<close> and \<open>Result\<close> of the substate to be filled in are set.\<close>

record receiver =
  has_Env :: bool
  has_Message :: bool
  has_Result :: bool

definition Substate_SetJSON :: "receiver \<Rightarrow> substate_json \<Rightarrow> substate option" where
  "Substate_SetJSON p j = do {
     require (has_Env p);
     e \<leftarrow> Env_SetJSON (js_Env j);
     require (has_Message p);
     m \<leftarrow> Message_SetJSON (js_Message j);
     require (has_Result p);
     Some \<lparr>ss_InputAlloc = Alloc_SetJSON (js_InputAlloc j), ss_OutputAlloc = Alloc_SetJSON (js_OutputAlloc j),
           ss_Env = e, ss_Message = m, ss_Result = Result_SetJSON (js_Result j)\<rparr> }"

section \<open>There and back\<close>

text \<open>A fee of zero reads as the gas price, a base fee of zero as none.\<close>

definition json_form :: "substate \<Rightarrow> substate" where
  "json_form s =
     (let m = ss_Message s;
          cap = (\<lambda>f. case f of Some c \<Rightarrow> if c = 0 then Some (sm_GasPrice m) else Some c | None \<Rightarrow> None)
      in s\<lparr>ss_Env := (ss_Env s)\<lparr>se_BaseFee := (case se_BaseFee (ss_Env s) of Some b \<Rightarrow> if b = 0 then None else Some b | None \<Rightarrow> None)\<rparr>,
           ss_Message := m\<lparr>sm_dataHash := None, sm_GasFeeCap := cap (sm_GasFeeCap m), sm_GasTipCap := cap (sm_GasTipCap m)\<rparr>\<rparr>)"

definition fees_set :: "substate \<Rightarrow> bool" where
  "fees_set s \<longleftrightarrow> se_BaseFee (ss_Env s) \<noteq> None \<and> sm_GasFeeCap (ss_Message s) \<noteq> None \<and> sm_GasTipCap (ss_Message s) \<noteq> None"

lemma Alloc_SetJSON_back [simp]: "Alloc_SetJSON (NewSubstateAllocJSON alloc) = alloc"
proof -
  have "Account_SetJSON (NewSubstateAccountJSON a) = a" for a
    by (simp add: Account_SetJSON_def NewSubstateAccountJSON_def)
  then show ?thesis
    by (intro fmap_ext) (simp add: Alloc_SetJSON_def NewSubstateAllocJSON_def option.map_comp comp_def option.map_ident)
qed

lemma Result_SetJSON_back [simp]: "Result_SetJSON (NewSubstateResultJSON r) = r"
  by (simp add: Result_SetJSON_def NewSubstateResultJSON_def)

lemma Substate_SetJSON_back:
  "Substate_SetJSON p (NewSubstateJSON s) = Some t \<longleftrightarrow>
     has_Env p \<and> has_Message p \<and> has_Result p \<and> fees_set s \<and> t = json_form s"
  by (cases "se_BaseFee (ss_Env s)"; cases "sm_GasFeeCap (ss_Message s)"; cases "sm_GasTipCap (ss_Message s)")
    (auto simp: Substate_SetJSON_def NewSubstateJSON_def Env_SetJSON_def NewSubstateEnvJSON_def Message_SetJSON_def
      NewSubstateMessageJSON_def fees_set_def json_form_def Let_def)

text \<open>C35: what \<open>NewSubstateJSON\<close> writes is read back, up to fees of zero, exactly when the substate to
  be filled in has its \<open>Env\<close>, \<open>Message\<close> and \<open>Result\<close> set and the substate has the fees of London;
  otherwise \<open>SetJSON\<close> panics.\<close>

theorem SetJSON_NewSubstateJSON:
  "Substate_SetJSON p (NewSubstateJSON s) =
     (if has_Env p \<and> has_Message p \<and> has_Result p \<and> fees_set s then Some (json_form s) else None)"
  using Substate_SetJSON_back [of p s] by (cases "Substate_SetJSON p (NewSubstateJSON s)") auto

text \<open>Without fees of zero the substate itself comes back, up to the kept hash.\<close>

lemma json_form_same:
  assumes "fees_set s" "se_BaseFee (ss_Env s) \<noteq> Some 0" "sm_GasFeeCap (ss_Message s) \<noteq> Some 0"
    "sm_GasTipCap (ss_Message s) \<noteq> Some 0" "sm_dataHash (ss_Message s) = None"
  shows "json_form s = s"
  using assms by (cases s) (auto simp: json_form_def fees_set_def Let_def split: option.splits)

text \<open>A substate of a block before London cannot be read back.\<close>

lemma before_London_panics: "se_BaseFee (ss_Env s) = None \<Longrightarrow> Substate_SetJSON p (NewSubstateJSON s) = None"
  by (simp add: Substate_SetJSON_def NewSubstateJSON_def Env_SetJSON_def NewSubstateEnvJSON_def)

end
