(* ===== verification/TxTracer_Logs.thy ===== *)
theory TxTracer_Logs
  imports TxTracer_Props JumpTable_Code
begin

text \<open>
  The steps the interpreter reports to the tracer.  \<open>charge_step\<close> is an iteration up to the call of
  \<open>CaptureState\<close>: what it hands to the tracer is a step whose stack and gas were checked, and for
  the tables of \<open>NewEVMInterpreter\<close> the operands of a log are then there and its memory range can be
  copied without a panic.
\<close>

section \<open>An iteration up to the tracer\<close>

definition charge_dynamic :: "'t env \<Rightarrow> 't jump_table \<Rightarrow> step_info \<Rightarrow> 't gas_func \<Rightarrow> 't frame \<Rightarrow>
    ('t outcome + step_info \<times> u64 \<times> 't frame) option" where
  "charge_dynamic E jt i g p = (case p of (e, s) \<Rightarrow> do {
     ms \<leftarrow> requested_memory (memorySize (jt (si_op i))) (Stack s);
     case ms of
       Inl err \<Rightarrow> Some (Inl (Halt (e, s) [] (Some err) i))
     | Inr memSize \<Rightarrow> do {
         ((e, c, m), r) \<leftarrow> g E (Stack s) memSize (e, Contract s, Memory s);
         let s = s\<lparr>Contract := c, Memory := m\<rparr>;
         case r of
           Inl err \<Rightarrow> Some (Inl (Halt (e, s) [] (Some ErrOutOfGas) i))
         | Inr dynamicCost \<Rightarrow>
             let i = i\<lparr>si_cost := si_cost i + dynamicCost\<rparr>; (c, ok) = UseGas c dynamicCost; s = s\<lparr>Contract := c\<rparr>
             in Some (if ok then Inr (i, memSize, e, s) else Inl (Halt (e, s) [] (Some ErrOutOfGas) i)) } })"

definition charge_step :: "'t env \<Rightarrow> 't jump_table \<Rightarrow> 't frame \<Rightarrow> ('t outcome + step_info \<times> u64 \<times> 't frame) option" where
  "charge_step E jt p = (case p of (e, s) \<Rightarrow>
     let b = GetOp (Contract s) (sc_pc s);
         x = jt b;
         i = \<lparr>si_pc = sc_pc s, si_op = b, si_gas = Gas (Contract s), si_cost = constantGas x, si_logged = False\<rparr>;
         sLen = int (st_len (Stack s))
     in if sLen < op_minStack x then Some (Inl (Halt (e, s) [] (Some (ErrStackUnderflow sLen (op_minStack x))) i))
        else if sLen > op_maxStack x then Some (Inl (Halt (e, s) [] (Some (ErrStackOverflow sLen (op_maxStack x))) i))
        else let (c, ok) = UseGas (Contract s) (constantGas x); s = s\<lparr>Contract := c\<rparr>
        in if \<not> ok then Some (Inl (Halt (e, s) [] (Some ErrOutOfGas) i))
        else do {
          e \<leftarrow> (if TraceStateFlag E then beforeOpcodeExecutionHook E b (e, s) else Some e);
          case dynamicGas x of
            Some g \<Rightarrow> charge_dynamic E jt i g (e, s)
          | None \<Rightarrow> Some (Inr (i, 0, e, s)) })"

text \<open>The rest of the iteration: the tracer, the memory, the instruction.\<close>

definition after_charge :: "'t callees \<Rightarrow> 't env \<Rightarrow> 't jump_table \<Rightarrow> 't outcome + step_info \<times> u64 \<times> 't frame \<Rightarrow> 't outcome option" where
  "after_charge K E jt r =
     (case r of
        Inl out \<Rightarrow> Some out
      | Inr (i, memSize, e, s) \<Rightarrow> do {
          e \<leftarrow> capture_state E i s None e;
          perform K E jt i (e, if memSize > 0 then s\<lparr>Memory := mem_Resize (Memory s) memSize\<rparr> else s) })"

lemma run_dynamic_charge: "run_dynamic K E jt i g p = Option.bind (charge_dynamic E jt i g p) (after_charge K E jt)"
  by (cases p) (auto simp: run_dynamic_def charge_dynamic_def after_charge_def Let_def split: bind_split sum.split prod.split)

lemma run_step_charge: "run_step K E jt p = Option.bind (charge_step E jt p) (after_charge K E jt)"
  by (cases p) (auto simp: run_step_def charge_step_def after_charge_def Let_def run_dynamic_charge
      split: bind_split option.split prod.split)

section \<open>The entries of the logs\<close>

definition log_op :: "nat \<Rightarrow> 't operation" where
  "log_op n = mk_op (makeLog n) None 0 (Some (makeGasLog (of_nat n))) (minStack (2 + int n) 0) (maxStack (2 + int n) 0) (Some memoryLog)"

definition logs_kept :: "'t jump_table \<Rightarrow> bool" where
  "logs_kept jt \<longleftrightarrow> jt LOG0 = log_op 0 \<and> jt LOG1 = log_op 1 \<and> jt LOG2 = log_op 2 \<and> jt LOG3 = log_op 3 \<and> jt LOG4 = log_op 4"

named_theorems logs "changes of a table that keep the logs"

lemma logs_upd [logs]: "logs_kept jt \<Longrightarrow> b \<notin> {LOG0, LOG1, LOG2, LOG3, LOG4} \<Longrightarrow> logs_kept (jt(b := x))"
  by (simp add: logs_kept_def)

lemma logs_set [logs]:
  "logs_kept jt \<Longrightarrow> b \<notin> {LOG0, LOG1, LOG2, LOG3, LOG4} \<Longrightarrow> logs_kept (set_gas b c jt)"
  "logs_kept jt \<Longrightarrow> b \<notin> {LOG0, LOG1, LOG2, LOG3, LOG4} \<Longrightarrow> logs_kept (set_dyn b g jt)"
  by (simp_all add: set_gas_def set_dyn_def logs)

lemma logs_activators [logs]:
  "logs_kept jt \<Longrightarrow> logs_kept (enable1884 jt)" "logs_kept jt \<Longrightarrow> logs_kept (enable1344 jt)"
  "logs_kept jt \<Longrightarrow> logs_kept (enable2200 jt)" "logs_kept jt \<Longrightarrow> logs_kept (enable2929 jt)"
  "logs_kept jt \<Longrightarrow> logs_kept (enable3529 jt)" "logs_kept jt \<Longrightarrow> logs_kept (enable3198 jt)"
  "logs_kept jt \<Longrightarrow> logs_kept (enable1153 jt)" "logs_kept jt \<Longrightarrow> logs_kept (enable3855 jt)"
  "logs_kept jt \<Longrightarrow> logs_kept (enable3860 jt)" "logs_kept jt \<Longrightarrow> logs_kept (enable5656 jt)"
  "logs_kept jt \<Longrightarrow> logs_kept (enable4844 jt)" "logs_kept jt \<Longrightarrow> logs_kept (enable7516 jt)"
  "logs_kept jt \<Longrightarrow> logs_kept (enable6780 jt)"
  by (simp_all add: logs Let_def enable1884_def enable1344_def enable2200_def enable2929_def enable3529_def enable3198_def
      enable1153_def enable3855_def enable3860_def enable5656_def enable4844_def enable7516_def enable6780_def)

lemma logs_validate: "validate jt = Some t \<Longrightarrow> logs_kept jt \<Longrightarrow> logs_kept t"
  by (simp add: validate_def split: if_split_asm)

text \<open>The entries before those of \<open>frontier_system\<close> lie below \<open>LOG0\<close>.\<close>

lemma low_entries:
  "list_all (\<lambda>b. b < LOG0) (map fst (frontier_arith @ frontier_environment @ frontier_flow @ frontier_pushes @
     frontier_dups @ frontier_swaps :: (byte \<times> 't operation) list))"
proof -
  have "list_all (\<lambda>b. b < LOG0) (map PUSH [2..<33])" "list_all (\<lambda>b. b < LOG0) (map DUP [1..<17])"
    "list_all (\<lambda>b. b < LOG0) (map SWAP [1..<17])" by code_simp+
  then have "list_all (\<lambda>b. b < LOG0) (map fst (frontier_pushes :: (byte \<times> 't operation) list))"
    "list_all (\<lambda>b. b < LOG0) (map fst (frontier_dups :: (byte \<times> 't operation) list))"
    "list_all (\<lambda>b. b < LOG0) (map fst (frontier_swaps :: (byte \<times> 't operation) list))"
    by (simp_all add: frontier_pushes_def frontier_dups_def frontier_swaps_def o_def)
  moreover have "list_all (\<lambda>b. b < LOG0) (map fst (frontier_arith :: (byte \<times> 't operation) list))"
    by (simp add: frontier_arith_def)
  moreover have "list_all (\<lambda>b. b < LOG0) (map fst (frontier_environment :: (byte \<times> 't operation) list))"
    by (simp add: frontier_environment_def)
  moreover have "list_all (\<lambda>b. b < LOG0) (map fst (frontier_flow :: (byte \<times> 't operation) list))"
    by (simp add: frontier_flow_def)
  ultimately show ?thesis by (simp only: map_append list_all_append)
qed

lemma map_of_skip: "k \<notin> set (map fst xs) \<Longrightarrow> map_of (xs @ ys) k = map_of ys k"
  by (induction xs) auto

lemma logs_frontier: "newFrontierInstructionSet = Some t \<Longrightarrow> logs_kept t"
proof -
  let ?pre = "frontier_arith @ frontier_environment @ frontier_flow @ frontier_pushes @ frontier_dups @ frontier_swaps"
  have sys: "map_of frontier_entries b = map_of frontier_system b" if "LOG0 \<le> b" for b
  proof -
    have "b \<notin> set (map fst ?pre)" using low_entries that by (force simp only: list_all_iff not_less [symmetric])
    from map_of_skip [OF this, of frontier_system] show ?thesis by (simp only: frontier_entries_def append_assoc)
  qed
  have "logs_kept (\<lambda>b. case map_of frontier_entries b of Some x \<Rightarrow> x | None \<Rightarrow> undefined_op)"
    by (simp add: logs_kept_def sys frontier_system_def log_op_def)
  then show "newFrontierInstructionSet = Some t \<Longrightarrow> logs_kept t"
    unfolding newFrontierInstructionSet_def by (blast intro: logs_validate)
qed

lemma logs_step:
  "Option.bind m (\<lambda>t. validate (f t)) = Some t \<Longrightarrow> (\<And>t. m = Some t \<Longrightarrow> logs_kept t) \<Longrightarrow>
   (\<And>t. logs_kept t \<Longrightarrow> logs_kept (f t)) \<Longrightarrow> logs_kept t"
  by (auto simp: bind_eq_Some_conv intro: logs_validate)

lemma logs_Homestead: "newHomesteadInstructionSet = Some t \<Longrightarrow> logs_kept t"
  unfolding newHomesteadInstructionSet_def by (erule logs_step [OF _ logs_frontier]) (simp_all add: logs)

lemma logs_TangerineWhistle: "newTangerineWhistleInstructionSet = Some t \<Longrightarrow> logs_kept t"
  unfolding newTangerineWhistleInstructionSet_def Let_def by (erule logs_step [OF _ logs_Homestead]) (simp_all add: logs)

lemma logs_SpuriousDragon: "newSpuriousDragonInstructionSet = Some t \<Longrightarrow> logs_kept t"
  unfolding newSpuriousDragonInstructionSet_def by (erule logs_step [OF _ logs_TangerineWhistle]) (simp_all add: logs)

lemma logs_Byzantium: "newByzantiumInstructionSet = Some t \<Longrightarrow> logs_kept t"
  unfolding newByzantiumInstructionSet_def by (erule logs_step [OF _ logs_SpuriousDragon]) (simp_all add: logs)

lemma logs_Constantinople: "newConstantinopleInstructionSet = Some t \<Longrightarrow> logs_kept t"
  unfolding newConstantinopleInstructionSet_def by (erule logs_step [OF _ logs_Byzantium]) (simp_all add: logs)

lemma logs_Istanbul: "newIstanbulInstructionSet = Some t \<Longrightarrow> logs_kept t"
  unfolding newIstanbulInstructionSet_def by (erule logs_step [OF _ logs_Constantinople]) (simp_all add: logs)

lemma logs_Berlin: "newBerlinInstructionSet = Some t \<Longrightarrow> logs_kept t"
  unfolding newBerlinInstructionSet_def by (erule logs_step [OF _ logs_Istanbul]) (simp_all add: logs)

lemma logs_London: "newLondonInstructionSet = Some t \<Longrightarrow> logs_kept t"
  unfolding newLondonInstructionSet_def by (erule logs_step [OF _ logs_Berlin]) (simp_all add: logs)

lemma logs_Merge: "newMergeInstructionSet = Some t \<Longrightarrow> logs_kept t"
  unfolding newMergeInstructionSet_def by (erule logs_step [OF _ logs_London]) (simp_all add: logs)

lemma logs_Shanghai: "newShanghaiInstructionSet = Some t \<Longrightarrow> logs_kept t"
  unfolding newShanghaiInstructionSet_def by (erule logs_step [OF _ logs_Merge]) (simp_all add: logs)

lemma logs_Cancun: "newCancunInstructionSet = Some t \<Longrightarrow> logs_kept t"
  unfolding newCancunInstructionSet_def by (erule logs_step [OF _ logs_Shanghai]) (simp_all add: logs)

lemmas logs_forks = logs_frontier logs_Homestead logs_TangerineWhistle logs_SpuriousDragon logs_Byzantium logs_Constantinople logs_Istanbul logs_Berlin logs_London logs_Merge logs_Shanghai logs_Cancun

lemma logs_extra: "logs_kept jt \<Longrightarrow> enable_extra eips jt acc = (jt', acc') \<Longrightarrow> logs_kept jt'"
proof (induction eips jt acc rule: enable_extra.induct)
  case (2 eip eips jt acc)
  have "logs_kept j" if "EnableEIP eip jt = Some j" for j
    using that 2(3) by (auto simp: EnableEIP_def activators_def logs split: if_split_asm)
  with 2 show ?case by (simp split: option.split_asm)
qed simp

lemma interpreter_logs: "NewEVMInterpreter E0 = Some (jt, E) \<Longrightarrow> logs_kept jt"
proof -
  assume a: "NewEVMInterpreter E0 = Some (jt, E)"
  then obtain t eips where t: "fork_table (chainRules E0) = Some t" "enable_extra (cfg_ExtraEips (Config E0)) t [] = (jt, eips)"
    by (auto simp: NewEVMInterpreter_def bind_eq_Some_conv case_prod_unfold Let_def prod_eq_iff)
  have "logs_kept t" using t(1) by (auto simp: fork_table_def intro: logs_forks split: if_split_asm)
  from logs_extra [OF this t(2)] show ?thesis .
qed

section \<open>The memory of a log\<close>

lemma uint_nonneg: "0 \<le> sint (x :: u64) \<Longrightarrow> uint x = sint x"
proof -
  assume n: "0 \<le> sint x"
  have "word_of_int (sint x) = x" by simp
  then have "uint x = uint (word_of_int (sint x) :: u64)" by simp
  also have "\<dots> = sint x mod 2 ^ 64" by (simp only: unsigned_of_int take_bit_eq_mod) simp
  also have "\<dots> = sint x" using n sint_lt [of x] by simp
  finally show ?thesis .
qed

lemma wrap64_small: "0 \<le> x \<Longrightarrow> x < 2 ^ 63 \<Longrightarrow> wrap64 x = x"
  by (simp add: wrap64_def signed_of_int signed_take_bit_int_eq_self)

lemma padded_returns:
  assumes "mem_args st 0 1 = Some (n, False)" "n \<le> 0x1FFFFFFFE0"
  shows "GetMemoryCopyPadded m (Int64 (st ! 0)) (Int64 (st ! 1)) \<noteq> None"
proof -
  let ?off = "st ! 0" and ?l = "st ! 1"
  let ?n = "int (mem_Len m)"
  from assms(1) have c: "calcMemSize64 ?off ?l = (n, False)" by (auto simp: mem_args_def st_Back_def)
  have pos: "GetMemoryCopyPadded m off sz \<noteq> None" if "0 \<le> off" "0 \<le> sz" "sz = 0 \<or> wrap64 (off + sz) = off + sz" for off sz
  proof -
    have copy: "mem_GetCopy m off sz \<noteq> None" if "wrap64 (off + sz) < ?n"
      using that \<open>0 \<le> off\<close> \<open>0 \<le> sz\<close> \<open>sz = 0 \<or> _\<close> by (auto simp: mem_GetCopy_def go_slice_def mem_Len_def)
    have ptr: "mem_GetPtr m off (?n - off) \<noteq> None" if "?n - off > 0"
      using that \<open>0 \<le> off\<close> by (auto simp: mem_GetPtr_def go_slice_def mem_Len_def)
    show ?thesis using copy ptr by (auto simp: GetMemoryCopyPadded_def Let_def)
  qed
  show ?thesis
  proof (cases "Int64 ?off < 0 \<or> Int64 ?l < 0")
    case True
    then show ?thesis by (auto simp: GetMemoryCopyPadded_def)
  next
    case False
    have "wrap64 (Int64 ?off + Int64 ?l) = Int64 ?off + Int64 ?l" if "Int64 ?l \<noteq> 0"
    proof -
      have "Uint64 ?l \<noteq> 0" using that by (auto simp: Int64_def)
      then have v: "n = Uint64 ?off + Uint64 ?l" "Uint64 ?off \<le> n"
        using c by (auto simp: calcMemSize64_def calcMemSize64WithUint_def Let_def split: if_split_asm)
      have "int (unat (Uint64 ?off)) = Int64 ?off" "int (unat (Uint64 ?l)) = Int64 ?l"
        using False by (simp_all add: Int64_def uint_nonneg not_less)
      moreover have "unat n = unat (Uint64 ?off) + unat (Uint64 ?l)"
        using v unat_plus_simple [of "Uint64 ?off" "Uint64 ?l"] by simp
      moreover have "unat n \<le> 0x1FFFFFFFE0" using assms(2) by (simp add: word_le_nat_alt)
      ultimately have "Int64 ?off + Int64 ?l \<le> 0x1FFFFFFFE0" by linarith
      with False show ?thesis by (intro wrap64_small) simp_all
    qed
    with False show ?thesis by (intro pos) auto
  qed
qed

lemma requested_log:
  assumes "requested_memory (Some memoryLog) st = Some (Inr sz)" "sz \<le> 0x1FFFFFFFE0"
  obtains n where "mem_args st 0 1 = Some (n, False)" "n \<le> 0x1FFFFFFFE0"
proof -
  from assms(1) obtain n where n: "mem_args st 0 1 = Some (n, False)" "sz = toWordSize n * 32" "unat (toWordSize n) * 32 < 2 ^ 64"
    by (auto simp: requested_memory_def memoryLog_def bind_eq_Some_conv checked_def SafeMul_def not_le split: if_split_asm)
  have "unat n \<le> 32 * words_of (unat n)" by (simp add: words_of_def)
  also have "\<dots> = unat sz" using n(3) unat_toWordSize [of n] by (simp add: n(2) unat_word_ariths)
  finally have "n \<le> sz" by (simp add: word_le_nat_alt)
  with n(1) assms(2) that show thesis by (meson order_trans)
qed

lemma makeGasLog_small:
  assumes "makeGasLog k E st sz (e, c, m) = Some ((e', c', m'), Inr g)"
  shows "sz \<le> 0x1FFFFFFFE0" "c' = c"
  using assms
  by (auto simp: makeGasLog_def after_memory_def memoryGasCost_def bind_eq_Some_conv Let_def
      split: if_split_asm prod.split_asm sum.split_asm)

lemma charge_dynamic_Inr:
  assumes "charge_dynamic E jt i g (e, s) = Some (Inr (i', m, e1, s1))"
  obtains c3 m3 cost where "requested_memory (memorySize (jt (si_op i))) (Stack s) = Some (Inr m)"
    "g E (Stack s) m (e, Contract s, Memory s) = Some ((e1, c3, m3), Inr cost)"
    "Stack s1 = Stack s" "si_op i' = si_op i"
proof -
  from assms obtain ms where ms: "requested_memory (memorySize (jt (si_op i))) (Stack s) = Some ms"
    by (auto simp: charge_dynamic_def bind_eq_Some_conv)
  show thesis
  proof (cases ms)
    case (Inl x)
    with assms ms show thesis by (simp add: charge_dynamic_def)
  next
    case (Inr sz)
    with assms ms obtain x where x: "g E (Stack s) sz (e, Contract s, Memory s) = Some x"
      by (auto simp: charge_dynamic_def bind_eq_Some_conv)
    obtain e3 c3 m3 r where r: "x = ((e3, c3, m3), r)" by (metis prod.exhaust)
    show thesis
    proof (cases r)
      case Inl
      with assms ms Inr x r show thesis by (simp add: charge_dynamic_def Let_def)
    next
      case c: (Inr cost)
      obtain c4 ok where "UseGas c3 cost = (c4, ok)" by fastforce
      with assms ms Inr x r c that show thesis by (auto simp: charge_dynamic_def Let_def split: if_split_asm)
    qed
  qed
qed

lemma charge_step_Inr:
  assumes "charge_step E jt (e, s) = Some (Inr (i, m, e1, s1))"
  defines "b \<equiv> GetOp (Contract s) (sc_pc s)"
  obtains c i0 e0 where "\<not> int (length (Stack s)) < op_minStack (jt b)" "si_op i0 = b"
    "case dynamicGas (jt b) of None \<Rightarrow> i = i0 \<and> e1 = e0 \<and> s1 = s\<lparr>Contract := c\<rparr>
     | Some g \<Rightarrow> charge_dynamic E jt i0 g (e0, s\<lparr>Contract := c\<rparr>) = Some (Inr (i, m, e1, s1))"
proof -
  obtain c ok where u: "UseGas (Contract s) (constantGas (jt b)) = (c, ok)" by fastforce
  with assms(1) obtain e0 where "(if TraceStateFlag E then beforeOpcodeExecutionHook E b (e, s\<lparr>Contract := c\<rparr>) else Some e) = Some e0"
    by (auto simp: charge_step_def Let_def b_def [symmetric] bind_eq_Some_conv split: if_split_asm)
  with assms(1) u that show thesis
    by (auto simp: charge_step_def Let_def b_def [symmetric] st_len_def split: if_split_asm option.split_asm)
      (metis step_info.select_convs(2))+
qed

lemma charge_op: "charge_step E jt (e, s) = Some (Inr (i, m, e1, s1)) \<Longrightarrow> si_op i = GetOp (Contract s) (sc_pc s)"
  by (erule charge_step_Inr) (auto elim: charge_dynamic_Inr split: option.split_asm)

lemma charge_log:
  assumes l: "jt (GetOp (Contract s) (sc_pc s)) = log_op k" and c: "charge_step E jt (e, s) = Some (Inr (i, m, e1, s1))"
  shows "2 + k \<le> length (Stack s1) \<and> GetMemoryCopyPadded (Memory s1) (Int64 (Stack s1 ! 0)) (Int64 (Stack s1 ! 1)) \<noteq> None"
proof -
  obtain cc i0 e0 where n: "2 + k \<le> length (Stack s)" and i0: "si_op i0 = GetOp (Contract s) (sc_pc s)"
    and d: "charge_dynamic E jt i0 (makeGasLog (of_nat k)) (e0, s\<lparr>Contract := cc\<rparr>) = Some (Inr (i, m, e1, s1))"
    by (rule charge_step_Inr [OF c]) (auto simp: l log_op_def mk_op_def minStack_def)
  obtain c3 m3 g where r: "requested_memory (Some memoryLog) (Stack s) = Some (Inr m)"
    "makeGasLog (of_nat k) E (Stack s) m (e0, cc, Memory s) = Some ((e1, c3, m3), Inr g)" "Stack s1 = Stack s"
    by (rule charge_dynamic_Inr [OF d]) (auto simp: i0 l log_op_def mk_op_def)
  obtain n where "mem_args (Stack s) 0 1 = Some (n, False)" "n \<le> 0x1FFFFFFFE0"
    by (rule requested_log [OF r(1) makeGasLog_small(1) [OF r(2)]])
  from padded_returns [OF this] \<open>2 + k \<le> length (Stack s)\<close> r(3) show ?thesis by simp
qed

text \<open>Whatever the interpreter reports before it performs an instruction is fine for the tracer.\<close>

lemma interpreter_logs_fine:
  assumes "NewEVMInterpreter E0 = Some (jt, E)" "charge_step E jt (e, s) = Some (Inr (i, m, e1, s1))"
  shows "log_fine (si_op i) s1"
proof -
  have l: "logs_kept jt" by (rule interpreter_logs [OF assms(1)])
  have "2 + unat (si_op i - LOG0) \<le> length (Stack s1) \<and>
      GetMemoryCopyPadded (Memory s1) (Int64 (Stack s1 ! 0)) (Int64 (Stack s1 ! 1)) \<noteq> None"
    if "si_op i \<in> {LOG0, LOG1, LOG2, LOG3, LOG4}"
  proof -
    have "jt (si_op i) = log_op (unat (si_op i - LOG0))" using that l by (auto simp: logs_kept_def)
    from charge_log [OF this [unfolded charge_op [OF assms(2)]] assms(2)] charge_op [OF assms(2)] show ?thesis by simp
  qed
  then show ?thesis unfolding log_fine_def by blast
qed

section \<open>Exactly when tracing returns\<close>

lemma state_returns_fine: "tt_CaptureState t d pc op g cost s rd dp err = Some r \<Longrightarrow> err \<noteq> None \<or> log_fine op s"
proof -
  have th: "list_all (\<lambda>x. f x \<noteq> None) xs" if "those (map f xs) = Some ys" for f :: "nat \<Rightarrow> u256 option" and xs ys
    using that by (induction xs arbitrary: ys) (auto split: option.split_asm)
  assume a: "tt_CaptureState t d pc op g cost s rd dp err = Some r"
  show ?thesis
  proof (cases "err = None \<and> op \<in> {LOG0, LOG1, LOG2, LOG3, LOG4}")
    case True
    with a obtain x where x: "trace_log_step t op s = Some x" by (auto simp: tt_CaptureState_def bind_eq_Some_conv)
    then obtain ys where ys: "0 < length (Stack s)" "Suc 0 < length (Stack s)"
      "those (map (\<lambda>i. st_Back (Stack s) (2 + i)) [0..<unat (op - LOG0)]) = Some ys"
      "GetMemoryCopyPadded (Memory s) (Int64 (Stack s ! 0)) (Int64 (Stack s ! 1)) \<noteq> None"
      using True unfolding trace_log_step_def by (auto simp: bind_eq_Some_conv st_Back_def)
    from th [OF ys(3)] have "\<forall>i < unat (op - LOG0). 2 + i < length (Stack s)"
      by (auto simp: list_all_iff st_Back_def idx_def split: if_split_asm)
    then have "2 + unat (op - LOG0) \<le> length (Stack s)"
      using ys(2) by (cases "unat (op - LOG0)") auto
    with ys(4) show ?thesis unfolding log_fine_def by blast
  qed (auto simp: log_fine_def)
qed

lemma run_events_fine: "run_events ord evs t = Some t' \<Longrightarrow> events_fine evs"
proof (induction evs arbitrary: t t' rule: events_fine.induct)
  case (2 d pc op g cost s rd dp err evs)
  then show ?case by (auto simp: bind_eq_Some_conv dest!: state_returns_fine split: prod.split_asm)
next
  case (3 d ty src dst inp g v inner d' out used err evs)
  then show ?case by (auto simp: bind_eq_Some_conv split: prod.split_asm)
qed simp

text \<open>
  C26: When tracing panics.  Once the outermost call was started, tracing a transaction with a ready
  tracer that records no states returns exactly when every reported log is one whose operands are on
  the stack and whose memory can be copied; nothing else makes it panic.  The interpreter only reports
  such steps: an iteration is \<open>charge_step\<close> followed by the call of \<open>CaptureState\<close> and the
  instruction, and for the tables of \<open>NewEVMInterpreter\<close> whatever leaves \<open>charge_step\<close> has its
  operands and a payable memory range.
\<close>

theorem run_tx_returns:
  assumes "ready t" "\<not> tt_isRecordState t"
  shows "((\<exists>t'. run_tx ord t gasLimit d src dst isCreate inp g v evs d' out used err restGas = Some t') \<longleftrightarrow> events_fine evs) \<and>
    (\<forall>K (E :: tx_tracer env) jt p. run_step K E jt p = Option.bind (charge_step E jt p) (after_charge K E jt)) \<and>
    (\<forall>E0 (E :: tx_tracer env) jt p i m e s. NewEVMInterpreter E0 = Some (jt, E) \<longrightarrow>
       charge_step E jt p = Some (Inr (i, m, e, s)) \<longrightarrow> log_fine (si_op i) s)"
proof (intro conjI allI impI iffI)
  assume "\<exists>t'. run_tx ord t gasLimit d src dst isCreate inp g v evs d' out used err restGas = Some t'"
  then show "events_fine evs" by (auto simp: run_tx_def bind_eq_Some_conv intro: run_events_fine)
next
  fix E0 E :: "tx_tracer env" and jt p i m e s
  assume "NewEVMInterpreter E0 = Some (jt, E)" "charge_step E jt p = Some (Inr (i, m, e, s))"
  then show "log_fine (si_op i) s" by (cases p) (auto intro: interpreter_logs_fine)
qed (use assms run_tx_some run_step_charge in blast)+

text \<open>A log of one word that was paid for, and one whose operands are missing.\<close>

definition demo_log :: "u256 list \<Rightarrow> event list" where
  "demo_log st = [Step (New demo_db None) 0 LOG0 90 1 \<lparr>sc_pc = 0, Stack = st, Memory = NewMemory,
     Contract = demo_contract [LOG0] 90\<rparr> [] 1 None]"

lemma run_tx_returns_witness:
  "(\<exists>t'. run_tx demo_order NewTxTracer 100 (New demo_db None) 9 7 False [] 90 0 (demo_log [0, 32]) (New demo_db None) [] 60
     (Some ErrExecutionReverted) 40 = Some t') \<and>
   \<not> (\<exists>t'. run_tx demo_order NewTxTracer 100 (New demo_db None) 9 7 False [] 90 0 (demo_log [0]) (New demo_db None) [] 60
     (Some ErrExecutionReverted) 40 = Some t')"
proof -
  have "GetMemoryCopyPadded NewMemory 0 32 \<noteq> None"
    by (simp add: GetMemoryCopyPadded_def NewMemory_def mem_Len_def wrap64_small)
  then have "events_fine (demo_log [0, 32])" "\<not> events_fine (demo_log [0])"
    by (simp_all add: demo_log_def log_fine_def Int64_def Uint64_def)
  then show ?thesis using run_tx_returns [OF demo_events_fine(2,3), THEN conjunct1] by blast
qed

end
