(* ===== verification/Spec2Isabelle.thy ===== *)
theory Spec2Isabelle
  imports StateDB_Props Analysis RlpDecode_Props Gas_Props TxTracer_Props Transition_Props
    SubstateDB_Props SubstateJSON TxTracer_Logs
begin

text \<open>
  Verification of the Go backend of SmartOracle (\<^verbatim>\<open>src/SmartOracle_backend\<close>).
\<close>

end
